(* ===== verification/Prelude.thy ===== *)
theory Prelude
  imports
    Main
    "HOL-Library.Char_ord"
    "HOL-Library.List_Lexorder"
    "HOL-Library.AList"
    "HOL-Library.Word"
begin

text \<open>
  Shared vocabulary of the development: Go strings and byte slices (both are \<open>string\<close>, a list
  of 8-bit characters), 64-bit signed arithmetic written out, the functions of Go's standard
  packages \<open>strings\<close>, \<open>strconv\<close> and \<open>encoding/hex\<close> that the repository calls, and the three
  list facts every component uses. String order is the lexicographic order of bytes, as Go's \<open><\<close>
  on strings.
\<close>

type_synonym bytes = string
type_synonym gomap = "(string \<times> string) list"

named_theorems go_eval \<open>definitions unfolded to evaluate the models of Go's library functions\<close>

text \<open>
  \<open>url.Values\<close> and \<open>http.Header\<close>: keys with their values. \<open>Get\<close> answers the first value or the
  empty string; the model's header maps hold canonical keys.
\<close>

type_synonym url_values = "(string \<times> string list) list"

definition vals_get :: "url_values \<Rightarrow> string \<Rightarrow> string" where
  "vals_get q k = (case map_of q k of Some (v # _) \<Rightarrow> v | _ \<Rightarrow> '''')"

definition vals_has :: "url_values \<Rightarrow> string \<Rightarrow> bool" where
  "vals_has q k \<longleftrightarrow> map_of q k \<noteq> None"

definition gomap_get :: "gomap \<Rightarrow> string \<Rightarrow> string" where
  "gomap_get m k = (case map_of m k of Some v \<Rightarrow> v | None \<Rightarrow> '''')"

section \<open>Signed 64-bit integers\<close>

text \<open>An \<open>int64\<close> is an \<open>int\<close>; each addition and subtraction of the source wraps explicitly.\<close>

definition i64 :: "int \<Rightarrow> int" where
  "i64 x = (x + 2 ^ 63) mod 2 ^ 64 - 2 ^ 63"

definition max_int64 :: int where
  "max_int64 = 2 ^ 63 - 1"

definition min_int64 :: int where
  "min_int64 = - (2 ^ 63)"

definition is_i64 :: "int \<Rightarrow> bool" where
  "is_i64 x \<longleftrightarrow> min_int64 \<le> x \<and> x \<le> max_int64"

lemma i64_id [simp]: "is_i64 x \<Longrightarrow> i64 x = x"
  by (simp add: is_i64_def i64_def min_int64_def max_int64_def)

lemma i64_range: "is_i64 (i64 x)"
proof -
  have "0 \<le> (x + 2 ^ 63) mod 2 ^ 64" and "(x + 2 ^ 63) mod 2 ^ 64 < (2 ^ 64 :: int)"
    by (rule pos_mod_sign pos_mod_bound; simp)+
  then show ?thesis by (simp add: is_i64_def i64_def min_int64_def max_int64_def)
qed

lemma i64_above:
  "max_int64 < x \<Longrightarrow> x \<le> max_int64 + 2 ^ 64 \<Longrightarrow> i64 x = x - 2 ^ 64"
proof -
  assume a: "max_int64 < x" "x \<le> max_int64 + 2 ^ 64"
  have "(x + 2 ^ 63) mod 2 ^ 64 = (x + 2 ^ 63 - 2 ^ 64) mod 2 ^ 64"
    using mod_add_self2 [of "x + 2 ^ 63 - 2 ^ 64" "2 ^ 64"] by (simp add: add.commute)
  also have "\<dots> = x + 2 ^ 63 - 2 ^ 64"
    using a by (intro mod_pos_pos_trivial) (simp_all add: max_int64_def)
  finally show ?thesis by (simp add: i64_def)
qed

section \<open>Package strings\<close>

definition has_prefix :: "string \<Rightarrow> string \<Rightarrow> bool" where
  "has_prefix s p \<longleftrightarrow> take (length p) s = p"

definition has_suffix :: "string \<Rightarrow> string \<Rightarrow> bool" where
  "has_suffix s p \<longleftrightarrow> has_prefix (rev s) (rev p)"

definition trim_left :: "string \<Rightarrow> string \<Rightarrow> string" where
  "trim_left s cutset = dropWhile (\<lambda>c. c \<in> set cutset) s"

definition trim_right :: "string \<Rightarrow> string \<Rightarrow> string" where
  "trim_right s cutset = rev (trim_left (rev s) cutset)"

definition trim :: "string \<Rightarrow> string \<Rightarrow> string" where
  "trim s cutset = trim_right (trim_left s cutset) cutset"

text \<open>The white space of \<open>strings.TrimSpace\<close>, restricted to ASCII.\<close>

definition go_space :: string where
  "go_space = [CHR 0x09, CHR 0x0A, CHR 0x0B, CHR 0x0C, CHR 0x0D, CHR '' '']"

definition trim_space :: "string \<Rightarrow> string" where
  "trim_space s = trim s go_space"

definition to_lower_char :: "char \<Rightarrow> char" where
  "to_lower_char c =
     (if CHR ''A'' \<le> c \<and> c \<le> CHR ''Z'' then char_of (of_char c + 32 :: nat) else c)"

definition to_lower :: "string \<Rightarrow> string" where
  "to_lower s = map to_lower_char s"

definition trim_prefix :: "string \<Rightarrow> string \<Rightarrow> string" where
  "trim_prefix s p = (if has_prefix s p then drop (length p) s else s)"

text \<open>\<open>strings.Index\<close>; \<open>None\<close> stands for -1.\<close>

fun index_of :: "string \<Rightarrow> string \<Rightarrow> nat option" where
  "index_of [] p = (if p = [] then Some 0 else None)"
| "index_of (c # cs) p =
     (if has_prefix (c # cs) p then Some 0 else map_option Suc (index_of cs p))"

text \<open>\<open>strings.LastIndexByte\<close>\<close>

fun last_index_byte :: "string \<Rightarrow> char \<Rightarrow> nat option" where
  "last_index_byte [] b = None"
| "last_index_byte (c # cs) b =
     (case last_index_byte cs b of Some i \<Rightarrow> Some (Suc i) | None \<Rightarrow> if c = b then Some 0 else None)"

text \<open>
  \<open>strings.Split\<close>: with an empty separator the string is exploded, otherwise it is cut at every
  non-overlapping occurrence, from the left.
\<close>

fun split_aux :: "string \<Rightarrow> string \<Rightarrow> string \<Rightarrow> string list" where
  "split_aux sep acc [] = [rev acc]"
| "split_aux sep acc (c # cs) =
     (if has_prefix (c # cs) sep then rev acc # split_aux sep [] (drop (length sep - 1) cs)
      else split_aux sep (c # acc) cs)"

definition split_str :: "string \<Rightarrow> string \<Rightarrow> string list" where
  "split_str s sep = (if sep = [] then map (\<lambda>c. [c]) s else split_aux sep [] s)"

text \<open>\<open>strings.SplitN(s, sep, 2)\<close> for a non-empty separator\<close>

definition split_n2 :: "string \<Rightarrow> string \<Rightarrow> string list" where
  "split_n2 s sep =
     (case index_of s sep of None \<Rightarrow> [s] | Some i \<Rightarrow> [take i s, drop (i + length sep) s])"

fun join :: "string list \<Rightarrow> string \<Rightarrow> string" where
  "join [] sep = []"
| "join [x] sep = x"
| "join (x # y # zs) sep = x @ sep @ join (y # zs) sep"

section \<open>Packages strconv and encoding/hex\<close>

definition digit_char :: "nat \<Rightarrow> char" where
  "digit_char d = char_of (48 + d)"

definition is_digit :: "char \<Rightarrow> bool" where
  "is_digit c \<longleftrightarrow> CHR ''0'' \<le> c \<and> c \<le> CHR ''9''"

definition digit_val :: "char \<Rightarrow> nat" where
  "digit_val c = of_char c - 48"

fun nat_str :: "nat \<Rightarrow> string" where
  "nat_str n = (if n < 10 then [digit_char n] else nat_str (n div 10) @ [digit_char (n mod 10)])"

declare nat_str.simps [simp del]

definition int_str :: "int \<Rightarrow> string" where
  "int_str i = (if i < 0 then CHR ''-'' # nat_str (nat (- i)) else nat_str (nat i))"

definition digits_val :: "string \<Rightarrow> nat" where
  "digits_val ds = foldl (\<lambda>n c. 10 * n + digit_val c) 0 ds"

text \<open>\<open>strconv.ParseInt(s, 10, 64)\<close> (and bit size 0 on a 64-bit platform); \<open>None\<close> is an error\<close>

definition parse_digits :: "string \<Rightarrow> nat option" where
  "parse_digits ds = (if ds \<noteq> [] \<and> list_all is_digit ds then Some (digits_val ds) else None)"

definition parse_int :: "string \<Rightarrow> int option" where
  "parse_int s =
     (let neg = (has_prefix s ''-'');
          ds = (if neg \<or> has_prefix s ''+'' then drop 1 s else s)
      in case parse_digits ds of
           None \<Rightarrow> None
         | Some n \<Rightarrow> (let v = (if neg then - int n else int n)
                      in if is_i64 v then Some v else None))"

definition hex_digit :: "nat \<Rightarrow> char" where
  "hex_digit d = (if d < 10 then char_of (48 + d) else char_of (87 + d))"

definition hex_byte :: "char \<Rightarrow> string" where
  "hex_byte c = [hex_digit (of_char c div 16), hex_digit (of_char c mod 16)]"

definition hex_encode :: "bytes \<Rightarrow> string" where
  "hex_encode bs = concat (map hex_byte bs)"

definition hex_val :: "char \<Rightarrow> nat option" where
  "hex_val c =
     (let n = of_char c :: nat
      in if 48 \<le> n \<and> n \<le> 57 then Some (n - 48)
         else if 97 \<le> n \<and> n \<le> 102 then Some (n - 87)
         else if 65 \<le> n \<and> n \<le> 70 then Some (n - 55)
         else None)"

fun hex_decode :: "string \<Rightarrow> bytes option" where
  "hex_decode [] = Some []"
| "hex_decode [c] = None"
| "hex_decode (c # d # cs) =
     (case (hex_val c, hex_val d, hex_decode cs) of
        (Some h, Some l, Some bs) \<Rightarrow> Some (char_of (16 * h + l) # bs)
      | _ \<Rightarrow> None)"

definition quoted :: "string \<Rightarrow> string" where
  "quoted s = [CHR 0x22] @ s @ [CHR 0x22]"

lemmas go_string_defs [go_eval] =
  vals_get_def vals_has_def gomap_get_def
  has_prefix_def has_suffix_def trim_left_def trim_right_def trim_def go_space_def
  trim_space_def to_lower_char_def to_lower_def trim_prefix_def split_str_def split_n2_def

lemmas go_number_defs [go_eval] =
  digit_char_def is_digit_def digit_val_def nat_str.simps int_str_def digits_val_def
  parse_digits_def parse_int_def is_i64_def min_int64_def max_int64_def i64_def
  hex_digit_def hex_byte_def hex_encode_def hex_val_def quoted_def

section \<open>Lemmas on strings\<close>

lemma has_prefix_iff: "has_prefix s p \<longleftrightarrow> (\<exists>r. s = p @ r)"
  by (metis append_eq_conv_conj append_take_drop_id has_prefix_def)

lemma has_prefix_Nil [simp]: "has_prefix s []"
  by (simp add: has_prefix_def)

lemma has_prefix_self_append [simp]: "has_prefix (p @ r) p"
  by (simp add: has_prefix_def)

lemma has_prefix_single [simp]: "has_prefix (c # cs) [d] \<longleftrightarrow> c = d"
  by (simp add: has_prefix_def)

lemma has_prefix_Nil_left [simp]: "has_prefix [] p \<longleftrightarrow> p = []"
  by (auto simp: has_prefix_def)

lemma has_prefix_Cons_Cons [simp]: "has_prefix (c # cs) (d # ds) \<longleftrightarrow> c = d \<and> has_prefix cs ds"
  by (auto simp: has_prefix_def)

lemma trim_left_id: "s = [] \<or> hd s \<notin> set cutset \<Longrightarrow> trim_left s cutset = s"
  by (cases s) (auto simp: trim_left_def)

lemma trim_left_hd: "trim_left s cutset = [] \<or> hd (trim_left s cutset) \<notin> set cutset"
  using hd_dropWhile [of "\<lambda>c. c \<in> set cutset" s] by (auto simp: trim_left_def)

lemma trim_right_id: "s = [] \<or> last s \<notin> set cutset \<Longrightarrow> trim_right s cutset = s"
  by (cases s rule: rev_cases) (auto simp: trim_right_def trim_left_def)

lemma join_Cons: "xs \<noteq> [] \<Longrightarrow> join (x # xs) sep = x @ sep @ join xs sep"
  by (cases xs) auto

lemma join_append:
  "xs \<noteq> [] \<Longrightarrow> ys \<noteq> [] \<Longrightarrow> join (xs @ ys) sep = join xs sep @ sep @ join ys sep"
  by (induction xs sep rule: join.induct) (auto simp: join_Cons)

text \<open>Splitting at a one-character separator.\<close>

fun split_char :: "char \<Rightarrow> string \<Rightarrow> string list" where
  "split_char d [] = [[]]"
| "split_char d (c # cs) =
     (if c = d then [] # split_char d cs
      else case split_char d cs of [] \<Rightarrow> [[c]] | x # xs \<Rightarrow> (c # x) # xs)"

lemma split_char_not_Nil [simp]: "split_char d s \<noteq> []"
  by (cases s) (auto split: list.splits)

lemma split_aux_single:
  "split_aux [d] acc s = (case split_char d s of [] \<Rightarrow> [] | x # xs \<Rightarrow> (rev acc @ x) # xs)"
  by (induction s arbitrary: acc) (auto split: list.splits)

lemma split_str_single: "split_str s [d] = split_char d s"
  using split_char_not_Nil [of d s] by (auto simp: split_str_def split_aux_single split: list.splits)

lemma join_split_char [simp]: "join (split_char d s) [d] = s"
proof (induction s)
  case (Cons c cs)
  then show ?case
    using split_char_not_Nil [of d cs]
    by (cases "split_char d cs"; cases "tl (split_char d cs)") (auto simp: join_Cons)
qed simp

lemma split_char_no_sep: "x \<in> set (split_char d s) \<Longrightarrow> d \<notin> set x"
  by (induction s arbitrary: x) (auto split: if_splits list.splits)

lemma split_char_fresh: "d \<notin> set s \<Longrightarrow> split_char d s = [s]"
  by (induction s) auto

lemma split_char_append:
  "split_char d (s @ d # t) = split_char d s @ split_char d t"
  by (induction s) (auto split: list.splits)

lemma split_char_join:
  assumes "xs \<noteq> []" and "\<And>x. x \<in> set xs \<Longrightarrow> d \<notin> set x"
  shows "split_char d (join xs [d]) = xs"
  using assms
  by (induction xs "[d]" rule: join.induct) (simp_all add: split_char_fresh split_char_append)

section \<open>Lemmas on numbers and hexadecimal text\<close>

lemma char_of_nat_inject:
  "m < 256 \<Longrightarrow> n < 256 \<Longrightarrow> char_of (m :: nat) = char_of n \<longleftrightarrow> m = n"
  by (metis mod_less of_char_of)

lemma of_char_digit_char [simp]: "d < 10 \<Longrightarrow> of_char (digit_char d) = (48 + d :: nat)"
  by (simp add: digit_char_def)

lemma digit_val_digit_char [simp]: "d < 10 \<Longrightarrow> digit_val (digit_char d) = d"
  by (simp add: digit_val_def)

lemma is_digit_digit_char [simp]: "d < 10 \<Longrightarrow> is_digit (digit_char d)"
  by (simp add: is_digit_def less_eq_char_def)

lemma nat_str_not_Nil [simp]: "nat_str n \<noteq> []"
  by (subst nat_str.simps) simp

lemma nat_str_digits: "list_all is_digit (nat_str n)"
proof (induction n rule: nat_str.induct)
  case (1 n)
  then show ?case by (subst nat_str.simps) simp
qed

lemma digits_val_snoc [simp]: "digits_val (ds @ [c]) = 10 * digits_val ds + digit_val c"
  by (simp add: digits_val_def)

lemma digits_val_nat_str [simp]: "digits_val (nat_str n) = n"
proof (induction n rule: nat_str.induct)
  case (1 n)
  show ?case
  proof (cases "n < 10")
    case True
    then show ?thesis by (subst nat_str.simps) (simp add: digits_val_def)
  next
    case False
    with 1 show ?thesis by (subst nat_str.simps) simp
  qed
qed

lemma nat_str_inject [simp]: "nat_str m = nat_str n \<longleftrightarrow> m = n"
  by (metis digits_val_nat_str)

lemma parse_digits_nat_str [simp]: "parse_digits (nat_str n) = Some n"
  by (simp add: parse_digits_def nat_str_digits)

lemma hd_nat_str: "is_digit (hd (nat_str n))"
  using nat_str_digits [of n] by (cases "nat_str n") auto

lemma digit_not_sign: "is_digit c \<Longrightarrow> c \<noteq> CHR ''-'' \<and> c \<noteq> CHR ''+''"
  by (auto simp: is_digit_def less_eq_char_def)

lemma nat_str_no_sign [simp]:
  "\<not> has_prefix (nat_str n) ''-''" "\<not> has_prefix (nat_str n) ''+''"
  using hd_nat_str [of n] digit_not_sign nat_str_not_Nil [of n]
  by (cases "nat_str n"; simp)+

lemma parse_int_nat_str: "int n \<le> max_int64 \<Longrightarrow> parse_int (nat_str n) = Some (int n)"
  by (simp add: parse_int_def Let_def is_i64_def min_int64_def)

lemma parse_int_i64: "parse_int s = Some v \<Longrightarrow> is_i64 v"
  by (auto simp: parse_int_def Let_def split: option.splits if_splits)

lemma hex_val_hex_digit [simp]: "d < 16 \<Longrightarrow> hex_val (hex_digit d) = Some d"
  by (simp add: hex_val_def hex_digit_def)

lemma hex_decode_encode [simp]: "hex_decode (hex_encode bs) = Some bs"
proof (induction bs)
  case (Cons b bs)
  have "of_char b div 16 < (16 :: nat)"
    using nat_of_char_less_256 [of b] by linarith
  moreover have "16 * (of_char b div 16) + of_char b mod 16 = (of_char b :: nat)"
    by simp
  ultimately show ?case
    using Cons by (simp add: hex_encode_def hex_byte_def)
qed (simp add: hex_encode_def)

lemma hex_encode_inject [simp]: "hex_encode a = hex_encode b \<longleftrightarrow> a = b"
  by (metis hex_decode_encode option.inject)

lemma hex_encode_digits: "c \<in> set (hex_encode bs) \<Longrightarrow> hex_val c \<noteq> None"
proof (induction bs)
  case (Cons b bs)
  have "of_char b div 16 < (16 :: nat)" using nat_of_char_less_256 [of b] by linarith
  with Cons show ?case by (auto simp: hex_encode_def hex_byte_def)
qed (simp add: hex_encode_def)

lemma hex_encode_no_quote: "CHR 0x22 \<notin> set (hex_encode bs)"
  using hex_encode_digits [of "CHR 0x22" bs] by (auto simp: hex_val_def)

lemma trim_no_cutset: "set s \<inter> set cutset = {} \<Longrightarrow> trim s cutset = s"
  by (cases s; cases s rule: rev_cases)
    (auto simp: trim_def trim_left_id trim_right_id last_in_set disjoint_iff)

lemma trim_quoted:
  assumes "CHR 0x22 \<notin> set s"
  shows "trim (quoted s) [CHR 0x22] = s"
proof (cases "s = []")
  case True
  then show ?thesis by (simp add: trim_def trim_right_def trim_left_def quoted_def)
next
  case False
  then have "trim_left (quoted s) [CHR 0x22] = s @ [CHR 0x22]"
    using assms by (cases s) (auto simp: trim_left_def quoted_def)
  moreover have "trim_left (CHR 0x22 # rev s) [CHR 0x22] = rev s"
    using assms False trim_left_id [of "rev s" "[CHR 0x22]"]
    by (simp add: trim_left_def hd_rev) (metis last_in_set)
  ultimately show ?thesis by (simp add: trim_def trim_right_def)
qed

section \<open>Association lists and sorted lists\<close>

lemma map_of_update [simp]: "map_of (AList.update k v al) = (map_of al)(k \<mapsto> v)"
  by (rule update_conv')

lemma map_of_delete [simp]: "map_of (AList.delete k al) = (map_of al)(k := None)"
  by (rule delete_conv')

lemma sorted_wrt_less_distinct: "sorted_wrt (<) (xs :: 'a :: linorder list) \<Longrightarrow> distinct xs"
  by (simp add: strict_sorted_iff)

lemma parse_int_int_str: "is_i64 i \<Longrightarrow> parse_int (int_str i) = Some i"
  using nat_str_no_sign [of "nat i"] by (auto simp: int_str_def parse_int_def Let_def has_prefix_def)

end
