(* ===== verification/Errors.thy ===== *)
theory Errors
  imports Prelude
begin

text \<open>
  \<open>error.go\<close>: the S3 error codes with their wire names, messages and HTTP statuses, the error
  values of the package as one datatype (one constructor per Go error type), and the outcome type
  \<open>res\<close> of every fallible operation: a value, an error, a Go panic, or (only for the loops over
  third-party iterators) fuel that ran out.
\<close>

section \<open>Error codes\<close>

datatype ErrorCode =
    ErrNone | ErrBadDigest | ErrBucketAlreadyExists | ErrBucketNotEmpty
  | ErrIllegalVersioningConfiguration | ErrIncompleteBody
  | ErrIncorrectNumberOfFilesInPostRequest | ErrInlineDataTooLarge | ErrInvalidArgument
  | ErrInvalidBucketName | ErrInvalidDigest | ErrInvalidRange | ErrInvalidToken | ErrKeyTooLong
  | ErrMalformedPOSTRequest | ErrInvalidPart | ErrInvalidPartOrder | ErrInvalidURI
  | ErrMetadataTooLarge | ErrMethodNotAllowed | ErrMalformedXML | ErrMissingContentLength
  | ErrNoSuchBucket | ErrNonExistentBucket | ErrNoSuchKey | ErrNoSuchUpload | ErrNoSuchVersion
  | ErrNotModified | ErrRequestTimeTooSkewed | ErrTooManyBuckets | ErrNotImplemented | ErrInternal

definition all_codes :: "ErrorCode list" where
  "all_codes =
     [ErrNone, ErrBadDigest, ErrBucketAlreadyExists, ErrBucketNotEmpty,
      ErrIllegalVersioningConfiguration, ErrIncompleteBody,
      ErrIncorrectNumberOfFilesInPostRequest, ErrInlineDataTooLarge, ErrInvalidArgument,
      ErrInvalidBucketName, ErrInvalidDigest, ErrInvalidRange, ErrInvalidToken, ErrKeyTooLong,
      ErrMalformedPOSTRequest, ErrInvalidPart, ErrInvalidPartOrder, ErrInvalidURI,
      ErrMetadataTooLarge, ErrMethodNotAllowed, ErrMalformedXML, ErrMissingContentLength,
      ErrNoSuchBucket, ErrNonExistentBucket, ErrNoSuchKey, ErrNoSuchUpload, ErrNoSuchVersion,
      ErrNotModified, ErrRequestTimeTooSkewed, ErrTooManyBuckets, ErrNotImplemented, ErrInternal]"

fun code_string :: "ErrorCode \<Rightarrow> string" where
  "code_string ErrNone = ''''"
| "code_string ErrBadDigest = ''BadDigest''"
| "code_string ErrBucketAlreadyExists = ''BucketAlreadyExists''"
| "code_string ErrBucketNotEmpty = ''BucketNotEmpty''"
| "code_string ErrIllegalVersioningConfiguration = ''IllegalVersioningConfigurationException''"
| "code_string ErrIncompleteBody = ''IncompleteBody''"
| "code_string ErrIncorrectNumberOfFilesInPostRequest = ''IncorrectNumberOfFilesInPostRequest''"
| "code_string ErrInlineDataTooLarge = ''InlineDataTooLarge''"
| "code_string ErrInvalidArgument = ''InvalidArgument''"
| "code_string ErrInvalidBucketName = ''InvalidBucketName''"
| "code_string ErrInvalidDigest = ''InvalidDigest''"
| "code_string ErrInvalidRange = ''InvalidRange''"
| "code_string ErrInvalidToken = ''InvalidToken''"
| "code_string ErrKeyTooLong = ''KeyTooLongError''"
| "code_string ErrMalformedPOSTRequest = ''MalformedPOSTRequest''"
| "code_string ErrInvalidPart = ''InvalidPart''"
| "code_string ErrInvalidPartOrder = ''InvalidPartOrder''"
| "code_string ErrInvalidURI = ''InvalidURI''"
| "code_string ErrMetadataTooLarge = ''MetadataTooLarge''"
| "code_string ErrMethodNotAllowed = ''MethodNotAllowed''"
| "code_string ErrMalformedXML = ''MalformedXML''"
| "code_string ErrMissingContentLength = ''MissingContentLength''"
| "code_string ErrNoSuchBucket = ''NoSuchBucket''"
| "code_string ErrNonExistentBucket = ''NonExistentBucket''"
| "code_string ErrNoSuchKey = ''NoSuchKey''"
| "code_string ErrNoSuchUpload = ''NoSuchUpload''"
| "code_string ErrNoSuchVersion = ''NoSuchVersion''"
| "code_string ErrNotModified = ''NotModified''"
| "code_string ErrRequestTimeTooSkewed = ''RequestTimeTooSkewed''"
| "code_string ErrTooManyBuckets = ''TooManyBuckets''"
| "code_string ErrNotImplemented = ''NotImplemented''"
| "code_string ErrInternal = ''InternalError''"

datatype InternalErrorCode = ErrInternalPageNotImplemented

fun code_Message :: "ErrorCode \<Rightarrow> string" where
  "code_Message ErrInvalidBucketName =
     ''Bucket name must match the regex '' @ quoted (''^[a-zA-Z0-9.'' @ [CHR 0x5C] @ ''-_]{1,255}$'')"
| "code_Message ErrNoSuchBucket = ''The specified bucket does not exist''"
| "code_Message ErrRequestTimeTooSkewed =
     ''The difference between the request time and the current time is too large''"
| "code_Message ErrMalformedXML =
     ''The XML you provided was not well-formed or did not validate against our published schema''"
| "code_Message _ = ''''"

fun code_Status :: "ErrorCode \<Rightarrow> nat" where
  "code_Status ErrBucketAlreadyExists = 409"
| "code_Status ErrBucketNotEmpty = 409"
| "code_Status ErrBadDigest = 400"
| "code_Status ErrIllegalVersioningConfiguration = 400"
| "code_Status ErrIncompleteBody = 400"
| "code_Status ErrIncorrectNumberOfFilesInPostRequest = 400"
| "code_Status ErrInlineDataTooLarge = 400"
| "code_Status ErrInvalidArgument = 400"
| "code_Status ErrInvalidBucketName = 400"
| "code_Status ErrInvalidDigest = 400"
| "code_Status ErrInvalidPart = 400"
| "code_Status ErrInvalidPartOrder = 400"
| "code_Status ErrInvalidToken = 400"
| "code_Status ErrInvalidURI = 400"
| "code_Status ErrKeyTooLong = 400"
| "code_Status ErrMetadataTooLarge = 400"
| "code_Status ErrMethodNotAllowed = 400"
| "code_Status ErrMalformedPOSTRequest = 400"
| "code_Status ErrMalformedXML = 400"
| "code_Status ErrTooManyBuckets = 400"
| "code_Status ErrRequestTimeTooSkewed = 403"
| "code_Status ErrInvalidRange = 416"
| "code_Status ErrNoSuchBucket = 404"
| "code_Status ErrNoSuchKey = 404"
| "code_Status ErrNoSuchUpload = 404"
| "code_Status ErrNoSuchVersion = 404"
| "code_Status ErrNotImplemented = 501"
| "code_Status ErrNotModified = 304"
| "code_Status ErrMissingContentLength = 411"
| "code_Status ErrInternal = 500"
| "code_Status _ = 500"

section \<open>Error values\<close>

record ErrorResponse =
  er_Code :: ErrorCode
  er_Message :: string
  er_RequestID :: string
  er_HostID :: string

datatype s3error =
    ECode ErrorCode
  | EInternalCode InternalErrorCode
  | EResponse ErrorResponse
  | EInvalidArgumentResponse ErrorResponse string string
  | EResourceResponse ErrorResponse string
  | ESkewedResponse ErrorResponse int int
  | EOther string \<comment> \<open>an error value of another package, known by its text\<close>

definition ErrorMessage :: "ErrorCode \<Rightarrow> string \<Rightarrow> s3error" where
  "ErrorMessage code message =
     EResponse \<lparr>er_Code = code, er_Message = message, er_RequestID = '''', er_HostID = ''''\<rparr>"

definition ErrorInvalidArgument :: "string \<Rightarrow> string \<Rightarrow> string \<Rightarrow> s3error" where
  "ErrorInvalidArgument nm val message =
     EInvalidArgumentResponse
       \<lparr>er_Code = ErrInvalidArgument, er_Message = message, er_RequestID = '''', er_HostID = ''''\<rparr>
       nm val"

definition ResourceError :: "ErrorCode \<Rightarrow> string \<Rightarrow> s3error" where
  "ResourceError code resource =
     EResourceResponse
       \<lparr>er_Code = code, er_Message = code_Message code, er_RequestID = '''', er_HostID = ''''\<rparr>
       resource"

definition BucketNotFound :: "string \<Rightarrow> s3error" where
  "BucketNotFound bucket = ResourceError ErrNoSuchBucket bucket"

definition KeyNotFound :: "string \<Rightarrow> s3error" where
  "KeyNotFound key = ResourceError ErrNoSuchKey key"

text \<open>A \<open>Duration\<close> of nanoseconds as milliseconds; Go's division truncates towards zero.\<close>

definition durationAsMilliseconds_MarshalXML :: "int \<Rightarrow> string" where
  "durationAsMilliseconds_MarshalXML m = int_str (sgn m * (\<bar>m\<bar> div 1000000))"

definition requestTimeTooSkewed :: "int \<Rightarrow> int \<Rightarrow> s3error" where
  "requestTimeTooSkewed at mx =
     ESkewedResponse
       \<lparr>er_Code = ErrRequestTimeTooSkewed, er_Message = code_Message ErrRequestTimeTooSkewed,
        er_RequestID = '''', er_HostID = ''''\<rparr>
       at mx"

text \<open>
  The method \<open>ErrorCode\<close> of each error type; \<open>None\<close> for an error that does not implement the
  interface \<open>Error\<close>. An \<open>InternalErrorCode\<close> answers \<open>ErrInternal\<close>.
\<close>

fun err_ErrorCode :: "s3error \<Rightarrow> ErrorCode option" where
  "err_ErrorCode (ECode c) = Some c"
| "err_ErrorCode (EInternalCode _) = Some ErrInternal"
| "err_ErrorCode (EResponse r) = Some (er_Code r)"
| "err_ErrorCode (EInvalidArgumentResponse r _ _) = Some (er_Code r)"
| "err_ErrorCode (EResourceResponse r _) = Some (er_Code r)"
| "err_ErrorCode (ESkewedResponse r _ _) = Some (er_Code r)"
| "err_ErrorCode (EOther _) = None"

definition HasErrorCode :: "s3error option \<Rightarrow> ErrorCode \<Rightarrow> bool" where
  "HasErrorCode err code =
     (case err of
        None \<Rightarrow> code = ErrNone
      | Some e \<Rightarrow> (case err_ErrorCode e of None \<Rightarrow> False | Some c \<Rightarrow> c = code))"

definition IsAlreadyExists :: "s3error option \<Rightarrow> bool" where
  "IsAlreadyExists err = HasErrorCode err ErrBucketAlreadyExists"

definition enrich :: "string \<Rightarrow> ErrorResponse \<Rightarrow> ErrorResponse" where
  "enrich requestID r = r\<lparr>er_RequestID := requestID\<rparr>"

text \<open>\<open>ensureErrorResponse\<close>: the value that \<open>httpError\<close> writes.\<close>

fun ensureErrorResponse :: "s3error \<Rightarrow> string \<Rightarrow> s3error" where
  "ensureErrorResponse (EResponse r) rid = EResponse (enrich rid r)"
| "ensureErrorResponse (EInvalidArgumentResponse r n v) rid =
     EInvalidArgumentResponse (enrich rid r) n v"
| "ensureErrorResponse (EResourceResponse r x) rid = EResourceResponse (enrich rid r) x"
| "ensureErrorResponse (ESkewedResponse r t m) rid = ESkewedResponse (enrich rid r) t m"
| "ensureErrorResponse (ECode c) rid =
     EResponse \<lparr>er_Code = c, er_Message = code_string c, er_RequestID = rid, er_HostID = ''''\<rparr>"
| "ensureErrorResponse _ rid =
     EResponse \<lparr>er_Code = ErrInternal, er_Message = ''Internal Error'', er_RequestID = rid,
                er_HostID = ''''\<rparr>"

section \<open>Outcomes\<close>

datatype 'a res = Ok 'a | Err s3error | Panic | NoFuel

fun rbind :: "'a res \<Rightarrow> ('a \<Rightarrow> 'b res) \<Rightarrow> 'b res" where
  "rbind (Ok x) f = f x"
| "rbind (Err e) f = Err e"
| "rbind Panic f = Panic"
| "rbind NoFuel f = NoFuel"

text \<open>Slicing \<open>data[lo:hi]\<close> panics unless \<open>0 \<le> lo \<le> hi \<le> len(data)\<close>.\<close>

definition go_slice :: "'a list \<Rightarrow> int \<Rightarrow> int \<Rightarrow> 'a list res" where
  "go_slice xs lo hi =
     (if 0 \<le> lo \<and> lo \<le> hi \<and> hi \<le> int (length xs)
      then Ok (take (nat (hi - lo)) (drop (nat lo) xs)) else Panic)"

definition is_ok :: "'a res \<Rightarrow> bool" where
  "is_ok r = (case r of Ok _ \<Rightarrow> True | _ \<Rightarrow> False)"

lemmas error_defs [go_eval] =
  ErrorMessage_def ErrorInvalidArgument_def ResourceError_def BucketNotFound_def KeyNotFound_def
  requestTimeTooSkewed_def HasErrorCode_def IsAlreadyExists_def enrich_def go_slice_def is_ok_def

lemma rbind_eq_Ok: "rbind r f = Ok y \<longleftrightarrow> (\<exists>x. r = Ok x \<and> f x = Ok y)"
  by (cases r) auto

lemma rbind_eq_Panic: "rbind r f = Panic \<longleftrightarrow> r = Panic \<or> (\<exists>x. r = Ok x \<and> f x = Panic)"
  by (cases r) auto

lemma error_values_distinct [simp]:
  "BucketNotFound b \<noteq> KeyNotFound k" "KeyNotFound k \<noteq> BucketNotFound b"
  "BucketNotFound b \<noteq> ECode c" "KeyNotFound k \<noteq> ECode c"
  "BucketNotFound b = BucketNotFound b' \<longleftrightarrow> b = b'" "KeyNotFound k = KeyNotFound k' \<longleftrightarrow> k = k'"
  by (auto simp: BucketNotFound_def KeyNotFound_def ResourceError_def)

lemma go_slice_Ok:
  "0 \<le> lo \<Longrightarrow> lo \<le> hi \<Longrightarrow> hi \<le> int (length xs) \<Longrightarrow>
   go_slice xs lo hi = Ok (take (nat (hi - lo)) (drop (nat lo) xs))"
  by (simp add: go_slice_def)

section \<open>Codes as strings\<close>

lemma all_codes_UNIV: "c \<in> set all_codes"
  by (cases c) (simp_all add: all_codes_def)

lemma distinct_code_strings: "distinct (map code_string all_codes)"
  by code_simp

lemma code_string_inject [simp]: "code_string c = code_string d \<longleftrightarrow> c = d"
  using distinct_code_strings all_codes_UNIV by (metis distinct_map inj_onD)

text \<open>A Go \<open>ErrorCode\<close> is a string and is ordered as one.\<close>

instantiation ErrorCode :: linorder
begin

definition less_eq_ErrorCode :: "ErrorCode \<Rightarrow> ErrorCode \<Rightarrow> bool" where
  "less_eq_ErrorCode c d \<longleftrightarrow> code_string c \<le> code_string d"

definition less_ErrorCode :: "ErrorCode \<Rightarrow> ErrorCode \<Rightarrow> bool" where
  "less_ErrorCode c d \<longleftrightarrow> code_string c < code_string d"

instance
  by standard (auto simp: less_eq_ErrorCode_def less_ErrorCode_def less_le)

end

section \<open>Properties of the error vocabulary\<close>

text \<open>
  Whatever error a handler returns, the response written for it carries an S3 error code with
  a client, server or not-modified status, the code of the original error where that error has one,
  and \<open>InternalError\<close> where it has none.
\<close>

lemma ensureErrorResponse_code:
  "err_ErrorCode (ensureErrorResponse e rid) =
     Some (case err_ErrorCode e of None \<Rightarrow> ErrInternal | Some c \<Rightarrow> c)"
  by (cases e) (auto simp: enrich_def)

lemma code_Status_range: "code_Status c = 304 \<or> (400 \<le> code_Status c \<and> code_Status c \<le> 501)"
  by (cases c) simp_all

end
