(* ===== verification/Validation.thy ===== *)
theory Validation
  imports Errors
begin

text \<open>
  \<open>validation.go\<close>: bucket names. The regular expression \<open>^[a-z0-9]([a-z0-9.-]+)[a-z0-9]$\<close> matches a
  string without line breaks of at least three characters whose ends are alphanumeric and whose
  characters are all in the class. \<open>net.ParseIP\<close> is modelled for dotted decimal addresses; a name
  that passed the expression contains no colon, so no IPv6 address reaches it.
\<close>

definition alnum :: "char \<Rightarrow> bool" where
  "alnum c \<longleftrightarrow> (CHR ''a'' \<le> c \<and> c \<le> CHR ''z'') \<or> (CHR ''0'' \<le> c \<and> c \<le> CHR ''9'')"

definition name_char :: "char \<Rightarrow> bool" where
  "name_char c \<longleftrightarrow> alnum c \<or> c = CHR ''.'' \<or> c = CHR ''-''"

definition bucketNamePattern :: "string \<Rightarrow> bool" where
  "bucketNamePattern s \<longleftrightarrow>
     3 \<le> length s \<and> alnum (hd s) \<and> list_all name_char s \<and> alnum (last s)"

text \<open>A decimal octet of \<open>net.ParseIP\<close>: no leading zero, at most 255.\<close>

definition ip_octet :: "string \<Rightarrow> bool" where
  "ip_octet s \<longleftrightarrow>
     (case parse_digits s of
        None \<Rightarrow> False
      | Some n \<Rightarrow> n \<le> 255 \<and> (1 < length s \<longrightarrow> hd s \<noteq> CHR ''0''))"

definition ParseIPv4 :: "string \<Rightarrow> bool" where
  "ParseIPv4 s \<longleftrightarrow> (let parts = split_str s ''.'' in length parts = 4 \<and> list_all ip_octet parts)"

definition ValidateBucketName :: "string \<Rightarrow> s3error option" where
  "ValidateBucketName name =
     (if length name < 3 \<or> 63 < length name then
        Some (ErrorMessage ErrInvalidBucketName ''bucket name must be >= 3 characters and <= 63'')
      else if \<not> bucketNamePattern name then
        Some (ErrorMessage ErrInvalidBucketName
          (''bucket must start and end with 'a-z, 0-9', and contain only '' @
           ''a-z, 0-9, -' in between''))
      else if ParseIPv4 name then
        Some (ErrorMessage ErrInvalidBucketName
          ''bucket names must not be formatted as an IP address'')
      else if \<not> list_all bucketNamePattern (split_str name ''.'') then
        Some (ErrorMessage ErrInvalidBucketName
          (''label must start and end with 'a-z, 0-9', and contain only '' @
           ''a-z, 0-9, -' in between''))
      else None)"

definition validETag :: "string \<Rightarrow> bool" where
  "validETag v \<longleftrightarrow>
     3 \<le> length v \<and> hd v = CHR 0x22 \<and> last v = CHR 0x22 \<and> list_all alnum (butlast (tl v))"

lemmas validation_defs [go_eval] =
  alnum_def name_char_def bucketNamePattern_def ip_octet_def ParseIPv4_def ValidateBucketName_def
  validETag_def

text \<open>A label: letters, digits and hyphens, alphanumeric at both ends, three characters or more.\<close>

definition dns_label :: "string \<Rightarrow> bool" where
  "dns_label s \<longleftrightarrow>
     3 \<le> length s \<and> alnum (hd s) \<and> alnum (last s) \<and> (\<forall>c \<in> set s. alnum c \<or> c = CHR ''-'')"

lemma label_pattern:
  "CHR ''.'' \<notin> set s \<Longrightarrow> bucketNamePattern s \<longleftrightarrow> dns_label s"
  by (auto simp: bucketNamePattern_def dns_label_def name_char_def list_all_iff)

lemma split_char_members:
  "c \<in> set s \<Longrightarrow> c = d \<or> (\<exists>x \<in> set (split_char d s). c \<in> set x)"
  by (induction s) (auto split: list.splits)

lemma hd_join: "xs \<noteq> [] \<Longrightarrow> hd xs \<noteq> [] \<Longrightarrow> hd (join xs sep) = hd (hd xs)"
  by (induction xs sep rule: join.induct) auto

lemma last_join: "xs \<noteq> [] \<Longrightarrow> last xs \<noteq> [] \<Longrightarrow> last (join xs [d]) = last (last xs)"
proof (induction xs)
  case (Cons x xs)
  show ?case
  proof (cases xs)
    case (Cons y ys)
    then have "join xs [d] \<noteq> []" using Cons.prems by (cases ys) auto
    with Cons Cons.prems Cons.IH show ?thesis by simp
  qed simp
qed simp

lemma labels_pattern:
  assumes "\<forall>x \<in> set (split_char (CHR ''.'') s). dns_label x"
  shows "bucketNamePattern s"
proof -
  let ?xs = "split_char (CHR ''.'') s"
  obtain x xs where xs: "?xs = x # xs" by (cases ?xs) auto
  have s: "s = join ?xs ''.''" by simp
  have ne: "x \<noteq> []" "last ?xs \<noteq> []" and ends: "alnum (hd x)" "alnum (last (last ?xs))"
    using assms xs last_in_set [of ?xs] by (auto simp: dns_label_def)
  have "hd s = hd x"
    by (metis hd_join join_split_char list.discI list.sel(1) ne(1) xs)
  moreover have "last s = last (last ?xs)"
    using last_join [of ?xs "CHR ''.''"] ne by (simp only: join_split_char) simp
  moreover have "3 \<le> length s"
  proof -
    have "length x \<le> length (join (x # xs) ''.'')" by (cases xs) auto
    moreover have "3 \<le> length x" using assms xs by (auto simp: dns_label_def)
    ultimately show ?thesis using xs s by simp
  qed
  moreover have "name_char c" if "c \<in> set s" for c
    using split_char_members [OF that, of "CHR ''.''"] assms
    by (auto simp: dns_label_def name_char_def)
  ultimately show ?thesis using ends by (simp add: bucketNamePattern_def list_all_iff)
qed

text \<open>
  The whole check: a name is valid exactly when it has 3 to 63 characters, is not a dotted decimal
  address, and all its dot-separated labels are labels of three characters or more.
\<close>

lemma ValidateBucketName_iff:
  "ValidateBucketName name = None \<longleftrightarrow>
     3 \<le> length name \<and> length name \<le> 63 \<and> \<not> ParseIPv4 name \<and>
     (\<forall>label \<in> set (split_char (CHR ''.'') name). dns_label label)"
proof -
  have "list_all bucketNamePattern (split_char (CHR ''.'') name) \<longleftrightarrow>
        (\<forall>label \<in> set (split_char (CHR ''.'') name). dns_label label)"
    using label_pattern split_char_no_sep by (auto simp: list_all_iff)
  then show ?thesis
    using labels_pattern [of name]
    by (auto simp: ValidateBucketName_def split_str_single)
qed

lemma ValidateBucketName_code:
  "ValidateBucketName name = Some e \<Longrightarrow> err_ErrorCode e = Some ErrInvalidBucketName"
  by (auto simp: ValidateBucketName_def ErrorMessage_def split: if_splits)

end
