(* ===== verification/Range.thy ===== *)
theory Range
  imports Errors
begin

text \<open>
  \<open>range.go\<close>: the Range header of a GET request, its resolution against the size of an object in
  wrapping \<open>int64\<close> arithmetic, and the response headers that describe the result.
\<close>

record ObjectRange =
  or_Start :: int
  or_Length :: int

record ObjectRangeRequest =
  rr_Start :: int
  rr_End :: int
  rr_FromEnd :: bool

definition RangeNoEnd :: int where
  "RangeNoEnd = -1"

text \<open>Method \<open>writeHeader\<close>: the headers it sets, in order.\<close>

fun range_writeHeader :: "ObjectRange option \<Rightarrow> int \<Rightarrow> (string \<times> string) list" where
  "range_writeHeader (Some r) sz =
     [(''Content-Range'', ''bytes '' @ int_str (or_Start r) @ ''-'' @
         int_str (i64 (i64 (or_Start r + or_Length r) - 1)) @ ''/'' @ int_str sz),
      (''Content-Length'', int_str (or_Length r))]"
| "range_writeHeader None sz = [(''Content-Length'', int_str sz)]"

text \<open>Method \<open>Range\<close> of a possibly nil request.\<close>

fun request_Range :: "ObjectRangeRequest option \<Rightarrow> int \<Rightarrow> ObjectRange option res" where
  "request_Range None sz = Ok None"
| "request_Range (Some req) sz =
     (let (start, len) =
        (if \<not> rr_FromEnd req then
           (rr_Start req,
            if rr_End req = RangeNoEnd then i64 (sz - rr_Start req)
            else i64 (i64 (rr_End req - rr_Start req) + 1))
         else
           (let start = i64 (sz - rr_End req) in (start, i64 (sz - start))))
      in if start < 0 \<or> len < 0 \<or> sz \<le> start then Err (ECode ErrInvalidRange)
         else if sz < i64 (start + len) then
           Ok (Some \<lparr>or_Start = start, or_Length = i64 (sz - start)\<rparr>)
         else Ok (Some \<lparr>or_Start = start, or_Length = len\<rparr>))"

definition parse_range_spec :: "string \<Rightarrow> ObjectRangeRequest option res" where
  "parse_range_spec rnge =
     (case index_of rnge ''-'' of
        None \<Rightarrow> Err (ECode ErrInvalidRange)
      | Some i \<Rightarrow>
          (let start = trim_space (take i rnge); end = trim_space (drop (i + 1) rnge)
           in if start = [] then
                (case parse_int end of
                   None \<Rightarrow> Err (ECode ErrInvalidRange)
                 | Some e \<Rightarrow> Ok (Some \<lparr>rr_Start = 0, rr_End = e, rr_FromEnd = True\<rparr>))
              else
                (case parse_int start of
                   None \<Rightarrow> Err (ECode ErrInvalidRange)
                 | Some b \<Rightarrow>
                     if b < 0 then Err (ECode ErrInvalidRange)
                     else if end \<noteq> [] then
                       (case parse_int end of
                          None \<Rightarrow> Err (ECode ErrInvalidRange)
                        | Some e \<Rightarrow>
                            if e < b then Err (ECode ErrInvalidRange)
                            else Ok (Some \<lparr>rr_Start = b, rr_End = e, rr_FromEnd = False\<rparr>))
                     else Ok (Some \<lparr>rr_Start = b, rr_End = RangeNoEnd, rr_FromEnd = False\<rparr>))))"

definition parseRangeHeader :: "string \<Rightarrow> ObjectRangeRequest option res" where
  "parseRangeHeader s =
     (if s = [] then Ok None
      else if \<not> has_prefix s ''bytes='' then Err (ECode ErrInvalidRange)
      else
        (let ranges = split_str (drop (length ''bytes='') s) '',''
         in if 1 < length ranges then
              Err (ErrorMessage ErrNotImplemented ''multiple ranges not supported'')
            else
              (let rnge = trim_space (hd ranges)
               in if rnge = [] then Err (ECode ErrInvalidRange) else parse_range_spec rnge)))"

section \<open>What Range computes\<close>

text \<open>
  Without overflow the three request forms select the byte intervals of the HTTP specification:
  \<open>a-b\<close>, \<open>a-\<close> and the suffix \<open>-n\<close>.
\<close>

lemma request_Range_first_last:
  assumes "0 \<le> a" "a \<le> b" "b < max_int64" "0 \<le> sz" "sz \<le> max_int64"
  shows "request_Range (Some \<lparr>rr_Start = a, rr_End = b, rr_FromEnd = False\<rparr>) sz =
           (if a < sz then Ok (Some \<lparr>or_Start = a, or_Length = min b (sz - 1) - a + 1\<rparr>)
            else Err (ECode ErrInvalidRange))"
  using assms
  by (auto simp: RangeNoEnd_def Let_def is_i64_def min_int64_def max_int64_def)

lemma request_Range_open:
  assumes "0 \<le> a" "a \<le> max_int64" "0 \<le> sz" "sz \<le> max_int64"
  shows "request_Range (Some \<lparr>rr_Start = a, rr_End = RangeNoEnd, rr_FromEnd = False\<rparr>) sz =
           (if a < sz then Ok (Some \<lparr>or_Start = a, or_Length = sz - a\<rparr>)
            else Err (ECode ErrInvalidRange))"
  using assms by (auto simp: Let_def is_i64_def min_int64_def max_int64_def)

lemma request_Range_suffix:
  assumes "0 \<le> n" "n \<le> max_int64" "0 \<le> sz" "sz \<le> max_int64"
  shows "request_Range (Some \<lparr>rr_Start = a, rr_End = n, rr_FromEnd = True\<rparr>) sz =
           (if 0 < n \<and> n \<le> sz then Ok (Some \<lparr>or_Start = sz - n, or_Length = n\<rparr>)
            else Err (ECode ErrInvalidRange))"
  using assms by (auto simp: Let_def is_i64_def min_int64_def max_int64_def)

text \<open>A negative suffix length never selects bytes, wrap-around included.\<close>

lemma request_Range_negative_suffix:
  assumes "n < 0" "is_i64 n" "0 \<le> sz" "sz \<le> max_int64"
  shows "request_Range (Some \<lparr>rr_Start = a, rr_End = n, rr_FromEnd = True\<rparr>) sz =
           Err (ECode ErrInvalidRange)"
proof (cases "sz - n \<le> max_int64")
  case True
  with assms show ?thesis by (simp add: Let_def is_i64_def min_int64_def max_int64_def)
next
  case False
  with assms have "i64 (sz - n) = sz - n - 2 ^ 64"
    by (intro i64_above) (simp_all add: is_i64_def min_int64_def max_int64_def)
  with assms show ?thesis by (simp add: Let_def is_i64_def min_int64_def max_int64_def)
qed

section \<open>What parseRangeHeader accepts\<close>

text \<open>Every request it returns is one of the three forms, with an \<open>int64\<close> in each field.\<close>

lemma parse_range_spec_forms:
  assumes "parse_range_spec s = Ok (Some req)"
  shows "(rr_FromEnd req \<and> is_i64 (rr_End req)) \<or>
         (\<not> rr_FromEnd req \<and> 0 \<le> rr_Start req \<and> is_i64 (rr_Start req) \<and> is_i64 (rr_End req) \<and>
            (rr_End req = RangeNoEnd \<or> rr_Start req \<le> rr_End req))"
  using assms
  by (auto simp: parse_range_spec_def Let_def RangeNoEnd_def is_i64_def min_int64_def max_int64_def
      split: option.splits if_splits dest!: parse_int_i64)

lemma parse_range_spec_Some: "parse_range_spec s \<noteq> Ok None"
  by (auto simp: parse_range_spec_def Let_def split: option.splits)

lemma parseRangeHeader_forms:
  assumes "parseRangeHeader s = Ok (Some req)"
  shows "(rr_FromEnd req \<and> is_i64 (rr_End req)) \<or>
         (\<not> rr_FromEnd req \<and> 0 \<le> rr_Start req \<and> is_i64 (rr_Start req) \<and> is_i64 (rr_End req) \<and>
            (rr_End req = RangeNoEnd \<or> rr_Start req \<le> rr_End req))"
  using assms by (auto simp: parseRangeHeader_def Let_def split: if_splits dest!: parse_range_spec_forms)

lemma parseRangeHeader_no_panic: "parseRangeHeader s \<noteq> Panic" "parseRangeHeader s \<noteq> NoFuel"
  by (auto simp: parseRangeHeader_def parse_range_spec_def Let_def split: option.splits)

text \<open>Digits survive trimming and contain no separator.\<close>

lemma digit_not_special: "is_digit c \<Longrightarrow> c \<notin> set go_space \<and> c \<noteq> CHR '','' \<and> c \<noteq> CHR ''-''"
  by (auto simp: is_digit_def go_space_def less_eq_char_def)

lemma nat_str_special: "set (nat_str n) \<inter> set go_space = {}" "CHR '','' \<notin> set (nat_str n)"
    "CHR ''-'' \<notin> set (nat_str n)"
  using nat_str_digits [of n] digit_not_special by (auto simp: list_all_iff)

lemma trim_space_nat_str [simp]: "trim_space (nat_str n) = nat_str n"
  by (simp add: trim_space_def trim_no_cutset nat_str_special)

lemma index_of_fresh: "c \<notin> set xs \<Longrightarrow> index_of (xs @ c # ys) [c] = Some (length xs)"
  by (induction xs) auto

text \<open>
  \<open>parseRangeHeader\<close> reads back each printed form.
\<close>

lemma parse_range_spec_first_last:
  assumes "a \<le> b" "int b \<le> max_int64"
  shows "parse_range_spec (nat_str a @ ''-'' @ nat_str b) =
           Ok (Some \<lparr>rr_Start = int a, rr_End = int b, rr_FromEnd = False\<rparr>)"
  using assms index_of_fresh [of "CHR ''-''" "nat_str a" "nat_str b"] nat_str_special(3) [of a]
  by (simp add: parse_range_spec_def Let_def parse_int_nat_str)

lemma trim_space_range:
  "set xs \<inter> set go_space = {} \<Longrightarrow> CHR '','' \<notin> set xs \<Longrightarrow> xs \<noteq> [] \<Longrightarrow>
   parseRangeHeader (''bytes='' @ xs) = parse_range_spec xs"
  by (simp add: parseRangeHeader_def Let_def split_str_single split_char_fresh trim_space_def
      trim_no_cutset)

lemma trim_space_Nil [simp]: "trim_space [] = []"
  by (simp add: trim_space_def trim_def trim_right_def trim_left_def)

lemma dash_not_space: "CHR ''-'' \<notin> set go_space"
  by (simp add: go_space_def)

lemma parseRangeHeader_first_last:
  assumes "a \<le> b" "int b \<le> max_int64"
  shows "parseRangeHeader (''bytes='' @ nat_str a @ ''-'' @ nat_str b) =
           Ok (Some \<lparr>rr_Start = int a, rr_End = int b, rr_FromEnd = False\<rparr>)"
  using assms trim_space_range [of "nat_str a @ ''-'' @ nat_str b"] parse_range_spec_first_last
    nat_str_special [of a] nat_str_special [of b] dash_not_space
  by (simp add: Int_Un_distrib2)

lemma parseRangeHeader_open:
  assumes "int a \<le> max_int64"
  shows "parseRangeHeader (''bytes='' @ nat_str a @ ''-'') =
           Ok (Some \<lparr>rr_Start = int a, rr_End = RangeNoEnd, rr_FromEnd = False\<rparr>)"
  using assms trim_space_range [of "nat_str a @ ''-''"] nat_str_special [of a] dash_not_space
    index_of_fresh [of "CHR ''-''" "nat_str a" "[]"]
  by (simp add: Int_Un_distrib2 parse_range_spec_def Let_def parse_int_nat_str)

lemma parseRangeHeader_suffix:
  assumes "int n \<le> max_int64"
  shows "parseRangeHeader (''bytes=-'' @ nat_str n) =
           Ok (Some \<lparr>rr_Start = 0, rr_End = int n, rr_FromEnd = True\<rparr>)"
  using assms trim_space_range [of "CHR ''-'' # nat_str n"] nat_str_special [of n] dash_not_space
    index_of_fresh [of "CHR ''-''" "[]" "nat_str n"]
  by (simp add: Int_Un_distrib2 parse_range_spec_def Let_def parse_int_nat_str)

end
