(* ===== verification/Prefix.thy ===== *)
theory Prefix
  imports Errors
begin

text \<open>
  \<open>prefix.go\<close>: the prefix and delimiter of a listing and the matching of a key against them. The
  result of \<open>Match\<close> is an option: the out parameter of the source is only read when it is set. The
  section at the end relates \<open>Match\<close> to the S3 rule for rolling keys up into common prefixes.
\<close>

record Prefix =
  HasPrefix :: bool
  pfx_Prefix :: string
  HasDelimiter :: bool
  pfx_Delimiter :: string

record PrefixMatch =
  pm_Key :: string
  pm_CommonPrefix :: bool
  pm_MatchedPart :: string

definition pm_AsCommonPrefix :: "PrefixMatch \<Rightarrow> string" where
  "pm_AsCommonPrefix match = pm_MatchedPart match"

definition emptyPrefix :: Prefix where
  "emptyPrefix = \<lparr>HasPrefix = False, pfx_Prefix = '''', HasDelimiter = False, pfx_Delimiter = ''''\<rparr>"

definition prefixFromQuery :: "url_values \<Rightarrow> Prefix" where
  "prefixFromQuery query =
     \<lparr>HasPrefix = vals_has query ''prefix'' \<and> vals_get query ''prefix'' \<noteq> '''',
      pfx_Prefix = vals_get query ''prefix'',
      HasDelimiter = vals_has query ''delimiter'' \<and> vals_get query ''delimiter'' \<noteq> '''',
      pfx_Delimiter = vals_get query ''delimiter''\<rparr>"

definition NewPrefix :: "string option \<Rightarrow> string option \<Rightarrow> Prefix" where
  "NewPrefix prefix delim =
     \<lparr>HasPrefix = prefix \<noteq> None, pfx_Prefix = (case prefix of Some p \<Rightarrow> p | None \<Rightarrow> ''''),
      HasDelimiter = delim \<noteq> None, pfx_Delimiter = (case delim of Some d \<Rightarrow> d | None \<Rightarrow> '''')\<rparr>"

definition NewFolderPrefix :: "string \<Rightarrow> Prefix" where
  "NewFolderPrefix prefix =
     \<lparr>HasPrefix = True, pfx_Prefix = prefix, HasDelimiter = True, pfx_Delimiter = ''/''\<rparr>"

text \<open>\<open>FilePrefix\<close>: path, remaining part and the flag \<open>ok\<close>.\<close>

definition FilePrefix :: "Prefix \<Rightarrow> string \<times> string \<times> bool" where
  "FilePrefix p =
     (if \<not> HasPrefix p \<or> \<not> HasDelimiter p \<or> pfx_Delimiter p \<noteq> ''/'' then
        ('''', '''', pfx_Delimiter p = ''/'')
      else
        (case last_index_byte (pfx_Prefix p) (CHR ''/'') of
           None \<Rightarrow> ('''', pfx_Prefix p, True)
         | Some idx \<Rightarrow> (take idx (pfx_Prefix p), drop (idx + 1) (pfx_Prefix p), True)))"

text \<open>The loop of \<open>Match\<close>: every part but the last must be equal, the last must be a prefix.\<close>

fun parts_match :: "string list \<Rightarrow> string list \<Rightarrow> bool" where
  "parts_match keyParts [] = True"
| "parts_match (k # ks) [p] = has_prefix k p"
| "parts_match (k # ks) (p # ps) = (k = p \<and> parts_match ks ps)"
| "parts_match [] (p # ps) = False"

definition prefix_Match :: "Prefix \<Rightarrow> string \<Rightarrow> PrefixMatch option" where
  "prefix_Match p key =
     (if \<not> HasPrefix p \<and> \<not> HasDelimiter p then
        Some \<lparr>pm_Key = key, pm_CommonPrefix = False, pm_MatchedPart = key\<rparr>
      else if \<not> HasDelimiter p then
        (if has_prefix key (pfx_Prefix p) then
           Some \<lparr>pm_Key = key, pm_CommonPrefix = False, pm_MatchedPart = pfx_Prefix p\<rparr>
         else None)
      else
        (let keyParts = split_str (trim_left key (pfx_Delimiter p)) (pfx_Delimiter p);
             preParts = split_str (trim_left (pfx_Prefix p) (pfx_Delimiter p)) (pfx_Delimiter p)
         in if length keyParts < length preParts then None
            else if \<not> parts_match keyParts preParts then None
            else if length preParts = 0 then None
            else
              (let out = join (take (length preParts) keyParts) (pfx_Delimiter p) @
                     (if length keyParts \<noteq> length preParts then pfx_Delimiter p else '''')
               in Some \<lparr>pm_Key = key, pm_CommonPrefix = out \<noteq> key, pm_MatchedPart = out\<rparr>)))"

lemmas prefix_defs [go_eval] =
  emptyPrefix_def prefixFromQuery_def NewPrefix_def NewFolderPrefix_def FilePrefix_def
  prefix_Match_def

lemma prefix_Match_empty [simp]:
  "prefix_Match emptyPrefix key =
     Some \<lparr>pm_Key = key, pm_CommonPrefix = False, pm_MatchedPart = key\<rparr>"
  by (simp add: prefix_Match_def emptyPrefix_def)

lemma prefix_Match_no_delim:
  "\<not> HasDelimiter p \<Longrightarrow>
   (prefix_Match p key \<noteq> None) = (\<not> HasPrefix p \<or> has_prefix key (pfx_Prefix p))"
  by (simp add: prefix_Match_def)

lemma prefix_Match_no_delim_flat:
  "\<not> HasDelimiter p \<Longrightarrow> prefix_Match p key = Some m \<Longrightarrow> \<not> pm_CommonPrefix m"
  by (auto simp: prefix_Match_def split: if_splits)

lemma prefix_Match_Key: "prefix_Match p key = Some m \<Longrightarrow> pm_Key m = key"
  by (auto simp: prefix_Match_def Let_def split: if_splits)

section \<open>FilePrefix\<close>

lemma last_index_byte_None: "last_index_byte s b = None \<longleftrightarrow> b \<notin> set s"
  by (induction s) (auto split: option.splits)

lemma last_index_byte_Some:
  "last_index_byte s b = Some i \<Longrightarrow>
   i < length s \<and> s = take i s @ b # drop (i + 1) s \<and> b \<notin> set (drop (i + 1) s)"
proof (induction s arbitrary: i)
  case (Cons c cs)
  show ?case
  proof (cases "last_index_byte cs b")
    case None
    with Cons.prems show ?thesis by (auto simp: last_index_byte_None split: if_splits)
  next
    case (Some j)
    with Cons.prems Cons.IH [OF Some] show ?thesis by auto
  qed
qed simp

lemma FilePrefix_split:
  assumes "HasPrefix p" "HasDelimiter p" "pfx_Delimiter p = ''/''"
    and "FilePrefix p = (path, remaining, ok)"
  shows "ok \<and> CHR ''/'' \<notin> set remaining \<and>
         (pfx_Prefix p = path @ ''/'' @ remaining \<or> (path = '''' \<and> pfx_Prefix p = remaining))"
proof (cases "last_index_byte (pfx_Prefix p) (CHR ''/'')")
  case None
  with assms show ?thesis by (auto simp: FilePrefix_def last_index_byte_None)
next
  case (Some i)
  with assms last_index_byte_Some [OF Some] show ?thesis by (auto simp: FilePrefix_def)
qed

section \<open>The S3 roll-up rule\<close>

text \<open>
  S3: a key matches when it starts with the prefix; if the delimiter occurs after the prefix, the
  key is rolled up into the common prefix that ends with the first such delimiter.
\<close>

definition s3_rollup :: "char \<Rightarrow> string \<Rightarrow> string \<Rightarrow> string option" where
  "s3_rollup d pre key =
     (if has_prefix key pre then
        (let rest = drop (length pre) key
         in Some (pre @ takeWhile (\<lambda>c. c \<noteq> d) rest @ (if d \<in> set rest then [d] else [])))
      else None)"

definition parts_rollup :: "char \<Rightarrow> string list \<Rightarrow> string list \<Rightarrow> string option" where
  "parts_rollup d preParts keyParts =
     (if length keyParts < length preParts \<or> \<not> parts_match keyParts preParts then None
      else Some (join (take (length preParts) keyParts) [d] @
             (if length keyParts \<noteq> length preParts then [d] else [])))"

lemma hd_split_char: "hd (split_char d s) = takeWhile (\<lambda>c. c \<noteq> d) s"
  by (induction s) (auto split: list.splits)

lemma length_split_char_1: "length (split_char d s) = 1 \<longleftrightarrow> d \<notin> set s"
  by (induction s) (auto split: list.splits)

lemma split_char_Cons_same: "split_char d (d # cs) = [] # split_char d cs"
  by simp

lemma split_char_Cons_other:
  assumes "c \<noteq> d"
  obtains x xs where "split_char d cs = x # xs" "split_char d (c # cs) = (c # x) # xs"
  using assms split_char_not_Nil [of d cs] by (cases "split_char d cs") auto

lemma parts_rollup_empty: "parts_rollup d [[]] (split_char d key) = s3_rollup d [] key"
proof -
  obtain k ks where k: "split_char d key = k # ks" by (cases "split_char d key") auto
  then have "k = takeWhile (\<lambda>c. c \<noteq> d) key" and "ks = [] \<longleftrightarrow> d \<notin> set key"
    using hd_split_char [of d key] length_split_char_1 [of d key] by auto
  with k show ?thesis by (auto simp: parts_rollup_def s3_rollup_def)
qed

lemma parts_rollup_sep:
  "ps \<noteq> [] \<Longrightarrow> parts_rollup d ([] # ps) ([] # ks) = map_option (Cons d) (parts_rollup d ps ks)"
  by (cases ps; cases ks) (auto simp: parts_rollup_def join_Cons take_Cons' neq_Nil_conv)

lemma parts_rollup_char:
  "parts_rollup d ((c # p) # ps) ((c # k) # ks) =
   map_option (Cons c) (parts_rollup d (p # ps) (k # ks))"
  by (cases ps; cases ks) (auto simp: parts_rollup_def)

lemma parts_rollup_split:
  "parts_rollup d (split_char d pre) (split_char d key) = s3_rollup d pre key"
proof (induction pre arbitrary: key)
  case Nil
  then show ?case by (simp add: parts_rollup_empty)
next
  case (Cons c cs)
  show ?case
  proof (cases key)
    case Nil
    then show ?thesis
      by (auto simp: parts_rollup_def s3_rollup_def split: list.splits)
  next
    case key: (Cons e es)
    have step: "s3_rollup d (c # cs) (c # es) = map_option (Cons c) (s3_rollup d cs es)"
      by (simp add: s3_rollup_def Let_def)
    consider (same_sep) "c = d" "e = d" | (same) "c = e" "c \<noteq> d" | (diff) "c \<noteq> e" by auto
    then show ?thesis
    proof cases
      case same_sep
      with Cons.IH [of es] step key show ?thesis by (simp add: parts_rollup_sep)
    next
      case same
      obtain x xs y ys where "split_char d cs = x # xs" "split_char d es = y # ys"
        using split_char_not_Nil by (metis neq_Nil_conv)
      with Cons.IH [of es] step key same show ?thesis by (simp add: parts_rollup_char)
    next
      case diff
      then have "s3_rollup d (c # cs) key = None" by (simp add: s3_rollup_def key)
      moreover have "\<not> parts_match (split_char d key) (split_char d (c # cs))"
        using diff key split_char_not_Nil
        by (cases "split_char d cs"; cases "split_char d es"; cases "tl (split_char d cs)") auto
      ultimately show ?thesis by (simp add: parts_rollup_def)
    qed
  qed
qed

text \<open>
  For a one-character delimiter and a key and prefix that do not start with it, \<open>Match\<close> is the S3
  rule: the matched part is the roll-up, and the key is reported as a common prefix exactly when
  the roll-up differs from the key.
\<close>

lemma prefix_Match_s3:
  assumes "HasDelimiter p" "pfx_Delimiter p = [d]"
    and "key = [] \<or> hd key \<noteq> d" "pfx_Prefix p = [] \<or> hd (pfx_Prefix p) \<noteq> d"
  shows "prefix_Match p key =
           map_option (\<lambda>part. \<lparr>pm_Key = key, pm_CommonPrefix = part \<noteq> key, pm_MatchedPart = part\<rparr>)
             (s3_rollup d (pfx_Prefix p) key)"
proof -
  have "prefix_Match p key =
          map_option (\<lambda>part. \<lparr>pm_Key = key, pm_CommonPrefix = part \<noteq> key, pm_MatchedPart = part\<rparr>)
            (parts_rollup d (split_char d (pfx_Prefix p)) (split_char d key))"
    using assms
    by (auto simp add: prefix_Match_def Let_def trim_left_id split_str_single parts_rollup_def)
  then show ?thesis by (simp add: parts_rollup_split)
qed

lemma s3_rollup_prefix: "s3_rollup d pre key = Some part \<Longrightarrow> has_prefix key part \<and> has_prefix part pre"
proof -
  assume a: "s3_rollup d pre key = Some part"
  then obtain rest where k: "key = pre @ rest"
    by (auto simp: s3_rollup_def has_prefix_iff split: if_splits)
  have "takeWhile (\<lambda>c. c \<noteq> d) rest @ (if d \<in> set rest then [d] else []) =
        take (length (takeWhile (\<lambda>c. c \<noteq> d) rest) + (if d \<in> set rest then 1 else 0)) rest"
    by (induction rest) auto
  then have "has_prefix rest (takeWhile (\<lambda>c. c \<noteq> d) rest @ (if d \<in> set rest then [d] else []))"
    by (metis append_take_drop_id has_prefix_iff)
  with a k show ?thesis by (auto simp: s3_rollup_def has_prefix_iff split: if_splits)
qed

end
