(* ===== verification/Messages.thy ===== *)
theory Messages
  imports Range Prefix
begin

text \<open>
  \<open>messages.go\<close> and the data types of \<open>backend.go\<close>: the values that travel between handlers,
  back ends and the XML encoder, with their methods. Times are integers (nanoseconds); a Go map that
  may be nil is an option. XML names and attributes belong to the encoder and are not modelled.
\<close>

text \<open>The zero \<open>time.Time\<close>, in nanoseconds since 1970.\<close>

definition zero_time :: int where
  "zero_time = - 62135596800 * 1000000000"

text \<open>\<open>time.Time.Sub\<close> saturates at the bounds of \<open>Duration\<close>.\<close>

definition time_Sub :: "int \<Rightarrow> int \<Rightarrow> int" where
  "time_Sub a b = max min_int64 (min max_int64 (a - b))"

section \<open>Objects and their listings\<close>

record UserInfo =
  ui_ID :: string
  ui_DisplayName :: string

record BucketInfo =
  bi_Name :: string
  bi_CreationDate :: int

definition bucket_Names :: "BucketInfo list \<Rightarrow> string list" where
  "bucket_Names b = sort (map bi_Name b)"

record Content =
  ct_Key :: string
  ct_LastModified :: int
  ct_ETag :: string
  ct_Size :: int
  ct_StorageClass :: string
  ct_Owner :: "UserInfo option"

text \<open>
  What the \<open>MarshalXML\<close> methods hand to the encoder: nothing for the zero time, whose format \<open>fmt\<close> is that
  of the package \<open>time\<close>; the standard class for objects without one.
\<close>

definition ContentTime_MarshalXML :: "(int \<Rightarrow> string) \<Rightarrow> int \<Rightarrow> string option" where
  "ContentTime_MarshalXML fmt t = (if t \<noteq> zero_time then Some (fmt t) else None)"

definition StorageStandard :: string where
  "StorageStandard = ''STANDARD''"

definition StorageClass_MarshalXML :: "string \<Rightarrow> string" where
  "StorageClass_MarshalXML s = (if s = '''' then StorageStandard else s)"

record Object =
  ob_Name :: string
  ob_Metadata :: "gomap option"
  ob_Size :: int
  ob_Contents :: bytes
  ob_Hash :: bytes
  ob_Range :: "ObjectRange option"
  ob_VersionID :: string
  ob_IsDeleteMarker :: bool

text \<open>\<open>ObjectList\<close>; \<open>ol_prefixes\<close> is the private index of the prefixes already seen.\<close>

record ObjectList =
  ol_CommonPrefixes :: "string list"
  ol_Contents :: "Content list"
  ol_IsTruncated :: bool
  ol_NextMarker :: string
  ol_prefixes :: "string list"

definition NewObjectList :: ObjectList where
  "NewObjectList =
     \<lparr>ol_CommonPrefixes = [], ol_Contents = [], ol_IsTruncated = False, ol_NextMarker = '''',
      ol_prefixes = []\<rparr>"

definition ol_Add :: "ObjectList \<Rightarrow> Content \<Rightarrow> ObjectList" where
  "ol_Add b item = b\<lparr>ol_Contents := ol_Contents b @ [item]\<rparr>"

definition ol_AddPrefix :: "ObjectList \<Rightarrow> string \<Rightarrow> ObjectList" where
  "ol_AddPrefix b prefix =
     (if prefix \<in> set (ol_prefixes b) then b
      else b\<lparr>ol_prefixes := prefix # ol_prefixes b,
             ol_CommonPrefixes := ol_CommonPrefixes b @ [prefix]\<rparr>)"

record ObjectDeleteResult =
  dr_IsDeleteMarker :: bool
  dr_VersionID :: string

definition emptyDeleteResult :: ObjectDeleteResult where
  "emptyDeleteResult = \<lparr>dr_IsDeleteMarker = False, dr_VersionID = ''''\<rparr>"

record ListBucketPage =
  pg_Marker :: string
  pg_HasMarker :: bool
  pg_MaxKeys :: int

definition emptyBucketPage :: ListBucketPage where
  "emptyBucketPage = \<lparr>pg_Marker = '''', pg_HasMarker = False, pg_MaxKeys = 0\<rparr>"

definition page_IsEmpty :: "ListBucketPage \<Rightarrow> bool" where
  "page_IsEmpty p \<longleftrightarrow> p = emptyBucketPage"

record ListBucketVersionsPage =
  vp_KeyMarker :: string
  vp_HasKeyMarker :: bool
  vp_VersionIDMarker :: string
  vp_HasVersionIDMarker :: bool
  vp_MaxKeys :: int

definition emptyVersionsPage :: ListBucketVersionsPage where
  "emptyVersionsPage =
     \<lparr>vp_KeyMarker = '''', vp_HasKeyMarker = False, vp_VersionIDMarker = '''',
      vp_HasVersionIDMarker = False, vp_MaxKeys = 0\<rparr>"

section \<open>Versions\<close>

datatype VersioningStatus = VersioningNone | VersioningEnabled | VersioningSuspended
datatype MFADeleteStatus = MFADeleteNone | MFADeleteEnabled | MFADeleteDisabled

text \<open>
  The \<open>UnmarshalXML\<close> methods, on the text of the element.
\<close>

definition unmarshal_MFADelete :: "string \<Rightarrow> MFADeleteStatus res" where
  "unmarshal_MFADelete txt =
     (let s = to_lower (trim_space txt)
      in if s = ''enabled'' then Ok MFADeleteEnabled
         else if s = ''disabled'' then Ok MFADeleteDisabled
         else Err (ErrorMessage ErrIllegalVersioningConfiguration
           (''unexpected value '' @ quoted s @
            '' for MFADeleteStatus, expected 'Enabled' or 'Disabled'')))"

definition unmarshal_Versioning :: "string \<Rightarrow> VersioningStatus res" where
  "unmarshal_Versioning txt =
     (let s = to_lower (trim_space txt)
      in if s = ''enabled'' then Ok VersioningEnabled
         else if s = ''suspended'' then Ok VersioningSuspended
         else Err (ErrorMessage ErrIllegalVersioningConfiguration
           (''unexpected value '' @ quoted s @
            '' for Status, expected 'Enabled' or 'Suspended'')))"

record VersioningConfiguration =
  vc_Status :: VersioningStatus
  vc_MFADelete :: MFADeleteStatus

definition vc_Enabled :: "VersioningConfiguration \<Rightarrow> bool" where
  "vc_Enabled v \<longleftrightarrow> vc_Status v = VersioningEnabled"

definition vc_SetEnabled :: "VersioningConfiguration \<Rightarrow> bool \<Rightarrow> VersioningConfiguration" where
  "vc_SetEnabled v enabled =
     v\<lparr>vc_Status := (if enabled then VersioningEnabled else VersioningSuspended)\<rparr>"

definition mfa_Enabled :: "MFADeleteStatus \<Rightarrow> bool" where
  "mfa_Enabled v \<longleftrightarrow> v = MFADeleteEnabled"

record VersionFields =
  vf_Key :: string
  vf_VersionID :: string
  vf_IsLatest :: bool
  vf_LastModified :: int

datatype VersionItem =
    DeleteMarkerItem VersionFields
  | VersionObject VersionFields int string \<comment> \<open>size and ETag\<close>

fun item_fields :: "VersionItem \<Rightarrow> VersionFields" where
  "item_fields (DeleteMarkerItem f) = f"
| "item_fields (VersionObject f _ _) = f"

definition GetVersionID :: "VersionItem \<Rightarrow> string" where
  "GetVersionID v = vf_VersionID (item_fields v)"

fun setVersionID :: "VersionItem \<Rightarrow> string \<Rightarrow> VersionItem" where
  "setVersionID (DeleteMarkerItem f) i = DeleteMarkerItem (f\<lparr>vf_VersionID := i\<rparr>)"
| "setVersionID (VersionObject f sz etag) i = VersionObject (f\<lparr>vf_VersionID := i\<rparr>) sz etag"

record ListBucketVersionsResult =
  lv_Name :: string
  lv_Delimiter :: string
  lv_Prefix :: string
  lv_CommonPrefixes :: "string list"
  lv_IsTruncated :: bool
  lv_MaxKeys :: int
  lv_KeyMarker :: string
  lv_NextKeyMarker :: string
  lv_VersionIDMarker :: string
  lv_NextVersionIDMarker :: string
  lv_Versions :: "VersionItem list"
  lv_prefixes :: "string list"

definition NewListBucketVersionsResult ::
    "string \<Rightarrow> Prefix option \<Rightarrow> ListBucketVersionsPage option \<Rightarrow> ListBucketVersionsResult" where
  "NewListBucketVersionsResult bucketName prefix page =
     \<lparr>lv_Name = bucketName,
      lv_Delimiter = (case prefix of Some p \<Rightarrow> pfx_Delimiter p | None \<Rightarrow> ''''),
      lv_Prefix = (case prefix of Some p \<Rightarrow> pfx_Prefix p | None \<Rightarrow> ''''),
      lv_CommonPrefixes = [], lv_IsTruncated = False,
      lv_MaxKeys = (case page of Some g \<Rightarrow> vp_MaxKeys g | None \<Rightarrow> 0),
      lv_KeyMarker = (case page of Some g \<Rightarrow> vp_KeyMarker g | None \<Rightarrow> ''''),
      lv_NextKeyMarker = '''',
      lv_VersionIDMarker = (case page of Some g \<Rightarrow> vp_VersionIDMarker g | None \<Rightarrow> ''''),
      lv_NextVersionIDMarker = '''',
      lv_Versions = [], lv_prefixes = []\<rparr>"

definition lv_AddPrefix :: "ListBucketVersionsResult \<Rightarrow> string \<Rightarrow> ListBucketVersionsResult" where
  "lv_AddPrefix b prefix =
     (if prefix \<in> set (lv_prefixes b) then b
      else b\<lparr>lv_prefixes := prefix # lv_prefixes b,
             lv_CommonPrefixes := lv_CommonPrefixes b @ [prefix]\<rparr>)"

section \<open>Multiple deletion\<close>

record ObjectID =
  oid_Key :: string
  oid_VersionID :: string

record ErrorResult =
  ex_Key :: string
  ex_Code :: ErrorCode
  ex_Message :: string
  ex_Resource :: string
  ex_RequestID :: string

fun ErrorResultFromError :: "s3error \<Rightarrow> ErrorResult" where
  "ErrorResultFromError (EResourceResponse r res) =
     \<lparr>ex_Key = '''', ex_Code = er_Code r, ex_Message = er_Message r, ex_Resource = res,
      ex_RequestID = er_RequestID r\<rparr>"
| "ErrorResultFromError (EResponse r) =
     \<lparr>ex_Key = '''', ex_Code = er_Code r, ex_Message = er_Message r, ex_Resource = '''',
      ex_RequestID = er_RequestID r\<rparr>"
| "ErrorResultFromError err =
     \<lparr>ex_Key = '''', ex_Code = (case err_ErrorCode err of Some c \<Rightarrow> c | None \<Rightarrow> ErrInternal),
      ex_Message = '''', ex_Resource = '''', ex_RequestID = ''''\<rparr>"

definition error_result_String :: "ErrorResult \<Rightarrow> string" where
  "error_result_String er =
     ex_Key er @ '': ['' @ code_string (ex_Code er) @ ''] '' @ ex_Message er"

record MultiDeleteResult =
  md_Deleted :: "ObjectID list"
  md_Error :: "ErrorResult list"

definition md_AsError :: "MultiDeleteResult \<Rightarrow> s3error option" where
  "md_AsError d =
     (if md_Error d = [] then None
      else Some (EOther (''gofakes3: multi delete failed:'' @ [CHR 0x0A] @
             join (map error_result_String (md_Error d)) [CHR 0x0A])))"

record DeleteRequest =
  dq_Objects :: "ObjectID list"
  dq_Quiet :: bool

section \<open>Multipart uploads\<close>

record CompletedPart =
  cp_PartNumber :: int
  cp_ETag :: string

definition partIDs :: "CompletedPart list \<Rightarrow> int list" where
  "partIDs parts = sort (map cp_PartNumber parts)"

definition partsAreSorted :: "CompletedPart list \<Rightarrow> bool" where
  "partsAreSorted parts = sorted (partIDs parts)"

record ListMultipartUploadItem =
  ui_Key :: string
  ui_UploadID :: string
  ui_StorageClass :: string
  ui_Initiated :: int

record ListMultipartUploadsResult =
  lu_Bucket :: string
  lu_KeyMarker :: string
  lu_UploadIDMarker :: string
  lu_NextKeyMarker :: string
  lu_NextUploadIDMarker :: string
  lu_MaxUploads :: int
  lu_Delimiter :: string
  lu_Prefix :: string
  lu_CommonPrefixes :: "string list"
  lu_IsTruncated :: bool
  lu_Uploads :: "ListMultipartUploadItem list"

record ListMultipartUploadPartItem =
  pi_PartNumber :: int
  pi_LastModified :: int
  pi_ETag :: string
  pi_Size :: int

record ListMultipartUploadPartsResult =
  lp_Bucket :: string
  lp_Key :: string
  lp_UploadID :: string
  lp_StorageClass :: string
  lp_PartNumberMarker :: int
  lp_NextPartNumberMarker :: int
  lp_MaxParts :: int
  lp_IsTruncated :: bool
  lp_Parts :: "ListMultipartUploadPartItem list"

record CopyObjectResult =
  cr_ETag :: string
  cr_LastModified :: int

lemmas message_defs [go_eval] =
  zero_time_def
  bucket_Names_def NewObjectList_def ol_Add_def ol_AddPrefix_def emptyDeleteResult_def
  emptyBucketPage_def page_IsEmpty_def emptyVersionsPage_def vc_Enabled_def vc_SetEnabled_def
  mfa_Enabled_def GetVersionID_def NewListBucketVersionsResult_def lv_AddPrefix_def
  error_result_String_def md_AsError_def partIDs_def partsAreSorted_def

section \<open>Facts about the message types\<close>

text \<open>The prefix index and the list of common prefixes always agree, without duplicates.\<close>

definition prefixes_ok :: "string list \<Rightarrow> string list \<Rightarrow> bool" where
  "prefixes_ok idx ps \<longleftrightarrow> distinct ps \<and> set idx = set ps"

lemma ol_AddPrefix_ok:
  "prefixes_ok (ol_prefixes b) (ol_CommonPrefixes b) \<Longrightarrow>
   prefixes_ok (ol_prefixes (ol_AddPrefix b p)) (ol_CommonPrefixes (ol_AddPrefix b p))"
  by (auto simp: ol_AddPrefix_def prefixes_ok_def)

lemma lv_AddPrefix_ok:
  "prefixes_ok (lv_prefixes b) (lv_CommonPrefixes b) \<Longrightarrow>
   prefixes_ok (lv_prefixes (lv_AddPrefix b p)) (lv_CommonPrefixes (lv_AddPrefix b p))"
  by (auto simp: lv_AddPrefix_def prefixes_ok_def)

lemma ol_AddPrefix_frame [simp]:
  "ol_Contents (ol_AddPrefix b p) = ol_Contents b"
  "ol_NextMarker (ol_AddPrefix b p) = ol_NextMarker b"
  by (simp_all add: ol_AddPrefix_def)

text \<open>
  \<open>partIDs\<close> sorts the part numbers before \<open>partsAreSorted\<close> looks at them, so the test for ascending
  order accepts every request.
\<close>

lemma partsAreSorted_always [simp]: "partsAreSorted parts"
  by (simp add: partsAreSorted_def partIDs_def)

lemma to_lower_trim_status:
  "unmarshal_Versioning ''Enabled'' = Ok VersioningEnabled"
  "unmarshal_Versioning ''Suspended'' = Ok VersioningSuspended"
  by (simp_all add: unmarshal_Versioning_def go_string_defs less_eq_char_def char_of_def
      bit_simps)

end
