(* ===== verification/Readers.thy ===== *)
theory Readers
  imports Errors
begin

text \<open>
  \<open>util.go\<close> and \<open>hash.go\<close>: clamped query integers, the reading of a body whose size is announced,
  and the reader that checks a Content-MD5 digest at end of file. A reader is the sequence of bytes
  it delivers and the error (other than end of file) that follows them, if any. MD5 and base64
  decoding are parameters.
\<close>

definition parseClampedInt :: "string \<Rightarrow> int \<Rightarrow> int \<Rightarrow> int \<Rightarrow> int res" where
  "parseClampedInt inp defaultValue mn mx =
     (case (if inp = '''' then Some defaultValue else parse_int inp) of
        None \<Rightarrow> Err (ECode ErrInvalidArgument)
      | Some v \<Rightarrow> Ok (if v < mn then mn else if mx < v then mx else v))"

record reader =
  rd_bytes :: bytes
  rd_err :: "s3error option"

definition bytes_reader :: "bytes \<Rightarrow> reader" where
  "bytes_reader bs = \<lparr>rd_bytes = bs, rd_err = None\<rparr>"

text \<open>The readers of \<open>internal/s3io\<close>: their \<open>Close\<close> does nothing and does not fail.\<close>

definition NoOpReadCloser :: reader where
  "NoOpReadCloser = bytes_reader []"

definition ReaderWithDummyCloser :: "reader \<Rightarrow> reader" where
  "ReaderWithDummyCloser d = d"

definition io_EOF :: s3error where
  "io_EOF = EOther ''EOF''"

text \<open>
  \<open>io.ReadFull(r, b)\<close> with \<open>len(b) = n\<close> for a reader that reports its error on a read of its own:
  the bytes read, and the error. End of file is \<open>ErrUnexpectedEOF\<close> when some bytes were read.
\<close>

definition io_ErrUnexpectedEOF :: s3error where
  "io_ErrUnexpectedEOF = EOther ''unexpected EOF''"

definition io_ReadFull :: "reader \<Rightarrow> nat \<Rightarrow> (bytes \<times> s3error option) \<times> reader" where
  "io_ReadFull r n =
     (if n \<le> length (rd_bytes r) then
        ((take n (rd_bytes r), None), r\<lparr>rd_bytes := drop n (rd_bytes r)\<rparr>)
      else
        ((rd_bytes r,
          case rd_err r of
            Some e \<Rightarrow> Some e
          | None \<Rightarrow> if rd_bytes r = [] then Some io_EOF else Some io_ErrUnexpectedEOF),
         r\<lparr>rd_bytes := []\<rparr>))"

text \<open>\<open>gofakes3.ReadAll(r, size)\<close>: \<open>make([]byte, size)\<close> panics for a negative size.\<close>

definition ReadAll :: "reader \<Rightarrow> int \<Rightarrow> bytes res" where
  "ReadAll r sz =
     (if sz < 0 then Panic
      else
        (case io_ReadFull r (nat sz) of
           ((b, err), r') \<Rightarrow>
             if err = Some io_ErrUnexpectedEOF then Err (ECode ErrIncompleteBody)
             else (case err of
                     Some e \<Rightarrow> Err e
                   | None \<Rightarrow>
                       if length b \<noteq> nat sz then Err (ECode ErrIncompleteBody)
                       else (case rd_err r' of
                               Some e \<Rightarrow> Err e
                             | None \<Rightarrow> if rd_bytes r' \<noteq> [] then Err (ECode ErrIncompleteBody)
                                       else Ok b))))"

text \<open>
  \<open>newHashingReader\<close>: the expected digest is the base64-decoded header, of exactly 16 bytes; an
  empty header means no check. \<open>b64dec\<close> is \<open>base64.StdEncoding.DecodeString\<close>.
\<close>

definition newHashingReader_expected ::
    "(string \<Rightarrow> bytes option) \<Rightarrow> string \<Rightarrow> bytes option res" where
  "newHashingReader_expected b64dec expectedMD5Base64 =
     (if expectedMD5Base64 = '''' then Ok None
      else (case b64dec expectedMD5Base64 of
              None \<Rightarrow> Err (ECode ErrInvalidDigest)
            | Some d \<Rightarrow> if length d \<noteq> 16 then Err (ECode ErrInvalidDigest) else Ok (Some d)))"

text \<open>
  Reading through the hashing reader: the same bytes; where the inner reader ends without an error,
  a digest that was asked for and differs turns the end of file into \<open>ErrBadDigest\<close>.
\<close>

definition hashing_Read :: "(bytes \<Rightarrow> bytes) \<Rightarrow> bytes option \<Rightarrow> reader \<Rightarrow> reader" where
  "hashing_Read md5 expected inner =
     (case rd_err inner of
        Some e \<Rightarrow> inner
      | None \<Rightarrow>
          (case expected of
             Some d \<Rightarrow> if md5 (rd_bytes inner) \<noteq> d then inner\<lparr>rd_err := Some (ECode ErrBadDigest)\<rparr>
                       else inner
           | None \<Rightarrow> inner))"

text \<open>\<open>Sum\<close>: the sum kept at the end of file, before that the one of what was \<open>read\<close> so far.\<close>

definition hashing_Sum :: "(bytes \<Rightarrow> bytes) \<Rightarrow> bytes option \<Rightarrow> bytes \<Rightarrow> bytes" where
  "hashing_Sum md5 kept read = (case kept of Some s \<Rightarrow> s | None \<Rightarrow> md5 read)"

lemmas reader_defs [go_eval] =
  parseClampedInt_def bytes_reader_def io_EOF_def io_ErrUnexpectedEOF_def io_ReadFull_def
  ReadAll_def newHashingReader_expected_def hashing_Read_def

lemma parseClampedInt_range:
  "mn \<le> mx \<Longrightarrow> parseClampedInt s d mn mx = Ok v \<Longrightarrow> mn \<le> v \<and> v \<le> mx"
  by (auto simp: parseClampedInt_def split: option.splits if_splits)

lemma parseClampedInt_errors:
  "parseClampedInt s d mn mx \<noteq> Panic" "parseClampedInt s d mn mx \<noteq> NoFuel"
  by (auto simp: parseClampedInt_def split: option.splits)

text \<open>
  \<open>ReadAll\<close> succeeds exactly when the reader delivers the announced number of bytes and then ends
  without an error, and then returns all of them.
\<close>

lemma ReadAll_Ok_iff:
  "0 \<le> sz \<Longrightarrow>
   ReadAll r sz = Ok b \<longleftrightarrow> rd_bytes r = b \<and> int (length b) = sz \<and> rd_err r = None"
  by (auto simp: ReadAll_def io_ReadFull_def io_EOF_def io_ErrUnexpectedEOF_def
      split: option.splits if_splits)

lemma ReadAll_bytes_reader [simp]: "ReadAll (bytes_reader bs) (int (length bs)) = Ok bs"
  by (simp add: ReadAll_Ok_iff bytes_reader_def)

lemma ReadAll_short:
  "0 < length (rd_bytes r) \<Longrightarrow> int (length (rd_bytes r)) < sz \<Longrightarrow> rd_err r = None \<Longrightarrow>
   ReadAll r sz = Err (ECode ErrIncompleteBody)"
  by (simp add: ReadAll_def io_ReadFull_def)

lemma ReadAll_long:
  "0 \<le> sz \<Longrightarrow> sz < int (length (rd_bytes r)) \<Longrightarrow> rd_err r = None \<Longrightarrow>
   ReadAll r sz = Err (ECode ErrIncompleteBody)"
  by (auto simp: ReadAll_def io_ReadFull_def io_EOF_def io_ErrUnexpectedEOF_def)

lemma ReadAll_negative: "ReadAll r sz = Panic \<longleftrightarrow> sz < 0"
  by (auto simp: ReadAll_def io_ReadFull_def io_EOF_def split: option.splits if_splits)

lemma ReadAll_fuel: "ReadAll r sz \<noteq> NoFuel"
  by (auto simp: ReadAll_def io_ReadFull_def split: option.splits if_splits)

text \<open>
  With a digest, a body is accepted only if its MD5 is the digest; without one every body is.
\<close>

lemma hashing_ReadAll_Ok_iff:
  assumes "0 \<le> sz"
  shows "ReadAll (hashing_Read md5 expected r) sz = Ok b \<longleftrightarrow>
           rd_bytes r = b \<and> int (length b) = sz \<and> rd_err r = None \<and>
           (case expected of None \<Rightarrow> True | Some d \<Rightarrow> md5 b = d)"
  using assms by (auto simp: ReadAll_Ok_iff hashing_Read_def split: option.splits)

lemma hashing_bad_digest:
  "rd_err r = None \<Longrightarrow> md5 (rd_bytes r) \<noteq> d \<Longrightarrow> sz = int (length (rd_bytes r)) \<Longrightarrow>
   ReadAll (hashing_Read md5 (Some d) r) sz = Err (ECode ErrBadDigest)"
  by (simp add: ReadAll_def io_ReadFull_def hashing_Read_def)

end
