(* ===== verification/Backend.thy ===== *)
theory Backend
  imports Messages Readers
begin

text \<open>
  \<open>backend.go\<close>: the interfaces \<open>Backend\<close> and \<open>VersionedBackend\<close> as records of state transformers over
  an arbitrary state, and the two helpers that are written against the interface, \<open>CopyObject\<close> and
  \<open>MergeMetadata\<close>. An operation returns its outcome and the state after it; an error carries no
  other result, as no caller looks at one.

  The metadata map of \<open>PutObject\<close> is a Go map that may be nil. \<open>MergeMetadata\<close> writes into it, so
  its model returns the map as changed; a write into a nil map is \<open>Panic\<close>.
\<close>

type_synonym ('s, 'a) act = "'s \<Rightarrow> 'a res \<times> 's"

definition act_ok :: "'a \<Rightarrow> ('s, 'a) act" where
  "act_ok x s = (Ok x, s)"

definition act_err :: "s3error \<Rightarrow> ('s, 'a) act" where
  "act_err e s = (Err e, s)"

definition act_res :: "'a res \<Rightarrow> ('s, 'a) act" where
  "act_res r s = (r, s)"

definition act_bind :: "('s, 'a) act \<Rightarrow> ('a \<Rightarrow> ('s, 'b) act) \<Rightarrow> ('s, 'b) act" where
  "act_bind m f s =
     (case m s of
        (Ok x, s') \<Rightarrow> f x s'
      | (Err e, s') \<Rightarrow> (Err e, s')
      | (Panic, s') \<Rightarrow> (Panic, s')
      | (NoFuel, s') \<Rightarrow> (NoFuel, s'))"

lemmas act_defs [go_eval] = act_ok_def act_err_def act_res_def act_bind_def

record PutObjectResult =
  pr_VersionID :: string

definition emptyPutResult :: PutObjectResult where
  "emptyPutResult = \<lparr>pr_VersionID = ''''\<rparr>"

record 's Backend =
  be_ListBuckets :: "('s, BucketInfo list) act"
  be_ListBucket :: "string \<Rightarrow> Prefix option \<Rightarrow> ListBucketPage \<Rightarrow> ('s, ObjectList) act"
  be_CreateBucket :: "string \<Rightarrow> ('s, unit) act"
  be_BucketExists :: "string \<Rightarrow> ('s, bool) act"
  be_DeleteBucket :: "string \<Rightarrow> ('s, unit) act"
  be_ForceDeleteBucket :: "string \<Rightarrow> ('s, unit) act"
  be_GetObject :: "string \<Rightarrow> string \<Rightarrow> ObjectRangeRequest option \<Rightarrow> ('s, Object) act"
  be_HeadObject :: "string \<Rightarrow> string \<Rightarrow> ('s, Object) act"
  be_DeleteObject :: "string \<Rightarrow> string \<Rightarrow> ('s, ObjectDeleteResult) act"
  be_PutObject ::
    "string \<Rightarrow> string \<Rightarrow> gomap option \<Rightarrow> reader \<Rightarrow> int \<Rightarrow> ('s, PutObjectResult) act"
  be_DeleteMulti :: "string \<Rightarrow> string list \<Rightarrow> ('s, MultiDeleteResult) act"
  be_CopyObject ::
    "string \<Rightarrow> string \<Rightarrow> string \<Rightarrow> string \<Rightarrow> gomap option \<Rightarrow> ('s, CopyObjectResult) act"

record 's VersionedBackend =
  vb_VersioningConfiguration :: "string \<Rightarrow> ('s, VersioningConfiguration) act"
  vb_SetVersioningConfiguration :: "string \<Rightarrow> VersioningConfiguration \<Rightarrow> ('s, unit) act"
  vb_GetObjectVersion ::
    "string \<Rightarrow> string \<Rightarrow> string \<Rightarrow> ObjectRangeRequest option \<Rightarrow> ('s, Object) act"
  vb_HeadObjectVersion :: "string \<Rightarrow> string \<Rightarrow> string \<Rightarrow> ('s, Object) act"
  vb_DeleteObjectVersion :: "string \<Rightarrow> string \<Rightarrow> string \<Rightarrow> ('s, ObjectDeleteResult) act"
  vb_DeleteMultiVersions :: "string \<Rightarrow> ObjectID list \<Rightarrow> ('s, MultiDeleteResult) act"
  vb_ListBucketVersions ::
    "string \<Rightarrow> Prefix option \<Rightarrow> ListBucketVersionsPage option \<Rightarrow> ('s, ListBucketVersionsResult) act"

section \<open>CopyObject\<close>

text \<open>\<open>now\<close> is the reading of \<open>time.Now()\<close>.\<close>

definition CopyObject ::
    "int \<Rightarrow> 's Backend \<Rightarrow> string \<Rightarrow> string \<Rightarrow> string \<Rightarrow> string \<Rightarrow> gomap option \<Rightarrow>
     ('s, CopyObjectResult) act" where
  "CopyObject now db srcBucket srcKey dstBucket dstKey meta =
     act_bind (be_GetObject db srcBucket srcKey None)
       (\<lambda>c. act_bind (be_PutObject db dstBucket dstKey meta (bytes_reader (ob_Contents c)) (ob_Size c))
         (\<lambda>_. act_ok \<lparr>cr_ETag = quoted (hex_encode (ob_Hash c)), cr_LastModified = now\<rparr>))"

section \<open>MergeMetadata\<close>

text \<open>
  The assertion \<open>err.(awserr.Error)\<close>: the code of the error if its type has the methods \<open>Code\<close>,
  \<open>Message\<close> and \<open>OrigErr\<close> of the AWS SDK. No error type of the repository has them.
\<close>

fun awserr_Code :: "s3error \<Rightarrow> string option" where
  "awserr_Code (ECode _) = None"
| "awserr_Code (EInternalCode _) = None"
| "awserr_Code (EResponse _) = None"
| "awserr_Code (EInvalidArgumentResponse _ _ _) = None"
| "awserr_Code (EResourceResponse _ _) = None"
| "awserr_Code (ESkewedResponse _ _ _) = None"
| "awserr_Code (EOther _) = None"

text \<open>The range loop over the existing metadata; \<open>None\<close> is the nil map.\<close>

fun merge_entries :: "gomap \<Rightarrow> gomap option \<Rightarrow> gomap option res" where
  "merge_entries [] meta = Ok meta"
| "merge_entries ((k, v) # es) meta =
     (case meta of
        None \<Rightarrow> Panic
      | Some m \<Rightarrow>
          merge_entries es (Some (if map_of m k = None then AList.update k v m else m)))"

definition carry_over :: "Object option \<Rightarrow> gomap option \<Rightarrow> gomap option res" where
  "carry_over existingObj meta =
     (case existingObj of
        None \<Rightarrow> Ok meta
      | Some obj \<Rightarrow> merge_entries (case ob_Metadata obj of None \<Rightarrow> [] | Some es \<Rightarrow> es) meta)"

definition MergeMetadata ::
    "('s, Object) act \<Rightarrow> gomap option \<Rightarrow> ('s, gomap option) act" where
  "MergeMetadata getObject meta s =
     (case getObject s of
        (Ok obj, s') \<Rightarrow> (carry_over (Some obj) meta, s')
      | (Err e, s') \<Rightarrow>
          (case awserr_Code e of
             Some c \<Rightarrow> if c \<noteq> code_string ErrNoSuchKey then (Err e, s') else (carry_over None meta, s')
           | None \<Rightarrow> (carry_over None meta, s'))
      | (Panic, s') \<Rightarrow> (Panic, s')
      | (NoFuel, s') \<Rightarrow> (NoFuel, s'))"

text \<open>A Go map as a function; a nil map is empty.\<close>

definition meta_map :: "gomap option \<Rightarrow> string \<Rightarrow> string option" where
  "meta_map m = map_of (case m of Some es \<Rightarrow> es | None \<Rightarrow> [])"

lemmas backend_defs [go_eval] =
  emptyPutResult_def CopyObject_def carry_over_def MergeMetadata_def

lemma awserr_Code_None [simp]: "awserr_Code e = None"
  by (cases e) simp_all

text \<open>
  What \<open>MergeMetadata\<close> computes: the keys of the request win, the other keys of the stored object are
  carried over. It panics exactly when there is something to carry over into a nil map.
\<close>

lemma merge_entries_Some:
  "\<exists>m'. merge_entries es (Some m) = Ok (Some m') \<and>
        map_of m' = map_of es ++ map_of m"
proof (induction es arbitrary: m)
  case (Cons e es)
  obtain k v where e: "e = (k, v)" by (cases e)
  show ?case
  proof (cases "map_of m k")
    case None
    then obtain m' where "merge_entries es (Some (AList.update k v m)) = Ok (Some m')"
      "map_of m' = map_of es ++ (map_of m)(k \<mapsto> v)"
      using Cons.IH [of "AList.update k v m"] by (metis map_of_update)
    with None e show ?thesis by (auto simp: map_add_def intro!: ext split: option.splits)
  next
    case (Some x)
    with e Cons.IH [of m] show ?thesis by (auto simp: map_add_def intro!: ext split: option.splits)
  qed
qed simp

lemma carry_over_Some:
  "\<exists>m'. carry_over existing (Some m) = Ok (Some m') \<and>
     map_of m' = (case existing of None \<Rightarrow> Map.empty
                  | Some obj \<Rightarrow> map_of (case ob_Metadata obj of None \<Rightarrow> [] | Some es \<Rightarrow> es)) ++ map_of m"
  using merge_entries_Some by (cases existing) (simp_all add: carry_over_def)

lemma carry_over_nil:
  "carry_over existing None =
     (case existing of
        Some obj \<Rightarrow> (case ob_Metadata obj of Some (e # es) \<Rightarrow> Panic | _ \<Rightarrow> Ok None)
      | None \<Rightarrow> Ok None)"
  by (auto simp: carry_over_def split: option.splits list.splits)

lemma carry_over_not_Err: "carry_over existing meta \<noteq> Err e" "carry_over existing meta \<noteq> NoFuel"
proof -
  have "carry_over existing meta \<noteq> Err e \<and> carry_over existing meta \<noteq> NoFuel"
  proof (cases meta)
    case None
    then show ?thesis by (auto simp: carry_over_nil split: option.splits list.splits)
  next
    case (Some m)
    then show ?thesis using carry_over_Some [of existing m] by auto
  qed
  then show "carry_over existing meta \<noteq> Err e" "carry_over existing meta \<noteq> NoFuel" by simp_all
qed

lemma act_bind_Ok: "act_bind m f s = (Ok y, s') \<longleftrightarrow> (\<exists>x t. m s = (Ok x, t) \<and> f x t = (Ok y, s'))"
  by (auto simp: act_bind_def split: prod.splits res.splits)

end
