(* ===== verification/Skiplist.thy ===== *)
theory Skiplist
  imports Prelude
begin

text \<open>
  The interface of the third-party package \<open>goskiplist\<close> (an ordered map with cursors), the contract
  the repository relies on as a locale, the wrapper \<open>internal/goskipiter/iter.go\<close>, and the loop
  \<open>for iter.Next() { ... }\<close> over any iterator.

  The skip list is a parameter: every definition that uses one takes the record of its operations.
  The locale \<open>skiplist_laws\<close> states its documented behaviour over two observations, the entries in key
  order and the position of an iterator (0 before the first entry, i on the i-th entry).
\<close>

record ('k, 'v, 'm, 'i) skiplist =
  sl_new :: 'm
  sl_get :: "'m \<Rightarrow> 'k \<Rightarrow> 'v option"
  sl_set :: "'m \<Rightarrow> 'k \<Rightarrow> 'v \<Rightarrow> 'm"
  sl_delete :: "'m \<Rightarrow> 'k \<Rightarrow> 'v option \<times> 'm"
  sl_len :: "'m \<Rightarrow> nat"
  sl_iterator :: "'m \<Rightarrow> 'i"
  it_next :: "'i \<Rightarrow> bool \<times> 'i"
  it_entry :: "'i \<Rightarrow> ('k \<times> 'v) option" \<comment> \<open>Key and Value; nil before the first entry\<close>
  it_seek :: "'i \<Rightarrow> 'k \<Rightarrow> bool \<times> 'i"

section \<open>Loops over iterators\<close>

datatype 's ctl = Continue 's | Break 's

text \<open>
  \<open>go_range n nxt body s it\<close> runs the loop body on each element the iterator gives, threading the
  state \<open>s\<close>; the fuel \<open>n\<close> bounds the calls of \<open>nxt\<close>, and \<open>None\<close> means it ran out.
\<close>

fun go_range ::
    "nat \<Rightarrow> ('i \<Rightarrow> 'x option \<times> 'i) \<Rightarrow> ('x \<Rightarrow> 's \<Rightarrow> 's ctl) \<Rightarrow> 's \<Rightarrow> 'i \<Rightarrow> ('s \<times> 'i) option" where
  "go_range 0 nxt body s it = None"
| "go_range (Suc n) nxt body s it =
     (case nxt it of
        (None, it') \<Rightarrow> Some (s, it')
      | (Some x, it') \<Rightarrow>
          (case body x s of
             Continue s' \<Rightarrow> go_range n nxt body s' it'
           | Break s' \<Rightarrow> Some (s', it')))"

text \<open>The same loop over a list: the state, the elements not visited, and whether it broke off.\<close>

fun list_range :: "('x \<Rightarrow> 's \<Rightarrow> 's ctl) \<Rightarrow> 's \<Rightarrow> 'x list \<Rightarrow> 's \<times> 'x list \<times> bool" where
  "list_range body s [] = (s, [], False)"
| "list_range body s (x # xs) =
     (case body x s of
        Continue s' \<Rightarrow> list_range body s' xs
      | Break s' \<Rightarrow> (s', xs, True))"

text \<open>\<open>yields nxt it xs e\<close>: from \<open>it\<close> the iterator gives exactly \<open>xs\<close> and then stops at \<open>e\<close>.\<close>

inductive yields :: "('i \<Rightarrow> 'x option \<times> 'i) \<Rightarrow> 'i \<Rightarrow> 'x list \<Rightarrow> 'i \<Rightarrow> bool"
  for nxt where
  yields_Nil: "nxt it = (None, e) \<Longrightarrow> yields nxt it [] e"
| yields_Cons: "nxt it = (Some x, it') \<Longrightarrow> yields nxt it' xs e \<Longrightarrow> yields nxt it (x # xs) e"

inductive_cases yields_NilE: "yields nxt it [] e"
inductive_cases yields_ConsE: "yields nxt it (x # xs) e"
inductive_simps yields_Nil_iff: "yields nxt it [] e"
inductive_simps yields_Cons_iff: "yields nxt it (x # xs) e"

lemma yields_same_step: "nxt a = nxt b \<Longrightarrow> yields nxt a xs e \<longleftrightarrow> yields nxt b xs e"
  by (cases xs) (simp_all add: yields_Nil_iff yields_Cons_iff)

lemma go_range_yields:
  assumes "yields nxt it xs e" "length xs < n"
    and "list_range body s xs = (s', rest, broke)"
  shows "\<exists>it'. go_range n nxt body s it = Some (s', it') \<and>
               (if broke then yields nxt it' rest e else it' = e)"
  using assms
proof (induction xs arbitrary: it n s)
  case Nil
  then show ?case by (cases n) (auto elim: yields_NilE)
next
  case (Cons x xs)
  from Cons.prems(1) obtain it1 where it1: "nxt it = (Some x, it1)" "yields nxt it1 xs e"
    by (rule yields_ConsE)
  obtain m where n: "n = Suc m" "length xs < m" using Cons.prems(2) by (cases n) auto
  show ?case
  proof (cases "body x s")
    case (Continue s1)
    with Cons.prems(3) have "list_range body s1 xs = (s', rest, broke)" by simp
    from Cons.IH [OF it1(2) n(2) this] Continue it1 n show ?thesis by simp
  next
    case (Break s1)
    with Cons.prems(3) it1 n show ?thesis by auto
  qed
qed

corollary go_range_list:
  assumes "yields nxt it xs e" "length xs < n"
  shows "map_option fst (go_range n nxt body s it) = Some (fst (list_range body s xs))"
  using go_range_yields [OF assms, of body s]
  by (cases "list_range body s xs") force

lemma list_range_not_broke: "list_range body s xs = (s', rest, False) \<Longrightarrow> rest = []"
  by (induction xs arbitrary: s) (auto split: ctl.splits)

lemma list_range_rest: "list_range body s xs = (s', rest, b) \<Longrightarrow> \<exists>ys. xs = ys @ rest"
proof (induction xs arbitrary: s)
  case (Cons x xs)
  then show ?case by (auto split: ctl.splits) (metis append_Cons)+
qed simp

lemma go_range_invariant:
  assumes "go_range n nxt body s it = Some (s', it')" "P s"
    and "\<And>x s t. P s \<Longrightarrow> body x s = Continue t \<or> body x s = Break t \<Longrightarrow> P t"
  shows "P s'"
  using assms(1,2)
proof (induction n arbitrary: s it)
  case (Suc n)
  obtain r it1 where r: "nxt it = (r, it1)" by fastforce
  show ?case
  proof (cases r)
    case None
    then show ?thesis using Suc.prems r by simp
  next
    case (Some x)
    then show ?thesis
      using Suc.prems Suc.IH [of _ it1] assms(3) [of s x] r by (cases "body x s") auto
  qed
qed simp

lemma go_range_iterator:
  assumes "go_range n nxt body s it = Some (s', it')" "P it" "\<And>i. P i \<Longrightarrow> P (snd (nxt i))"
  shows "P it'"
  using assms(1,2)
proof (induction n arbitrary: s it)
  case (Suc n)
  show ?case
  proof (cases "nxt it")
    case (Pair x i)
    then have "P i" using assms(3) [of it] Suc.prems(2) by simp
    with Pair Suc show ?thesis by (auto split: option.splits ctl.splits)
  qed
qed simp

text \<open>An invariant of the body holds after the loop.\<close>

lemma list_range_invariant:
  assumes "list_range body s xs = (s', rest, b)" "P s"
    and "\<And>x t t'. x \<in> set xs \<Longrightarrow> P t \<Longrightarrow> body x t = Continue t' \<or> body x t = Break t' \<Longrightarrow> P t'"
  shows "P s'"
  using assms
proof (induction xs arbitrary: s)
  case (Cons x xs)
  show ?case
  proof (cases "body x s")
    case (Continue t)
    then have "P t" using Cons.prems(2) Cons.prems(3) [of x s t] by simp
    moreover have "list_range body t xs = (s', rest, b)" using Cons.prems(1) Continue by simp
    ultimately show ?thesis using Cons.IH Cons.prems(3) by (metis list.set_intros(2))
  next
    case (Break t)
    then show ?thesis using Cons.prems(1,2) Cons.prems(3) [of x s t] by simp
  qed
qed simp

section \<open>goskipiter\<close>

record 'i goskipiter =
  gs_inner :: 'i
  gs_didSeek :: bool
  gs_seekWasOK :: bool

definition gs_New :: "'i \<Rightarrow> 'i goskipiter" where
  "gs_New inner = \<lparr>gs_inner = inner, gs_didSeek = False, gs_seekWasOK = False\<rparr>"

definition gs_Next :: "('k, 'v, 'm, 'i) skiplist \<Rightarrow> 'i goskipiter \<Rightarrow> bool \<times> 'i goskipiter" where
  "gs_Next sl iter =
     (if gs_didSeek iter then (gs_seekWasOK iter, iter\<lparr>gs_didSeek := False\<rparr>)
      else (case it_next sl (gs_inner iter) of (ok, inner) \<Rightarrow> (ok, iter\<lparr>gs_inner := inner\<rparr>)))"

definition gs_Key :: "('k, 'v, 'm, 'i) skiplist \<Rightarrow> 'i goskipiter \<Rightarrow> 'k option" where
  "gs_Key sl iter = map_option fst (it_entry sl (gs_inner iter))"

definition gs_Value :: "('k, 'v, 'm, 'i) skiplist \<Rightarrow> 'i goskipiter \<Rightarrow> 'v option" where
  "gs_Value sl iter = map_option snd (it_entry sl (gs_inner iter))"

definition gs_Seek ::
    "('k, 'v, 'm, 'i) skiplist \<Rightarrow> 'i goskipiter \<Rightarrow> 'k \<Rightarrow> bool \<times> 'i goskipiter" where
  "gs_Seek sl iter key =
     (case it_seek sl (gs_inner iter) key of
        (ok, inner) \<Rightarrow>
          (ok, iter\<lparr>gs_inner := inner, gs_didSeek := True, gs_seekWasOK := ok\<rparr>))"

text \<open>\<open>Previous\<close> and \<open>Close\<close> over those of the inner iterator; after a seek \<open>Previous\<close> panics (\<open>None\<close>).\<close>

definition gs_Previous :: "('i \<Rightarrow> bool \<times> 'i) \<Rightarrow> 'i goskipiter \<Rightarrow> (bool \<times> 'i goskipiter) option" where
  "gs_Previous prev iter =
     (if gs_didSeek iter then None
      else (case prev (gs_inner iter) of (ok, inner) \<Rightarrow> Some (ok, iter\<lparr>gs_inner := inner\<rparr>)))"

definition gs_Close :: "('i \<Rightarrow> 'i) \<Rightarrow> 'i goskipiter \<Rightarrow> 'i goskipiter" where
  "gs_Close close iter = iter\<lparr>gs_inner := close (gs_inner iter)\<rparr>"

text \<open>One turn of \<open>for iter.Next()\<close>: the entry under the iterator when \<open>Next\<close> answers true.\<close>

definition gs_step ::
    "('k, 'v, 'm, 'i) skiplist \<Rightarrow> 'i goskipiter \<Rightarrow> ('k \<times> 'v) option \<times> 'i goskipiter" where
  "gs_step sl iter =
     (case gs_Next sl iter of
        (ok, iter') \<Rightarrow> (if ok then it_entry sl (gs_inner iter') else None, iter'))"

definition it_step :: "('k, 'v, 'm, 'i) skiplist \<Rightarrow> 'i \<Rightarrow> ('k \<times> 'v) option \<times> 'i" where
  "it_step sl iter =
     (case it_next sl iter of (ok, iter') \<Rightarrow> (if ok then it_entry sl iter' else None, iter'))"

lemmas goskipiter_defs = gs_New_def gs_Next_def gs_Key_def gs_Value_def gs_Seek_def gs_step_def

section \<open>The contract of the skip list\<close>

lemma map_of_filter_neq:
  "map_of (filter (\<lambda>e. fst e \<noteq> k) xs) k' = (if k' = k then None else map_of xs k')"
  by (induction xs) auto

definition before_key :: "'k :: linorder \<Rightarrow> ('k \<times> 'v) list \<Rightarrow> nat" where
  "before_key k xs = length (takeWhile (\<lambda>e. fst e < k) xs)"

locale skiplist_laws =
  fixes sl :: "('k :: linorder, 'v, 'm, 'i) skiplist"
    and entries :: "'m \<Rightarrow> ('k \<times> 'v) list"
    and view :: "'i \<Rightarrow> ('k \<times> 'v) list \<times> nat"
  assumes entries_new: "entries (sl_new sl) = []"
    and entries_sorted: "sorted_wrt (<) (map fst (entries m))"
    and get_entries: "sl_get sl m k = map_of (entries m) k"
    and set_entries: "map_of (entries (sl_set sl m k v)) = (map_of (entries m))(k \<mapsto> v)"
    and delete_value: "fst (sl_delete sl m k) = map_of (entries m) k"
    and delete_entries: "map_of (entries (snd (sl_delete sl m k))) = (map_of (entries m))(k := None)"
    and len_entries: "sl_len sl m = length (entries m)"
    and view_iterator: "view (sl_iterator sl m) = (entries m, 0)"
    and view_next: "view it = (xs, i) \<Longrightarrow> i \<le> length xs \<Longrightarrow>
      fst (it_next sl it) = (i < length xs) \<and>
      view (snd (it_next sl it)) = (xs, if i < length xs then Suc i else i)"
    and view_entry: "view it = (xs, i) \<Longrightarrow>
      it_entry sl it = (if 0 < i \<and> i \<le> length xs then Some (xs ! (i - 1)) else None)"
    and view_seek: "view it = (xs, i) \<Longrightarrow> before_key k xs < length xs \<Longrightarrow>
      fst (it_seek sl it k) \<and> view (snd (it_seek sl it k)) = (xs, Suc (before_key k xs))"
    and view_seek_miss: "view it = (xs, i) \<Longrightarrow> i \<le> length xs \<Longrightarrow> before_key k xs = length xs \<Longrightarrow>
      \<not> fst (it_seek sl it k) \<and> fst (view (snd (it_seek sl it k))) = xs \<and>
      snd (view (snd (it_seek sl it k))) \<le> length xs"
begin

lemma get_new [simp]: "sl_get sl (sl_new sl) k = None"
  by (simp add: get_entries entries_new)

lemma get_set [simp]: "sl_get sl (sl_set sl m k v) k' = (if k' = k then Some v else sl_get sl m k')"
  by (simp add: get_entries set_entries)

lemma get_delete [simp]:
  "sl_get sl (snd (sl_delete sl m k)) k' = (if k' = k then None else sl_get sl m k')"
  by (simp add: get_entries delete_entries)

lemma delete_get: "fst (sl_delete sl m k) = sl_get sl m k"
  by (simp add: get_entries delete_value)

lemma distinct_keys: "distinct (map fst (entries m))"
  using entries_sorted by (rule sorted_wrt_less_distinct)

lemma get_Some_iff: "sl_get sl m k = Some v \<longleftrightarrow> (k, v) \<in> set (entries m)"
  by (simp add: get_entries distinct_keys map_of_eq_Some_iff)

lemma len_zero_iff: "sl_len sl m = 0 \<longleftrightarrow> (\<forall>k. sl_get sl m k = None)"
  by (metis get_Some_iff in_set_conv_nth len_entries length_0_conv length_pos_if_in_set
      list.set_intros(1) neq_Nil_conv not_None_eq prod.collapse gr_zeroI less_numeral_extra(3))

text \<open>Two maps with the same lookups have the same entries in the same order.\<close>

lemma entries_eqI:
  assumes "\<And>k. sl_get sl m k = sl_get sl m' k"
  shows "entries m = entries m'"
proof (rule map_sorted_distinct_set_unique [of fst])
  have "set (entries m) = set (entries m')"
    using assms get_Some_iff by (metis (no_types) prod.exhaust_sel subsetI subset_antisym)
  then show "set (entries m) = set (entries m')"
    and "inj_on fst (set (entries m) \<union> set (entries m'))"
    using distinct_keys [of m] by (auto simp: distinct_map)
  show "sorted (map fst (entries m))" "sorted (map fst (entries m'))"
    using entries_sorted [of m] entries_sorted [of m'] by (simp_all add: strict_sorted_iff)
  show "distinct (map fst (entries m))" "distinct (map fst (entries m'))"
    by (rule distinct_keys)+
qed

lemma entries_unique:
  assumes "sorted_wrt (<) (map fst xs)" "\<And>k. sl_get sl m k = map_of xs k"
  shows "entries m = xs"
proof (rule map_sorted_distinct_set_unique [of fst])
  have d: "distinct (map fst xs)" using assms(1) by (rule sorted_wrt_less_distinct)
  then have "set (entries m) = set xs"
    using assms(2) get_Some_iff by (metis map_of_eq_Some_iff prod.exhaust_sel subsetI subset_antisym)
  then show "set (entries m) = set xs" "inj_on fst (set (entries m) \<union> set xs)"
    using distinct_keys [of m] by (auto simp: distinct_map)
  show "sorted (map fst (entries m))" "sorted (map fst xs)" "distinct (map fst (entries m))"
    "distinct (map fst xs)"
    using entries_sorted [of m] assms(1) distinct_keys d by (simp_all add: strict_sorted_iff)
qed

text \<open>Setting a key above all others appends; deleting a key filters it out.\<close>

lemma entries_set_last:
  assumes "\<And>k' v'. sl_get sl m k' = Some v' \<Longrightarrow> k' < k"
  shows "entries (sl_set sl m k v) = entries m @ [(k, v)]"
proof (rule entries_unique)
  have "k' < k" if "k' \<in> fst ` set (entries m)" for k'
    using that assms get_Some_iff by auto
  then show "sorted_wrt (<) (map fst (entries m @ [(k, v)]))"
    using entries_sorted [of m] by (simp add: sorted_wrt_append)
  then have "k \<notin> fst ` set (entries m)" by (auto simp: sorted_wrt_append)
  then have "map_of (entries m) k = None" by (simp add: map_of_eq_None_iff)
  then show "sl_get sl (sl_set sl m k v) k' = map_of (entries m @ [(k, v)]) k'" for k'
    unfolding get_set by (simp add: get_entries map_add_def split: option.splits)
qed

lemma entries_delete:
  "entries (snd (sl_delete sl m k)) = filter (\<lambda>e. fst e \<noteq> k) (entries m)"
proof (rule entries_unique)
  show "sorted_wrt (<) (map fst (filter (\<lambda>e. fst e \<noteq> k) (entries m)))"
    using entries_sorted [of m] by (simp add: sorted_wrt_map sorted_wrt_filter)
  show "sl_get sl (snd (sl_delete sl m k)) k' = map_of (filter (\<lambda>e. fst e \<noteq> k) (entries m)) k'" for k'
    by (simp add: get_entries [symmetric]) (simp add: get_entries map_of_filter_neq)
qed

text \<open>An iterator gives the entries after its position.\<close>

lemma it_yields:
  assumes "view it = (xs, i)" "i \<le> length xs"
  shows "\<exists>e. yields (it_step sl) it (drop i xs) e \<and> view e = (xs, length xs)"
  using assms
proof (induction "length xs - i" arbitrary: it i)
  case 0
  then have "it_step sl it = (None, snd (it_next sl it))"
    using view_next [OF 0(2)] by (simp add: it_step_def split_beta)
  with 0 view_next [OF 0(2)] show ?case by (auto intro: yields_Nil)
next
  case (Suc n)
  then have i: "i < length xs" and n: "n = length xs - Suc i" by simp_all
  let ?it = "snd (it_next sl it)"
  have v: "view ?it = (xs, Suc i)" and ok: "fst (it_next sl it)"
    using view_next [OF Suc(3,4)] i by simp_all
  have "it_step sl it = (Some (xs ! i), ?it)"
    using view_entry [OF v] i ok by (simp add: it_step_def split_beta)
  moreover obtain e where "yields (it_step sl) ?it (drop (Suc i) xs) e" "view e = (xs, length xs)"
    using Suc(1) [of "Suc i" ?it] n v i by auto
  ultimately show ?case using i by (metis Cons_nth_drop_Suc yields_Cons)
qed

lemma gs_yields:
  assumes "view (gs_inner g) = (xs, i)" "i \<le> length xs" "\<not> gs_didSeek g"
  shows "\<exists>e. yields (gs_step sl) g (drop i xs) e \<and> \<not> gs_didSeek e \<and>
             view (gs_inner e) = (xs, length xs)"
  using assms
proof (induction "length xs - i" arbitrary: g i)
  case 0
  then have "gs_step sl g = (None, g\<lparr>gs_inner := snd (it_next sl (gs_inner g))\<rparr>)"
    using view_next [OF 0(2)] by (simp add: gs_step_def gs_Next_def split_beta)
  with 0 view_next [OF 0(2)] show ?case
    by (auto intro!: exI [of _ "g\<lparr>gs_inner := snd (it_next sl (gs_inner g))\<rparr>"] yields_Nil)
next
  case (Suc n)
  then have i: "i < length xs" and n: "n = length xs - Suc i" by simp_all
  let ?g = "g\<lparr>gs_inner := snd (it_next sl (gs_inner g))\<rparr>"
  have v: "view (gs_inner ?g) = (xs, Suc i)" and ok: "fst (it_next sl (gs_inner g))"
    using view_next [OF Suc(3,4)] i by simp_all
  have "gs_step sl g = (Some (xs ! i), ?g)"
    using view_entry [OF v] i ok Suc(5) by (simp add: gs_step_def gs_Next_def split_beta)
  moreover obtain e where "yields (gs_step sl) ?g (drop (Suc i) xs) e" "\<not> gs_didSeek e"
      "view (gs_inner e) = (xs, length xs)"
    using Suc(1) [of "Suc i" ?g] Suc(5) n v i by auto
  ultimately show ?case using i by (metis Cons_nth_drop_Suc yields_Cons)
qed

lemma gs_yields_new:
  "\<exists>e. yields (gs_step sl) (gs_New (sl_iterator sl m)) (entries m) e \<and> \<not> gs_didSeek e \<and>
       view (gs_inner e) = (entries m, length (entries m))"
  using gs_yields [of "gs_New (sl_iterator sl m)" "entries m" 0]
  by (simp add: gs_New_def view_iterator)

text \<open>After a successful \<open>Seek\<close> the wrapper gives the entries from the first key at or after it.\<close>

lemma before_key_le: "before_key k xs \<le> length xs"
  by (simp add: before_key_def length_takeWhile_le)

lemma gs_Seek_view:
  assumes "view (gs_inner g) = (xs, i)" "before_key k xs < length xs"
  shows "fst (gs_Seek sl g k)" "gs_didSeek (snd (gs_Seek sl g k))"
    "gs_seekWasOK (snd (gs_Seek sl g k))"
    "view (gs_inner (snd (gs_Seek sl g k))) = (xs, Suc (before_key k xs))"
  using view_seek [OF assms] by (simp_all add: gs_Seek_def split_beta)

lemma gs_yields_seek:
  assumes "view (gs_inner g) = (xs, i)" "before_key k xs < length xs"
  shows "\<exists>e. yields (gs_step sl) (snd (gs_Seek sl g k)) (drop (before_key k xs) xs) e \<and>
             \<not> gs_didSeek e \<and> view (gs_inner e) = (xs, length xs)"
proof -
  let ?g = "snd (gs_Seek sl g k)" and ?i = "before_key k xs"
  note v = gs_Seek_view [OF assms]
  have "gs_step sl ?g = (Some (xs ! ?i), ?g\<lparr>gs_didSeek := False\<rparr>)"
    using v assms(2) view_entry [OF v(4)] by (simp add: gs_step_def gs_Next_def)
  moreover obtain e where "yields (gs_step sl) (?g\<lparr>gs_didSeek := False\<rparr>) (drop (Suc ?i) xs) e"
      "\<not> gs_didSeek e" "view (gs_inner e) = (xs, length xs)"
    using gs_yields [of "?g\<lparr>gs_didSeek := False\<rparr>" xs "Suc ?i"] v(4) assms(2) by auto
  ultimately show ?thesis using assms(2) by (metis Cons_nth_drop_Suc yields_Cons)
qed

lemma gs_Seek_miss:
  assumes "view (gs_inner g) = (xs, i)" "i \<le> length xs" "before_key k xs = length xs"
  shows "\<not> fst (gs_Seek sl g k)" "gs_didSeek (snd (gs_Seek sl g k))"
    "\<not> gs_seekWasOK (snd (gs_Seek sl g k))"
    "fst (view (gs_inner (snd (gs_Seek sl g k)))) = xs"
    "snd (view (gs_inner (snd (gs_Seek sl g k)))) \<le> length xs"
  using view_seek_miss [OF assms] by (simp_all add: gs_Seek_def split_beta)

lemma gs_yields_seek_miss:
  assumes "view (gs_inner g) = (xs, i)" "i \<le> length xs" "before_key k xs = length xs"
  shows "yields (gs_step sl) (snd (gs_Seek sl g k)) [] ((snd (gs_Seek sl g k))\<lparr>gs_didSeek := False\<rparr>)"
  using gs_Seek_miss [OF assms] by (simp add: yields_Nil_iff gs_step_def gs_Next_def)

text \<open>
  A wrapper whose inner iterator stands within its entries: then \<open>Next\<close> is true exactly when the
  loop has another entry.
\<close>

definition gs_valid :: "'i goskipiter \<Rightarrow> bool" where
  "gs_valid g \<longleftrightarrow>
     snd (view (gs_inner g)) \<le> length (fst (view (gs_inner g))) \<and>
     (gs_didSeek g \<and> gs_seekWasOK g \<longrightarrow> 0 < snd (view (gs_inner g)))"

lemma gs_valid_new: "gs_valid (gs_New (sl_iterator sl m))"
  by (simp add: gs_valid_def gs_New_def view_iterator)

lemma gs_valid_Next: "gs_valid g \<Longrightarrow> gs_valid (snd (gs_Next sl g))"
  using view_next [of "gs_inner g" "fst (view (gs_inner g))" "snd (view (gs_inner g))"]
  by (auto simp: gs_valid_def gs_Next_def split: prod.splits)

lemma gs_valid_step: "gs_valid g \<Longrightarrow> gs_valid (snd (gs_step sl g))"
  using gs_valid_Next [of g] by (simp add: gs_step_def split_beta)

lemma gs_valid_Seek:
  assumes "gs_valid g"
  shows "gs_valid (snd (gs_Seek sl g k))"
proof -
  obtain xs i where v: "view (gs_inner g) = (xs, i)" "i \<le> length xs"
    using assms by (cases "view (gs_inner g)") (auto simp: gs_valid_def)
  show ?thesis
  proof (cases "before_key k xs < length xs")
    case True
    then show ?thesis using gs_Seek_view [OF v(1)] by (simp add: gs_valid_def Suc_le_eq)
  next
    case False
    then have "before_key k xs = length xs" using before_key_le [of k xs] by simp
    then show ?thesis using gs_Seek_miss [OF v] by (simp add: gs_valid_def)
  qed
qed

lemma gs_step_Some:
  assumes "gs_valid g"
  shows "fst (gs_step sl g) = None \<longleftrightarrow> \<not> fst (gs_Next sl g)"
proof -
  obtain xs i where v: "view (gs_inner g) = (xs, i)" "i \<le> length xs"
    using assms by (cases "view (gs_inner g)") (auto simp: gs_valid_def)
  show ?thesis
  proof (cases "gs_didSeek g")
    case True
    then show ?thesis using assms v view_entry [OF v(1)]
      by (auto simp: gs_step_def gs_Next_def gs_valid_def)
  next
    case False
    have "it_entry sl (snd (it_next sl (gs_inner g))) \<noteq> None" if "i < length xs"
      using view_next [OF v] view_entry [of "snd (it_next sl (gs_inner g))" xs "Suc i"] that by simp
    then show ?thesis using False view_next [OF v]
      by (auto simp: gs_step_def gs_Next_def split: prod.splits)
  qed
qed

lemma gs_Next_rest:
  assumes "gs_valid g" "yields (gs_step sl) g rest e"
  shows "fst (gs_Next sl g) \<longleftrightarrow> rest \<noteq> []"
  using gs_step_Some [OF assms(1)] assms(2)
  by (cases rest) (auto simp: yields_Nil_iff yields_Cons_iff)

end

section \<open>A reference skip list\<close>

text \<open>
  An association list read in key order meets the contract; the witnesses of the development run the
  models on it. Its iterator is the list of entries with a position.
\<close>

definition alist_entries :: "('k :: linorder \<times> 'v) list \<Rightarrow> ('k \<times> 'v) list" where
  "alist_entries m = sort_key fst (AList.clearjunk m)"

type_synonym ('k, 'v) alist_iterator = "('k \<times> 'v) list \<times> nat"

definition alist_skiplist ::
    "('k :: linorder, 'v, ('k \<times> 'v) list, ('k, 'v) alist_iterator) skiplist" where
  "alist_skiplist =
     \<lparr>sl_new = [],
      sl_get = map_of,
      sl_set = (\<lambda>m k v. AList.update k v m),
      sl_delete = (\<lambda>m k. (map_of m k, AList.delete k m)),
      sl_len = (\<lambda>m. length (alist_entries m)),
      sl_iterator = (\<lambda>m. (alist_entries m, 0)),
      it_next = (\<lambda>(xs, i). if i < length xs then (True, (xs, Suc i)) else (False, (xs, i))),
      it_entry = (\<lambda>(xs, i). if 0 < i \<and> i \<le> length xs then Some (xs ! (i - 1)) else None),
      it_seek = (\<lambda>(xs, i) k. let j = before_key k xs
                             in if j < length xs then (True, (xs, Suc j)) else (False, (xs, i)))\<rparr>"

lemma map_of_sort_key:
  "distinct (map fst xs) \<Longrightarrow> map_of (sort_key fst xs) = map_of xs"
  by (rule map_of_inject_set [THEN iffD2]) (simp_all add: distinct_map)

lemma map_of_alist_entries [simp]: "map_of (alist_entries m) = map_of m"
  by (simp add: alist_entries_def map_of_sort_key distinct_clearjunk map_of_clearjunk)

lemma alist_entries_sorted: "sorted_wrt (<) (map fst (alist_entries m))"
proof -
  have "distinct (map fst (sort_key fst (AList.clearjunk m)))"
    using distinct_clearjunk [of m] by (simp add: distinct_map)
  then show ?thesis by (simp add: strict_sorted_iff alist_entries_def)
qed

interpretation alist: skiplist_laws alist_skiplist alist_entries id
  by unfold_locales
    (auto simp: alist_skiplist_def alist_entries_sorted Let_def before_key_def
      split: if_splits, simp_all add: alist_entries_def)

lemmas alist_skiplist_eval [go_eval] = alist_skiplist_def alist_entries_def before_key_def

end
