(* ===== verification/VersionId.thy ===== *)
theory VersionId
  imports Prelude
begin

unbundle bit_operations_syntax

text \<open>
  \<open>backend/s3mem/versionid.go\<close>: the generator of version IDs. An ID is a counter of 30 decimal digits,
  a zero byte and pseudo-random bytes (splitmix64), all in base32hex, so that IDs sort as they were
  generated; the last section proves that they do, which the ordered version lists rely on.
\<close>

record versionGenerator =
  vg_state :: "64 word"
  vg_size :: nat
  vg_next :: nat

text \<open>The constructor computes a default for \<open>size\<close> but does not store it.\<close>

definition newVersionGenerator :: "64 word \<Rightarrow> int \<Rightarrow> versionGenerator" where
  "newVersionGenerator seed sz = \<lparr>vg_state = seed, vg_size = 0, vg_next = 0\<rparr>"

section \<open>base32.HexEncoding\<close>

fun nat_bits :: "nat \<Rightarrow> nat \<Rightarrow> bool list" where
  "nat_bits 0 n = []"
| "nat_bits (Suc w) n = odd (n div 2 ^ w) # nat_bits w n"

fun bits_val :: "bool list \<Rightarrow> nat" where
  "bits_val [] = 0"
| "bits_val (b # bs) = (if b then 2 ^ length bs else 0) + bits_val bs"

definition byte_bits :: "char \<Rightarrow> bool list" where
  "byte_bits c = nat_bits 8 (of_char c)"

fun quintets :: "bool list \<Rightarrow> nat list" where
  "quintets [] = []"
| "quintets (b # bs) =
     bits_val (take 5 ((b # bs) @ replicate 4 False)) # quintets (drop 4 bs)"

definition base32_char :: "nat \<Rightarrow> char" where
  "base32_char d = (if d < 10 then char_of (48 + d) else char_of (55 + d))"

definition base32hex :: "bytes \<Rightarrow> string" where
  "base32hex bs =
     (let ds = map base32_char (quintets (concat (map byte_bits bs)))
      in ds @ replicate ((8 - length ds mod 8) mod 8) (CHR ''=''))"

section \<open>The generator\<close>

definition pad30 :: "nat \<Rightarrow> string" where
  "pad30 n = (let s = nat_str n in replicate (30 - length s) (CHR ''0'') @ s)"

definition word_bytes :: "64 word \<Rightarrow> bytes" where
  "word_bytes z = map (\<lambda>k. char_of (uint (drop_bit k z))) [0, 8, 16, 24, 32, 40, 48, 56]"

definition splitmix :: "64 word \<Rightarrow> 64 word" where
  "splitmix z0 =
     (let z1 = (z0 XOR drop_bit 30 z0) * 0xBF58476D1CE4E5B9
      in (z1 XOR drop_bit 27 z1) * 0x94D049BB133111EB)"

fun fill_words :: "nat \<Rightarrow> 64 word \<Rightarrow> bytes \<times> 64 word" where
  "fill_words 0 st = ([], st)"
| "fill_words (Suc n) st =
     (let st' = st + 0x9E3779B97F4A7C15
      in case fill_words n st' of (bs, st'') \<Rightarrow> (word_bytes (splitmix st') @ bs, st''))"

definition vg_Next :: "versionGenerator \<Rightarrow> bytes \<Rightarrow> (string \<times> bytes) \<times> versionGenerator" where
  "vg_Next v scratch =
     (let next = vg_next v + 1;
          idb = pad30 next;
          neat = vg_size v div 8 * 8 + 8;
          scratchLen = length idb + neat + 1;
          scratch1 = (if length scratch < scratchLen then replicate scratchLen (CHR 0x00)
                      else scratch);
          scratch2 = idb @ drop (length idb) scratch1
      in case fill_words (neat div 8) (vg_state v) of
           (bs, st) \<Rightarrow>
             (let scratch3 = take (length idb + 1) scratch2 @ bs @
                               drop (length idb + 1 + neat) scratch2
              in ((''3/'' @ base32hex scratch3, scratch3),
                  v\<lparr>vg_next := next, vg_state := st\<rparr>)))"

section \<open>Lexicographic order\<close>

lemma less_list_append:
  assumes "xs < ys" "length xs = length ys"
  shows "xs @ us < ys @ (vs :: 'a :: linorder list)"
  using assms by (simp add: list_less_def lexord_sufI)

lemma less_append_left: "xs < ys \<Longrightarrow> zs @ xs < zs @ (ys :: 'a :: linorder list)"
  by (simp add: list_less_def lexord_append_leftI)

lemma less_ConsI: "x < y \<Longrightarrow> x # xs < y # (ys :: 'a :: linorder list)"
  by simp

text \<open>The first difference of two lists of the same length.\<close>

lemma less_same_length:
  assumes "xs < (ys :: 'a :: linorder list)" "length xs = length ys"
  obtains p a b u v where "xs = p @ a # u" "ys = p @ b # v" "a < b" "length u = length v"
  using assms
proof (induction xs arbitrary: ys thesis)
  case (Cons x xs)
  obtain y ys' where ys: "ys = y # ys'" using Cons.prems(3) by (cases ys) auto
  show ?case
  proof (cases "x < y")
    case True
    with Cons.prems(1) [of "[]" x xs y ys'] Cons.prems(3) ys show ?thesis by simp
  next
    case False
    then have "x = y" "xs < ys'" using Cons.prems(2) ys by auto
    with Cons ys show ?thesis by (metis append_Cons length_Cons nat.inject)
  qed
qed simp

lemma less_concat_map:
  assumes "xs < (ys :: 'a :: linorder list)" "length xs = length ys"
    and "\<And>a b. a < b \<Longrightarrow> f a < (f b :: 'b :: linorder list)" "\<And>a. length (f a) = n"
  shows "concat (map f xs) < concat (map f ys)"
proof -
  obtain p a b u v where d: "xs = p @ a # u" "ys = p @ b # v" "a < b"
    using less_same_length [OF assms(1,2)] by metis
  show ?thesis
    using less_list_append [OF assms(3) [OF d(3)], of "concat (map f u)" "concat (map f v)"]
      assms(4) d
    by (simp add: less_append_left)
qed

lemma less_map_mono:
  assumes "xs < (ys :: 'a :: linorder list)" "length xs = length ys"
    and "\<And>a b. a \<in> set xs \<Longrightarrow> b \<in> set ys \<Longrightarrow> a < b \<Longrightarrow> f a < (f b :: 'b :: linorder)"
  shows "map f xs < map f ys"
proof -
  obtain p a b u v where "xs = p @ a # u" "ys = p @ b # v" "a < b"
    using less_same_length [OF assms(1,2)] by metis
  then show ?thesis using assms(3) [of a b] by (simp add: less_append_left)
qed

section \<open>The encoding keeps the order\<close>

lemma length_nat_bits [simp]: "length (nat_bits w n) = w"
  by (induction w) auto

lemma bits_val_less: "bits_val bs < 2 ^ length bs"
  by (induction bs) auto

lemma bits_val_mono:
  "length xs = length ys \<Longrightarrow> xs < ys \<Longrightarrow> bits_val xs < bits_val ys"
proof (induction xs ys rule: list_induct2)
  case (Cons x xs y ys)
  have "bits_val xs < 2 ^ length ys" using bits_val_less [of xs] Cons.hyps by simp
  with Cons show ?case by (cases x; cases y) auto
qed simp

lemma bits_val_nat_bits: "bits_val (nat_bits w n) = n mod 2 ^ w"
proof (induction w)
  case (Suc w)
  have "n mod 2 ^ Suc w = 2 ^ w * (n div 2 ^ w mod 2) + n mod 2 ^ w"
    by (simp only: power_Suc mult.commute [of 2] mod_mult2_eq)
  with Suc show ?case by (auto simp: odd_iff_mod_2_eq_one even_iff_mod_2_eq_zero)
qed simp

lemma byte_bits_mono: "c < d \<Longrightarrow> byte_bits c < byte_bits d"
proof (rule ccontr)
  assume "c < d" "\<not> byte_bits c < byte_bits d"
  then consider "byte_bits d < byte_bits c" | "byte_bits c = byte_bits d" by fastforce
  then have "bits_val (byte_bits d) \<le> bits_val (byte_bits c)"
    by cases (auto dest: bits_val_mono [rotated] simp: byte_bits_def)
  then have "of_char d \<le> (of_char c :: nat)"
    by (simp add: byte_bits_def bits_val_nat_bits)
  with \<open>c < d\<close> show False by (simp add: less_char_def)
qed

lemma take_5_pad:
  "zs \<noteq> [] \<Longrightarrow> take 5 (zs @ replicate 4 False) = take 5 zs @ replicate (5 - length zs) False"
  by (cases zs) (simp_all only: take_append take_replicate, simp add: min_def)

lemma quintets_mono:
  "length xs = length ys \<Longrightarrow> xs < ys \<Longrightarrow> quintets xs < quintets ys"
proof (induction xs arbitrary: ys rule: quintets.induct)
  case (2 x xs)
  obtain y ys' where ys: "ys = y # ys'" using 2(2) by (cases ys) auto
  let ?a = "take 5 ((x # xs) @ replicate 4 False)" and ?b = "take 5 (ys @ replicate 4 False)"
  have len: "length ?a = length ?b" using 2(2) by simp
  have split: "x # xs = take 5 (x # xs) @ drop 4 xs" "ys = take 5 ys @ drop 4 ys'"
    using ys by (simp_all add: take_Cons' numeral_eq_Suc)
  show ?case
  proof (cases "take 5 (x # xs) = take 5 ys")
    case True
    then have "drop 4 xs < drop 4 ys'"
      using 2(3) split by (metis less_append_left linorder_neqE order_less_asym)
    then have "quintets (drop 4 xs) < quintets (drop 4 ys')"
      using 2(1) 2(2) ys by simp
    moreover have "?a = ?b"
      using True 2(2) ys take_5_pad [of "x # xs"] take_5_pad [of ys]
      by (metis list.discI)
    ultimately show ?thesis using ys by simp
  next
    case False
    have l5: "length (take 5 (x # xs)) = length (take 5 ys)" using 2(2) by simp
    have "take 5 (x # xs) < take 5 ys"
    proof (rule ccontr)
      assume "\<not> ?thesis"
      then have "take 5 ys < take 5 (x # xs)" using False by simp
      then have "ys < x # xs" using less_list_append [of "take 5 ys"] l5 split by metis
      with 2(3) show False by simp
    qed
    then have "?a < ?b"
      using less_list_append [OF _ l5] ys take_5_pad [of "x # xs"] take_5_pad [of ys]
      by (metis list.discI)
    then have "bits_val ?a < bits_val ?b" using bits_val_mono [OF len] by simp
    then show ?thesis using ys by simp
  qed
qed simp

lemma length_quintets_cong: "length xs = length ys \<Longrightarrow> length (quintets xs) = length (quintets ys)"
proof (induction xs arbitrary: ys rule: quintets.induct)
  case (2 x xs)
  then show ?case by (cases ys) auto
qed simp

lemma quintets_less_32: "q \<in> set (quintets bs) \<Longrightarrow> q < 32"
proof (induction bs rule: quintets.induct)
  case (2 b bs)
  have len: "length (take 5 ((b # bs) @ replicate 4 False)) = 5" by simp
  have "bits_val (take 5 ((b # bs) @ replicate 4 False)) < 32"
    using bits_val_less [of "take 5 ((b # bs) @ replicate 4 False)"] unfolding len by simp
  with 2 show ?case by auto
qed simp

lemma base32_char_mono: "a < b \<Longrightarrow> b < 32 \<Longrightarrow> base32_char a < base32_char b"
  by (simp add: base32_char_def less_char_def)

theorem base32hex_mono:
  assumes "length xs = length ys" "xs < ys"
  shows "base32hex xs < base32hex ys"
proof -
  let ?q = "\<lambda>s. quintets (concat (map byte_bits s))"
  have bl: "length (byte_bits c) = 8" for c by (simp add: byte_bits_def)
  have lb: "length (concat (map byte_bits xs)) = length (concat (map byte_bits ys))"
    using assms(1) bl by (simp add: length_concat comp_def sum_list_triv)
  have "concat (map byte_bits xs) < concat (map byte_bits ys)"
    using less_concat_map [OF assms(2,1)] byte_bits_mono bl by blast
  then have "?q xs < ?q ys" by (rule quintets_mono [OF lb])
  then have "map base32_char (?q xs) < map base32_char (?q ys)"
    using length_quintets_cong [OF lb] base32_char_mono quintets_less_32
    by (intro less_map_mono) blast+
  then show ?thesis
    using length_quintets_cong [OF lb] by (simp add: base32hex_def Let_def less_list_append)
qed

section \<open>The counter keeps the order\<close>

lemma length_nat_str_le: "n < 10 ^ k \<Longrightarrow> 0 < k \<Longrightarrow> length (nat_str n) \<le> k"
proof (induction k arbitrary: n)
  case (Suc k)
  show ?case
  proof (cases "n < 10")
    case True
    then show ?thesis by (subst nat_str.simps) simp
  next
    case False
    then have "0 < k" using Suc.prems(1) by (cases k) auto
    moreover have "n div 10 < 10 ^ k" using Suc.prems(1) by (simp add: less_mult_imp_div_less mult.commute)
    ultimately show ?thesis using Suc.IH [of "n div 10"] False by (subst nat_str.simps) simp
  qed
qed simp

definition pad_digits :: "nat \<Rightarrow> nat \<Rightarrow> string" where
  "pad_digits k n = replicate (k - length (nat_str n)) (CHR ''0'') @ nat_str n"

lemma digit_0 [simp]: "digit_char 0 = CHR ''0''"
  by (simp add: digit_char_def char_of_def bit_simps)

text \<open>A padded number is the padded quotient followed by its last digit.\<close>

lemma pad_digits_Suc:
  assumes "0 < k"
  shows "pad_digits (Suc k) n = pad_digits k (n div 10) @ [digit_char (n mod 10)]"
proof (cases "n < 10")
  case True
  then have "nat_str n = [digit_char n]" "nat_str 0 = [CHR ''0'']"
    by (subst nat_str.simps, simp)+
  moreover have "replicate k (CHR ''0'') = replicate (k - 1) (CHR ''0'') @ [CHR ''0'']"
    using assms by (metis Suc_pred' append_Nil2 replicate_append_same replicate_Suc append_Cons append_Nil)
  ultimately show ?thesis using True by (simp add: pad_digits_def)
next
  case False
  then have "nat_str n = nat_str (n div 10) @ [digit_char (n mod 10)]"
    by (subst nat_str.simps) simp
  then show ?thesis by (simp add: pad_digits_def)
qed

lemma pad_digits_mono:
  "m < n \<Longrightarrow> n < 10 ^ k \<Longrightarrow> 0 < k \<Longrightarrow> pad_digits k m < pad_digits k n"
proof (induction k arbitrary: m n)
  case (Suc k)
  show ?case
  proof (cases "k = 0")
    case True
    with Suc.prems have "nat_str m = [digit_char m]" "nat_str n = [digit_char n]"
      by (subst nat_str.simps, simp)+
    with True Suc.prems show ?thesis
      by (simp add: pad_digits_def digit_char_def less_char_def)
  next
    case False
    have bound: "m div 10 < 10 ^ k" "n div 10 < 10 ^ k"
      using Suc.prems by (simp_all add: less_mult_imp_div_less mult.commute)
    have len: "length (pad_digits k (m div 10)) = length (pad_digits k (n div 10))"
      using bound False length_nat_str_le by (simp add: pad_digits_def)
    show ?thesis
    proof (cases "m div 10 = n div 10")
      case True
      then have "m mod 10 < n mod 10"
        using Suc.prems(1) by (metis div_mult_mod_eq add_less_cancel_left)
      with True False show ?thesis
        by (simp add: pad_digits_Suc less_append_left digit_char_def less_char_def)
    next
      case neq: False
      then have "m div 10 < n div 10" using Suc.prems(1) div_le_mono [of m n 10] by simp
      then have "pad_digits k (m div 10) < pad_digits k (n div 10)"
        using Suc.IH bound False by simp
      with len False show ?thesis by (simp add: pad_digits_Suc less_list_append)
    qed
  qed
qed simp

lemma pad30_pad_digits: "pad30 n = pad_digits 30 n"
  by (simp add: pad30_def pad_digits_def Let_def)

lemma length_pad30: "n < 10 ^ 30 \<Longrightarrow> length (pad30 n) = 30"
  using length_nat_str_le [of n 30] by (simp add: pad30_def Let_def)

section \<open>Version IDs are sorted as they are generated\<close>

lemma length_fill_words: "length (fst (fill_words n st)) = 8 * n"
  by (induction n arbitrary: st) (simp_all add: word_bytes_def Let_def prod.case_eq_if)

text \<open>
  The scratch buffer of a generator in use: empty before the first call, afterwards of the length
  that every later call (up to \<open>10 ^ 30\<close> of them) keeps.
\<close>

definition scratch_ok :: "versionGenerator \<Rightarrow> bytes \<Rightarrow> bool" where
  "scratch_ok v scratch \<longleftrightarrow> vg_size v = 0 \<and> (scratch = [] \<or> length scratch = 39)"

lemma vg_Next_shape:
  assumes "scratch_ok v scratch" "vg_next v + 1 < 10 ^ 30"
  shows "\<exists>r. snd (fst (vg_Next v scratch)) = pad30 (vg_next v + 1) @ r \<and> length r = 9"
    and "fst (fst (vg_Next v scratch)) = ''3/'' @ base32hex (snd (fst (vg_Next v scratch)))"
    and "vg_next (snd (vg_Next v scratch)) = vg_next v + 1"
    and "scratch_ok (snd (vg_Next v scratch)) (snd (fst (vg_Next v scratch)))"
proof -
  obtain bs st where f: "fill_words 1 (vg_state v) = (bs, st)" by force
  then have bs: "length bs = 8" using length_fill_words [of 1 "vg_state v"] by simp
  let ?s1 = "if length scratch < 39 then replicate 39 (CHR 0x00) else scratch"
  have l1: "length ?s1 = 39" using assms(1) by (auto simp: scratch_ok_def)
  have l30: "length (pad30 (vg_next v + 1)) = 30" using assms(2) by (rule length_pad30)
  have v0: "vg_size v = 0" using assms(1) by (simp add: scratch_ok_def)
  let ?s3 = "pad30 (vg_next v + 1) @ take 1 (drop 30 ?s1) @ bs @ drop 9 (drop 30 ?s1)"
  have eq: "vg_Next v scratch =
      ((''3/'' @ base32hex ?s3, ?s3), v\<lparr>vg_next := vg_next v + 1, vg_state := st\<rparr>)"
    using f l30 v0 by (simp add: vg_Next_def Let_def del: fill_words.simps)
  have len: "length (take 1 (drop 30 ?s1) @ bs @ drop 9 (drop 30 ?s1)) = 9"
    using l1 bs by simp
  show "\<exists>r. snd (fst (vg_Next v scratch)) = pad30 (vg_next v + 1) @ r \<and> length r = 9"
    using eq len by auto
  show "fst (fst (vg_Next v scratch)) = ''3/'' @ base32hex (snd (fst (vg_Next v scratch)))"
    using eq by simp
  show "vg_next (snd (vg_Next v scratch)) = vg_next v + 1" using eq by simp
  have "length ?s3 = 39" using l30 len by simp
  then show "scratch_ok (snd (vg_Next v scratch)) (snd (fst (vg_Next v scratch)))"
    using eq v0 by (simp add: scratch_ok_def)
qed

text \<open>The bound an ID of a generator in use stays under: every later ID is greater.\<close>

definition id_below :: "string \<Rightarrow> nat \<Rightarrow> bool" where
  "id_below vid n \<longleftrightarrow>
     (\<exists>m r. m \<le> n \<and> length r = 9 \<and> vid = ''3/'' @ base32hex (pad30 m @ r))"

lemma vg_Next_below:
  "scratch_ok v scratch \<Longrightarrow> vg_next v + 1 < 10 ^ 30 \<Longrightarrow>
   id_below (fst (fst (vg_Next v scratch))) (vg_next (snd (vg_Next v scratch)))"
  using vg_Next_shape [of v scratch] unfolding id_below_def by (metis order_refl)

lemma id_below_mono: "id_below vid m \<Longrightarrow> m \<le> n \<Longrightarrow> id_below vid n"
  unfolding id_below_def by (blast intro: order_trans)

lemma vg_Next_greater:
  assumes "scratch_ok v scratch" "vg_next v + 1 < 10 ^ 30" "id_below vid (vg_next v)"
  shows "vid < fst (fst (vg_Next v scratch))"
proof -
  obtain m r where m: "m \<le> vg_next v" "length r = 9" "vid = ''3/'' @ base32hex (pad30 m @ r)"
    using assms(3) by (auto simp: id_below_def)
  obtain r' where r': "snd (fst (vg_Next v scratch)) = pad30 (vg_next v + 1) @ r'" "length r' = 9"
    using vg_Next_shape(1) [OF assms(1,2)] by auto
  have "pad30 m < pad30 (vg_next v + 1)"
    using m(1) assms(2) by (simp add: pad30_pad_digits pad_digits_mono)
  moreover have "length (pad30 m) = length (pad30 (vg_next v + 1))"
    using m(1) assms(2) by (simp add: length_pad30)
  ultimately have "base32hex (pad30 m @ r) < base32hex (pad30 (vg_next v + 1) @ r')"
    using m(2) r'(2) by (intro base32hex_mono less_list_append) simp_all
  then show ?thesis
    using vg_Next_shape(2) [OF assms(1,2)] r'(1) m(3) less_append_left by metis
qed

lemma vg_Next_not_empty: "scratch_ok v scratch \<Longrightarrow> vg_next v + 1 < 10 ^ 30 \<Longrightarrow> fst (fst (vg_Next v scratch)) \<noteq> ''''"
  using vg_Next_shape(2) [of v scratch] by simp

end
