(* ===== verification/MemBucket.thy ===== *)
theory MemBucket
  imports Messages Skiplist VersionId
begin

text \<open>
  \<open>backend/s3mem/bucket.go\<close>: a bucket of the in-memory back end. A bucket object has a current
  version (\<open>data\<close>, possibly nil) and a skip list of older versions (possibly nil) keyed by version
  ID; the bucket is a skip list of bucket objects. An access through a nil pointer is \<open>Panic\<close>.

  A pointer stored in the skip list and mutated in place is modelled by storing the changed value
  under the same key. \<open>version == object.data\<close>, a comparison of pointers, becomes the flag that the
  iterator attaches to the current version.
\<close>

record bucketData =
  bd_name :: string
  bd_lastModified :: int
  bd_versionID :: string
  bd_deleteMarker :: bool
  bd_body :: bytes
  bd_hash :: bytes
  bd_etag :: string
  bd_metadata :: "gomap option"

record 'vm bucketObject =
  bo_name :: string
  bo_data :: "bucketData option"
  bo_versions :: "'vm option"

record 'om bucket =
  bk_name :: string
  bk_versioning :: VersioningStatus
  bk_creationDate :: int
  bk_objects :: 'om

text \<open>The third-party parts: the skip lists of objects and of versions, and MD5.\<close>

record ('om, 'oi, 'vm, 'vi) s3mem_env =
  env_osl :: "(string, 'vm bucketObject, 'om, 'oi) skiplist"
  env_vsl :: "(string, bucketData, 'vm, 'vi) skiplist"
  env_md5 :: "bytes \<Rightarrow> bytes"

type_synonym version_source = "versionGenerator \<times> bytes"

text \<open>\<open>Backend.nextVersion\<close>: the generator with the backend's scratch buffer.\<close>

definition nextVersion :: "version_source \<Rightarrow> string \<times> version_source" where
  "nextVersion src =
     (case vg_Next (fst src) (snd src) of ((v, scr), g) \<Rightarrow> (v, (g, scr)))"

definition newBucket :: "('om, 'oi, 'vm, 'vi) s3mem_env \<Rightarrow> string \<Rightarrow> int \<Rightarrow> 'om bucket" where
  "newBucket env name at =
     \<lparr>bk_name = name, bk_versioning = VersioningNone, bk_creationDate = at,
      bk_objects = sl_new (env_osl env)\<rparr>"

section \<open>Reading a version\<close>

definition toObject :: "bucketData \<Rightarrow> ObjectRangeRequest option \<Rightarrow> bool \<Rightarrow> Object res" where
  "toObject bi rangeRequest withBody =
     (let sz = i64 (int (length (bd_body bi)));
          mk = (\<lambda>contents rnge.
             \<lparr>ob_Name = bd_name bi, ob_Metadata = bd_metadata bi, ob_Size = sz,
              ob_Contents = contents, ob_Hash = bd_hash bi, ob_Range = rnge,
              ob_VersionID = bd_versionID bi, ob_IsDeleteMarker = bd_deleteMarker bi\<rparr>)
      in if withBody then
           rbind (request_Range rangeRequest sz)
             (\<lambda>rnge. case rnge of
                None \<Rightarrow> Ok (mk (bd_body bi) None)
              | Some r \<Rightarrow>
                  rbind (go_slice (bd_body bi) (or_Start r) (i64 (or_Start r + or_Length r)))
                    (\<lambda>data. Ok (mk data rnge)))
         else Ok (mk [] None))"

definition setVersioning :: "'om bucket \<Rightarrow> bool \<Rightarrow> 'om bucket" where
  "setVersioning b enabled =
     (if enabled then b\<lparr>bk_versioning := VersioningEnabled\<rparr>
      else if bk_versioning b = VersioningEnabled then b\<lparr>bk_versioning := VersioningSuspended\<rparr>
      else b)"

definition bucket_object ::
    "('om, 'oi, 'vm, 'vi) s3mem_env \<Rightarrow> 'om bucket \<Rightarrow> string \<Rightarrow> 'vm bucketObject option" where
  "bucket_object env b objectName = sl_get (env_osl env) (bk_objects b) objectName"

definition has_versionID :: "bucketData option \<Rightarrow> string \<Rightarrow> bool" where
  "has_versionID data versionID =
     (case data of None \<Rightarrow> False | Some d \<Rightarrow> bd_versionID d = versionID)"

definition objectVersion ::
    "('om, 'oi, 'vm, 'vi) s3mem_env \<Rightarrow> 'om bucket \<Rightarrow> string \<Rightarrow> string \<Rightarrow> bucketData res" where
  "objectVersion env b objectName versionID =
     (case bucket_object env b objectName of
        None \<Rightarrow> Err (KeyNotFound objectName)
      | Some obj \<Rightarrow>
          if versionID = '''' then
            (case bo_data obj of
               None \<Rightarrow> Panic
             | Some d \<Rightarrow> if bd_deleteMarker d then Err (KeyNotFound objectName) else Ok d)
          else if has_versionID (bo_data obj) versionID then Ok (the (bo_data obj))
          else
            (case bo_versions obj of
               None \<Rightarrow> Err (ECode ErrNoSuchVersion)
             | Some vs \<Rightarrow>
                 (case sl_get (env_vsl env) vs versionID of
                    None \<Rightarrow> Err (ECode ErrNoSuchVersion)
                  | Some v \<Rightarrow> Ok v)))"

section \<open>Writing and removing\<close>

definition bucket_store ::
    "('om, 'oi, 'vm, 'vi) s3mem_env \<Rightarrow> 'om bucket \<Rightarrow> string \<Rightarrow> 'vm bucketObject \<Rightarrow> 'om bucket" where
  "bucket_store env b name obj = b\<lparr>bk_objects := sl_set (env_osl env) (bk_objects b) name obj\<rparr>"

text \<open>The part of \<open>put\<close> under enabled versioning: the current version joins the older ones.\<close>

definition push_current ::
    "('om, 'oi, 'vm, 'vi) s3mem_env \<Rightarrow> 'vm bucketObject \<Rightarrow> 'vm bucketObject" where
  "push_current env obj =
     (case bo_data obj of
        None \<Rightarrow> obj
      | Some d \<Rightarrow>
          (let vs = (case bo_versions obj of None \<Rightarrow> sl_new (env_vsl env) | Some vs \<Rightarrow> vs)
           in obj\<lparr>bo_versions := Some (sl_set (env_vsl env) vs (bd_versionID d) d)\<rparr>))"

text \<open>\<open>put\<close>: the item with its generated version ID, the bucket and the generator afterwards.\<close>

definition object_or_new ::
    "('om, 'oi, 'vm, 'vi) s3mem_env \<Rightarrow> 'om bucket \<Rightarrow> string \<Rightarrow> 'vm bucketObject" where
  "object_or_new env b name =
     (case bucket_object env b name of
        None \<Rightarrow> \<lparr>bo_name = name, bo_data = None, bo_versions = None\<rparr>
      | Some obj \<Rightarrow> obj)"

definition bucket_put ::
    "('om, 'oi, 'vm, 'vi) s3mem_env \<Rightarrow> 'om bucket \<Rightarrow> string \<Rightarrow> bucketData \<Rightarrow> version_source \<Rightarrow>
     bucketData \<times> 'om bucket \<times> version_source" where
  "bucket_put env b name item src =
     (case nextVersion src of (vid, src') \<Rightarrow>
        (let item' = item\<lparr>bd_versionID := vid\<rparr>;
             obj = object_or_new env b name;
             obj1 = (if bk_versioning b = VersioningEnabled then push_current env obj else obj)
         in (item', bucket_store env b name (obj1\<lparr>bo_data := Some item'\<rparr>), src')))"

definition no_versions :: "('om, 'oi, 'vm, 'vi) s3mem_env \<Rightarrow> 'vm option \<Rightarrow> bool" where
  "no_versions env vs = (case vs of None \<Rightarrow> True | Some m \<Rightarrow> sl_len (env_vsl env) m = 0)"

definition bucket_delete_key ::
    "('om, 'oi, 'vm, 'vi) s3mem_env \<Rightarrow> 'om bucket \<Rightarrow> string \<Rightarrow> 'om bucket" where
  "bucket_delete_key env b name =
     b\<lparr>bk_objects := snd (sl_delete (env_osl env) (bk_objects b) name)\<rparr>"

definition bucket_rm ::
    "('om, 'oi, 'vm, 'vi) s3mem_env \<Rightarrow> 'om bucket \<Rightarrow> string \<Rightarrow> int \<Rightarrow> version_source \<Rightarrow>
     ObjectDeleteResult \<times> 'om bucket \<times> version_source" where
  "bucket_rm env b name at src =
     (case bucket_object env b name of
        None \<Rightarrow> (emptyDeleteResult, b, src)
      | Some obj \<Rightarrow>
          if bk_versioning b = VersioningEnabled then
            (let item = \<lparr>bd_name = name, bd_lastModified = at, bd_versionID = '''',
                         bd_deleteMarker = True, bd_body = [], bd_hash = [], bd_etag = '''',
                         bd_metadata = None\<rparr>
             in case bucket_put env b name item src of (item', b', src') \<Rightarrow>
                  (\<lparr>dr_IsDeleteMarker = True, dr_VersionID = bd_versionID item'\<rparr>, b', src'))
          else
            (let b1 = bucket_store env b name (obj\<lparr>bo_data := None\<rparr>)
             in (emptyDeleteResult,
                 if no_versions env (bo_versions obj) then bucket_delete_key env b1 name else b1,
                 src)))"

text \<open>The last step of \<open>rmVersion\<close>: an object without any version leaves the bucket.\<close>

definition drop_if_empty ::
    "('om, 'oi, 'vm, 'vi) s3mem_env \<Rightarrow> 'om bucket \<Rightarrow> string \<Rightarrow> 'vm bucketObject \<Rightarrow> 'om bucket" where
  "drop_if_empty env b name obj =
     (if bo_data obj = None \<and> no_versions env (bo_versions obj)
      then bucket_delete_key env b name else b)"

definition bucket_rmVersion ::
    "('om, 'oi, 'vm, 'vi) s3mem_env \<Rightarrow> 'om bucket \<Rightarrow> string \<Rightarrow> string \<Rightarrow> int \<Rightarrow>
     ObjectDeleteResult \<times> 'om bucket" where
  "bucket_rmVersion env b name versionID at =
     (case bucket_object env b name of
        None \<Rightarrow> (emptyDeleteResult, b)
      | Some obj \<Rightarrow>
          if has_versionID (bo_data obj) versionID then
            (let obj' = obj\<lparr>bo_data := None\<rparr>
             in (\<lparr>dr_IsDeleteMarker = bd_deleteMarker (the (bo_data obj)),
                  dr_VersionID = versionID\<rparr>,
                 drop_if_empty env (bucket_store env b name obj') name obj'))
          else
            (case bo_versions obj of
               None \<Rightarrow> (emptyDeleteResult, drop_if_empty env b name obj)
             | Some m \<Rightarrow>
                 (case sl_delete (env_vsl env) m versionID of
                    (None, m') \<Rightarrow> (emptyDeleteResult, b)
                  | (Some v, m') \<Rightarrow>
                      (let obj' = obj\<lparr>bo_versions := Some m'\<rparr>
                       in (\<lparr>dr_IsDeleteMarker = bd_deleteMarker v, dr_VersionID = bd_versionID v\<rparr>,
                           drop_if_empty env (bucket_store env b name obj') name obj')))))"

section \<open>The iterator over the versions of an object\<close>

text \<open>\<open>bi_cur\<close> is the version under the iterator and whether it is the object's current version.\<close>

record 'vi boIterator =
  bi_data :: "bucketData option"
  bi_iter :: "'vi option"
  bi_cur :: "(bucketData \<times> bool) option"
  bi_done :: bool

definition bo_Iterator ::
    "('om, 'oi, 'vm, 'vi) s3mem_env \<Rightarrow> 'vm bucketObject \<Rightarrow> 'vi boIterator" where
  "bo_Iterator env obj =
     \<lparr>bi_data = bo_data obj,
      bi_iter = map_option (sl_iterator (env_vsl env)) (bo_versions obj),
      bi_cur = None, bi_done = False\<rparr>"

definition bo_Seek ::
    "('om, 'oi, 'vm, 'vi) s3mem_env \<Rightarrow> 'vi boIterator \<Rightarrow> string \<Rightarrow> (bool \<times> 'vi boIterator) res" where
  "bo_Seek env it key =
     (case bi_iter it of
        None \<Rightarrow> Panic
      | Some i \<Rightarrow>
          (case it_seek (env_vsl env) i key of
             (True, i') \<Rightarrow> Ok (True, it\<lparr>bi_iter := Some i'\<rparr>)
           | (False, i') \<Rightarrow>
               if (case bi_data it of Some d \<Rightarrow> bd_versionID d = key | None \<Rightarrow> False)
               then Ok (True, it\<lparr>bi_iter := None\<rparr>)
               else Ok (False, it\<lparr>bi_iter := None, bi_data := None, bi_done := True\<rparr>)))"

definition bo_Next_data :: "'vi boIterator \<Rightarrow> bool \<times> 'vi boIterator" where
  "bo_Next_data it =
     (case bi_data it of
        Some d \<Rightarrow> (True, it\<lparr>bi_cur := Some (d, True), bi_data := None\<rparr>)
      | None \<Rightarrow> (False, it\<lparr>bi_done := True\<rparr>))"

definition bo_Next ::
    "('om, 'oi, 'vm, 'vi) s3mem_env \<Rightarrow> 'vi boIterator \<Rightarrow> bool \<times> 'vi boIterator" where
  "bo_Next env it =
     (if bi_done it then (False, it)
      else
        (case bi_iter it of
           Some i \<Rightarrow>
             (case it_next (env_vsl env) i of
                (True, i') \<Rightarrow>
                  (True, it\<lparr>bi_iter := Some i',
                            bi_cur := map_option (\<lambda>e. (snd e, False)) (it_entry (env_vsl env) i')\<rparr>)
              | (False, i') \<Rightarrow> bo_Next_data (it\<lparr>bi_iter := None\<rparr>))
         | None \<Rightarrow> bo_Next_data it))"

text \<open>\<open>Close\<close>, over that of the skip list.\<close>

definition bo_Close :: "('vi \<Rightarrow> 'vi) \<Rightarrow> 'vi boIterator \<Rightarrow> 'vi boIterator" where
  "bo_Close close it = it\<lparr>bi_iter := map_option close (bi_iter it), bi_done := True\<rparr>"

definition bo_Value :: "'vi boIterator \<Rightarrow> bucketData option" where
  "bo_Value it = map_option fst (bi_cur it)"

text \<open>One turn of \<open>for versions.Next()\<close>.\<close>

definition bo_step ::
    "('om, 'oi, 'vm, 'vi) s3mem_env \<Rightarrow> 'vi boIterator \<Rightarrow>
     (bucketData \<times> bool) option \<times> 'vi boIterator" where
  "bo_step env it =
     (case bo_Next env it of (ok, it') \<Rightarrow> (if ok then bi_cur it' else None, it'))"

lemmas mem_bucket_defs [go_eval] =
  nextVersion_def newBucket_def toObject_def setVersioning_def bucket_object_def has_versionID_def
  objectVersion_def bucket_store_def bucket_put_def push_current_def object_or_new_def no_versions_def bucket_delete_key_def
  bucket_rm_def drop_if_empty_def bucket_rmVersion_def bo_Iterator_def bo_Seek_def bo_Next_data_def
  bo_Next_def bo_step_def

section \<open>Reading a version: lemmas\<close>

lemma toObject_head:
  "toObject bi rr False =
     Ok \<lparr>ob_Name = bd_name bi, ob_Metadata = bd_metadata bi,
         ob_Size = i64 (int (length (bd_body bi))), ob_Contents = [], ob_Hash = bd_hash bi,
         ob_Range = None, ob_VersionID = bd_versionID bi, ob_IsDeleteMarker = bd_deleteMarker bi\<rparr>"
  by (simp add: toObject_def Let_def)

lemma toObject_whole:
  "toObject bi None True =
     Ok \<lparr>ob_Name = bd_name bi, ob_Metadata = bd_metadata bi,
         ob_Size = i64 (int (length (bd_body bi))), ob_Contents = bd_body bi, ob_Hash = bd_hash bi,
         ob_Range = None, ob_VersionID = bd_versionID bi, ob_IsDeleteMarker = bd_deleteMarker bi\<rparr>"
  by (simp add: toObject_def Let_def)

text \<open>A resolved range that lies inside the body never panics and returns those bytes.\<close>

lemma toObject_range:
  assumes "int (length (bd_body bi)) \<le> max_int64"
    and "request_Range rr (int (length (bd_body bi))) = Ok (Some r)"
    and "0 \<le> or_Start r" "0 \<le> or_Length r"
    and "or_Start r + or_Length r \<le> int (length (bd_body bi))"
  shows "toObject bi rr True =
     Ok \<lparr>ob_Name = bd_name bi, ob_Metadata = bd_metadata bi,
         ob_Size = int (length (bd_body bi)),
         ob_Contents = take (nat (or_Length r)) (drop (nat (or_Start r)) (bd_body bi)),
         ob_Hash = bd_hash bi, ob_Range = Some r, ob_VersionID = bd_versionID bi,
         ob_IsDeleteMarker = bd_deleteMarker bi\<rparr>"
proof -
  have "is_i64 (int (length (bd_body bi)))" "is_i64 (or_Start r + or_Length r)"
    using assms by (simp_all add: is_i64_def min_int64_def)
  with assms show ?thesis
    by (simp add: toObject_def Let_def go_slice_def)
qed

section \<open>The abstract state of a key\<close>

text \<open>
  A key holds a list of older versions, in order of their IDs, and a current version. The operations
  of the bucket act on this state as the \<open>spec\<close> functions say.
\<close>

definition older ::
    "('vm \<Rightarrow> (string \<times> bucketData) list) \<Rightarrow> 'vm bucketObject \<Rightarrow> bucketData list" where
  "older ventries obj =
     (case bo_versions obj of None \<Rightarrow> [] | Some m \<Rightarrow> map snd (ventries m))"

definition opt_list :: "'a option \<Rightarrow> 'a list" where
  "opt_list x = (case x of None \<Rightarrow> [] | Some y \<Rightarrow> [y])"

definition key_state ::
    "('om, 'oi, 'vm, 'vi) s3mem_env \<Rightarrow> ('vm \<Rightarrow> (string \<times> bucketData) list) \<Rightarrow> 'om bucket \<Rightarrow>
     string \<Rightarrow> bucketData list \<times> bucketData option" where
  "key_state env ventries b key =
     (case bucket_object env b key of
        None \<Rightarrow> ([], None)
      | Some obj \<Rightarrow> (older ventries obj, bo_data obj))"

definition history :: "bucketData list \<times> bucketData option \<Rightarrow> bucketData list" where
  "history st = fst st @ opt_list (snd st)"

definition spec_put ::
    "bool \<Rightarrow> bucketData \<Rightarrow> bucketData list \<times> bucketData option \<Rightarrow>
     bucketData list \<times> bucketData option" where
  "spec_put enabled item st = (if enabled then history st else fst st, Some item)"

definition spec_rmVersion ::
    "string \<Rightarrow> bucketData list \<times> bucketData option \<Rightarrow> bucketData list \<times> bucketData option" where
  "spec_rmVersion vid st =
     (if has_versionID (snd st) vid then (fst st, None)
      else (filter (\<lambda>d. bd_versionID d \<noteq> vid) (fst st), snd st))"

lemmas key_state_defs = older_def opt_list_def key_state_def history_def spec_put_def
  spec_rmVersion_def

lemma history_simps [simp]:
  "history (vs, Some d) = vs @ [d]" "history (vs, None) = vs"
  by (simp_all add: history_def opt_list_def)

section \<open>The bucket invariant\<close>

text \<open>
  An object carries its key as name; all its versions carry it too, and IDs that the generator has
  passed, older versions first; the version skip list is keyed by ID; and a bucket that never had
  versioning enabled has no older versions. A stored object has at least one version.
\<close>

definition versions_ok ::
    "('vm \<Rightarrow> (string \<times> bucketData) list) \<Rightarrow> nat \<Rightarrow> VersioningStatus \<Rightarrow> string \<Rightarrow>
     'vm bucketObject \<Rightarrow> bool" where
  "versions_ok ventries n status name obj \<longleftrightarrow>
     bo_name obj = name \<and>
     (\<forall>d \<in> set (history (older ventries obj, bo_data obj)).
        bd_name d = name \<and> id_below (bd_versionID d) n) \<and>
     sorted_wrt (<) (map bd_versionID (history (older ventries obj, bo_data obj))) \<and>
     (\<forall>m. bo_versions obj = Some m \<longrightarrow>
        map fst (ventries m) = map bd_versionID (map snd (ventries m))) \<and>
     (status = VersioningNone \<longrightarrow> bo_versions obj = None)"

definition obj_ok ::
    "('vm \<Rightarrow> (string \<times> bucketData) list) \<Rightarrow> nat \<Rightarrow> VersioningStatus \<Rightarrow> string \<Rightarrow>
     'vm bucketObject \<Rightarrow> bool" where
  "obj_ok ventries n status name obj \<longleftrightarrow>
     versions_ok ventries n status name obj \<and> history (older ventries obj, bo_data obj) \<noteq> []"

lemma versions_okI:
  assumes "bo_name obj = name"
    and "\<And>d. d \<in> set (history (older ventries obj, bo_data obj)) \<Longrightarrow>
          bd_name d = name \<and> id_below (bd_versionID d) n"
    and "sorted_wrt (<) (map bd_versionID (history (older ventries obj, bo_data obj)))"
    and "\<And>m. bo_versions obj = Some m \<Longrightarrow>
          map fst (ventries m) = map bd_versionID (map snd (ventries m))"
    and "status = VersioningNone \<Longrightarrow> bo_versions obj = None"
  shows "versions_ok ventries n status name obj"
  using assms by (simp add: versions_ok_def)

lemma versions_okD:
  assumes "versions_ok ventries n status name obj"
  shows "bo_name obj = name"
    and "\<And>d. d \<in> set (older ventries obj) \<Longrightarrow> bd_name d = name \<and> id_below (bd_versionID d) n"
    and "\<And>d. bo_data obj = Some d \<Longrightarrow> bd_name d = name \<and> id_below (bd_versionID d) n"
    and "sorted_wrt (<) (map bd_versionID (history (older ventries obj, bo_data obj)))"
    and "\<And>m. bo_versions obj = Some m \<Longrightarrow>
          map fst (ventries m) = map bd_versionID (map snd (ventries m))"
    and "status = VersioningNone \<Longrightarrow> bo_versions obj = None"
  using assms by (auto simp: versions_ok_def history_def opt_list_def)

definition bucket_ok ::
    "('om, 'oi, 'vm, 'vi) s3mem_env \<Rightarrow> ('vm \<Rightarrow> (string \<times> bucketData) list) \<Rightarrow> nat \<Rightarrow> 'om bucket \<Rightarrow>
     bool" where
  "bucket_ok env ventries n b \<longleftrightarrow>
     (\<forall>name obj. bucket_object env b name = Some obj \<longrightarrow>
        obj_ok ventries n (bk_versioning b) name obj)"

text \<open>Every stored object also has a current version: then nothing dereferences nil.\<close>

definition all_current :: "('om, 'oi, 'vm, 'vi) s3mem_env \<Rightarrow> 'om bucket \<Rightarrow> bool" where
  "all_current env b \<longleftrightarrow>
     (\<forall>name obj. bucket_object env b name = Some obj \<longrightarrow> bo_data obj \<noteq> None)"

definition source_ok :: "version_source \<Rightarrow> bool" where
  "source_ok src \<longleftrightarrow> scratch_ok (fst src) (snd src)"

definition source_count :: "version_source \<Rightarrow> nat" where
  "source_count src = vg_next (fst src)"

lemma nextVersion_step:
  assumes "source_ok src" "source_count src + 1 < 10 ^ 30" "nextVersion src = (vid, src')"
  shows "source_ok src'" "source_count src' = source_count src + 1"
    "id_below vid (source_count src')" "vid \<noteq> ''''"
    "\<And>old. id_below old (source_count src) \<Longrightarrow> old < vid"
proof -
  obtain scr g where n: "vg_Next (fst src) (snd src) = ((vid, scr), g)" "src' = (g, scr)"
    using assms(3) by (auto simp: nextVersion_def split: prod.splits)
  note a = assms(1,2) [unfolded source_ok_def source_count_def]
  show "source_ok src'" "source_count src' = source_count src + 1"
    using vg_Next_shape(3,4) [OF a] n by (simp_all add: source_ok_def source_count_def)
  show "id_below vid (source_count src')"
    using vg_Next_below [OF a] n by (simp add: source_count_def)
  show "vid \<noteq> ''''" using vg_Next_not_empty [OF a] n by simp
  show "old < vid" if "id_below old (source_count src)" for old
    using vg_Next_greater [OF a] that n by (simp add: source_count_def)
qed

lemma bucket_ok_mono: "bucket_ok env ve m b \<Longrightarrow> m \<le> n \<Longrightarrow> bucket_ok env ve n b"
  unfolding bucket_ok_def obj_ok_def versions_ok_def by (meson id_below_mono)

end
