(* ===== verification/MemBucketFacts.thy ===== *)
theory MemBucketFacts
  imports MemBucket
begin

text \<open>
  The operations of an s3mem bucket against their specification on the abstract state of a key, and
  the invariant they keep. Everything is proved for any two skip lists that meet the contract
  (locale \<open>s3mem_laws\<close>).
\<close>

lemma nextVersion_count: "source_count (snd (nextVersion src)) = source_count src + 1"
  by (simp add: nextVersion_def source_count_def vg_Next_def Let_def split_beta)

lemma put_count:
  "bucket_put env b name item src = (item', b', src') \<Longrightarrow> source_count src' = source_count src + 1"
  using nextVersion_count [of src] by (auto simp: bucket_put_def Let_def split: prod.splits)

lemma rm_count:
  "bucket_rm env b name at src = (r, b', src') \<Longrightarrow> source_count src \<le> source_count src'"
  by (auto simp: bucket_rm_def Let_def dest: put_count split: option.splits if_splits prod.splits)

locale s3mem_laws =
  fixes env :: "('om, 'oi, 'vm, 'vi) s3mem_env"
    and oentries :: "'om \<Rightarrow> (string \<times> 'vm bucketObject) list"
    and oview :: "'oi \<Rightarrow> (string \<times> 'vm bucketObject) list \<times> nat"
    and ventries :: "'vm \<Rightarrow> (string \<times> bucketData) list"
    and vview :: "'vi \<Rightarrow> (string \<times> bucketData) list \<times> nat"
  assumes objects_laws: "skiplist_laws (env_osl env) oentries oview"
    and versions_laws: "skiplist_laws (env_vsl env) ventries vview"
begin

sublocale osl: skiplist_laws "env_osl env" oentries oview
  by (rule objects_laws)

sublocale vsl: skiplist_laws "env_vsl env" ventries vview
  by (rule versions_laws)

section \<open>Storing and deleting objects\<close>

lemma object_new [simp]: "bucket_object env (newBucket env name at) key = None"
  by (simp add: bucket_object_def newBucket_def)

lemma object_store [simp]:
  "bucket_object env (bucket_store env b name obj) key =
     (if key = name then Some obj else bucket_object env b key)"
  by (simp add: bucket_object_def bucket_store_def)

lemma object_delete_key [simp]:
  "bucket_object env (bucket_delete_key env b name) key =
     (if key = name then None else bucket_object env b key)"
  by (simp add: bucket_object_def bucket_delete_key_def)

lemma object_setVersioning [simp]:
  "bucket_object env (setVersioning b e) key = bucket_object env b key"
  by (simp add: bucket_object_def setVersioning_def)

lemma versioning_frame [simp]:
  "bk_versioning (bucket_store env b name obj) = bk_versioning b"
  "bk_versioning (bucket_delete_key env b name) = bk_versioning b"
  "bk_name (bucket_store env b name obj) = bk_name b"
  "bk_name (bucket_delete_key env b name) = bk_name b"
  "bk_creationDate (bucket_store env b name obj) = bk_creationDate b"
  "bk_creationDate (bucket_delete_key env b name) = bk_creationDate b"
  by (simp_all add: bucket_store_def bucket_delete_key_def)

lemma no_versions_older: "no_versions env vs \<longleftrightarrow> (case vs of None \<Rightarrow> True | Some m \<Rightarrow> ventries m = [])"
  by (simp add: no_versions_def vsl.len_entries split: option.splits)

text \<open>The lookup of a version in a well-formed object is the search of its older versions.\<close>

lemma version_lookup:
  assumes "versions_ok ventries n st name obj" "bo_versions obj = Some m"
  shows "sl_get (env_vsl env) m vid = find (\<lambda>d. bd_versionID d = vid) (older ventries obj)"
proof -
  have "map_of xs vid = find (\<lambda>d. bd_versionID d = vid) (map snd xs)"
    if "map fst xs = map bd_versionID (map snd xs)" for xs :: "(string \<times> bucketData) list"
    using that by (induction xs) auto
  from this [OF versions_okD(5) [OF assms]] show ?thesis
    using assms(2) by (simp add: vsl.get_entries older_def)
qed

lemma bucket_okD:
  "bucket_ok env ventries n b \<Longrightarrow> bucket_object env b name = Some obj \<Longrightarrow>
   obj_ok ventries n (bk_versioning b) name obj"
  by (simp add: bucket_ok_def)

lemma key_state_None:
  assumes "bucket_ok env ventries n b"
  shows "key_state env ventries b key = ([], None) \<longleftrightarrow> bucket_object env b key = None"
proof (cases "bucket_object env b key")
  case (Some obj)
  then show ?thesis
    using bucket_okD [OF assms Some] by (cases "bo_data obj") (auto simp: key_state_def obj_ok_def)
qed (simp add: key_state_def)

section \<open>put\<close>

text \<open>Pushing the current version appends it to the older ones.\<close>

lemma push_entries:
  assumes "versions_ok ventries n st name obj" "bo_data obj = Some d"
  obtains m where "bo_versions (push_current env obj) = Some m"
    "ventries m = (case bo_versions obj of None \<Rightarrow> [] | Some m \<Rightarrow> ventries m) @ [(bd_versionID d, d)]"
proof (cases "bo_versions obj")
  case None
  have "ventries (sl_set (env_vsl env) (sl_new (env_vsl env)) k d) = [(k, d)]" for k
    by (subst vsl.entries_set_last) (simp_all add: vsl.entries_new)
  then show ?thesis
    by (intro that [of "sl_set (env_vsl env) (sl_new (env_vsl env)) (bd_versionID d) d"])
      (simp_all add: None assms(2) push_current_def Let_def)
next
  case (Some m)
  have "k < bd_versionID d" if "sl_get (env_vsl env) m k = Some v" for k v
  proof -
    have "k \<in> set (map fst (ventries m))" using that vsl.get_Some_iff by force
    then have "k \<in> bd_versionID ` set (older ventries obj)"
      using versions_okD(5) [OF assms(1) Some] by (simp add: older_def Some image_image)
    then show ?thesis
      using versions_okD(4) [OF assms(1)] assms(2) by (auto simp: sorted_wrt_append)
  qed
  then show ?thesis
    by (intro that [of "sl_set (env_vsl env) m (bd_versionID d) d"])
      (simp_all add: Some assms(2) push_current_def Let_def vsl.entries_set_last)
qed

lemma push_frame [simp]:
  "bo_name (push_current env obj) = bo_name obj" "bo_data (push_current env obj) = bo_data obj"
  by (simp_all add: push_current_def Let_def split: option.splits)

lemma older_push:
  assumes "versions_ok ventries n st name obj"
  shows "older ventries (push_current env obj) = history (older ventries obj, bo_data obj)"
proof (cases "bo_data obj")
  case (Some d)
  obtain m where "bo_versions (push_current env obj) = Some m"
    "ventries m = (case bo_versions obj of None \<Rightarrow> [] | Some m \<Rightarrow> ventries m) @ [(bd_versionID d, d)]"
    by (rule push_entries [OF assms Some])
  then show ?thesis by (simp add: older_def Some split: option.splits)
qed (simp add: push_current_def)

lemma versions_keyed_push:
  assumes "versions_ok ventries n st name obj" "bo_versions (push_current env obj) = Some m"
  shows "map fst (ventries m) = map bd_versionID (map snd (ventries m))"
proof (cases "bo_data obj")
  case (Some d)
  obtain m' where "bo_versions (push_current env obj) = Some m'"
    "ventries m' = (case bo_versions obj of None \<Rightarrow> [] | Some m \<Rightarrow> ventries m) @ [(bd_versionID d, d)]"
    by (rule push_entries [OF assms(1) Some])
  then show ?thesis
    using assms(2) versions_okD(5) [OF assms(1)] by (auto split: option.splits)
qed (use assms versions_okD(5) [OF assms(1)] in \<open>simp add: push_current_def\<close>)

lemma object_or_new_ok:
  assumes "bucket_ok env ventries n b"
  shows "versions_ok ventries n (bk_versioning b) name (object_or_new env b name)"
    "(older ventries (object_or_new env b name), bo_data (object_or_new env b name)) =
       key_state env ventries b name"
  using bucket_okD [OF assms, of name]
  by (auto simp: object_or_new_def versions_ok_def obj_ok_def key_state_def older_def
      split: option.splits)

lemma put_eq:
  assumes "bucket_put env b name item src = (item', b', src')"
  shows "nextVersion src = (bd_versionID item', src')"
    "item' = item\<lparr>bd_versionID := bd_versionID item'\<rparr>"
    "b' = bucket_store env b name
       ((if bk_versioning b = VersioningEnabled then push_current env (object_or_new env b name)
         else object_or_new env b name)\<lparr>bo_data := Some item'\<rparr>)"
  using assms by (auto simp: bucket_put_def Let_def split: prod.splits)

lemma put_frame:
  assumes "bucket_put env b name item src = (item', b', src')"
  shows "bk_versioning b' = bk_versioning b" "bk_name b' = bk_name b"
    "bk_creationDate b' = bk_creationDate b"
    "key \<noteq> name \<Longrightarrow> bucket_object env b' key = bucket_object env b key"
    "bucket_object env b' name \<noteq> None"
  using put_eq(3) [OF assms] by simp_all

lemma older_data_update [simp]: "older ventries (obj\<lparr>bo_data := x\<rparr>) = older ventries obj"
  by (simp add: older_def)

text \<open>
  \<open>put\<close> refines \<open>spec_put\<close>: with versioning enabled the version that was current joins the older
  ones, otherwise it is replaced; the other keys are untouched.
\<close>

lemma key_state_put:
  assumes "bucket_ok env ventries n b" "bucket_put env b name item src = (item', b', src')"
  shows "key_state env ventries b' key =
           (if key = name
            then spec_put (bk_versioning b = VersioningEnabled) item' (key_state env ventries b name)
            else key_state env ventries b key)"
proof -
  note ok = object_or_new_ok [OF assms(1), of name]
  have "older ventries (object_or_new env b name) = fst (key_state env ventries b name)"
    using ok(2) by (metis fst_conv)
  then show ?thesis
    unfolding put_eq(3) [OF assms(2)]
    using ok older_push [OF ok(1)] by (simp add: key_state_def [of env ventries "bucket_store _ _ _ _"]
        spec_put_def) (simp add: key_state_def)
qed

lemma bucket_ok_put:
  assumes "bucket_ok env ventries (source_count src) b" "source_ok src"
    "source_count src + 1 < 10 ^ 30" "bd_name item = name"
    "bucket_put env b name item src = (item', b', src')"
  shows "bucket_ok env ventries (source_count src') b'"
proof -
  define o0 where "o0 = object_or_new env b name"
  define o1 where "o1 = (if bk_versioning b = VersioningEnabled then push_current env o0 else o0)"
  note nv = nextVersion_step [OF assms(2,3) put_eq(1) [OF assms(5)]]
  have ok0: "versions_ok ventries (source_count src) (bk_versioning b) name o0"
    using object_or_new_ok(1) [OF assms(1)] by (simp add: o0_def)
  have below: "id_below i (source_count src')" if "id_below i (source_count src)" for i
    using id_below_mono [OF that] nv(2) by simp
  have older1: "older ventries o1 = (if bk_versioning b = VersioningEnabled
      then history (older ventries o0, bo_data o0) else older ventries o0)"
    by (simp add: o1_def older_push [OF ok0])
  have sub: "bd_name d = name \<and> id_below (bd_versionID d) (source_count src)"
    if "d \<in> set (older ventries o1)" for d
    using that ok0 by (auto simp: older1 versions_ok_def history_def split: if_splits)
  have sorted: "sorted_wrt (<) (map bd_versionID (older ventries o1))"
    using versions_okD(4) [OF ok0]
    by (auto simp: older1 history_def sorted_wrt_append)
  have name': "bd_name item' = name"
    using put_eq(2) [OF assms(5)] assms(4) by (metis bucketData.ext_inject bucketData.surjective bucketData.update_convs(3))
  have "versions_ok ventries (source_count src') (bk_versioning b) name (o1\<lparr>bo_data := Some item'\<rparr>)"
  proof (rule versions_okI)
    show "bo_name (o1\<lparr>bo_data := Some item'\<rparr>) = name"
      using versions_okD(1) [OF ok0] by (simp add: o1_def)
    show "bd_name d = name \<and> id_below (bd_versionID d) (source_count src')"
      if "d \<in> set (history (older ventries (o1\<lparr>bo_data := Some item'\<rparr>), bo_data (o1\<lparr>bo_data := Some item'\<rparr>)))" for d
      using that sub below nv(3) name' by auto
    show "sorted_wrt (<) (map bd_versionID
        (history (older ventries (o1\<lparr>bo_data := Some item'\<rparr>), bo_data (o1\<lparr>bo_data := Some item'\<rparr>))))"
      using sorted sub nv(5) by (auto simp: sorted_wrt_append)
    show "map fst (ventries m) = map bd_versionID (map snd (ventries m))"
      if "bo_versions (o1\<lparr>bo_data := Some item'\<rparr>) = Some m" for m
      using that versions_okD(5) [OF ok0] versions_keyed_push [OF ok0]
      by (simp add: o1_def split: if_splits)
    show "bo_versions (o1\<lparr>bo_data := Some item'\<rparr>) = None" if "bk_versioning b = VersioningNone"
      using that versions_okD(6) [OF ok0] by (simp add: o1_def)
  qed
  then have "obj_ok ventries (source_count src') (bk_versioning b) name (o1\<lparr>bo_data := Some item'\<rparr>)"
    by (simp add: obj_ok_def)
  moreover have "bucket_ok env ventries (source_count src') b"
    using bucket_ok_mono [OF assms(1)] nv(2) by simp
  ultimately show ?thesis
    unfolding put_eq(3) [OF assms(5)] by (auto simp: bucket_ok_def o0_def o1_def)
qed

section \<open>Removing versions\<close>

lemma older_Nil_iff: "no_versions env (bo_versions obj) \<longleftrightarrow> older ventries obj = []"
  by (simp add: no_versions_older older_def split: option.splits)

text \<open>Storing an object and dropping it again when it is empty.\<close>

lemma key_state_drop_store:
  "key_state env ventries (drop_if_empty env (bucket_store env b name obj) name obj) key =
     (if key = name then (older ventries obj, bo_data obj) else key_state env ventries b key)"
  by (simp add: drop_if_empty_def older_Nil_iff key_state_def)

lemma bucket_ok_drop_store:
  assumes "bucket_ok env ventries n b" "versions_ok ventries n (bk_versioning b) name obj"
  shows "bucket_ok env ventries n (drop_if_empty env (bucket_store env b name obj) name obj)"
  using assms
  by (auto simp: drop_if_empty_def older_Nil_iff bucket_ok_def obj_ok_def history_def opt_list_def
      split: option.splits if_splits)

lemma drop_store_frame [simp]:
  "bk_versioning (drop_if_empty env b name obj) = bk_versioning b"
  "bk_name (drop_if_empty env b name obj) = bk_name b"
  "bk_creationDate (drop_if_empty env b name obj) = bk_creationDate b"
  by (simp_all add: drop_if_empty_def)

lemma versions_ok_clear_data:
  "versions_ok ventries n st name obj \<Longrightarrow> versions_ok ventries n st name (obj\<lparr>bo_data := None\<rparr>)"
  by (auto simp: versions_ok_def history_def opt_list_def sorted_wrt_append split: option.splits)

text \<open>An object of a well-formed bucket is never empty, so dropping it is the identity.\<close>

lemma drop_if_empty_ok:
  assumes "obj_ok ventries n st name obj"
  shows "drop_if_empty env b key obj = b"
  using assms
  by (auto simp: drop_if_empty_def older_Nil_iff obj_ok_def history_def opt_list_def)

subsection \<open>rm\<close>

lemma rm_enabled:
  assumes "bucket_object env b name = Some obj" "bk_versioning b = VersioningEnabled"
    and "bucket_rm env b name at src = (r, b', src')"
  obtains item item' where "bucket_put env b name item src = (item', b', src')"
    "bd_name item = name" "bd_deleteMarker item" "bd_body item = []"
    "r = \<lparr>dr_IsDeleteMarker = True, dr_VersionID = bd_versionID item'\<rparr>"
  using assms by (auto simp: bucket_rm_def Let_def split: prod.splits)

lemma rm_plain:
  assumes "bk_versioning b \<noteq> VersioningEnabled"
  shows "bucket_rm env b name at src =
     (emptyDeleteResult,
      (case bucket_object env b name of
         None \<Rightarrow> b
       | Some obj \<Rightarrow>
           drop_if_empty env (bucket_store env b name (obj\<lparr>bo_data := None\<rparr>)) name
             (obj\<lparr>bo_data := None\<rparr>)), src)"
  using assms by (simp add: bucket_rm_def drop_if_empty_def Let_def split: option.splits)

lemma key_state_rm_plain:
  assumes "bk_versioning b \<noteq> VersioningEnabled" "bucket_rm env b name at src = (r, b', src')"
  shows "key_state env ventries b' key =
     (if key = name then (fst (key_state env ventries b name), None)
      else key_state env ventries b key)"
  using assms(2) unfolding rm_plain [OF assms(1)]
  by (auto simp: key_state_drop_store split: option.splits) (simp_all add: key_state_def)

lemma rm_cases:
  assumes "bucket_rm env b name at src = (r, b', src')"
  obtains (marker) item item' where "bucket_put env b name item src = (item', b', src')"
      "bd_name item = name"
  | (plain) "src' = src" "bucket_object env b name = None" "b' = b"
  | (cleared) obj where "src' = src" "bucket_object env b name = Some obj"
      "b' = drop_if_empty env (bucket_store env b name (obj\<lparr>bo_data := None\<rparr>)) name
              (obj\<lparr>bo_data := None\<rparr>)"
proof (cases "bk_versioning b = VersioningEnabled")
  case True
  show ?thesis
  proof (cases "bucket_object env b name")
    case None
    then show ?thesis using assms by (intro plain) (simp_all add: bucket_rm_def)
  next
    case (Some obj)
    then show ?thesis using rm_enabled [OF Some True assms] marker by metis
  qed
next
  case False
  show ?thesis
  proof (cases "bucket_object env b name")
    case None
    then show ?thesis using assms by (intro plain) (simp_all add: rm_plain [OF False])
  next
    case (Some obj)
    then show ?thesis using assms by (intro cleared [OF _ Some]) (simp_all add: rm_plain [OF False])
  qed
qed

lemma bucket_ok_rm:
  assumes "bucket_ok env ventries (source_count src) b" "source_ok src"
    "source_count src' < 10 ^ 30" "bucket_rm env b name at src = (r, b', src')"
  shows "bucket_ok env ventries (source_count src') b'"
  using assms(4)
proof (cases rule: rm_cases)
  case (marker item item')
  then show ?thesis using bucket_ok_put [OF assms(1,2) _ marker(2,1)] put_count [OF marker(1)] assms(3)
    by simp
next
  case plain
  then show ?thesis using assms(1) by simp
next
  case (cleared obj)
  then show ?thesis
    using bucket_ok_drop_store [OF assms(1) versions_ok_clear_data]
      bucket_okD [OF assms(1) cleared(2)] by (simp add: obj_ok_def)
qed

lemma rm_source:
  assumes "source_ok src" "source_count src' < 10 ^ 30" "bucket_rm env b name at src = (r, b', src')"
  shows "source_ok src'"
  using assms(3)
proof (cases rule: rm_cases)
  case (marker item item')
  then show ?thesis
    using nextVersion_step(1) [OF assms(1) _ put_eq(1) [OF marker(1)]] put_count [OF marker(1)] assms(2)
    by simp
qed (use assms(1) in simp_all)

lemma rm_frame:
  assumes "bucket_rm env b name at src = (r, b', src')"
  shows "bk_name b' = bk_name b" "bk_versioning b' = bk_versioning b"
    "bk_creationDate b' = bk_creationDate b"
proof -
  have "bk_name b' = bk_name b \<and> bk_versioning b' = bk_versioning b \<and>
      bk_creationDate b' = bk_creationDate b"
    using assms
  proof (cases rule: rm_cases)
    case (marker item item')
    then show ?thesis using put_frame(1-3) [OF marker(1)] by simp
  qed simp_all
  then show "bk_name b' = bk_name b" "bk_versioning b' = bk_versioning b"
    "bk_creationDate b' = bk_creationDate b" by simp_all
qed

lemma rmVersion_frame:
  assumes "bucket_rmVersion env b name vid at = (r, b')"
  shows "bk_name b' = bk_name b" "bk_versioning b' = bk_versioning b"
    "bk_creationDate b' = bk_creationDate b"
  using assms by (auto simp: bucket_rmVersion_def Let_def split: option.splits if_splits prod.splits)

subsection \<open>rmVersion\<close>

lemma older_delete:
  assumes "versions_ok ventries n st name obj" "bo_versions obj = Some m"
  shows "map snd (ventries (snd (sl_delete (env_vsl env) m vid))) =
           filter (\<lambda>d. bd_versionID d \<noteq> vid) (older ventries obj)"
proof -
  have "map snd (filter (\<lambda>e. fst e \<noteq> vid) xs) = filter (\<lambda>d. bd_versionID d \<noteq> vid) (map snd xs)"
    if "map fst xs = map bd_versionID (map snd xs)" for xs :: "(string \<times> bucketData) list"
    using that by (induction xs) auto
  from this [OF versions_okD(5) [OF assms]] show ?thesis
    using assms(2) by (simp add: vsl.entries_delete older_def)
qed

lemma find_filter_neq:
  "find (\<lambda>d. bd_versionID d = vid) ds = None \<Longrightarrow> filter (\<lambda>d. bd_versionID d \<noteq> vid) ds = ds"
  by (induction ds) (auto split: if_splits)

text \<open>The three outcomes of \<open>rmVersion\<close> on a well-formed bucket.\<close>

lemma rmVersion_cases:
  assumes "bucket_ok env ventries n b" "bucket_object env b name = Some obj"
  obtains
    (current) d where "bo_data obj = Some d" "bd_versionID d = vid"
      "bucket_rmVersion env b name vid at =
         (\<lparr>dr_IsDeleteMarker = bd_deleteMarker d, dr_VersionID = vid\<rparr>,
          drop_if_empty env (bucket_store env b name (obj\<lparr>bo_data := None\<rparr>)) name
            (obj\<lparr>bo_data := None\<rparr>))"
  | (missing) "\<not> has_versionID (bo_data obj) vid"
      "find (\<lambda>d. bd_versionID d = vid) (older ventries obj) = None"
      "bucket_rmVersion env b name vid at = (emptyDeleteResult, b)"
  | (older) v m' where "\<not> has_versionID (bo_data obj) vid"
      "find (\<lambda>d. bd_versionID d = vid) (older ventries obj) = Some v"
      "bo_versions obj = Some m'"
      "bucket_rmVersion env b name vid at =
         (\<lparr>dr_IsDeleteMarker = bd_deleteMarker v, dr_VersionID = bd_versionID v\<rparr>,
          drop_if_empty env
            (bucket_store env b name
              (obj\<lparr>bo_versions := Some (snd (sl_delete (env_vsl env) m' vid))\<rparr>)) name
            (obj\<lparr>bo_versions := Some (snd (sl_delete (env_vsl env) m' vid))\<rparr>))"
proof -
  note ok = bucket_okD [OF assms]
  then have vok: "versions_ok ventries n (bk_versioning b) name obj" by (simp add: obj_ok_def)
  show thesis
  proof (cases "has_versionID (bo_data obj) vid")
    case True
    then obtain d where "bo_data obj = Some d" "bd_versionID d = vid"
      by (auto simp: has_versionID_def split: option.splits)
    then show ?thesis
      using assms(2) by (intro current) (simp_all add: bucket_rmVersion_def has_versionID_def Let_def)
  next
    case F: False
    show ?thesis
    proof (cases "bo_versions obj")
      case None
      then show ?thesis
        using F assms(2) drop_if_empty_ok [OF ok]
        by (intro missing) (simp_all add: bucket_rmVersion_def older_def)
    next
      case (Some m)
      have del: "fst (sl_delete (env_vsl env) m vid) =
          find (\<lambda>d. bd_versionID d = vid) (older ventries obj)"
        using version_lookup [OF vok Some] by (simp add: vsl.delete_get)
      show ?thesis
      proof (cases "fst (sl_delete (env_vsl env) m vid)")
        case None
        then show ?thesis using F assms(2) Some del
          by (intro missing) (auto simp: bucket_rmVersion_def split: prod.splits)
      next
        case (Some v)
        then show ?thesis using F assms(2) \<open>bo_versions obj = Some m\<close> del
          by (intro older [of v m]) (auto simp: bucket_rmVersion_def Let_def split: prod.splits)
      qed
    qed
  qed
qed

lemma key_state_rmVersion:
  assumes "bucket_ok env ventries n b" "bucket_rmVersion env b name vid at = (r, b')"
  shows "key_state env ventries b' key =
     (if key = name then spec_rmVersion vid (key_state env ventries b name)
      else key_state env ventries b key)"
proof (cases "bucket_object env b name")
  case None
  then show ?thesis using assms(2)
    by (auto simp: bucket_rmVersion_def key_state_def spec_rmVersion_def has_versionID_def)
next
  case (Some obj)
  then have ks: "key_state env ventries b name = (older ventries obj, bo_data obj)"
    by (simp add: key_state_def)
  have vok: "versions_ok ventries n (bk_versioning b) name obj"
    using bucket_okD [OF assms(1) Some] by (simp add: obj_ok_def)
  from assms(1) Some show ?thesis
  proof (cases rule: rmVersion_cases [where vid = vid and at = at])
    case (current d)
    then show ?thesis using assms(2)
      by (auto simp: ks key_state_drop_store spec_rmVersion_def has_versionID_def)
  next
    case missing
    then show ?thesis using assms(2) by (auto simp: ks spec_rmVersion_def find_filter_neq)
  next
    case (older v m')
    then show ?thesis using assms(2) older_delete [OF vok older(3)]
      by (auto simp: ks key_state_drop_store spec_rmVersion_def)
        (simp add: older_def)
  qed
qed

lemma versions_ok_delete:
  assumes "versions_ok ventries n st name obj" "bo_versions obj = Some m"
  shows "versions_ok ventries n st name
    (obj\<lparr>bo_versions := Some (snd (sl_delete (env_vsl env) m vid))\<rparr>)" (is "versions_ok _ _ _ _ ?o")
proof (rule versions_okI)
  have o: "older ventries ?o = filter (\<lambda>d. bd_versionID d \<noteq> vid) (older ventries obj)"
    using older_delete [OF assms] by (simp add: older_def [of ventries ?o])
  note vok = versions_okD [OF assms(1)]
  show "bo_name ?o = name" using vok(1) by simp
  show "bd_name d = name \<and> id_below (bd_versionID d) n"
    if "d \<in> set (history (older ventries ?o, bo_data ?o))" for d
    using that vok(2,3) unfolding o by (auto simp: history_def opt_list_def split: option.splits)
  show "sorted_wrt (<) (map bd_versionID (history (older ventries ?o, bo_data ?o)))"
    using vok(4) unfolding o
    by (auto simp: history_def sorted_wrt_append sorted_wrt_map intro: sorted_wrt_filter)
  show "map fst (ventries m') = map bd_versionID (map snd (ventries m'))"
    if "bo_versions ?o = Some m'" for m'
    using that vok(5) [OF assms(2)] by (auto simp: vsl.entries_delete)
  show "bo_versions ?o = None" if "st = VersioningNone"
    using vok(6) [OF that] assms(2) by simp
qed

lemma bucket_ok_rmVersion:
  assumes "bucket_ok env ventries n b" "bucket_rmVersion env b name vid at = (r, b')"
  shows "bucket_ok env ventries n b'"
proof (cases "bucket_object env b name")
  case None
  then show ?thesis using assms by (simp add: bucket_rmVersion_def)
next
  case (Some obj)
  have vok: "versions_ok ventries n (bk_versioning b) name obj"
    using bucket_okD [OF assms(1) Some] by (simp add: obj_ok_def)
  from assms(1) Some show ?thesis
  proof (cases rule: rmVersion_cases [where vid = vid and at = at])
    case (current d)
    then show ?thesis
      using assms(2) bucket_ok_drop_store [OF assms(1) versions_ok_clear_data [OF vok]] by simp
  next
    case missing
    then show ?thesis using assms by simp
  next
    case (older v m')
    then show ?thesis
      using assms(2) bucket_ok_drop_store [OF assms(1) versions_ok_delete [OF vok older(3)]] by simp
  qed
qed

section \<open>Versioning status, lookup and iteration\<close>

lemma bucket_ok_new: "bucket_ok env ventries n (newBucket env name at)"
  by (simp add: bucket_ok_def)

lemma setVersioning_frame [simp]:
  "bk_name (setVersioning b e) = bk_name b" "bk_creationDate (setVersioning b e) = bk_creationDate b"
  by (simp_all add: setVersioning_def)

lemma bucket_ok_setVersioning:
  "bucket_ok env ventries n b \<Longrightarrow> bucket_ok env ventries n (setVersioning b e)"
  by (auto simp: bucket_ok_def setVersioning_def obj_ok_def versions_ok_def bucket_object_def)

lemma unversioned_current:
  assumes "bucket_ok env ventries n b" "bk_versioning b = VersioningNone"
    "bucket_object env b name = Some obj"
  shows "bo_versions obj = None" "\<exists>d. bo_data obj = Some d"
  using bucket_okD [OF assms(1,3)] assms(2)
  by (auto simp: obj_ok_def versions_ok_def older_def history_def opt_list_def split: option.splits)

lemma objectVersion_history:
  assumes "bucket_ok env ventries n b" "vid \<noteq> ''''" "bucket_object env b name \<noteq> None"
  shows "objectVersion env b name vid =
     (case find (\<lambda>d. bd_versionID d = vid) (history (key_state env ventries b name)) of
        None \<Rightarrow> Err (ECode ErrNoSuchVersion) | Some d \<Rightarrow> Ok d)"
proof -
  obtain obj where obj: "bucket_object env b name = Some obj" using assms(3) by auto
  then have vok: "versions_ok ventries n (bk_versioning b) name obj"
    using bucket_okD [OF assms(1)] by (simp add: obj_ok_def)
  have find_append: "find P (xs @ ys) = (case find P xs of None \<Rightarrow> find P ys | Some x \<Rightarrow> Some x)"
    for P and xs ys :: "bucketData list" by (induction xs) auto
  have cur: "find (\<lambda>d. bd_versionID d = vid) (older ventries obj) = None"
    if "bo_data obj = Some d" "bd_versionID d = vid" for d
    using versions_okD(4) [OF vok] that by (auto simp: find_None_iff sorted_wrt_append)
  show ?thesis
    using cur version_lookup [OF vok]
    by (cases "bo_data obj"; cases "bo_versions obj")
      (auto simp: objectVersion_def obj assms(2) key_state_def has_versionID_def find_append
        history_def opt_list_def older_def split: option.splits)
qed

lemma bo_yields_data:
  "\<exists>e. yields (bo_step env) \<lparr>bi_data = x, bi_iter = None, bi_cur = c, bi_done = False\<rparr>
     (map (\<lambda>d. (d, True)) (opt_list x)) e"
proof (cases x)
  case (Some d)
  show ?thesis unfolding Some
    by (rule exI) (auto simp: opt_list_def bo_step_def bo_Next_def bo_Next_data_def
        intro!: yields_Nil yields_Cons)
qed (auto simp: opt_list_def bo_step_def bo_Next_def bo_Next_data_def intro!: exI yields_Nil)

lemma bo_yields_iter:
  assumes "vview i = (xs, k)" "k \<le> length xs"
  shows "\<exists>e. yields (bo_step env) \<lparr>bi_data = x, bi_iter = Some i, bi_cur = c, bi_done = False\<rparr>
     (map (\<lambda>d. (snd d, False)) (drop k xs) @ map (\<lambda>d. (d, True)) (opt_list x)) e"
  using assms
proof (induction "length xs - k" arbitrary: i k c)
  case 0
  then have "bo_Next env \<lparr>bi_data = x, bi_iter = Some i, bi_cur = c, bi_done = False\<rparr> =
      bo_Next env \<lparr>bi_data = x, bi_iter = None, bi_cur = c, bi_done = False\<rparr>"
    using vsl.view_next [OF 0(2)] by (auto simp: bo_Next_def split: prod.splits)
  then have "bo_step env \<lparr>bi_data = x, bi_iter = Some i, bi_cur = c, bi_done = False\<rparr> =
      bo_step env \<lparr>bi_data = x, bi_iter = None, bi_cur = c, bi_done = False\<rparr>"
    by (simp add: bo_step_def)
  from yields_same_step [OF this] 0(1,3) bo_yields_data [of x c] show ?case by simp
next
  case (Suc n)
  then have k: "k < length xs" and n: "n = length xs - Suc k" by simp_all
  let ?i = "snd (it_next (env_vsl env) i)"
  have v: "vview ?i = (xs, Suc k)" and ok: "fst (it_next (env_vsl env) i)"
    using vsl.view_next [OF Suc(3,4)] k by simp_all
  have "bo_step env \<lparr>bi_data = x, bi_iter = Some i, bi_cur = c, bi_done = False\<rparr> =
     (Some (snd (xs ! k), False),
      \<lparr>bi_data = x, bi_iter = Some ?i, bi_cur = Some (snd (xs ! k), False), bi_done = False\<rparr>)"
    using vsl.view_entry [OF v] k ok by (auto simp: bo_step_def bo_Next_def split: prod.splits)
  moreover have "\<exists>e. yields (bo_step env)
      \<lparr>bi_data = x, bi_iter = Some ?i, bi_cur = Some (snd (xs ! k), False), bi_done = False\<rparr>
     (map (\<lambda>d. (snd d, False)) (drop (Suc k) xs) @ map (\<lambda>d. (d, True)) (opt_list x)) e"
    using Suc(1) [of "Suc k" ?i] n v k by simp
  ultimately show ?case using k
    by (simp add: Cons_nth_drop_Suc [symmetric]) (blast intro: yields_Cons)
qed

text \<open>The iterator of an object gives its older versions and then the current one, marked as such.\<close>

lemma bo_yields:
  "\<exists>e. yields (bo_step env) (bo_Iterator env obj)
      (map (\<lambda>d. (d, False)) (older ventries obj) @ map (\<lambda>d. (d, True)) (opt_list (bo_data obj))) e"
proof (cases "bo_versions obj")
  case None
  then show ?thesis using bo_yields_data by (simp add: bo_Iterator_def older_def)
next
  case (Some m)
  then show ?thesis
    using bo_yields_iter [of "sl_iterator (env_vsl env) m" "ventries m" 0]
    by (simp add: bo_Iterator_def older_def vsl.view_iterator comp_def)
qed

end

end
