(* ===== verification/MemBackend.thy ===== *)
theory MemBackend
  imports Backend MemBucketFacts
begin

text \<open>
  \<open>backend/s3mem/backend.go\<close>: the in-memory back end. Its state holds the buckets by name, the
  version generator with its scratch buffer, and the reading of the clock that the next operation
  sees. Every operation runs under the lock of the back end, so it is one state transformer;
  \<open>PutObject\<close> takes the lock twice, once for \<open>MergeMetadata\<close> and once for the store, and is modelled
  without another request in between; \<open>MemConcurrent\<close> separates its two sections.
\<close>

record 'om s3mem =
  db_buckets :: "(string \<times> 'om bucket) list"
  db_versionSource :: version_source
  db_now :: int

definition mem_New :: "int \<Rightarrow> int option \<Rightarrow> 'om s3mem" where
  "mem_New now versionSeed =
     \<lparr>db_buckets = [],
      db_versionSource =
        (newVersionGenerator
           (word_of_int (case versionSeed of Some seed \<Rightarrow> seed | None \<Rightarrow> now)) 0, []),
      db_now = now\<rparr>"

definition mem_bucket :: "'om s3mem \<Rightarrow> string \<Rightarrow> 'om bucket option" where
  "mem_bucket db name = map_of (db_buckets db) name"

definition mem_set_bucket :: "'om s3mem \<Rightarrow> string \<Rightarrow> 'om bucket \<Rightarrow> 'om s3mem" where
  "mem_set_bucket db name b = db\<lparr>db_buckets := AList.update name b (db_buckets db)\<rparr>"

section \<open>Buckets\<close>

text \<open>Go ranges over the map of buckets in an unspecified order; the model's order is one of them.\<close>

definition mem_ListBuckets :: "('om s3mem, BucketInfo list) act" where
  "mem_ListBuckets db =
     (Ok (map (\<lambda>(_, b). \<lparr>bi_Name = bk_name b, bi_CreationDate = bk_creationDate b\<rparr>)
            (db_buckets db)), db)"

definition mem_CreateBucket ::
    "('om, 'oi, 'vm, 'vi) s3mem_env \<Rightarrow> string \<Rightarrow> ('om s3mem, unit) act" where
  "mem_CreateBucket env name db =
     (case mem_bucket db name of
        Some _ \<Rightarrow> (Err (ResourceError ErrBucketAlreadyExists name), db)
      | None \<Rightarrow> (Ok (), mem_set_bucket db name (newBucket env name (db_now db))))"

definition mem_DeleteBucket ::
    "('om, 'oi, 'vm, 'vi) s3mem_env \<Rightarrow> string \<Rightarrow> ('om s3mem, unit) act" where
  "mem_DeleteBucket env name db =
     (case mem_bucket db name of
        None \<Rightarrow> (Err (ECode ErrNoSuchBucket), db)
      | Some b \<Rightarrow>
          if 0 < sl_len (env_osl env) (bk_objects b)
          then (Err (ResourceError ErrBucketNotEmpty name), db)
          else (Ok (), db\<lparr>db_buckets := AList.delete name (db_buckets db)\<rparr>))"

definition mem_ForceDeleteBucket :: "string \<Rightarrow> ('om s3mem, unit) act" where
  "mem_ForceDeleteBucket name db =
     (case mem_bucket db name of
        None \<Rightarrow> (Err (ECode ErrNoSuchBucket), db)
      | Some b \<Rightarrow> (Ok (), db\<lparr>db_buckets := AList.delete name (db_buckets db)\<rparr>))"

definition mem_BucketExists :: "string \<Rightarrow> ('om s3mem, bool) act" where
  "mem_BucketExists name db = (Ok (mem_bucket db name \<noteq> None), db)"

section \<open>Objects\<close>

text \<open>\<open>obj == nil || obj.data.deleteMarker\<close>, which dereferences \<open>obj.data\<close>.\<close>

definition current_data ::
    "('om, 'oi, 'vm, 'vi) s3mem_env \<Rightarrow> 'om bucket \<Rightarrow> string \<Rightarrow> bucketData res" where
  "current_data env b objectName =
     (case bucket_object env b objectName of
        None \<Rightarrow> Err (KeyNotFound objectName)
      | Some obj \<Rightarrow>
          (case bo_data obj of
             None \<Rightarrow> Panic
           | Some d \<Rightarrow> if bd_deleteMarker d then Err (KeyNotFound objectName) else Ok d))"

definition mem_HeadObject ::
    "('om, 'oi, 'vm, 'vi) s3mem_env \<Rightarrow> string \<Rightarrow> string \<Rightarrow> ('om s3mem, Object) act" where
  "mem_HeadObject env bucketName objectName db =
     (case mem_bucket db bucketName of
        None \<Rightarrow> (Err (BucketNotFound bucketName), db)
      | Some b \<Rightarrow> (rbind (current_data env b objectName) (\<lambda>d. toObject d None False), db))"

definition mem_GetObject ::
    "('om, 'oi, 'vm, 'vi) s3mem_env \<Rightarrow> string \<Rightarrow> string \<Rightarrow> ObjectRangeRequest option \<Rightarrow>
     ('om s3mem, Object) act" where
  "mem_GetObject env bucketName objectName rangeRequest db =
     (case mem_bucket db bucketName of
        None \<Rightarrow> (Err (BucketNotFound bucketName), db)
      | Some b \<Rightarrow>
          (rbind (current_data env b objectName)
             (\<lambda>d. rbind (toObject d rangeRequest True)
               (\<lambda>result. Ok (if bk_versioning b \<noteq> VersioningEnabled
                              then result\<lparr>ob_VersionID := ''''\<rparr> else result))), db))"

definition mem_store ::
    "('om, 'oi, 'vm, 'vi) s3mem_env \<Rightarrow> string \<Rightarrow> string \<Rightarrow> gomap option \<Rightarrow> bytes \<Rightarrow>
     ('om s3mem, PutObjectResult) act" where
  "mem_store env bucketName objectName meta bts db =
     (case mem_bucket db bucketName of
        None \<Rightarrow> (Err (BucketNotFound bucketName), db)
      | Some b \<Rightarrow>
          (let hash = env_md5 env bts;
               item = \<lparr>bd_name = objectName, bd_lastModified = db_now db, bd_versionID = '''',
                       bd_deleteMarker = False, bd_body = bts, bd_hash = hash,
                       bd_etag = quoted (hex_encode hash), bd_metadata = meta\<rparr>
           in case bucket_put env b objectName item (db_versionSource db) of
                (item', b', src') \<Rightarrow>
                  (Ok \<lparr>pr_VersionID =
                         (if bk_versioning b' = VersioningEnabled then bd_versionID item' else '''')\<rparr>,
                   (mem_set_bucket db bucketName b')\<lparr>db_versionSource := src'\<rparr>)))"

definition mem_PutObject ::
    "('om, 'oi, 'vm, 'vi) s3mem_env \<Rightarrow> string \<Rightarrow> string \<Rightarrow> gomap option \<Rightarrow> reader \<Rightarrow> int \<Rightarrow>
     ('om s3mem, PutObjectResult) act" where
  "mem_PutObject env bucketName objectName meta input sz =
     act_bind (act_res (ReadAll input sz))
       (\<lambda>bts. act_bind (MergeMetadata (mem_GetObject env bucketName objectName None) meta)
         (\<lambda>meta'. mem_store env bucketName objectName meta' bts))"

definition mem_DeleteObject ::
    "('om, 'oi, 'vm, 'vi) s3mem_env \<Rightarrow> string \<Rightarrow> string \<Rightarrow> ('om s3mem, ObjectDeleteResult) act" where
  "mem_DeleteObject env bucketName objectName db =
     (case mem_bucket db bucketName of
        None \<Rightarrow> (Err (BucketNotFound bucketName), db)
      | Some b \<Rightarrow>
          (case bucket_rm env b objectName (db_now db) (db_versionSource db) of
             (result, b', src') \<Rightarrow>
               (Ok result, (mem_set_bucket db bucketName b')\<lparr>db_versionSource := src'\<rparr>)))"

section \<open>Deleting many objects\<close>

text \<open>
  \<open>rm\<close> and \<open>rmVersion\<close> never return an error, so every object of the request is reported as deleted
  and the \<open>Error\<close> branches of the two loops are not reached.
\<close>

fun rm_all ::
    "('om, 'oi, 'vm, 'vi) s3mem_env \<Rightarrow> int \<Rightarrow> string list \<Rightarrow> 'om bucket \<Rightarrow> version_source \<Rightarrow>
     ObjectID list \<Rightarrow> ObjectID list \<times> 'om bucket \<times> version_source" where
  "rm_all env now [] b src deleted = (deleted, b, src)"
| "rm_all env now (object # objects) b src deleted =
     (case bucket_rm env b object now src of
        (dresult, b', src') \<Rightarrow>
          rm_all env now objects b' src'
            (deleted @ [\<lparr>oid_Key = object, oid_VersionID = ''''\<rparr>]))"

definition mem_DeleteMulti ::
    "('om, 'oi, 'vm, 'vi) s3mem_env \<Rightarrow> string \<Rightarrow> string list \<Rightarrow> ('om s3mem, MultiDeleteResult) act" where
  "mem_DeleteMulti env bucketName objects db =
     (case mem_bucket db bucketName of
        None \<Rightarrow> (Err (BucketNotFound bucketName), db)
      | Some b \<Rightarrow>
          (case rm_all env (db_now db) objects b (db_versionSource db) [] of
             (deleted, b', src') \<Rightarrow>
               (Ok \<lparr>md_Deleted = deleted, md_Error = []\<rparr>,
                (mem_set_bucket db bucketName b')\<lparr>db_versionSource := src'\<rparr>)))"

fun rm_all_versions ::
    "('om, 'oi, 'vm, 'vi) s3mem_env \<Rightarrow> int \<Rightarrow> ObjectID list \<Rightarrow> 'om bucket \<Rightarrow> version_source \<Rightarrow>
     ObjectID list \<Rightarrow> ObjectID list \<times> 'om bucket \<times> version_source" where
  "rm_all_versions env now [] b src deleted = (deleted, b, src)"
| "rm_all_versions env now (object # objects) b src deleted =
     (if oid_VersionID object \<noteq> '''' then
        (case bucket_rmVersion env b (oid_Key object) (oid_VersionID object) now of
           (dresult, b') \<Rightarrow> rm_all_versions env now objects b' src (deleted @ [object]))
      else
        (case bucket_rm env b (oid_Key object) now src of
           (dresult, b', src') \<Rightarrow>
             rm_all_versions env now objects b' src' (deleted @ [object])))"

definition mem_DeleteMultiVersions ::
    "('om, 'oi, 'vm, 'vi) s3mem_env \<Rightarrow> string \<Rightarrow> ObjectID list \<Rightarrow>
     ('om s3mem, MultiDeleteResult) act" where
  "mem_DeleteMultiVersions env bucketName objects db =
     (case mem_bucket db bucketName of
        None \<Rightarrow> (Err (BucketNotFound bucketName), db)
      | Some b \<Rightarrow>
          (case rm_all_versions env (db_now db) objects b (db_versionSource db) [] of
             (deleted, b', src') \<Rightarrow>
               (Ok \<lparr>md_Deleted = deleted, md_Error = []\<rparr>,
                (mem_set_bucket db bucketName b')\<lparr>db_versionSource := src'\<rparr>)))"

section \<open>Versions\<close>

definition mem_VersioningConfiguration :: "string \<Rightarrow> ('om s3mem, VersioningConfiguration) act" where
  "mem_VersioningConfiguration bucketName db =
     (case mem_bucket db bucketName of
        None \<Rightarrow> (Err (BucketNotFound bucketName), db)
      | Some b \<Rightarrow> (Ok \<lparr>vc_Status = bk_versioning b, vc_MFADelete = MFADeleteNone\<rparr>, db))"

definition mem_SetVersioningConfiguration ::
    "string \<Rightarrow> VersioningConfiguration \<Rightarrow> ('om s3mem, unit) act" where
  "mem_SetVersioningConfiguration bucketName v db =
     (if mfa_Enabled (vc_MFADelete v) then (Err (ECode ErrNotImplemented), db)
      else
        (case mem_bucket db bucketName of
           None \<Rightarrow> (Err (BucketNotFound bucketName), db)
         | Some b \<Rightarrow> (Ok (), mem_set_bucket db bucketName (setVersioning b (vc_Enabled v)))))"

definition mem_GetObjectVersion ::
    "('om, 'oi, 'vm, 'vi) s3mem_env \<Rightarrow> string \<Rightarrow> string \<Rightarrow> string \<Rightarrow> ObjectRangeRequest option \<Rightarrow>
     ('om s3mem, Object) act" where
  "mem_GetObjectVersion env bucketName objectName versionID rangeRequest db =
     (if versionID = '''' then mem_GetObject env bucketName objectName rangeRequest db
      else
        (case mem_bucket db bucketName of
           None \<Rightarrow> (Err (BucketNotFound bucketName), db)
         | Some b \<Rightarrow>
             (rbind (objectVersion env b objectName versionID)
                (\<lambda>ver. toObject ver rangeRequest True), db)))"

definition mem_HeadObjectVersion ::
    "('om, 'oi, 'vm, 'vi) s3mem_env \<Rightarrow> string \<Rightarrow> string \<Rightarrow> string \<Rightarrow> ('om s3mem, Object) act" where
  "mem_HeadObjectVersion env bucketName objectName versionID db =
     (if versionID = '''' then mem_HeadObject env bucketName objectName db
      else
        (case mem_bucket db bucketName of
           None \<Rightarrow> (Err (BucketNotFound bucketName), db)
         | Some b \<Rightarrow>
             (rbind (objectVersion env b objectName versionID)
                (\<lambda>ver. toObject ver None False), db)))"

definition mem_DeleteObjectVersion ::
    "('om, 'oi, 'vm, 'vi) s3mem_env \<Rightarrow> string \<Rightarrow> string \<Rightarrow> string \<Rightarrow>
     ('om s3mem, ObjectDeleteResult) act" where
  "mem_DeleteObjectVersion env bucketName objectName versionID db =
     (case mem_bucket db bucketName of
        None \<Rightarrow> (Err (BucketNotFound bucketName), db)
      | Some b \<Rightarrow>
          (case bucket_rmVersion env b objectName versionID (db_now db) of
             (result, b') \<Rightarrow> (Ok result, mem_set_bucket db bucketName b')))"

lemmas mem_backend_defs [go_eval] =
  mem_New_def mem_bucket_def mem_set_bucket_def mem_ListBuckets_def mem_CreateBucket_def
  mem_DeleteBucket_def mem_ForceDeleteBucket_def mem_BucketExists_def current_data_def
  mem_HeadObject_def mem_GetObject_def mem_store_def mem_PutObject_def mem_DeleteObject_def
  mem_DeleteMulti_def mem_DeleteMultiVersions_def mem_VersioningConfiguration_def
  mem_SetVersioningConfiguration_def mem_GetObjectVersion_def mem_HeadObjectVersion_def
  mem_DeleteObjectVersion_def

end
