(* ===== verification/MemListing.thy ===== *)
theory MemListing
  imports MemBackend
begin

text \<open>
  \<open>ListBucket\<close> and \<open>ListBucketVersions\<close> of \<open>backend/s3mem/backend.go\<close>: loops over the skip list of
  objects and, for versions, over the iterator of each object. The loops run with one unit of fuel
  more than there are entries, which is enough (\<open>go_range_yields\<close>). Then what a listing contains.
\<close>

section \<open>ListBucket\<close>

text \<open>
  The state of the loop: the response, the count, the last common prefix, and whether the page is
  full. An object without current version (\<open>item.data\<close> nil) is a panic.
\<close>

type_synonym lb_state = "ObjectList \<times> int \<times> string \<times> bool"

definition lb_count :: "int \<Rightarrow> string \<Rightarrow> ObjectList \<Rightarrow> int \<Rightarrow> string \<Rightarrow> lb_state res ctl" where
  "lb_count maxKeys name response cnt lastPart =
     (let cnt' = i64 (cnt + 1)
      in if 0 < maxKeys \<and> maxKeys \<le> cnt'
         then Break (Ok (response\<lparr>ol_NextMarker := name\<rparr>, cnt', lastPart, True))
         else Continue (Ok (response, cnt', lastPart, False)))"

definition content_of :: "bucketData \<Rightarrow> Content" where
  "content_of d =
     \<lparr>ct_Key = bd_name d, ct_LastModified = bd_lastModified d,
      ct_ETag = quoted (hex_encode (bd_hash d)), ct_Size = i64 (int (length (bd_body d))),
      ct_StorageClass = '''', ct_Owner = None\<rparr>"

definition lb_item :: "Prefix \<Rightarrow> int \<Rightarrow> bucketData \<Rightarrow> lb_state \<Rightarrow> lb_state res ctl" where
  "lb_item prefix maxKeys d st =
     (case st of (response, cnt, lastPart, full) \<Rightarrow>
        (case prefix_Match prefix (bd_name d) of
           None \<Rightarrow> Continue (Ok st)
         | Some m \<Rightarrow>
             if bd_deleteMarker d then Continue (Ok st)
             else if pm_CommonPrefix m then
               (if pm_MatchedPart m = lastPart then Continue (Ok st)
                else lb_count maxKeys (bd_name d) (ol_AddPrefix response (pm_MatchedPart m)) cnt
                       (pm_MatchedPart m))
             else lb_count maxKeys (bd_name d) (ol_Add response (content_of d)) cnt lastPart))"

definition lb_body ::
    "Prefix \<Rightarrow> int \<Rightarrow> string \<times> 'vm bucketObject \<Rightarrow> lb_state res \<Rightarrow> lb_state res ctl" where
  "lb_body prefix maxKeys entry st =
     (case bo_data (snd entry) of
        None \<Rightarrow> Break Panic
      | Some d \<Rightarrow> (case st of Ok s \<Rightarrow> lb_item prefix maxKeys d s | _ \<Rightarrow> Break st))"

text \<open>Where the listing starts: after the marker, or at the first key beyond it.\<close>

definition lb_start ::
    "('om, 'oi, 'vm, 'vi) s3mem_env \<Rightarrow> 'om \<Rightarrow> string \<Rightarrow> 'oi goskipiter" where
  "lb_start env objects marker =
     (let iter = gs_New (sl_iterator (env_osl env) objects)
      in if marker \<noteq> '''' then
           (case gs_Seek (env_osl env) iter marker of
              (_, iter) \<Rightarrow>
                if gs_Key (env_osl env) iter = Some marker then snd (gs_Next (env_osl env) iter)
                else iter)
         else iter)"

definition mem_ListBucket ::
    "('om, 'oi, 'vm, 'vi) s3mem_env \<Rightarrow> string \<Rightarrow> Prefix option \<Rightarrow> ListBucketPage \<Rightarrow>
     ('om s3mem, ObjectList) act" where
  "mem_ListBucket env name prefix page db =
     (let prefix = (case prefix of None \<Rightarrow> emptyPrefix | Some p \<Rightarrow> p)
      in case mem_bucket db name of
           None \<Rightarrow> (Err (BucketNotFound name), db)
         | Some b \<Rightarrow>
             (case go_range (Suc (sl_len (env_osl env) (bk_objects b))) (gs_step (env_osl env))
                     (lb_body prefix (pg_MaxKeys page)) (Ok (NewObjectList, 0, '''', False))
                     (lb_start env (bk_objects b) (pg_Marker page)) of
                None \<Rightarrow> (NoFuel, db)
              | Some (st, iter) \<Rightarrow>
                  (rbind st (\<lambda>(response, cnt, lastPart, full).
                     Ok (if full then response\<lparr>ol_IsTruncated := fst (gs_Next (env_osl env) iter)\<rparr>
                         else response)), db)))"

section \<open>ListBucketVersions\<close>

definition lv_item :: "VersioningStatus \<Rightarrow> bucketData \<times> bool \<Rightarrow> VersionItem" where
  "lv_item status version =
     (let d = fst version;
          fields = \<lparr>vf_Key = bd_name d,
                    vf_VersionID = (if status \<noteq> VersioningNone then bd_versionID d else ''''),
                    vf_IsLatest = snd version, vf_LastModified = bd_lastModified d\<rparr>
      in if bd_deleteMarker d then DeleteMarkerItem fields
         else VersionObject fields (i64 (int (length (bd_body d)))) (bd_etag d))"

text \<open>The inner loop: the result, the count, and whether the page is full.\<close>

definition lv_inner ::
    "VersioningStatus \<Rightarrow> int \<Rightarrow> bucketData \<times> bool \<Rightarrow> ListBucketVersionsResult \<times> int \<times> bool \<Rightarrow>
     (ListBucketVersionsResult \<times> int \<times> bool) ctl" where
  "lv_inner status maxKeys version st =
     (case st of (result, cnt, full) \<Rightarrow>
        (let result' = result\<lparr>lv_Versions := lv_Versions result @ [lv_item status version]\<rparr>;
             cnt' = i64 (cnt + 1)
         in if 0 < maxKeys \<and> maxKeys \<le> cnt' then Break (result', cnt', True)
            else Continue (result', cnt', False)))"

text \<open>
  The outer loop: the result, the count, \<open>first\<close> and \<open>truncated\<close>. \<open>goto done\<close> is \<open>Break\<close>.
\<close>

type_synonym lv_state = "ListBucketVersionsResult \<times> int \<times> bool \<times> bool"

definition versions_start ::
    "('om, 'oi, 'vm, 'vi) s3mem_env \<Rightarrow> bool \<Rightarrow> string \<Rightarrow> 'vm bucketObject \<Rightarrow> 'vi boIterator res" where
  "versions_start env first marker obj =
     (let versions = bo_Iterator env obj
      in if first \<and> marker \<noteq> '''' then
           rbind (bo_Seek env versions marker)
             (\<lambda>(found, versions). if found then Ok versions else Err (ECode ErrInternal))
         else Ok versions)"

definition versions_fuel :: "('om, 'oi, 'vm, 'vi) s3mem_env \<Rightarrow> 'vm bucketObject \<Rightarrow> nat" where
  "versions_fuel env obj =
     (case bo_versions obj of None \<Rightarrow> 0 | Some m \<Rightarrow> sl_len (env_vsl env) m) + 2"

definition lv_object ::
    "('om, 'oi, 'vm, 'vi) s3mem_env \<Rightarrow> VersioningStatus \<Rightarrow> ListBucketVersionsPage \<Rightarrow>
     'vm bucketObject \<Rightarrow> lv_state \<Rightarrow> lv_state res ctl" where
  "lv_object env status page obj st =
     (case st of (result, cnt, first, truncated) \<Rightarrow>
        (case versions_start env first (vp_VersionIDMarker page) obj of
           Ok versions \<Rightarrow>
             (case go_range (versions_fuel env obj) (bo_step env) (lv_inner status (vp_MaxKeys page))
                     (result, cnt, False) versions of
                None \<Rightarrow> Break NoFuel
              | Some ((result', cnt', full), versions') \<Rightarrow>
                  if full then Break (Ok (result', cnt', False, fst (bo_Next env versions')))
                  else Continue (Ok (result', cnt', False, truncated)))
         | Err e \<Rightarrow> Break (Err e)
         | Panic \<Rightarrow> Break Panic
         | NoFuel \<Rightarrow> Break NoFuel))"

definition lv_body ::
    "('om, 'oi, 'vm, 'vi) s3mem_env \<Rightarrow> Prefix \<Rightarrow> VersioningStatus \<Rightarrow> ListBucketVersionsPage \<Rightarrow>
     string \<times> 'vm bucketObject \<Rightarrow> lv_state res \<Rightarrow> lv_state res ctl" where
  "lv_body env prefix status page entry st =
     (case st of
        Ok (result, cnt, first, truncated) \<Rightarrow>
          (case prefix_Match prefix (bo_name (snd entry)) of
             None \<Rightarrow> Continue st
           | Some m \<Rightarrow>
               if pm_CommonPrefix m then
                 Continue (Ok (lv_AddPrefix result (pm_MatchedPart m), cnt, first, truncated))
               else lv_object env status page (snd entry) (result, cnt, first, truncated))
      | _ \<Rightarrow> Break st)"

definition mem_ListBucketVersions ::
    "('om, 'oi, 'vm, 'vi) s3mem_env \<Rightarrow> string \<Rightarrow> Prefix option \<Rightarrow> ListBucketVersionsPage option \<Rightarrow>
     ('om s3mem, ListBucketVersionsResult) act" where
  "mem_ListBucketVersions env bucketName prefix page db =
     (let prefix = (case prefix of None \<Rightarrow> emptyPrefix | Some p \<Rightarrow> p);
          page = (case page of None \<Rightarrow> emptyVersionsPage | Some g \<Rightarrow> g);
          result = NewListBucketVersionsResult bucketName (Some prefix) (Some page)
      in case mem_bucket db bucketName of
           None \<Rightarrow> (Err (BucketNotFound bucketName), db)
         | Some b \<Rightarrow>
             if vp_KeyMarker page \<noteq> '''' \<and> prefix_Match prefix (vp_KeyMarker page) = None
             then (Err (ECode ErrInternal), db)
             else
               (let iter0 = gs_New (sl_iterator (env_osl env) (bk_objects b));
                    iter = (if vp_KeyMarker page \<noteq> ''''
                            then snd (gs_Seek (env_osl env) iter0 (vp_KeyMarker page)) else iter0)
                in case go_range (Suc (sl_len (env_osl env) (bk_objects b))) (gs_step (env_osl env))
                          (lv_body env prefix (bk_versioning b) page) (Ok (result, 0, True, False))
                          iter of
                     None \<Rightarrow> (NoFuel, db)
                   | Some (st, iter') \<Rightarrow>
                       (rbind st (\<lambda>(result, cnt, first, truncated).
                          Ok (result\<lparr>lv_IsTruncated :=
                                truncated \<or> fst (gs_Next (env_osl env) iter')\<rparr>)), db)))"

section \<open>The backend interfaces\<close>

definition mem_backend :: "int \<Rightarrow> ('om, 'oi, 'vm, 'vi) s3mem_env \<Rightarrow> 'om s3mem Backend" where
  "mem_backend wall env =
     (let base =
        \<lparr>be_ListBuckets = mem_ListBuckets,
         be_ListBucket = mem_ListBucket env,
         be_CreateBucket = mem_CreateBucket env,
         be_BucketExists = mem_BucketExists,
         be_DeleteBucket = mem_DeleteBucket env,
         be_ForceDeleteBucket = mem_ForceDeleteBucket,
         be_GetObject = mem_GetObject env,
         be_HeadObject = mem_HeadObject env,
         be_DeleteObject = mem_DeleteObject env,
         be_PutObject = mem_PutObject env,
         be_DeleteMulti = mem_DeleteMulti env,
         be_CopyObject = (\<lambda>_ _ _ _ _. act_res Panic)\<rparr>
      in base\<lparr>be_CopyObject := CopyObject wall base\<rparr>)"

definition mem_versioned :: "('om, 'oi, 'vm, 'vi) s3mem_env \<Rightarrow> 'om s3mem VersionedBackend" where
  "mem_versioned env =
     \<lparr>vb_VersioningConfiguration = mem_VersioningConfiguration,
      vb_SetVersioningConfiguration = mem_SetVersioningConfiguration,
      vb_GetObjectVersion = mem_GetObjectVersion env,
      vb_HeadObjectVersion = mem_HeadObjectVersion env,
      vb_DeleteObjectVersion = mem_DeleteObjectVersion env,
      vb_DeleteMultiVersions = mem_DeleteMultiVersions env,
      vb_ListBucketVersions = mem_ListBucketVersions env\<rparr>"

lemmas mem_listing_defs [go_eval] =
  lb_count_def content_of_def lb_item_def lb_body_def lb_start_def mem_ListBucket_def lv_item_def
  lv_inner_def versions_start_def versions_fuel_def lv_object_def lv_body_def
  mem_ListBucketVersions_def mem_backend_def mem_versioned_def

lemma mem_backend_simps [simp]:
  "be_ListBuckets (mem_backend wall env) = mem_ListBuckets"
  "be_ListBucket (mem_backend wall env) = mem_ListBucket env"
  "be_CreateBucket (mem_backend wall env) = mem_CreateBucket env"
  "be_BucketExists (mem_backend wall env) = mem_BucketExists"
  "be_DeleteBucket (mem_backend wall env) = mem_DeleteBucket env"
  "be_ForceDeleteBucket (mem_backend wall env) = mem_ForceDeleteBucket"
  "be_GetObject (mem_backend wall env) = mem_GetObject env"
  "be_HeadObject (mem_backend wall env) = mem_HeadObject env"
  "be_DeleteObject (mem_backend wall env) = mem_DeleteObject env"
  "be_PutObject (mem_backend wall env) = mem_PutObject env"
  "be_DeleteMulti (mem_backend wall env) = mem_DeleteMulti env"
  by (simp_all add: mem_backend_def)

lemma mem_backend_copy [simp]:
  "be_CopyObject (mem_backend wall env) = CopyObject wall (mem_backend wall env)"
  by (intro ext) (simp add: mem_backend_def CopyObject_def)

end
