(* ===== verification/MemFacts.thy ===== *)
theory MemFacts
  imports MemListing
begin

text \<open>
  Facts about the in-memory back end as a whole: its invariant, kept by every operation and hence
  true in every reachable state, and the abstract state of a key under each operation.
\<close>

section \<open>The invariant and the reachable states\<close>

definition mem_ok ::
    "('om, 'oi, 'vm, 'vi) s3mem_env \<Rightarrow> ('vm \<Rightarrow> (string \<times> bucketData) list) \<Rightarrow> 'om s3mem \<Rightarrow> bool" where
  "mem_ok env ventries db \<longleftrightarrow>
     source_ok (db_versionSource db) \<and> distinct (map fst (db_buckets db)) \<and>
     (\<forall>name b. mem_bucket db name = Some b \<longrightarrow>
        bk_name b = name \<and> bucket_ok env ventries (source_count (db_versionSource db)) b)"

text \<open>One operation that changes the state, or the passing of time between two operations.\<close>

inductive mem_step :: "('om, 'oi, 'vm, 'vi) s3mem_env \<Rightarrow> 'om s3mem \<Rightarrow> 'om s3mem \<Rightarrow> bool"
  for env where
  step_tick: "mem_step env db (db\<lparr>db_now := t\<rparr>)"
| step_create: "mem_step env db (snd (mem_CreateBucket env name db))"
| step_delete_bucket: "mem_step env db (snd (mem_DeleteBucket env name db))"
| step_force_delete: "mem_step env db (snd (mem_ForceDeleteBucket name db))"
| step_put: "mem_step env db (snd (mem_PutObject env bucket name meta input sz db))"
| step_delete: "mem_step env db (snd (mem_DeleteObject env bucket name db))"
| step_delete_multi: "mem_step env db (snd (mem_DeleteMulti env bucket names db))"
| step_delete_version: "mem_step env db (snd (mem_DeleteObjectVersion env bucket name vid db))"
| step_delete_versions: "mem_step env db (snd (mem_DeleteMultiVersions env bucket ids db))"
| step_versioning: "mem_step env db (snd (mem_SetVersioningConfiguration bucket v db))"

inductive mem_reachable :: "('om, 'oi, 'vm, 'vi) s3mem_env \<Rightarrow> 'om s3mem \<Rightarrow> bool"
  for env where
  reach_new: "mem_reachable env (mem_New now seed)"
| reach_step: "mem_reachable env db \<Longrightarrow> mem_step env db db' \<Longrightarrow> mem_reachable env db'"

inductive_cases mem_stepE: "mem_step env db db'"

definition mem_count :: "'om s3mem \<Rightarrow> nat" where
  "mem_count db = source_count (db_versionSource db)"

text \<open>The abstract state: what a bucket holds under a key; None for a bucket that does not exist.\<close>

definition mem_key ::
    "('om, 'oi, 'vm, 'vi) s3mem_env \<Rightarrow> ('vm \<Rightarrow> (string \<times> bucketData) list) \<Rightarrow> 'om s3mem \<Rightarrow>
     string \<Rightarrow> string \<Rightarrow> (bucketData list \<times> bucketData option) option" where
  "mem_key env ventries db bucket key =
     map_option (\<lambda>b. key_state env ventries b key) (mem_bucket db bucket)"

section \<open>Frame lemmas\<close>

lemma mem_bucket_set [simp]:
  "mem_bucket (mem_set_bucket db name b) name' = (if name' = name then Some b else mem_bucket db name')"
  by (simp add: mem_bucket_def mem_set_bucket_def)

lemma mem_bucket_source [simp]:
  "mem_bucket (db\<lparr>db_versionSource := src\<rparr>) name = mem_bucket db name"
  "mem_bucket (db\<lparr>db_now := t\<rparr>) name = mem_bucket db name"
  by (simp_all add: mem_bucket_def)

lemma mem_bucket_deleted [simp]:
  "mem_bucket (db\<lparr>db_buckets := AList.delete n (db_buckets db)\<rparr>) name =
     (if name = n then None else mem_bucket db name)"
  by (simp add: mem_bucket_def)

lemma mem_set_bucket_frame [simp]:
  "db_versionSource (mem_set_bucket db name b) = db_versionSource db"
  "db_now (mem_set_bucket db name b) = db_now db"
  "distinct (map fst (db_buckets db)) \<Longrightarrow>
     distinct (map fst (db_buckets (mem_set_bucket db name b)))"
  by (simp_all add: mem_set_bucket_def distinct_update)

lemma rm_all_count:
  "rm_all env now names b src del = (del', b', src') \<Longrightarrow> source_count src \<le> source_count src'"
proof (induction names arbitrary: b src del)
  case (Cons n names)
  obtain r b1 src1 where 1: "bucket_rm env b n now src = (r, b1, src1)" by (metis prod_cases3)
  with Cons rm_count [OF 1] show ?case by fastforce
qed simp

lemma rm_all_versions_count:
  "rm_all_versions env now ids b src del = (del', b', src') \<Longrightarrow>
   source_count src \<le> source_count src'"
proof (induction ids arbitrary: b src del)
  case (Cons n ids)
  obtain r b1 src1 where 1: "bucket_rm env b (oid_Key n) now src = (r, b1, src1)"
    by (metis prod_cases3)
  obtain r2 b2 where 2: "bucket_rmVersion env b (oid_Key n) (oid_VersionID n) now = (r2, b2)"
    by (metis surj_pair)
  from Cons.prems 1 2 Cons.IH [of b1 src1] Cons.IH [of b2 src] rm_count [OF 1] show ?case
    by (auto split: if_splits intro: order_trans)
qed simp

lemma mem_okI_update:
  assumes "mem_ok env ve db" "mem_bucket db name = Some b" "bk_name b' = bk_name b"
    and "bucket_ok env ve (source_count src') b'" "source_ok src'"
    and "mem_count db \<le> source_count src'"
  shows "mem_ok env ve ((mem_set_bucket db name b')\<lparr>db_versionSource := src'\<rparr>)"
proof -
  have "bucket_ok env ve (source_count src') c" if "mem_bucket db n = Some c" for n c
    using assms(1,6) that bucket_ok_mono unfolding mem_ok_def mem_count_def by blast
  then show ?thesis
    using assms by (simp add: mem_ok_def)
qed

lemma mem_okD:
  assumes "mem_ok env ve db"
  shows "source_ok (db_versionSource db)" "distinct (map fst (db_buckets db))"
    and "mem_bucket db name = Some b \<Longrightarrow> bk_name b = name"
    and "mem_bucket db name = Some b \<Longrightarrow> bucket_ok env ve (mem_count db) b"
  using assms by (auto simp: mem_ok_def mem_count_def)

lemma mem_PutObject_cases:
  obtains (kept) "snd (mem_PutObject env bucket name meta input sz db) = db"
  | (stored) b item item' b' src' where "mem_bucket db bucket = Some b" "bd_name item = name"
      "bucket_put env b name item (db_versionSource db) = (item', b', src')"
      "snd (mem_PutObject env bucket name meta input sz db) =
         (mem_set_bucket db bucket b')\<lparr>db_versionSource := src'\<rparr>"
proof -
  have get: "snd (mem_GetObject env bucket name None db) = db"
    by (simp add: mem_GetObject_def split: option.splits)
  have merge: "snd (MergeMetadata (mem_GetObject env bucket name None) meta db) = db"
    using get by (auto simp: MergeMetadata_def split: prod.splits res.splits)
  show thesis
  proof (cases "snd (mem_PutObject env bucket name meta input sz db) = db")
    case True
    then show ?thesis by (rule kept)
  next
    case False
    then obtain bts meta' where st: "mem_PutObject env bucket name meta input sz db =
        mem_store env bucket name meta' bts db"
      using merge by (cases "ReadAll input sz")
        (auto simp: mem_PutObject_def act_defs split: prod.splits res.splits)
    with False obtain b where "mem_bucket db bucket = Some b"
      by (auto simp: mem_store_def split: option.splits)
    with st show ?thesis
      by (auto simp: mem_store_def Let_def split: prod.splits intro!: stored)
  qed
qed

lemma put_count_le: "mem_count (snd (mem_PutObject menv b k m i sz db)) \<le> mem_count db + 1"
  by (cases rule: mem_PutObject_cases [of menv b k m i sz db]) (auto simp: mem_count_def dest: put_count)

context s3mem_laws
begin

section \<open>Every operation keeps the invariant\<close>

lemma rm_all_ok:
  assumes "rm_all env now names b src del = (del', b', src')"
    and "bucket_ok env ventries (source_count src) b" "source_ok src" "source_count src' < 10 ^ 30"
  shows "bucket_ok env ventries (source_count src') b' \<and> source_ok src' \<and> bk_name b' = bk_name b"
  using assms
proof (induction names arbitrary: b src del)
  case (Cons n names)
  obtain r b1 src1 where 1: "bucket_rm env b n now src = (r, b1, src1)" by (metis prod_cases3)
  with Cons.prems(1) have rest: "rm_all env now names b1 src1
      (del @ [\<lparr>oid_Key = n, oid_VersionID = ''''\<rparr>]) = (del', b', src')" by simp
  have "source_count src1 < 10 ^ 30" using rm_all_count [OF rest] Cons.prems(4) by simp
  from bucket_ok_rm [OF Cons.prems(2,3) this 1] rm_frame [OF 1] rm_source [OF Cons.prems(3) this 1]
    Cons.IH [OF rest] Cons.prems(4)
  show ?case by simp
qed simp

lemma rm_all_versions_ok:
  assumes "rm_all_versions env now ids b src del = (del', b', src')"
    and "bucket_ok env ventries (source_count src) b" "source_ok src" "source_count src' < 10 ^ 30"
  shows "bucket_ok env ventries (source_count src') b' \<and> source_ok src' \<and> bk_name b' = bk_name b"
  using assms
proof (induction ids arbitrary: b src del)
  case (Cons n ids)
  show ?case
  proof (cases "oid_VersionID n = ''''")
    case True
    obtain r b1 src1 where 1: "bucket_rm env b (oid_Key n) now src = (r, b1, src1)"
      by (metis prod_cases3)
    with Cons.prems(1) True
    have rest: "rm_all_versions env now ids b1 src1 (del @ [n]) = (del', b', src')" by simp
    have "source_count src1 < 10 ^ 30" using rm_all_versions_count [OF rest] Cons.prems(4) by simp
    from bucket_ok_rm [OF Cons.prems(2,3) this 1] rm_frame [OF 1] rm_source [OF Cons.prems(3) this 1]
      Cons.IH [OF rest] Cons.prems(4)
    show ?thesis by simp
  next
    case False
    obtain r b1 where 1: "bucket_rmVersion env b (oid_Key n) (oid_VersionID n) now = (r, b1)"
      by (metis surj_pair)
    with Cons.prems(1) False
    have rest: "rm_all_versions env now ids b1 src (del @ [n]) = (del', b', src')" by simp
    from bucket_ok_rmVersion [OF Cons.prems(2) 1] rmVersion_frame [OF 1]
      Cons.IH [OF rest] Cons.prems(3,4)
    show ?thesis by simp
  qed
qed simp

lemma mem_step_count: "mem_step env db db' \<Longrightarrow> mem_count db \<le> mem_count db'"
proof (induction rule: mem_step.induct)
  case (step_put db bucket name meta input sz)
  show ?case by (cases rule: mem_PutObject_cases [of env bucket name meta input sz db])
      (auto simp: mem_count_def dest: put_count)
qed (auto simp: mem_count_def mem_CreateBucket_def mem_DeleteBucket_def mem_ForceDeleteBucket_def
      mem_DeleteObject_def mem_DeleteMulti_def mem_DeleteObjectVersion_def
      mem_DeleteMultiVersions_def mem_SetVersioningConfiguration_def
      split: option.splits prod.splits dest: rm_count rm_all_count rm_all_versions_count)

lemma mem_ok_put:
  assumes "mem_ok env ventries db" "mem_bucket db bucket = Some b" "bd_name item = name"
    and "bucket_put env b name item (db_versionSource db) = (item', b', src')"
    and "source_count src' < 10 ^ 30"
  shows "mem_ok env ventries ((mem_set_bucket db bucket b')\<lparr>db_versionSource := src'\<rparr>)"
proof -
  note ok = mem_okD [OF assms(1)]
  have c: "source_count (db_versionSource db) + 1 < 10 ^ 30"
    using put_count [OF assms(4)] assms(5) by simp
  show ?thesis
  proof (rule mem_okI_update [OF assms(1,2)])
    show "bucket_ok env ventries (source_count src') b'"
      using bucket_ok_put [OF _ ok(1) c assms(3,4)] ok(4) [OF assms(2)] by (simp add: mem_count_def)
    show "source_ok src'" using nextVersion_step(1) [OF ok(1) c put_eq(1) [OF assms(4)]] .
    show "mem_count db \<le> source_count src'" using put_count [OF assms(4)] by (simp add: mem_count_def)
  qed (rule put_frame(2) [OF assms(4)])
qed

lemma mem_ok_same_source:
  assumes "mem_ok env ventries db" "mem_bucket db bucket = Some b" "bk_name b' = bk_name b"
    and "bucket_ok env ventries (mem_count db) b'"
  shows "mem_ok env ventries (mem_set_bucket db bucket b')"
  using mem_okI_update [OF assms(1-3), of "db_versionSource db"] assms(4) mem_okD(1) [OF assms(1)]
  by (simp add: mem_count_def mem_set_bucket_def)

lemma mem_ok_delete:
  "mem_ok env ventries db \<Longrightarrow> mem_ok env ventries (db\<lparr>db_buckets := AList.delete n (db_buckets db)\<rparr>)"
  by (auto simp: mem_ok_def distinct_delete)

lemma mem_ok_step:
  assumes "mem_step env db db'" "mem_ok env ventries db" "mem_count db' < 10 ^ 30"
  shows "mem_ok env ventries db'"
  using assms
proof (cases rule: mem_step.cases)
  case (step_tick t)
  then show ?thesis using assms(2) by (simp add: mem_ok_def)
next
  case (step_create name)
  then show ?thesis using assms(2)
    using bucket_ok_new [of _ name "db_now db"]
    by (auto simp: mem_CreateBucket_def mem_ok_def split: option.splits) (simp add: newBucket_def)
next
  case (step_delete_bucket name)
  then show ?thesis using assms(2) mem_ok_delete by (simp add: mem_DeleteBucket_def split: option.splits)
next
  case (step_force_delete name)
  then show ?thesis using assms(2) mem_ok_delete
    by (simp add: mem_ForceDeleteBucket_def split: option.splits)
next
  case (step_put bucket name meta input sz)
  then show ?thesis using assms(2,3) mem_ok_put
    by (cases rule: mem_PutObject_cases [of env bucket name meta input sz db])
      (auto simp: mem_count_def)
next
  case (step_delete bucket name)
  show ?thesis
  proof (cases "mem_bucket db bucket")
    case None
    then show ?thesis using step_delete assms(2) by (simp add: mem_DeleteObject_def)
  next
    case (Some b)
    obtain r b' src' where r: "bucket_rm env b name (db_now db) (db_versionSource db) = (r, b', src')"
      by (metis prod_cases3)
    with Some step_delete have db': "db' = (mem_set_bucket db bucket b')\<lparr>db_versionSource := src'\<rparr>"
      by (simp add: mem_DeleteObject_def)
    then have c: "source_count src' < 10 ^ 30" using assms(3) by (simp add: mem_count_def)
    note ok = mem_okD [OF assms(2)]
    show ?thesis unfolding db'
      using mem_okI_update [OF assms(2) Some rm_frame(1) [OF r] _ rm_source [OF ok(1) c r]]
        bucket_ok_rm [OF _ ok(1) c r] ok(4) [OF Some] rm_count [OF r]
      by (simp add: mem_count_def)
  qed
next
  case (step_delete_multi bucket names)
  show ?thesis
  proof (cases "mem_bucket db bucket")
    case None
    then show ?thesis using step_delete_multi assms(2) by (simp add: mem_DeleteMulti_def)
  next
    case (Some b)
    obtain d b' src' where r: "rm_all env (db_now db) names b (db_versionSource db) [] = (d, b', src')"
      by (metis prod_cases3)
    with Some step_delete_multi
    have db': "db' = (mem_set_bucket db bucket b')\<lparr>db_versionSource := src'\<rparr>"
      by (simp add: mem_DeleteMulti_def)
    then have c: "source_count src' < 10 ^ 30" using assms(3) by (simp add: mem_count_def)
    note ok = mem_okD [OF assms(2)]
    show ?thesis unfolding db'
      using mem_okI_update [OF assms(2) Some] rm_all_ok [OF r _ ok(1) c] ok(4) [OF Some]
        rm_all_count [OF r] by (simp add: mem_count_def)
  qed
next
  case (step_delete_version bucket name vid)
  show ?thesis
  proof (cases "mem_bucket db bucket")
    case None
    then show ?thesis using step_delete_version assms(2) by (simp add: mem_DeleteObjectVersion_def)
  next
    case (Some b)
    obtain r b' where r: "bucket_rmVersion env b name vid (db_now db) = (r, b')" by (metis surj_pair)
    note ok = mem_okD [OF assms(2)]
    show ?thesis using Some r step_delete_version
        mem_ok_same_source [OF assms(2) Some rmVersion_frame(1) [OF r]]
        bucket_ok_rmVersion [OF ok(4) [OF Some] r]
      by (simp add: mem_DeleteObjectVersion_def)
  qed
next
  case (step_delete_versions bucket ids)
  show ?thesis
  proof (cases "mem_bucket db bucket")
    case None
    then show ?thesis using step_delete_versions assms(2) by (simp add: mem_DeleteMultiVersions_def)
  next
    case (Some b)
    obtain d b' src' where
      r: "rm_all_versions env (db_now db) ids b (db_versionSource db) [] = (d, b', src')"
      by (metis prod_cases3)
    with Some step_delete_versions
    have db': "db' = (mem_set_bucket db bucket b')\<lparr>db_versionSource := src'\<rparr>"
      by (simp add: mem_DeleteMultiVersions_def)
    then have c: "source_count src' < 10 ^ 30" using assms(3) by (simp add: mem_count_def)
    note ok = mem_okD [OF assms(2)]
    show ?thesis unfolding db'
      using mem_okI_update [OF assms(2) Some] rm_all_versions_ok [OF r _ ok(1) c] ok(4) [OF Some]
        rm_all_versions_count [OF r] by (simp add: mem_count_def)
  qed
next
  case (step_versioning bucket v)
  then show ?thesis using assms(2) mem_okD(4) [OF assms(2), of bucket]
    by (auto simp: mem_SetVersioningConfiguration_def split: option.splits
        intro!: mem_ok_same_source bucket_ok_setVersioning)
qed

text \<open>The invariant holds in every reachable state, as long as the generator stays below its bound.\<close>

lemma mem_reachable_ok:
  "mem_reachable env db \<Longrightarrow> mem_count db < 10 ^ 30 \<Longrightarrow> mem_ok env ventries db"
proof (induction rule: mem_reachable.induct)
  case (reach_new now seed)
  show ?case
    by (simp add: mem_ok_def mem_New_def mem_bucket_def source_ok_def scratch_ok_def
        newVersionGenerator_def)
next
  case (reach_step db db')
  then show ?case using mem_ok_step mem_step_count by fastforce
qed

end

end
