(* ===== verification/MemListFacts.thy ===== *)
theory MemListFacts
  imports MemFacts
begin

text \<open>
  What the listings of the in-memory back end contain. \<open>ListBucket\<close> is first reduced to the fold of
  its loop body over the sorted entries behind the marker; then the fold is computed: without a
  delimiter it selects the visible keys page by page, with one it also rolls keys up.
\<close>

definition after_marker :: "string \<Rightarrow> (string \<times> 'v) list \<Rightarrow> (string \<times> 'v) list" where
  "after_marker marker es = (if marker = '''' then es else filter (\<lambda>e. marker < fst e) es)"

lemma drop_before_key:
  fixes es :: "(string \<times> 'v) list"
  assumes "sorted_wrt (<) (map fst es)"
  shows "drop (before_key k es) es = filter (\<lambda>e. k \<le> fst e) es"
  using assms
proof (induction es)
  case (Cons e es)
  show ?case
  proof (cases "fst e < k")
    case True
    then show ?thesis using Cons by (simp add: before_key_def)
  next
    case False
    with Cons.prems have "\<forall>x \<in> set es. k \<le> fst x" by force
    with False show ?thesis by (simp add: before_key_def)
  qed
qed (simp add: before_key_def)

lemma filter_after_le:
  fixes es :: "(string \<times> 'v) list"
  assumes "sorted_wrt (<) (map fst es)"
  shows "filter (\<lambda>e. k < fst e) es =
    (case filter (\<lambda>e. k \<le> fst e) es of
       [] \<Rightarrow> [] | x # xs \<Rightarrow> if fst x = k then xs else x # xs)"
  using assms
proof (induction es)
  case (Cons e es)
  consider "fst e < k" | "fst e = k" | "k < fst e" by (cases "fst e" k rule: linorder_cases) auto
  then show ?case
  proof cases
    case 1
    then have "\<not> k \<le> fst e" "\<not> k < fst e" by (auto simp: not_le)
    with Cons show ?thesis by simp
  next
    case 2
    with Cons.prems have gt: "\<forall>x \<in> set es. k < fst x" by auto
    have "filter (\<lambda>e. k < fst e) es = es" "filter (\<lambda>e. k \<le> fst e) es = es"
      by (rule filter_True, use gt in force)+
    with 2 show ?thesis by simp
  next
    case 3
    with Cons.prems have gt: "\<forall>x \<in> set es. k < fst x" by force
    have "filter (\<lambda>e. k < fst e) es = es" "filter (\<lambda>e. k \<le> fst e) es = es"
      by (rule filter_True, use gt in force)+
    with 3 show ?thesis by (simp add: less_imp_le order.strict_implies_not_eq [symmetric])
  qed
qed simp

text \<open>The page is full only when the loop was left by \<open>break\<close>.\<close>

lemma lb_item_full:
  assumes "lb_item p k d st = Continue (Ok (r, c, l, full))" "\<not> snd (snd (snd st))"
  shows "\<not> full"
  using assms
  by (auto simp: lb_item_def lb_count_def Let_def split: option.splits if_splits prod.splits)

lemma lb_not_full:
  assumes "list_range (lb_body p k) (Ok (r, c, l, False)) es = (Ok (r', c', l', full), rest, False)"
  shows "\<not> full"
  using assms
proof (induction es arbitrary: r c l)
  case (Cons e es)
  then obtain d where d: "bo_data (snd e) = Some d"
    by (cases "bo_data (snd e)") (auto simp: lb_body_def)
  show ?case
  proof (cases "lb_item p k d (r, c, l, False)")
    case (Continue st)
    show ?thesis
    proof (cases st)
      case (Ok s)
      obtain r1 c1 l1 f1 where s: "s = (r1, c1, l1, f1)" by (metis prod_cases4)
      have "\<not> f1" using lb_item_full [of p k d] Continue Ok s by fastforce
      then show ?thesis using Cons d Continue Ok s by (simp add: lb_body_def)
    qed (use Continue in \<open>auto simp: lb_item_def lb_count_def Let_def
        split: option.splits if_splits\<close>)
  next
    case (Break st)
    then show ?thesis using Cons.prems d by (simp add: lb_body_def)
  qed
qed simp

section \<open>The fold without a delimiter\<close>

definition entry_data :: "string \<times> 'vm bucketObject \<Rightarrow> bucketData" where
  "entry_data e = the (bo_data (snd e))"

definition visible :: "Prefix \<Rightarrow> bucketData \<Rightarrow> bool" where
  "visible p d \<longleftrightarrow> \<not> bd_deleteMarker d \<and> prefix_Match p (bd_name d) \<noteq> None"

text \<open>Everything a listing without pages would show, in key order.\<close>

definition listing ::
    "Prefix \<Rightarrow> (string \<times> 'vm bucketObject) list \<Rightarrow> Content list" where
  "listing p es = map content_of (filter (visible p) (map entry_data es))"

lemma listing_simps [simp]:
  "listing p [] = []"
  "listing p (e # es) =
     (if visible p (entry_data e) then [content_of (entry_data e)] else []) @ listing p es"
  "listing p (es @ fs) = listing p es @ listing p fs"
  by (simp_all add: listing_def)

lemma lb_body_data:
  "bo_data (snd e) \<noteq> None \<Longrightarrow> lb_body p k e (Ok s) = lb_item p k (entry_data e) s"
  by (auto simp: lb_body_def entry_data_def)

lemma lb_item_flat:
  assumes "\<not> HasDelimiter p"
  shows "lb_item p k d (r, c, l, full) =
    (if visible p d then lb_count k (bd_name d) (ol_Add r (content_of d)) c l
     else Continue (Ok (r, c, l, full)))"
  using assms prefix_Match_no_delim_flat [OF assms]
  by (auto simp: lb_item_def visible_def split: option.splits)

lemma flat_fold_unlimited:
  assumes "\<not> HasDelimiter p" "k \<le> 0" "\<forall>e \<in> set es. bo_data (snd e) \<noteq> None"
  shows "\<exists>c'. list_range (lb_body p k) (Ok (r, c, l, False)) es =
    (Ok (r\<lparr>ol_Contents := ol_Contents r @ listing p es\<rparr>, c', l, False), [], False)"
  using assms(3)
proof (induction es arbitrary: r c)
  case (Cons e es)
  from Cons.prems Cons.IH [of r c]
    Cons.IH [of "ol_Add r (content_of (entry_data e))" "i64 (c + 1)"] assms(1,2)
  show ?case by (simp add: lb_body_data lb_item_flat lb_count_def ol_Add_def)
qed simp

lemma flat_fold_page:
  assumes "\<not> HasDelimiter p" "k \<le> max_int64" "\<forall>e \<in> set es. bo_data (snd e) \<noteq> None"
    and "0 \<le> c" "c < k"
  shows "if int (length (listing p es)) < k - c
    then list_range (lb_body p k) (Ok (r, c, l, False)) es =
      (Ok (r\<lparr>ol_Contents := ol_Contents r @ listing p es\<rparr>, c + int (length (listing p es)), l, False),
       [], False)
    else \<exists>pre e rest. es = pre @ e # rest \<and> visible p (entry_data e) \<and>
      int (length (listing p (pre @ [e]))) = k - c \<and>
      list_range (lb_body p k) (Ok (r, c, l, False)) es =
        (Ok (r\<lparr>ol_Contents := ol_Contents r @ listing p (pre @ [e]),
               ol_NextMarker := bd_name (entry_data e)\<rparr>, k, l, True), rest, True)"
  using assms(3-5)
proof (induction es arbitrary: r c)
  case (Cons e es)
  have i: "i64 (c + 1) = c + 1"
    using Cons.prems(2,3) assms(2) by (simp add: is_i64_def min_int64_def)
  show ?case
  proof (cases "visible p (entry_data e)")
    case vis: True
    show ?thesis
    proof (cases "c + 1 = k")
      case True
      have "list_range (lb_body p k) (Ok (r, c, l, False)) (e # es) =
        (Ok (r\<lparr>ol_Contents := ol_Contents r @ listing p ([] @ [e]),
               ol_NextMarker := bd_name (entry_data e)\<rparr>, k, l, True), es, True)"
        using Cons.prems vis True i assms(1)
        by (simp add: lb_body_data lb_item_flat lb_count_def ol_Add_def)
      moreover have "int (length (listing p ([] @ [e]))) = k - c" using vis True by simp
      ultimately show ?thesis using vis True by (auto intro!: exI [of _ "[]"])
    next
      case False
      let ?r = "ol_Add r (content_of (entry_data e))"
      have step: "list_range (lb_body p k) (Ok (r, c, l, False)) (e # es) =
          list_range (lb_body p k) (Ok (?r, c + 1, l, False)) es"
        using Cons.prems vis False i assms(1)
        by (simp add: lb_body_data lb_item_flat lb_count_def)
      have r: "ol_Contents ?r @ xs = ol_Contents r @ content_of (entry_data e) # xs"
        "?r\<lparr>ol_Contents := xs, ol_NextMarker := y\<rparr> = r\<lparr>ol_Contents := xs, ol_NextMarker := y\<rparr>"
        "?r\<lparr>ol_Contents := xs\<rparr> = r\<lparr>ol_Contents := xs\<rparr>" for xs y
        by (simp_all add: ol_Add_def)
      have c1: "0 \<le> c + 1" "c + 1 < k" using Cons.prems False by simp_all
      note IH = Cons.IH [of "c + 1" ?r, OF _ c1] 
      show ?thesis
      proof (cases "int (length (listing p es)) < k - (c + 1)")
        case True
        then show ?thesis using IH Cons.prems(1) vis unfolding step r by simp
      next
        case False
        then obtain pre x rest where "es = pre @ x # rest" "visible p (entry_data x)"
          "int (length (listing p (pre @ [x]))) = k - (c + 1)"
          "list_range (lb_body p k) (Ok (?r, c + 1, l, False)) es =
            (Ok (?r\<lparr>ol_Contents := ol_Contents ?r @ listing p (pre @ [x]),
                    ol_NextMarker := bd_name (entry_data x)\<rparr>, k, l, True), rest, True)"
          using IH Cons.prems(1) by auto
        moreover have "\<not> int (length (listing p (e # es))) < k - c" using False vis by simp
        ultimately show ?thesis using vis unfolding step r
          by (intro if_not_P [THEN iffD2] exI [of _ "e # pre"] exI [of _ x] exI [of _ rest]) simp_all
      qed
    qed
  next
    case inv: False
    have step: "list_range (lb_body p k) (Ok (r, c, l, False)) (e # es) =
        list_range (lb_body p k) (Ok (r, c, l, False)) es"
      using Cons.prems inv assms(1) by (simp add: lb_body_data lb_item_flat)
    note IH = Cons.IH [of c r, OF _ Cons.prems(2,3)]
    show ?thesis
    proof (cases "int (length (listing p es)) < k - c")
      case True
      then show ?thesis using IH Cons.prems(1) inv unfolding step by simp
    next
      case False
      then obtain pre x rest where "es = pre @ x # rest" "visible p (entry_data x)"
        "int (length (listing p (pre @ [x]))) = k - c"
        "list_range (lb_body p k) (Ok (r, c, l, False)) es =
          (Ok (r\<lparr>ol_Contents := ol_Contents r @ listing p (pre @ [x]),
                  ol_NextMarker := bd_name (entry_data x)\<rparr>, k, l, True), rest, True)"
        using IH Cons.prems(1) by auto
      moreover have "\<not> int (length (listing p (e # es))) < k - c" using False inv by simp
      ultimately show ?thesis using inv unfolding step
        by (intro if_not_P [THEN iffD2] exI [of _ "e # pre"] exI [of _ x] exI [of _ rest]) simp_all
    qed
  qed
qed simp

section \<open>The fold with a delimiter\<close>

text \<open>
  For a one-character delimiter, keys and prefix not starting with it: the roll-up of each key
  that is not deleted, and whether the key is listed itself.
\<close>

definition rolled :: "char \<Rightarrow> string \<Rightarrow> bucketData \<Rightarrow> string option" where
  "rolled c pre d = (if bd_deleteMarker d then None else s3_rollup c pre (bd_name d))"

definition no_lead :: "char \<Rightarrow> string \<Rightarrow> bool" where
  "no_lead c s \<longleftrightarrow> s = [] \<or> hd s \<noteq> c"

lemma rolled_nonempty: "rolled c pre d = Some part \<Longrightarrow> part \<noteq> bd_name d \<Longrightarrow> part \<noteq> []"
  by (cases "bd_name d")
    (auto simp: rolled_def s3_rollup_def Let_def has_prefix_iff takeWhile_eq_Nil_iff
      split: if_splits dest: arg_cong [where f = set] arg_cong [where f = hd] sym)

lemma lb_item_rolled:
  assumes "HasDelimiter p" "pfx_Delimiter p = [c]" "no_lead c (pfx_Prefix p)" "no_lead c (bd_name d)"
  shows "lb_item p k d (r, n, l, full) =
    (case rolled c (pfx_Prefix p) d of
       None \<Rightarrow> Continue (Ok (r, n, l, full))
     | Some part \<Rightarrow>
         if part \<noteq> bd_name d then
           (if part = l then Continue (Ok (r, n, l, full))
            else lb_count k (bd_name d) (ol_AddPrefix r part) n part)
         else lb_count k (bd_name d) (ol_Add r (content_of d)) n l)"
  using prefix_Match_s3 [OF assms(1,2)] assms(3,4)
  by (auto simp: lb_item_def rolled_def no_lead_def split: option.splits)

definition plain_entries :: "char \<Rightarrow> string \<Rightarrow> (string \<times> 'vm bucketObject) list \<Rightarrow> Content list" where
  "plain_entries c pre es =
     map content_of (filter (\<lambda>d. rolled c pre d = Some (bd_name d)) (map entry_data es))"

definition common_parts :: "char \<Rightarrow> string \<Rightarrow> (string \<times> 'vm bucketObject) list \<Rightarrow> string set" where
  "common_parts c pre es =
     {part. \<exists>e \<in> set es. rolled c pre (entry_data e) = Some part \<and> part \<noteq> bd_name (entry_data e)}"

lemma set_AddPrefix:
  "prefixes_ok (ol_prefixes r) (ol_CommonPrefixes r) \<Longrightarrow>
   set (ol_CommonPrefixes (ol_AddPrefix r part)) = insert part (set (ol_CommonPrefixes r))"
  by (auto simp: ol_AddPrefix_def prefixes_ok_def)

lemma ol_Add_frame [simp]:
  "ol_prefixes (ol_Add r x) = ol_prefixes r" "ol_CommonPrefixes (ol_Add r x) = ol_CommonPrefixes r"
  "ol_IsTruncated (ol_Add r x) = ol_IsTruncated r"
  "ol_IsTruncated (ol_AddPrefix r part) = ol_IsTruncated r"
  by (simp_all add: ol_Add_def ol_AddPrefix_def)

lemma rolled_fold_unlimited:
  assumes "HasDelimiter p" "pfx_Delimiter p = [c]" "no_lead c (pfx_Prefix p)" "k \<le> 0"
    and "\<forall>e \<in> set es. bo_data (snd e) \<noteq> None \<and> no_lead c (bd_name (entry_data e))"
    and "prefixes_ok (ol_prefixes r) (ol_CommonPrefixes r)"
    and "l = '''' \<or> l \<in> set (ol_CommonPrefixes r)"
  shows "\<exists>r' n' l'. list_range (lb_body p k) (Ok (r, n, l, False)) es =
      (Ok (r', n', l', False), [], False) \<and>
    ol_Contents r' = ol_Contents r @ plain_entries c (pfx_Prefix p) es \<and>
    prefixes_ok (ol_prefixes r') (ol_CommonPrefixes r') \<and>
    set (ol_CommonPrefixes r') = set (ol_CommonPrefixes r) \<union> common_parts c (pfx_Prefix p) es \<and>
    ol_IsTruncated r' = ol_IsTruncated r"
  using assms(5-7)
proof (induction es arbitrary: r n l)
  case Nil
  then show ?case by (simp add: plain_entries_def common_parts_def)
next
  case (Cons e es)
  let ?d = "entry_data e" and ?pre = "pfx_Prefix p"
  have item: "lb_body p k e (Ok (r, n, l, False)) = lb_item p k ?d (r, n, l, False)"
    using Cons.prems(1) by (intro lb_body_data) simp
  note rolled = lb_item_rolled [OF assms(1-3), of ?d k r n l False]
  have parts: "common_parts c ?pre (e # es) =
      (case rolled c ?pre ?d of
         Some part \<Rightarrow> if part \<noteq> bd_name ?d then {part} else {} | None \<Rightarrow> {}) \<union> common_parts c ?pre es"
    by (auto simp: common_parts_def split: option.splits)
  show ?case
  proof (cases "rolled c ?pre ?d")
    case None
    then show ?thesis using Cons.IH [of r l n] Cons.prems item rolled parts
      by (simp add: plain_entries_def)
  next
    case (Some part)
    consider (same) "part \<noteq> bd_name ?d" "part = l" | (new) "part \<noteq> bd_name ?d" "part \<noteq> l"
      | (key) "part = bd_name ?d" by blast
    then show ?thesis
    proof cases
      case same
      then have "l \<in> set (ol_CommonPrefixes r)" using Cons.prems(3) rolled_nonempty [OF Some] by auto
      then show ?thesis using same Some Cons.IH [of r l n] Cons.prems item rolled parts
        by (simp add: plain_entries_def insert_absorb)
    next
      case new
      let ?r = "ol_AddPrefix r part"
      have "prefixes_ok (ol_prefixes ?r) (ol_CommonPrefixes ?r)" "part \<in> set (ol_CommonPrefixes ?r)"
        using Cons.prems(2) by (simp_all add: ol_AddPrefix_ok set_AddPrefix)
      then show ?thesis
        using new Some Cons.IH [of ?r part "i64 (n + 1)"] Cons.prems item rolled parts assms(4)
        by (simp add: plain_entries_def lb_count_def set_AddPrefix)
    next
      case key
      then show ?thesis
        using Some Cons.IH [of "ol_Add r (content_of ?d)" l "i64 (n + 1)"] Cons.prems item rolled parts
          assms(4)
        by (simp add: plain_entries_def lb_count_def) (simp add: ol_Add_def)
    qed
  qed
qed

context s3mem_laws
begin

lemma lb_start_yields:
  "\<exists>e. yields (gs_step (env_osl env)) (lb_start env objects marker)
         (after_marker marker (oentries objects)) e"
  "osl.gs_valid (lb_start env objects marker)"
proof -
  let ?sl = "env_osl env" and ?es = "oentries objects"
  let ?g = "gs_New (sl_iterator ?sl objects)"
  let ?s = "snd (gs_Seek ?sl ?g marker)"
  have v: "oview (gs_inner ?g) = (?es, 0)" by (simp add: gs_New_def osl.view_iterator)
  have sorted: "sorted_wrt (<) (map fst ?es)" by (rule osl.entries_sorted)
  have start: "lb_start env objects marker =
      (if marker = '''' then ?g
       else if gs_Key ?sl ?s = Some marker then snd (gs_Next ?sl ?s) else ?s)"
    by (simp add: lb_start_def Let_def split_beta)
  show "osl.gs_valid (lb_start env objects marker)"
    unfolding start
    using osl.gs_valid_new osl.gs_valid_Seek [OF osl.gs_valid_new]
      osl.gs_valid_Next [OF osl.gs_valid_Seek [OF osl.gs_valid_new]] by simp
  show "\<exists>e. yields (gs_step ?sl) (lb_start env objects marker) (after_marker marker ?es) e"
  proof (cases "marker = ''''")
    case True
    then show ?thesis using osl.gs_yields_new [of objects]
      unfolding start by (simp add: after_marker_def) blast
  next
    case nonempty: False
    let ?j = "before_key marker ?es"
    have after: "after_marker marker ?es =
        (case drop ?j ?es of [] \<Rightarrow> [] | x # xs \<Rightarrow> if fst x = marker then xs else x # xs)"
      using nonempty filter_after_le [OF sorted] drop_before_key [OF sorted]
      by (simp add: after_marker_def)
    show ?thesis
    proof (cases "?j < length ?es")
      case True
      then have drop: "drop ?j ?es = ?es ! ?j # drop (Suc ?j) ?es" by (simp add: Cons_nth_drop_Suc)
      note sv = osl.gs_Seek_view [OF v True]
      have key: "gs_Key ?sl ?s = Some (fst (?es ! ?j))"
        using osl.view_entry [OF sv(4)] True by (simp add: gs_Key_def)
      show ?thesis
      proof (cases "fst (?es ! ?j) = marker")
        case True
        then have "lb_start env objects marker = ?s\<lparr>gs_didSeek := False\<rparr>"
          using nonempty key sv(2) by (simp add: start gs_Next_def)
        then show ?thesis
          using osl.gs_yields [of "?s\<lparr>gs_didSeek := False\<rparr>" ?es "Suc ?j"] sv(4)
            \<open>?j < length ?es\<close> True after drop by auto
      next
        case False
        then show ?thesis
          using osl.gs_yields_seek [OF v \<open>?j < length ?es\<close>] nonempty key after drop
          by (auto simp: start)
      qed
    next
      case False
      then have j: "?j = length ?es" using osl.before_key_le [of marker ?es] by simp
      note sv = osl.gs_Seek_miss [OF v _ j]
      obtain i where i: "oview (gs_inner ?s) = (?es, i)" "i \<le> length ?es"
        using sv(4,5) by (metis le0 prod.collapse)
      have "fst x \<noteq> marker" if "x \<in> set ?es" for x
      proof -
        have "filter (\<lambda>e. marker \<le> fst e) ?es = []" using drop_before_key [OF sorted, of marker] j by simp
        with that show ?thesis by (auto simp: filter_empty_conv)
      qed
      then have "gs_Key ?sl ?s \<noteq> Some marker"
        using osl.view_entry [OF i(1)] i(2) nth_mem [of "i - 1" ?es]
        by (fastforce simp: gs_Key_def split: if_splits)
      then show ?thesis
        using osl.gs_yields_seek_miss [OF v _ j] nonempty j after by (auto simp: start)
    qed
  qed
qed

text \<open>\<open>ListBucket\<close> as a fold over the entries behind the marker.\<close>

lemma ListBucket_fold:
  assumes "mem_bucket db name = Some b"
    and "list_range (lb_body (case prefix of None \<Rightarrow> emptyPrefix | Some p \<Rightarrow> p) (pg_MaxKeys page))
           (Ok (NewObjectList, 0, '''', False))
           (after_marker (pg_Marker page) (oentries (bk_objects b))) = (st, rest, broke)"
  shows "mem_ListBucket env name prefix page db =
     (rbind st (\<lambda>(response, cnt, lastPart, full).
        Ok (if full then response\<lparr>ol_IsTruncated := rest \<noteq> []\<rparr> else response)), db)"
proof -
  let ?g = "lb_start env (bk_objects b) (pg_Marker page)"
  let ?es = "after_marker (pg_Marker page) (oentries (bk_objects b))"
  let ?body = "lb_body (case prefix of None \<Rightarrow> emptyPrefix | Some p \<Rightarrow> p) (pg_MaxKeys page)"
  let ?n = "Suc (sl_len (env_osl env) (bk_objects b))"
  obtain e where y: "yields (gs_step (env_osl env)) ?g ?es e"
    using lb_start_yields(1) by blast
  have "length ?es < ?n"
    by (simp add: after_marker_def osl.len_entries le_imp_less_Suc)
  from go_range_yields [OF y this assms(2)] obtain it' where it':
    "go_range ?n (gs_step (env_osl env)) ?body (Ok (NewObjectList, 0, '''', False)) ?g = Some (st, it')"
    "if broke then yields (gs_step (env_osl env)) it' rest e else it' = e"
    by blast
  have valid: "osl.gs_valid it'"
    using go_range_iterator [OF it'(1), of osl.gs_valid] lb_start_yields(2) osl.gs_valid_step by blast
  show ?thesis
  proof (cases st)
    case (Ok s)
    obtain r c l full where s: "s = (r, c, l, full)" by (metis prod_cases4)
    show ?thesis
    proof (cases full)
      case True
      with assms(2) Ok s have "broke" by (cases broke) (auto dest: lb_not_full)
      then have "fst (gs_Next (env_osl env) it') \<longleftrightarrow> rest \<noteq> []"
        using osl.gs_Next_rest [OF valid] it'(2) by simp
      then show ?thesis using assms(1) it'(1) Ok s True by (simp add: mem_ListBucket_def)
    next
      case False
      then show ?thesis using assms(1) it'(1) Ok s by (simp add: mem_ListBucket_def)
    qed
  qed (use assms(1) it'(1) in \<open>simp_all add: mem_ListBucket_def\<close>)
qed

section \<open>The contents of a page\<close>

lemma entry_object:
  "e \<in> set (oentries (bk_objects b)) \<longleftrightarrow> bucket_object env b (fst e) = Some (snd e)"
  by (simp add: bucket_object_def osl.get_Some_iff)

lemma entry_name:
  assumes "bucket_ok env ventries n b" "all_current env b" "e \<in> set (oentries (bk_objects b))"
  shows "bo_data (snd e) = Some (entry_data e)" "bd_name (entry_data e) = fst e"
    "snd (key_state env ventries b (fst e)) = Some (entry_data e)"
proof -
  note o = assms(3) [unfolded entry_object]
  show d: "bo_data (snd e) = Some (entry_data e)"
    using assms(2) o by (auto simp: all_current_def entry_data_def)
  show "bd_name (entry_data e) = fst e"
    using bucket_okD [OF assms(1) o] d by (auto simp: obj_ok_def dest: versions_okD(3))
  show "snd (key_state env ventries b (fst e)) = Some (entry_data e)"
    using o d by (simp add: key_state_def)
qed

lemma set_after_marker: "set (after_marker m es) = {e \<in> set es. m = '''' \<or> m < fst e}"
  by (auto simp: after_marker_def)

lemma sorted_after_marker:
  "sorted_wrt (<) (map fst (after_marker m (oentries objects)))"
  using osl.entries_sorted [of objects]
  by (simp add: after_marker_def sorted_wrt_map sorted_wrt_filter)

text \<open>A listing is sorted by key, and holds exactly the visible current versions.\<close>

lemma listing_sorted:
  assumes "bucket_ok env ventries n b" "all_current env b"
  shows "sorted_wrt (<) (map ct_Key (listing p (after_marker m (oentries (bk_objects b)))))"
proof -
  let ?es = "after_marker m (oentries (bk_objects b))"
  have "map ct_Key (listing p ?es) = map fst (filter (\<lambda>e. visible p (entry_data e)) ?es)"
    using entry_name(2) [OF assms]
    by (auto simp: listing_def filter_map content_of_def comp_def set_after_marker)
  then show ?thesis using sorted_after_marker [of m "bk_objects b"]
    by (simp add: sorted_wrt_map sorted_wrt_filter)
qed

lemma listing_set:
  assumes "bucket_ok env ventries n b" "all_current env b"
  shows "set (listing p (after_marker m (oentries (bk_objects b)))) =
    content_of ` {d. \<exists>key. snd (key_state env ventries b key) = Some d \<and> visible p d \<and>
                          (m = '''' \<or> m < key)}"
proof -
  have "(\<exists>e \<in> set (after_marker m (oentries (bk_objects b))). entry_data e = d \<and> visible p d) \<longleftrightarrow>
      (\<exists>key. snd (key_state env ventries b key) = Some d \<and> visible p d \<and> (m = '''' \<or> m < key))"
    (is "?l \<longleftrightarrow> ?r") for d
  proof
    assume ?l then show ?r using entry_name(3) [OF assms] unfolding set_after_marker by blast
  next
    assume ?r
    then obtain key obj where "bucket_object env b key = Some obj" "bo_data obj = Some d"
      "visible p d" "m = '''' \<or> m < key"
      by (auto simp: key_state_def split: option.splits)
    then show ?l using entry_object [of "(key, obj)" b]
      by (intro bexI [of _ "(key, obj)"]) (auto simp: entry_data_def set_after_marker)
  qed
  moreover have "set (listing p es) = content_of ` {d. \<exists>e \<in> set es. entry_data e = d \<and> visible p d}"
    for es :: "(string \<times> 'vm bucketObject) list"
    by (auto simp: listing_def)
  ultimately show ?thesis by simp
qed

text \<open>The entries behind the last one of a page are the entries behind its key.\<close>

lemma after_marker_next:
  assumes "after_marker m (oentries objects) = pre @ e # rest" "fst e \<noteq> ''''"
  shows "after_marker (fst e) (oentries objects) = rest"
proof -
  have sorted: "sorted_wrt (<) (map fst (pre @ e # rest))"
    using sorted_after_marker [of m objects] assms(1) by simp
  have e: "m = '''' \<or> m < fst e"
    using assms(1) set_after_marker [of m "oentries objects"] by auto
  have "filter (\<lambda>x. fst e < fst x) (oentries objects) =
      filter (\<lambda>x. fst e < fst x) (after_marker m (oentries objects))"
  proof (cases "m = ''''")
    case False
    then have "filter (\<lambda>x. fst e < fst x) xs = filter (\<lambda>x. m < fst x \<and> fst e < fst x) xs"
      for xs :: "(string \<times> 'vm bucketObject) list"
      using e by (intro filter_cong) (auto intro: order.strict_trans)
    then show ?thesis using False by (simp add: after_marker_def)
  qed (simp add: after_marker_def)
  also have "\<dots> = rest"
  proof -
    have "\<not> fst e < fst x" if "x \<in> set pre" for x
      using sorted that by (auto simp: sorted_wrt_append dest: order.asym)
    moreover have "fst e < fst x" if "x \<in> set rest" for x
      using sorted that by (auto simp: sorted_wrt_append)
    ultimately show ?thesis unfolding assms(1) by simp
  qed
  finally show ?thesis using assms(2) by (simp add: after_marker_def)
qed

lemma ListBucket_flat:
  assumes "mem_bucket db name = Some b" "all_current env b"
    and "\<not> HasDelimiter p" "k \<le> 0"
  shows "mem_ListBucket env name (Some p) \<lparr>pg_Marker = m, pg_HasMarker = hm, pg_MaxKeys = k\<rparr> db =
    (Ok (NewObjectList\<lparr>ol_Contents := listing p (after_marker m (oentries (bk_objects b)))\<rparr>), db)"
proof -
  let ?es = "after_marker m (oentries (bk_objects b))"
  have data: "\<forall>e \<in> set ?es. bo_data (snd e) \<noteq> None"
    using assms(2) by (auto simp: set_after_marker entry_object all_current_def)
  obtain c' where "list_range (lb_body p k) (Ok (NewObjectList, 0, '''', False)) ?es =
      (Ok (NewObjectList\<lparr>ol_Contents := ol_Contents NewObjectList @ listing p ?es\<rparr>, c', '''', False),
       [], False)"
    using flat_fold_unlimited [OF assms(3,4) data] by blast
  from ListBucket_fold [OF assms(1), of "Some p" "\<lparr>pg_Marker = m, pg_HasMarker = hm, pg_MaxKeys = k\<rparr>",
      simplified, OF this]
  show ?thesis by (simp add: NewObjectList_def)
qed

lemma ListBucket_page:
  assumes "mem_bucket db name = Some b" "bucket_ok env ventries n b" "all_current env b"
    and "\<not> HasDelimiter p" "0 < k" "k \<le> max_int64" "bucket_object env b '''' = None"
    and "xs = listing p (after_marker m (oentries (bk_objects b)))"
  obtains ol where
    "mem_ListBucket env name (Some p) \<lparr>pg_Marker = m, pg_HasMarker = hm, pg_MaxKeys = k\<rparr> db = (Ok ol, db)"
    "ol_CommonPrefixes ol = []" "ol_Contents ol = take (nat k) xs"
    "\<not> ol_IsTruncated ol \<longrightarrow> ol_Contents ol = xs"
    "ol_IsTruncated ol \<longrightarrow> int (length (ol_Contents ol)) = k \<and>
       ol_NextMarker ol = ct_Key (last (ol_Contents ol)) \<and>
       listing p (after_marker (ol_NextMarker ol) (oentries (bk_objects b))) = drop (nat k) xs"
proof -
  let ?es = "after_marker m (oentries (bk_objects b))"
  let ?pg = "\<lparr>pg_Marker = m, pg_HasMarker = hm, pg_MaxKeys = k\<rparr>"
  have data: "\<forall>e \<in> set ?es. bo_data (snd e) \<noteq> None"
    using assms(3) by (auto simp: set_after_marker entry_object all_current_def)
  note fold = flat_fold_page [OF assms(4,6) data order_refl assms(5), of NewObjectList "''''"]
  note lb = ListBucket_fold [OF assms(1), of "Some p" ?pg, simplified]
  show thesis
  proof (cases "int (length xs) < k")
    case True
    with fold have "list_range (lb_body p k) (Ok (NewObjectList, 0, '''', False)) ?es =
        (Ok (NewObjectList\<lparr>ol_Contents := ol_Contents NewObjectList @ xs\<rparr>, int (length xs), '''', False),
         [], False)"
      by (simp add: assms(8))
    from lb [OF this] have
      "mem_ListBucket env name (Some p) ?pg db = (Ok (NewObjectList\<lparr>ol_Contents := xs\<rparr>), db)"
      by (simp add: NewObjectList_def)
    then show thesis by (rule that) (use True in \<open>simp_all add: NewObjectList_def\<close>)
  next
    case False
    with fold obtain pre e rest where e: "?es = pre @ e # rest" "visible p (entry_data e)"
      "int (length (listing p (pre @ [e]))) = k"
      "list_range (lb_body p k) (Ok (NewObjectList, 0, '''', False)) ?es =
        (Ok (NewObjectList\<lparr>ol_Contents := ol_Contents NewObjectList @ listing p (pre @ [e]),
               ol_NextMarker := bd_name (entry_data e)\<rparr>, k, '''', True), rest, True)"
      by (auto simp: assms(8))
    have obj: "e \<in> set (oentries (bk_objects b))"
      using e(1) set_after_marker [of m "oentries (bk_objects b)"] by auto
    have name: "bd_name (entry_data e) = fst e"
      by (rule entry_name(2) [OF assms(2,3) obj])
    have "fst e \<noteq> ''''" using obj assms(7) unfolding entry_object by auto
    note next' = after_marker_next [OF e(1) this]
    have xs: "xs = listing p (pre @ [e]) @ listing p rest" using e(1) by (simp add: assms(8))
    then have take: "take (nat k) xs = listing p (pre @ [e])" "drop (nat k) xs = listing p rest"
      using e(3) by auto
    let ?ol = "NewObjectList\<lparr>ol_Contents := listing p (pre @ [e]),
      ol_NextMarker := bd_name (entry_data e), ol_IsTruncated := rest \<noteq> []\<rparr>"
    have "mem_ListBucket env name (Some p) ?pg db = (Ok ?ol, db)"
      using lb [OF e(4)] by (simp add: NewObjectList_def)
    then show thesis
      by (rule that)
        (use e(2,3) take next' name xs in
          \<open>auto simp: NewObjectList_def content_of_def\<close>)
  qed
qed

lemma ListBucket_rolled:
  assumes "mem_bucket db name = Some b" "all_current env b"
    and "HasDelimiter p" "pfx_Delimiter p = [c]" "no_lead c (pfx_Prefix p)" "k \<le> 0"
    and "\<And>e. e \<in> set (oentries (bk_objects b)) \<Longrightarrow> no_lead c (bd_name (entry_data e))"
  obtains ol where
    "mem_ListBucket env name (Some p) \<lparr>pg_Marker = m, pg_HasMarker = hm, pg_MaxKeys = k\<rparr> db = (Ok ol, db)"
    "ol_Contents ol = plain_entries c (pfx_Prefix p) (after_marker m (oentries (bk_objects b)))"
    "distinct (ol_CommonPrefixes ol)"
    "set (ol_CommonPrefixes ol) = common_parts c (pfx_Prefix p) (after_marker m (oentries (bk_objects b)))"
    "\<not> ol_IsTruncated ol"
proof -
  let ?es = "after_marker m (oentries (bk_objects b))"
  have "\<forall>e \<in> set ?es. bo_data (snd e) \<noteq> None \<and> no_lead c (bd_name (entry_data e))"
    using assms(2,7) by (auto simp: set_after_marker entry_object all_current_def)
  from rolled_fold_unlimited [OF assms(3-6) this, of NewObjectList "''''" 0] obtain r' n' l' where
    "list_range (lb_body p k) (Ok (NewObjectList, 0, '''', False)) ?es =
       (Ok (r', n', l', False), [], False)"
    and r': "ol_Contents r' = plain_entries c (pfx_Prefix p) ?es"
      "prefixes_ok (ol_prefixes r') (ol_CommonPrefixes r')"
      "set (ol_CommonPrefixes r') = common_parts c (pfx_Prefix p) ?es" "\<not> ol_IsTruncated r'"
    by (auto simp: NewObjectList_def prefixes_ok_def)
  from ListBucket_fold [OF assms(1), of "Some p" "\<lparr>pg_Marker = m, pg_HasMarker = hm, pg_MaxKeys = k\<rparr>",
      simplified, OF this(1)]
  have "mem_ListBucket env name (Some p) \<lparr>pg_Marker = m, pg_HasMarker = hm, pg_MaxKeys = k\<rparr> db = (Ok r', db)"
    by simp
  then show thesis by (rule that) (use r' in \<open>simp_all add: prefixes_ok_def\<close>)
qed

end

end
