(* ===== verification/MemObjects.thy ===== *)
theory MemObjects
  imports MemListFacts
begin

text \<open>
  The object operations of the in-memory back end on the abstract state of a key: what a put, a
  delete and a version delete leave behind, and what the reads answer. At the end, a concrete
  environment that meets the contract, on which the properties are evaluated.
\<close>

section \<open>Reads\<close>

lemma current_data_state:
  "current_data env b key =
     (case key_state env ve b key of
        (vs, Some d) \<Rightarrow> if bd_deleteMarker d then Err (KeyNotFound key) else Ok d
      | (vs, None) \<Rightarrow> if bucket_object env b key = None then Err (KeyNotFound key) else Panic)"
  by (auto simp: current_data_def key_state_def split: option.splits)

lemma current_data_fuel: "current_data env b key \<noteq> NoFuel"
  by (auto simp: current_data_def split: option.splits)

definition mask_version :: "VersioningStatus \<Rightarrow> Object \<Rightarrow> Object" where
  "mask_version status obj = (if status \<noteq> VersioningEnabled then obj\<lparr>ob_VersionID := ''''\<rparr> else obj)"

lemma GetObject_current:
  assumes "mem_bucket db bucket = Some b" "bucket_object env b key = Some obj" "bo_data obj = Some d"
    and "\<not> bd_deleteMarker d"
  shows "mem_GetObject env bucket key rr db =
     (rbind (toObject d rr True) (\<lambda>o'. Ok (mask_version (bk_versioning b) o')), db)"
  using assms by (simp add: mem_GetObject_def current_data_def mask_version_def)

lemma GetObject_state [simp]: "snd (mem_GetObject env bucket key rr db) = db"
  by (simp add: mem_GetObject_def split: option.splits)

lemma GetObjectVersion_state [simp]: "snd (mem_GetObjectVersion env bucket key vid rr db) = db"
  by (simp add: mem_GetObjectVersion_def split: option.splits)

section \<open>put\<close>

text \<open>\<open>PutObject\<close> of a readable body with a metadata map, on a key without nil dereference.\<close>

lemma MergeMetadata_mem:
  assumes "mem_bucket db bucket = Some b"
    and "\<And>obj. bucket_object env b key = Some obj \<Longrightarrow> bo_data obj \<noteq> None"
  obtains m' where
    "MergeMetadata (mem_GetObject env bucket key None) (Some m) db = (Ok (Some m'), db)"
    "map_of m' = (case current_data env b key of
                    Ok d \<Rightarrow> map_of (case bd_metadata d of None \<Rightarrow> [] | Some es \<Rightarrow> es)
                  | _ \<Rightarrow> Map.empty) ++ map_of m"
proof (cases "current_data env b key")
  case (Ok d)
  then have get: "mem_GetObject env bucket key None db =
      (rbind (toObject d None True) (\<lambda>o'. Ok (mask_version (bk_versioning b) o')), db)"
    using assms(1) by (simp add: mem_GetObject_def mask_version_def)
  obtain o' where o': "toObject d None True = Ok o'" "ob_Metadata o' = bd_metadata d"
    by (simp add: toObject_whole)
  then have meta: "ob_Metadata (mask_version (bk_versioning b) o') = bd_metadata d"
    by (simp add: mask_version_def)
  obtain m' where "carry_over (Some (mask_version (bk_versioning b) o')) (Some m) = Ok (Some m')"
    "map_of m' = map_of (case bd_metadata d of None \<Rightarrow> [] | Some es \<Rightarrow> es) ++ map_of m"
    using carry_over_Some [of "Some (mask_version (bk_versioning b) o')" m] meta by auto
  then show ?thesis using get o'(1) Ok by (intro that [of m']) (simp_all add: MergeMetadata_def)
next
  case (Err e)
  then have "MergeMetadata (mem_GetObject env bucket key None) (Some m) db = (Ok (Some m), db)"
    using assms(1) by (simp add: mem_GetObject_def MergeMetadata_def carry_over_def)
  then show ?thesis using Err by (intro that [of m]) simp_all
next
  case Panic
  then show ?thesis using assms(2) by (auto simp: current_data_def split: option.splits if_splits)
next
  case NoFuel
  then show ?thesis using current_data_fuel by metis
qed

lemma PutObject_store:
  assumes "mem_bucket db bucket = Some b"
    and "\<And>obj. bucket_object env b key = Some obj \<Longrightarrow> bo_data obj \<noteq> None"
    and "rd_err input = None" "int (length (rd_bytes input)) = sz"
  obtains m' where
    "map_of m' = (case current_data env b key of
                    Ok d \<Rightarrow> map_of (case bd_metadata d of None \<Rightarrow> [] | Some es \<Rightarrow> es)
                  | _ \<Rightarrow> Map.empty) ++ map_of m"
    "mem_PutObject env bucket key (Some m) input sz db =
       mem_store env bucket key (Some m') (rd_bytes input) db"
proof -
  obtain m' where
    "MergeMetadata (mem_GetObject env bucket key None) (Some m) db = (Ok (Some m'), db)"
    "map_of m' = (case current_data env b key of
                    Ok d \<Rightarrow> map_of (case bd_metadata d of None \<Rightarrow> [] | Some es \<Rightarrow> es)
                  | _ \<Rightarrow> Map.empty) ++ map_of m"
    by (rule MergeMetadata_mem [OF assms(1,2)])
  moreover have "ReadAll input sz = Ok (rd_bytes input)" using assms(3,4) by (simp add: ReadAll_Ok_iff)
  ultimately show ?thesis by (intro that [of m']) (simp_all add: mem_PutObject_def act_defs)
qed

text \<open>The item that \<open>PutObject\<close> stores.\<close>

definition stored_item ::
    "('om, 'oi, 'vm, 'vi) s3mem_env \<Rightarrow> string \<Rightarrow> int \<Rightarrow> gomap option \<Rightarrow> bytes \<Rightarrow> string \<Rightarrow> bucketData" where
  "stored_item env key now meta bts vid =
     \<lparr>bd_name = key, bd_lastModified = now, bd_versionID = vid, bd_deleteMarker = False,
      bd_body = bts, bd_hash = env_md5 env bts, bd_etag = quoted (hex_encode (env_md5 env bts)),
      bd_metadata = meta\<rparr>"

lemma mem_store_put:
  assumes "mem_bucket db bucket = Some b"
  obtains vid b' src' where
    "bucket_put env b key (stored_item env key (db_now db) meta bts '''') (db_versionSource db) =
       (stored_item env key (db_now db) meta bts vid, b', src')"
    "mem_store env bucket key meta bts db =
       (Ok \<lparr>pr_VersionID = (if bk_versioning b' = VersioningEnabled then vid else '''')\<rparr>,
        (mem_set_bucket db bucket b')\<lparr>db_versionSource := src'\<rparr>)"
proof -
  obtain item' b' src' where p:
    "bucket_put env b key (stored_item env key (db_now db) meta bts '''') (db_versionSource db) =
       (item', b', src')" by (metis prod_cases3)
  have "item' = stored_item env key (db_now db) meta bts (bd_versionID item')"
    using p by (auto simp: bucket_put_def Let_def stored_item_def split: prod.splits)
  then show ?thesis using p assms
    by (intro that [of "bd_versionID item'" b' src'])
      (simp_all add: mem_store_def Let_def stored_item_def)
qed

context s3mem_laws
begin

lemma put_current:
  assumes "bucket_put env b key item src = (item', b', src')"
  shows "\<exists>obj. bucket_object env b' key = Some obj \<and> bo_data obj = Some item'"
  unfolding put_eq(3) [OF assms] by simp

text \<open>A body that was put is what the next get returns.\<close>

lemma put_get:
  assumes "mem_bucket db bucket = Some b"
    and "\<And>obj. bucket_object env b key = Some obj \<Longrightarrow> bo_data obj \<noteq> None"
    and "rd_err input = None" "int (length (rd_bytes input)) = sz" "sz \<le> max_int64"
    and "mem_PutObject env bucket key (Some m) input sz db = (r, db')"
  shows "\<exists>vid obj. r = Ok \<lparr>pr_VersionID = vid\<rparr> \<and>
    mem_GetObject env bucket key None db' = (Ok obj, db') \<and>
    ob_Name obj = key \<and> ob_Contents obj = rd_bytes input \<and> ob_Size obj = sz \<and>
    ob_Hash obj = env_md5 env (rd_bytes input) \<and> ob_VersionID obj = vid \<and> \<not> ob_IsDeleteMarker obj \<and>
    map_option map_of (ob_Metadata obj) =
      Some ((case current_data env b key of
               Ok d \<Rightarrow> map_of (case bd_metadata d of None \<Rightarrow> [] | Some es \<Rightarrow> es)
             | _ \<Rightarrow> Map.empty) ++ map_of m)"
proof -
  obtain m' where m': "map_of m' = (case current_data env b key of
                    Ok d \<Rightarrow> map_of (case bd_metadata d of None \<Rightarrow> [] | Some es \<Rightarrow> es)
                  | _ \<Rightarrow> Map.empty) ++ map_of m"
    "mem_PutObject env bucket key (Some m) input sz db =
       mem_store env bucket key (Some m') (rd_bytes input) db"
    by (rule PutObject_store [OF assms(1-4)])
  let ?item = "stored_item env key (db_now db) (Some m') (rd_bytes input)"
  obtain vid b' src' where p: "bucket_put env b key (?item '''') (db_versionSource db) = (?item vid, b', src')"
    "mem_store env bucket key (Some m') (rd_bytes input) db =
       (Ok \<lparr>pr_VersionID = (if bk_versioning b' = VersioningEnabled then vid else '''')\<rparr>,
        (mem_set_bucket db bucket b')\<lparr>db_versionSource := src'\<rparr>)"
    by (rule mem_store_put [OF assms(1)])
  then have db': "db' = (mem_set_bucket db bucket b')\<lparr>db_versionSource := src'\<rparr>"
    and r: "r = Ok \<lparr>pr_VersionID = (if bk_versioning b' = VersioningEnabled then vid else '''')\<rparr>"
    using m'(2) assms(6) by simp_all
  obtain obj where obj: "bucket_object env b' key = Some obj" "bo_data obj = Some (?item vid)"
    using put_current [OF p(1)] by blast
  have "mem_bucket db' bucket = Some b'" by (simp add: db')
  from GetObject_current [OF this obj, of None] have
    "mem_GetObject env bucket key None db' =
       (Ok (mask_version (bk_versioning b')
          \<lparr>ob_Name = key, ob_Metadata = Some m', ob_Size = i64 (int (length (rd_bytes input))),
           ob_Contents = rd_bytes input, ob_Hash = env_md5 env (rd_bytes input), ob_Range = None,
           ob_VersionID = vid, ob_IsDeleteMarker = False\<rparr>), db')"
    by (simp add: toObject_whole) (simp add: stored_item_def)
  moreover have "i64 (int (length (rd_bytes input))) = sz"
    using assms(4,5) by (simp add: is_i64_def min_int64_def)
  ultimately show ?thesis using r m'(1) by (simp add: mask_version_def)
qed

section \<open>The abstract state under the operations\<close>

lemma history_below:
  assumes "bucket_ok env ventries n b" "d \<in> set (history (key_state env ventries b key))"
  shows "id_below (bd_versionID d) n"
  using assms bucket_okD [OF assms(1)]
  by (auto simp: key_state_def obj_ok_def versions_ok_def split: option.splits)

lemma mem_key_put:
  assumes "mem_ok env ventries db" "mem_bucket db bucket = Some b"
    and "mem_PutObject env bucket key meta input sz db = (Ok r, db')"
  shows "\<exists>item. bd_body item = rd_bytes input \<and> \<not> bd_deleteMarker item \<and> bd_name item = key \<and>
    (bk_versioning b = VersioningEnabled \<longrightarrow> pr_VersionID r = bd_versionID item) \<and>
    (mem_count db' < 10 ^ 30 \<longrightarrow>
       (\<forall>d \<in> set (history (key_state env ventries b key)). bd_versionID d < bd_versionID item)) \<and>
    (\<forall>bucket' key'. mem_key env ventries db' bucket' key' =
       (if bucket' = bucket \<and> key' = key
        then Some (spec_put (bk_versioning b = VersioningEnabled) item (key_state env ventries b key))
        else mem_key env ventries db bucket' key'))"
proof -
  obtain bts where bts: "ReadAll input sz = Ok bts"
    using assms(3) by (cases "ReadAll input sz") (auto simp: mem_PutObject_def act_defs)
  then have body: "bts = rd_bytes input"
    by (cases "sz < 0") (simp add: ReadAll_def, simp add: ReadAll_Ok_iff)
  obtain meta' where "mem_store env bucket key meta' bts db = (Ok r, db')"
  proof -
    have "snd (MergeMetadata (mem_GetObject env bucket key None) meta db) = db"
      by (auto simp: MergeMetadata_def split: prod.splits res.splits)
        (metis GetObject_state snd_conv)+
    then show thesis using assms(3) bts that
      by (auto simp: mem_PutObject_def act_defs split: prod.splits res.splits)
  qed
  moreover obtain vid b' src' where p:
    "bucket_put env b key (stored_item env key (db_now db) meta' bts '''') (db_versionSource db) =
       (stored_item env key (db_now db) meta' bts vid, b', src')"
    "mem_store env bucket key meta' bts db =
       (Ok \<lparr>pr_VersionID = (if bk_versioning b' = VersioningEnabled then vid else '''')\<rparr>,
        (mem_set_bucket db bucket b')\<lparr>db_versionSource := src'\<rparr>)"
    by (rule mem_store_put [OF assms(2)])
  ultimately have db': "db' = (mem_set_bucket db bucket b')\<lparr>db_versionSource := src'\<rparr>"
    and r: "r = \<lparr>pr_VersionID = (if bk_versioning b' = VersioningEnabled then vid else '''')\<rparr>"
    by simp_all
  have "bd_versionID d < vid"
    if "mem_count db' < 10 ^ 30" "d \<in> set (history (key_state env ventries b key))" for d
  proof -
    have "source_count (db_versionSource db) + 1 < 10 ^ 30"
      using that(1) put_count [OF p(1)] by (simp add: db' mem_count_def)
    from nextVersion_step(5) [OF mem_okD(1) [OF assms(1)] this put_eq(1) [OF p(1)]]
      history_below [OF mem_okD(4) [OF assms(1,2)] that(2)]
    show ?thesis by (simp add: mem_count_def stored_item_def)
  qed
  then show ?thesis
    using key_state_put [OF mem_okD(4) [OF assms(1,2)] p(1)] put_frame(1) [OF p(1)] r body assms(2)
    by (intro exI [of _ "stored_item env key (db_now db) meta' bts vid"])
      (simp add: db' mem_key_def stored_item_def)
qed

lemma mem_key_delete:
  assumes "mem_ok env ventries db" "mem_bucket db bucket = Some b"
    and "bk_versioning b \<noteq> VersioningEnabled"
    and "mem_DeleteObject env bucket key db = (r, db')"
  shows "r = Ok emptyDeleteResult \<and>
    mem_key env ventries db' bucket' key' =
       (if bucket' = bucket \<and> key' = key then Some (fst (key_state env ventries b key), None)
        else mem_key env ventries db bucket' key')"
proof -
  obtain r1 b' src' where rm: "bucket_rm env b key (db_now db) (db_versionSource db) = (r1, b', src')"
    by (metis prod_cases3)
  then have "r1 = emptyDeleteResult" by (simp add: rm_plain [OF assms(3)])
  moreover have "r = Ok r1" "db' = (mem_set_bucket db bucket b')\<lparr>db_versionSource := src'\<rparr>"
    using assms(2,4) rm by (simp_all add: mem_DeleteObject_def)
  ultimately show ?thesis
    using key_state_rm_plain [OF assms(3) rm] assms(2) by (simp add: mem_key_def)
qed

lemma mem_key_delete_marker:
  assumes "mem_ok env ventries db" "mem_bucket db bucket = Some b"
    and "bk_versioning b = VersioningEnabled" "bucket_object env b key \<noteq> None"
    and "mem_DeleteObject env bucket key db = (r, db')"
  shows "\<exists>marker. bd_deleteMarker marker \<and> bd_name marker = key \<and>
    r = Ok \<lparr>dr_IsDeleteMarker = True, dr_VersionID = bd_versionID marker\<rparr> \<and>
    (\<forall>bucket' key'. mem_key env ventries db' bucket' key' =
       (if bucket' = bucket \<and> key' = key
        then Some (history (key_state env ventries b key), Some marker)
        else mem_key env ventries db bucket' key'))"
proof -
  obtain r1 b' src' where rm: "bucket_rm env b key (db_now db) (db_versionSource db) = (r1, b', src')"
    by (metis prod_cases3)
  obtain obj where obj: "bucket_object env b key = Some obj" using assms(4) by auto
  obtain item item' where p: "bucket_put env b key item (db_versionSource db) = (item', b', src')"
    "bd_name item = key" "bd_deleteMarker item" "bd_body item = []"
    "r1 = \<lparr>dr_IsDeleteMarker = True, dr_VersionID = bd_versionID item'\<rparr>"
    by (rule rm_enabled [OF obj assms(3) rm])
  have "bd_deleteMarker item' \<and> bd_name item' = key"
    using put_eq(2) [OF p(1)] p(2,3)
    by (metis bucketData.ext_inject bucketData.surjective bucketData.update_convs(3))
  moreover have "r = Ok r1" "db' = (mem_set_bucket db bucket b')\<lparr>db_versionSource := src'\<rparr>"
    using assms(2,5) rm by (simp_all add: mem_DeleteObject_def)
  ultimately show ?thesis
    using key_state_put [OF mem_okD(4) [OF assms(1,2)] p(1)] p(5) assms(2,3)
    by (intro exI [of _ item']) (simp add: mem_key_def spec_put_def)
qed

lemma mem_key_delete_version:
  assumes "mem_ok env ventries db" "mem_bucket db bucket = Some b"
    and "mem_DeleteObjectVersion env bucket key vid db = (r, db')"
  shows "mem_key env ventries db' bucket' key' =
       (if bucket' = bucket \<and> key' = key then Some (spec_rmVersion vid (key_state env ventries b key))
        else mem_key env ventries db bucket' key')"
proof -
  obtain r1 b' where rm: "bucket_rmVersion env b key vid (db_now db) = (r1, b')" by (metis surj_pair)
  then have "db' = mem_set_bucket db bucket b'"
    using assms(2,3) by (simp add: mem_DeleteObjectVersion_def)
  then show ?thesis
    using key_state_rmVersion [OF mem_okD(4) [OF assms(1,2)] rm] assms(2) by (simp add: mem_key_def)
qed

text \<open>What a read of a version answers, in terms of the history of its key.\<close>

lemma GetObjectVersion_history:
  assumes "mem_ok env ventries db" "mem_bucket db bucket = Some b" "vid \<noteq> ''''"
    and "mem_key env ventries db bucket key = Some st" "st \<noteq> ([], None)"
  shows "mem_GetObjectVersion env bucket key vid rr db =
     (rbind (case find (\<lambda>d. bd_versionID d = vid) (history st) of
               None \<Rightarrow> Err (ECode ErrNoSuchVersion) | Some d \<Rightarrow> Ok d)
        (\<lambda>ver. toObject ver rr True), db)"
proof -
  have st: "st = key_state env ventries b key" using assms(2,4) by (simp add: mem_key_def)
  then have "bucket_object env b key \<noteq> None"
    using key_state_None [OF mem_okD(4) [OF assms(1,2)]] assms(5) by auto
  then show ?thesis
    using objectVersion_history [OF mem_okD(4) [OF assms(1,2)] assms(3)] assms(2,3) st
    by (simp add: mem_GetObjectVersion_def)
qed

end

section \<open>A concrete environment\<close>

text \<open>
  Both skip lists are the reference one; the digest is some function to 16 bytes.
\<close>

definition demo_env ::
    "((string \<times> ((string \<times> bucketData) list) bucketObject) list,
      (string, ((string \<times> bucketData) list) bucketObject) alist_iterator,
      (string \<times> bucketData) list, (string, bucketData) alist_iterator) s3mem_env" where
  "demo_env = \<lparr>env_osl = alist_skiplist, env_vsl = alist_skiplist,
               env_md5 = (\<lambda>bs. take 16 (bs @ replicate 16 (CHR 0x00)))\<rparr>"

interpretation demo: s3mem_laws demo_env alist_entries id alist_entries id
  by (rule s3mem_laws.intro) (simp_all add: demo_env_def alist.skiplist_laws_axioms)

end
