(* ===== verification/MemVersionFacts.thy ===== *)
theory MemVersionFacts
  imports MemObjects
begin

text \<open>
  The listing of versions and the deletion of many objects: the two loops that go over a whole
  bucket or a whole request.
\<close>

section \<open>The markers of ListBucketVersions\<close>

text \<open>Nothing in the loops sets the markers of the next page.\<close>

definition no_markers :: "ListBucketVersionsResult \<Rightarrow> bool" where
  "no_markers r \<longleftrightarrow> lv_NextKeyMarker r = '''' \<and> lv_NextVersionIDMarker r = ''''"

lemma no_markers_updates [simp]:
  "no_markers (r\<lparr>lv_Versions := vs\<rparr>) = no_markers r" "no_markers (r\<lparr>lv_IsTruncated := tr\<rparr>) = no_markers r"
  "no_markers (lv_AddPrefix r p) = no_markers r" "no_markers (NewListBucketVersionsResult b p' page)"
  by (simp_all add: no_markers_def lv_AddPrefix_def NewListBucketVersionsResult_def)

lemma lv_object_markers:
  assumes "lv_object env status page obj (r, c, first, tr) = Continue (Ok (r', c', f', tr')) \<or>
      lv_object env status page obj (r, c, first, tr) = Break (Ok (r', c', f', tr'))" "no_markers r"
  shows "no_markers r'"
proof -
  obtain n it full it' where g: "go_range n (bo_step env) (lv_inner status (vp_MaxKeys page)) (r, c, False) it =
      Some ((r', c', full), it')"
    using assms(1) by (auto simp: lv_object_def split: res.splits option.splits prod.splits if_splits)
  have "no_markers (fst (r', c', full))"
    by (rule go_range_invariant [OF g]) (auto simp: assms(2) lv_inner_def Let_def split: if_splits)
  then show ?thesis by simp
qed

lemma ListBucketVersions_no_markers:
  assumes "fst (mem_ListBucketVersions env b p page db) = Ok r"
  shows "no_markers r"
proof -
  let ?P = "\<lambda>st :: lv_state res. \<forall>r c f tr. st = Ok (r, c, f, tr) \<longrightarrow> no_markers r"
  obtain n body r0 it r1 c f tr it' where g: "go_range n (gs_step (env_osl env)) (lv_body env (case p of None \<Rightarrow> emptyPrefix
        | Some p \<Rightarrow> p) body (case page of None \<Rightarrow> emptyVersionsPage | Some g \<Rightarrow> g)) (Ok (r0, 0, True, False)) it =
        Some (Ok (r1, c, f, tr), it')" "no_markers r0" "no_markers r1 \<longleftrightarrow> no_markers r"
    using assms
    by (auto simp: mem_ListBucketVersions_def Let_def rbind_eq_Ok simp del: go_range.simps
        split: option.splits if_splits prod.splits)
  have "?P (Ok (r1, c, f, tr))"
  proof (rule go_range_invariant [OF g(1)])
    show "?P (Ok (r0, 0, True, False))" using g(2) by simp
  next
    fix e s t
    assume s: "?P s" and t: "lv_body env (case p of None \<Rightarrow> emptyPrefix | Some p \<Rightarrow> p) body
        (case page of None \<Rightarrow> emptyVersionsPage | Some g \<Rightarrow> g) e s = Continue t \<or>
      lv_body env (case p of None \<Rightarrow> emptyPrefix | Some p \<Rightarrow> p) body
        (case page of None \<Rightarrow> emptyVersionsPage | Some g \<Rightarrow> g) e s = Break t"
    then show "?P t"
      using lv_object_markers by (cases s) (fastforce simp: lv_body_def split: option.splits if_splits prod.splits)+
  qed
  then show ?thesis using g(3) by simp
qed

section \<open>ListBucketVersions without pages\<close>

text \<open>The versions of an object as the iterator gives them, each with the flag of the current one.\<close>

definition all_versions ::
    "('vm \<Rightarrow> (string \<times> bucketData) list) \<Rightarrow> 'vm bucketObject \<Rightarrow> (bucketData \<times> bool) list" where
  "all_versions ventries obj =
     map (\<lambda>d. (d, False)) (older ventries obj) @ map (\<lambda>d. (d, True)) (opt_list (bo_data obj))"

lemma lv_inner_all:
  assumes "k \<le> 0"
  shows "\<exists>c'. list_range (lv_inner status k) (r, c, False) vs =
    ((r\<lparr>lv_Versions := lv_Versions r @ map (lv_item status) vs\<rparr>, c', False), [], False)"
proof (induction vs arbitrary: r c)
  case (Cons v vs)
  from Cons [of "r\<lparr>lv_Versions := lv_Versions r @ [lv_item status v]\<rparr>" "i64 (c + 1)"] assms
  show ?case by (simp add: lv_inner_def)
qed simp

definition lv_listing ::
    "('vm \<Rightarrow> (string \<times> bucketData) list) \<Rightarrow> VersioningStatus \<Rightarrow> Prefix \<Rightarrow>
     (string \<times> 'vm bucketObject) list \<Rightarrow> VersionItem list" where
  "lv_listing ventries status p es =
     concat (map (\<lambda>e. map (lv_item status) (all_versions ventries (snd e)))
       (filter (\<lambda>e. prefix_Match p (bo_name (snd e)) \<noteq> None) es))"

lemma rm_all_deleted:
  "rm_all env now names b src del = (del', b', src') \<Longrightarrow>
   del' = del @ map (\<lambda>n. \<lparr>oid_Key = n, oid_VersionID = ''''\<rparr>) names"
proof (induction names arbitrary: b src del)
  case (Cons n names)
  obtain r b1 src1 where "bucket_rm env b n now src = (r, b1, src1)" by (metis prod_cases3)
  with Cons show ?case by fastforce
qed simp

context s3mem_laws
begin

lemma lv_object_all:
  assumes "vp_MaxKeys page \<le> 0" "vp_VersionIDMarker page = ''''"
  shows "\<exists>c'. lv_object env status page obj (r, c, first, tr) =
    Continue (Ok (r\<lparr>lv_Versions := lv_Versions r @ map (lv_item status) (all_versions ventries obj)\<rparr>,
                  c', False, tr))"
proof -
  obtain e where y: "yields (bo_step env) (bo_Iterator env obj) (all_versions ventries obj) e"
    using bo_yields [of obj] unfolding all_versions_def by (elim exE)
  have len: "length (all_versions ventries obj) < versions_fuel env obj"
    by (simp add: all_versions_def versions_fuel_def older_def opt_list_def vsl.len_entries
        split: option.splits)
  obtain c' where l: "list_range (lv_inner status (vp_MaxKeys page)) (r, c, False)
      (all_versions ventries obj) =
    ((r\<lparr>lv_Versions := lv_Versions r @ map (lv_item status) (all_versions ventries obj)\<rparr>, c', False),
     [], False)"
    using lv_inner_all [OF assms(1)] by blast
  from go_range_yields [OF y len l] obtain it' where
    "go_range (versions_fuel env obj) (bo_step env) (lv_inner status (vp_MaxKeys page)) (r, c, False)
       (bo_Iterator env obj) =
     Some ((r\<lparr>lv_Versions := lv_Versions r @ map (lv_item status) (all_versions ventries obj)\<rparr>, c',
            False), it')" by (elim exE conjE)
  then show ?thesis using assms(2) by (simp add: lv_object_def versions_start_def)
qed

lemma lv_fold_all:
  assumes "vp_MaxKeys page \<le> 0" "vp_VersionIDMarker page = ''''" "\<not> HasDelimiter p"
  shows "\<exists>c' first'. list_range (lv_body env p status page) (Ok (r, c, first, False)) es =
    (Ok (r\<lparr>lv_Versions := lv_Versions r @ lv_listing ventries status p es\<rparr>, c', first', False),
     [], False)"
proof (induction es arbitrary: r c first)
  case (Cons e es)
  show ?case
  proof (cases "prefix_Match p (bo_name (snd e))")
    case None
    then show ?thesis using Cons [of r c first] by (simp add: lv_body_def lv_listing_def)
  next
    case (Some m)
    obtain c1 where "lv_object env status page (snd e) (r, c, first, False) =
      Continue (Ok (r\<lparr>lv_Versions := lv_Versions r @ map (lv_item status) (all_versions ventries (snd e))\<rparr>,
                  c1, False, False))"
      using lv_object_all [OF assms(1,2)] by blast
    with Some Cons [of "r\<lparr>lv_Versions := lv_Versions r @
        map (lv_item status) (all_versions ventries (snd e))\<rparr>" c1 False]
      prefix_Match_no_delim_flat [OF assms(3) Some]
    show ?thesis by (simp add: lv_body_def lv_listing_def)
  qed
qed (simp add: lv_listing_def)

lemma ListBucketVersions_all:
  assumes "mem_bucket db bucket = Some b" "\<not> HasDelimiter p" "k \<le> 0"
  shows "mem_ListBucketVersions env bucket (Some p) (Some (emptyVersionsPage\<lparr>vp_MaxKeys := k\<rparr>)) db =
    (Ok ((NewListBucketVersionsResult bucket (Some p) (Some (emptyVersionsPage\<lparr>vp_MaxKeys := k\<rparr>)))
       \<lparr>lv_Versions := lv_listing ventries (bk_versioning b) p (oentries (bk_objects b))\<rparr>), db)"
proof -
  let ?pg = "emptyVersionsPage\<lparr>vp_MaxKeys := k\<rparr>"
  let ?r = "NewListBucketVersionsResult bucket (Some p) (Some ?pg)"
  let ?g = "gs_New (sl_iterator (env_osl env) (bk_objects b))"
  obtain e where y: "yields (gs_step (env_osl env)) ?g (oentries (bk_objects b)) e"
    and e: "\<not> gs_didSeek e"
      "oview (gs_inner e) = (oentries (bk_objects b), length (oentries (bk_objects b)))"
    using osl.gs_yields_new [of "bk_objects b"] by (elim exE conjE)
  have pg: "vp_MaxKeys ?pg \<le> 0" "vp_VersionIDMarker ?pg = ''''" "vp_KeyMarker ?pg = ''''"
    using assms(3) by (simp_all add: emptyVersionsPage_def)
  obtain c' f' where l: "list_range (lv_body env p (bk_versioning b) ?pg) (Ok (?r, 0, True, False))
      (oentries (bk_objects b)) =
    (Ok (?r\<lparr>lv_Versions := lv_Versions ?r @
             lv_listing ventries (bk_versioning b) p (oentries (bk_objects b))\<rparr>, c', f', False), [], False)"
    using lv_fold_all [OF pg(1,2) assms(2)] by blast
  have len: "length (oentries (bk_objects b)) < Suc (sl_len (env_osl env) (bk_objects b))"
    by (simp add: osl.len_entries)
  from go_range_yields [OF y len l] have
    g: "go_range (Suc (sl_len (env_osl env) (bk_objects b))) (gs_step (env_osl env))
       (lv_body env p (bk_versioning b) ?pg) (Ok (?r, 0, True, False)) ?g =
     Some (Ok (?r\<lparr>lv_Versions := lv_Versions ?r @
             lv_listing ventries (bk_versioning b) p (oentries (bk_objects b))\<rparr>, c', f', False), e)"
    by simp
  have "\<not> fst (gs_Next (env_osl env) e)"
    using osl.view_next [OF e(2)] e(1) by (simp add: gs_Next_def split_beta)
  then show ?thesis using assms(1) g pg(3)
    by (simp add: mem_ListBucketVersions_def Let_def del: go_range.simps)
      (simp add: NewListBucketVersionsResult_def)
qed

section \<open>DeleteMulti\<close>

lemma rm_all_plain:
  assumes "bk_versioning b \<noteq> VersioningEnabled" "rm_all env now names b src del = (del', b', src')"
  shows "key_state env ventries b' key =
      (if key \<in> set names then (fst (key_state env ventries b key), None)
       else key_state env ventries b key) \<and> src' = src"
  using assms
proof (induction names arbitrary: b del)
  case (Cons n names)
  obtain r1 b1 src1 where rm: "bucket_rm env b n now src = (r1, b1, src1)" by (metis prod_cases3)
  have "src1 = src" using rm by (simp add: rm_plain [OF Cons.prems(1)])
  with Cons.IH [of b1] Cons.prems rm rm_frame(2) [OF rm]
  show ?case by (auto simp: key_state_rm_plain [OF Cons.prems(1) rm])
qed simp

lemma mem_key_delete_multi:
  assumes "mem_bucket db bucket = Some b" "bk_versioning b \<noteq> VersioningEnabled"
    and "mem_DeleteMulti env bucket names db = (r, db')"
  shows "r = Ok \<lparr>md_Deleted = map (\<lambda>n. \<lparr>oid_Key = n, oid_VersionID = ''''\<rparr>) names, md_Error = []\<rparr>"
    "mem_key env ventries db' bucket' key =
       (if bucket' = bucket \<and> key \<in> set names then Some (fst (key_state env ventries b key), None)
        else mem_key env ventries db bucket' key)"
proof -
  obtain del b' src' where rm: "rm_all env (db_now db) names b (db_versionSource db) [] = (del, b', src')"
    by (metis prod_cases3)
  then have r: "r = Ok \<lparr>md_Deleted = del, md_Error = []\<rparr>"
    and db': "db' = (mem_set_bucket db bucket b')\<lparr>db_versionSource := src'\<rparr>"
    using assms(1,3) by (simp_all add: mem_DeleteMulti_def)
  show "r = Ok \<lparr>md_Deleted = map (\<lambda>n. \<lparr>oid_Key = n, oid_VersionID = ''''\<rparr>) names, md_Error = []\<rparr>"
    using rm_all_deleted [OF rm] r by simp
  show "mem_key env ventries db' bucket' key =
       (if bucket' = bucket \<and> key \<in> set names then Some (fst (key_state env ventries b key), None)
        else mem_key env ventries db bucket' key)"
    using rm_all_plain [OF assms(2) rm, of key] assms(1) by (simp add: db' mem_key_def)
qed

section \<open>Versions under later operations\<close>

lemma find_append_left: "find P xs = Some x \<Longrightarrow> find P (xs @ ys) = Some x"
  by (induction xs) (auto split: if_splits)

lemma find_distinct: "distinct (map f xs) \<Longrightarrow> x \<in> set xs \<Longrightarrow> find (\<lambda>y. f y = f x) xs = Some x"
  by (induction xs) (auto simp: image_iff)

lemma history_distinct:
  assumes "bucket_ok env ventries n bk"
  shows "distinct (map bd_versionID (history (key_state env ventries bk k)))"
proof (cases "bucket_object env bk k")
  case (Some obj)
  have "versions_ok ventries n (bk_versioning bk) k obj"
    using bucket_okD [OF assms Some] by (simp add: obj_ok_def)
  from versions_okD(4) [OF this] show ?thesis
    using Some by (simp add: key_state_def strict_sorted_iff)
qed (simp add: key_state_def)

lemma version_survives:
  assumes "mem_ok env ventries db" "mem_bucket db bucket = Some b" "vid \<noteq> ''''"
    and "mem_GetObjectVersion env bucket key vid rr db = (Ok obj, db)"
    and "mem_ok env ventries db'" "mem_bucket db' bucket = Some b'"
    and "history (key_state env ventries b' key) = history (key_state env ventries b key) @ newer"
  shows "mem_GetObjectVersion env bucket key vid rr db' = (Ok obj, db')"
proof -
  let ?st = "key_state env ventries b key" and ?st' = "key_state env ventries b' key"
  have st: "?st \<noteq> ([], None)"
  proof
    assume "?st = ([], None)"
    then have "bucket_object env b key = None"
      using key_state_None [OF mem_okD(4) [OF assms(1,2)]] by simp
    then show False using assms(2-4) by (simp add: mem_GetObjectVersion_def objectVersion_def)
  qed
  have get: "mem_GetObjectVersion env bucket key vid rr db =
     (rbind (case find (\<lambda>d. bd_versionID d = vid) (history ?st) of
               None \<Rightarrow> Err (ECode ErrNoSuchVersion) | Some d \<Rightarrow> Ok d)
        (\<lambda>ver. toObject ver rr True), db)"
    using assms(2) by (intro GetObjectVersion_history [OF assms(1-3) _ st]) (simp add: mem_key_def)
  then obtain d where d: "find (\<lambda>d. bd_versionID d = vid) (history ?st) = Some d"
    "toObject d rr True = Ok obj"
    using assms(4) by (auto split: option.splits)
  then have "history ?st \<noteq> []" by auto
  then have "?st' \<noteq> ([], None)" using assms(7) by (auto simp: history_def opt_list_def)
  then have "mem_GetObjectVersion env bucket key vid rr db' =
     (rbind (case find (\<lambda>d. bd_versionID d = vid) (history ?st') of
               None \<Rightarrow> Err (ECode ErrNoSuchVersion) | Some d \<Rightarrow> Ok d)
        (\<lambda>ver. toObject ver rr True), db')"
    using assms(6) by (intro GetObjectVersion_history [OF assms(5,6,3)]) (simp_all add: mem_key_def)
  then show ?thesis using find_append_left [OF d(1)] d(2) assms(7) by simp
qed

lemma mem_keyE:
  assumes "mem_key env ventries db bucket key = Some st"
  obtains b where "mem_bucket db bucket = Some b" "key_state env ventries b key = st"
  using assms by (auto simp: mem_key_def)

lemma GetObject_marker:
  assumes "mem_key env ventries db bucket key = Some (vs, Some d)" "bd_deleteMarker d"
  shows "mem_GetObject env bucket key rr db = (Err (KeyNotFound key), db)"
proof -
  obtain b where b: "mem_bucket db bucket = Some b" "key_state env ventries b key = (vs, Some d)"
    by (rule mem_keyE [OF assms(1)])
  then have "current_data env b key = Err (KeyNotFound key)"
    using assms(2) by (simp add: current_data_state [where ve = ventries])
  then show ?thesis using b(1) by (simp add: mem_GetObject_def)
qed

lemma versions_survive_put:
  assumes "mem_ok env ventries db" "mem_bucket db bucket = Some b"
    and "bk_versioning b = VersioningEnabled"
    and "vid \<noteq> ''''" "mem_GetObjectVersion env bucket key vid rr db = (Ok obj, db)"
    and "mem_PutObject env bucket key' meta input sz db = (Ok r, db')" "mem_count db' < 10 ^ 30"
  shows "mem_GetObjectVersion env bucket key vid rr db' = (Ok obj, db')"
proof -
  have ok': "mem_ok env ventries db'"
    using mem_ok_step [OF step_put [of env db bucket key' meta input sz] assms(1)] assms(6,7) by simp
  obtain item where "\<forall>bucket'' key''. mem_key env ventries db' bucket'' key'' =
      (if bucket'' = bucket \<and> key'' = key'
       then Some (spec_put (bk_versioning b = VersioningEnabled) item (key_state env ventries b key'))
       else mem_key env ventries db bucket'' key'')"
    using mem_key_put [OF assms(1,2,6)] by blast
  then have "mem_key env ventries db' bucket key =
      Some (if key = key' then (history (key_state env ventries b key), Some item)
            else key_state env ventries b key)"
    using assms(2,3) by (simp add: spec_put_def) (simp add: mem_key_def)
  then obtain b' where b': "mem_bucket db' bucket = Some b'" "key_state env ventries b' key =
      (if key = key' then (history (key_state env ventries b key), Some item)
       else key_state env ventries b key)"
    by (rule mem_keyE)
  then have "history (key_state env ventries b' key) =
      history (key_state env ventries b key) @ (if key = key' then [item] else [])"
    by simp
  from version_survives [OF assms(1,2,4,5) ok' b'(1) this] show ?thesis .
qed

lemma delete_marker_effects:
  assumes "mem_ok env ventries db" "mem_bucket db bucket = Some b"
    and "bk_versioning b = VersioningEnabled" "bucket_object env b key \<noteq> None"
    and "mem_DeleteObject env bucket key db = (r, db')" "mem_count db' < 10 ^ 30"
  shows "(\<exists>vid. r = Ok \<lparr>dr_IsDeleteMarker = True, dr_VersionID = vid\<rparr>) \<and>
    mem_GetObject env bucket key rr db' = (Err (KeyNotFound key), db') \<and>
    (\<forall>vid obj. vid \<noteq> '''' \<longrightarrow> mem_GetObjectVersion env bucket key vid None db = (Ok obj, db) \<longrightarrow>
       mem_GetObjectVersion env bucket key vid None db' = (Ok obj, db'))"
proof -
  obtain marker where m: "bd_deleteMarker marker"
    "r = Ok \<lparr>dr_IsDeleteMarker = True, dr_VersionID = bd_versionID marker\<rparr>"
    "mem_key env ventries db' bucket key = Some (history (key_state env ventries b key), Some marker)"
    using mem_key_delete_marker [OF assms(1-5)] by fastforce
  have ok': "mem_ok env ventries db'"
    using mem_ok_step [OF step_delete [of env db bucket key] assms(1)] assms(5,6) by simp
  obtain b' where b': "mem_bucket db' bucket = Some b'"
    "key_state env ventries b' key = (history (key_state env ventries b key), Some marker)"
    by (rule mem_keyE [OF m(3)])
  then have h: "history (key_state env ventries b' key) = history (key_state env ventries b key) @ [marker]"
    by simp
  show ?thesis
    using m(2) GetObject_marker [OF m(3,1)] version_survives [OF assms(1,2) _ _ ok' b'(1) h] by blast
qed

text \<open>Two ways in which a suspended bucket departs from the interface; see the findings.\<close>

lemma suspended_delete_nil:
  assumes "mem_ok env ventries db" "mem_bucket db bucket = Some b"
    and "bk_versioning b \<noteq> VersioningEnabled" "fst (key_state env ventries b key) \<noteq> []"
  shows "fst (mem_GetObject env bucket key rr (snd (mem_DeleteObject env bucket key db))) = Panic"
proof -
  obtain r db' where d: "mem_DeleteObject env bucket key db = (r, db')" by (metis surj_pair)
  then have "mem_key env ventries db' bucket key = Some (fst (key_state env ventries b key), None)"
    using mem_key_delete [OF assms(1-3) d] by simp
  then obtain b' where b': "mem_bucket db' bucket = Some b'"
    "key_state env ventries b' key = (fst (key_state env ventries b key), None)"
    by (rule mem_keyE)
  then have "bucket_object env b' key \<noteq> None"
    using assms(4)
    by (cases "bucket_object env b' key") (auto simp: key_state_def [of env ventries b'])
  then have "current_data env b' key = Panic"
    using b'(2) by (simp add: current_data_state [where ve = ventries])
  then show ?thesis using b'(1) d by (simp add: mem_GetObject_def)
qed

lemma suspended_put_drops:
  assumes "mem_ok env ventries db" "mem_bucket db bucket = Some b"
    and "bk_versioning b = VersioningSuspended" "snd (key_state env ventries b key) = Some d"
    and "mem_PutObject env bucket key meta input sz db = (Ok r, db')" "mem_count db' < 10 ^ 30"
  shows "mem_GetObjectVersion env bucket key (bd_versionID d) rr db' = (Err (ECode ErrNoSuchVersion), db')"
proof -
  let ?vs = "fst (key_state env ventries b key)"
  obtain obj where obj: "bucket_object env b key = Some obj" "bo_data obj = Some d"
    "key_state env ventries b key = (older ventries obj, Some d)"
    using assms(4) by (auto simp: key_state_def split: option.splits)
  have "versions_ok ventries (mem_count db) (bk_versioning b) key obj"
    using bucket_okD [OF mem_okD(4) [OF assms(1,2)] obj(1)] by (simp add: obj_ok_def)
  then have old: "x \<in> set ?vs \<Longrightarrow> bd_versionID x < bd_versionID d" for x
    using versions_okD(4) obj(2,3) by (fastforce simp: sorted_wrt_append)
  obtain item where item: "bd_versionID d < bd_versionID item"
    "mem_key env ventries db' bucket key = Some (?vs, Some item)"
    using mem_key_put [OF assms(1,2,5)] assms(3,6) obj(3)
    by (auto simp: spec_put_def)
  have ok': "mem_ok env ventries db'"
    using mem_ok_step [OF step_put [of env db bucket key meta input sz] assms(1)] assms(5,6) by simp
  obtain b' where b': "mem_bucket db' bucket = Some b'" by (rule mem_keyE [OF item(2)])
  have "find (\<lambda>x. bd_versionID x = bd_versionID d) (?vs @ [item]) = None"
    using item(1) by (auto simp: find_None_iff) (metis old order.irrefl)
  moreover have "bd_versionID d \<noteq> ''''"
    using history_below [OF mem_okD(4) [OF assms(1,2)], of d key] obj(3) by (auto simp: id_below_def)
  ultimately show ?thesis
    using GetObjectVersion_history [OF ok' b' _ item(2)] by simp
qed

end

end
