(* ===== verification/MemProperties.thy ===== *)
theory MemProperties
  imports MemVersionFacts
begin

text \<open>
  The properties of the in-memory back end, each for any two skip lists that meet the contract
  (hypothesis \<open>s3mem_laws\<close>), with their witnesses on concrete states.
\<close>

section \<open>Concrete states\<close>

text \<open>A back end with one empty bucket, and the same after a put.\<close>

definition demo_db0 where
  "demo_db0 = snd (mem_CreateBucket demo_env ''b'' (mem_New 1000 (Some 7)))"

definition demo_db1 where
  "demo_db1 =
     snd (mem_PutObject demo_env ''b'' ''k'' (Some [(''x'', ''1'')]) (bytes_reader ''hello'') 5 demo_db0)"

text \<open>The same bucket with versioning enabled, and two versions of a key in it.\<close>

definition demo_enabled :: VersioningConfiguration where
  "demo_enabled = \<lparr>vc_Status = VersioningEnabled, vc_MFADelete = MFADeleteNone\<rparr>"

definition demo_db2 where
  "demo_db2 = snd (mem_SetVersioningConfiguration ''b'' demo_enabled demo_db1)"

definition demo_db3 where
  "demo_db3 = snd (mem_PutObject demo_env ''b'' ''k'' (Some []) (bytes_reader ''again'') 5 demo_db2)"

lemma demo_reachable:
  "mem_reachable demo_env demo_db0" "mem_reachable demo_env demo_db1"
  "mem_reachable demo_env demo_db2" "mem_reachable demo_env demo_db3"
  unfolding demo_db0_def demo_db1_def demo_db2_def demo_db3_def
  by (intro reach_new reach_step [OF _ step_create] reach_step [OF _ step_put]
      reach_step [OF _ step_versioning])+

lemma demo_counts_le:
  "mem_count demo_db0 = 0" "mem_count demo_db1 \<le> 1" "mem_count demo_db2 \<le> 1" "mem_count demo_db3 \<le> 2"
proof -
  have 0: "mem_count demo_db0 = 0"
    by (simp add: demo_db0_def mem_CreateBucket_def mem_New_def mem_bucket_def mem_count_def
        newVersionGenerator_def source_count_def)
  have 1: "mem_count demo_db1 \<le> 1" using put_count_le [of demo_env _ _ _ _ _ demo_db0] 0
    by (simp add: demo_db1_def)
  have 2: "mem_count demo_db2 = mem_count demo_db1"
    by (simp add: demo_db2_def mem_SetVersioningConfiguration_def mem_count_def split: option.splits)
  have "mem_count demo_db3 \<le> mem_count demo_db2 + 1" unfolding demo_db3_def by (rule put_count_le)
  then have 3: "mem_count demo_db3 \<le> 2" using 1 2 by simp
  show "mem_count demo_db0 = 0" "mem_count demo_db1 \<le> 1" "mem_count demo_db2 \<le> 1"
    "mem_count demo_db3 \<le> 2" using 0 1 2 3 by simp_all
qed

lemma demo_counts:
  "mem_count demo_db0 < 10 ^ 30" "mem_count demo_db1 < 10 ^ 30" "mem_count demo_db2 < 10 ^ 30"
  "mem_count demo_db3 < 10 ^ 30"
  using demo_counts_le by simp_all

lemma demo_ok:
  "mem_ok demo_env alist_entries demo_db0" "mem_ok demo_env alist_entries demo_db1"
  "mem_ok demo_env alist_entries demo_db2" "mem_ok demo_env alist_entries demo_db3"
  using demo.mem_reachable_ok demo_reachable demo_counts by blast+

lemma demo_laws: "s3mem_laws demo_env alist_entries id alist_entries id"
  by (rule demo.s3mem_laws_axioms)

lemma demo_bucket0:
  "mem_bucket demo_db0 ''b'' =
     Some \<lparr>bk_name = ''b'', bk_versioning = VersioningNone, bk_creationDate = 1000, bk_objects = []\<rparr>"
  by (simp add: demo_db0_def mem_CreateBucket_def mem_New_def mem_bucket_def mem_set_bucket_def
      newBucket_def demo_env_def alist_skiplist_def)

lemma demo_object0: "bucket_object demo_env (the (mem_bucket demo_db0 ''b'')) key = None"
  by (simp add: demo_bucket0 bucket_object_def demo_env_def alist_skiplist_def)

lemma demo_key0:
  "key_state demo_env alist_entries (the (mem_bucket demo_db0 ''b'')) key = ([], None)"
  "mem_key demo_env alist_entries demo_db0 ''b'' key = Some ([], None)"
  "key_state demo_env alist_entries
     \<lparr>bk_name = ''b'', bk_versioning = VersioningNone, bk_creationDate = 1000, bk_objects = []\<rparr> key = ([], None)"
  using demo_object0 [of key] by (simp_all add: key_state_def mem_key_def demo_bucket0)

lemma put_keeps_bucket:
  assumes "mem_bucket db bucket = Some b"
  shows "\<exists>b'. mem_bucket (snd (mem_PutObject env bucket key meta input sz db)) bucket = Some b' \<and>
    bk_versioning b' = bk_versioning b"
  by (cases rule: mem_PutObject_cases [of env bucket key meta input sz db])
    (use assms in \<open>auto simp: bucket_put_def bucket_store_def Let_def split: prod.splits\<close>)

lemma demo_put1:
  obtains r where "mem_PutObject demo_env ''b'' ''k'' (Some [(''x'', ''1'')]) (bytes_reader ''hello'') 5
    demo_db0 = (Ok r, demo_db1)"
proof -
  let ?put = "mem_PutObject demo_env ''b'' ''k'' (Some [(''x'', ''1'')]) (bytes_reader ''hello'') 5 demo_db0"
  have "\<exists>vid. fst ?put = Ok \<lparr>pr_VersionID = vid\<rparr>"
    using demo.put_get [OF demo_bucket0, of "''k''" "bytes_reader ''hello''" 5 "[(''x'', ''1'')]"
        "fst ?put" demo_db1] demo_object0 [of "''k''"]
    by (auto simp: demo_db1_def bytes_reader_def max_int64_def demo_bucket0)
  then show thesis using that by (metis demo_db1_def prod.collapse)
qed

lemma demo_state1:
  obtains item where "bd_body item = ''hello''" "\<not> bd_deleteMarker item"
    "mem_key demo_env alist_entries demo_db1 ''b'' ''k'' = Some ([], Some item)"
proof -
  obtain r where "mem_PutObject demo_env ''b'' ''k'' (Some [(''x'', ''1'')]) (bytes_reader ''hello'') 5
    demo_db0 = (Ok r, demo_db1)" by (rule demo_put1)
  from demo.mem_key_put [OF demo_ok(1) demo_bucket0 this] show thesis
    using that by (auto simp: bytes_reader_def spec_put_def demo_key0)
qed

definition demo_b2 where "demo_b2 = the (mem_bucket demo_db2 ''b'')"
definition demo_b3 where "demo_b3 = the (mem_bucket demo_db3 ''b'')"

lemma demo_bucket2:
  "mem_bucket demo_db2 ''b'' = Some demo_b2" "bk_versioning demo_b2 = VersioningEnabled"
  "mem_key demo_env alist_entries demo_db2 ''b'' ''k'' =
     mem_key demo_env alist_entries demo_db1 ''b'' ''k''"
proof -
  obtain b1 where b1: "mem_bucket demo_db1 ''b'' = Some b1"
    using put_keeps_bucket [OF demo_bucket0] unfolding demo_db1_def by blast
  then have b2: "mem_bucket demo_db2 ''b'' = Some (setVersioning b1 True)"
    by (simp add: demo_db2_def mem_SetVersioningConfiguration_def demo_enabled_def mfa_Enabled_def
        vc_Enabled_def)
  then show "mem_bucket demo_db2 ''b'' = Some demo_b2" "bk_versioning demo_b2 = VersioningEnabled"
    by (simp_all add: demo_b2_def setVersioning_def)
  show "mem_key demo_env alist_entries demo_db2 ''b'' ''k'' =
      mem_key demo_env alist_entries demo_db1 ''b'' ''k''"
    using b1 b2 by (simp add: mem_key_def key_state_def)
qed

lemma demo_put3:
  obtains r where "mem_PutObject demo_env ''b'' ''k'' (Some []) (bytes_reader ''again'') 5 demo_db2 =
    (Ok r, demo_db3)"
proof -
  let ?put = "mem_PutObject demo_env ''b'' ''k'' (Some []) (bytes_reader ''again'') 5 demo_db2"
  obtain item where "mem_key demo_env alist_entries demo_db2 ''b'' ''k'' = Some ([], Some item)"
    using demo_state1 demo_bucket2(3) by metis
  then have "bo_data obj \<noteq> None" if "bucket_object demo_env demo_b2 ''k'' = Some obj" for obj
    using that demo_bucket2(1) by (simp add: mem_key_def key_state_def)
  then have "\<exists>vid. fst ?put = Ok \<lparr>pr_VersionID = vid\<rparr>"
    using demo.put_get [OF demo_bucket2(1), of "''k''" "bytes_reader ''again''" 5 "[]" "fst ?put" demo_db3]
    by (auto simp: demo_db3_def bytes_reader_def max_int64_def)
  then show thesis using that by (metis demo_db3_def prod.collapse)
qed

lemma demo_bucket3:
  "mem_bucket demo_db3 ''b'' = Some demo_b3" "bk_versioning demo_b3 = VersioningEnabled"
  "bucket_object demo_env demo_b3 ''k'' \<noteq> None"
proof -
  obtain b3 where b3: "mem_bucket demo_db3 ''b'' = Some b3" "bk_versioning b3 = VersioningEnabled"
    using put_keeps_bucket [OF demo_bucket2(1)] demo_bucket2(2) unfolding demo_db3_def by metis
  then show "mem_bucket demo_db3 ''b'' = Some demo_b3" "bk_versioning demo_b3 = VersioningEnabled"
    by (simp_all add: demo_b3_def)
  obtain r where r: "mem_PutObject demo_env ''b'' ''k'' (Some []) (bytes_reader ''again'') 5 demo_db2 =
    (Ok r, demo_db3)" by (rule demo_put3)
  obtain item where "mem_key demo_env alist_entries demo_db3 ''b'' ''k'' =
      Some (spec_put True item (key_state demo_env alist_entries demo_b2 ''k''))"
    using demo.mem_key_put [OF demo_ok(3) demo_bucket2(1) r] demo_bucket2(2) by auto
  then show "bucket_object demo_env demo_b3 ''k'' \<noteq> None"
    using b3
    by (cases "bucket_object demo_env b3 ''k''")
      (auto simp: mem_key_def spec_put_def key_state_def [of _ _ b3] demo_b3_def)
qed

lemma demo_count3: "mem_count demo_db3 \<le> 2"
  using demo_counts_le by simp

lemma demo_version2:
  obtains vid obj where "vid \<noteq> ''''" "ob_Contents obj = ''hello''"
    "mem_GetObjectVersion demo_env ''b'' ''k'' vid None demo_db2 = (Ok obj, demo_db2)"
proof -
  obtain item where item: "bd_body item = ''hello''"
    "mem_key demo_env alist_entries demo_db2 ''b'' ''k'' = Some ([], Some item)"
    using demo_state1 demo_bucket2(3) by metis
  then have st: "key_state demo_env alist_entries demo_b2 ''k'' = ([], Some item)"
    using demo_bucket2(1) by (simp add: mem_key_def)
  have vid: "bd_versionID item \<noteq> ''''"
    using demo.history_below [OF mem_okD(4) [OF demo_ok(3) demo_bucket2(1)], of item "''k''"] st
    by (auto simp: id_below_def)
  show thesis
    using demo.GetObjectVersion_history [OF demo_ok(3) demo_bucket2(1) vid item(2), of None] item(1)
    by (intro that [OF vid]) (auto simp: toObject_whole)
qed

text \<open>Versioning suspended, with an older and a current version of the key.\<close>

definition demo_db4 where
  "demo_db4 = snd (mem_SetVersioningConfiguration ''b''
     \<lparr>vc_Status = VersioningSuspended, vc_MFADelete = MFADeleteNone\<rparr> demo_db3)"

definition demo_b4 where "demo_b4 = setVersioning demo_b3 False"

lemma demo_bucket4:
  "mem_bucket demo_db4 ''b'' = Some demo_b4" "bk_versioning demo_b4 = VersioningSuspended"
  "fst (key_state demo_env alist_entries demo_b4 ''k'') \<noteq> []"
  "snd (key_state demo_env alist_entries demo_b4 ''k'') \<noteq> None"
proof -
  show b: "mem_bucket demo_db4 ''b'' = Some demo_b4" "bk_versioning demo_b4 = VersioningSuspended"
    using demo_bucket3(1,2)
    by (simp_all add: demo_db4_def demo_b4_def mem_SetVersioningConfiguration_def mfa_Enabled_def
        vc_Enabled_def setVersioning_def)
  obtain r where r: "mem_PutObject demo_env ''b'' ''k'' (Some []) (bytes_reader ''again'') 5 demo_db2 =
    (Ok r, demo_db3)" by (rule demo_put3)
  obtain item where i: "mem_key demo_env alist_entries demo_db2 ''b'' ''k'' = Some ([], Some item)"
    using demo_state1 demo_bucket2(3) by metis
  obtain item' where "mem_key demo_env alist_entries demo_db3 ''b'' ''k'' =
      Some (spec_put True item' (key_state demo_env alist_entries demo_b2 ''k''))"
    using demo.mem_key_put [OF demo_ok(3) demo_bucket2(1) r] demo_bucket2(2) by auto
  then have "key_state demo_env alist_entries demo_b3 ''k'' = ([item], Some item')"
    using i demo_bucket2(1) demo_bucket3(1) by (simp add: mem_key_def spec_put_def)
  then show "fst (key_state demo_env alist_entries demo_b4 ''k'') \<noteq> []"
    "snd (key_state demo_env alist_entries demo_b4 ''k'') \<noteq> None"
    by (simp_all add: demo_b4_def key_state_def)
qed

lemma demo_count4: "mem_count demo_db4 \<le> 2"
  using demo_count3
  by (simp add: demo_db4_def mem_SetVersioningConfiguration_def mem_count_def split: option.splits)

lemma demo_ok4: "mem_ok demo_env alist_entries demo_db4"
  using demo.mem_reachable_ok [of demo_db4] reach_step [OF demo_reachable(4) step_versioning] demo_count4
  by (simp add: demo_db4_def)

section \<open>Properties\<close>

text \<open>
  Put then get. In an existing bucket, on a key whose current version is not nil, a put of a
  readable body of the announced size succeeds, and a get of the key then returns this body, its
  size, its MD5, the version ID of the put, and the metadata of the request laid over the metadata
  of the version that was current.
\<close>

theorem put_then_get:
  assumes "s3mem_laws env oentries oview ventries vview" "mem_bucket db bucket = Some b"
    and "\<And>obj. bucket_object env b key = Some obj \<Longrightarrow> bo_data obj \<noteq> None"
    and "rd_err input = None" "int (length (rd_bytes input)) = sz" "sz \<le> max_int64"
    and "mem_PutObject env bucket key (Some m) input sz db = (r, db')"
  shows "\<exists>vid obj. r = Ok \<lparr>pr_VersionID = vid\<rparr> \<and>
    mem_GetObject env bucket key None db' = (Ok obj, db') \<and>
    ob_Name obj = key \<and> ob_Contents obj = rd_bytes input \<and> ob_Size obj = sz \<and>
    ob_Hash obj = env_md5 env (rd_bytes input) \<and> ob_VersionID obj = vid \<and> \<not> ob_IsDeleteMarker obj \<and>
    map_option map_of (ob_Metadata obj) =
      Some ((case current_data env b key of
               Ok d \<Rightarrow> map_of (case bd_metadata d of None \<Rightarrow> [] | Some es \<Rightarrow> es)
             | _ \<Rightarrow> Map.empty) ++ map_of m)"
  by (rule s3mem_laws.put_get [OF assms])

lemma put_then_get_witness:
  "\<exists>obj. mem_GetObject demo_env ''b'' ''k'' None demo_db1 = (Ok obj, demo_db1) \<and>
     ob_Contents obj = ''hello'' \<and> ob_Size obj = 5 \<and> ob_Hash obj = env_md5 demo_env ''hello''"
  using put_then_get [OF demo_laws demo_bucket0, of "''k''" "bytes_reader ''hello''" 5
      "[(''x'', ''1'')]" "fst (mem_PutObject demo_env ''b'' ''k'' (Some [(''x'', ''1'')])
                                (bytes_reader ''hello'') 5 demo_db0)" demo_db1]
    demo_object0 [of "''k''"]
  by (auto simp: demo_db1_def bytes_reader_def max_int64_def demo_bucket0)

text \<open>
  C1: \<open>PutObject\<close> refines the abstract put. A successful put changes the history of exactly one key:
  under enabled versioning the version that was current joins the older ones, otherwise it is
  replaced; the new current version has the body of the request, the reported version ID, and an ID
  above those of all versions the key had.
\<close>

theorem put_refines:
  assumes "s3mem_laws env oentries oview ventries vview" "mem_ok env ventries db"
    and "mem_bucket db bucket = Some b"
    and "mem_PutObject env bucket key meta input sz db = (Ok r, db')"
  shows "\<exists>item. bd_body item = rd_bytes input \<and> \<not> bd_deleteMarker item \<and> bd_name item = key \<and>
    (bk_versioning b = VersioningEnabled \<longrightarrow> pr_VersionID r = bd_versionID item) \<and>
    (mem_count db' < 10 ^ 30 \<longrightarrow>
       (\<forall>d \<in> set (history (key_state env ventries b key)). bd_versionID d < bd_versionID item)) \<and>
    (\<forall>bucket' key'. mem_key env ventries db' bucket' key' =
       (if bucket' = bucket \<and> key' = key
        then Some (spec_put (bk_versioning b = VersioningEnabled) item (key_state env ventries b key))
        else mem_key env ventries db bucket' key'))"
  by (rule s3mem_laws.mem_key_put [OF assms])

lemma put_refines_witness:
  "\<exists>item. bd_body item = ''hello'' \<and>
     mem_key demo_env alist_entries demo_db1 ''b'' ''k'' = Some ([], Some item) \<and>
     mem_key demo_env alist_entries demo_db1 ''b'' ''other'' = Some ([], None)"
proof -
  obtain r where "mem_PutObject demo_env ''b'' ''k'' (Some [(''x'', ''1'')]) (bytes_reader ''hello'') 5
    demo_db0 = (Ok r, demo_db1)" by (rule demo_put1)
  from put_refines [OF demo_laws demo_ok(1) demo_bucket0 this] show ?thesis
    by (auto simp: bytes_reader_def spec_put_def demo_key0)
qed

text \<open>
  C27: deleting a key while versioning is not enabled removes its current version and nothing else:
  the older versions of the key and every other key keep their histories. This holds of buckets whose versioning is
  suspended as well, where the contract of \<open>DeleteObject\<close> (\<open>backend.go\<close>, after S3) wants no version
  removed and a delete marker inserted: the code deletes the version for good and inserts none.
\<close>

theorem delete_refines:
  assumes "s3mem_laws env oentries oview ventries vview" "mem_ok env ventries db"
    and "mem_bucket db bucket = Some b" "bk_versioning b \<noteq> VersioningEnabled"
    and "mem_DeleteObject env bucket key db = (r, db')"
  shows "r = Ok emptyDeleteResult \<and>
    mem_key env ventries db' bucket' key' =
       (if bucket' = bucket \<and> key' = key then Some (fst (key_state env ventries b key), None)
        else mem_key env ventries db bucket' key')"
  by (rule s3mem_laws.mem_key_delete [OF assms])

lemma delete_refines_witness:
  "\<exists>item. mem_key demo_env alist_entries demo_db1 ''b'' ''k'' = Some ([], Some item) \<and>
     mem_key demo_env alist_entries (snd (mem_DeleteObject demo_env ''b'' ''k'' demo_db1)) ''b'' ''k'' =
       Some ([], None)"
proof -
  obtain item where i: "mem_key demo_env alist_entries demo_db1 ''b'' ''k'' = Some ([], Some item)"
    using demo_state1 by metis
  then obtain b where b: "mem_bucket demo_db1 ''b'' = Some b" "key_state demo_env alist_entries b ''k'' = ([], Some item)"
    by (auto simp: mem_key_def split: option.splits)
  have "bk_versioning b = VersioningNone"
    using b(1) put_keeps_bucket [OF demo_bucket0, of demo_env "''k''" "Some [(''x'', ''1'')]" "bytes_reader ''hello''" 5]
    by (simp add: demo_db1_def)
  then show ?thesis
    using delete_refines [OF demo_laws demo_ok(2) b(1) _ surjective_pairing, of "''k''" "''b''" "''k''"] i b(2)
    by simp
qed

text \<open>
  Deleting an existing key under enabled versioning adds a delete marker. The result names the
  marker, a get of the key then answers \<open>NoSuchKey\<close>, and every version of the key that could be read
  by its ID before still reads the same.
\<close>

theorem delete_adds_marker:
  assumes "s3mem_laws env oentries oview ventries vview" "mem_ok env ventries db"
    and "mem_bucket db bucket = Some b" "bk_versioning b = VersioningEnabled"
    and "bucket_object env b key \<noteq> None"
    and "mem_DeleteObject env bucket key db = (r, db')" "mem_count db' < 10 ^ 30"
  shows "(\<exists>vid. r = Ok \<lparr>dr_IsDeleteMarker = True, dr_VersionID = vid\<rparr>) \<and>
    mem_GetObject env bucket key rr db' = (Err (KeyNotFound key), db') \<and>
    (\<forall>vid obj. vid \<noteq> '''' \<longrightarrow> mem_GetObjectVersion env bucket key vid None db = (Ok obj, db) \<longrightarrow>
       mem_GetObjectVersion env bucket key vid None db' = (Ok obj, db'))"
  by (rule s3mem_laws.delete_marker_effects [OF assms])

lemma delete_adds_marker_witness:
  "mem_GetObject demo_env ''b'' ''k'' None (snd (mem_DeleteObject demo_env ''b'' ''k'' demo_db3)) =
     (Err (KeyNotFound ''k''), snd (mem_DeleteObject demo_env ''b'' ''k'' demo_db3))"
proof -
  let ?r = "mem_DeleteObject demo_env ''b'' ''k'' demo_db3"
  have "mem_count (snd ?r) \<le> mem_count demo_db3 + 1"
    by (auto simp: mem_DeleteObject_def mem_count_def bucket_rm_def Let_def
        split: option.splits prod.splits dest: put_count)
  then have c: "mem_count (snd ?r) < 10 ^ 30" using demo_count3 by simp
  show ?thesis
    using delete_adds_marker [OF demo_laws demo_ok(4) demo_bucket3(1,2,3) surjective_pairing c] by simp
qed

text \<open>
  A version is immutable. While versioning is enabled, whatever is put under whatever key, a
  version that can be read by its ID still reads the same afterwards.
\<close>

theorem versions_immutable:
  assumes "s3mem_laws env oentries oview ventries vview" "mem_ok env ventries db"
    and "mem_bucket db bucket = Some b" "bk_versioning b = VersioningEnabled"
    and "vid \<noteq> ''''" "mem_GetObjectVersion env bucket key vid rr db = (Ok obj, db)"
    and "mem_PutObject env bucket key' meta input sz db = (Ok r, db')" "mem_count db' < 10 ^ 30"
  shows "mem_GetObjectVersion env bucket key vid rr db' = (Ok obj, db')"
  by (rule s3mem_laws.versions_survive_put [OF assms])

lemma versions_immutable_witness:
  "\<exists>vid obj. ob_Contents obj = ''hello'' \<and>
     mem_GetObjectVersion demo_env ''b'' ''k'' vid None demo_db2 = (Ok obj, demo_db2) \<and>
     mem_GetObjectVersion demo_env ''b'' ''k'' vid None demo_db3 = (Ok obj, demo_db3)"
proof -
  obtain r where r: "mem_PutObject demo_env ''b'' ''k'' (Some []) (bytes_reader ''again'') 5 demo_db2 =
      (Ok r, demo_db3)" by (rule demo_put3)
  obtain vid obj where v: "vid \<noteq> ''''" "ob_Contents obj = ''hello''"
    "mem_GetObjectVersion demo_env ''b'' ''k'' vid None demo_db2 = (Ok obj, demo_db2)"
    by (rule demo_version2)
  show ?thesis
    using versions_immutable [OF demo_laws demo_ok(3) demo_bucket2(1,2) v(1,3) r demo_counts(4)] v(2,3)
    by blast
qed

text \<open>
  C28: deleting one version by its ID removes that version from the history of its key, current or
  older, and changes nothing else.
\<close>

theorem delete_version_refines:
  assumes "s3mem_laws env oentries oview ventries vview" "mem_ok env ventries db"
    and "mem_bucket db bucket = Some b"
    and "mem_DeleteObjectVersion env bucket key vid db = (r, db')"
  shows "mem_key env ventries db' bucket' key' =
       (if bucket' = bucket \<and> key' = key then Some (spec_rmVersion vid (key_state env ventries b key))
        else mem_key env ventries db bucket' key')"
  by (rule s3mem_laws.mem_key_delete_version [OF assms])

lemma delete_version_refines_witness:
  "mem_key demo_env alist_entries (snd (mem_DeleteObjectVersion demo_env ''b'' ''k'' ''v'' demo_db0)) ''b'' ''k'' =
     Some ([], None)"
  using delete_version_refines [OF demo_laws demo_ok(1) demo_bucket0 surjective_pairing,
      of "''k''" "''v''" "''b''" "''k''"]
  by (simp add: demo_key0 spec_rmVersion_def has_versionID_def)

text \<open>
  Deleting many keys at once, in a bucket without enabled versioning: every key of the request is
  reported as deleted, without errors, and loses its current version; no other key changes.
\<close>

theorem delete_multi_refines:
  assumes "s3mem_laws env oentries oview ventries vview"
    and "mem_bucket db bucket = Some b" "bk_versioning b \<noteq> VersioningEnabled"
    and "mem_DeleteMulti env bucket names db = (r, db')"
  shows "r = Ok \<lparr>md_Deleted = map (\<lambda>n. \<lparr>oid_Key = n, oid_VersionID = ''''\<rparr>) names, md_Error = []\<rparr> \<and>
    mem_key env ventries db' bucket' key =
       (if bucket' = bucket \<and> key \<in> set names then Some (fst (key_state env ventries b key), None)
        else mem_key env ventries db bucket' key)"
  using s3mem_laws.mem_key_delete_multi [OF assms] by blast

lemma delete_multi_refines_witness:
  "fst (mem_DeleteMulti demo_env ''b'' [''k'', ''j''] demo_db0) =
     Ok \<lparr>md_Deleted = [\<lparr>oid_Key = ''k'', oid_VersionID = ''''\<rparr>, \<lparr>oid_Key = ''j'', oid_VersionID = ''''\<rparr>],
         md_Error = []\<rparr>"
  using delete_multi_refines [OF demo_laws demo_bucket0 _ surjective_pairing, of "[''k'', ''j'']"] by simp

text \<open>
  C24: a get with a byte range \<open>a-b\<close> of a current object returns the bytes from \<open>a\<close> to \<open>b\<close> inclusive, cut
  at the end of the object, with the range described; a start beyond the object is
  \<open>InvalidRange\<close>. Positions are below \<open>2 ^ 63 - 1\<close>; see the findings for the largest one.
\<close>

theorem get_range:
  assumes "mem_bucket db bucket = Some b" "bucket_object env b key = Some obj" "bo_data obj = Some d"
    and "\<not> bd_deleteMarker d" "0 \<le> x" "x \<le> y" "y < max_int64"
    and "sz = int (length (bd_body d))" "sz \<le> max_int64"
  shows "if x < sz
    then \<exists>o'. mem_GetObject env bucket key (Some \<lparr>rr_Start = x, rr_End = y, rr_FromEnd = False\<rparr>) db =
           (Ok o', db) \<and>
         ob_Contents o' = take (nat (min y (sz - 1) - x + 1)) (drop (nat x) (bd_body d)) \<and>
         ob_Range o' = Some \<lparr>or_Start = x, or_Length = min y (sz - 1) - x + 1\<rparr> \<and> ob_Size o' = sz
    else mem_GetObject env bucket key (Some \<lparr>rr_Start = x, rr_End = y, rr_FromEnd = False\<rparr>) db =
           (Err (ECode ErrInvalidRange), db)"
proof -
  let ?rr = "Some \<lparr>rr_Start = x, rr_End = y, rr_FromEnd = False\<rparr>"
  have rg: "request_Range ?rr sz = (if x < sz then Ok (Some \<lparr>or_Start = x, or_Length = min y (sz - 1) - x + 1\<rparr>)
            else Err (ECode ErrInvalidRange))"
    using assms(5-9) by (intro request_Range_first_last) simp_all
  have sz: "i64 sz = sz" using assms(8,9) by (simp add: is_i64_def min_int64_def)
  show ?thesis
  proof (cases "x < sz")
    case True
    then have "toObject d ?rr True = Ok
      \<lparr>ob_Name = bd_name d, ob_Metadata = bd_metadata d, ob_Size = sz,
       ob_Contents = take (nat (min y (sz - 1) - x + 1)) (drop (nat x) (bd_body d)),
       ob_Hash = bd_hash d, ob_Range = Some \<lparr>or_Start = x, or_Length = min y (sz - 1) - x + 1\<rparr>,
       ob_VersionID = bd_versionID d, ob_IsDeleteMarker = bd_deleteMarker d\<rparr>"
      using toObject_range [of d ?rr "\<lparr>or_Start = x, or_Length = min y (sz - 1) - x + 1\<rparr>"] rg assms
      by simp
    then show ?thesis using True GetObject_current [OF assms(1-4), of ?rr]
      by (simp add: mask_version_def)
  next
    case False
    then show ?thesis using rg sz GetObject_current [OF assms(1-4), of ?rr] assms(8)
      by (simp add: toObject_def Let_def)
  qed
qed

text \<open>A bucket with one current object, written out.\<close>

definition demo_data :: bucketData where
  "demo_data =
     \<lparr>bd_name = ''k'', bd_lastModified = 0, bd_versionID = ''v'', bd_deleteMarker = False,
      bd_body = ''hello'', bd_hash = '''', bd_etag = '''', bd_metadata = None\<rparr>"

definition demo_lit where
  "demo_lit =
     \<lparr>db_buckets = [(''b'', \<lparr>bk_name = ''b'', bk_versioning = VersioningNone, bk_creationDate = 0,
        bk_objects = [(''k'', \<lparr>bo_name = ''k'', bo_data = Some demo_data,
                               bo_versions = (None :: (string \<times> bucketData) list option)\<rparr>)]\<rparr>)],
      db_versionSource = (newVersionGenerator 7 0, []), db_now = 0\<rparr>"

lemma get_range_witness:
  "\<exists>o'. mem_GetObject demo_env ''b'' ''k'' (Some \<lparr>rr_Start = 1, rr_End = 3, rr_FromEnd = False\<rparr>) demo_lit =
     (Ok o', demo_lit) \<and> ob_Contents o' = ''ell''"
proof -
  have b: "mem_bucket demo_lit ''b'' = Some (the (mem_bucket demo_lit ''b''))"
    "bucket_object demo_env (the (mem_bucket demo_lit ''b'')) ''k'' =
       Some \<lparr>bo_name = ''k'', bo_data = Some demo_data, bo_versions = None\<rparr>"
    by (simp_all add: mem_bucket_def demo_lit_def bucket_object_def demo_env_def alist_skiplist_def)
  show ?thesis
    using get_range [OF b, of demo_data 1 3 5]
    by (auto simp: demo_data_def max_int64_def eval_nat_numeral)
qed

text \<open>
  No nil dereference without versioning. In a well-formed state, head and get of any key in a
  bucket that never had versioning enabled do not panic, whatever was done before.
\<close>

theorem unversioned_no_panic:
  assumes "mem_ok env ventries db" "mem_bucket db bucket = Some b" "bk_versioning b = VersioningNone"
  shows "fst (mem_HeadObject env bucket key db) \<noteq> Panic \<and>
         fst (mem_GetObject env bucket key None db) \<noteq> Panic"
proof -
  have "bo_data obj \<noteq> None" if "bucket_object env b key = Some obj" for obj
    using mem_okD(4) [OF assms(1,2)] that assms(3)
    by (auto simp: bucket_ok_def obj_ok_def versions_ok_def older_def history_def opt_list_def
        split: option.splits)
  then have "current_data env b key \<noteq> Panic"
    by (auto simp: current_data_def split: option.splits)
  then show ?thesis using assms(2)
    by (cases "current_data env b key")
      (simp_all add: mem_HeadObject_def mem_GetObject_def toObject_head toObject_whole)
qed

lemma unversioned_no_panic_witness:
  "fst (mem_HeadObject demo_env ''b'' ''k'' demo_db0) \<noteq> Panic"
  using unversioned_no_panic [OF demo_ok(1) demo_bucket0] by simp

text \<open>
  C37: deleting a key with older versions while versioning is suspended leaves the object without a
  current version, and the next get of the key dereferences nil.
\<close>

theorem suspended_delete_panics:
  assumes "s3mem_laws env oentries oview ventries vview" "mem_ok env ventries db"
    and "mem_bucket db bucket = Some b" "bk_versioning b \<noteq> VersioningEnabled"
    and "fst (key_state env ventries b key) \<noteq> []"
  shows "fst (mem_GetObject env bucket key rr (snd (mem_DeleteObject env bucket key db))) = Panic"
  by (rule s3mem_laws.suspended_delete_nil [OF assms])

lemma suspended_delete_panics_witness:
  "fst (mem_GetObject demo_env ''b'' ''k'' None (snd (mem_DeleteObject demo_env ''b'' ''k'' demo_db4))) = Panic"
  using suspended_delete_panics [OF demo_laws demo_ok4 demo_bucket4(1), of "''k''" None]
    demo_bucket4(2,3) by simp

text \<open>
  A put while versioning is suspended loses the version that was current, even if it was stored
  with a version ID under enabled versioning: reading it by its ID answers \<open>NoSuchVersion\<close>.
\<close>

theorem suspended_put_loses_version:
  assumes "s3mem_laws env oentries oview ventries vview" "mem_ok env ventries db"
    and "mem_bucket db bucket = Some b" "bk_versioning b = VersioningSuspended"
    and "snd (key_state env ventries b key) = Some d"
    and "mem_PutObject env bucket key meta input sz db = (Ok r, db')" "mem_count db' < 10 ^ 30"
  shows "mem_GetObjectVersion env bucket key (bd_versionID d) rr db' = (Err (ECode ErrNoSuchVersion), db')"
  by (rule s3mem_laws.suspended_put_drops [OF assms])

lemma suspended_put_loses_version_witness:
  "\<exists>vid obj db'.
     mem_GetObjectVersion demo_env ''b'' ''k'' vid None demo_db4 = (Ok obj, demo_db4) \<and>
     db' = snd (mem_PutObject demo_env ''b'' ''k'' (Some []) (bytes_reader ''x'') 1 demo_db4) \<and>
     mem_GetObjectVersion demo_env ''b'' ''k'' vid None db' = (Err (ECode ErrNoSuchVersion), db')"
proof -
  let ?put = "mem_PutObject demo_env ''b'' ''k'' (Some []) (bytes_reader ''x'') 1 demo_db4"
  obtain d where d: "snd (key_state demo_env alist_entries demo_b4 ''k'') = Some d"
    using demo_bucket4(4) by auto
  have vid: "bd_versionID d \<noteq> ''''"
    using demo.history_below [OF mem_okD(4) [OF demo_ok4 demo_bucket4(1)], of d "''k''"] d
    by (auto simp: id_below_def history_def opt_list_def)
  have "bo_data obj \<noteq> None" if "bucket_object demo_env demo_b4 ''k'' = Some obj" for obj
    using that d by (simp add: key_state_def)
  then obtain v where "fst ?put = Ok \<lparr>pr_VersionID = v\<rparr>"
    using demo.put_get [OF demo_bucket4(1), of "''k''" "bytes_reader ''x''" 1 "[]" "fst ?put" "snd ?put"]
    by (auto simp: bytes_reader_def max_int64_def)
  then have put: "?put = (Ok \<lparr>pr_VersionID = v\<rparr>, snd ?put)" by (metis prod.collapse)
  have "mem_count (snd ?put) \<le> mem_count demo_db4 + 1"
    by (cases rule: mem_PutObject_cases [of demo_env "''b''" "''k''" "Some []" "bytes_reader ''x''" 1 demo_db4])
      (auto simp: mem_count_def dest: put_count)
  then have c: "mem_count (snd ?put) < 10 ^ 30" using demo_count4 by simp
  obtain vs where "key_state demo_env alist_entries demo_b4 ''k'' = (vs, Some d)"
    using d by (metis prod.collapse)
  then obtain d' where "find (\<lambda>x. bd_versionID x = bd_versionID d) (vs @ [d]) = Some d'"
    "mem_key demo_env alist_entries demo_db4 ''b'' ''k'' = Some (vs, Some d)"
    using demo_bucket4(1) by (cases "find (\<lambda>x. bd_versionID x = bd_versionID d) (vs @ [d])")
      (auto simp: find_None_iff mem_key_def)
  then have "\<exists>obj. mem_GetObjectVersion demo_env ''b'' ''k'' (bd_versionID d) None demo_db4 = (Ok obj, demo_db4)"
    using demo.GetObjectVersion_history [OF demo_ok4 demo_bucket4(1) vid, of "''k''" "(vs, Some d)" None]
    by (auto simp: toObject_whole)
  then show ?thesis
    using suspended_put_loses_version [OF demo_laws demo_ok4 demo_bucket4(1,2) d put c] by blast
qed

section \<open>Listings\<close>

text \<open>
  C29: a listing without delimiter and without page limit, in a bucket where every object has a
  current version: sorted by key, and exactly the current versions that are not delete markers,
  start with the prefix, and lie behind the marker.
\<close>

theorem list_complete:
  assumes "s3mem_laws env oentries oview ventries vview" "mem_ok env ventries db"
    and "mem_bucket db bucket = Some b" "all_current env b" "\<not> HasDelimiter p" "k \<le> 0"
  shows "\<exists>ol. mem_ListBucket env bucket (Some p) \<lparr>pg_Marker = m, pg_HasMarker = hm, pg_MaxKeys = k\<rparr> db =
      (Ok ol, db) \<and>
    sorted_wrt (<) (map ct_Key (ol_Contents ol)) \<and> ol_CommonPrefixes ol = [] \<and> \<not> ol_IsTruncated ol \<and>
    set (ol_Contents ol) =
      content_of ` {d. \<exists>key. snd (key_state env ventries b key) = Some d \<and> \<not> bd_deleteMarker d \<and>
        (HasPrefix p \<longrightarrow> has_prefix (bd_name d) (pfx_Prefix p)) \<and> (m = '''' \<or> m < key)}"
proof -
  note ok = mem_okD(4) [OF assms(2,3)]
  have vis: "visible p d \<longleftrightarrow> \<not> bd_deleteMarker d \<and> (HasPrefix p \<longrightarrow> has_prefix (bd_name d) (pfx_Prefix p))" for d
    using prefix_Match_no_delim [OF assms(5)] by (auto simp: visible_def)
  show ?thesis
    using s3mem_laws.ListBucket_flat [OF assms(1,3,4,5,6), of m hm]
      s3mem_laws.listing_sorted [OF assms(1) ok assms(4), of p m]
      s3mem_laws.listing_set [OF assms(1) ok assms(4), of p m]
    by (auto simp: vis NewObjectList_def)
qed

lemma list_complete_witness:
  "\<exists>ol. mem_ListBucket demo_env ''b'' (Some emptyPrefix) emptyBucketPage demo_db0 = (Ok ol, demo_db0) \<and>
     ol_Contents ol = []"
  using list_complete [OF demo_laws demo_ok(1) demo_bucket0, of emptyPrefix 0 "''''" False]
  by (auto simp: emptyPrefix_def emptyBucketPage_def all_current_def demo_key0
      demo_object0 [unfolded demo_bucket0, simplified])

text \<open>
  C8: pages of a listing without delimiter, in a bucket in which every key has a current version and no object has the
  empty key. A page of at most \<open>k\<close> keys behind a marker is the first \<open>k\<close> entries \<open>xs\<close> of the unlimited
  listing; a page that is not truncated is all of it; and a truncated page names its last key as next marker,
  behind which the listing is the rest of \<open>xs\<close>. So the pages put together are the whole listing, without loss
  and without repetition. The condition on the empty key, which a browser upload can store, is needed: as a next
  marker it means no marker, and paging starts again (\<open>empty_key_loops\<close>).
\<close>

theorem list_pages:
  assumes "s3mem_laws env oentries oview ventries vview" "mem_ok env ventries db"
    and "mem_bucket db bucket = Some b" "all_current env b" "\<not> HasDelimiter p"
    and "0 < k" "k \<le> max_int64" "bucket_object env b '''' = None"
    and "mem_ListBucket env bucket (Some p) \<lparr>pg_Marker = m, pg_HasMarker = hm, pg_MaxKeys = 0\<rparr> db =
      (Ok whole, db)"
  shows "\<exists>ol. mem_ListBucket env bucket (Some p) \<lparr>pg_Marker = m, pg_HasMarker = hm, pg_MaxKeys = k\<rparr> db =
      (Ok ol, db) \<and>
    ol_Contents ol = take (nat k) (ol_Contents whole) \<and>
    (\<not> ol_IsTruncated ol \<longrightarrow> ol_Contents ol = ol_Contents whole) \<and>
    (ol_IsTruncated ol \<longrightarrow>
       int (length (ol_Contents ol)) = k \<and> ol_NextMarker ol = ct_Key (last (ol_Contents ol)) \<and>
       (\<exists>rest. mem_ListBucket env bucket (Some p)
            \<lparr>pg_Marker = ol_NextMarker ol, pg_HasMarker = True, pg_MaxKeys = 0\<rparr> db = (Ok rest, db) \<and>
          ol_Contents rest = drop (nat k) (ol_Contents whole)))"
proof -
  note flat = s3mem_laws.ListBucket_flat [OF assms(1,3,4,5) order_refl]
  have whole: "ol_Contents whole = listing p (after_marker m (oentries (bk_objects b)))"
    using flat [of m hm] assms(9) by auto
  obtain ol where
    "mem_ListBucket env bucket (Some p) \<lparr>pg_Marker = m, pg_HasMarker = hm, pg_MaxKeys = k\<rparr> db = (Ok ol, db)"
    "ol_CommonPrefixes ol = []" "ol_Contents ol = take (nat k) (ol_Contents whole)"
    "\<not> ol_IsTruncated ol \<longrightarrow> ol_Contents ol = ol_Contents whole"
    "ol_IsTruncated ol \<longrightarrow> int (length (ol_Contents ol)) = k \<and>
       ol_NextMarker ol = ct_Key (last (ol_Contents ol)) \<and>
       listing p (after_marker (ol_NextMarker ol) (oentries (bk_objects b))) =
         drop (nat k) (ol_Contents whole)"
    by (rule s3mem_laws.ListBucket_page [OF assms(1,3) mem_okD(4) [OF assms(2,3)] assms(4-8) whole,
        where hm = hm])
  then show ?thesis using flat [of "ol_NextMarker ol" True] by (intro exI [of _ ol]) auto
qed

lemma list_pages_witness:
  "\<exists>ol. mem_ListBucket demo_env ''b'' (Some emptyPrefix) (emptyBucketPage\<lparr>pg_MaxKeys := 2\<rparr>) demo_db0 =
     (Ok ol, demo_db0) \<and> ol_Contents ol = []"
proof -
  have c: "all_current demo_env \<lparr>bk_name = ''b'', bk_versioning = VersioningNone,
      bk_creationDate = 1000, bk_objects = []\<rparr>"
    using demo_object0 by (simp add: all_current_def demo_bucket0)
  have "\<not> HasDelimiter emptyPrefix" by (simp add: emptyPrefix_def)
  from list_pages [OF demo_laws demo_ok(1) demo_bucket0 c this, of 2 "''''" False]
    demo.ListBucket_flat [OF demo_bucket0 c this order_refl, of "''''" False]
    demo_object0 [of "''''"]
  show ?thesis
    by (auto simp: demo_bucket0 emptyBucketPage_def after_marker_def alist_entries_def max_int64_def)
qed

text \<open>
  A listing with a one-character delimiter, for keys and prefix that do not start with it: the
  contents are the keys whose S3 roll-up is the key itself, the common prefixes are, each once, the
  roll-ups of the other keys.
\<close>

theorem list_rolled_up:
  assumes "s3mem_laws env oentries oview ventries vview"
    and "mem_bucket db bucket = Some b" "all_current env b"
    and "HasDelimiter p" "pfx_Delimiter p = [c]" "no_lead c (pfx_Prefix p)" "k \<le> 0"
    and "\<forall>e \<in> set (oentries (bk_objects b)). no_lead c (bd_name (entry_data e))"
    and "es = after_marker m (oentries (bk_objects b))"
  shows "\<exists>ol. mem_ListBucket env bucket (Some p) \<lparr>pg_Marker = m, pg_HasMarker = hm, pg_MaxKeys = k\<rparr> db =
      (Ok ol, db) \<and>
    ol_Contents ol = map content_of (filter (\<lambda>d. \<not> bd_deleteMarker d \<and>
       s3_rollup c (pfx_Prefix p) (bd_name d) = Some (bd_name d)) (map entry_data es)) \<and>
    distinct (ol_CommonPrefixes ol) \<and>
    set (ol_CommonPrefixes ol) = {part. \<exists>e \<in> set es. \<not> bd_deleteMarker (entry_data e) \<and>
       s3_rollup c (pfx_Prefix p) (bd_name (entry_data e)) = Some part \<and>
       part \<noteq> bd_name (entry_data e)} \<and>
    \<not> ol_IsTruncated ol"
proof -
  have roll: "rolled c pre d = Some part \<longleftrightarrow>
      \<not> bd_deleteMarker d \<and> s3_rollup c pre (bd_name d) = Some part" for pre d part
    by (simp add: rolled_def)
  obtain ol where
    "mem_ListBucket env bucket (Some p) \<lparr>pg_Marker = m, pg_HasMarker = hm, pg_MaxKeys = k\<rparr> db = (Ok ol, db)"
    "ol_Contents ol = plain_entries c (pfx_Prefix p) (after_marker m (oentries (bk_objects b)))"
    "distinct (ol_CommonPrefixes ol)"
    "set (ol_CommonPrefixes ol) = common_parts c (pfx_Prefix p) (after_marker m (oentries (bk_objects b)))"
    "\<not> ol_IsTruncated ol"
    by (rule s3mem_laws.ListBucket_rolled [OF assms(1-7) bspec [OF assms(8)]])
  then show ?thesis
    by (intro exI [of _ ol]) (simp add: plain_entries_def common_parts_def roll assms(9) conj_assoc)
qed

lemma list_rolled_up_witness:
  "\<exists>ol. mem_ListBucket demo_env ''b'' (Some (NewPrefix None (Some ''/''))) emptyBucketPage demo_lit =
     (Ok ol, demo_lit) \<and> map ct_Key (ol_Contents ol) = [''k''] \<and> ol_CommonPrefixes ol = []"
proof -
  let ?b = "the (mem_bucket demo_lit ''b'')" and ?p = "NewPrefix None (Some ''/'')"
  have b: "mem_bucket demo_lit ''b'' = Some ?b" by (simp add: mem_bucket_def demo_lit_def)
  have es: "alist_entries (bk_objects ?b) =
      [(''k'', \<lparr>bo_name = ''k'', bo_data = Some demo_data, bo_versions = None\<rparr>)]"
    by (simp add: mem_bucket_def demo_lit_def alist_entries_def)
  have cur: "all_current demo_env ?b"
    by (simp add: all_current_def bucket_object_def mem_bucket_def demo_lit_def demo_env_def
        alist_skiplist_def)
  have lead: "\<forall>e \<in> set (alist_entries (bk_objects ?b)). no_lead (CHR ''/'') (bd_name (entry_data e))"
    by (simp add: es entry_data_def demo_data_def no_lead_def)
  have p: "HasDelimiter ?p" "pfx_Delimiter ?p = [CHR ''/'']" "no_lead (CHR ''/'') (pfx_Prefix ?p)"
    by (simp_all add: NewPrefix_def no_lead_def)
  have roll: "s3_rollup (CHR ''/'') '''' ''k'' = Some ''k''" by (simp add: s3_rollup_def go_string_defs)
  have pre: "pfx_Prefix ?p = ''''" by (simp add: NewPrefix_def)
  let ?es = "after_marker '''' (alist_entries (bk_objects ?b))"
  have d: "map entry_data ?es = [demo_data]" by (simp add: es after_marker_def entry_data_def)
  have e: "entry_data e = demo_data" if "e \<in> set ?es" for e
    using that by (simp add: es after_marker_def entry_data_def)
  have n: "bd_name demo_data = ''k''" "\<not> bd_deleteMarker demo_data" by (simp_all add: demo_data_def)
  obtain ol where "mem_ListBucket demo_env ''b'' (Some ?p)
      \<lparr>pg_Marker = '''', pg_HasMarker = False, pg_MaxKeys = 0\<rparr> demo_lit = (Ok ol, demo_lit)"
    "ol_Contents ol = map content_of (filter (\<lambda>d. \<not> bd_deleteMarker d \<and>
       s3_rollup (CHR ''/'') (pfx_Prefix ?p) (bd_name d) = Some (bd_name d)) (map entry_data ?es))"
    "set (ol_CommonPrefixes ol) = {part. \<exists>e \<in> set ?es. \<not> bd_deleteMarker (entry_data e) \<and>
       s3_rollup (CHR ''/'') (pfx_Prefix ?p) (bd_name (entry_data e)) = Some part \<and>
       part \<noteq> bd_name (entry_data e)}"
    using list_rolled_up [OF demo_laws b cur p order_refl lead refl, of "''''" False] by (elim exE conjE)
  moreover from this(3) have "set (ol_CommonPrefixes ol) = {}"
    unfolding pre by (auto simp: e n roll)
  ultimately show ?thesis
    unfolding pre d emptyBucketPage_def
    by (intro exI [of _ ol]) (simp add: n roll content_of_def)
qed

text \<open>
  The unlimited listing of versions without delimiter: for each object whose name has the prefix,
  in key order, the older versions in the order of their IDs and then the current one, which alone is
  marked as latest.
\<close>

theorem list_versions_complete:
  assumes "s3mem_laws env oentries oview ventries vview"
    and "mem_bucket db bucket = Some b" "\<not> HasDelimiter p" "k \<le> 0"
  shows "\<exists>lv. mem_ListBucketVersions env bucket (Some p) (Some (emptyVersionsPage\<lparr>vp_MaxKeys := k\<rparr>)) db =
      (Ok lv, db) \<and> \<not> lv_IsTruncated lv \<and>
    lv_Versions lv = concat (map
      (\<lambda>e. map (\<lambda>d. lv_item (bk_versioning b) (d, False)) (older ventries (snd e)) @
           map (\<lambda>d. lv_item (bk_versioning b) (d, True)) (opt_list (bo_data (snd e))))
      (filter (\<lambda>e. HasPrefix p \<longrightarrow> has_prefix (bo_name (snd e)) (pfx_Prefix p)) (oentries (bk_objects b))))"
proof -
  have m: "(prefix_Match p name \<noteq> None) = (HasPrefix p \<longrightarrow> has_prefix name (pfx_Prefix p))" for name
    using prefix_Match_no_delim [OF assms(3)] by blast
  have "lv_listing ventries (bk_versioning b) p (oentries (bk_objects b)) = concat (map
      (\<lambda>e. map (\<lambda>d. lv_item (bk_versioning b) (d, False)) (older ventries (snd e)) @
           map (\<lambda>d. lv_item (bk_versioning b) (d, True)) (opt_list (bo_data (snd e))))
      (filter (\<lambda>e. HasPrefix p \<longrightarrow> has_prefix (bo_name (snd e)) (pfx_Prefix p)) (oentries (bk_objects b))))"
    by (simp only: lv_listing_def all_versions_def m map_append map_map comp_def)
  moreover have "\<exists>lv. mem_ListBucketVersions env bucket (Some p) (Some (emptyVersionsPage\<lparr>vp_MaxKeys := k\<rparr>)) db =
      (Ok lv, db) \<and> \<not> lv_IsTruncated lv \<and>
    lv_Versions lv = lv_listing ventries (bk_versioning b) p (oentries (bk_objects b))"
    unfolding s3mem_laws.ListBucketVersions_all [OF assms]
    by (simp add: NewListBucketVersionsResult_def)
  ultimately show ?thesis by (simp only:)
qed

lemma list_versions_complete_witness:
  "\<exists>lv. mem_ListBucketVersions demo_env ''b'' (Some emptyPrefix) (Some (emptyVersionsPage\<lparr>vp_MaxKeys := 0\<rparr>))
      demo_lit = (Ok lv, demo_lit) \<and> map GetVersionID (lv_Versions lv) = [''''] \<and> \<not> lv_IsTruncated lv"
proof -
  have b: "mem_bucket demo_lit ''b'' = Some (the (mem_bucket demo_lit ''b''))"
    by (simp add: mem_bucket_def demo_lit_def)
  have "\<not> HasDelimiter emptyPrefix" by (simp add: emptyPrefix_def)
  from list_versions_complete [OF demo_laws b this order_refl] show ?thesis
    by (auto simp: mem_bucket_def demo_lit_def alist_entries_def older_def opt_list_def lv_item_def
        GetVersionID_def demo_data_def emptyPrefix_def)
qed

end
