(* ===== verification/Uploader.thy ===== *)
theory Uploader
  imports Backend Skiplist
begin

text \<open>
  \<open>uploader.go\<close>: multipart uploads held in memory. Per bucket there is a map of the uploads by ID and
  a skip list from object key to the uploads of that key in the order of their initiation. The skip
  list holds pointers; the two fields that are read through them, the ID and the time of initiation,
  never change, so the model stores these two (\<open>uploadRef\<close>). MD5 and the skip list are parameters.

  \<open>uploader.storage\<close>, the back end an upload is finally stored in, is the record \<open>'s Backend\<close>; the
  operation that uses it runs on the pair of uploader and storage state.
\<close>

definition MaxUploadPartNumber :: int where
  "MaxUploadPartNumber = 10000"

record multipartUploadPart =
  up_PartNumber :: int
  up_ETag :: string
  up_Body :: bytes
  up_LastModified :: int

record multipartUpload =
  mu_ID :: string
  mu_Bucket :: string
  mu_Object :: string
  mu_Meta :: "gomap option"
  mu_Initiated :: int
  mu_parts :: "multipartUploadPart option list"

record uploadRef =
  ur_ID :: string
  ur_Initiated :: int

record 'um bucketUploads =
  bu_uploads :: "(string \<times> multipartUpload) list"
  bu_objectIndex :: 'um

record ('um, 'ui) uploader_env =
  ue_sl :: "(string, uploadRef list, 'um, 'ui) skiplist"
  ue_md5 :: "bytes \<Rightarrow> bytes"

text \<open>\<open>ul_now\<close> is the reading of the clock that the next operation sees.\<close>

record 'um uploader =
  ul_buckets :: "(string \<times> 'um bucketUploads) list"
  ul_uploadID :: nat
  ul_now :: int

definition newBucketUploads :: "('um, 'ui) uploader_env \<Rightarrow> 'um bucketUploads" where
  "newBucketUploads env = \<lparr>bu_uploads = [], bu_objectIndex = sl_new (ue_sl env)\<rparr>"

definition upload_ref :: "multipartUpload \<Rightarrow> uploadRef" where
  "upload_ref mpu = \<lparr>ur_ID = mu_ID mpu, ur_Initiated = mu_Initiated mpu\<rparr>"

definition bu_add :: "('um, 'ui) uploader_env \<Rightarrow> multipartUpload \<Rightarrow> 'um bucketUploads \<Rightarrow> 'um bucketUploads" where
  "bu_add env mpu bu =
     (let uploads = (case sl_get (ue_sl env) (bu_objectIndex bu) (mu_Object mpu) of
                       None \<Rightarrow> [upload_ref mpu]
                     | Some uploads \<Rightarrow> uploads @ [upload_ref mpu])
      in \<lparr>bu_uploads = AList.update (mu_ID mpu) mpu (bu_uploads bu),
          bu_objectIndex = sl_set (ue_sl env) (bu_objectIndex bu) (mu_Object mpu) uploads\<rparr>)"

text \<open>
  The search loop of \<open>remove\<close>: the index of the first upload with the ID; when there is none, the
  loop variable is left at the last index, or at -1 for an empty slice.
\<close>

fun found_index :: "string \<Rightarrow> uploadRef list \<Rightarrow> nat \<Rightarrow> nat option \<Rightarrow> nat option" where
  "found_index uploadID [] i found = found"
| "found_index uploadID (v # vs) i found =
     (if ur_ID v = uploadID then Some i else found_index uploadID vs (i + 1) (Some i))"

definition bu_remove :: "('um, 'ui) uploader_env \<Rightarrow> string \<Rightarrow> 'um bucketUploads \<Rightarrow> 'um bucketUploads res" where
  "bu_remove env uploadID bu =
     (case map_of (bu_uploads bu) uploadID of
        None \<Rightarrow> Panic
      | Some upload \<Rightarrow>
          (let bu1 = bu\<lparr>bu_uploads := AList.delete uploadID (bu_uploads bu)\<rparr>
           in case sl_get (ue_sl env) (bu_objectIndex bu) (mu_Object upload) of
                None \<Rightarrow> Ok bu1
              | Some uploads \<Rightarrow>
                  (let uploads' = (case found_index uploadID uploads 0 None of
                                     None \<Rightarrow> uploads
                                   | Some i \<Rightarrow> take i uploads @ drop (i + 1) uploads)
                   in Ok (bu1\<lparr>bu_objectIndex :=
                        (if uploads' = []
                         then snd (sl_delete (ue_sl env) (bu_objectIndex bu) (mu_Object upload))
                         else sl_set (ue_sl env) (bu_objectIndex bu) (mu_Object upload) uploads')\<rparr>))))"

definition newUploader :: "int \<Rightarrow> 'um uploader" where
  "newUploader now = \<lparr>ul_buckets = [], ul_uploadID = 0, ul_now = now\<rparr>"

definition ul_set_bucket :: "'um uploader \<Rightarrow> string \<Rightarrow> 'um bucketUploads \<Rightarrow> 'um uploader" where
  "ul_set_bucket u bucket bu = u\<lparr>ul_buckets := AList.update bucket bu (ul_buckets u)\<rparr>"

definition getUnlocked :: "'um uploader \<Rightarrow> string \<Rightarrow> string \<Rightarrow> string \<Rightarrow> multipartUpload res" where
  "getUnlocked u bucket object ident =
     (case map_of (ul_buckets u) bucket of
        None \<Rightarrow> Err (ECode ErrNoSuchUpload)
      | Some bu \<Rightarrow>
          (case map_of (bu_uploads bu) ident of
             None \<Rightarrow> Err (ECode ErrNoSuchUpload)
           | Some mu \<Rightarrow>
               if mu_Bucket mu \<noteq> bucket \<or> mu_Object mu \<noteq> object
               then Err (ECode ErrNoSuchUpload) else Ok mu))"

section \<open>Creating, filling and aborting an upload\<close>

definition ul_CreateMultipartUpload ::
    "('um, 'ui) uploader_env \<Rightarrow> string \<Rightarrow> string \<Rightarrow> gomap option \<Rightarrow> ('um uploader, string) act" where
  "ul_CreateMultipartUpload env bucket object meta u =
     (let n = ul_uploadID u + 1;
          mpu = \<lparr>mu_ID = nat_str n, mu_Bucket = bucket, mu_Object = object, mu_Meta = meta,
                 mu_Initiated = ul_now u, mu_parts = []\<rparr>;
          bu = (case map_of (ul_buckets u) bucket of
                  None \<Rightarrow> newBucketUploads env | Some bu \<Rightarrow> bu)
      in (Ok (mu_ID mpu), (ul_set_bucket u bucket (bu_add env mpu bu))\<lparr>ul_uploadID := n\<rparr>))"

text \<open>Storing a part: the slice grows to hold it; a negative index panics.\<close>

definition put_part ::
    "multipartUploadPart \<Rightarrow> int \<Rightarrow> multipartUploadPart option list \<Rightarrow> multipartUploadPart option list res" where
  "put_part part partNumber parts =
     (let grown = (if int (length parts) \<le> partNumber
                   then parts @ replicate (nat (partNumber - int (length parts) + 1)) None
                   else parts)
      in if partNumber < 0 then Panic else Ok (grown[nat partNumber := Some part]))"

text \<open>\<open>io.ReadAll\<close>.\<close>

definition io_ReadAll :: "reader \<Rightarrow> bytes res" where
  "io_ReadAll r = (case rd_err r of Some e \<Rightarrow> Err e | None \<Rightarrow> Ok (rd_bytes r))"

definition set_upload :: "'um uploader \<Rightarrow> string \<Rightarrow> multipartUpload \<Rightarrow> 'um uploader" where
  "set_upload u bucket mpu =
     (case map_of (ul_buckets u) bucket of
        None \<Rightarrow> u
      | Some bu \<Rightarrow>
          ul_set_bucket u bucket (bu\<lparr>bu_uploads := AList.update (mu_ID mpu) mpu (bu_uploads bu)\<rparr>))"

definition ul_UploadPart ::
    "('um, 'ui) uploader_env \<Rightarrow> string \<Rightarrow> string \<Rightarrow> string \<Rightarrow> int \<Rightarrow> int \<Rightarrow> reader \<Rightarrow>
     ('um uploader, string) act" where
  "ul_UploadPart env bucket object ident partNumber contentLength input u =
     (if MaxUploadPartNumber < partNumber then (Err (ECode ErrInvalidPart), u)
      else
        (case rbind (io_ReadAll input)
                (\<lambda>body.
                   if int (length body) \<noteq> contentLength then Err (ECode ErrIncompleteBody)
                   else
                     rbind (getUnlocked u bucket object ident)
                       (\<lambda>mpu.
                          let etag = quoted (hex_encode (ue_md5 env body));
                              part = \<lparr>up_PartNumber = partNumber, up_ETag = etag, up_Body = body,
                                      up_LastModified = ul_now u\<rparr>
                          in rbind (put_part part partNumber (mu_parts mpu))
                               (\<lambda>parts. Ok (etag, mpu\<lparr>mu_parts := parts\<rparr>)))) of
           Ok (etag, mpu) \<Rightarrow> (Ok etag, set_upload u bucket mpu)
         | Err e \<Rightarrow> (Err e, u)
         | Panic \<Rightarrow> (Panic, u)
         | NoFuel \<Rightarrow> (NoFuel, u)))"

definition ul_remove :: "('um, 'ui) uploader_env \<Rightarrow> string \<Rightarrow> string \<Rightarrow> ('um uploader, unit) act" where
  "ul_remove env bucket ident u =
     (case map_of (ul_buckets u) bucket of
        None \<Rightarrow> (Panic, u)
      | Some bu \<Rightarrow>
          (case bu_remove env ident bu of
             Ok bu' \<Rightarrow> (Ok (), ul_set_bucket u bucket bu')
           | Err e \<Rightarrow> (Err e, u)
           | Panic \<Rightarrow> (Panic, u)
           | NoFuel \<Rightarrow> (NoFuel, u)))"

definition ul_AbortMultipartUpload ::
    "('um, 'ui) uploader_env \<Rightarrow> string \<Rightarrow> string \<Rightarrow> string \<Rightarrow> ('um uploader, unit) act" where
  "ul_AbortMultipartUpload env bucket object ident u =
     act_bind (act_res (getUnlocked u bucket object ident)) (\<lambda>_. ul_remove env bucket ident) u"

section \<open>Completing an upload\<close>

text \<open>The part at a number of the request: a negative number indexes out of range.\<close>

definition stored_part ::
    "multipartUploadPart option list \<Rightarrow> int \<Rightarrow> multipartUploadPart res" where
  "stored_part parts n =
     (let missing = Err (ErrorMessage ErrInvalidPart
            (''unexpected part number '' @ int_str n @ '' in complete request''))
      in if int (length parts) \<le> n then missing
         else if n < 0 then Panic
         else (case parts ! nat n of None \<Rightarrow> missing | Some p \<Rightarrow> Ok p))"

text \<open>The first loop of \<open>CompleteMultipartUpload\<close>, which checks numbers and ETags and sums the sizes.\<close>

fun check_parts :: "multipartUploadPart option list \<Rightarrow> CompletedPart list \<Rightarrow> int \<Rightarrow> int res" where
  "check_parts parts [] sz = Ok sz"
| "check_parts parts (inPart # ins) sz =
     rbind (stored_part parts (cp_PartNumber inPart))
       (\<lambda>upPart.
          if trim (cp_ETag inPart) [CHR 0x22] \<noteq> trim (up_ETag upPart) [CHR 0x22] then
            Err (ErrorMessage ErrInvalidPart
              (''unexpected part etag for number '' @ int_str (cp_PartNumber inPart) @
               '' in complete request''))
          else check_parts parts ins (i64 (sz + int (length (up_Body upPart)))))"

text \<open>
  The second loop: the bodies and the decoded MD5 sums of the parts, in the order of the request. The
  message for an undecodable ETag leaves out the text of the decoder's error.
\<close>

fun join_parts ::
    "multipartUploadPart option list \<Rightarrow> CompletedPart list \<Rightarrow> bytes \<Rightarrow> bytes \<Rightarrow> (bytes \<times> bytes) res" where
  "join_parts parts [] body hashed = Ok (body, hashed)"
| "join_parts parts (inPart # ins) body hashed =
     rbind (stored_part parts (cp_PartNumber inPart))
       (\<lambda>upPart.
          case hex_decode (trim (up_ETag upPart) [CHR 0x22]) of
            None \<Rightarrow>
              Err (ErrorMessage ErrInternal
                (''invalid etag for number '' @ int_str (cp_PartNumber inPart) @ '' is stored''))
          | Some hashBytes \<Rightarrow>
              join_parts parts ins (body @ up_Body upPart) (hashed @ hashBytes))"

text \<open>
  Everything up to the call of \<open>storage.PutObject\<close>: the body and the ETag of the whole object.
\<close>

definition assemble ::
    "('um, 'ui) uploader_env \<Rightarrow> multipartUpload \<Rightarrow> CompletedPart list \<Rightarrow> (bytes \<times> string) res" where
  "assemble env mpu ins =
     (if length (mu_parts mpu) < length ins then Err (ECode ErrInvalidPart)
      else if \<not> partsAreSorted ins then Err (ECode ErrInvalidPartOrder)
      else
        rbind (check_parts (mu_parts mpu) ins 0)
          (\<lambda>sz. rbind (join_parts (mu_parts mpu) ins [] [])
             (\<lambda>(body, hashed).
                Ok (body, quoted (hex_encode (ue_md5 env hashed) @ ''-'' @ nat_str (length ins))))))"

definition ul_CompleteMultipartUpload ::
    "('um, 'ui) uploader_env \<Rightarrow> 's Backend \<Rightarrow> string \<Rightarrow> string \<Rightarrow> string \<Rightarrow> CompletedPart list \<Rightarrow>
     ('um uploader \<times> 's, string \<times> string) act" where
  "ul_CompleteMultipartUpload env storage bucket object ident ins us =
     (case us of (u, s) \<Rightarrow>
        (case rbind (getUnlocked u bucket object ident)
                (\<lambda>mpu. rbind (assemble env mpu ins) (\<lambda>(body, etag). Ok (mu_Meta mpu, body, etag))) of
           Ok (meta, body, etag) \<Rightarrow>
             (case be_PutObject storage bucket object meta (bytes_reader body) (int (length body)) s of
                (Ok result, s') \<Rightarrow>
                  (case ul_remove env bucket ident u of
                     (Ok _, u') \<Rightarrow> (Ok (pr_VersionID result, etag), (u', s'))
                   | (Err e, u') \<Rightarrow> (Err e, (u', s'))
                   | (Panic, u') \<Rightarrow> (Panic, (u', s'))
                   | (NoFuel, u') \<Rightarrow> (NoFuel, (u', s')))
              | (Err e, s') \<Rightarrow> (Err e, (u, s'))
              | (Panic, s') \<Rightarrow> (Panic, (u, s'))
              | (NoFuel, s') \<Rightarrow> (NoFuel, (u, s')))
         | Err e \<Rightarrow> (Err e, us)
         | Panic \<Rightarrow> (Panic, us)
         | NoFuel \<Rightarrow> (NoFuel, us)))"

section \<open>Listing parts\<close>

text \<open>
  \<open>mpu.parts[marker:]\<close> panics beyond the slice, and the part numbers reported are the positions
  behind the marker.
\<close>

fun lp_loop ::
    "int \<Rightarrow> int \<Rightarrow> int \<Rightarrow> multipartUploadPart option list \<Rightarrow> ListMultipartUploadPartsResult \<Rightarrow>
     ListMultipartUploadPartsResult" where
  "lp_loop limit partNumber cnt [] result = result"
| "lp_loop limit partNumber cnt (None # ps) result = lp_loop limit (partNumber + 1) cnt ps result"
| "lp_loop limit partNumber cnt (Some part # ps) result =
     (if limit \<le> cnt then
        result\<lparr>lp_IsTruncated := True, lp_NextPartNumberMarker := partNumber\<rparr>
      else
        lp_loop limit (partNumber + 1) (cnt + 1) ps
          (result\<lparr>lp_Parts := lp_Parts result @
            [\<lparr>pi_PartNumber = partNumber, pi_LastModified = up_LastModified part,
              pi_ETag = up_ETag part, pi_Size = int (length (up_Body part))\<rparr>]\<rparr>))"

definition ul_ListParts ::
    "string \<Rightarrow> string \<Rightarrow> string \<Rightarrow> int \<Rightarrow> int \<Rightarrow> ('um uploader, ListMultipartUploadPartsResult) act" where
  "ul_ListParts bucket object uploadID marker limit u =
     (rbind (getUnlocked u bucket object uploadID)
        (\<lambda>mpu. rbind (go_slice (mu_parts mpu) marker (int (length (mu_parts mpu))))
           (\<lambda>parts. Ok (lp_loop limit 0 0 parts
              \<lparr>lp_Bucket = bucket, lp_Key = object, lp_UploadID = uploadID,
               lp_StorageClass = ''STANDARD'', lp_PartNumberMarker = marker,
               lp_NextPartNumberMarker = 0, lp_MaxParts = limit, lp_IsTruncated = False,
               lp_Parts = []\<rparr>))), u)"

section \<open>Listing uploads\<close>

record UploadListMarker =
  um_Object :: string
  um_UploadID :: string

definition uploadListMarkerFromQuery :: "url_values \<Rightarrow> UploadListMarker option" where
  "uploadListMarkerFromQuery q =
     (let object = vals_get q ''key-marker''
      in if object = '''' then None
         else Some \<lparr>um_Object = object, um_UploadID = vals_get q ''upload-id-marker''\<rparr>)"

fun upload_index :: "string \<Rightarrow> uploadRef list \<Rightarrow> nat option" where
  "upload_index ident [] = None"
| "upload_index ident (v # vs) =
     (if ur_ID v = ident then Some 0 else map_option Suc (upload_index ident vs))"

text \<open>
  The loop over the uploads of one key: the result, the count, \<open>truncated\<close>, and whether the limit was
  reached (\<open>goto done\<close>).
\<close>

fun lu_uploads ::
    "string \<Rightarrow> int \<Rightarrow> uploadRef list \<Rightarrow> ListMultipartUploadsResult \<Rightarrow> int \<Rightarrow>
     ListMultipartUploadsResult \<times> int \<times> bool \<times> bool" where
  "lu_uploads object limit [] result cnt = (result, cnt, False, False)"
| "lu_uploads object limit (upload # uploads) result cnt =
     (let result1 = result\<lparr>lu_Uploads := lu_Uploads result @
            [\<lparr>ui_Key = object, ui_UploadID = ur_ID upload, ui_StorageClass = ''STANDARD'',
              ui_Initiated = ur_Initiated upload\<rparr>]\<rparr>;
          cnt1 = cnt + 1
      in if limit \<le> cnt1 then
           (case uploads of
              [] \<Rightarrow> (result1, cnt1, False, True)
            | next # _ \<Rightarrow>
                (result1\<lparr>lu_NextUploadIDMarker := ur_ID next, lu_NextKeyMarker := object\<rparr>, cnt1, True, True))
         else lu_uploads object limit uploads result1 cnt1)"

text \<open>The state of the outer loop.\<close>

record lu_state =
  ls_result :: ListMultipartUploadsResult
  ls_cnt :: int
  ls_firstFound :: bool
  ls_seen :: "string list"
  ls_truncated :: bool

definition lu_body ::
    "Prefix \<Rightarrow> string \<Rightarrow> int \<Rightarrow> string \<times> uploadRef list \<Rightarrow> lu_state \<Rightarrow> lu_state ctl" where
  "lu_body prefix markerID limit entry st =
     (case prefix_Match prefix (fst entry) of
        None \<Rightarrow> Continue st
      | Some m \<Rightarrow>
          (let (firstFound, uploads) =
             (if ls_firstFound st then (True, snd entry)
              else (case upload_index markerID (snd entry) of
                      None \<Rightarrow> (False, snd entry)
                    | Some idx \<Rightarrow> (True, drop idx (snd entry))));
               st1 = st\<lparr>ls_firstFound := firstFound\<rparr>
           in if \<not> firstFound then Continue st1
              else if pm_CommonPrefix m then
                (if pm_MatchedPart m \<in> set (ls_seen st1) then Continue st1
                 else Continue (st1\<lparr>ls_seen := pm_MatchedPart m # ls_seen st1,
                        ls_result := (ls_result st1)\<lparr>lu_CommonPrefixes :=
                          lu_CommonPrefixes (ls_result st1) @ [pm_MatchedPart m]\<rparr>\<rparr>))
              else
                (case lu_uploads (fst entry) limit uploads (ls_result st1) (ls_cnt st1) of
                   (result, cnt, truncated, stop) \<Rightarrow>
                     (let st2 = st1\<lparr>ls_result := result, ls_cnt := cnt, ls_truncated := truncated\<rparr>
                      in if stop then Break st2 else Continue st2))))"

text \<open>
  After \<open>done\<close>: the search for one more key that would be listed. The first upload of its slice is
  taken without a check.
\<close>

definition lu_more_body ::
    "Prefix \<Rightarrow> string \<times> uploadRef list \<Rightarrow> ListMultipartUploadsResult res \<Rightarrow>
     ListMultipartUploadsResult res ctl" where
  "lu_more_body prefix entry st =
     (case st of
        Ok result \<Rightarrow>
          (case prefix_Match prefix (fst entry) of
             Some m \<Rightarrow>
               if pm_CommonPrefix m then Continue st
               else (case snd entry of
                       [] \<Rightarrow> Break Panic
                     | upload # _ \<Rightarrow>
                         Break (Ok (result\<lparr>lu_NextUploadIDMarker := ur_ID upload,
                                           lu_NextKeyMarker := fst entry, lu_IsTruncated := True\<rparr>)))
           | None \<Rightarrow> Continue st)
      | _ \<Rightarrow> Break st)"

definition ul_ListMultipartUploads ::
    "('um, 'ui) uploader_env \<Rightarrow> string \<Rightarrow> UploadListMarker option \<Rightarrow> Prefix \<Rightarrow> int \<Rightarrow>
     ('um uploader, ListMultipartUploadsResult) act" where
  "ul_ListMultipartUploads env bucket marker prefix limit u =
     (case map_of (ul_buckets u) bucket of
        None \<Rightarrow> (Err (ECode ErrNoSuchUpload), u)
      | Some bu \<Rightarrow>
          (let result0 =
             \<lparr>lu_Bucket = bucket, lu_KeyMarker = '''', lu_UploadIDMarker = '''', lu_NextKeyMarker = '''',
              lu_NextUploadIDMarker = '''', lu_MaxUploads = limit, lu_Delimiter = pfx_Delimiter prefix,
              lu_Prefix = pfx_Prefix prefix, lu_CommonPrefixes = [], lu_IsTruncated = False,
              lu_Uploads = []\<rparr>;
               iter0 = gs_New (sl_iterator (ue_sl env) (bu_objectIndex bu));
               (iter, firstFound, result) =
                 (case marker of
                    None \<Rightarrow> (iter0, True, result0)
                  | Some mk \<Rightarrow>
                      (snd (gs_Seek (ue_sl env) iter0 (um_Object mk)), um_UploadID mk = '''',
                       result0\<lparr>lu_UploadIDMarker := um_UploadID mk, lu_KeyMarker := um_Object mk\<rparr>));
               markerID = (case marker of None \<Rightarrow> '''' | Some mk \<Rightarrow> um_UploadID mk);
               fuel = Suc (sl_len (ue_sl env) (bu_objectIndex bu))
           in case go_range fuel (gs_step (ue_sl env)) (lu_body prefix markerID limit)
                     \<lparr>ls_result = result, ls_cnt = 0, ls_firstFound = firstFound, ls_seen = [],
                      ls_truncated = False\<rparr> iter of
                None \<Rightarrow> (NoFuel, u)
              | Some (st, iter1) \<Rightarrow>
                  if ls_truncated st then (Ok ((ls_result st)\<lparr>lu_IsTruncated := True\<rparr>), u)
                  else
                    (case go_range fuel (gs_step (ue_sl env)) (lu_more_body prefix)
                            (Ok (ls_result st)) iter1 of
                       None \<Rightarrow> (NoFuel, u)
                     | Some (r, iter2) \<Rightarrow> (r, u))))"

lemmas uploader_defs [go_eval] =
  MaxUploadPartNumber_def newBucketUploads_def upload_ref_def bu_add_def bu_remove_def newUploader_def
  ul_set_bucket_def getUnlocked_def ul_CreateMultipartUpload_def put_part_def io_ReadAll_def
  set_upload_def ul_UploadPart_def ul_remove_def ul_AbortMultipartUpload_def stored_part_def
  assemble_def ul_CompleteMultipartUpload_def ul_ListParts_def uploadListMarkerFromQuery_def
  lu_body_def lu_more_body_def ul_ListMultipartUploads_def

end
