(* ===== verification/UploaderFacts.thy ===== *)
theory UploaderFacts
  imports Uploader
begin

text \<open>
  The invariant of the multipart uploader and what its operations do, for any skip list that meets
  the contract (locale \<open>uploader_laws\<close>) and any storage back end.
\<close>

section \<open>The invariant\<close>

definition part_ok :: "('um, 'ui) uploader_env \<Rightarrow> nat \<Rightarrow> multipartUploadPart option \<Rightarrow> bool" where
  "part_ok env i p =
     (case p of None \<Rightarrow> True
      | Some part \<Rightarrow> up_PartNumber part = int i \<and>
          up_ETag part = quoted (hex_encode (ue_md5 env (up_Body part))))"

definition upload_ok :: "('um, 'ui) uploader_env \<Rightarrow> nat \<Rightarrow> string \<Rightarrow> string \<Rightarrow> multipartUpload \<Rightarrow> bool" where
  "upload_ok env n bucket ident mpu \<longleftrightarrow>
     mu_ID mpu = ident \<and> mu_Bucket mpu = bucket \<and> (\<exists>k. 1 \<le> k \<and> k \<le> n \<and> ident = nat_str k) \<and>
     (\<forall>i < length (mu_parts mpu). part_ok env i (mu_parts mpu ! i))"

definition index_refs :: "('um, 'ui) uploader_env \<Rightarrow> 'um bucketUploads \<Rightarrow> string \<Rightarrow> uploadRef list" where
  "index_refs env bu object =
     (case sl_get (ue_sl env) (bu_objectIndex bu) object of None \<Rightarrow> [] | Some refs \<Rightarrow> refs)"

text \<open>The index lists exactly the uploads of each key, each once, and no key without uploads.\<close>

definition bucket_uploads_ok ::
    "('um, 'ui) uploader_env \<Rightarrow> nat \<Rightarrow> string \<Rightarrow> 'um bucketUploads \<Rightarrow> bool" where
  "bucket_uploads_ok env n bucket bu \<longleftrightarrow>
     (\<forall>ident mpu. map_of (bu_uploads bu) ident = Some mpu \<longrightarrow> upload_ok env n bucket ident mpu) \<and>
     (\<forall>object. sl_get (ue_sl env) (bu_objectIndex bu) object \<noteq> Some [] \<and>
        distinct (map ur_ID (index_refs env bu object)) \<and>
        (\<forall>r. r \<in> set (index_refs env bu object) \<longleftrightarrow>
           (\<exists>mpu. map_of (bu_uploads bu) (ur_ID r) = Some mpu \<and> mu_Object mpu = object \<and>
                  r = upload_ref mpu)))"

definition uploader_ok :: "('um, 'ui) uploader_env \<Rightarrow> 'um uploader \<Rightarrow> bool" where
  "uploader_ok env u \<longleftrightarrow>
     (\<forall>bucket bu. map_of (ul_buckets u) bucket = Some bu \<longrightarrow>
        bucket_uploads_ok env (ul_uploadID u) bucket bu)"

definition find_upload :: "'um uploader \<Rightarrow> string \<Rightarrow> string \<Rightarrow> multipartUpload option" where
  "find_upload u bucket ident =
     (case map_of (ul_buckets u) bucket of None \<Rightarrow> None | Some bu \<Rightarrow> map_of (bu_uploads bu) ident)"

text \<open>A request that names stored parts, each with its ETag.\<close>

definition names_part :: "multipartUpload \<Rightarrow> CompletedPart \<Rightarrow> multipartUploadPart \<Rightarrow> bool" where
  "names_part mpu inPart part \<longleftrightarrow>
     0 \<le> cp_PartNumber inPart \<and> cp_PartNumber inPart < int (length (mu_parts mpu)) \<and>
     mu_parts mpu ! nat (cp_PartNumber inPart) = Some part \<and>
     trim (cp_ETag inPart) [CHR 0x22] = trim (up_ETag part) [CHR 0x22]"

inductive ul_step ::
    "('um, 'ui) uploader_env \<Rightarrow> 's Backend \<Rightarrow> 'um uploader \<times> 's \<Rightarrow> 'um uploader \<times> 's \<Rightarrow> bool"
  for env storage where
  ul_step_tick: "ul_step env storage (u, s) (u\<lparr>ul_now := t\<rparr>, s)"
| ul_step_storage: "ul_step env storage (u, s) (u, s')"
| ul_step_create: "ul_step env storage (u, s) (snd (ul_CreateMultipartUpload env bucket object meta u), s)"
| ul_step_part:
    "ul_step env storage (u, s) (snd (ul_UploadPart env bucket object ident n len input u), s)"
| ul_step_abort: "ul_step env storage (u, s) (snd (ul_AbortMultipartUpload env bucket object ident u), s)"
| ul_step_complete:
    "ul_step env storage us (snd (ul_CompleteMultipartUpload env storage bucket object ident ins us))"

inductive ul_reachable ::
    "('um, 'ui) uploader_env \<Rightarrow> 's Backend \<Rightarrow> 'um uploader \<times> 's \<Rightarrow> bool"
  for env storage where
  ul_reach_new: "ul_reachable env storage (newUploader now, s)"
| ul_reach_step: "ul_reachable env storage us \<Longrightarrow> ul_step env storage us us' \<Longrightarrow> ul_reachable env storage us'"

lemma upload_ok_mono: "upload_ok env m bucket ident mpu \<Longrightarrow> m \<le> n \<Longrightarrow> upload_ok env n bucket ident mpu"
  by (auto simp: upload_ok_def)

lemma bucket_uploads_ok_mono:
  "bucket_uploads_ok env m bucket bu \<Longrightarrow> m \<le> n \<Longrightarrow> bucket_uploads_ok env n bucket bu"
  by (auto simp: bucket_uploads_ok_def intro: upload_ok_mono)

lemma bucket_uploads_okI:
  assumes "\<And>ident mpu. map_of (bu_uploads bu) ident = Some mpu \<Longrightarrow> upload_ok env n bucket ident mpu"
    and "\<And>object. sl_get (ue_sl env) (bu_objectIndex bu) object \<noteq> Some []"
    and "\<And>object. distinct (map ur_ID (index_refs env bu object))"
    and "\<And>object r. r \<in> set (index_refs env bu object) \<longleftrightarrow>
           (\<exists>mpu. map_of (bu_uploads bu) (ur_ID r) = Some mpu \<and> mu_Object mpu = object \<and> r = upload_ref mpu)"
  shows "bucket_uploads_ok env n bucket bu"
  using assms by (simp add: bucket_uploads_ok_def)

lemma bucket_uploads_okD:
  assumes "bucket_uploads_ok env n bucket bu"
  shows "map_of (bu_uploads bu) ident = Some mpu \<Longrightarrow> upload_ok env n bucket ident mpu"
    and "sl_get (ue_sl env) (bu_objectIndex bu) object \<noteq> Some []"
    and "distinct (map ur_ID (index_refs env bu object))"
    and "r \<in> set (index_refs env bu object) \<longleftrightarrow>
           (\<exists>mpu. map_of (bu_uploads bu) (ur_ID r) = Some mpu \<and> mu_Object mpu = object \<and> r = upload_ref mpu)"
  using assms by (auto simp: bucket_uploads_ok_def)

lemma upload_ref_simps [simp]: "ur_ID (upload_ref mpu) = mu_ID mpu" "ur_Initiated (upload_ref mpu) = mu_Initiated mpu"
  by (simp_all add: upload_ref_def)

lemma upload_ref_parts [simp]: "upload_ref (mpu\<lparr>mu_parts := ps\<rparr>) = upload_ref mpu"
  by (simp add: upload_ref_def)

lemma uploader_okD:
  "uploader_ok env u \<Longrightarrow> map_of (ul_buckets u) bucket = Some bu \<Longrightarrow>
   bucket_uploads_ok env (ul_uploadID u) bucket bu"
  by (simp add: uploader_ok_def)

lemma ul_set_bucket_simps [simp]:
  "map_of (ul_buckets (ul_set_bucket u b bu)) b' = (if b' = b then Some bu else map_of (ul_buckets u) b')"
  "ul_uploadID (ul_set_bucket u b bu) = ul_uploadID u" "ul_now (ul_set_bucket u b bu) = ul_now u"
  by (simp_all add: ul_set_bucket_def)

lemma uploader_ok_set:
  assumes "uploader_ok env u" "bucket_uploads_ok env n bucket bu" "ul_uploadID u \<le> n"
  shows "uploader_ok env ((ul_set_bucket u bucket bu)\<lparr>ul_uploadID := n\<rparr>)"
proof -
  have "map_of (ul_buckets ((ul_set_bucket u bucket bu)\<lparr>ul_uploadID := n\<rparr>)) b =
      (if b = bucket then Some bu else map_of (ul_buckets u) b)" for b
    by (simp add: ul_set_bucket_def)
  then show ?thesis
    using assms by (auto simp: uploader_ok_def) (meson bucket_uploads_ok_mono)
qed

lemma found_index_set:
  assumes "ident \<in> set (map ur_ID refs)"
  shows "\<exists>i < length refs. found_index ident refs k found = Some (k + i) \<and> ur_ID (refs ! i) = ident"
  using assms
proof (induction refs arbitrary: k found)
  case (Cons r refs)
  show ?case
  proof (cases "ur_ID r = ident")
    case True
    then show ?thesis by (intro exI [of _ 0]) simp
  next
    case False
    with Cons obtain i where "i < length refs" "found_index ident refs (k + 1) (Some k) = Some (k + 1 + i)"
      "ur_ID (refs ! i) = ident" by fastforce
    with False show ?thesis by (intro exI [of _ "Suc i"]) simp
  qed
qed simp

lemma remove_nth_filter:
  assumes "distinct (map f xs)" "i < length xs"
  shows "take i xs @ drop (i + 1) xs = filter (\<lambda>x. f x \<noteq> f (xs ! i)) xs"
  using assms
proof (induction xs arbitrary: i)
  case (Cons x xs)
  show ?case
  proof (cases i)
    case 0
    have "\<forall>y \<in> set xs. f y \<noteq> f x" using Cons.prems(1) by (auto dest: sym)
    then have "filter (\<lambda>y. f y \<noteq> f x) xs = xs" by (rule filter_True)
    with 0 show ?thesis by simp
  next
    case (Suc j)
    then have "j < length xs" using Cons.prems(2) by simp
    moreover from this have "f x \<noteq> f (xs ! j)" using Cons.prems(1) by (auto simp: image_iff)
    ultimately show ?thesis using Cons Suc by simp
  qed
qed simp

lemma removed_refs:
  assumes "distinct (map ur_ID refs)" "ident \<in> set (map ur_ID refs)"
  shows "(case found_index ident refs 0 None of None \<Rightarrow> refs | Some i \<Rightarrow> take i refs @ drop (i + 1) refs) =
    filter (\<lambda>r. ur_ID r \<noteq> ident) refs"
proof -
  obtain i where i: "i < length refs" "found_index ident refs 0 None = Some i" "ur_ID (refs ! i) = ident"
    using found_index_set [OF assms(2), of 0 None] by auto
  then show ?thesis using remove_nth_filter [OF assms(1) i(1)] by simp
qed

locale uploader_laws =
  fixes env :: "('um, 'ui) uploader_env"
    and uentries :: "'um \<Rightarrow> (string \<times> uploadRef list) list"
    and uview :: "'ui \<Rightarrow> (string \<times> uploadRef list) list \<times> nat"
  assumes index_laws: "skiplist_laws (ue_sl env) uentries uview"
begin

sublocale usl: skiplist_laws "ue_sl env" uentries uview
  by (rule index_laws)

lemma index_refs_set [simp]:
  "index_refs env (bu\<lparr>bu_objectIndex := sl_set (ue_sl env) m obj refs\<rparr>) object =
     (if object = obj then refs else index_refs env (bu\<lparr>bu_objectIndex := m\<rparr>) object)"
  "index_refs env (bu\<lparr>bu_objectIndex := snd (sl_delete (ue_sl env) m obj)\<rparr>) object =
     (if object = obj then [] else index_refs env (bu\<lparr>bu_objectIndex := m\<rparr>) object)"
  by (simp_all add: index_refs_def)

lemma new_bucket_ok: "bucket_uploads_ok env n bucket (newBucketUploads env)"
  by (rule bucket_uploads_okI) (simp_all add: newBucketUploads_def index_refs_def)

section \<open>add and remove\<close>

lemma add_refs:
  "index_refs env (bu_add env mpu bu) object =
     index_refs env bu object @ (if object = mu_Object mpu then [upload_ref mpu] else [])"
  "bu_uploads (bu_add env mpu bu) = AList.update (mu_ID mpu) mpu (bu_uploads bu)"
  by (auto simp: bu_add_def Let_def index_refs_def split: option.splits)

lemma add_ok:
  assumes "bucket_uploads_ok env n bucket bu" "upload_ok env m bucket (mu_ID mpu) mpu" "n \<le> m"
    and "map_of (bu_uploads bu) (mu_ID mpu) = None"
  shows "bucket_uploads_ok env m bucket (bu_add env mpu bu)"
proof (rule bucket_uploads_okI)
  note D = bucket_uploads_okD [OF assms(1)]
  show "upload_ok env m bucket ident mpu'" if "map_of (bu_uploads (bu_add env mpu bu)) ident = Some mpu'"
    for ident mpu'
    using that assms(2) upload_ok_mono [OF D(1) assms(3)] by (simp add: add_refs(2) split: if_splits)
  show "sl_get (ue_sl env) (bu_objectIndex (bu_add env mpu bu)) object \<noteq> Some []" for object
    using D(2) [of object] by (auto simp: bu_add_def Let_def split: option.splits if_splits)
  have new: "mu_ID mpu \<notin> set (map ur_ID (index_refs env bu object))" for object
    using D(4) [of _ object] assms(4) by auto
  then show "distinct (map ur_ID (index_refs env (bu_add env mpu bu) object))" for object
    using D(3) [of object] by (simp add: add_refs(1))
  show "r \<in> set (index_refs env (bu_add env mpu bu) object) \<longleftrightarrow>
      (\<exists>mpu'. map_of (bu_uploads (bu_add env mpu bu)) (ur_ID r) = Some mpu' \<and> mu_Object mpu' = object \<and>
              r = upload_ref mpu')" for r object
    using D(4) [of r object] assms(4) by (auto simp: add_refs)
qed

lemma remove_uploads:
  assumes "bucket_uploads_ok env n bucket bu" "map_of (bu_uploads bu) ident = Some mpu"
  obtains bu' where "bu_remove env ident bu = Ok bu'" "bu_uploads bu' = AList.delete ident (bu_uploads bu)"
    "\<forall>object. index_refs env bu' object = filter (\<lambda>r. ur_ID r \<noteq> ident) (index_refs env bu object)"
    "\<forall>object. sl_get (ue_sl env) (bu_objectIndex bu') object \<noteq> Some []"
proof -
  note D = bucket_uploads_okD [OF assms(1)]
  have mem: "upload_ref mpu \<in> set (index_refs env bu (mu_Object mpu))"
    using D(4) [of "upload_ref mpu"] D(1) [OF assms(2)] assms(2) by (auto simp: upload_ok_def)
  then obtain refs where refs: "sl_get (ue_sl env) (bu_objectIndex bu) (mu_Object mpu) = Some refs"
    "index_refs env bu (mu_Object mpu) = refs"
    by (cases "sl_get (ue_sl env) (bu_objectIndex bu) (mu_Object mpu)") (auto simp: index_refs_def)
  have ident: "mu_ID mpu = ident" using D(1) [OF assms(2)] by (simp add: upload_ok_def)
  let ?refs = "filter (\<lambda>r. ur_ID r \<noteq> ident) refs"
  have del: "(case found_index ident refs 0 None of None \<Rightarrow> refs
      | Some i \<Rightarrow> take i refs @ drop (i + 1) refs) = ?refs"
    using removed_refs [of refs ident] D(3) [of "mu_Object mpu"] mem refs(2) ident by force
  have other: "filter (\<lambda>r. ur_ID r \<noteq> ident) (index_refs env bu object) = index_refs env bu object"
    if "object \<noteq> mu_Object mpu" for object
    using D(4) [of _ object] that assms(2) by (auto simp: filter_id_conv)
  let ?bu = "bu\<lparr>bu_uploads := AList.delete ident (bu_uploads bu),
    bu_objectIndex := (if ?refs = [] then snd (sl_delete (ue_sl env) (bu_objectIndex bu) (mu_Object mpu))
      else sl_set (ue_sl env) (bu_objectIndex bu) (mu_Object mpu) ?refs)\<rparr>"
  show thesis
  proof (rule that [of ?bu])
    show "bu_remove env ident bu = Ok ?bu"
      using assms(2) refs(1) unfolding bu_remove_def by (simp add: del Let_def)
    show "\<forall>object. index_refs env ?bu object = filter (\<lambda>r. ur_ID r \<noteq> ident) (index_refs env bu object)"
      using other refs(2) by (auto simp: index_refs_def)
    show "\<forall>object. sl_get (ue_sl env) (bu_objectIndex ?bu) object \<noteq> Some []"
      using D(2) by simp
  qed simp
qed

lemma remove_ok:
  assumes "bucket_uploads_ok env n bucket bu" "map_of (bu_uploads bu) ident = Some mpu"
    and "bu_remove env ident bu = Ok bu'"
  shows "bucket_uploads_ok env n bucket bu'"
proof -
  note D = bucket_uploads_okD [OF assms(1)]
  obtain b where b: "bu_remove env ident bu = Ok b" "bu_uploads b = AList.delete ident (bu_uploads bu)"
    "\<forall>object. index_refs env b object = filter (\<lambda>r. ur_ID r \<noteq> ident) (index_refs env bu object)"
    "\<forall>object. sl_get (ue_sl env) (bu_objectIndex b) object \<noteq> Some []"
    by (rule remove_uploads [OF assms(1,2)])
  have "bucket_uploads_ok env n bucket b"
  proof (rule bucket_uploads_okI)
    show "upload_ok env n bucket i m" if "map_of (bu_uploads b) i = Some m" for i m
      using that D(1) by (simp add: b(2) split: if_splits)
    show "distinct (map ur_ID (index_refs env b object))" for object
      using D(3) [of object] by (simp add: b(3) distinct_map_filter)
    show "r \<in> set (index_refs env b object) \<longleftrightarrow>
      (\<exists>m. map_of (bu_uploads b) (ur_ID r) = Some m \<and> mu_Object m = object \<and> r = upload_ref m)" for r object
      using D(4) [of r object] by (auto simp: b(2,3))
  qed (use b(4) in simp)
  then show ?thesis using assms(3) b(1) by simp
qed

section \<open>The invariant under the operations\<close>

lemma getUnlocked_Ok:
  "getUnlocked u bucket object ident = Ok mpu \<longleftrightarrow>
     find_upload u bucket ident = Some mpu \<and> mu_Bucket mpu = bucket \<and> mu_Object mpu = object"
  by (auto simp: getUnlocked_def find_upload_def split: option.splits)

lemma getUnlocked_Err:
  "getUnlocked u bucket object ident \<noteq> Panic" "getUnlocked u bucket object ident \<noteq> NoFuel"
  "getUnlocked u bucket object ident = Err e \<Longrightarrow> e = ECode ErrNoSuchUpload"
  by (auto simp: getUnlocked_def split: option.splits if_splits)

lemma find_uploadE:
  assumes "uploader_ok env u" "find_upload u bucket ident = Some mpu"
  obtains bu where "map_of (ul_buckets u) bucket = Some bu" "map_of (bu_uploads bu) ident = Some mpu"
    "bucket_uploads_ok env (ul_uploadID u) bucket bu" "mu_ID mpu = ident" "mu_Bucket mpu = bucket"
proof -
  obtain bu where bu: "map_of (ul_buckets u) bucket = Some bu" "map_of (bu_uploads bu) ident = Some mpu"
    using assms(2) by (auto simp: find_upload_def split: option.splits)
  note ok = uploader_okD [OF assms(1) bu(1)]
  have "upload_ok env (ul_uploadID u) bucket ident mpu" by (rule bucket_uploads_okD(1) [OF ok bu(2)])
  then show thesis using that [OF bu ok] by (simp add: upload_ok_def)
qed

lemma find_upload_parts:
  assumes "uploader_ok env u" "find_upload u bucket ident = Some mpu"
  shows "\<forall>i < length (mu_parts mpu). part_ok env i (mu_parts mpu ! i)"
proof -
  obtain bu where "map_of (bu_uploads bu) ident = Some mpu" "bucket_uploads_ok env (ul_uploadID u) bucket bu"
    by (rule find_uploadE [OF assms])
  from bucket_uploads_okD(1) [OF this(2,1)] show ?thesis by (simp add: upload_ok_def)
qed

lemma create_ok:
  assumes "uploader_ok env u"
    and "ul_CreateMultipartUpload env bucket object meta u = (r, u')"
  shows "uploader_ok env u'"
    and "\<exists>mpu. r = Ok (mu_ID mpu) \<and> mu_Object mpu = object \<and> mu_Meta mpu = meta \<and> mu_parts mpu = [] \<and>
      find_upload u bucket (mu_ID mpu) = None \<and>
      (\<forall>b i. find_upload u' b i =
         (if b = bucket \<and> i = mu_ID mpu then Some mpu else find_upload u b i))"
proof -
  let ?n = "ul_uploadID u + 1"
  let ?mpu = "\<lparr>mu_ID = nat_str ?n, mu_Bucket = bucket, mu_Object = object, mu_Meta = meta,
    mu_Initiated = ul_now u, mu_parts = []\<rparr>"
  let ?bu = "case map_of (ul_buckets u) bucket of None \<Rightarrow> newBucketUploads env | Some bu \<Rightarrow> bu"
  have r: "r = Ok (mu_ID ?mpu)"
    and u': "u' = (ul_set_bucket u bucket (bu_add env ?mpu ?bu))\<lparr>ul_uploadID := ?n\<rparr>"
    using assms(2) by (auto simp: ul_CreateMultipartUpload_def Let_def)
  have bu: "bucket_uploads_ok env (ul_uploadID u) bucket ?bu"
    using uploader_okD [OF assms(1)] new_bucket_ok by (auto split: option.splits)
  have ok: "upload_ok env ?n bucket (mu_ID ?mpu) ?mpu" by (auto simp: upload_ok_def intro!: exI [of _ ?n])
  have fresh: "map_of (bu_uploads ?bu) (mu_ID ?mpu) = None"
  proof (rule ccontr)
    assume "map_of (bu_uploads ?bu) (mu_ID ?mpu) \<noteq> None"
    then obtain m where "map_of (bu_uploads ?bu) (mu_ID ?mpu) = Some m" by auto
    from bucket_uploads_okD(1) [OF bu this] show False
      by (auto simp: upload_ok_def nat_str_inject)
  qed
  show "uploader_ok env u'"
    unfolding u' by (rule uploader_ok_set [OF assms(1) add_ok [OF bu ok _ fresh]]) simp_all
  have m: "map_of (ul_buckets u') b = (if b = bucket then Some (bu_add env ?mpu ?bu) else map_of (ul_buckets u) b)" for b
    unfolding u' by (simp add: ul_set_bucket_def)
  show "\<exists>mpu. r = Ok (mu_ID mpu) \<and> mu_Object mpu = object \<and> mu_Meta mpu = meta \<and> mu_parts mpu = [] \<and>
      find_upload u bucket (mu_ID mpu) = None \<and>
      (\<forall>b i. find_upload u' b i =
         (if b = bucket \<and> i = mu_ID mpu then Some mpu else find_upload u b i))"
    using r fresh
    by (intro exI [of _ ?mpu])
      (auto simp: find_upload_def m add_refs(2) newBucketUploads_def split: option.splits)
qed

lemma put_part_Ok:
  assumes "put_part part n parts = Ok parts'"
  shows "0 \<le> n" "length parts' = max (length parts) (nat n + 1)"
    "i < length parts' \<Longrightarrow> parts' ! i =
       (if i = nat n then Some part else if i < length parts then parts ! i else None)"
  using assms by (auto simp: put_part_def Let_def nth_append nth_list_update split: if_splits)

lemma put_part_no_panic: "0 \<le> n \<Longrightarrow> put_part part n parts \<noteq> Panic"
  by (simp add: put_part_def Let_def)

lemma put_part_other: "put_part part n parts \<noteq> Err e" "put_part part n parts \<noteq> NoFuel"
  by (simp_all add: put_part_def Let_def)

lemma set_upload_ok:
  assumes "uploader_ok env u" "find_upload u bucket ident = Some mpu"
    and "\<forall>i < length parts. part_ok env i (parts ! i)"
  shows "uploader_ok env (set_upload u bucket (mpu\<lparr>mu_parts := parts\<rparr>))"
    and "find_upload (set_upload u bucket (mpu\<lparr>mu_parts := parts\<rparr>)) b i =
      (if b = bucket \<and> i = ident then Some (mpu\<lparr>mu_parts := parts\<rparr>) else find_upload u b i)"
proof -
  obtain bu where bu: "map_of (ul_buckets u) bucket = Some bu" "map_of (bu_uploads bu) ident = Some mpu"
    "bucket_uploads_ok env (ul_uploadID u) bucket bu" "mu_ID mpu = ident" "mu_Bucket mpu = bucket"
    by (rule find_uploadE [OF assms(1,2)])
  note D = bucket_uploads_okD [OF bu(3)]
  let ?mpu = "mpu\<lparr>mu_parts := parts\<rparr>"
  let ?bu = "bu\<lparr>bu_uploads := AList.update ident ?mpu (bu_uploads bu)\<rparr>"
  have set: "set_upload u bucket ?mpu = ul_set_bucket u bucket ?bu"
    using bu by (simp add: set_upload_def)
  have refs: "index_refs env ?bu object = index_refs env bu object" for object
    by (simp add: index_refs_def)
  have "bucket_uploads_ok env (ul_uploadID u) bucket ?bu"
  proof (rule bucket_uploads_okI)
    show "upload_ok env (ul_uploadID u) bucket i m" if "map_of (bu_uploads ?bu) i = Some m" for i m
      using that D(1) [of i] D(1) [OF bu(2)] assms(3) by (auto simp: upload_ok_def split: if_splits)
    show "sl_get (ue_sl env) (bu_objectIndex ?bu) object \<noteq> Some []" for object using D(2) by simp
    show "distinct (map ur_ID (index_refs env ?bu object))" for object using D(3) by (simp add: refs)
    show "r \<in> set (index_refs env ?bu object) \<longleftrightarrow>
      (\<exists>m. map_of (bu_uploads ?bu) (ur_ID r) = Some m \<and> mu_Object m = object \<and> r = upload_ref m)" for r object
      using D(4) [of r object] bu(2) by (auto simp: refs)
  qed
  then show "uploader_ok env (set_upload u bucket ?mpu)"
    using uploader_ok_set [OF assms(1), of "ul_uploadID u"] by (simp add: set ul_set_bucket_def)
  show "find_upload (set_upload u bucket ?mpu) b i =
      (if b = bucket \<and> i = ident then Some ?mpu else find_upload u b i)"
    using bu(1) by (auto simp: set find_upload_def)
qed

text \<open>\<open>UploadPart\<close> either stores the part in its upload, or changes nothing.\<close>

lemma upload_part_cases:
  obtains (stored) body mpu parts where "io_ReadAll input = Ok body" "int (length body) = len"
      "getUnlocked u bucket object ident = Ok mpu"
      "put_part \<lparr>up_PartNumber = n, up_ETag = quoted (hex_encode (ue_md5 env body)), up_Body = body,
                 up_LastModified = ul_now u\<rparr> n (mu_parts mpu) = Ok parts"
      "ul_UploadPart env bucket object ident n len input u =
         (Ok (quoted (hex_encode (ue_md5 env body))), set_upload u bucket (mpu\<lparr>mu_parts := parts\<rparr>))"
  | (failed) "snd (ul_UploadPart env bucket object ident n len input u) = u"
      "\<not> is_ok (fst (ul_UploadPart env bucket object ident n len input u))"
proof (cases "is_ok (fst (ul_UploadPart env bucket object ident n len input u))")
  case True
  then have "\<exists>body mpu parts. io_ReadAll input = Ok body \<and> int (length body) = len \<and>
      getUnlocked u bucket object ident = Ok mpu \<and>
      put_part \<lparr>up_PartNumber = n, up_ETag = quoted (hex_encode (ue_md5 env body)), up_Body = body,
                 up_LastModified = ul_now u\<rparr> n (mu_parts mpu) = Ok parts \<and> n \<le> MaxUploadPartNumber"
    by (auto simp: ul_UploadPart_def Let_def is_ok_def rbind_eq_Ok split: if_splits res.splits)
  then show ?thesis by (elim exE conjE, intro stored) (simp_all add: ul_UploadPart_def Let_def)
next
  case False
  then show ?thesis
    by (intro failed) (auto simp: ul_UploadPart_def is_ok_def split: res.splits)
qed

lemma upload_part_ok:
  assumes "uploader_ok env u"
  shows "uploader_ok env (snd (ul_UploadPart env bucket object ident n len input u))"
proof (cases rule: upload_part_cases [of input len u bucket object ident n])
  case (stored body mpu parts)
  have f: "find_upload u bucket ident = Some mpu" using stored(3) by (simp add: getUnlocked_Ok)
  have old: "\<forall>i < length (mu_parts mpu). part_ok env i (mu_parts mpu ! i)"
    by (rule find_upload_parts [OF assms f])
  have "part_ok env i (parts ! i)" if "i < length parts" for i
    using put_part_Ok(3) [OF stored(4) that] put_part_Ok(1) [OF stored(4)] old
    by (auto simp: part_ok_def)
  then show ?thesis using set_upload_ok(1) [OF assms f] stored(5) by simp
next
  case failed
  then show ?thesis using assms by simp
qed

lemma remove_upload:
  assumes "uploader_ok env u" "find_upload u bucket ident = Some mpu"
  shows "\<exists>u'. ul_remove env bucket ident u = (Ok (), u') \<and> uploader_ok env u' \<and>
    ul_uploadID u' = ul_uploadID u \<and>
    (\<forall>b i. find_upload u' b i = (if b = bucket \<and> i = ident then None else find_upload u b i))"
proof -
  obtain bu where bu: "map_of (ul_buckets u) bucket = Some bu" "map_of (bu_uploads bu) ident = Some mpu"
    "bucket_uploads_ok env (ul_uploadID u) bucket bu"
    by (rule find_uploadE [OF assms])
  obtain bu' where bu': "bu_remove env ident bu = Ok bu'"
    "bu_uploads bu' = AList.delete ident (bu_uploads bu)"
    by (rule remove_uploads [OF bu(3,2)])
  have ok: "bucket_uploads_ok env (ul_uploadID u) bucket bu'" by (rule remove_ok [OF bu(3,2) bu'(1)])
  have "uploader_ok env (ul_set_bucket u bucket bu')"
    using uploader_ok_set [OF assms(1) ok order_refl] by (simp add: ul_set_bucket_def)
  moreover have "find_upload (ul_set_bucket u bucket bu') b i =
      (if b = bucket \<and> i = ident then None else find_upload u b i)" for b i
    using bu(1) bu'(2) by (simp add: find_upload_def)
  ultimately show ?thesis using bu(1) bu'(1) by (simp add: ul_remove_def)
qed

lemma abort_upload:
  assumes "uploader_ok env u" "getUnlocked u bucket object ident = Ok mpu"
  shows "\<exists>u'. ul_AbortMultipartUpload env bucket object ident u = (Ok (), u') \<and> uploader_ok env u' \<and>
    (\<forall>b i. find_upload u' b i = (if b = bucket \<and> i = ident then None else find_upload u b i))"
proof -
  have "find_upload u bucket ident = Some mpu" using assms(2) by (simp add: getUnlocked_Ok)
  from remove_upload [OF assms(1) this] show ?thesis
    using assms(2) by (auto simp: ul_AbortMultipartUpload_def act_defs)
qed

text \<open>The outcomes of \<open>CompleteMultipartUpload\<close>.\<close>

lemma complete_cases:
  assumes "uploader_ok env u"
  obtains
    (stored) mpu body etag result s' u' where "getUnlocked u bucket object ident = Ok mpu"
      "assemble env mpu ins = Ok (body, etag)"
      "be_PutObject storage bucket object (mu_Meta mpu) (bytes_reader body) (int (length body)) s =
         (Ok result, s')"
      "ul_remove env bucket ident u = (Ok (), u')"
      "ul_CompleteMultipartUpload env storage bucket object ident ins (u, s) =
         (Ok (pr_VersionID result, etag), (u', s'))"
  | (refused) mpu body etag s' where "getUnlocked u bucket object ident = Ok mpu"
      "assemble env mpu ins = Ok (body, etag)"
      "snd (be_PutObject storage bucket object (mu_Meta mpu) (bytes_reader body) (int (length body)) s) = s'"
      "snd (ul_CompleteMultipartUpload env storage bucket object ident ins (u, s)) = (u, s')"
      "\<not> is_ok (fst (ul_CompleteMultipartUpload env storage bucket object ident ins (u, s)))"
  | (failed) "snd (ul_CompleteMultipartUpload env storage bucket object ident ins (u, s)) = (u, s)"
      "\<not> is_ok (fst (ul_CompleteMultipartUpload env storage bucket object ident ins (u, s)))"
proof (cases "\<exists>mpu body etag. getUnlocked u bucket object ident = Ok mpu \<and> assemble env mpu ins = Ok (body, etag)")
  case False
  then have "\<not> is_ok (rbind (getUnlocked u bucket object ident)
      (\<lambda>mpu. rbind (assemble env mpu ins) (\<lambda>(body, etag). Ok (mu_Meta mpu, body, etag))))"
    by (cases "getUnlocked u bucket object ident")
      (auto simp: is_ok_def rbind_eq_Ok split: res.splits prod.splits)
  then show ?thesis
    by (intro failed) (auto simp: ul_CompleteMultipartUpload_def is_ok_def split: res.splits)
next
  case True
  then obtain mpu body etag where a: "getUnlocked u bucket object ident = Ok mpu"
    "assemble env mpu ins = Ok (body, etag)" by blast
  let ?put = "be_PutObject storage bucket object (mu_Meta mpu) (bytes_reader body) (int (length body)) s"
  show ?thesis
  proof (cases "is_ok (fst ?put)")
    case True
    then obtain result s' where put: "?put = (Ok result, s')"
      by (cases ?put) (auto simp: is_ok_def split: res.splits)
    have f: "find_upload u bucket ident = Some mpu" using a(1) by (simp add: getUnlocked_Ok)
    obtain u' where rm: "ul_remove env bucket ident u = (Ok (), u')"
      using remove_upload [OF assms f] by (elim exE conjE)
    show ?thesis
      by (rule stored [OF a put rm]) (simp add: ul_CompleteMultipartUpload_def a put rm)
  next
    case False
    then show ?thesis
      by (intro refused [OF a refl])
        (auto simp: ul_CompleteMultipartUpload_def a is_ok_def split: res.splits prod.splits)
  qed
qed

lemma uploader_ok_step:
  "ul_step env storage us us' \<Longrightarrow> uploader_ok env (fst us) \<Longrightarrow> uploader_ok env (fst us')"
proof (induction rule: ul_step.induct)
  case (ul_step_tick u s t)
  then show ?case by (simp add: uploader_ok_def)
next
  case (ul_step_create u s bucket object meta)
  then show ?case using create_ok(1) [OF _ surjective_pairing] by simp
next
  case (ul_step_part u s bucket object ident n len input)
  then show ?case using upload_part_ok by simp
next
  case (ul_step_abort u s bucket object ident)
  show ?case
  proof (cases "getUnlocked u bucket object ident")
    case (Ok mpu)
    then show ?thesis using abort_upload [of u bucket object ident mpu] ul_step_abort by auto
  qed (use ul_step_abort in \<open>simp_all add: ul_AbortMultipartUpload_def act_defs\<close>)
next
  case (ul_step_complete us bucket object ident ins)
  obtain u s where us: "us = (u, s)" by (cases us)
  then have ok: "uploader_ok env u" using ul_step_complete by simp
  from ok show ?case unfolding us
  proof (cases rule: complete_cases [where bucket = bucket and object = object and ident = ident
        and ins = ins and storage = storage and s = s])
    case (stored mpu body etag result s' u')
    then have "find_upload u bucket ident = Some mpu" by (simp add: getUnlocked_Ok)
    from remove_upload [OF ok this] stored(4,5) show
      "uploader_ok env (fst (snd (ul_CompleteMultipartUpload env storage bucket object ident ins (u, s))))"
      by auto
  qed (simp_all add: ok)
qed simp

lemma uploader_reachable_ok: "ul_reachable env storage us \<Longrightarrow> uploader_ok env (fst us)"
proof (induction rule: ul_reachable.induct)
  case (ul_reach_new now s)
  show ?case by (simp add: uploader_ok_def newUploader_def)
next
  case (ul_reach_step us us')
  then show ?case using uploader_ok_step by blast
qed

section \<open>What a completed upload consists of\<close>

lemma stored_part_Ok:
  "stored_part parts n = Ok p \<longleftrightarrow> 0 \<le> n \<and> n < int (length parts) \<and> parts ! nat n = Some p"
  by (auto simp: stored_part_def Let_def split: option.splits)

lemma check_parts_Ok:
  "(\<exists>sz'. check_parts (mu_parts mpu) ins sz = Ok sz') \<longleftrightarrow> (\<exists>ps. list_all2 (names_part mpu) ins ps)"
proof (induction ins arbitrary: sz)
  case (Cons i ins)
  show ?case
  proof (cases "\<exists>p. names_part mpu i p")
    case True
    then obtain p where p: "names_part mpu i p" by auto
    then have "stored_part (mu_parts mpu) (cp_PartNumber i) = Ok p"
      by (simp add: stored_part_Ok names_part_def)
    with Cons p show ?thesis by (auto simp: names_part_def list_all2_Cons1)
  next
    case False
    then have "trim (cp_ETag i) [CHR 0x22] \<noteq> trim (up_ETag p) [CHR 0x22]"
      if "stored_part (mu_parts mpu) (cp_PartNumber i) = Ok p" for p
      using that by (auto simp: stored_part_Ok names_part_def)
    then have "check_parts (mu_parts mpu) (i # ins) sz \<noteq> Ok sz'" for sz'
      by (cases "stored_part (mu_parts mpu) (cp_PartNumber i)") auto
    with False show ?thesis by (auto simp: list_all2_Cons1)
  qed
qed (auto intro: exI [of _ "[]"])

lemma join_parts_Ok:
  assumes "list_all2 (names_part mpu) ins ps" "\<forall>i < length (mu_parts mpu). part_ok env i (mu_parts mpu ! i)"
  shows "join_parts (mu_parts mpu) ins body hashed =
    Ok (body @ concat (map up_Body ps), hashed @ concat (map (\<lambda>p. ue_md5 env (up_Body p)) ps))"
  using assms(1)
proof (induction ins ps arbitrary: body hashed rule: list_all2_induct)
  case (Cons i ins p ps)
  then have st: "stored_part (mu_parts mpu) (cp_PartNumber i) = Ok p"
    by (simp add: stored_part_Ok names_part_def)
  have "part_ok env (nat (cp_PartNumber i)) (mu_parts mpu ! nat (cp_PartNumber i))"
    using assms(2) [rule_format, of "nat (cp_PartNumber i)"] Cons(1)
    by (simp add: names_part_def nat_less_iff)
  then have "up_ETag p = quoted (hex_encode (ue_md5 env (up_Body p)))"
    using Cons(1) by (simp add: names_part_def part_ok_def)
  then have "hex_decode (trim (up_ETag p) [CHR 0x22]) = Some (ue_md5 env (up_Body p))"
    by (simp add: trim_quoted hex_encode_no_quote hex_decode_encode)
  with st Cons.IH show ?case by simp
qed simp

text \<open>
  \<open>assemble\<close> succeeds exactly when the request names stored parts, and no more of them than there are
  positions; the body is the concatenation of the named parts in the order of the request.
\<close>

lemma assemble_Ok_iff:
  assumes "\<forall>i < length (mu_parts mpu). part_ok env i (mu_parts mpu ! i)"
  shows "assemble env mpu ins = Ok (body, etag) \<longleftrightarrow>
    length ins \<le> length (mu_parts mpu) \<and>
    (\<exists>ps. list_all2 (names_part mpu) ins ps \<and> body = concat (map up_Body ps) \<and>
       etag = quoted (hex_encode (ue_md5 env (concat (map (\<lambda>p. ue_md5 env (up_Body p)) ps))) @ ''-'' @
                      nat_str (length ins)))"
proof (cases "\<exists>ps. list_all2 (names_part mpu) ins ps")
  case True
  then obtain ps where ps: "list_all2 (names_part mpu) ins ps" by auto
  then obtain sz where sz: "check_parts (mu_parts mpu) ins 0 = Ok sz" using check_parts_Ok by blast
  have uniq: "ps' = ps" if "list_all2 (names_part mpu) ins ps'" for ps'
  proof (rule list_all2_eq [THEN iffD2])
    show "list_all2 (=) ps' ps"
      using that ps by (auto simp: list_all2_conv_all_nth names_part_def)
  qed
  have asm: "assemble env mpu ins =
     (if length (mu_parts mpu) < length ins then Err (ECode ErrInvalidPart)
      else Ok (concat (map up_Body ps), quoted (hex_encode (ue_md5 env
             (concat (map (\<lambda>p. ue_md5 env (up_Body p)) ps))) @ ''-'' @ nat_str (length ins))))"
    using sz join_parts_Ok [OF ps assms, of "[]" "[]"] by (simp add: assemble_def)
  have "(\<exists>ps'. list_all2 (names_part mpu) ins ps' \<and> P ps') \<longleftrightarrow> P ps" for P using uniq ps by blast
  then show ?thesis unfolding asm by (simp add: not_less) blast
next
  case False
  then have "check_parts (mu_parts mpu) ins 0 \<noteq> Ok sz" for sz using check_parts_Ok by blast
  then have "assemble env mpu ins \<noteq> Ok (body, etag)" by (simp add: assemble_def rbind_eq_Ok)
  with False show ?thesis by blast
qed

end

section \<open>The listings\<close>

text \<open>The parts of a slice as \<open>ListParts\<close> reports them, numbered from \<open>n\<close>.\<close>

fun part_items :: "int \<Rightarrow> multipartUploadPart option list \<Rightarrow> ListMultipartUploadPartItem list" where
  "part_items n [] = []"
| "part_items n (None # ps) = part_items (n + 1) ps"
| "part_items n (Some part # ps) =
     \<lparr>pi_PartNumber = n, pi_LastModified = up_LastModified part, pi_ETag = up_ETag part,
      pi_Size = int (length (up_Body part))\<rparr> # part_items (n + 1) ps"

lemma lp_loop_items:
  assumes "0 \<le> cnt" "cnt \<le> limit" "\<not> lp_IsTruncated r"
  shows "lp_Parts (lp_loop limit n cnt ps r) = lp_Parts r @ take (nat (limit - cnt)) (part_items n ps) \<and>
    (lp_IsTruncated (lp_loop limit n cnt ps r) \<longleftrightarrow> limit - cnt < int (length (part_items n ps)))"
  using assms
proof (induction limit n cnt ps r rule: lp_loop.induct)
  case (3 limit n cnt part ps r)
  show ?case
  proof (cases "limit \<le> cnt")
    case False
    then have "nat (limit - cnt) = Suc (nat (limit - (cnt + 1)))" by simp
    then show ?thesis using 3 False by auto
  qed (use 3 in simp)
qed simp_all

definition upload_item :: "string \<Rightarrow> uploadRef \<Rightarrow> ListMultipartUploadItem" where
  "upload_item object r =
     \<lparr>ui_Key = object, ui_UploadID = ur_ID r, ui_StorageClass = ''STANDARD'', ui_Initiated = ur_Initiated r\<rparr>"

definition upload_items :: "Prefix \<Rightarrow> (string \<times> uploadRef list) list \<Rightarrow> ListMultipartUploadItem list" where
  "upload_items p es =
     concat (map (\<lambda>e. map (upload_item (fst e)) (snd e))
       (filter (\<lambda>e. prefix_Match p (fst e) \<noteq> None) es))"

lemma upload_items_simps [simp]:
  "upload_items p [] = []"
  "upload_items p (e # es) =
     (if prefix_Match p (fst e) \<noteq> None then map (upload_item (fst e)) (snd e) else []) @ upload_items p es"
  by (simp_all add: upload_items_def)

lemma lu_uploads_all:
  assumes "cnt + int (length refs) < limit"
  shows "lu_uploads object limit refs r cnt =
    (r\<lparr>lu_Uploads := lu_Uploads r @ map (upload_item object) refs\<rparr>, cnt + int (length refs), False, False)"
  using assms by (induction refs arbitrary: r cnt) (simp_all add: upload_item_def)

lemma lu_fold_all:
  assumes "\<not> HasDelimiter p" "ls_firstFound st" "\<not> ls_truncated st"
    and "ls_cnt st + int (length (upload_items p es)) < limit"
  shows "\<exists>st'. list_range (lu_body p i limit) st es = (st', [], False) \<and> \<not> ls_truncated st' \<and>
    ls_result st' = (ls_result st)\<lparr>lu_Uploads := lu_Uploads (ls_result st) @ upload_items p es\<rparr>"
  using assms(2-4)
proof (induction es arbitrary: st)
  case (Cons e es)
  show ?case
  proof (cases "prefix_Match p (fst e)")
    case None
    then show ?thesis using Cons.IH [of st] Cons.prems by (simp add: lu_body_def)
  next
    case (Some m)
    let ?r = "(ls_result st)\<lparr>lu_Uploads := lu_Uploads (ls_result st) @ map (upload_item (fst e)) (snd e)\<rparr>"
    let ?st = "st\<lparr>ls_firstFound := True, ls_result := ?r, ls_cnt := ls_cnt st + int (length (snd e)),
      ls_truncated := False\<rparr>"
    have "lu_body p i limit e st = Continue ?st"
      using Some Cons.prems prefix_Match_no_delim_flat [OF assms(1) Some]
        lu_uploads_all [of "ls_cnt st" "snd e" limit "fst e" "ls_result st"]
      by (simp add: lu_body_def Let_def)
    then show ?thesis using Cons.IH [of ?st] Cons.prems Some by simp
  qed
qed simp

context uploader_laws
begin

lemma ListMultipartUploads_all:
  assumes "map_of (ul_buckets u) bucket = Some bu" "\<not> HasDelimiter p"
    and "int (length (upload_items p (uentries (bu_objectIndex bu)))) < limit"
  shows "\<exists>r. ul_ListMultipartUploads env bucket None p limit u = (Ok r, u) \<and>
    lu_Uploads r = upload_items p (uentries (bu_objectIndex bu)) \<and> \<not> lu_IsTruncated r"
proof -
  let ?es = "uentries (bu_objectIndex bu)"
  let ?g = "gs_New (sl_iterator (ue_sl env) (bu_objectIndex bu))"
  let ?n = "Suc (sl_len (ue_sl env) (bu_objectIndex bu))"
  let ?r = "\<lparr>lu_Bucket = bucket, lu_KeyMarker = '''', lu_UploadIDMarker = '''', lu_NextKeyMarker = '''',
              lu_NextUploadIDMarker = '''', lu_MaxUploads = limit, lu_Delimiter = pfx_Delimiter p,
              lu_Prefix = pfx_Prefix p, lu_CommonPrefixes = [], lu_IsTruncated = False,
              lu_Uploads = []\<rparr>"
  let ?st = "\<lparr>ls_result = ?r, ls_cnt = 0, ls_firstFound = True, ls_seen = [], ls_truncated = False\<rparr>"
  obtain e where y: "yields (gs_step (ue_sl env)) ?g ?es e" and e: "\<not> gs_didSeek e"
      "uview (gs_inner e) = (?es, length ?es)"
    using usl.gs_yields_new [of "bu_objectIndex bu"] by (elim exE conjE)
  obtain st' where l: "list_range (lu_body p '''' limit) ?st ?es = (st', [], False)"
    "\<not> ls_truncated st'" "ls_result st' = ?r\<lparr>lu_Uploads := upload_items p ?es\<rparr>"
    using lu_fold_all [OF assms(2), of ?st ?es limit "''''"] assms(3) by auto
  have len: "length ?es < ?n" by (simp add: usl.len_entries)
  from go_range_yields [OF y len l(1)]
  have g: "go_range ?n (gs_step (ue_sl env)) (lu_body p '''' limit) ?st ?g = Some (st', e)" by simp
  have "fst (gs_step (ue_sl env) e) = None"
    using usl.view_next [OF e(2)] e(1) by (simp add: gs_step_def gs_Next_def split_beta)
  then have "go_range ?n (gs_step (ue_sl env)) (lu_more_body p) (Ok (ls_result st')) e =
      Some (Ok (ls_result st'), snd (gs_step (ue_sl env) e))"
    by (simp add: split_beta split: option.splits)
  then show ?thesis using assms(1) g l(2,3)
    by (simp add: ul_ListMultipartUploads_def Let_def del: go_range.simps)
qed

end

section \<open>A concrete environment\<close>

definition demo_uploader :: "((string \<times> uploadRef list) list, (string, uploadRef list) alist_iterator) uploader_env" where
  "demo_uploader = \<lparr>ue_sl = alist_skiplist, ue_md5 = (\<lambda>bs. take 16 (bs @ replicate 16 (CHR 0x00)))\<rparr>"

interpretation demo_up: uploader_laws demo_uploader alist_entries id
  by (rule uploader_laws.intro) (simp add: demo_uploader_def alist.skiplist_laws_axioms)

end
