(* ===== verification/UploaderProperties.thy ===== *)
theory UploaderProperties
  imports UploaderFacts
begin

text \<open>
  The properties of the multipart uploader, for any skip list that meets the contract and any storage
  back end, with witnesses on concrete states.
\<close>

section \<open>Concrete states\<close>

lemma demo_uploader_laws: "uploader_laws demo_uploader alist_entries id"
  by (rule demo_up.uploader_laws_axioms)

definition demo_u0 :: "(string \<times> uploadRef list) list uploader" where
  "demo_u0 = newUploader 0"

definition demo_u1 where
  "demo_u1 = snd (ul_CreateMultipartUpload demo_uploader ''b'' ''k'' (Some []) demo_u0)"

definition demo_u2 where
  "demo_u2 = snd (ul_UploadPart demo_uploader ''b'' ''k'' ''1'' 1 2 (bytes_reader ''xy'') demo_u1)"

text \<open>A storage that keeps the last body it was given.\<close>

definition demo_storage :: "bytes Backend" where
  "demo_storage =
     \<lparr>be_ListBuckets = act_ok [], be_ListBucket = (\<lambda>_ _ _. act_ok NewObjectList),
      be_CreateBucket = (\<lambda>_. act_ok ()), be_BucketExists = (\<lambda>_. act_ok True),
      be_DeleteBucket = (\<lambda>_. act_ok ()), be_ForceDeleteBucket = (\<lambda>_. act_ok ()),
      be_GetObject = (\<lambda>_ k _. act_err (KeyNotFound k)), be_HeadObject = (\<lambda>_ k. act_err (KeyNotFound k)),
      be_DeleteObject = (\<lambda>_ _. act_ok emptyDeleteResult),
      be_PutObject = (\<lambda>_ _ _ r sz s. (Ok \<lparr>pr_VersionID = ''''\<rparr>, rd_bytes r)),
      be_DeleteMulti = (\<lambda>_ _. act_ok \<lparr>md_Deleted = [], md_Error = []\<rparr>),
      be_CopyObject = (\<lambda>_ _ _ _ _. act_ok \<lparr>cr_ETag = '''', cr_LastModified = 0\<rparr>)\<rparr>"

lemma demo_uploader_reachable:
  "ul_reachable demo_uploader demo_storage (demo_u1, s)" "ul_reachable demo_uploader demo_storage (demo_u2, s)"
  unfolding demo_u1_def demo_u2_def demo_u0_def
  by (intro ul_reach_new ul_reach_step [OF _ ul_step_create] ul_reach_step [OF _ ul_step_part])+

lemma demo_uploader_ok: "uploader_ok demo_uploader demo_u1" "uploader_ok demo_uploader demo_u2"
  using demo_up.uploader_reachable_ok demo_uploader_reachable by (metis fst_conv)+

definition demo_part :: multipartUploadPart where
  "demo_part =
     \<lparr>up_PartNumber = 1, up_ETag = quoted (hex_encode (ue_md5 demo_uploader ''xy'')), up_Body = ''xy'',
      up_LastModified = 0\<rparr>"

definition demo_mpu :: multipartUpload where
  "demo_mpu =
     \<lparr>mu_ID = ''1'', mu_Bucket = ''b'', mu_Object = ''k'', mu_Meta = Some [], mu_Initiated = 0,
      mu_parts = [None, Some demo_part]\<rparr>"

lemma demo_nat_str: "nat_str 1 = ''1''" "nat_str (Suc 0) = ''1''"
  by code_simp+

lemma demo_u1_eq:
  "demo_u1 = \<lparr>ul_buckets = [(''b'', \<lparr>bu_uploads = [(''1'', demo_mpu\<lparr>mu_parts := []\<rparr>)],
       bu_objectIndex = [(''k'', [\<lparr>ur_ID = ''1'', ur_Initiated = 0\<rparr>])]\<rparr>)],
     ul_uploadID = 1, ul_now = 0\<rparr>"
  unfolding demo_u1_def demo_u0_def
  by (simp add: uploader_defs demo_uploader_def alist_skiplist_def demo_mpu_def demo_nat_str Let_def
      del: nat_str.simps)

lemma demo_u2_eq:
  "demo_u2 = \<lparr>ul_buckets = [(''b'', \<lparr>bu_uploads = [(''1'', demo_mpu)],
       bu_objectIndex = [(''k'', [\<lparr>ur_ID = ''1'', ur_Initiated = 0\<rparr>])]\<rparr>)],
     ul_uploadID = 1, ul_now = 0\<rparr>"
  unfolding demo_u2_def demo_u1_eq
  by (simp add: uploader_defs demo_mpu_def demo_part_def bytes_reader_def Let_def eval_nat_numeral)

lemma demo_u2_upload: "getUnlocked demo_u2 ''b'' ''k'' ''1'' = Ok demo_mpu"
  by (simp add: getUnlocked_def demo_u2_eq demo_mpu_def)

section \<open>Properties\<close>

text \<open>
  C22: in every state the uploader reaches, upload IDs are numbers already given out, each upload is
  kept under its ID and bucket, every stored part has the number of its position and the ETag of its
  body, and the index lists for each key exactly the uploads of that key, each once.
\<close>

theorem uploader_invariant:
  assumes "uploader_laws env uentries uview" "ul_reachable env storage us"
  shows "uploader_ok env (fst us)"
  by (rule uploader_laws.uploader_reachable_ok [OF assms])

lemma uploader_invariant_witness:
  "ul_reachable demo_uploader demo_storage (demo_u2, '''') \<and> uploader_ok demo_uploader demo_u2"
  using uploader_invariant [OF demo_uploader_laws demo_uploader_reachable(2), of "''''"]
    demo_uploader_reachable(2) by simp

text \<open>
  Creating an upload gives it an ID that no upload of the bucket has, registers it without parts,
  and leaves every other upload as it was.
\<close>

theorem create_upload_fresh:
  assumes "uploader_laws env uentries uview" "uploader_ok env u"
    and "ul_CreateMultipartUpload env bucket object meta u = (r, u')"
  shows "\<exists>mpu. r = Ok (mu_ID mpu) \<and> mu_Object mpu = object \<and> mu_Meta mpu = meta \<and> mu_parts mpu = [] \<and>
      find_upload u bucket (mu_ID mpu) = None \<and>
      (\<forall>b i. find_upload u' b i =
         (if b = bucket \<and> i = mu_ID mpu then Some mpu else find_upload u b i))"
  by (rule uploader_laws.create_ok(2) [OF assms])

lemma create_upload_fresh_witness:
  "\<exists>i. fst (ul_CreateMultipartUpload demo_uploader ''b'' ''j'' None demo_u2) = Ok i \<and>
     find_upload demo_u2 ''b'' i = None"
  using create_upload_fresh [OF demo_uploader_laws demo_uploader_ok(2) surjective_pairing,
      of "''b''" "''j''" None] by auto

text \<open>
  An upload of a part that succeeds returns the quoted MD5 of the body and stores it at its number;
  the parts at other numbers and all other uploads are kept. The part number is then between 0 and
  10000 and the body has the announced length.
\<close>

theorem upload_part_stores:
  assumes "uploader_laws env uentries uview" "uploader_ok env u"
    and "ul_UploadPart env bucket object ident n len input u = (Ok etag, u')"
  shows "etag = quoted (hex_encode (ue_md5 env (rd_bytes input))) \<and> int (length (rd_bytes input)) = len \<and>
    0 \<le> n \<and> n \<le> MaxUploadPartNumber \<and>
    (\<exists>mpu mpu'. getUnlocked u bucket object ident = Ok mpu \<and>
       (\<forall>b i. find_upload u' b i = (if b = bucket \<and> i = ident then Some mpu' else find_upload u b i)) \<and>
       nat n < length (mu_parts mpu') \<and>
       map_option up_Body (mu_parts mpu' ! nat n) = Some (rd_bytes input) \<and>
       (\<forall>i < length (mu_parts mpu). i \<noteq> nat n \<longrightarrow> mu_parts mpu' ! i = mu_parts mpu ! i))"
proof -
  have small: "n \<le> MaxUploadPartNumber" using assms(3) by (auto simp: ul_UploadPart_def split: if_splits)
  show ?thesis
  proof (cases rule: uploader_laws.upload_part_cases [OF assms(1), of input len u bucket object ident n])
    case (1 body mpu parts)
    have f: "find_upload u bucket ident = Some mpu"
      using 1(3) by (simp add: uploader_laws.getUnlocked_Ok [OF assms(1)])
    have body: "body = rd_bytes input" using 1(1) by (simp add: io_ReadAll_def split: option.splits)
    note put = uploader_laws.put_part_Ok [OF assms(1) 1(4)]
    have "\<forall>i < length parts. part_ok env i (parts ! i)"
      using put uploader_laws.find_upload_parts [OF assms(1,2) f] by (auto simp: part_ok_def)
    note set = uploader_laws.set_upload_ok(2) [OF assms(1,2) f this]
    show ?thesis
      using 1 assms(3) small set put body by (intro conjI exI [of _ mpu] exI [of _ "mpu\<lparr>mu_parts := parts\<rparr>"]) auto
  next
    case 2
    then show ?thesis using assms(3) by (simp add: is_ok_def)
  qed
qed

lemma upload_part_stores_witness:
  "\<exists>mpu'. find_upload demo_u2 ''b'' ''1'' = Some mpu' \<and> map_option up_Body (mu_parts mpu' ! 1) = Some ''xy''"
proof -
  have r: "ul_UploadPart demo_uploader ''b'' ''k'' ''1'' 1 2 (bytes_reader ''xy'') demo_u1 =
      (Ok (up_ETag demo_part), demo_u2)"
    unfolding demo_u2_def demo_u1_eq
    by (simp add: uploader_defs demo_mpu_def demo_part_def bytes_reader_def Let_def)
  show ?thesis
    using upload_part_stores [OF demo_uploader_laws demo_uploader_ok(1) r] by (auto simp: bytes_reader_def)
qed

text \<open>
  C11: completing an upload. When it succeeds, the request named stored parts, each with its ETag, and
  the object given to the storage is the concatenation of their bodies in the order of the request;
  the upload is then gone and every other upload is kept.
\<close>

theorem complete_assembles:
  assumes "uploader_laws env uentries uview" "uploader_ok env u"
    and "ul_CompleteMultipartUpload env storage bucket object ident ins (u, s) = (Ok (vid, etag), (u', s'))"
  shows "\<exists>mpu ps. getUnlocked u bucket object ident = Ok mpu \<and> list_all2 (names_part mpu) ins ps \<and>
    be_PutObject storage bucket object (mu_Meta mpu) (bytes_reader (concat (map up_Body ps)))
      (int (length (concat (map up_Body ps)))) s = (Ok \<lparr>pr_VersionID = vid\<rparr>, s') \<and>
    etag = quoted (hex_encode (ue_md5 env (concat (map (\<lambda>p. ue_md5 env (up_Body p)) ps))) @ ''-'' @
                   nat_str (length ins)) \<and>
    (\<forall>b i. find_upload u' b i = (if b = bucket \<and> i = ident then None else find_upload u b i))"
proof -
  obtain mpu body result where c: "getUnlocked u bucket object ident = Ok mpu"
    "assemble env mpu ins = Ok (body, etag)"
    "be_PutObject storage bucket object (mu_Meta mpu) (bytes_reader body) (int (length body)) s =
       (Ok result, s')" "ul_remove env bucket ident u = (Ok (), u')" "vid = pr_VersionID result"
  proof (cases rule: uploader_laws.complete_cases [OF assms(1,2), where bucket = bucket and object = object
          and ident = ident and ins = ins and storage = storage and s = s])
    case (1 mpu body tag result t v)
    then show thesis using that [of mpu body result] assms(3) by simp
  next
    case (2 mpu body tag t)
    then show thesis using assms(3) by (simp add: is_ok_def)
  next
    case 3
    then show thesis using assms(3) by (simp add: is_ok_def)
  qed
  have f: "find_upload u bucket ident = Some mpu"
    using c(1) by (simp add: uploader_laws.getUnlocked_Ok [OF assms(1)])
  obtain ps where ps: "list_all2 (names_part mpu) ins ps" "body = concat (map up_Body ps)"
    "etag = quoted (hex_encode (ue_md5 env (concat (map (\<lambda>p. ue_md5 env (up_Body p)) ps))) @ ''-'' @
                      nat_str (length ins))"
    using c(2) uploader_laws.assemble_Ok_iff [OF assms(1) uploader_laws.find_upload_parts [OF assms(1,2) f]]
    by blast
  have "result = \<lparr>pr_VersionID = vid\<rparr>" using c(5) by simp
  then show ?thesis
    using c ps uploader_laws.remove_upload [OF assms(1,2) f]
    by (intro exI [of _ mpu] exI [of _ ps]) auto
qed

lemma complete_assembles_witness:
  "\<exists>vid etag u'. ul_CompleteMultipartUpload demo_uploader demo_storage ''b'' ''k'' ''1''
       [\<lparr>cp_PartNumber = 1, cp_ETag = up_ETag demo_part\<rparr>] (demo_u2, '''') = (Ok (vid, etag), (u', ''xy'')) \<and>
     find_upload u' ''b'' ''1'' = None"
proof -
  let ?ins = "[\<lparr>cp_PartNumber = 1, cp_ETag = up_ETag demo_part\<rparr>]"
  let ?c = "ul_CompleteMultipartUpload demo_uploader demo_storage ''b'' ''k'' ''1'' ?ins (demo_u2, '''')"
  have n: "list_all2 (names_part demo_mpu) ?ins [demo_part]"
    by (simp add: names_part_def demo_mpu_def)
  have f: "find_upload demo_u2 ''b'' ''1'' = Some demo_mpu"
    using demo_u2_upload by (simp add: demo_up.getUnlocked_Ok)
  have "\<exists>etag. assemble demo_uploader demo_mpu ?ins = Ok (''xy'', etag)"
    unfolding demo_up.assemble_Ok_iff [OF demo_up.find_upload_parts [OF demo_uploader_ok(2) f]]
    using n by (intro exI conjI) (assumption | simp add: demo_mpu_def demo_part_def)+
  then obtain etag where a: "assemble demo_uploader demo_mpu ?ins = Ok (''xy'', etag)" ..
  obtain u' where rm: "ul_remove demo_uploader ''b'' ''1'' demo_u2 = (Ok (), u')"
    using demo_up.remove_upload [OF demo_uploader_ok(2) f] by auto
  have c: "?c = (Ok ('''', etag), (u', ''xy''))"
    by (simp add: ul_CompleteMultipartUpload_def demo_u2_upload a rm demo_storage_def bytes_reader_def)
  from complete_assembles [OF demo_uploader_laws demo_uploader_ok(2) c] c show ?thesis by auto
qed

text \<open>
  A completion that does not succeed keeps every upload, so that the client can try again; and
  unless the storage was called, the storage is not touched either.
\<close>

theorem complete_failure_keeps:
  assumes "uploader_laws env uentries uview" "uploader_ok env u"
    and "ul_CompleteMultipartUpload env storage bucket object ident ins (u, s) = (r, (u', s'))"
    and "\<not> is_ok r"
  shows "u' = u \<and> (s' = s \<or> (\<exists>mpu body etag. getUnlocked u bucket object ident = Ok mpu \<and>
    assemble env mpu ins = Ok (body, etag) \<and>
    s' = snd (be_PutObject storage bucket object (mu_Meta mpu) (bytes_reader body) (int (length body)) s)))"
  using assms(3,4)
  by (cases rule: uploader_laws.complete_cases [OF assms(1,2), where bucket = bucket and object = object
        and ident = ident and ins = ins and storage = storage and s = s]) (auto simp: is_ok_def)

lemma complete_failure_keeps_witness:
  "fst (snd (ul_CompleteMultipartUpload demo_uploader demo_storage ''b'' ''k'' ''2'' [] (demo_u2, ''''))) = demo_u2"
proof -
  let ?c = "ul_CompleteMultipartUpload demo_uploader demo_storage ''b'' ''k'' ''2'' [] (demo_u2, '''')"
  have "\<not> is_ok (fst ?c)"
    by (simp add: ul_CompleteMultipartUpload_def getUnlocked_def demo_u2_eq is_ok_def)
  from complete_failure_keeps [OF demo_uploader_laws demo_uploader_ok(2) _ this,
      where u' = "fst (snd ?c)" and s' = "snd (snd ?c)"]
  show ?thesis by simp
qed

text \<open>
  Aborting an upload removes it and no other; a second abort then answers \<open>NoSuchUpload\<close>.
\<close>

theorem abort_removes:
  assumes "uploader_laws env uentries uview" "uploader_ok env u"
    and "getUnlocked u bucket object ident = Ok mpu"
  shows "\<exists>u'. ul_AbortMultipartUpload env bucket object ident u = (Ok (), u') \<and>
    (\<forall>b i. find_upload u' b i = (if b = bucket \<and> i = ident then None else find_upload u b i)) \<and>
    ul_AbortMultipartUpload env bucket object ident u' = (Err (ECode ErrNoSuchUpload), u')"
proof -
  obtain u' where u': "ul_AbortMultipartUpload env bucket object ident u = (Ok (), u')"
    "\<forall>b i. find_upload u' b i = (if b = bucket \<and> i = ident then None else find_upload u b i)"
    using uploader_laws.abort_upload [OF assms] by blast
  then have "find_upload u' bucket ident = None" by simp
  then have "getUnlocked u' bucket object ident = Err (ECode ErrNoSuchUpload)"
    by (auto simp: find_upload_def getUnlocked_def split: option.splits)
  then show ?thesis using u' by (auto simp: ul_AbortMultipartUpload_def act_defs)
qed

lemma abort_removes_witness:
  "\<exists>u'. ul_AbortMultipartUpload demo_uploader ''b'' ''k'' ''1'' demo_u2 = (Ok (), u') \<and>
     find_upload u' ''b'' ''1'' = None"
  using abort_removes [OF demo_uploader_laws demo_uploader_ok(2) demo_u2_upload] by auto

text \<open>
  The list of uploads of a bucket, without delimiter and marker and with room for all of them, is
  complete: the keys with the prefix in order, and for each key its uploads in the order of their
  initiation.
\<close>

theorem list_uploads_complete:
  assumes "uploader_laws env uentries uview" "map_of (ul_buckets u) bucket = Some bu" "\<not> HasDelimiter p"
    and "int (length (upload_items p (uentries (bu_objectIndex bu)))) < limit"
  shows "\<exists>r. ul_ListMultipartUploads env bucket None p limit u = (Ok r, u) \<and> \<not> lu_IsTruncated r \<and>
    lu_Uploads r = concat (map
      (\<lambda>e. map (\<lambda>v. \<lparr>ui_Key = fst e, ui_UploadID = ur_ID v, ui_StorageClass = ''STANDARD'',
                      ui_Initiated = ur_Initiated v\<rparr>) (snd e))
      (filter (\<lambda>e. prefix_Match p (fst e) \<noteq> None) (uentries (bu_objectIndex bu))))"
proof -
  have "upload_item k = (\<lambda>v. \<lparr>ui_Key = k, ui_UploadID = ur_ID v, ui_StorageClass = ''STANDARD'',
      ui_Initiated = ur_Initiated v\<rparr>)" for k by (auto simp: upload_item_def)
  with uploader_laws.ListMultipartUploads_all [OF assms] show ?thesis by (simp add: upload_items_def) blast
qed

lemma list_uploads_complete_witness:
  "\<exists>r. ul_ListMultipartUploads demo_uploader ''b'' None emptyPrefix 1000 demo_u2 = (Ok r, demo_u2) \<and>
     map ui_UploadID (lu_Uploads r) = [''1'']"
proof -
  have b: "map_of (ul_buckets demo_u2) ''b'' =
      Some \<lparr>bu_uploads = [(''1'', demo_mpu)], bu_objectIndex = [(''k'', [\<lparr>ur_ID = ''1'', ur_Initiated = 0\<rparr>])]\<rparr>"
    by (simp add: demo_u2_eq)
  show ?thesis
    using list_uploads_complete [OF demo_uploader_laws b, of emptyPrefix 1000]
    by (auto simp: emptyPrefix_def upload_items_def alist_entries_def prefix_Match_def)
qed

text \<open>
  The list of the parts of an upload from the start: the stored parts in order, at most \<open>limit\<close> of
  them, each with its number, and truncated exactly when more are stored.
\<close>

theorem list_parts_first_page:
  assumes "getUnlocked u bucket object ident = Ok mpu" "0 \<le> limit"
  shows "\<exists>r. ul_ListParts bucket object ident 0 limit u = (Ok r, u) \<and>
    lp_Parts r = take (nat limit) (part_items 0 (mu_parts mpu)) \<and>
    (lp_IsTruncated r \<longleftrightarrow> limit < int (length (part_items 0 (mu_parts mpu))))"
  using assms lp_loop_items [of 0 limit _ 0 "mu_parts mpu"]
  by (simp add: ul_ListParts_def go_slice_Ok)

lemma list_parts_first_page_witness:
  "\<exists>r. ul_ListParts ''b'' ''k'' ''1'' 0 1000 demo_u2 = (Ok r, demo_u2) \<and> map pi_PartNumber (lp_Parts r) = [1]"
  using list_parts_first_page [OF demo_u2_upload, of 1000] by (auto simp: demo_mpu_def)

text \<open>
  With a part number marker the listing numbers the parts from the marker on, not by their own
  numbers, and a marker beyond the parts of the upload panics.
\<close>

theorem list_parts_marker:
  assumes "getUnlocked u bucket object ident = Ok mpu" "0 \<le> limit" "0 \<le> marker"
  shows "if int (length (mu_parts mpu)) < marker then fst (ul_ListParts bucket object ident marker limit u) = Panic
    else \<exists>r. ul_ListParts bucket object ident marker limit u = (Ok r, u) \<and>
      lp_Parts r = take (nat limit) (part_items 0 (drop (nat marker) (mu_parts mpu)))"
  using assms lp_loop_items [of 0 limit _ 0 "drop (nat marker) (mu_parts mpu)"]
  by (auto simp: ul_ListParts_def go_slice_def)

lemma list_parts_marker_witness:
  "fst (ul_ListParts ''b'' ''k'' ''1'' 3 1000 demo_u2) = Panic \<and>
   (\<exists>r. ul_ListParts ''b'' ''k'' ''1'' 1 1000 demo_u2 = (Ok r, demo_u2) \<and> map pi_PartNumber (lp_Parts r) = [0])"
  using list_parts_marker [OF demo_u2_upload, of 1000 3] list_parts_marker [OF demo_u2_upload, of 1000 1]
  by (auto simp: demo_mpu_def)

text \<open>
  The check for ascending part numbers accepts every request, because the numbers are sorted
  before it looks at them; \<open>InvalidPartOrder\<close> is never answered by \<open>assemble\<close>.
\<close>

theorem part_order_never_checked:
  "partsAreSorted ins \<and> assemble env mpu ins \<noteq> Err (ECode ErrInvalidPartOrder)"
proof -
  have "check_parts parts ins sz \<noteq> Err (ECode ErrInvalidPartOrder)" for parts sz
  proof (induction ins arbitrary: sz)
    case (Cons i ins)
    show ?case
      by (cases "stored_part parts (cp_PartNumber i)")
        (use Cons in \<open>auto simp: stored_part_def Let_def ErrorMessage_def split: if_splits option.splits\<close>)
  qed simp
  moreover have "join_parts parts ins body h \<noteq> Err (ECode ErrInvalidPartOrder)" for parts body h
  proof (induction ins arbitrary: body h)
    case (Cons i ins)
    show ?case
      by (cases "stored_part parts (cp_PartNumber i)")
        (use Cons in \<open>auto simp: stored_part_def Let_def ErrorMessage_def split: if_splits option.splits\<close>)
  qed simp
  ultimately show ?thesis
    by (cases "check_parts (mu_parts mpu) ins 0"; cases "join_parts (mu_parts mpu) ins [] []")
      (auto simp: assemble_def)
qed

end
