(* ===== verification/Http.thy ===== *)
theory Http
  imports Backend
begin

text \<open>
  What the handlers use of \<open>net/http\<close>: canonical header keys, the parts of a request that are read,
  and the response writer, whose headers are fixed by the first write. The XML documents of
  \<open>messages.go\<close> that are only ever written are records here; the bytes that \<open>encoding/xml\<close> makes of
  them are not modelled, a written document is an item of the body.
\<close>

section \<open>Header keys\<close>

text \<open>
  \<open>textproto.CanonicalMIMEHeaderKey\<close>: the first letter and every letter behind a hyphen is upper case,
  the others are lower case; a key with another character than those of a token is left as it is.
\<close>

definition to_upper_char :: "char \<Rightarrow> char" where
  "to_upper_char c =
     (if CHR ''a'' \<le> c \<and> c \<le> CHR ''z'' then char_of (of_char c - 32 :: nat) else c)"

definition token_char :: "char \<Rightarrow> bool" where
  "token_char c \<longleftrightarrow>
     (CHR ''a'' \<le> c \<and> c \<le> CHR ''z'') \<or> (CHR ''A'' \<le> c \<and> c \<le> CHR ''Z'') \<or> is_digit c \<or>
     c \<in> set (''!#$%&*+-.^_|~'' @ [CHR 0x27, CHR 0x60])"

fun canon_chars :: "bool \<Rightarrow> string \<Rightarrow> string" where
  "canon_chars upper [] = []"
| "canon_chars upper (c # cs) =
     (if upper then to_upper_char c else to_lower_char c) # canon_chars (c = CHR ''-'') cs"

definition canonical_key :: "string \<Rightarrow> string" where
  "canonical_key s = (if list_all token_char s then canon_chars True s else s)"

text \<open>\<open>http.Header\<close>: canonical keys with their values; \<open>Set\<close> replaces the values, \<open>Add\<close> appends one.\<close>

definition header_get :: "url_values \<Rightarrow> string \<Rightarrow> string" where
  "header_get h k = vals_get h (canonical_key k)"

definition header_set :: "string \<Rightarrow> string \<Rightarrow> url_values \<Rightarrow> url_values" where
  "header_set k v h = AList.update (canonical_key k) [v] h"

definition header_add :: "string \<Rightarrow> string \<Rightarrow> url_values \<Rightarrow> url_values" where
  "header_add k v h =
     AList.update (canonical_key k)
       ((case map_of h (canonical_key k) of Some vs \<Rightarrow> vs | None \<Rightarrow> []) @ [v]) h"

section \<open>Requests\<close>

text \<open>
  \<open>rq_Query\<close> is the parsed query (\<open>r.URL.Query()\<close>); \<open>rq_Header\<close> has canonical keys, each with at least
  one value, as the server delivers them.
\<close>

record request =
  rq_Method :: string
  rq_Host :: string
  rq_Path :: string
  rq_Query :: url_values
  rq_Header :: url_values
  rq_ContentLength :: int
  rq_Body :: reader
  rq_TLS :: bool

section \<open>Documents\<close>

record Storage =
  st_Xmlns :: string
  st_Owner :: "UserInfo option"
  st_Buckets :: "BucketInfo list"

record ListBucketResultBase =
  lr_Xmlns :: string
  lr_Name :: string
  lr_IsTruncated :: bool
  lr_Delimiter :: string
  lr_Prefix :: string
  lr_MaxKeys :: int
  lr_CommonPrefixes :: "string list"
  lr_Contents :: "Content list"

record ListBucketResult =
  l1_Base :: ListBucketResultBase
  l1_Marker :: string
  l1_NextMarker :: string

record ListBucketResultV2 =
  l2_Base :: ListBucketResultBase
  l2_ContinuationToken :: string
  l2_KeyCount :: int
  l2_NextContinuationToken :: string
  l2_StartAfter :: string

record GetBucketLocation =
  gl_Xmlns :: string
  gl_LocationConstraint :: string

record InitiateMultipartUploadResult =
  im_Bucket :: string
  im_Key :: string
  im_UploadID :: string

record CompleteMultipartUploadResult =
  cm_Location :: string
  cm_Bucket :: string
  cm_Key :: string
  cm_ETag :: string

datatype document =
    DStorage Storage
  | DListBucket ListBucketResult
  | DListBucketV2 ListBucketResultV2
  | DLocation GetBucketLocation
  | DVersions ListBucketVersionsResult
  | DCopy CopyObjectResult
  | DMultiDelete MultiDeleteResult
  | DInitiate InitiateMultipartUploadResult
  | DComplete CompleteMultipartUploadResult
  | DUploads ListMultipartUploadsResult
  | DParts ListMultipartUploadPartsResult
  | DVersioning VersioningConfiguration
  | DError s3error

section \<open>The response writer\<close>

datatype body_item = Raw bytes | Doc document

text \<open>\<open>rw_sent\<close> is the status and the copy of the headers that the first write has fixed.\<close>

record responseWriter =
  rw_header :: url_values
  rw_sent :: "(nat \<times> url_values) option"
  rw_body :: "body_item list"

definition new_response :: responseWriter where
  "new_response = \<lparr>rw_header = [], rw_sent = None, rw_body = []\<rparr>"

definition rw_WriteHeader :: "nat \<Rightarrow> responseWriter \<Rightarrow> responseWriter" where
  "rw_WriteHeader code w =
     (case rw_sent w of None \<Rightarrow> w\<lparr>rw_sent := Some (code, rw_header w)\<rparr> | Some _ \<Rightarrow> w)"

text \<open>A response with status 204 or 304 has no body: \<open>Write\<close> answers \<open>ErrBodyNotAllowed\<close>.\<close>

definition body_allowed :: "nat \<Rightarrow> bool" where
  "body_allowed code \<longleftrightarrow> \<not> (100 \<le> code \<and> code \<le> 199) \<and> code \<noteq> 204 \<and> code \<noteq> 304"

definition rw_status :: "responseWriter \<Rightarrow> nat" where
  "rw_status w = (case rw_sent w of None \<Rightarrow> 200 | Some (code, _) \<Rightarrow> code)"

definition rw_Write :: "body_item \<Rightarrow> responseWriter \<Rightarrow> responseWriter" where
  "rw_Write b w =
     (let w' = rw_WriteHeader 200 w
      in if body_allowed (rw_status w') then w'\<lparr>rw_body := rw_body w' @ [b]\<rparr> else w')"

definition rw_Set :: "string \<Rightarrow> string \<Rightarrow> responseWriter \<Rightarrow> responseWriter" where
  "rw_Set k v w = w\<lparr>rw_header := header_set k v (rw_header w)\<rparr>"

definition rw_Add :: "string \<Rightarrow> string \<Rightarrow> responseWriter \<Rightarrow> responseWriter" where
  "rw_Add k v w = w\<lparr>rw_header := header_add k v (rw_header w)\<rparr>"

definition rw_Set_all :: "(string \<times> string) list \<Rightarrow> responseWriter \<Rightarrow> responseWriter" where
  "rw_Set_all kvs w = fold (\<lambda>(k, v). rw_Set k v) kvs w"

text \<open>The headers the client receives: as fixed by the first write, else as they are at the end.\<close>

definition rw_sent_header :: "responseWriter \<Rightarrow> url_values" where
  "rw_sent_header w = (case rw_sent w of None \<Rightarrow> rw_header w | Some (_, h) \<Rightarrow> h)"

section \<open>Handlers\<close>

text \<open>A handler acts on the response writer and the state behind the back end.\<close>

type_synonym 'w serving = "responseWriter \<times> 'w"

definition on_writer :: "(responseWriter \<Rightarrow> responseWriter) \<Rightarrow> ('w serving, unit) act" where
  "on_writer f s = (Ok (), (f (fst s), snd s))"

definition on_world :: "('w, 'a) act \<Rightarrow> ('w serving, 'a) act" where
  "on_world m s = (case m (snd s) of (r, w') \<Rightarrow> (r, (fst s, w')))"

definition act_then :: "('s, 'a) act \<Rightarrow> ('s, 'b) act \<Rightarrow> ('s, 'b) act" where
  "act_then m k = act_bind m (\<lambda>_. k)"

definition act_if :: "bool \<Rightarrow> ('s, unit) act \<Rightarrow> ('s, unit) act" where
  "act_if c m = (if c then m else act_ok ())"

lemmas http_defs [go_eval] =
  header_get_def header_set_def header_add_def new_response_def rw_WriteHeader_def body_allowed_def
  rw_status_def rw_Write_def rw_Set_def rw_Add_def rw_Set_all_def rw_sent_header_def on_writer_def
  on_world_def act_then_def act_if_def

section \<open>Facts\<close>

lemma canonical_keys [simp]:
  "canonical_key ''x-amz-date'' = ''X-Amz-Date''"
  "canonical_key ''x-amz-id-2'' = ''X-Amz-Id-2''"
  "canonical_key ''x-amz-request-id'' = ''X-Amz-Request-Id''"
  "canonical_key ''x-amz-version-id'' = ''X-Amz-Version-Id''"
  "canonical_key ''x-amz-delete-marker'' = ''X-Amz-Delete-Marker''"
  "canonical_key ''x-amz-copy-source-version-id'' = ''X-Amz-Copy-Source-Version-Id''"
  "canonical_key ''x-minio-force-delete'' = ''X-Minio-Force-Delete''"
  "canonical_key ''ETag'' = ''Etag''"
  "canonical_key ''Content-MD5'' = ''Content-Md5''"
  "canonical_key ''Content-Length'' = ''Content-Length''"
  "canonical_key ''Content-Range'' = ''Content-Range''"
  "canonical_key ''Content-Type'' = ''Content-Type''"
  "canonical_key ''Accept-Ranges'' = ''Accept-Ranges''"
  "canonical_key ''If-None-Match'' = ''If-None-Match''"
  "canonical_key ''If-Modified-Since'' = ''If-Modified-Since''"
  "canonical_key ''Range'' = ''Range''"
  "canonical_key ''Location'' = ''Location''"
  "canonical_key ''Server'' = ''Server''"
  "canonical_key ''Last-Modified'' = ''Last-Modified''"
  by code_simp+

lemma header_get_set:
  "header_get (header_set k v h) k' = (if canonical_key k' = canonical_key k then v else header_get h k')"
  by (simp add: header_get_def header_set_def vals_get_def map_of_update)

lemma rw_Set_simps [simp]:
  "rw_sent (rw_Set k v w) = rw_sent w" "rw_body (rw_Set k v w) = rw_body w"
  "rw_header (rw_Set k v w) = header_set k v (rw_header w)"
  by (simp_all add: rw_Set_def)

lemma rw_Add_simps [simp]:
  "rw_sent (rw_Add k v w) = rw_sent w" "rw_body (rw_Add k v w) = rw_body w"
  "rw_header (rw_Add k v w) = header_add k v (rw_header w)"
  by (simp_all add: rw_Add_def)

lemma rw_Set_all_sent [simp]:
  "rw_sent (rw_Set_all kvs w) = rw_sent w" "rw_body (rw_Set_all kvs w) = rw_body w"
  by (induction kvs arbitrary: w) (auto simp: rw_Set_all_def)

text \<open>Once the headers are sent no operation changes what the client receives of them.\<close>

lemma sent_kept:
  assumes "rw_sent w = Some s"
  shows "rw_sent (rw_WriteHeader code w) = Some s" "rw_sent (rw_Write b w) = Some s"
  using assms by (simp_all add: rw_WriteHeader_def rw_Write_def Let_def)

lemma act_bind_simps [simp]:
  "act_bind (act_ok x) f s = f x s"
  "act_bind (act_err e) f s = (Err e, s)"
  "act_bind (on_writer g) k s = k () (g (fst s), snd s)"
  by (simp_all add: act_bind_def act_ok_def act_err_def on_writer_def)

end
