(* ===== verification/Chunk.thy ===== *)
theory Chunk
  imports Readers
begin

text \<open>
  \<open>chunk.go\<close>: the reader that takes the AWS chunk headers out of a streaming upload. \<open>chunked_Read\<close> is
  the method \<open>Read\<close>, loop by loop; the inner reader is its remaining bytes, the error that follows
  them, and a function that says how many of the bytes asked for a single \<open>Read\<close> delivers (an
  \<open>io.Reader\<close> may deliver fewer; its error comes with the first \<open>Read\<close> behind its data). \<open>chunk_stream\<close> is what a whole body decodes to when the inner reader
  delivers all it is asked for.
\<close>

section \<open>Scanning the size of a chunk\<close>

text \<open>
  \<open>fmt.Fscanf(r.inner, "%x;", &chunkSize)\<close>: blanks (the ASCII ones) but no newline, a sign,
  hexadecimal digits in the range of \<open>int\<close>, a semicolon. \<open>ScanEnd\<close> says that the inner reader ended where the scanner looked for the
  number.
\<close>

datatype scan = Scanned int bytes | ScanEnd | ScanErr s3error

definition scan_error :: "string \<Rightarrow> scan" where
  "scan_error msg = ScanErr (EOther msg)"

definition hex_value :: "string \<Rightarrow> int" where
  "hex_value ds = foldl (\<lambda>n c. 16 * n + (case hex_val c of Some d \<Rightarrow> int d | None \<Rightarrow> 0)) 0 ds"

definition scan_semicolon :: "int \<Rightarrow> bytes \<Rightarrow> scan" where
  "scan_semicolon n bs =
     (case bs of
        [] \<Rightarrow> ScanErr io_ErrUnexpectedEOF
      | c # cs \<Rightarrow> if c = CHR '';'' then Scanned n cs else scan_error ''input does not match format'')"

definition is_blank :: "char \<Rightarrow> bool" where
  "is_blank c \<longleftrightarrow> c = CHR '' '' \<or> c = CHR 0x09 \<or> c = CHR 0x0B \<or> c = CHR 0x0C \<or> c = CHR 0x0D"

definition scan_size :: "bytes \<Rightarrow> scan" where
  "scan_size bs =
     (case dropWhile is_blank bs of
        [] \<Rightarrow> ScanEnd
      | c # cs \<Rightarrow>
          (let neg = (c = CHR ''-'');
               digits = (if neg \<or> c = CHR ''+'' then cs else c # cs);
               ds = takeWhile (\<lambda>c. hex_val c \<noteq> None) digits;
               n = (if neg then - hex_value ds else hex_value ds)
           in if c = CHR 0x0A then scan_error ''unexpected newline''
              else if digits = [] then ScanEnd
              else if ds = [] then scan_error ''expected integer''
              else if \<not> is_i64 n then scan_error ''strconv.ParseInt: value out of range''
              else scan_semicolon n (drop (length ds) digits)))"

lemma scan_size_shorter: "scan_size bs = Scanned n bs' \<Longrightarrow> length bs' < length bs"
proof -
  assume s: "scan_size bs = Scanned n bs'"
  let ?d = "dropWhile is_blank bs"
  have "length ?d \<le> length bs" by (rule length_dropWhile_le)
  moreover have "length bs' < length ?d"
    using s unfolding scan_size_def scan_semicolon_def scan_error_def Let_def
    by (cases ?d) (auto split: list.splits if_splits dest!: arg_cong [of _ _ length])
  ultimately show ?thesis by simp
qed

section \<open>The whole stream\<close>

text \<open>The 82 bytes behind the semicolon: \<open>chunk-signature=\<close>, 64 digits and a line break.\<close>

definition chunk_signature :: nat where
  "chunk_signature = 16 + 64 + 2"

function chunk_stream :: "bool \<Rightarrow> bytes \<Rightarrow> bytes \<times> s3error option" where
  "chunk_stream notFirst bs =
     (if notFirst \<and> length bs < 2 then ([], None)
      else
        (case scan_size (if notFirst then drop 2 bs else bs) of
           ScanEnd \<Rightarrow> ([], None)
         | ScanErr e \<Rightarrow> ([], Some e)
         | Scanned n rest \<Rightarrow>
             if length rest < chunk_signature then ([], None)
             else
               (let body = drop chunk_signature rest
                in if length body < nat n then (body, None)
                   else case chunk_stream True (drop (nat n) body) of
                          (out, e) \<Rightarrow> (take (nat n) body @ out, e))))"
  by auto
termination
  by (relation "measure (\<lambda>(_, bs). length bs)")
    (auto simp: chunk_signature_def dest!: scan_size_shorter split: if_splits)

declare chunk_stream.simps [simp del]

definition newChunkedReader :: "reader \<Rightarrow> reader" where
  "newChunkedReader inner =
     (case chunk_stream False (rd_bytes inner) of
        (out, e) \<Rightarrow> \<lparr>rd_bytes = out, rd_err = (case e of Some x \<Rightarrow> Some x | None \<Rightarrow> rd_err inner)\<rparr>)"

section \<open>The method Read\<close>

record chunkedReader =
  cr_inner :: bytes
  cr_chunkRemain :: int
  cr_notFirstChunk :: bool

text \<open>How many bytes one \<open>Read\<close> of the inner reader delivers: at least one, at most what is there.\<close>

definition delivered :: "(nat \<Rightarrow> nat) \<Rightarrow> bytes \<Rightarrow> nat \<Rightarrow> nat" where
  "delivered limit bs asked = max 1 (min (limit asked) (min asked (length bs)))"

text \<open>The outcome of \<open>Read\<close>: the bytes put into the buffer and the error; \<open>io_EOF\<close> at the end.\<close>

definition end_error :: "s3error option \<Rightarrow> s3error" where
  "end_error innerErr = (case innerErr of Some e \<Rightarrow> e | None \<Rightarrow> io_EOF)"

function chunked_Read ::
    "(nat \<Rightarrow> nat) \<Rightarrow> s3error option \<Rightarrow> nat \<Rightarrow> chunkedReader \<Rightarrow> (bytes \<times> s3error option) \<times> chunkedReader"
  where
  "chunked_Read limit innerErr sizeToRead r =
     (if sizeToRead = 0 then (([], None), r)
      else if 0 < cr_chunkRemain r then
        (let over = int sizeToRead < cr_chunkRemain r;
             asked = (if over then sizeToRead else nat (cr_chunkRemain r))
         in if cr_inner r = [] then
              (([], Some (end_error innerErr)),
               if over then r\<lparr>cr_chunkRemain := cr_chunkRemain r - int sizeToRead\<rparr> else r)
            else
              (let k = delivered limit (cr_inner r) asked;
                   r1 = r\<lparr>cr_inner := drop k (cr_inner r),
                          cr_chunkRemain := cr_chunkRemain r - int (if over then sizeToRead else k)\<rparr>
               in case chunked_Read limit innerErr (sizeToRead - k) r1 of
                    ((out, e), r2) \<Rightarrow> ((take k (cr_inner r) @ out, e), r2)))
      else if cr_notFirstChunk r \<and> length (cr_inner r) < 2 then
        (([], Some (end_error innerErr)), r\<lparr>cr_inner := []\<rparr>)
      else
        (let bs = (if cr_notFirstChunk r then drop 2 (cr_inner r) else cr_inner r)
         in case scan_size bs of
              ScanEnd \<Rightarrow> (([], Some (end_error innerErr)), r\<lparr>cr_inner := [], cr_notFirstChunk := True\<rparr>)
            | ScanErr e \<Rightarrow> (([], Some e), r\<lparr>cr_inner := [], cr_notFirstChunk := True\<rparr>)
            | Scanned n rest \<Rightarrow>
                if length rest < chunk_signature then
                  (([], Some (end_error innerErr)),
                   r\<lparr>cr_inner := [], cr_chunkRemain := n, cr_notFirstChunk := True\<rparr>)
                else
                  chunked_Read limit innerErr sizeToRead
                    (r\<lparr>cr_inner := drop chunk_signature rest, cr_chunkRemain := n,
                       cr_notFirstChunk := True\<rparr>)))"
  by pat_completeness auto
termination
proof (relation "measure (\<lambda>(_, _, _, r). length (cr_inner r))", goal_cases)
  case 1
  show ?case by simp
next
  case (2 limit innerErr sizeToRead r over asked k r1)
  have k: "0 < k" unfolding 2(6) delivered_def by simp
  have "length (cr_inner r1) = length (cr_inner r) - k" unfolding 2(7) by simp
  with k 2(5) show ?case by simp
next
  case (3 limit innerErr sizeToRead r bs n rest)
  then have "length rest < length (cr_inner r)"
    using scan_size_shorter [of bs n rest] by (simp split: if_splits)
  then show ?case by simp
qed

declare chunked_Read.simps [simp del]

end
