(* ===== verification/Handlers.thy ===== *)
theory Handlers
  imports Http Chunk Uploader Validation
begin

text \<open>
  \<open>gofakes3.go\<close>: the server object and the helpers its handlers share. The object is the record
  \<open>gofakes3\<close> over the state \<open>'w\<close> behind its back end and its uploader; \<open>now\<close> is the reading of its time
  source during the request. Base64, MD5, the formatting and parsing of times, the XML decoder and
  the parser of multipart forms are the record \<open>server_env\<close>. Log output is left out.
\<close>

section \<open>The server object\<close>

record 'w MultipartBackend =
  mp_CreateMultipartUpload :: "string \<Rightarrow> string \<Rightarrow> gomap option \<Rightarrow> ('w, string) act"
  mp_UploadPart :: "string \<Rightarrow> string \<Rightarrow> string \<Rightarrow> int \<Rightarrow> int \<Rightarrow> reader \<Rightarrow> ('w, string) act"
  mp_ListMultipartUploads ::
    "string \<Rightarrow> UploadListMarker option \<Rightarrow> Prefix \<Rightarrow> int \<Rightarrow> ('w, ListMultipartUploadsResult) act"
  mp_ListParts :: "string \<Rightarrow> string \<Rightarrow> string \<Rightarrow> int \<Rightarrow> int \<Rightarrow> ('w, ListMultipartUploadPartsResult) act"
  mp_AbortMultipartUpload :: "string \<Rightarrow> string \<Rightarrow> string \<Rightarrow> ('w, unit) act"
  mp_CompleteMultipartUpload ::
    "string \<Rightarrow> string \<Rightarrow> string \<Rightarrow> CompletedPart list \<Rightarrow> ('w, string \<times> string) act"

record 'w gofakes3 =
  g_storage :: "'w Backend"
  g_versioned :: "'w VersionedBackend option"
  g_timeSkew :: int
  g_metadataSizeLimit :: int
  g_integrityCheck :: bool
  g_failOnUnimplementedPage :: bool
  g_hostBucket :: bool
  g_hostBucketBases :: "string list"
  g_autoBucket :: bool
  g_uploader :: "'w MultipartBackend"

record form_file =
  ff_Size :: int
  ff_Open :: "reader res"

record multipart_form =
  mf_Value :: url_values
  mf_File :: "(string \<times> form_file list) list"

record server_env =
  se_md5 :: "bytes \<Rightarrow> bytes"
  se_b64_encode :: "bytes \<Rightarrow> string"
  se_b64_decode :: "string \<Rightarrow> bytes option"
  se_b64url_encode :: "bytes \<Rightarrow> string"
  se_b64url_decode :: "string \<Rightarrow> bytes option"
  se_formatTime :: "int \<Rightarrow> string"
  se_parseHttpTime :: "string \<Rightarrow> int option"
  se_parseAmzTime :: "string \<Rightarrow> int option"
  se_decodeDelete :: "reader \<Rightarrow> DeleteRequest + string"
  se_unmarshalComplete :: "bytes \<Rightarrow> CompletedPart list + string"
  se_unmarshalVersioning :: "bytes \<Rightarrow> VersioningConfiguration + string"
  se_ParseMultipartForm :: "request \<Rightarrow> multipart_form option"

text \<open>The constants of \<open>constants.go\<close>; times are nanoseconds.\<close>

definition KeySizeLimit :: nat where "KeySizeLimit = 1024"
definition DefaultMetadataSizeLimit :: int where "DefaultMetadataSizeLimit = 2000"
definition DefaultSkewLimit :: int where "DefaultSkewLimit = 15 * 60 * 1000000000"
definition MaxUploadsLimit :: int where "MaxUploadsLimit = 1000"
definition DefaultMaxUploads :: int where "DefaultMaxUploads = 1000"
definition MaxUploadPartsLimit :: int where "MaxUploadPartsLimit = 1000"
definition DefaultMaxUploadParts :: int where "DefaultMaxUploadParts = 1000"
definition MaxBucketKeys :: int where "MaxBucketKeys = 1000"
definition DefaultMaxBucketKeys :: int where "DefaultMaxBucketKeys = 1000"
definition MaxBucketVersionKeys :: int where "MaxBucketVersionKeys = 1000"
definition DefaultMaxBucketVersionKeys :: int where "DefaultMaxBucketVersionKeys = 1000"

text \<open>
  \<open>New\<close>: the back end may implement the version operations and the multipart operations itself; the
  options are functions on the object. The uploader of the package is the last argument.
\<close>

definition New ::
    "'w Backend \<Rightarrow> 'w VersionedBackend option \<Rightarrow> 'w MultipartBackend option \<Rightarrow>
     ('w gofakes3 \<Rightarrow> 'w gofakes3) list \<Rightarrow> 'w MultipartBackend \<Rightarrow> 'w gofakes3" where
  "New backend versioned multipart options fallback =
     (let s3 = \<lparr>g_storage = backend, g_versioned = versioned, g_timeSkew = DefaultSkewLimit,
                g_metadataSizeLimit = DefaultMetadataSizeLimit, g_integrityCheck = True,
                g_failOnUnimplementedPage = False, g_hostBucket = False, g_hostBucketBases = [],
                g_autoBucket = False, g_uploader = fallback\<rparr>;
          s3 = fold (\<lambda>opt. opt) options s3
      in s3\<lparr>g_uploader := (case multipart of Some mpb \<Rightarrow> mpb | None \<Rightarrow> fallback)\<rparr>)"

definition WithTimeSkewLimit :: "int \<Rightarrow> 'w gofakes3 \<Rightarrow> 'w gofakes3" where
  "WithTimeSkewLimit skew g = g\<lparr>g_timeSkew := skew\<rparr>"

definition WithMetadataSizeLimit :: "int \<Rightarrow> 'w gofakes3 \<Rightarrow> 'w gofakes3" where
  "WithMetadataSizeLimit sz g = g\<lparr>g_metadataSizeLimit := sz\<rparr>"

definition WithIntegrityCheck :: "bool \<Rightarrow> 'w gofakes3 \<Rightarrow> 'w gofakes3" where
  "WithIntegrityCheck check g = g\<lparr>g_integrityCheck := check\<rparr>"

definition WithHostBucket :: "bool \<Rightarrow> 'w gofakes3 \<Rightarrow> 'w gofakes3" where
  "WithHostBucket enabled g = g\<lparr>g_hostBucket := enabled\<rparr>"

definition WithHostBucketBase :: "string list \<Rightarrow> 'w gofakes3 \<Rightarrow> 'w gofakes3" where
  "WithHostBucketBase hosts g = g\<lparr>g_hostBucketBases := hosts\<rparr>"

definition WithoutVersioning :: "'w gofakes3 \<Rightarrow> 'w gofakes3" where
  "WithoutVersioning g = g\<lparr>g_versioned := None\<rparr>"

definition WithUnimplementedPageError :: "'w gofakes3 \<Rightarrow> 'w gofakes3" where
  "WithUnimplementedPageError g = g\<lparr>g_failOnUnimplementedPage := True\<rparr>"

definition WithAutoBucket :: "bool \<Rightarrow> 'w gofakes3 \<Rightarrow> 'w gofakes3" where
  "WithAutoBucket enabled g = g\<lparr>g_autoBucket := enabled\<rparr>"

lemmas option_defs [go_eval] =
  New_def WithTimeSkewLimit_def WithMetadataSizeLimit_def WithIntegrityCheck_def WithHostBucket_def
  WithHostBucketBase_def WithoutVersioning_def WithUnimplementedPageError_def WithAutoBucket_def

section \<open>Shared helpers\<close>

definition ensureBucketExists :: "'w gofakes3 \<Rightarrow> string \<Rightarrow> ('w, unit) act" where
  "ensureBucketExists g bucket =
     act_bind (be_BucketExists (g_storage g) bucket)
       (\<lambda>exists.
          if \<not> exists \<and> g_autoBucket g then
            (\<lambda>w. case be_CreateBucket (g_storage g) bucket w of
                   (Err _, w') \<Rightarrow> (Err (ResourceError ErrNoSuchBucket bucket), w')
                 | res \<Rightarrow> res)
          else if \<not> exists then act_err (ResourceError ErrNoSuchBucket bucket)
          else act_ok ())"

definition xml_header :: bytes where
  "xml_header =
     ''<?xml version='' @ quoted ''1.0'' @ '' encoding='' @ quoted ''UTF-8'' @ ''?>'' @ [CHR 0x0A]"

text \<open>\<open>g.xmlEncoder(w).Encode(v)\<close>: the XML header is written first, and with it the headers.\<close>

definition xml_encode :: "document \<Rightarrow> ('w serving, unit) act" where
  "xml_encode d =
     on_writer (\<lambda>w. rw_Write (Doc d)
       (rw_Set ''Content-Type'' ''application/xml'' (rw_Write (Raw xml_header) w)))"

definition httpError :: "request \<Rightarrow> s3error \<Rightarrow> ('w serving, unit) act" where
  "httpError rq err =
     (let resp = ensureErrorResponse err '''';
          code = (case err_ErrorCode resp of Some c \<Rightarrow> c | None \<Rightarrow> ErrInternal)
      in act_then (on_writer (rw_WriteHeader (code_Status code)))
           (if rq_Method rq \<noteq> ''HEAD'' then xml_encode (DError resp) else act_ok ()))"

text \<open>\<open>xmlDecodeBody\<close>; \<open>decode\<close> is \<open>xml.Unmarshal\<close> at the type of the target.\<close>

definition xmlDecodeBody :: "(bytes \<Rightarrow> 'a + string) \<Rightarrow> reader \<Rightarrow> 'a res" where
  "xmlDecodeBody decode body =
     rbind (io_ReadAll body)
       (\<lambda>bs. case decode bs of
          Inl x \<Rightarrow> Ok x
        | Inr msg \<Rightarrow> Err (ErrorMessage ErrMalformedXML msg))"

definition formatHeaderTime :: "server_env \<Rightarrow> int \<Rightarrow> string" where
  "formatHeaderTime env t = se_formatTime env t @ '' GMT''"

definition metadataSize :: "gomap \<Rightarrow> int" where
  "metadataSize meta = sum_list (map (\<lambda>(k, v). int (length k) + int (length v)) meta)"

definition metadata_header :: "string \<Rightarrow> bool" where
  "metadata_header hk \<longleftrightarrow>
     has_prefix hk ''X-Amz-'' \<or> hk = ''Content-Type'' \<or> hk = ''Content-Disposition'' \<or>
     hk = ''Content-Encoding''"

fun collect_metadata :: "url_values \<Rightarrow> gomap \<Rightarrow> gomap res" where
  "collect_metadata [] meta = Ok meta"
| "collect_metadata ((hk, hv) # headers) meta =
     (if metadata_header hk then
        (case hv of
           [] \<Rightarrow> Panic
         | v # _ \<Rightarrow> collect_metadata headers (AList.update hk v meta))
      else collect_metadata headers meta)"

definition metadataHeaders :: "server_env \<Rightarrow> url_values \<Rightarrow> int \<Rightarrow> int \<Rightarrow> gomap res" where
  "metadataHeaders env headers at sizeLimit =
     rbind (collect_metadata headers [])
       (\<lambda>meta0.
          let meta = AList.update ''Last-Modified'' (formatHeaderTime env at) meta0
          in if 0 < sizeLimit \<and> sizeLimit < metadataSize meta then Err (ECode ErrMetadataTooLarge)
             else Ok meta)"

definition listBucketPageFromQuery :: "server_env \<Rightarrow> url_values \<Rightarrow> ListBucketPage res" where
  "listBucketPageFromQuery env query =
     rbind (parseClampedInt (vals_get query ''max-keys'') DefaultMaxBucketKeys 0 MaxBucketKeys)
       (\<lambda>maxKeys.
          if vals_has query ''marker'' then
            Ok \<lparr>pg_Marker = vals_get query ''marker'', pg_HasMarker = True, pg_MaxKeys = maxKeys\<rparr>
          else if vals_has query ''continuation-token'' then
            (case se_b64url_decode env (vals_get query ''continuation-token'') of
               None \<Rightarrow> Err (ECode ErrInvalidToken)
             | Some tok \<Rightarrow> Ok \<lparr>pg_Marker = tok, pg_HasMarker = True, pg_MaxKeys = maxKeys\<rparr>)
          else if vals_has query ''start-after'' then
            Ok \<lparr>pg_Marker = vals_get query ''start-after'', pg_HasMarker = True, pg_MaxKeys = maxKeys\<rparr>
          else Ok \<lparr>pg_Marker = '''', pg_HasMarker = False, pg_MaxKeys = maxKeys\<rparr>)"

definition listBucketVersionsPageFromQuery :: "url_values \<Rightarrow> ListBucketVersionsPage res" where
  "listBucketVersionsPageFromQuery query =
     rbind (parseClampedInt (vals_get query ''max-keys'') DefaultMaxBucketVersionKeys 0
              MaxBucketVersionKeys)
       (\<lambda>maxKeys. Ok
          \<lparr>vp_KeyMarker = vals_get query ''key-marker'', vp_HasKeyMarker = vals_has query ''key-marker'',
           vp_VersionIDMarker = vals_get query ''version-id-marker'',
           vp_HasVersionIDMarker = vals_has query ''version-id-marker'', vp_MaxKeys = maxKeys\<rparr>)"

text \<open>\<open>url.QueryUnescape\<close>\<close>

fun QueryUnescape :: "string \<Rightarrow> string res" where
  "QueryUnescape [] = Ok []"
| "QueryUnescape (c # cs) =
     (if c = CHR ''%'' then
        (case cs of
           a # b # rest \<Rightarrow>
             (case (hex_val a, hex_val b) of
                (Some h, Some l) \<Rightarrow> rbind (QueryUnescape rest) (\<lambda>s. Ok (char_of (16 * h + l) # s))
              | _ \<Rightarrow> Err (EOther (''invalid URL escape '' @ quoted [c, a, b])))
         | _ \<Rightarrow> Err (EOther (''invalid URL escape '' @ quoted (c # cs))))
      else rbind (QueryUnescape cs) (\<lambda>s. Ok ((if c = CHR ''+'' then CHR '' '' else c) # s)))"

lemmas handler_helper_defs [go_eval] =
  ensureBucketExists_def xml_encode_def httpError_def xmlDecodeBody_def formatHeaderTime_def
  metadataSize_def metadata_header_def metadataHeaders_def listBucketPageFromQuery_def
  listBucketVersionsPageFromQuery_def

end
