(* ===== verification/BucketHandlers.thy ===== *)
theory BucketHandlers
  imports Handlers
begin

text \<open>
  \<open>gofakes3.go\<close>: the handlers of requests for the service and for a bucket. Each is the composition of
  its calls in the order of the code; an early return is an error of the monad.
\<close>

definition s3_xmlns :: string where
  "s3_xmlns = ''http://s3.amazonaws.com/doc/2006-03-01/''"

definition listBuckets :: "'w gofakes3 \<Rightarrow> ('w serving, unit) act" where
  "listBuckets g =
     act_bind (on_world (be_ListBuckets (g_storage g)))
       (\<lambda>buckets. xml_encode (DStorage
          \<lparr>st_Xmlns = s3_xmlns,
           st_Owner = Some \<lparr>ui_ID = ''fe7272ea58be830e56fe1663b10fafef'', ui_DisplayName = ''GoFakeS3''\<rparr>,
           st_Buckets = buckets\<rparr>))"

section \<open>Listing a bucket\<close>

text \<open>The call of \<open>ListBucket\<close>, repeated without a page if the back end does not implement paging.\<close>

definition list_objects :: "'w gofakes3 \<Rightarrow> string \<Rightarrow> Prefix \<Rightarrow> ListBucketPage \<Rightarrow> ('w, ObjectList) act" where
  "list_objects g bucketName prefix page w =
     (case be_ListBucket (g_storage g) bucketName (Some prefix) page w of
        (Err e, w') \<Rightarrow>
          if e = EInternalCode ErrInternalPageNotImplemented \<and> \<not> g_failOnUnimplementedPage g then
            be_ListBucket (g_storage g) bucketName (Some prefix) emptyBucketPage w'
          else if e = EInternalCode ErrInternalPageNotImplemented \<and> g_failOnUnimplementedPage g then
            (Err (ECode ErrNotImplemented), w')
          else (Err e, w')
      | res \<Rightarrow> res)"

definition list_base :: "string \<Rightarrow> Prefix \<Rightarrow> ListBucketPage \<Rightarrow> ObjectList \<Rightarrow> ListBucketResultBase" where
  "list_base bucketName prefix page objects =
     \<lparr>lr_Xmlns = s3_xmlns, lr_Name = bucketName, lr_IsTruncated = ol_IsTruncated objects,
      lr_Delimiter = pfx_Delimiter prefix, lr_Prefix = pfx_Prefix prefix, lr_MaxKeys = pg_MaxKeys page,
      lr_CommonPrefixes = ol_CommonPrefixes objects, lr_Contents = ol_Contents objects\<rparr>"

definition list_result_v1 ::
    "string \<Rightarrow> Prefix \<Rightarrow> ListBucketPage \<Rightarrow> ObjectList \<Rightarrow> ListBucketResult" where
  "list_result_v1 bucketName prefix page objects =
     (let base = list_base bucketName prefix page objects
      in \<lparr>l1_Base = base, l1_Marker = pg_Marker page,
          l1_NextMarker = (if lr_Delimiter base \<noteq> '''' then ol_NextMarker objects else '''')\<rparr>)"

definition list_result_v2 ::
    "server_env \<Rightarrow> url_values \<Rightarrow> string \<Rightarrow> Prefix \<Rightarrow> ListBucketPage \<Rightarrow> ObjectList \<Rightarrow>
     ListBucketResultV2" where
  "list_result_v2 env q bucketName prefix page objects =
     (let base = list_base bucketName prefix page objects
      in \<lparr>l2_Base =
            (if vals_has q ''fetch-owner'' then base
             else base\<lparr>lr_Contents := map (\<lambda>v. v\<lparr>ct_Owner := None\<rparr>) (lr_Contents base)\<rparr>),
          l2_ContinuationToken = vals_get q ''continuation-token'',
          l2_KeyCount = int (length (ol_CommonPrefixes objects) + length (ol_Contents objects)),
          l2_NextContinuationToken =
            (if ol_NextMarker objects \<noteq> '''' then se_b64url_encode env (ol_NextMarker objects) else ''''),
          l2_StartAfter = vals_get q ''start-after''\<rparr>)"

definition listBucket ::
    "server_env \<Rightarrow> 'w gofakes3 \<Rightarrow> string \<Rightarrow> request \<Rightarrow> ('w serving, unit) act" where
  "listBucket env g bucketName rq =
     (let q = rq_Query rq; prefix = prefixFromQuery q
      in act_then (on_world (ensureBucketExists g bucketName))
           (act_bind (act_res (listBucketPageFromQuery env q))
             (\<lambda>page. act_bind (on_world (list_objects g bucketName prefix page))
               (\<lambda>objects.
                  if vals_get q ''list-type'' \<noteq> ''2'' then
                    xml_encode (DListBucket (list_result_v1 bucketName prefix page objects))
                  else
                    xml_encode (DListBucketV2 (list_result_v2 env q bucketName prefix page objects))))))"

definition getBucketLocation :: "'w gofakes3 \<Rightarrow> string \<Rightarrow> ('w serving, unit) act" where
  "getBucketLocation g bucketName =
     act_then (on_world (ensureBucketExists g bucketName))
       (xml_encode (DLocation \<lparr>gl_Xmlns = s3_xmlns, gl_LocationConstraint = ''''\<rparr>))"

section \<open>Listing versions\<close>

definition check_versions_page :: "ListBucketVersionsPage \<Rightarrow> ListBucketVersionsPage res" where
  "check_versions_page page =
     (if vp_HasVersionIDMarker page then
        (if vp_VersionIDMarker page = '''' then
           Err (ErrorInvalidArgument ''version-id-marker'' '''' ''A version-id marker cannot be empty.'')
         else if \<not> vp_HasKeyMarker page then
           Err (ErrorInvalidArgument ''version-id-marker'' ''''
             ''A version-id marker cannot be specified without a key marker.'')
         else Ok page)
      else if vp_HasKeyMarker page \<and> vp_KeyMarker page = '''' then Ok emptyVersionsPage
      else Ok page)"

definition null_version :: "VersionItem \<Rightarrow> VersionItem" where
  "null_version ver = (if GetVersionID ver = '''' then setVersionID ver ''null'' else ver)"

definition listBucketVersions :: "'w gofakes3 \<Rightarrow> string \<Rightarrow> request \<Rightarrow> ('w serving, unit) act" where
  "listBucketVersions g bucketName rq =
     (case g_versioned g of
        None \<Rightarrow> act_err (ECode ErrNotImplemented)
      | Some versioned \<Rightarrow>
          (let q = rq_Query rq; prefix = prefixFromQuery q
           in act_then (on_world (ensureBucketExists g bucketName))
                (act_bind (act_res (rbind (listBucketVersionsPageFromQuery q) check_versions_page))
                  (\<lambda>page. act_bind (on_world (vb_ListBucketVersions versioned bucketName (Some prefix)
                                               (Some page)))
                    (\<lambda>bucket. xml_encode (DVersions
                       (bucket\<lparr>lv_Versions := map null_version (lv_Versions bucket)\<rparr>)))))))"

section \<open>Creating, deleting and probing a bucket\<close>

definition createBucket :: "'w gofakes3 \<Rightarrow> string \<Rightarrow> ('w serving, unit) act" where
  "createBucket g bucket =
     (case ValidateBucketName bucket of
        Some err \<Rightarrow> act_err err
      | None \<Rightarrow>
          act_then (on_world (be_CreateBucket (g_storage g) bucket))
            (on_writer (\<lambda>w. rw_Write (Raw '''') (rw_Set ''Location'' (''/'' @ bucket) w))))"

definition deleteBucket :: "'w gofakes3 \<Rightarrow> string \<Rightarrow> request \<Rightarrow> ('w serving, unit) act" where
  "deleteBucket g bucket rq =
     act_then (on_world (ensureBucketExists g bucket))
       (act_then (act_if (header_get (rq_Header rq) ''x-minio-force-delete'' = ''true'')
                    (on_world (be_ForceDeleteBucket (g_storage g) bucket)))
         (act_then (on_world (be_DeleteBucket (g_storage g) bucket))
           (on_writer (rw_WriteHeader 204))))"

definition headBucket :: "'w gofakes3 \<Rightarrow> string \<Rightarrow> ('w serving, unit) act" where
  "headBucket g bucket =
     act_then (on_world (ensureBucketExists g bucket)) (on_writer (rw_Write (Raw '''')))"

section \<open>Versioning of a bucket\<close>

definition getBucketVersioning :: "'w gofakes3 \<Rightarrow> string \<Rightarrow> ('w serving, unit) act" where
  "getBucketVersioning g bucket =
     act_then (on_world (ensureBucketExists g bucket))
       (act_bind
         (case g_versioned g of
            None \<Rightarrow> act_ok \<lparr>vc_Status = VersioningNone, vc_MFADelete = MFADeleteNone\<rparr>
          | Some versioned \<Rightarrow> on_world (vb_VersioningConfiguration versioned bucket))
         (\<lambda>config. xml_encode (DVersioning config)))"

definition putBucketVersioning ::
    "server_env \<Rightarrow> 'w gofakes3 \<Rightarrow> string \<Rightarrow> request \<Rightarrow> ('w serving, unit) act" where
  "putBucketVersioning env g bucket rq =
     act_then (on_world (ensureBucketExists g bucket))
       (act_bind (act_res (xmlDecodeBody (se_unmarshalVersioning env) (rq_Body rq)))
         (\<lambda>inp. case g_versioned g of
            None \<Rightarrow>
              if vc_MFADelete inp = MFADeleteEnabled \<or> vc_Status inp = VersioningEnabled
              then act_err (ECode ErrNotImplemented) else act_ok ()
          | Some versioned \<Rightarrow> on_world (vb_SetVersioningConfiguration versioned bucket inp)))"

section \<open>Deleting many objects\<close>

definition deleteMulti ::
    "server_env \<Rightarrow> 'w gofakes3 \<Rightarrow> string \<Rightarrow> request \<Rightarrow> ('w serving, unit) act" where
  "deleteMulti env g bucket rq =
     act_then (on_world (ensureBucketExists g bucket))
       (case se_decodeDelete env (rq_Body rq) of
          Inr msg \<Rightarrow> act_err (ErrorMessage ErrMalformedXML msg)
        | Inl inp \<Rightarrow>
            act_bind
              (on_world
                (case g_versioned g of
                   None \<Rightarrow> be_DeleteMulti (g_storage g) bucket (map oid_Key (dq_Objects inp))
                 | Some versioned \<Rightarrow> vb_DeleteMultiVersions versioned bucket (dq_Objects inp)))
              (\<lambda>out. xml_encode (DMultiDelete (if dq_Quiet inp then out\<lparr>md_Deleted := []\<rparr> else out))))"

lemmas bucket_handler_defs [go_eval] =
  s3_xmlns_def listBuckets_def list_objects_def list_base_def list_result_v1_def list_result_v2_def
  listBucket_def getBucketLocation_def check_versions_page_def null_version_def
  listBucketVersions_def createBucket_def deleteBucket_def headBucket_def getBucketVersioning_def
  putBucketVersioning_def deleteMulti_def

end
