(* ===== verification/ObjectHandlers.thy ===== *)
theory ObjectHandlers
  imports Handlers
begin

text \<open>
  \<open>gofakes3.go\<close>: the handlers of requests for an object. \<open>now\<close> is the reading of the time source.

  The ETag of a stored object is the MD5 of what the back end has read of the request body through
  the hashing reader. A back end that stores an object has read its body to the end, as \<open>PutObject\<close>
  of every back end of the repository does, so the model takes the whole body.
\<close>

section \<open>Reading\<close>

text \<open>\<open>t, _ := time.Parse(http.TimeFormat, s)\<close>: the zero time if the text is not a time.\<close>

definition http_time :: "server_env \<Rightarrow> string \<Rightarrow> int" where
  "http_time env s = (case se_parseHttpTime env s of Some t \<Rightarrow> t | None \<Rightarrow> zero_time)"

definition object_etag :: "Object \<Rightarrow> string" where
  "object_etag obj = quoted (hex_encode (ob_Hash obj))"

definition object_metadata :: "Object \<Rightarrow> gomap" where
  "object_metadata obj = (case ob_Metadata obj of Some m \<Rightarrow> m | None \<Rightarrow> [])"

definition not_modified :: "server_env \<Rightarrow> Object \<Rightarrow> request \<Rightarrow> bool" where
  "not_modified env obj rq \<longleftrightarrow>
     (let lastModified = http_time env (gomap_get (object_metadata obj) ''Last-Modified'');
          ifModifiedSince = http_time env (header_get (rq_Header rq) ''If-Modified-Since'')
      in lastModified \<noteq> zero_time \<and> \<not> ifModifiedSince < lastModified)"

definition writeGetOrHeadObjectResponse ::
    "server_env \<Rightarrow> Object \<Rightarrow> request \<Rightarrow> ('w serving, unit) act" where
  "writeGetOrHeadObjectResponse env obj rq =
     (if ob_IsDeleteMarker obj then
        act_then (on_writer (\<lambda>w. rw_Set ''x-amz-delete-marker'' ''true''
                               (rw_Set ''x-amz-version-id'' (ob_VersionID obj) w)))
          (act_err (KeyNotFound (ob_Name obj)))
      else
        act_then (on_writer (rw_Set_all (object_metadata obj)))
          (act_then (act_if (ob_VersionID obj \<noteq> '''')
                       (on_writer (rw_Set ''x-amz-version-id'' (ob_VersionID obj))))
            (act_then (on_writer (rw_Set ''ETag'' (object_etag obj)))
              (if header_get (rq_Header rq) ''If-None-Match'' = object_etag obj
               then act_err (ECode ErrNotModified)
               else if not_modified env obj rq then act_err (ECode ErrNotModified)
               else on_writer (rw_Set ''Accept-Ranges'' ''bytes'')))))"

definition get_from_backend ::
    "'w gofakes3 \<Rightarrow> string \<Rightarrow> string \<Rightarrow> string \<Rightarrow> ObjectRangeRequest option \<Rightarrow> ('w, Object) act" where
  "get_from_backend g bucket object versionID rnge =
     (if versionID = '''' then be_GetObject (g_storage g) bucket object rnge
      else
        (case g_versioned g of
           None \<Rightarrow> act_err (ECode ErrNotImplemented)
         | Some versioned \<Rightarrow> vb_GetObjectVersion versioned bucket object versionID rnge))"

text \<open>\<open>io.Copy\<close> of the contents: nothing is written for an empty body.\<close>

definition copy_contents :: "bytes \<Rightarrow> ('w serving, unit) act" where
  "copy_contents contents =
     act_if (contents \<noteq> []) (on_writer (rw_Write (Raw contents)))"

definition getObject ::
    "server_env \<Rightarrow> 'w gofakes3 \<Rightarrow> string \<Rightarrow> string \<Rightarrow> string \<Rightarrow> request \<Rightarrow> ('w serving, unit) act" where
  "getObject env g bucket object versionID rq =
     act_then (on_world (ensureBucketExists g bucket))
       (act_bind (act_res (parseRangeHeader (header_get (rq_Header rq) ''Range'')))
         (\<lambda>rnge. act_bind (on_world (get_from_backend g bucket object versionID rnge))
           (\<lambda>obj.
              act_then (writeGetOrHeadObjectResponse env obj rq)
                (act_then (on_writer (rw_Set_all (range_writeHeader (ob_Range obj) (ob_Size obj))))
                  (copy_contents (ob_Contents obj))))))"

text \<open>The version ID of the request is not used.\<close>

definition headObject ::
    "server_env \<Rightarrow> 'w gofakes3 \<Rightarrow> string \<Rightarrow> string \<Rightarrow> string \<Rightarrow> request \<Rightarrow> ('w serving, unit) act" where
  "headObject env g bucket object versionID rq =
     act_then (on_world (ensureBucketExists g bucket))
       (act_bind (on_world (be_HeadObject (g_storage g) bucket object))
         (\<lambda>obj.
            act_then (writeGetOrHeadObjectResponse env obj rq)
              (on_writer (rw_Set ''Content-Length'' (int_str (ob_Size obj))))))"

section \<open>Writing\<close>

definition etag_of_body :: "server_env \<Rightarrow> reader \<Rightarrow> string" where
  "etag_of_body env body = quoted (hex_encode (se_md5 env (rd_bytes body)))"

text \<open>The store of an object behind a hashing reader, and the headers of the answer.\<close>

definition store_object ::
    "server_env \<Rightarrow> 'w gofakes3 \<Rightarrow> string \<Rightarrow> string \<Rightarrow> gomap \<Rightarrow> bytes option \<Rightarrow> reader \<Rightarrow> int \<Rightarrow>
     ('w serving, unit) act" where
  "store_object env g bucket object meta expected body sz =
     act_bind (on_world (be_PutObject (g_storage g) bucket object (Some meta)
                (hashing_Read (se_md5 env) expected body) sz))
       (\<lambda>result.
          act_then (act_if (pr_VersionID result \<noteq> '''')
                      (on_writer (rw_Set ''x-amz-version-id'' (pr_VersionID result))))
            (on_writer (rw_Set ''ETag'' (etag_of_body env body))))"

definition createObjectBrowserUpload ::
    "server_env \<Rightarrow> 'w gofakes3 \<Rightarrow> int \<Rightarrow> string \<Rightarrow> request \<Rightarrow> ('w serving, unit) act" where
  "createObjectBrowserUpload env g now bucket rq =
     act_then (on_world (ensureBucketExists g bucket))
       (case se_ParseMultipartForm env rq of
          None \<Rightarrow> act_err (ECode ErrMalformedPOSTRequest)
        | Some form \<Rightarrow>
            (case map_of (mf_Value form) ''key'' of
               Some [key] \<Rightarrow>
                 (case map_of (mf_File form) ''file'' of
                    Some [fileHeader] \<Rightarrow>
                      act_bind (act_res (ff_Open fileHeader))
                        (\<lambda>infile. act_bind (act_res (metadataHeaders env (mf_Value form) now
                                                      (g_metadataSizeLimit g)))
                          (\<lambda>meta.
                             if KeySizeLimit < length key then act_err (ResourceError ErrKeyTooLong key)
                             else store_object env g bucket key meta None infile (ff_Size fileHeader)))
                  | _ \<Rightarrow> act_err (ECode ErrIncorrectNumberOfFilesInPostRequest))
             | _ \<Rightarrow> act_err (ECode ErrIncorrectNumberOfFilesInPostRequest)))"

definition copied_metadata :: "gomap \<Rightarrow> gomap \<Rightarrow> gomap" where
  "copied_metadata src meta =
     fold (\<lambda>(k, v) m. if map_of m k = None \<and> k \<noteq> ''X-Amz-Acl'' then AList.update k v m else m) src meta"

text \<open>Bucket and key of the source; \<open>parts[1]\<close> panics if the source has no second part.\<close>

definition copy_source :: "string \<Rightarrow> (string \<times> string) res" where
  "copy_source source =
     (case split_n2 (trim_prefix source ''/'') ''/'' of
        [srcBucket, rest] \<Rightarrow>
          rbind (QueryUnescape (hd (split_n2 rest ''?''))) (\<lambda>srcKey. Ok (srcBucket, srcKey))
      | _ \<Rightarrow> Panic)"

definition copyObject ::
    "server_env \<Rightarrow> 'w gofakes3 \<Rightarrow> string \<Rightarrow> string \<Rightarrow> gomap \<Rightarrow> ('w serving, unit) act" where
  "copyObject env g bucket object meta =
     act_then (on_world (ensureBucketExists g bucket))
       (if KeySizeLimit < length object then act_err (ResourceError ErrKeyTooLong object)
        else
          act_bind (act_res (copy_source (gomap_get meta ''X-Amz-Copy-Source'')))
            (\<lambda>(srcBucket, srcKey).
               act_bind (on_world (be_HeadObject (g_storage g) srcBucket srcKey))
                 (\<lambda>srcObj.
                    act_bind (on_world (be_CopyObject (g_storage g) srcBucket srcKey bucket object
                               (Some (copied_metadata (object_metadata srcObj) meta))))
                      (\<lambda>result.
                         act_then (act_if (ob_VersionID srcObj \<noteq> '''')
                                    (on_writer (\<lambda>w.
                                       rw_Set ''x-amz-version-id'' (ob_VersionID srcObj)
                                         (rw_Set ''x-amz-copy-source-version-id'' (ob_VersionID srcObj) w))))
                           (xml_encode (DCopy result))))))"

text \<open>The announced size of the body, or 400 without an error document.\<close>

definition md5_header :: "'w gofakes3 \<Rightarrow> request \<Rightarrow> string res" where
  "md5_header g rq =
     (if g_integrityCheck g then
        (let md5Base64 = header_get (rq_Header rq) ''Content-MD5''
         in if vals_has (rq_Header rq) ''Content-Md5'' \<and> md5Base64 = '''' then Err (ECode ErrInvalidDigest)
            else Ok md5Base64)
      else Ok '''')"

definition streaming_upload :: "gomap \<Rightarrow> bool" where
  "streaming_upload meta \<longleftrightarrow>
     map_of meta ''X-Amz-Content-Sha256'' = Some ''STREAMING-AWS4-HMAC-SHA256-PAYLOAD''"

definition createObject ::
    "server_env \<Rightarrow> 'w gofakes3 \<Rightarrow> int \<Rightarrow> string \<Rightarrow> string \<Rightarrow> request \<Rightarrow> ('w serving, unit) act" where
  "createObject env g now bucket object rq =
     act_then (on_world (ensureBucketExists g bucket))
       (act_bind (act_res (metadataHeaders env (rq_Header rq) now (g_metadataSizeLimit g)))
         (\<lambda>meta.
            if map_of meta ''X-Amz-Copy-Source'' \<noteq> None then copyObject env g bucket object meta
            else if header_get (rq_Header rq) ''Content-Length'' = '''' then
              act_err (ECode ErrMissingContentLength)
            else
              (case parse_int (header_get (rq_Header rq) ''Content-Length'') of
                 None \<Rightarrow> on_writer (rw_WriteHeader 400)
               | Some sz0 \<Rightarrow>
                   if sz0 < 0 then on_writer (rw_WriteHeader 400)
                   else if KeySizeLimit < length object then act_err (ResourceError ErrKeyTooLong object)
                   else
                     act_bind (act_res (md5_header g rq))
                       (\<lambda>md5Base64.
                          case (if streaming_upload meta
                                then map_option (Pair (newChunkedReader (rq_Body rq)))
                                       (parse_int (gomap_get meta ''X-Amz-Decoded-Content-Length''))
                                else Some (rq_Body rq, sz0)) of
                            None \<Rightarrow> on_writer (rw_WriteHeader 400)
                          | Some (body, sz) \<Rightarrow>
                              act_bind (act_res (newHashingReader_expected (se_b64_decode env) md5Base64))
                                (\<lambda>expected. store_object env g bucket object meta expected body sz)))))"

section \<open>Deleting\<close>

definition write_delete_result :: "ObjectDeleteResult \<Rightarrow> ('w serving, unit) act" where
  "write_delete_result result =
     act_then (on_writer (rw_Set ''x-amz-delete-marker''
                 (if dr_IsDeleteMarker result then ''true'' else ''false'')))
       (act_then (act_if (dr_VersionID result \<noteq> '''')
                    (on_writer (rw_Set ''x-amz-version-id'' (dr_VersionID result))))
         (on_writer (rw_WriteHeader 204)))"

definition deleteObject :: "'w gofakes3 \<Rightarrow> string \<Rightarrow> string \<Rightarrow> ('w serving, unit) act" where
  "deleteObject g bucket object =
     act_then (on_world (ensureBucketExists g bucket))
       (act_bind (on_world (be_DeleteObject (g_storage g) bucket object)) write_delete_result)"

definition deleteObjectVersion :: "'w gofakes3 \<Rightarrow> string \<Rightarrow> string \<Rightarrow> string \<Rightarrow> ('w serving, unit) act" where
  "deleteObjectVersion g bucket object version =
     (case g_versioned g of
        None \<Rightarrow> act_err (ECode ErrNotImplemented)
      | Some versioned \<Rightarrow>
          act_then (on_world (ensureBucketExists g bucket))
            (act_bind (on_world (vb_DeleteObjectVersion versioned bucket object version))
               write_delete_result))"

lemmas object_handler_defs [go_eval] =
  http_time_def object_etag_def object_metadata_def not_modified_def
  writeGetOrHeadObjectResponse_def get_from_backend_def copy_contents_def getObject_def headObject_def
  etag_of_body_def store_object_def createObjectBrowserUpload_def copied_metadata_def copy_source_def
  copyObject_def md5_header_def streaming_upload_def createObject_def write_delete_result_def
  deleteObject_def deleteObjectVersion_def

end
