(* ===== verification/UploadHandlers.thy ===== *)
theory UploadHandlers
  imports ObjectHandlers
begin

text \<open>
  \<open>gofakes3.go\<close>: the handlers of multipart uploads, over the operations of \<open>MultipartBackend\<close>, and the
  uploader of the package as such a back end.
\<close>

section \<open>The uploader of the package\<close>

text \<open>The state is the pair of the uploader and the storage it stores completed uploads in.\<close>

definition on_uploader :: "('u, 'a) act \<Rightarrow> ('u \<times> 's, 'a) act" where
  "on_uploader m us = (case m (fst us) of (r, u') \<Rightarrow> (r, (u', snd us)))"

definition uploader_backend ::
    "('um, 'ui) uploader_env \<Rightarrow> 's Backend \<Rightarrow> ('um uploader \<times> 's) MultipartBackend" where
  "uploader_backend env storage =
     \<lparr>mp_CreateMultipartUpload = (\<lambda>b k meta. on_uploader (ul_CreateMultipartUpload env b k meta)),
      mp_UploadPart = (\<lambda>b k i n len input. on_uploader (ul_UploadPart env b k i n len input)),
      mp_ListMultipartUploads =
        (\<lambda>b marker p limit. on_uploader (ul_ListMultipartUploads env b marker p limit)),
      mp_ListParts = (\<lambda>b k i marker limit. on_uploader (ul_ListParts b k i marker limit)),
      mp_AbortMultipartUpload = (\<lambda>b k i. on_uploader (ul_AbortMultipartUpload env b k i)),
      mp_CompleteMultipartUpload =
        (\<lambda>b k i parts. ul_CompleteMultipartUpload env storage b k i parts)\<rparr>"

section \<open>Handlers\<close>

definition initiateMultipartUpload ::
    "server_env \<Rightarrow> 'w gofakes3 \<Rightarrow> int \<Rightarrow> string \<Rightarrow> string \<Rightarrow> request \<Rightarrow> ('w serving, unit) act" where
  "initiateMultipartUpload env g now bucket object rq =
     act_bind (act_res (metadataHeaders env (rq_Header rq) now (g_metadataSizeLimit g)))
       (\<lambda>meta.
          act_then (on_world (ensureBucketExists g bucket))
            (act_bind (on_world (mp_CreateMultipartUpload (g_uploader g) bucket object (Some meta)))
              (\<lambda>uploadID. xml_encode (DInitiate
                 \<lparr>im_Bucket = bucket, im_Key = object, im_UploadID = uploadID\<rparr>))))"

definition part_number :: "string \<Rightarrow> int res" where
  "part_number s =
     (case parse_int s of
        None \<Rightarrow> Err (ECode ErrInvalidPart)
      | Some n \<Rightarrow> if n \<le> 0 \<or> MaxUploadPartNumber < n then Err (ECode ErrInvalidPart) else Ok n)"

definition positive_length :: "string \<Rightarrow> int res" where
  "positive_length s =
     (case parse_int s of
        None \<Rightarrow> Err (ECode ErrMissingContentLength)
      | Some n \<Rightarrow> if n \<le> 0 then Err (ECode ErrMissingContentLength) else Ok n)"

definition putMultipartUploadPart ::
    "server_env \<Rightarrow> 'w gofakes3 \<Rightarrow> string \<Rightarrow> string \<Rightarrow> string \<Rightarrow> request \<Rightarrow> ('w serving, unit) act" where
  "putMultipartUploadPart env g bucket object uploadID rq =
     act_bind (act_res (part_number (vals_get (rq_Query rq) ''partNumber'')))
       (\<lambda>partNumber.
          act_bind (act_res (positive_length (header_get (rq_Header rq) ''Content-Length'')))
            (\<lambda>_. act_bind (act_res (rbind (md5_header g rq) (newHashingReader_expected (se_b64_decode env))))
               (\<lambda>expected.
                  act_bind (on_world (mp_UploadPart (g_uploader g) bucket object uploadID partNumber
                             (rq_ContentLength rq) (hashing_Read (se_md5 env) expected (rq_Body rq))))
                    (\<lambda>etag. on_writer (rw_Add ''ETag'' etag)))))"

definition abortMultipartUpload ::
    "'w gofakes3 \<Rightarrow> string \<Rightarrow> string \<Rightarrow> string \<Rightarrow> ('w serving, unit) act" where
  "abortMultipartUpload g bucket object uploadID =
     act_then (on_world (mp_AbortMultipartUpload (g_uploader g) bucket object uploadID))
       (on_writer (rw_WriteHeader 204))"

definition upload_location :: "'w gofakes3 \<Rightarrow> request \<Rightarrow> string \<Rightarrow> string \<Rightarrow> string" where
  "upload_location g rq bucket object =
     (let protocol = (if rq_TLS rq then ''https'' else ''http'')
      in if g_hostBucket g then protocol @ ''://'' @ rq_Host rq @ ''/'' @ object
         else protocol @ ''://'' @ rq_Host rq @ ''/'' @ bucket @ ''/'' @ object)"

definition completeMultipartUpload ::
    "server_env \<Rightarrow> 'w gofakes3 \<Rightarrow> string \<Rightarrow> string \<Rightarrow> string \<Rightarrow> request \<Rightarrow> ('w serving, unit) act" where
  "completeMultipartUpload env g bucket object uploadID rq =
     act_bind (act_res (xmlDecodeBody (se_unmarshalComplete env) (rq_Body rq)))
       (\<lambda>parts.
          act_bind (on_world (mp_CompleteMultipartUpload (g_uploader g) bucket object uploadID parts))
            (\<lambda>(versionID, etag).
               act_then (act_if (versionID \<noteq> '''') (on_writer (rw_Set ''x-amz-version-id'' versionID)))
                 (xml_encode (DComplete
                    \<lparr>cm_Location = upload_location g rq bucket object, cm_Bucket = bucket,
                     cm_Key = object, cm_ETag = etag\<rparr>))))"

text \<open>An unreadable number in the query is answered by \<open>InvalidURI\<close>.\<close>

definition query_int :: "string \<Rightarrow> int \<Rightarrow> int \<Rightarrow> int \<Rightarrow> int res" where
  "query_int s dflt mn mx =
     (case parseClampedInt s dflt mn mx of Err _ \<Rightarrow> Err (ECode ErrInvalidURI) | r \<Rightarrow> r)"

definition listMultipartUploads :: "'w gofakes3 \<Rightarrow> string \<Rightarrow> request \<Rightarrow> ('w serving, unit) act" where
  "listMultipartUploads g bucket rq =
     (let query = rq_Query rq
      in act_then (on_world (ensureBucketExists g bucket))
           (act_bind (act_res (query_int (vals_get query ''max-uploads'') DefaultMaxUploads 0 MaxUploadsLimit))
             (\<lambda>maxUploads.
                act_bind (on_world (mp_ListMultipartUploads (g_uploader g) bucket
                           (uploadListMarkerFromQuery query) (prefixFromQuery query)
                           (if maxUploads = 0 then DefaultMaxUploads else maxUploads)))
                  (\<lambda>out. xml_encode (DUploads out)))))"

definition listMultipartUploadParts ::
    "'w gofakes3 \<Rightarrow> string \<Rightarrow> string \<Rightarrow> string \<Rightarrow> request \<Rightarrow> ('w serving, unit) act" where
  "listMultipartUploadParts g bucket object uploadID rq =
     (let query = rq_Query rq
      in act_then (on_world (ensureBucketExists g bucket))
           (act_bind (act_res (query_int (vals_get query ''part-number-marker'') 0 0 max_int64))
             (\<lambda>marker.
                act_bind (act_res (query_int (vals_get query ''max-parts'') DefaultMaxUploadParts 0
                                     MaxUploadPartsLimit))
                  (\<lambda>maxParts.
                     act_bind (on_world (mp_ListParts (g_uploader g) bucket object uploadID marker maxParts))
                       (\<lambda>out. xml_encode (DParts out))))))"

lemmas upload_handler_defs [go_eval] =
  initiateMultipartUpload_def part_number_def positive_length_def putMultipartUploadPart_def
  abortMultipartUpload_def upload_location_def completeMultipartUpload_def query_int_def
  listMultipartUploads_def listMultipartUploadParts_def

end
