(* ===== verification/Routing.thy ===== *)
theory Routing
  imports BucketHandlers UploadHandlers
begin

text \<open>
  \<open>routing.go\<close>, \<open>cors.go\<close> and the middlewares of \<open>gofakes3.go\<close>: from a request to its response. The
  routes choose a handler by the query, the path and the method; an error of a handler becomes an
  error document in \<open>routeBase\<close>.
\<close>

section \<open>Routes\<close>

definition methodNotAllowed :: "('w serving, unit) act" where
  "methodNotAllowed = act_err (ECode ErrMethodNotAllowed)"

definition routeObject ::
    "server_env \<Rightarrow> 'w gofakes3 \<Rightarrow> int \<Rightarrow> string \<Rightarrow> string \<Rightarrow> request \<Rightarrow> ('w serving, unit) act" where
  "routeObject env g now bucket object rq =
     (if rq_Method rq = ''GET'' then getObject env g bucket object '''' rq
      else if rq_Method rq = ''HEAD'' then headObject env g bucket object '''' rq
      else if rq_Method rq = ''PUT'' then createObject env g now bucket object rq
      else if rq_Method rq = ''DELETE'' then deleteObject g bucket object
      else methodNotAllowed)"

definition routeBucket ::
    "server_env \<Rightarrow> 'w gofakes3 \<Rightarrow> int \<Rightarrow> string \<Rightarrow> request \<Rightarrow> ('w serving, unit) act" where
  "routeBucket env g now bucket rq =
     (if rq_Method rq = ''GET'' then
        (if vals_has (rq_Query rq) ''location'' then getBucketLocation g bucket
         else listBucket env g bucket rq)
      else if rq_Method rq = ''PUT'' then createBucket g bucket
      else if rq_Method rq = ''DELETE'' then deleteBucket g bucket rq
      else if rq_Method rq = ''HEAD'' then headBucket g bucket
      else if rq_Method rq = ''POST'' then
        (if vals_has (rq_Query rq) ''delete'' then deleteMulti env g bucket rq
         else createObjectBrowserUpload env g now bucket rq)
      else methodNotAllowed)"

definition routeMultipartUploadBase ::
    "server_env \<Rightarrow> 'w gofakes3 \<Rightarrow> int \<Rightarrow> string \<Rightarrow> string \<Rightarrow> request \<Rightarrow> ('w serving, unit) act" where
  "routeMultipartUploadBase env g now bucket object rq =
     (if rq_Method rq = ''GET'' then listMultipartUploads g bucket rq
      else if rq_Method rq = ''POST'' then initiateMultipartUpload env g now bucket object rq
      else methodNotAllowed)"

definition routeVersioning ::
    "server_env \<Rightarrow> 'w gofakes3 \<Rightarrow> string \<Rightarrow> request \<Rightarrow> ('w serving, unit) act" where
  "routeVersioning env g bucket rq =
     (if rq_Method rq = ''GET'' then getBucketVersioning g bucket
      else if rq_Method rq = ''PUT'' then putBucketVersioning env g bucket rq
      else methodNotAllowed)"

definition routeVersions :: "'w gofakes3 \<Rightarrow> string \<Rightarrow> request \<Rightarrow> ('w serving, unit) act" where
  "routeVersions g bucket rq =
     (if rq_Method rq = ''GET'' then listBucketVersions g bucket rq else methodNotAllowed)"

definition routeVersion ::
    "server_env \<Rightarrow> 'w gofakes3 \<Rightarrow> string \<Rightarrow> string \<Rightarrow> string \<Rightarrow> request \<Rightarrow> ('w serving, unit) act" where
  "routeVersion env g bucket object versionID rq =
     (if rq_Method rq = ''GET'' then getObject env g bucket object versionID rq
      else if rq_Method rq = ''HEAD'' then headObject env g bucket object versionID rq
      else if rq_Method rq = ''DELETE'' then deleteObjectVersion g bucket object versionID
      else methodNotAllowed)"

definition routeMultipartUpload ::
    "server_env \<Rightarrow> 'w gofakes3 \<Rightarrow> string \<Rightarrow> string \<Rightarrow> string \<Rightarrow> request \<Rightarrow> ('w serving, unit) act" where
  "routeMultipartUpload env g bucket object uploadID rq =
     (if rq_Method rq = ''GET'' then listMultipartUploadParts g bucket object uploadID rq
      else if rq_Method rq = ''PUT'' then putMultipartUploadPart env g bucket object uploadID rq
      else if rq_Method rq = ''DELETE'' then abortMultipartUpload g bucket object uploadID
      else if rq_Method rq = ''POST'' then completeMultipartUpload env g bucket object uploadID rq
      else methodNotAllowed)"

definition versionFromQuery :: "string list \<Rightarrow> string" where
  "versionFromQuery qv =
     (case qv of [] \<Rightarrow> '''' | v # _ \<Rightarrow> if v \<noteq> '''' \<and> v \<noteq> ''null'' then v else '''')"

section \<open>routeBase\<close>

text \<open>Bucket and object of a path: the part before and behind the first inner slash.\<close>

definition split_path :: "string \<Rightarrow> string \<times> string" where
  "split_path urlPath =
     (case split_n2 (trim urlPath ''/'') ''/'' of
        [bucket, object] \<Rightarrow> (bucket, object)
      | bucket # _ \<Rightarrow> (bucket, '''')
      | [] \<Rightarrow> ('''', ''''))"

definition query_values :: "url_values \<Rightarrow> string \<Rightarrow> string list" where
  "query_values q k = (case map_of q k of Some vs \<Rightarrow> vs | None \<Rightarrow> [])"

definition NotFound :: "('w serving, unit) act" where
  "NotFound =
     on_writer (\<lambda>w. rw_Write (Raw (''404 page not found'' @ [CHR 0x0A]))
       (rw_WriteHeader 404
         (rw_Set ''X-Content-Type-Options'' ''nosniff''
           (rw_Set ''Content-Type'' ''text/plain; charset=utf-8'' w))))"

text \<open>The dispatch; \<open>None\<close> where no route matches.\<close>

definition dispatch ::
    "server_env \<Rightarrow> 'w gofakes3 \<Rightarrow> int \<Rightarrow> request \<Rightarrow> ('w serving, unit) act option" where
  "dispatch env g now rq =
     (case split_path (rq_Path rq) of (bucket, object) \<Rightarrow>
        (let query = rq_Query rq;
             uploadID = vals_get query ''uploadId'';
             versionID = versionFromQuery (query_values query ''versionId'')
         in if uploadID \<noteq> '''' then Some (routeMultipartUpload env g bucket object uploadID rq)
            else if vals_has query ''uploads'' then
              Some (routeMultipartUploadBase env g now bucket object rq)
            else if vals_has query ''versioning'' then Some (routeVersioning env g bucket rq)
            else if vals_has query ''versions'' then Some (routeVersions g bucket rq)
            else if versionID \<noteq> '''' then Some (routeVersion env g bucket object versionID rq)
            else if bucket \<noteq> '''' \<and> object \<noteq> '''' then Some (routeObject env g now bucket object rq)
            else if bucket \<noteq> '''' then Some (routeBucket env g now bucket rq)
            else if rq_Method rq = ''GET'' then Some (listBuckets g)
            else None))"

text \<open>An error of the handler is written as an error document; a panic is not recovered here.\<close>

definition with_error :: "request \<Rightarrow> ('w serving, unit) act \<Rightarrow> ('w serving, unit) act" where
  "with_error rq m s =
     (case m s of
        (Err e, s') \<Rightarrow> httpError rq e s'
      | res \<Rightarrow> res)"

fun upper_hex :: "nat \<Rightarrow> nat \<Rightarrow> string" where
  "upper_hex 0 n = []"
| "upper_hex (Suc k) n =
     upper_hex k (n div 16) @
       [if n mod 16 < 10 then char_of (48 + n mod 16) else char_of (55 + n mod 16)]"

definition request_headers :: "server_env \<Rightarrow> 64 word \<Rightarrow> (string \<times> string) list" where
  "request_headers env requestID =
     (let ident = upper_hex 16 (unat requestID)
      in [(''x-amz-id-2'', se_b64_encode env (ident @ ident @ ident @ ident)),
          (''x-amz-request-id'', ident), (''Server'', ''AmazonS3'')])"

text \<open>The state of the server: the counter of requests, and the state behind the back ends.\<close>

record 'w server =
  sv_requestID :: "64 word"
  sv_world :: 'w

text \<open>The option that sets the first request ID.\<close>

definition WithRequestID :: "64 word \<Rightarrow> 'w server \<Rightarrow> 'w server" where
  "WithRequestID ident sv = sv\<lparr>sv_requestID := ident\<rparr>"

definition routeBase ::
    "server_env \<Rightarrow> 'w gofakes3 \<Rightarrow> int \<Rightarrow> request \<Rightarrow> responseWriter \<Rightarrow> 'w server \<Rightarrow>
     (unit res \<times> responseWriter) \<times> 'w server" where
  "routeBase env g now rq w sv =
     (let requestID = sv_requestID sv + 1;
          w1 = rw_Set_all (request_headers env requestID) w
      in case (case dispatch env g now rq of
                 Some handler \<Rightarrow> with_error rq handler
               | None \<Rightarrow> NotFound) (w1, sv_world sv) of
           (r, (w2, world)) \<Rightarrow> ((r, w2), sv\<lparr>sv_requestID := requestID, sv_world := world\<rparr>))"

section \<open>Middlewares\<close>

type_synonym 'w http_handler =
  "int \<Rightarrow> request \<Rightarrow> responseWriter \<Rightarrow> 'w server \<Rightarrow> (unit res \<times> responseWriter) \<times> 'w server"

definition corsHeaders :: "string list" where
  "corsHeaders =
     [''Accept'', ''Accept-Encoding'', ''Authorization'', ''Content-Disposition'', ''Content-Encoding'',
      ''Content-Length'', ''Content-Type'', ''X-Amz-Date'', ''X-Amz-User-Agent'', ''X-CSRF-Token'',
      ''x-amz-acl'', ''x-amz-content-sha256'', ''x-amz-meta-filename'', ''x-amz-meta-from'',
      ''x-amz-meta-private'', ''x-amz-meta-to'', ''x-amz-security-token'']"

definition cors_headers :: "(string \<times> string) list" where
  "cors_headers =
     [(''Access-Control-Allow-Origin'', ''*''),
      (''Access-Control-Allow-Methods'', ''POST, GET, OPTIONS, PUT, DELETE, HEAD''),
      (''Access-Control-Allow-Headers'', join corsHeaders '', ''),
      (''Access-Control-Expose-Headers'', ''ETag'')]"

definition withCORS :: "'w http_handler \<Rightarrow> 'w http_handler" where
  "withCORS r now rq w sv =
     (let w1 = rw_Set_all cors_headers w
      in if rq_Method rq = ''OPTIONS'' then ((Ok (), w1), sv) else r now rq w1 sv)"

definition amz_time :: "server_env \<Rightarrow> string \<Rightarrow> int" where
  "amz_time env s = (case se_parseAmzTime env s of Some t \<Rightarrow> t | None \<Rightarrow> zero_time)"

definition too_skewed :: "server_env \<Rightarrow> 'w gofakes3 \<Rightarrow> int \<Rightarrow> request \<Rightarrow> bool" where
  "too_skewed env g now rq \<longleftrightarrow>
     (let timeHdr = header_get (rq_Header rq) ''x-amz-date'';
          skew = time_Sub now (amz_time env timeHdr)
      in timeHdr \<noteq> '''' \<and> (skew < - g_timeSkew g \<or> g_timeSkew g < skew))"

definition timeSkewMiddleware :: "server_env \<Rightarrow> 'w gofakes3 \<Rightarrow> 'w http_handler \<Rightarrow> 'w http_handler" where
  "timeSkewMiddleware env g handler now rq w sv =
     (if too_skewed env g now rq then
        (case httpError rq (requestTimeTooSkewed now (g_timeSkew g)) (w, ()) of
           (r, (w', _)) \<Rightarrow> ((r, w'), sv))
      else handler now rq w sv)"

definition bucket_path :: "string \<Rightarrow> request \<Rightarrow> request" where
  "bucket_path bucket rq =
     rq\<lparr>rq_Path := ''/'' @ bucket @ (if rq_Path rq \<noteq> ''/'' then rq_Path rq else '''')\<rparr>"

definition hostBucketMiddleware :: "'w http_handler \<Rightarrow> 'w http_handler" where
  "hostBucketMiddleware handler now rq w sv =
     handler now (bucket_path (hd (split_n2 (rq_Host rq) ''.'')) rq) w sv"

fun matchBucket :: "string \<Rightarrow> string list \<Rightarrow> string option" where
  "matchBucket host [] = None"
| "matchBucket host (base # bases) =
     (if \<not> has_suffix host base then matchBucket host bases
      else
        (let bucket = take (length host - length base) host
         in if CHR ''.'' \<in> set bucket then matchBucket host bases else Some bucket))"

definition hostBucketBaseMiddleware :: "'w gofakes3 \<Rightarrow> 'w http_handler \<Rightarrow> 'w http_handler" where
  "hostBucketBaseMiddleware g handler now rq w sv =
     (case matchBucket (rq_Host rq) (map (\<lambda>base. ''.'' @ trim base ''.'') (g_hostBucketBases g)) of
        None \<Rightarrow> handler now rq w sv
      | Some bucket \<Rightarrow> handler now (bucket_path bucket rq) w sv)"

definition Server :: "server_env \<Rightarrow> 'w gofakes3 \<Rightarrow> 'w http_handler" where
  "Server env g =
     (let handler = withCORS (routeBase env g);
          handler = (if g_timeSkew g \<noteq> 0 then timeSkewMiddleware env g handler else handler)
      in if g_hostBucketBases g \<noteq> [] then hostBucketBaseMiddleware g handler
         else if g_hostBucket g then hostBucketMiddleware handler
         else handler)"

lemmas routing_defs [go_eval] =
  methodNotAllowed_def routeObject_def routeBucket_def routeMultipartUploadBase_def
  routeVersioning_def routeVersions_def routeVersion_def routeMultipartUpload_def
  versionFromQuery_def split_path_def query_values_def NotFound_def dispatch_def with_error_def
  request_headers_def routeBase_def corsHeaders_def cors_headers_def withCORS_def time_Sub_def
  amz_time_def too_skewed_def timeSkewMiddleware_def bucket_path_def hostBucketMiddleware_def
  hostBucketBaseMiddleware_def Server_def

end
