(* ===== verification/ServerFacts.thy ===== *)
theory ServerFacts
  imports Routing
begin

text \<open>
  What holds of the handlers whatever the back end: a handler that fails has not sent anything, so
  the error document is the whole answer; and a handler only reads if the back end operations it
  calls only read (locale \<open>reading_backend\<close>).
\<close>

section \<open>Nothing is sent before a failure\<close>

definition unsent :: "('w serving, 'a) act \<Rightarrow> bool" where
  "unsent m \<longleftrightarrow> (\<forall>s. rw_sent (fst s) = None \<longrightarrow>
     rw_sent (fst (snd (m s))) = None \<and> rw_body (fst (snd (m s))) = rw_body (fst s))"

definition fails_unsent :: "('w serving, 'a) act \<Rightarrow> bool" where
  "fails_unsent m \<longleftrightarrow> (\<forall>s. rw_sent (fst s) = None \<longrightarrow> (\<exists>e. fst (m s) = Err e) \<longrightarrow>
     rw_sent (fst (snd (m s))) = None \<and> rw_body (fst (snd (m s))) = rw_body (fst s))"

named_theorems unsent_intros \<open>handlers that have sent nothing when they fail\<close>

lemma unsent_basic [unsent_intros]:
  "unsent (act_ok x)" "unsent (act_err e)" "unsent (act_res r)" "unsent (on_world m)"
  "unsent (on_writer (rw_Set k v))" "unsent (on_writer (rw_Set_all kvs))" "unsent (on_writer (rw_Add k v))"
  "unsent (on_writer (\<lambda>w. rw_Set k v (rw_Set k' v' w)))"
  by (auto simp: unsent_def act_ok_def act_err_def act_res_def on_world_def on_writer_def split: prod.splits)

lemma unsent_bind [unsent_intros]:
  assumes "unsent (m :: ('w serving, 'a) act)" "\<And>x. unsent (f x)"
  shows "unsent (act_bind m f)"
  unfolding unsent_def
proof (intro allI impI)
  fix s :: "'w serving"
  assume s: "rw_sent (fst s) = None"
  obtain r t where m: "m s = (r, t)" by (cases "m s")
  then have "rw_sent (fst t) = None" "rw_body (fst t) = rw_body (fst s)"
    using assms(1) s unfolding unsent_def by (metis snd_conv)+
  then show "rw_sent (fst (snd (act_bind m f s))) = None \<and>
      rw_body (fst (snd (act_bind m f s))) = rw_body (fst s)"
    using assms(2) m unfolding unsent_def by (cases t; cases r) (simp_all add: act_bind_def)
qed

lemma unsent_then [unsent_intros]: "unsent m \<Longrightarrow> unsent k \<Longrightarrow> unsent (act_then m k)"
  unfolding act_then_def by (rule unsent_bind)

lemma unsent_if [unsent_intros]: "unsent m \<Longrightarrow> unsent (act_if c m)"
  by (auto simp: act_if_def unsent_basic)

lemma fails_of_unsent: "unsent m \<Longrightarrow> fails_unsent m"
  by (auto simp: unsent_def fails_unsent_def)

lemma fails_basic [unsent_intros]:
  "fails_unsent (act_ok x)" "fails_unsent (act_err e)" "fails_unsent (act_res r)" "fails_unsent (on_world m)"
  by (intro fails_of_unsent unsent_basic)+

lemma fails_on_writer [unsent_intros]: "fails_unsent (on_writer f)"
  by (simp add: fails_unsent_def on_writer_def)

lemma fails_xml [unsent_intros]: "fails_unsent (xml_encode d)"
  unfolding xml_encode_def by (rule fails_on_writer)

lemma fails_bind [unsent_intros]:
  assumes "unsent (m :: ('w serving, 'a) act)" "\<And>x. fails_unsent (f x)"
  shows "fails_unsent (act_bind m f)"
  unfolding fails_unsent_def
proof (intro allI impI)
  fix s :: "'w serving"
  assume s: "rw_sent (fst s) = None" "\<exists>e. fst (act_bind m f s) = Err e"
  obtain r t where m: "m s = (r, t)" by (cases "m s")
  then have "rw_sent (fst t) = None" "rw_body (fst t) = rw_body (fst s)"
    using assms(1) s(1) unfolding unsent_def by (metis snd_conv)+
  then show "rw_sent (fst (snd (act_bind m f s))) = None \<and>
      rw_body (fst (snd (act_bind m f s))) = rw_body (fst s)"
    using assms(2) s(2) m unfolding fails_unsent_def by (cases t; cases r) (simp_all add: act_bind_def)
qed

lemma fails_then [unsent_intros]: "unsent m \<Longrightarrow> fails_unsent k \<Longrightarrow> fails_unsent (act_then m k)"
  unfolding act_then_def by (rule fails_bind)

lemma fails_if [unsent_intros]: "fails_unsent m \<Longrightarrow> fails_unsent (act_if c m)"
  by (auto simp: act_if_def fails_basic)

lemma fails_cases [unsent_intros]:
  "(c \<Longrightarrow> fails_unsent m) \<Longrightarrow> (\<not> c \<Longrightarrow> fails_unsent n) \<Longrightarrow> fails_unsent (if c then m else n)"
  "(x = None \<Longrightarrow> fails_unsent m) \<Longrightarrow> (\<And>y. x = Some y \<Longrightarrow> fails_unsent (f y)) \<Longrightarrow>
     fails_unsent (case x of None \<Rightarrow> m | Some y \<Rightarrow> f y)"
  "(\<And>a b. fails_unsent (h a b)) \<Longrightarrow> fails_unsent (case p of (a, b) \<Rightarrow> h a b)"
  "(\<And>a. fails_unsent (l a)) \<Longrightarrow> (\<And>b. fails_unsent (r b)) \<Longrightarrow>
     fails_unsent (case t of Inl a \<Rightarrow> l a | Inr b \<Rightarrow> r b)"
  "fails_unsent m \<Longrightarrow> (\<And>y ys. fails_unsent (k y ys)) \<Longrightarrow>
     fails_unsent (case xs of [] \<Rightarrow> m | y # ys \<Rightarrow> k y ys)"
  by (auto split: option.splits prod.splits sum.splits list.splits)

lemma unsent_cases [unsent_intros]:
  "unsent m \<Longrightarrow> unsent n \<Longrightarrow> unsent (if c then m else n)"
  "unsent m \<Longrightarrow> (\<And>y. unsent (f y)) \<Longrightarrow> unsent (case x of None \<Rightarrow> m | Some y \<Rightarrow> f y)"
  by (auto split: option.splits)

lemma fails_write_response [unsent_intros]: "unsent (writeGetOrHeadObjectResponse env obj rq)"
  unfolding writeGetOrHeadObjectResponse_def by (intro unsent_intros)

lemma fails_store [unsent_intros]: "fails_unsent (store_object env g bucket object meta expected body sz)"
  unfolding store_object_def by (intro unsent_intros)

lemma fails_copy [unsent_intros]: "fails_unsent (copyObject env g bucket object meta)"
  unfolding copyObject_def by (intro unsent_intros)

lemma fails_delete_result [unsent_intros]: "fails_unsent (write_delete_result result)"
  unfolding write_delete_result_def by (intro unsent_intros)

lemma fails_object_handlers [unsent_intros]:
  "fails_unsent (getObject env g bucket object versionID rq)"
  "fails_unsent (headObject env g bucket object versionID rq)"
  "fails_unsent (createObject env g now bucket object rq)"
  "fails_unsent (createObjectBrowserUpload env g now bucket rq)"
  "fails_unsent (deleteObject g bucket object)" "fails_unsent (deleteObjectVersion g bucket object versionID)"
  unfolding getObject_def headObject_def createObject_def createObjectBrowserUpload_def
    deleteObject_def deleteObjectVersion_def copy_contents_def
  by (intro unsent_intros)+

lemma fails_bucket_handlers [unsent_intros]:
  "fails_unsent (listBuckets g)" "fails_unsent (listBucket env g bucket rq)"
  "fails_unsent (getBucketLocation g bucket)" "fails_unsent (listBucketVersions g bucket rq)"
  "fails_unsent (createBucket g bucket)" "fails_unsent (deleteBucket g bucket rq)"
  "fails_unsent (headBucket g bucket)" "fails_unsent (getBucketVersioning g bucket)"
  "fails_unsent (putBucketVersioning env g bucket rq)" "fails_unsent (deleteMulti env g bucket rq)"
  unfolding listBuckets_def listBucket_def getBucketLocation_def listBucketVersions_def createBucket_def
    deleteBucket_def headBucket_def getBucketVersioning_def putBucketVersioning_def deleteMulti_def Let_def
  by (intro unsent_intros)+

lemma fails_upload_handlers [unsent_intros]:
  "fails_unsent (initiateMultipartUpload env g now bucket object rq)"
  "fails_unsent (putMultipartUploadPart env g bucket object uploadID rq)"
  "fails_unsent (abortMultipartUpload g bucket object uploadID)"
  "fails_unsent (completeMultipartUpload env g bucket object uploadID rq)"
  "fails_unsent (listMultipartUploads g bucket rq)"
  "fails_unsent (listMultipartUploadParts g bucket object uploadID rq)"
  unfolding initiateMultipartUpload_def putMultipartUploadPart_def abortMultipartUpload_def
    completeMultipartUpload_def listMultipartUploads_def listMultipartUploadParts_def Let_def
  by (intro unsent_intros)+

lemma fails_routes [unsent_intros]:
  "fails_unsent (routeObject env g now bucket object rq)" "fails_unsent (routeBucket env g now bucket rq)"
  "fails_unsent (routeMultipartUploadBase env g now bucket object rq)"
  "fails_unsent (routeVersioning env g bucket rq)" "fails_unsent (routeVersions g bucket rq)"
  "fails_unsent (routeVersion env g bucket object versionID rq)"
  "fails_unsent (routeMultipartUpload env g bucket object uploadID rq)"
  unfolding routeObject_def routeBucket_def routeMultipartUploadBase_def routeVersioning_def
    routeVersions_def routeVersion_def routeMultipartUpload_def methodNotAllowed_def
  by (intro unsent_intros)+

lemma fails_dispatch: "dispatch env g now rq = Some h \<Longrightarrow> fails_unsent h"
  unfolding dispatch_def Let_def
  by (auto split: prod.splits if_splits intro: unsent_intros)


text \<open>
  So the answer to a failing request is one error document with the status of its code, or no body
  for HEAD; a response with status 304 has no body either.
\<close>

lemma httpError_answer:
  assumes "rw_sent w = None"
  shows "httpError rq e (w, world) = (Ok (), (snd (httpError rq e (w, world))))"
    and "snd (snd (httpError rq e (w, world))) = world"
    and "rw_status (fst (snd (httpError rq e (w, world)))) =
      code_Status (case err_ErrorCode e of None \<Rightarrow> ErrInternal | Some c \<Rightarrow> c)"
    and "rw_body (fst (snd (httpError rq e (w, world)))) = rw_body w @
      (if rq_Method rq \<noteq> ''HEAD'' \<and>
          body_allowed (code_Status (case err_ErrorCode e of None \<Rightarrow> ErrInternal | Some c \<Rightarrow> c))
       then [Raw xml_header, Doc (DError (ensureErrorResponse e ''''))] else [])"
  using assms ensureErrorResponse_code [of e "''''"]
  by (simp_all add: httpError_def act_then_def xml_encode_def on_writer_def rw_WriteHeader_def
      rw_Write_def rw_status_def act_ok_def Let_def act_bind_def)

section \<open>What handlers do to the state behind the back end\<close>

text \<open>
  A handler is within a relation if it relates the states before and after. Handlers that only read are
  within equality; what all handlers do is within a relation that contains every call of a back end.
\<close>

definition within :: "('w \<Rightarrow> 'w \<Rightarrow> bool) \<Rightarrow> ('w serving, 'a) act \<Rightarrow> bool" where
  "within R m \<longleftrightarrow> (\<forall>s. R (snd s) (snd (snd (m s))))"

abbreviation reads :: "('w serving, 'a) act \<Rightarrow> bool" where
  "reads \<equiv> within (=)"

named_theorems within_intros \<open>what handlers do to the state behind the back end\<close>

lemma within_on_world: "(\<And>w. R w (snd (m w))) \<Longrightarrow> within R (on_world m)"
  by (auto simp: within_def on_world_def split: prod.splits) (metis snd_conv)

lemma within_cases [within_intros]:
  "(c \<Longrightarrow> within R m) \<Longrightarrow> (\<not> c \<Longrightarrow> within R n) \<Longrightarrow> within R (if c then m else n)"
  "(x = None \<Longrightarrow> within R m) \<Longrightarrow> (\<And>y. x = Some y \<Longrightarrow> within R (f y)) \<Longrightarrow>
     within R (case x of None \<Rightarrow> m | Some y \<Rightarrow> f y)"
  by (auto split: option.splits)

locale step_relation =
  fixes R :: "'w \<Rightarrow> 'w \<Rightarrow> bool"
  assumes step_refl: "R w w"
    and step_trans: "R u v \<Longrightarrow> R v w \<Longrightarrow> R u w"
begin

lemma within_basic [within_intros]:
  "within R (act_ok x)" "within R (act_err e)" "within R (act_res r)" "within R (on_writer f)"
  "within R (xml_encode d)"
  by (simp_all add: within_def act_ok_def act_err_def act_res_def on_writer_def xml_encode_def step_refl)

lemma step_bind: "R s (snd (m s)) \<Longrightarrow> (\<And>x t. R t (snd (f x t))) \<Longrightarrow> R s (snd (act_bind m f s))"
  by (auto simp: act_bind_def split: prod.splits res.splits) (metis step_trans snd_conv)+

lemma within_bind [within_intros]:
  assumes "within R m" "\<And>x. within R (f x)"
  shows "within R (act_bind m f)"
  unfolding within_def
proof
  fix s
  obtain r t where m: "m s = (r, t)" by (cases "m s")
  then have "R (snd s) (snd t)" using assms(1) unfolding within_def by (metis snd_conv)
  moreover have "R (snd t) (snd (snd (f x t)))" for x using assms(2) unfolding within_def by blast
  ultimately show "R (snd s) (snd (snd (act_bind m f s)))"
    using m step_trans by (cases r) (auto simp: act_bind_def)
qed

lemma within_then [within_intros]: "within R m \<Longrightarrow> within R k \<Longrightarrow> within R (act_then m k)"
  unfolding act_then_def by (rule within_bind)

lemma within_if [within_intros]: "within R m \<Longrightarrow> within R (act_if c m)"
  by (simp add: act_if_def within_basic)

lemma within_httpError [within_intros]: "within R (httpError rq e)"
  unfolding httpError_def Let_def by (intro within_intros)

lemma within_with_error:
  assumes "within R m"
  shows "within R (with_error rq m)"
  unfolding within_def
proof
  fix s
  obtain r t where m: "m s = (r, t)" by (cases "m s")
  then have t: "R (snd s) (snd t)" using assms unfolding within_def by (metis snd_conv)
  have "R (snd t) (snd (snd (httpError rq e t)))" for e
    using within_httpError [of rq e] unfolding within_def by blast
  then show "R (snd s) (snd (snd (with_error rq m s)))"
    using m t step_trans by (cases r) (auto simp: with_error_def)
qed

lemma within_write_response [within_intros]: "within R (writeGetOrHeadObjectResponse env obj rq)"
  unfolding writeGetOrHeadObjectResponse_def by (intro within_intros)

text \<open>If the chosen handler is within the relation, so is the request, through all middlewares.\<close>

lemma step_routeBase:
  assumes "\<And>h. dispatch env g now rq = Some h \<Longrightarrow> within R h"
  shows "R (sv_world sv) (sv_world (snd (routeBase env g now rq w sv)))"
proof (cases "dispatch env g now rq")
  case None
  then show ?thesis by (simp add: routeBase_def NotFound_def on_writer_def Let_def step_refl)
next
  case (Some h)
  then have "within R (with_error rq h)" using assms within_with_error by blast
  then have "R (sv_world sv) (snd (snd (with_error rq h (w', sv_world sv))))" for w'
    by (simp add: within_def split: prod.splits)
  then show ?thesis using Some by (auto simp: routeBase_def Let_def split: prod.splits) (metis snd_conv)
qed

lemma step_Server:
  assumes "\<And>rq' h. rq_Method rq' = rq_Method rq \<Longrightarrow> rq_Query rq' = rq_Query rq \<Longrightarrow>
    rq_Method rq \<noteq> ''OPTIONS'' \<Longrightarrow> dispatch env g now rq' = Some h \<Longrightarrow> within R h"
  shows "R (sv_world sv) (sv_world (snd (Server env g now rq w sv)))"
proof -
  have cors: "R (sv_world sv) (sv_world (snd (withCORS (routeBase env g) now rq' w' sv)))"
    if "rq_Method rq' = rq_Method rq" "rq_Query rq' = rq_Query rq" for rq' w'
    using step_routeBase [of env g now rq'] assms [OF that] that
    by (auto simp: withCORS_def Let_def step_refl)
  have skew: "R (sv_world sv) (sv_world (snd (timeSkewMiddleware env g (withCORS (routeBase env g)) now rq' w' sv)))"
    if "rq_Method rq' = rq_Method rq" "rq_Query rq' = rq_Query rq" for rq' w'
    using cors [OF that] by (auto simp: timeSkewMiddleware_def step_refl split: prod.splits)
  have path: "rq_Method (bucket_path b rq) = rq_Method rq" "rq_Query (bucket_path b rq) = rq_Query rq" for b
    by (simp_all add: bucket_path_def)
  show ?thesis
    by (auto simp: Server_def Let_def hostBucketMiddleware_def hostBucketBaseMiddleware_def cors skew path
        split: option.splits)
qed

end

interpretation same: step_relation "(=)"
  by unfold_locales simp_all

section \<open>Handlers that only read\<close>

text \<open>The contract: the reading operations of the back ends change nothing, and buckets are not made on demand.\<close>

locale reading_backend =
  fixes g :: "'w gofakes3"
  assumes no_autoBucket: "\<not> g_autoBucket g"
    and storage_reads:
      "snd (be_BucketExists (g_storage g) b w) = w" "snd (be_ListBuckets (g_storage g) w) = w"
      "snd (be_ListBucket (g_storage g) b p page w) = w" "snd (be_GetObject (g_storage g) b k r w) = w"
      "snd (be_HeadObject (g_storage g) b k w) = w"
    and versioned_reads:
      "g_versioned g = Some v \<Longrightarrow> snd (vb_VersioningConfiguration v b w) = w"
      "g_versioned g = Some v \<Longrightarrow> snd (vb_GetObjectVersion v b k vid r w) = w"
      "g_versioned g = Some v \<Longrightarrow> snd (vb_ListBucketVersions v b p' page' w) = w"
    and uploader_reads:
      "snd (mp_ListMultipartUploads (g_uploader g) b m q l w) = w"
      "snd (mp_ListParts (g_uploader g) b k i n l w) = w"
begin

lemma reads_calls [within_intros]:
  "reads (on_world (be_ListBuckets (g_storage g)))" "reads (on_world (be_HeadObject (g_storage g) b k))"
  "g_versioned g = Some v \<Longrightarrow> reads (on_world (vb_VersioningConfiguration v b))"
  "g_versioned g = Some v \<Longrightarrow> reads (on_world (vb_ListBucketVersions v b p' page'))"
  "reads (on_world (mp_ListMultipartUploads (g_uploader g) b m q l))"
  "reads (on_world (mp_ListParts (g_uploader g) b k i n l))"
  by (intro within_on_world storage_reads [symmetric] versioned_reads [symmetric] uploader_reads [symmetric]; assumption)+

lemma reads_ensure [within_intros]: "reads (on_world (ensureBucketExists g b))"
proof (rule within_on_world)
  fix w
  obtain r w' where e: "be_BucketExists (g_storage g) b w = (r, w')" by fastforce
  then have "w' = w" using storage_reads(1) [of b w] by simp
  with e show "w = snd (ensureBucketExists g b w)"
    using no_autoBucket by (cases r) (simp_all add: ensureBucketExists_def act_bind_def act_ok_def act_err_def)
qed

lemma reads_get [within_intros]: "reads (on_world (get_from_backend g b k vid r))"
  by (rule within_on_world)
    (auto simp: get_from_backend_def act_err_def storage_reads versioned_reads split: option.splits)

lemma reads_list [within_intros]: "reads (on_world (list_objects g b p page))"
proof (rule within_on_world)
  fix w
  obtain r w' where l: "be_ListBucket (g_storage g) b (Some p) page w = (r, w')" by fastforce
  then have "w' = w" using storage_reads(3) [of b "Some p" page w] by simp
  with l show "w = snd (list_objects g b p page w)"
    using storage_reads(3) by (cases r) (simp_all add: list_objects_def)
qed

lemma reads_routes:
  assumes "rq_Method rq = ''GET'' \<or> rq_Method rq = ''HEAD''"
  shows "reads (routeObject env g now b k rq)" "reads (routeBucket env g now b rq)"
    "reads (routeMultipartUploadBase env g now b k rq)" "reads (routeVersioning env g b rq)"
    "reads (routeVersions g b rq)" "reads (routeVersion env g b k vid rq)"
    "reads (routeMultipartUpload env g b k i rq)" "reads (listBuckets g)"
  using assms
  unfolding routeObject_def routeBucket_def routeMultipartUploadBase_def routeVersioning_def
    routeVersions_def routeVersion_def routeMultipartUpload_def methodNotAllowed_def getObject_def
    headObject_def getBucketLocation_def listBucket_def headBucket_def listMultipartUploads_def
    getBucketVersioning_def listBucketVersions_def listMultipartUploadParts_def listBuckets_def
    copy_contents_def Let_def
  by (auto intro!: within_intros)

lemma reads_dispatch:
  assumes "rq_Method rq = ''GET'' \<or> rq_Method rq = ''HEAD''" "dispatch env g now rq = Some h"
  shows "reads h"
  using assms(2) reads_routes [OF assms(1)] unfolding dispatch_def Let_def
  by (auto split: prod.splits if_splits)

text \<open>Through the middlewares: a request with a safe method leaves the state behind the server as it is.\<close>

lemma reads_Server:
  assumes "rq_Method rq = ''GET'' \<or> rq_Method rq = ''HEAD'' \<or> rq_Method rq = ''OPTIONS''"
  shows "sv_world (snd (Server env g now rq w sv)) = sv_world sv"
  using same.step_Server [of rq env g now sv w] reads_dispatch assms by metis

end

end
