(* ===== verification/StoreServer.thy ===== *)
theory StoreServer
  imports ServerFacts UploaderFacts
begin

text \<open>
  The server over a back end of the repository and the uploader of the package: the state is the pair
  of the uploader and the back end, which the handlers and the uploader share. Two interfaces say what
  the server relies on: \<open>reading_store\<close> (the reading operations of the back end keep its state) gives
  \<open>reading_backend\<close> for the server, and \<open>storing_backend\<close> (a stored object can be read back) is followed
  through a PUT and a GET over HTTP. The theories of the back ends provide both.
\<close>

section \<open>The server object\<close>

definition on_storage :: "('s, 'a) act \<Rightarrow> ('u \<times> 's, 'a) act" where
  "on_storage m us = (case m (snd us) of (r, s') \<Rightarrow> (r, (fst us, s')))"

definition lift_backend :: "'s Backend \<Rightarrow> ('u \<times> 's) Backend" where
  "lift_backend db =
     \<lparr>be_ListBuckets = on_storage (be_ListBuckets db),
      be_ListBucket = (\<lambda>b p page. on_storage (be_ListBucket db b p page)),
      be_CreateBucket = (\<lambda>b. on_storage (be_CreateBucket db b)),
      be_BucketExists = (\<lambda>b. on_storage (be_BucketExists db b)),
      be_DeleteBucket = (\<lambda>b. on_storage (be_DeleteBucket db b)),
      be_ForceDeleteBucket = (\<lambda>b. on_storage (be_ForceDeleteBucket db b)),
      be_GetObject = (\<lambda>b k r. on_storage (be_GetObject db b k r)),
      be_HeadObject = (\<lambda>b k. on_storage (be_HeadObject db b k)),
      be_DeleteObject = (\<lambda>b k. on_storage (be_DeleteObject db b k)),
      be_PutObject = (\<lambda>b k m i sz. on_storage (be_PutObject db b k m i sz)),
      be_DeleteMulti = (\<lambda>b ks. on_storage (be_DeleteMulti db b ks)),
      be_CopyObject = (\<lambda>b k b' k' m. on_storage (be_CopyObject db b k b' k' m))\<rparr>"

definition lift_versioned :: "'s VersionedBackend \<Rightarrow> ('u \<times> 's) VersionedBackend" where
  "lift_versioned db =
     \<lparr>vb_VersioningConfiguration = (\<lambda>b. on_storage (vb_VersioningConfiguration db b)),
      vb_SetVersioningConfiguration = (\<lambda>b c. on_storage (vb_SetVersioningConfiguration db b c)),
      vb_GetObjectVersion = (\<lambda>b k i r. on_storage (vb_GetObjectVersion db b k i r)),
      vb_HeadObjectVersion = (\<lambda>b k i. on_storage (vb_HeadObjectVersion db b k i)),
      vb_DeleteObjectVersion = (\<lambda>b k i. on_storage (vb_DeleteObjectVersion db b k i)),
      vb_DeleteMultiVersions = (\<lambda>b os. on_storage (vb_DeleteMultiVersions db b os)),
      vb_ListBucketVersions = (\<lambda>b p page. on_storage (vb_ListBucketVersions db b p page))\<rparr>"

definition store_server ::
    "'s Backend \<Rightarrow> 's VersionedBackend option \<Rightarrow> ('um, 'ui) uploader_env \<Rightarrow>
     (('um uploader \<times> 's) gofakes3 \<Rightarrow> ('um uploader \<times> 's) gofakes3) list \<Rightarrow>
     ('um uploader \<times> 's) gofakes3" where
  "store_server be vb uenv options =
     New (lift_backend be) (map_option lift_versioned vb) None options (uploader_backend uenv be)"

lemma store_server_simps [simp]:
  "g_storage (store_server be vb uenv []) = lift_backend be"
  "g_versioned (store_server be vb uenv []) = map_option lift_versioned vb"
  "g_uploader (store_server be vb uenv []) = uploader_backend uenv be"
  "g_autoBucket (store_server be vb uenv []) = False" "g_integrityCheck (store_server be vb uenv []) = True"
  "g_timeSkew (store_server be vb uenv []) = DefaultSkewLimit"
  "g_metadataSizeLimit (store_server be vb uenv []) = DefaultMetadataSizeLimit"
  "g_hostBucket (store_server be vb uenv []) = False" "g_hostBucketBases (store_server be vb uenv []) = []"
  by (simp_all add: store_server_def New_def)

lemma on_storage_eq: "on_storage m (u, s) = (fst (m s), (u, snd (m s)))"
  by (simp add: on_storage_def split: prod.splits)

lemma on_storage_keeps: "snd (m (snd us)) = snd us \<Longrightarrow> snd (on_storage m us) = us"
  by (auto simp: on_storage_def split: prod.splits)

lemma on_uploader_keeps: "snd (m (fst us)) = fst us \<Longrightarrow> snd (on_uploader m us) = us"
  by (auto simp: on_uploader_def split: prod.splits)

lemma uploader_reads:
  "snd (ul_ListParts b k i n l u) = u" "snd (ul_ListMultipartUploads uenv b m q l u) = u"
  by (auto simp: ul_ListParts_def ul_ListMultipartUploads_def Let_def split: option.splits prod.splits)

section \<open>Reading\<close>

locale reading_store =
  fixes be :: "'s Backend" and vb :: "'s VersionedBackend option"
  assumes be_reads:
      "snd (be_BucketExists be b s) = s" "snd (be_ListBuckets be s) = s"
      "snd (be_ListBucket be b p page s) = s" "snd (be_GetObject be b k r s) = s"
      "snd (be_HeadObject be b k s) = s"
    and vb_reads:
      "vb = Some v \<Longrightarrow> snd (vb_VersioningConfiguration v b s) = s"
      "vb = Some v \<Longrightarrow> snd (vb_GetObjectVersion v b k vid r s) = s"
      "vb = Some v \<Longrightarrow> snd (vb_ListBucketVersions v b p' page' s) = s"
begin

sublocale server: reading_backend "store_server be vb uenv []" for uenv
proof
  fix v
  assume "g_versioned (store_server be vb uenv []) = Some v"
  then obtain v0 where v: "vb = Some v0" "v = lift_versioned v0" by auto
  show "snd (vb_VersioningConfiguration v b w) = w" "snd (vb_GetObjectVersion v b k vid r w) = w"
    "snd (vb_ListBucketVersions v b p' page' w) = w" for b k vid r p' page' w
    using vb_reads [OF v(1)] by (simp_all add: v(2) lift_versioned_def on_storage_keeps)
qed (simp_all add: lift_backend_def uploader_backend_def on_storage_keeps on_uploader_keeps be_reads
    uploader_reads)

end

section \<open>Paths\<close>

lemma index_of_char: "c \<notin> set b \<Longrightarrow> index_of (b @ c # k) [c] = Some (length b)"
  by (induction b) (auto simp: has_prefix_def)

lemma trim_path:
  assumes "b \<noteq> []" "hd b \<noteq> c" "k \<noteq> []" "last k \<noteq> c"
  shows "trim (c # b @ c # k) [c] = b @ c # k"
proof -
  have "trim_left (c # b @ c # k) [c] = b @ c # k"
    using assms(1,2) by (cases b) (simp_all add: trim_left_def)
  moreover obtain k' x where "k = k' @ [x]" "x \<noteq> c"
    using assms(3,4) by (cases k rule: rev_cases) simp_all
  then have "trim_right (b @ c # k) [c] = b @ c # k" by (simp add: trim_right_def trim_left_def)
  ultimately show ?thesis by (simp add: trim_def)
qed

text \<open>A path of a bucket and an object key that does not end in a slash.\<close>

lemma split_path_object:
  assumes "b \<noteq> ''''" "CHR ''/'' \<notin> set b" "k \<noteq> ''''" "last k \<noteq> CHR ''/''"
  shows "split_path (''/'' @ b @ ''/'' @ k) = (b, k)"
proof -
  have "hd b \<noteq> CHR ''/''" using assms(1,2) by (cases b) auto
  then show ?thesis
    using assms trim_path [of b "CHR ''/''" k] index_of_char [OF assms(2), of k]
    by (simp add: split_path_def split_n2_def)
qed

definition object_request :: "string \<Rightarrow> string \<Rightarrow> string \<Rightarrow> request \<Rightarrow> bool" where
  "object_request meth b k rq \<longleftrightarrow>
     rq_Method rq = meth \<and> rq_Path rq = ''/'' @ b @ ''/'' @ k \<and> rq_Query rq = [] \<and>
     b \<noteq> '''' \<and> CHR ''/'' \<notin> set b \<and> k \<noteq> '''' \<and> last k \<noteq> CHR ''/''"

lemma dispatch_object:
  assumes "object_request meth b k rq"
  shows "dispatch env g now rq = Some (routeObject env g now b k rq)"
  using assms split_path_object [of b k]
  by (simp add: object_request_def dispatch_def vals_get_def vals_has_def query_values_def
      versionFromQuery_def)

section \<open>A PUT and a GET through the server\<close>

text \<open>What a PUT with a plain body of the announced size asks the back end for.\<close>

definition plain_put :: "server_env \<Rightarrow> 'w gofakes3 \<Rightarrow> int \<Rightarrow> request \<Rightarrow> bytes \<Rightarrow> gomap \<Rightarrow> bool" where
  "plain_put env g now rq body meta \<longleftrightarrow>
     rq_Body rq = bytes_reader body \<and>
     parse_int (header_get (rq_Header rq) ''Content-Length'') = Some (int (length body)) \<and>
     metadataHeaders env (rq_Header rq) now (g_metadataSizeLimit g) = Ok meta \<and>
     map_of meta ''X-Amz-Copy-Source'' = None \<and> \<not> streaming_upload meta \<and>
     rbind (md5_header g rq) (newHashingReader_expected (se_b64_decode env)) \<in>
       {Ok None, Ok (Some (se_md5 env body))}"

text \<open>A GET without conditions and without a range.\<close>

definition plain_get :: "server_env \<Rightarrow> request \<Rightarrow> bool" where
  "plain_get env rq \<longleftrightarrow>
     header_get (rq_Header rq) ''Range'' = '''' \<and> header_get (rq_Header rq) ''If-None-Match'' = '''' \<and>
     header_get (rq_Header rq) ''If-Modified-Since'' = '''' \<and> se_parseHttpTime env '''' = None \<and>
     (\<forall>s t. se_parseHttpTime env s = Some t \<longrightarrow> zero_time \<le> t)"

lemma plain_get_modified:
  assumes "plain_get env rq"
  shows "\<not> not_modified env obj rq"
proof -
  let ?t = "http_time env (gomap_get (object_metadata obj) ''Last-Modified'')"
  have "zero_time \<le> ?t" using assms by (auto simp: plain_get_def http_time_def split: option.splits)
  moreover have "http_time env (header_get (rq_Header rq) ''If-Modified-Since'') = zero_time"
    using assms by (simp add: plain_get_def http_time_def)
  ultimately show ?thesis by (cases "?t = zero_time") (simp_all add: not_modified_def Let_def)
qed

lemma dispatch_get:
  "object_request ''GET'' b k rq \<Longrightarrow> dispatch env g now rq = Some (getObject env g b k '''' rq)"
  by (frule dispatch_object) (simp add: routeObject_def object_request_def)

lemma Server_default:
  assumes "\<not> too_skewed env (store_server be vb uenv []) now rq" "rq_Method rq \<noteq> ''OPTIONS''"
  shows "Server env (store_server be vb uenv []) now rq w sv =
    routeBase env (store_server be vb uenv []) now rq (rw_Set_all cors_headers w) sv"
  using assms
  by (simp add: Server_def Let_def timeSkewMiddleware_def withCORS_def DefaultSkewLimit_def)

locale probing_store =
  fixes be :: "'s Backend" and vb :: "'s VersionedBackend option" and buckets :: "'s \<Rightarrow> string \<Rightarrow> bool"
    and named :: "string \<Rightarrow> bool"
  assumes exists: "named b \<Longrightarrow> be_BucketExists be b s = (Ok (buckets s b), s)"
begin

abbreviation srv where
  "srv uenv \<equiv> store_server be vb uenv []"

lemma ensure_existing:
  "named b \<Longrightarrow> buckets s b \<Longrightarrow> ensureBucketExists (srv uenv) b (u, s) = (Ok (), (u, s))"
  by (simp add: ensureBucketExists_def act_bind_def lift_backend_def on_storage_eq exists act_ok_def)

lemma ensure_missing:
  "named b \<Longrightarrow> \<not> buckets s b \<Longrightarrow> ensureBucketExists (srv uenv) b (u, s) = (Err (BucketNotFound b), (u, s))"
  by (simp add: ensureBucketExists_def act_bind_def lift_backend_def on_storage_eq exists act_err_def
      BucketNotFound_def)

end

text \<open>
  \<open>accepts s b k body m\<close> says when the back end takes an object; \<open>buckets s\<close> are its buckets. What it
  has taken it gives back, with the digest and the version ID it has answered.
\<close>

locale storing_backend = probing_store +
  fixes md5 :: "bytes \<Rightarrow> bytes"
    and accepts :: "'a \<Rightarrow> string \<Rightarrow> string \<Rightarrow> bytes \<Rightarrow> gomap \<Rightarrow> bool"
  assumes put_get: "named b \<Longrightarrow> buckets s b \<Longrightarrow> accepts s b k body m \<Longrightarrow>
      \<exists>vid obj s'. be_PutObject be b k (Some m) (bytes_reader body) (int (length body)) s =
          (Ok \<lparr>pr_VersionID = vid\<rparr>, s') \<and>
        fst (be_GetObject be b k None s') = Ok obj \<and> ob_Contents obj = body \<and>
        ob_Size obj = int (length body) \<and> ob_Hash obj = md5 body \<and> \<not> ob_IsDeleteMarker obj \<and>
        ob_Range obj = None \<and> buckets s' b"
begin

lemma createObject_plain:
  assumes "plain_put env (srv uenv) now rq body meta" "length k \<le> KeySizeLimit" "buckets s b" "named b"
    and "be_PutObject be b k (Some meta) (bytes_reader body) (int (length body)) s = (Ok r, s')"
  shows "createObject env (srv uenv) now b k rq (w, (u, s)) =
    (Ok (), (rw_Set ''ETag'' (quoted (hex_encode (se_md5 env body)))
               (if pr_VersionID r \<noteq> '''' then rw_Set ''x-amz-version-id'' (pr_VersionID r) w else w),
             (u, s')))"
proof -
  obtain m expected where md5: "md5_header (srv uenv) rq = Ok m"
    "newHashingReader_expected (se_b64_decode env) m = Ok expected" "expected \<in> {None, Some (se_md5 env body)}"
    using assms(1) by (auto simp: plain_put_def rbind_eq_Ok)
  have len: "header_get (rq_Header rq) ''Content-Length'' \<noteq> ''''"
    using assms(1) by (auto simp: plain_put_def parse_int_def parse_digits_def has_prefix_def)
  have "hashing_Read (se_md5 env) expected (bytes_reader body) = bytes_reader body"
    using md5(3) by (auto simp: hashing_Read_def bytes_reader_def)
  then show ?thesis
    using assms(1,2) md5 len assms(5)
    by (simp add: createObject_def plain_put_def act_then_def act_bind_def on_world_def
        ensure_existing [OF assms(4,3)] act_res_def store_object_def lift_backend_def on_storage_eq act_if_def
        act_ok_def on_writer_def etag_of_body_def bytes_reader_def)
qed

lemma getObject_found:
  assumes "plain_get env rq" "named b" "buckets s b"
    and "get_from_backend (srv uenv) b k vid None (u, s) = (Ok obj, (u, s'))"
    and "\<not> ob_IsDeleteMarker obj" "ob_Range obj = None" "rw_sent w = None" "rw_body w = []"
  shows "\<exists>w'. getObject env (srv uenv) b k vid rq (w, (u, s)) = (Ok (), (w', (u, s'))) \<and>
    rw_status w' = 200 \<and> rw_body w' = (if ob_Contents obj = [] then [] else [Raw (ob_Contents obj)]) \<and>
    header_get (rw_sent_header w') ''ETag'' = object_etag obj \<and>
    header_get (rw_sent_header w') ''Content-Length'' = int_str (ob_Size obj)"
proof -
  have tag: "object_etag obj \<noteq> ''''" "'''' \<noteq> object_etag obj" by (simp_all add: object_etag_def quoted_def)
  have rng: "parseRangeHeader '''' = Ok None" by (simp add: parseRangeHeader_def)
  let ?w0 = "rw_Set_all (object_metadata obj) w"
  let ?w1 = "if ob_VersionID obj \<noteq> '''' then rw_Set ''x-amz-version-id'' (ob_VersionID obj) ?w0 else ?w0"
  let ?w2 = "rw_Set ''Content-Length'' (int_str (ob_Size obj))
    (rw_Set ''Accept-Ranges'' ''bytes'' (rw_Set ''ETag'' (object_etag obj) ?w1))"
  let ?w3 = "if ob_Contents obj = [] then ?w2 else rw_Write (Raw (ob_Contents obj)) ?w2"
  have wr: "writeGetOrHeadObjectResponse env obj rq (w, (u, s')) =
      (Ok (), (rw_Set ''Accept-Ranges'' ''bytes'' (rw_Set ''ETag'' (object_etag obj) ?w1), (u, s')))"
    using assms(1,5) tag plain_get_modified [OF assms(1), of obj]
    by (simp add: writeGetOrHeadObjectResponse_def act_then_def act_bind_def on_writer_def act_if_def
        act_ok_def plain_get_def)
  have "getObject env (srv uenv) b k vid rq (w, (u, s)) = (Ok (), (?w3, (u, s')))"
    using assms(1,4,6) rng wr
    by (simp add: getObject_def act_then_def act_bind_def on_world_def ensure_existing [OF assms(2,3)]
        act_res_def plain_get_def on_writer_def rw_Set_all_def copy_contents_def act_if_def act_ok_def)
  moreover have "rw_status ?w3 = 200 \<and> rw_body ?w3 = (if ob_Contents obj = [] then [] else [Raw (ob_Contents obj)]) \<and>
    header_get (rw_sent_header ?w3) ''ETag'' = object_etag obj \<and>
    header_get (rw_sent_header ?w3) ''Content-Length'' = int_str (ob_Size obj)"
    using assms(7,8)
    by (auto simp: rw_status_def rw_Write_def rw_WriteHeader_def body_allowed_def rw_sent_header_def
        header_get_set)
  ultimately show ?thesis by blast
qed

lemma getObject_plain:
  assumes "plain_get env rq" "named b" "buckets s b" "be_GetObject be b k None s = (Ok obj, s')"
    and "\<not> ob_IsDeleteMarker obj" "ob_Range obj = None" "rw_sent w = None" "rw_body w = []"
  shows "\<exists>w'. getObject env (srv uenv) b k '''' rq (w, (u, s)) = (Ok (), (w', (u, s'))) \<and>
    rw_status w' = 200 \<and> rw_body w' = (if ob_Contents obj = [] then [] else [Raw (ob_Contents obj)]) \<and>
    header_get (rw_sent_header w') ''ETag'' = object_etag obj \<and>
    header_get (rw_sent_header w') ''Content-Length'' = int_str (ob_Size obj)"
  by (rule getObject_found [OF assms(1-3) _ assms(5-8)])
    (simp add: get_from_backend_def lift_backend_def on_storage_eq assms(4))

lemma server_put:
  assumes "named b" "buckets s b" "object_request ''PUT'' b k put" "plain_put env (srv uenv) now put body meta"
    and "length k \<le> KeySizeLimit" "\<not> too_skewed env (srv uenv) now put"
    and "be_PutObject be b k (Some meta) (bytes_reader body) (int (length body)) s = (Ok r, s')"
  shows "Server env (srv uenv) now put w \<lparr>sv_requestID = n, sv_world = (u, s)\<rparr> =
    (let w' = rw_Set_all (request_headers env (n + 1)) (rw_Set_all cors_headers w) in
      ((Ok (), rw_Set ''ETag'' (quoted (hex_encode (se_md5 env body)))
                 (if pr_VersionID r \<noteq> '''' then rw_Set ''x-amz-version-id'' (pr_VersionID r) w' else w')),
       \<lparr>sv_requestID = n + 1, sv_world = (u, s')\<rparr>))"
proof -
  have "dispatch env (srv uenv) now put = Some (createObject env (srv uenv) now b k put)"
    using assms(3) dispatch_object [OF assms(3)] by (simp add: routeObject_def object_request_def)
  then show ?thesis
    using assms(3) createObject_plain [OF assms(4,5,2,1,7)]
    by (subst Server_default [OF assms(6)])
      (simp_all add: object_request_def routeBase_def with_error_def Let_def)
qed

lemma server_put_get:
  assumes "named b" "buckets s b" "accepts s b k body meta"
    and "object_request ''PUT'' b k put" "plain_put env (srv uenv) now put body meta"
    and "object_request ''GET'' b k get" "plain_get env get"
    and "length k \<le> KeySizeLimit" "se_md5 env = md5"
    and "\<not> too_skewed env (srv uenv) now put" "\<not> too_skewed env (srv uenv) now' get"
    and "Server env (srv uenv) now put new_response \<lparr>sv_requestID = n, sv_world = (u, s)\<rparr> = ((r1, w1), sv1)"
    and "Server env (srv uenv) now' get new_response sv1 = ((r2, w2), sv2)"
  shows "r1 = Ok () \<and> rw_status w1 = 200 \<and> rw_body w1 = [] \<and>
    header_get (rw_sent_header w1) ''ETag'' = quoted (hex_encode (se_md5 env body)) \<and>
    r2 = Ok () \<and> rw_status w2 = 200 \<and> rw_body w2 = (if body = [] then [] else [Raw body]) \<and>
    header_get (rw_sent_header w2) ''Content-Length'' = int_str (int (length body)) \<and>
    header_get (rw_sent_header w2) ''ETag'' = quoted (hex_encode (se_md5 env body))"
proof -
  have new: "rw_sent new_response = None" "rw_body new_response = []" by (simp_all add: new_response_def)
  obtain vid obj s' where put:
      "be_PutObject be b k (Some meta) (bytes_reader body) (int (length body)) s = (Ok \<lparr>pr_VersionID = vid\<rparr>, s')"
    and get: "fst (be_GetObject be b k None s') = Ok obj" and obj: "ob_Contents obj = body"
      "ob_Size obj = int (length body)" "ob_Hash obj = md5 body" "\<not> ob_IsDeleteMarker obj"
      "ob_Range obj = None"
    and b': "buckets s' b"
    using put_get [OF assms(1,2,3)] by blast
  obtain s'' where got: "be_GetObject be b k None s' = (Ok obj, s'')"
    using get by (cases "be_GetObject be b k None s'") simp
  let ?s1 = "rw_Set_all (request_headers env (n + 1)) (rw_Set_all cors_headers new_response)"
  let ?w1 = "rw_Set ''ETag'' (quoted (hex_encode (se_md5 env body)))
       (if vid \<noteq> '''' then rw_Set ''x-amz-version-id'' vid ?s1 else ?s1)"
  have "Server env (srv uenv) now put new_response \<lparr>sv_requestID = n, sv_world = (u, s)\<rparr> =
      ((Ok (), ?w1), \<lparr>sv_requestID = n + 1, sv_world = (u, s')\<rparr>)"
    using server_put [OF assms(1,2,4,5,8,10) put] by (simp add: Let_def)
  then have r1: "r1 = Ok ()" "w1 = ?w1" "sv1 = \<lparr>sv_requestID = n + 1, sv_world = (u, s')\<rparr>"
    using assms(12) by simp_all
  let ?s2 = "rw_Set_all (request_headers env (n + 1 + 1)) (rw_Set_all cors_headers new_response)"
  have "rw_sent ?s2 = None" "rw_body ?s2 = []" using new by simp_all
  from getObject_plain [OF assms(7,1) b' got obj(4,5) this, of uenv u]
  obtain w' where w': "getObject env (srv uenv) b k '''' get (?s2, (u, s')) = (Ok (), (w', (u, s'')))"
    "rw_status w' = 200" "rw_body w' = (if ob_Contents obj = [] then [] else [Raw (ob_Contents obj)])"
    "header_get (rw_sent_header w') ''ETag'' = object_etag obj"
    "header_get (rw_sent_header w') ''Content-Length'' = int_str (ob_Size obj)" by blast
  have "Server env (srv uenv) now' get new_response sv1 =
      ((Ok (), w'), \<lparr>sv_requestID = n + 1 + 1, sv_world = (u, s'')\<rparr>)"
    using assms(6) dispatch_get [OF assms(6), of env "srv uenv" now'] w'(1)
    by (subst Server_default [OF assms(11)])
      (simp_all add: object_request_def routeBase_def with_error_def Let_def r1(3))
  then have r2: "r2 = Ok ()" "w2 = w'" using assms(13) by simp_all
  have "object_etag obj = quoted (hex_encode (se_md5 env body))"
    using obj(3) assms(9) by (simp add: object_etag_def)
  then show ?thesis
    using r1 r2 w'(2-) obj(1,2) new by (simp add: rw_status_def rw_sent_header_def header_get_set)
qed

end

end
