(* ===== verification/MemServer.thy ===== *)
theory MemServer
  imports StoreServer MemObjects
begin

text \<open>
  The server over the in-memory back end, as \<open>cmd/gofakes3\<close> runs it by default. The back end provides both
  interfaces of the server: its reading operations keep its state, and in a bucket, versioned or not, an
  object that was put can be read back.
\<close>

definition mem_server ::
    "int \<Rightarrow> ('om, 'oi, 'vm, 'vi) s3mem_env \<Rightarrow> ('um, 'ui) uploader_env \<Rightarrow>
     ('um uploader \<times> 'om s3mem) gofakes3" where
  "mem_server wall menv uenv = store_server (mem_backend wall menv) (Some (mem_versioned menv)) uenv []"

lemma mem_server_simps [simp]:
  "g_storage (mem_server wall menv uenv) = lift_backend (mem_backend wall menv)"
  "g_autoBucket (mem_server wall menv uenv) = False" "g_integrityCheck (mem_server wall menv uenv) = True"
  "g_timeSkew (mem_server wall menv uenv) = DefaultSkewLimit"
  "g_metadataSizeLimit (mem_server wall menv uenv) = DefaultMetadataSizeLimit"
  by (simp_all add: mem_server_def)

lemma mem_versioned_simps [simp]:
  "vb_VersioningConfiguration (mem_versioned menv) = mem_VersioningConfiguration"
  "vb_SetVersioningConfiguration (mem_versioned menv) = mem_SetVersioningConfiguration"
  "vb_GetObjectVersion (mem_versioned menv) = mem_GetObjectVersion menv"
  "vb_DeleteObjectVersion (mem_versioned menv) = mem_DeleteObjectVersion menv"
  "vb_DeleteMultiVersions (mem_versioned menv) = mem_DeleteMultiVersions menv"
  "vb_ListBucketVersions (mem_versioned menv) = mem_ListBucketVersions menv"
  by (simp_all add: mem_versioned_def)

lemma mem_server_versioned [simp]:
  "g_versioned (mem_server wall menv uenv) = Some (lift_versioned (mem_versioned menv))"
  by (simp add: mem_server_def)

lemma mem_reads:
  "snd (mem_BucketExists b db) = db" "snd (mem_ListBuckets db) = db" "snd (mem_HeadObject menv b k db) = db"
  "snd (mem_GetObject menv b k r db) = db" "snd (mem_GetObjectVersion menv b k vid r db) = db"
  "snd (mem_VersioningConfiguration b db) = db" "snd (mem_ListBucket menv b p page db) = db"
  "snd (mem_ListBucketVersions menv b p' page' db) = db"
  by (auto simp: mem_BucketExists_def mem_ListBuckets_def mem_HeadObject_def mem_GetObject_def
      mem_GetObjectVersion_def mem_VersioningConfiguration_def mem_ListBucket_def
      mem_ListBucketVersions_def Let_def split: option.splits prod.splits)

interpretation mem_reading:
  reading_store "mem_backend wall menv" "Some (mem_versioned menv)" for wall menv
  by unfold_locales (auto simp: mem_reads mem_versioned_def)

text \<open>The buckets, and what a bucket takes: every body, unless the key has lost its current version.\<close>

definition mem_has_bucket :: "'om s3mem \<Rightarrow> string \<Rightarrow> bool" where
  "mem_has_bucket db b \<longleftrightarrow> mem_bucket db b \<noteq> None"

interpretation mem_probing:
  probing_store "mem_backend wall menv" "Some (mem_versioned menv)" mem_has_bucket "\<lambda>_. True" for wall menv
  by unfold_locales (simp add: mem_BucketExists_def mem_has_bucket_def)

lemmas mem_ensure =
  mem_probing.ensure_existing [folded mem_server_def, OF TrueI]
  mem_probing.ensure_missing [folded mem_server_def, OF TrueI]

definition mem_accepts ::
    "('om, 'oi, 'vm, 'vi) s3mem_env \<Rightarrow> 'om s3mem \<Rightarrow> string \<Rightarrow> string \<Rightarrow> bytes \<Rightarrow> gomap \<Rightarrow> bool" where
  "mem_accepts menv db b k body meta \<longleftrightarrow>
     int (length body) \<le> max_int64 \<and>
     (case bucket_object menv (the (mem_bucket db b)) k of None \<Rightarrow> True | Some obj \<Rightarrow> bo_data obj \<noteq> None)"

context s3mem_laws
begin

lemma put_plain:
  assumes "mem_bucket db bucket = Some b" "\<forall>obj. bucket_object env b key = Some obj \<longrightarrow> bo_data obj \<noteq> None"
    and "int (length body) \<le> max_int64"
  shows "\<exists>vid obj db'.
    mem_PutObject env bucket key (Some m) (bytes_reader body) (int (length body)) db =
      (Ok \<lparr>pr_VersionID = vid\<rparr>, db') \<and>
    mem_GetObject env bucket key None db' = (Ok obj, db') \<and> ob_Contents obj = body \<and>
    ob_Size obj = int (length body) \<and> ob_Hash obj = env_md5 env body \<and> \<not> ob_IsDeleteMarker obj \<and>
    ob_Range obj = None \<and> mem_bucket db' bucket \<noteq> None"
proof -
  obtain r db' where p:
    "mem_PutObject env bucket key (Some m) (bytes_reader body) (int (length body)) db = (r, db')" by fastforce
  have body: "rd_err (bytes_reader body) = None" "rd_bytes (bytes_reader body) = body"
    by (simp_all add: bytes_reader_def)
  have "\<exists>vid obj. r = Ok \<lparr>pr_VersionID = vid\<rparr> \<and>
      mem_GetObject env bucket key None db' = (Ok obj, db') \<and> ob_Name obj = key \<and>
      ob_Contents obj = rd_bytes (bytes_reader body) \<and> ob_Size obj = int (length body) \<and>
      ob_Hash obj = env_md5 env (rd_bytes (bytes_reader body)) \<and> ob_VersionID obj = vid \<and>
      \<not> ob_IsDeleteMarker obj \<and> map_option map_of (ob_Metadata obj) =
      Some ((case current_data env b key of
               Ok d \<Rightarrow> map_of (case bd_metadata d of None \<Rightarrow> [] | Some es \<Rightarrow> es)
             | _ \<Rightarrow> Map.empty) ++ map_of m)"
    by (rule put_get [OF assms(1) _ body(1) _ assms(3) p]) (use assms(2) body in auto)
  then obtain vid obj where o: "r = Ok \<lparr>pr_VersionID = vid\<rparr>"
      "mem_GetObject env bucket key None db' = (Ok obj, db')" "ob_Contents obj = body"
      "ob_Size obj = int (length body)" "ob_Hash obj = env_md5 env body" "\<not> ob_IsDeleteMarker obj"
    unfolding body by (elim exE conjE)
  moreover have "ob_Range obj = None"
    using o(2) by (auto simp: mem_GetObject_def rbind_eq_Ok toObject_whole split: option.splits)
  moreover have "mem_bucket db' bucket \<noteq> None"
    using o(2) by (auto simp: mem_GetObject_def split: option.splits)
  ultimately show ?thesis using p by blast
qed

sublocale server: storing_backend "mem_backend wall env" "Some (mem_versioned env)" mem_has_bucket
    "\<lambda>_. True" "env_md5 env" "mem_accepts env" for wall
proof
  fix db :: "'om s3mem" and b k :: string and body :: bytes and m :: gomap
  assume a: "mem_has_bucket db b" "mem_accepts env db b k body m"
  obtain bk where bk: "mem_bucket db b = Some bk" using a(1) by (auto simp: mem_has_bucket_def)
  have "\<forall>obj. bucket_object env bk k = Some obj \<longrightarrow> bo_data obj \<noteq> None"
    using a(2) bk by (auto simp: mem_accepts_def)
  from put_plain [OF bk this, of body m] a(2) show "\<exists>vid obj db'.
      be_PutObject (mem_backend wall env) b k (Some m) (bytes_reader body) (int (length body)) db =
        (Ok \<lparr>pr_VersionID = vid\<rparr>, db') \<and>
      fst (be_GetObject (mem_backend wall env) b k None db') = Ok obj \<and> ob_Contents obj = body \<and>
      ob_Size obj = int (length body) \<and> ob_Hash obj = env_md5 env body \<and> \<not> ob_IsDeleteMarker obj \<and>
      ob_Range obj = None \<and> mem_has_bucket db' b"
    by (fastforce simp: mem_accepts_def mem_has_bucket_def)
qed

lemmas http_put_get = server.server_put_get [folded mem_server_def, OF TrueI]
lemmas getObject_found = server.getObject_found [folded mem_server_def, OF _ TrueI]
lemmas createObject_plain = server.createObject_plain [folded mem_server_def, OF _ _ _ TrueI]
lemmas http_put = server.server_put [folded mem_server_def, OF TrueI]

end

end
