(* ===== verification/ServerProperties.thy ===== *)
theory ServerProperties
  imports MemServer MemProperties UploaderProperties
begin

text \<open>
  The properties of the HTTP server: of the handlers over any back end, and of the whole server over
  the in-memory back end, with witnesses on concrete requests.
\<close>

section \<open>A concrete server\<close>

definition demo_senv :: server_env where
  "demo_senv =
     \<lparr>se_md5 = env_md5 demo_env, se_b64_encode = (\<lambda>s. s), se_b64_decode = Some,
      se_b64url_encode = (\<lambda>s. s), se_b64url_decode = Some, se_formatTime = (\<lambda>_. ''Thu, 01 Jan 1970 00:00:00''),
      se_parseHttpTime = (\<lambda>_. None), se_parseAmzTime = (\<lambda>_. None), se_decodeDelete = (\<lambda>_. Inr ''EOF''),
      se_unmarshalComplete = (\<lambda>_. Inr ''EOF''), se_unmarshalVersioning = (\<lambda>_. Inr ''EOF''),
      se_ParseMultipartForm = (\<lambda>_. None)\<rparr>"

definition demo_server where
  "demo_server = mem_server 0 demo_env demo_uploader"

definition demo_sv where
  "demo_sv = \<lparr>sv_requestID = 0, sv_world = (newUploader 0 :: (string \<times> uploadRef list) list uploader, demo_db0)\<rparr>"

definition demo_request :: "string \<Rightarrow> string \<Rightarrow> url_values \<Rightarrow> bytes \<Rightarrow> request" where
  "demo_request meth path hdr body =
     \<lparr>rq_Method = meth, rq_Host = ''localhost'', rq_Path = path, rq_Query = [], rq_Header = hdr,
      rq_ContentLength = int (length body), rq_Body = bytes_reader body, rq_TLS = False\<rparr>"

section \<open>Any back end\<close>

text \<open>
  C31: the answer to a request whose handler fails is one error document with the status of its error
  code and nothing else: no handler has sent anything when it fails. HEAD requests and answers with
  status 304 get the status without a document. The state behind the back end is the one the handler
  has left.
\<close>

theorem error_answer:
  assumes "dispatch env g now rq = Some h" "rw_sent w = None" "rw_body w = []"
    and "h (rw_Set_all (request_headers env (sv_requestID sv + 1)) w, sv_world sv) = (Err e, (w1, world))"
    and "code = (case err_ErrorCode e of None \<Rightarrow> ErrInternal | Some c \<Rightarrow> c)"
  shows "\<exists>w'. routeBase env g now rq w sv =
      ((Ok (), w'), sv\<lparr>sv_requestID := sv_requestID sv + 1, sv_world := world\<rparr>) \<and>
    rw_status w' = code_Status code \<and>
    rw_body w' = (if rq_Method rq \<noteq> ''HEAD'' \<and> body_allowed (code_Status code)
                  then [Raw xml_header, Doc (DError (ensureErrorResponse e ''''))] else [])"
proof -
  let ?w = "rw_Set_all (request_headers env (sv_requestID sv + 1)) w"
  have "rw_sent w1 = None \<and> rw_body w1 = rw_body ?w"
    using fails_dispatch [OF assms(1)] assms(2,4) unfolding fails_unsent_def
    by (metis fst_conv snd_conv rw_Set_all_sent(1))
  then have w1: "rw_sent w1 = None" "rw_body w1 = []" using assms(3) by simp_all
  obtain w2 where w2: "httpError rq e (w1, world) = (Ok (), (w2, world))"
    using httpError_answer(1,2) [OF w1(1), of rq e world] by (metis prod.collapse)
  note a = httpError_answer(3,4) [OF w1(1), of rq e world]
  have "routeBase env g now rq w sv =
      ((Ok (), w2), sv\<lparr>sv_requestID := sv_requestID sv + 1, sv_world := world\<rparr>)"
    using assms(1,4) w2 by (simp add: routeBase_def with_error_def Let_def)
  then show ?thesis using a w1(2) w2 assms(5) by auto
qed

lemma error_answer_witness:
  "\<exists>w' sv'. routeBase demo_senv demo_server 0 (demo_request ''GET'' ''/c/k'' [] []) new_response demo_sv =
     ((Ok (), w'), sv') \<and> rw_status w' = 404 \<and>
     rw_body w' = [Raw xml_header, Doc (DError (ensureErrorResponse (BucketNotFound ''c'') ''''))]"
proof -
  let ?rq = "demo_request ''GET'' ''/c/k'' [] []"
  let ?w = "rw_Set_all (request_headers demo_senv (sv_requestID demo_sv + 1)) new_response"
  have "object_request ''GET'' ''c'' ''k'' ?rq" by (simp add: object_request_def demo_request_def)
  from dispatch_object [OF this] have d: "dispatch demo_senv demo_server 0 ?rq =
      Some (routeObject demo_senv demo_server 0 ''c'' ''k'' ?rq)" .
  have c: "mem_bucket demo_db0 ''c'' = None"
    by (simp add: demo_db0_def mem_CreateBucket_def mem_New_def mem_bucket_def mem_set_bucket_def)
  have h: "routeObject demo_senv demo_server 0 ''c'' ''k'' ?rq (?w, sv_world demo_sv) =
      (Err (BucketNotFound ''c''), (?w, sv_world demo_sv))"
    by (simp add: routeObject_def demo_request_def getObject_def act_then_def act_bind_def on_world_def
        demo_server_def demo_sv_def mem_ensure mem_has_bucket_def c)
  show ?thesis
    using error_answer [OF d _ _ h refl]
    by (fastforce simp: new_response_def BucketNotFound_def ResourceError_def demo_request_def body_allowed_def)
qed

text \<open>
  C17: safe methods are safe. Over any back end whose reading operations do not change its state, and
  without buckets made on demand, a GET, HEAD or OPTIONS request leaves the state behind the server
  as it is, through all middlewares, handlers and error paths.
\<close>

theorem safe_methods:
  assumes "reading_backend g"
    and "rq_Method rq = ''GET'' \<or> rq_Method rq = ''HEAD'' \<or> rq_Method rq = ''OPTIONS''"
  shows "sv_world (snd (Server env g now rq w sv)) = sv_world sv"
  by (rule reading_backend.reads_Server [OF assms])

lemma safe_methods_witness:
  "sv_world (snd (Server demo_senv demo_server 0 (demo_request ''GET'' ''/b/k'' [] []) new_response demo_sv)) =
     sv_world demo_sv"
  using safe_methods [OF mem_reading.server.reading_backend_axioms, of "demo_request ''GET'' ''/b/k'' [] []"]
  unfolding demo_server_def mem_server_def by (simp add: demo_request_def)

text \<open>
  C34: a request whose clock differs from the server's by more than the limit is refused with status 403
  before anything else sees it: no handler runs, no request ID is used, and the state is kept.
\<close>

theorem skew_refused:
  assumes "header_get (rq_Header rq) ''x-amz-date'' \<noteq> ''''" "g_timeSkew g \<noteq> 0"
    and "skew = time_Sub now (amz_time env (header_get (rq_Header rq) ''x-amz-date''))"
    and "skew < - g_timeSkew g \<or> g_timeSkew g < skew"
  shows "\<exists>w'. Server env g now rq new_response sv = ((Ok (), w'), sv) \<and> rw_status w' = 403 \<and>
    (rq_Method rq \<noteq> ''HEAD'' \<longrightarrow> rw_body w' = [Raw xml_header,
       Doc (DError (ensureErrorResponse (requestTimeTooSkewed now (g_timeSkew g)) ''''))])"
proof -
  have skewed: "too_skewed env g now rq" using assms by (simp add: too_skewed_def Let_def)
  have s: "rw_sent new_response = None" "rw_body new_response = []" by (simp_all add: new_response_def)
  let ?e = "requestTimeTooSkewed now (g_timeSkew g)"
  have mid: "\<exists>w'. timeSkewMiddleware env g h now rq' new_response sv = ((Ok (), w'), sv) \<and> rw_status w' = 403 \<and>
    (rq_Method rq \<noteq> ''HEAD'' \<longrightarrow> rw_body w' = [Raw xml_header, Doc (DError (ensureErrorResponse ?e ''''))])"
    if "rq_Header rq' = rq_Header rq" "rq_Method rq' = rq_Method rq" for rq' h
  proof -
    obtain w' where w': "httpError rq' ?e (new_response, ()) = (Ok (), (w', ()))"
      using httpError_answer(1,2) [OF s(1), of rq' ?e "()"] by (metis prod.collapse)
    note a = httpError_answer(3,4) [OF s(1), of rq' ?e "()"]
    have "too_skewed env g now rq'" using skewed that(1) by (simp add: too_skewed_def)
    then show ?thesis
      using w' a s(2) that(2)
      by (intro exI [of _ w']) (simp add: timeSkewMiddleware_def requestTimeTooSkewed_def body_allowed_def)
  qed
  show ?thesis
    using mid [of rq] mid [of "bucket_path _ rq"] assms(2)
    by (auto simp: Server_def Let_def hostBucketMiddleware_def hostBucketBaseMiddleware_def bucket_path_def
        split: option.splits)
qed

lemma skew_refused_witness:
  "\<exists>w'. Server demo_senv demo_server 0
       (demo_request ''DELETE'' ''/b'' [(''X-Amz-Date'', [''yesterday''])] []) new_response demo_sv =
     ((Ok (), w'), demo_sv) \<and> rw_status w' = 403"
proof -
  let ?rq = "demo_request ''DELETE'' ''/b'' [(''X-Amz-Date'', [''yesterday''])] []"
  have h: "header_get (rq_Header ?rq) ''x-amz-date'' \<noteq> ''''"
    by (simp add: demo_request_def header_get_def vals_get_def)
  have "g_timeSkew demo_server < time_Sub 0 (amz_time demo_senv (header_get (rq_Header ?rq) ''x-amz-date''))"
    by (simp add: demo_server_def demo_senv_def amz_time_def zero_time_def time_Sub_def DefaultSkewLimit_def
        min_int64_def max_int64_def)
  then show ?thesis
    using skew_refused [OF h _ refl, of demo_server 0 demo_senv demo_sv]
    by (auto simp: demo_server_def DefaultSkewLimit_def)
qed

text \<open>
  Conditional requests. If the client names the ETag of the object in \<open>If-None-Match\<close>, the answer to a GET
  has status 304, no body, and the ETag among the headers that are sent.
\<close>

theorem not_modified_answer:
  assumes "dispatch env g now rq = Some (getObject env g b k vid rq)"
    and "ensureBucketExists g b (sv_world sv) = (Ok (), world1)"
    and "parseRangeHeader (header_get (rq_Header rq) ''Range'') = Ok rnge"
    and "get_from_backend g b k vid rnge world1 = (Ok obj, world2)"
    and "\<not> ob_IsDeleteMarker obj" "header_get (rq_Header rq) ''If-None-Match'' = object_etag obj"
  shows "\<exists>w'. routeBase env g now rq new_response sv =
      ((Ok (), w'), sv\<lparr>sv_requestID := sv_requestID sv + 1, sv_world := world2\<rparr>) \<and>
    rw_status w' = 304 \<and> rw_body w' = [] \<and> header_get (rw_sent_header w') ''ETag'' = object_etag obj"
proof -
  let ?start = "rw_Set_all (request_headers env (sv_requestID sv + 1)) new_response"
  let ?md = "rw_Set_all (object_metadata obj) ?start"
  let ?tagged = "rw_Set ''ETag'' (object_etag obj)
    (if ob_VersionID obj \<noteq> '''' then rw_Set ''x-amz-version-id'' (ob_VersionID obj) ?md else ?md)"
  have wr: "writeGetOrHeadObjectResponse env obj rq (w, y) = (Err (ECode ErrNotModified), (rw_Set ''ETag'' (object_etag obj)
      (if ob_VersionID obj \<noteq> '''' then rw_Set ''x-amz-version-id'' (ob_VersionID obj) (rw_Set_all (object_metadata obj) w)
       else rw_Set_all (object_metadata obj) w), y))" for w y
    using assms(5,6)
    by (simp add: writeGetOrHeadObjectResponse_def act_then_def act_bind_def on_writer_def act_if_def
        act_ok_def act_err_def)
  have h: "getObject env g b k vid rq (?start, sv_world sv) = (Err (ECode ErrNotModified), (?tagged, world2))"
    using assms(2-4) wr [of ?start world2] by (simp add: getObject_def act_then_def act_bind_def on_world_def act_res_def)
  have s: "rw_sent ?tagged = None" "rw_body ?tagged = []" by (simp_all add: new_response_def)
  have "httpError rq (ECode ErrNotModified) (?tagged, world2) =
      (Ok (), (snd (httpError rq (ECode ErrNotModified) (?tagged, world2))))"
    by (rule httpError_answer(1) [OF s(1)])
  moreover have "header_get (rw_sent_header (fst (snd (httpError rq (ECode ErrNotModified) (?tagged, world2)))))
      ''ETag'' = object_etag obj"
    using s by (simp add: httpError_def act_then_def xml_encode_def on_writer_def rw_WriteHeader_def
      rw_Write_def rw_sent_header_def act_ok_def Let_def act_bind_def header_get_set)
  ultimately show ?thesis
    using assms(1) h s httpError_answer(2-4) [OF s(1), of rq "ECode ErrNotModified" world2]
    by (auto simp: routeBase_def with_error_def Let_def body_allowed_def split: prod.splits)
qed

text \<open>A server whose back end holds one object, and a request that names its ETag.\<close>

definition demo_sv_lit where
  "demo_sv_lit = \<lparr>sv_requestID = 0, sv_world = (newUploader 0 :: (string \<times> uploadRef list) list uploader, demo_lit)\<rparr>"

definition demo_conditional :: request where
  "demo_conditional = demo_request ''GET'' ''/b/k'' [(''If-None-Match'', [quoted ''''])] []"

lemma demo_lit_bucket:
  "mem_bucket demo_lit ''b'' \<noteq> None"
  "bucket_object demo_env (the (mem_bucket demo_lit ''b'')) ''k'' =
     Some \<lparr>bo_name = ''k'', bo_data = Some demo_data, bo_versions = None\<rparr>"
  by (simp_all add: demo_lit_def mem_bucket_def bucket_object_def demo_env_def alist_skiplist_def)

lemma demo_lit_get:
  "mem_GetObject demo_env ''b'' ''k'' None demo_lit = (Ok
     \<lparr>ob_Name = ''k'', ob_Metadata = None, ob_Size = 5, ob_Contents = ''hello'', ob_Hash = '''',
      ob_Range = None, ob_VersionID = '''', ob_IsDeleteMarker = False\<rparr>, demo_lit)"
  by (simp add: mem_GetObject_def demo_lit_def mem_bucket_def current_data_def bucket_object_def demo_env_def
      alist_skiplist_def demo_data_def toObject_whole is_i64_def min_int64_def max_int64_def)

lemma not_modified_answer_witness:
  "\<exists>w' sv'. routeBase demo_senv demo_server 0 demo_conditional new_response demo_sv_lit = ((Ok (), w'), sv') \<and>
     rw_status w' = 304 \<and> rw_body w' = []"
proof -
  have rq: "object_request ''GET'' ''b'' ''k'' demo_conditional"
    by (simp add: object_request_def demo_conditional_def demo_request_def)
  note d = dispatch_get [OF rq, of demo_senv demo_server 0]
  have hdr: "header_get (rq_Header demo_conditional) ''Range'' = ''''"
    "header_get (rq_Header demo_conditional) ''If-None-Match'' = quoted ''''"
    by (simp_all add: demo_conditional_def demo_request_def header_get_def vals_get_def)
  have e: "ensureBucketExists demo_server ''b'' (sv_world demo_sv_lit) = (Ok (), sv_world demo_sv_lit)"
    using demo_lit_bucket(1) by (simp add: demo_server_def demo_sv_lit_def mem_ensure mem_has_bucket_def)
  have r: "parseRangeHeader (header_get (rq_Header demo_conditional) ''Range'') = Ok None"
    by (simp add: hdr parseRangeHeader_def)
  have g: "get_from_backend demo_server ''b'' ''k'' '''' None (sv_world demo_sv_lit) = (Ok
     \<lparr>ob_Name = ''k'', ob_Metadata = None, ob_Size = 5, ob_Contents = ''hello'', ob_Hash = '''',
      ob_Range = None, ob_VersionID = '''', ob_IsDeleteMarker = False\<rparr>, sv_world demo_sv_lit)"
    by (simp add: get_from_backend_def demo_server_def demo_sv_lit_def lift_backend_def on_storage_eq demo_lit_get)
  show ?thesis
    using not_modified_answer [OF d e r g] hdr(2) by (auto simp: object_etag_def hex_encode_def)
qed

section \<open>The server over the in-memory back end\<close>

text \<open>
  C15: PUT then GET over HTTP. A PUT of an object with a plain body of the announced size, a digest header that
  is absent or right, and metadata within the limit answers status 200 with the quoted MD5 of the body as
  ETag; a GET of the same path then answers status 200 with exactly this body, its length in
  \<open>Content-Length\<close>, and the same ETag.
\<close>

theorem http_put_then_get:
  assumes "s3mem_laws menv oentries oview ventries vview" "mem_bucket db b = Some bk"
    and "\<forall>obj. bucket_object menv bk k = Some obj \<longrightarrow> bo_data obj \<noteq> None"
    and "object_request ''PUT'' b k put" "plain_put env (mem_server wall menv uenv) now put body meta"
    and "object_request ''GET'' b k get" "plain_get env get"
    and "length k \<le> KeySizeLimit" "int (length body) \<le> max_int64" "se_md5 env = env_md5 menv"
    and "\<not> too_skewed env (mem_server wall menv uenv) now put"
    and "\<not> too_skewed env (mem_server wall menv uenv) now' get"
    and "Server env (mem_server wall menv uenv) now put new_response
           \<lparr>sv_requestID = n, sv_world = (u, db)\<rparr> = ((r1, w1), sv1)"
    and "Server env (mem_server wall menv uenv) now' get new_response sv1 = ((r2, w2), sv2)"
  shows "r1 = Ok () \<and> rw_status w1 = 200 \<and> rw_body w1 = [] \<and>
    header_get (rw_sent_header w1) ''ETag'' = quoted (hex_encode (se_md5 env body)) \<and>
    r2 = Ok () \<and> rw_status w2 = 200 \<and> rw_body w2 = (if body = [] then [] else [Raw body]) \<and>
    header_get (rw_sent_header w2) ''Content-Length'' = int_str (int (length body)) \<and>
    header_get (rw_sent_header w2) ''ETag'' = quoted (hex_encode (se_md5 env body))"
proof -
  have b: "mem_has_bucket db b" "mem_accepts menv db b k body meta"
    using assms(2,3,9) by (auto simp: mem_has_bucket_def mem_accepts_def split: option.splits)
  show ?thesis
    by (rule s3mem_laws.http_put_get [OF assms(1) b assms(4-8,10-14)])
qed

definition demo_put :: request where
  "demo_put = demo_request ''PUT'' ''/b/k'' [(''Content-Length'', [''5''])] ''hello''"

definition demo_get :: request where
  "demo_get = demo_request ''GET'' ''/b/k'' [] []"

lemma demo_requests:
  "object_request ''PUT'' ''b'' ''k'' demo_put" "object_request ''GET'' ''b'' ''k'' demo_get"
  "plain_get demo_senv demo_get"
  "plain_put demo_senv demo_server 0 demo_put ''hello''
     [(''Last-Modified'', ''Thu, 01 Jan 1970 00:00:00 GMT'')]"
  "\<not> too_skewed demo_senv demo_server 0 demo_put" "\<not> too_skewed demo_senv demo_server 0 demo_get"
  by (simp_all add: object_request_def demo_put_def demo_get_def demo_request_def plain_get_def header_get_def
      vals_get_def demo_senv_def plain_put_def parse_int_def has_prefix_def parse_digits_def is_digit_def
      digits_val_def digit_val_def metadataHeaders_def metadata_header_def formatHeaderTime_def
      metadataSize_def demo_server_def DefaultMetadataSizeLimit_def streaming_upload_def md5_header_def
      vals_has_def newHashingReader_expected_def too_skewed_def is_i64_def min_int64_def max_int64_def)

lemma http_put_then_get_witness:
  "\<exists>w1 sv1 w2 sv2. Server demo_senv demo_server 0 demo_put new_response demo_sv = ((Ok (), w1), sv1) \<and>
     Server demo_senv demo_server 0 demo_get new_response sv1 = ((Ok (), w2), sv2) \<and>
     rw_status w2 = 200 \<and> rw_body w2 = [Raw ''hello'']"
proof -
  obtain r1 w1 sv1 where 1: "Server demo_senv demo_server 0 demo_put new_response demo_sv = ((r1, w1), sv1)"
    by (metis prod.collapse)
  obtain r2 w2 sv2 where 2: "Server demo_senv demo_server 0 demo_get new_response sv1 = ((r2, w2), sv2)"
    by (metis prod.collapse)
  note l = http_put_then_get [OF demo_laws demo_bucket0 _ demo_requests(1) demo_requests(4) [unfolded demo_server_def]
      demo_requests(2,3) _ _ _ demo_requests(5,6) [unfolded demo_server_def]
      1 [unfolded demo_server_def demo_sv_def] 2 [unfolded demo_server_def]]
  have "se_md5 demo_senv = env_md5 demo_env" by (simp add: demo_senv_def)
  then show ?thesis
    using l demo_object0 [of "''k''", unfolded demo_bucket0, simplified] 1 2
    by (auto simp: KeySizeLimit_def max_int64_def)
qed

section \<open>Behaviours worth knowing\<close>

text \<open>
  A forced deletion reports a failure. With the header \<open>x-minio-force-delete\<close> the handler first removes the
  bucket with everything in it and then asks the back end to delete it again: the client is told that
  there is no such bucket although its bucket has just been removed; no other bucket is touched.
\<close>

theorem force_delete_reports_missing:
  assumes "mem_bucket db b \<noteq> None" "header_get (rq_Header rq) ''x-minio-force-delete'' = ''true''"
  shows "\<exists>db'. deleteBucket (mem_server wall menv uenv) b rq (w, (u, db)) =
      (Err (ECode ErrNoSuchBucket), (w, (u, db'))) \<and>
    mem_bucket db' b = None \<and> (\<forall>b'. b' \<noteq> b \<longrightarrow> mem_bucket db' b' = mem_bucket db b')"
proof -
  let ?db = "db\<lparr>db_buckets := AList.delete b (db_buckets db)\<rparr>"
  have f: "mem_ForceDeleteBucket b db = (Ok (), ?db)"
    using assms(1) by (auto simp: mem_ForceDeleteBucket_def)
  have d: "mem_bucket ?db b' = (if b' = b then None else mem_bucket db b')" for b'
    by (simp add: mem_bucket_def delete_conv)
  then have "mem_DeleteBucket menv b ?db = (Err (ECode ErrNoSuchBucket), ?db)"
    by (simp add: mem_DeleteBucket_def)
  then have "deleteBucket (mem_server wall menv uenv) b rq (w, (u, db)) =
      (Err (ECode ErrNoSuchBucket), (w, (u, ?db)))"
    using assms(2) f
    by (simp add: deleteBucket_def act_then_def act_bind_def on_world_def act_if_def
        mem_ensure mem_has_bucket_def assms(1) lift_backend_def on_storage_eq)
  then show ?thesis using d by auto
qed

definition demo_force_delete :: request where
  "demo_force_delete = demo_request ''DELETE'' ''/b'' [(''X-Minio-Force-Delete'', [''true''])] []"

lemma force_delete_reports_missing_witness:
  "\<exists>db'. deleteBucket demo_server ''b'' demo_force_delete
      (new_response, (newUploader 0 :: (string \<times> uploadRef list) list uploader, demo_lit)) =
      (Err (ECode ErrNoSuchBucket),
       (new_response, (newUploader 0 :: (string \<times> uploadRef list) list uploader, db'))) \<and>
    mem_bucket db' ''b'' = None"
proof -
  have "header_get (rq_Header demo_force_delete) ''x-minio-force-delete'' = ''true''" by code_simp
  from force_delete_reports_missing [OF demo_lit_bucket(1) this] show ?thesis
    unfolding demo_server_def by blast
qed

text \<open>
  The continuation token of a listing leads to the next page. When the response of a ListObjectsV2 request
  carries a token, a request with this token asks the back end for the page behind the last key that
  was returned, with the same number of keys, whatever else its query contains (but a marker of
  version 1).
\<close>

theorem continuation_roundtrip:
  assumes "\<forall>s. se_b64url_decode env (se_b64url_encode env s) = Some s"
    and "listBucketPageFromQuery env q = Ok page"
    and "l2_NextContinuationToken (list_result_v2 env q b p page objects) = token" "token \<noteq> ''''"
    and "vals_get q' ''continuation-token'' = token" "\<not> vals_has q' ''marker''"
    and "vals_get q' ''max-keys'' = vals_get q ''max-keys''"
  shows "listBucketPageFromQuery env q' =
      Ok \<lparr>pg_Marker = ol_NextMarker objects, pg_HasMarker = True, pg_MaxKeys = pg_MaxKeys page\<rparr>"
proof -
  have token: "token = se_b64url_encode env (ol_NextMarker objects)"
    using assms(3,4) by (auto simp: list_result_v2_def Let_def split: if_splits)
  have has: "vals_has q' ''continuation-token''"
    using assms(4,5) by (auto simp: vals_has_def vals_get_def split: option.splits)
  have "parseClampedInt (vals_get q' ''max-keys'') DefaultMaxBucketKeys 0 MaxBucketKeys = Ok (pg_MaxKeys page)"
    using assms(2,7) by (auto simp: listBucketPageFromQuery_def rbind_eq_Ok split: if_splits option.splits)
  then show ?thesis
    using has assms(1,5,6) by (simp add: listBucketPageFromQuery_def token)
qed

lemma continuation_roundtrip_witness:
  "(let page = \<lparr>pg_Marker = '''', pg_HasMarker = False, pg_MaxKeys = 2\<rparr>;
        objects = \<lparr>ol_CommonPrefixes = [], ol_Contents = [], ol_IsTruncated = True, ol_NextMarker = ''k2'', ol_prefixes = []\<rparr>;
        q = [(''max-keys'', [''2''])];
        token = l2_NextContinuationToken (list_result_v2 demo_senv q ''b'' (NewPrefix None None) page objects)
    in listBucketPageFromQuery demo_senv (q @ [(''continuation-token'', [token])]) =
         Ok \<lparr>pg_Marker = ''k2'', pg_HasMarker = True, pg_MaxKeys = 2\<rparr>)"
proof -
  let ?page = "\<lparr>pg_Marker = '''', pg_HasMarker = False, pg_MaxKeys = 2\<rparr>"
  let ?objects = "\<lparr>ol_CommonPrefixes = [], ol_Contents = [], ol_IsTruncated = True, ol_NextMarker = ''k2'', ol_prefixes = []\<rparr>"
  let ?q = "[(''max-keys'', [''2''])]"
  have page: "listBucketPageFromQuery demo_senv ?q = Ok ?page" by code_simp
  have "l2_NextContinuationToken (list_result_v2 demo_senv ?q ''b'' (NewPrefix None None) ?page ?objects) = ''k2''"
    by (simp add: list_result_v2_def demo_senv_def Let_def)
  then show ?thesis
    using continuation_roundtrip [OF _ page refl, of "''b''" "NewPrefix None None" ?objects
        "?q @ [(''continuation-token'', [''k2''])]"]
    by (simp add: demo_senv_def vals_get_def vals_has_def)
qed

text \<open>
  A key that ends in a slash cannot be addressed. \<open>routeBase\<close> trims the slashes at both ends of the path, so
  a PUT of the folder marker \<open>k/\<close> is handled as a PUT of the object \<open>k\<close> of the same bucket and
  overwrites it.
\<close>

theorem trailing_slash_lost:
  assumes "rq_Method rq = ''PUT''" "rq_Path rq = ''/'' @ b @ ''/'' @ k @ ''/''" "rq_Query rq = []"
    and "b \<noteq> ''''" "CHR ''/'' \<notin> set b" "k \<noteq> ''''" "last k \<noteq> CHR ''/''"
  shows "dispatch env g now rq = Some (createObject env g now b k rq)"
proof -
  have "trim (p @ ''/'') ''/'' = trim p ''/''" if "p \<noteq> []" "last p \<noteq> CHR ''/''" for p
  proof -
    have "dropWhile (\<lambda>c. c = CHR ''/'') (p @ ''/'') = dropWhile (\<lambda>c. c = CHR ''/'') p @ ''/''"
      by (rule dropWhile_append1 [of "last p"]) (use that in auto)
    then show ?thesis by (simp add: trim_def trim_left_def trim_right_def)
  qed
  from this [of "''/'' @ b @ ''/'' @ k"] have "split_path (rq_Path rq) = split_path (''/'' @ b @ ''/'' @ k)"
    using assms(2,6,7) by (simp add: split_path_def)
  then have "split_path (rq_Path rq) = (b, k)" using split_path_object [OF assms(4-7)] by simp
  then show ?thesis
    using assms by (simp add: dispatch_def vals_get_def vals_has_def query_values_def versionFromQuery_def
        routeObject_def)
qed

lemma trailing_slash_lost_witness:
  "dispatch demo_senv demo_server 0 (demo_request ''PUT'' ''/b/k/'' [] []) =
     Some (createObject demo_senv demo_server 0 ''b'' ''k'' (demo_request ''PUT'' ''/b/k/'' [] []))"
  by (rule trailing_slash_lost) (simp_all add: demo_request_def)

text \<open>
  No XML answer tells its type. The encoder of the documents sends the XML header before it sets
  \<open>Content-Type\<close>, so the headers that are sent lack it unless the handler has set it before.
\<close>

lemma content_type_not_sent:
  assumes "rw_sent w = None"
  shows "header_get (rw_sent_header (fst (snd (xml_encode d (w, s))))) ''Content-Type'' =
      header_get (rw_header w) ''Content-Type'' \<and>
    rw_status (fst (snd (xml_encode d (w, s)))) = 200 \<and>
    rw_body (fst (snd (xml_encode d (w, s)))) = rw_body w @ [Raw xml_header, Doc d]"
  using assms
  by (simp add: xml_encode_def on_writer_def rw_Write_def rw_WriteHeader_def rw_Set_def rw_status_def
      rw_sent_header_def body_allowed_def Let_def)

end
