(* ===== verification/ChunkFacts.thy ===== *)
theory ChunkFacts
  imports Chunk
begin

text \<open>
  The chunked encoding of a streaming upload, and what \<open>chunked_Read\<close> delivers of it: with an inner
  reader that fills its buffer, exactly the stream that \<open>chunk_stream\<close> describes.
\<close>

section \<open>Encoding\<close>

definition crlf :: bytes where
  "crlf = [CHR 0x0D, CHR 0x0A]"

fun hex_str :: "nat \<Rightarrow> string" where
  "hex_str n = (if n < 16 then [hex_digit n] else hex_str (n div 16) @ [hex_digit (n mod 16)])"

declare hex_str.simps [simp del]

text \<open>A chunk with its header, as clients send it; \<open>sig\<close> is its signature of 64 digits.\<close>

definition chunk_frame :: "string \<Rightarrow> bytes \<Rightarrow> bytes" where
  "chunk_frame sig body =
     hex_str (length body) @ '';chunk-signature='' @ sig @ crlf @ body @ crlf"

definition chunk_body :: "(string \<times> bytes) list \<Rightarrow> string \<Rightarrow> bytes" where
  "chunk_body chunks lastSig = concat (map (\<lambda>(sig, b). chunk_frame sig b) chunks) @ chunk_frame lastSig []"

lemma hex_val_digit: "d < 16 \<Longrightarrow> hex_val (hex_digit d) = Some d"
  by (auto simp: hex_val_def hex_digit_def Let_def)

lemma hex_str_digits: "\<forall>c \<in> set (hex_str n). hex_val c \<noteq> None"
  by (induction n rule: hex_str.induct) (subst hex_str.simps, auto simp: hex_val_digit)

lemma hex_str_nonempty: "hex_str n \<noteq> []"
  by (subst hex_str.simps) simp

lemma hex_value_snoc: "hex_value (ds @ [c]) = 16 * hex_value ds + (case hex_val c of Some d \<Rightarrow> int d | None \<Rightarrow> 0)"
  by (simp add: hex_value_def)

lemma hex_value_str: "hex_value (hex_str n) = int n"
proof (induction n rule: hex_str.induct)
  case (1 n)
  show ?case
  proof (cases "n < 16")
    case True
    then show ?thesis by (subst hex_str.simps) (simp add: hex_value_def hex_val_digit)
  next
    case False
    then have "hex_value (hex_str n) = 16 * int (n div 16) + int (n mod 16)"
      using 1 by (subst hex_str.simps) (simp add: hex_value_snoc hex_val_digit)
    then show ?thesis by (simp add: zdiv_int zmod_int)
  qed
qed

lemma hex_not_special:
  "hex_val c \<noteq> None \<Longrightarrow> \<not> is_blank c \<and> c \<noteq> CHR 0x0A \<and> c \<noteq> CHR ''-'' \<and> c \<noteq> CHR ''+''"
  by (auto simp: hex_val_def is_blank_def Let_def)

lemma scan_size_frame:
  assumes "int n \<le> max_int64"
  shows "scan_size (hex_str n @ '';'' @ rest) = Scanned (int n) rest"
proof -
  obtain c cs where c: "hex_str n = c # cs" using hex_str_nonempty [of n] by (cases "hex_str n") auto
  have "hex_val c \<noteq> None" using hex_str_digits [of n] c by simp
  note special = hex_not_special [OF this]
  have semi: "hex_val (CHR '';'') = None" by (simp add: hex_val_def)
  have take: "takeWhile (\<lambda>c. hex_val c \<noteq> None) (hex_str n @ CHR '';'' # rest) = hex_str n"
    using hex_str_digits [of n] semi by (simp add: takeWhile_append2)
  have "is_i64 (int n)" using assms by (simp add: is_i64_def min_int64_def)
  then show ?thesis
    using c special take hex_value_str [of n]
    by (simp add: scan_size_def Let_def scan_semicolon_def)
qed

section \<open>The stream of an encoded body\<close>

lemma chunk_stream_crlf: "chunk_stream True (crlf @ bs) = chunk_stream False bs"
  by (subst (1 2) chunk_stream.simps) (simp add: crlf_def)

lemma chunk_stream_end: "chunk_stream False [] = ([], None)"
  by (subst chunk_stream.simps) (simp add: scan_size_def)

lemma chunk_stream_frame:
  assumes "length sig = 64" "int (length body) \<le> max_int64"
  shows "chunk_stream False (chunk_frame sig body @ rest) =
    (case chunk_stream False rest of (out, e) \<Rightarrow> (body @ out, e))"
proof -
  define hdr where "hdr = ''chunk-signature='' @ sig @ crlf"
  have hdr: "length hdr = chunk_signature"
    using assms(1) by (simp add: hdr_def chunk_signature_def crlf_def)
  have "chunk_frame sig body @ rest = hex_str (length body) @ '';'' @ (hdr @ body @ crlf @ rest)"
    by (simp add: chunk_frame_def hdr_def)
  then have "scan_size (chunk_frame sig body @ rest) = Scanned (int (length body)) (hdr @ body @ crlf @ rest)"
    using scan_size_frame [OF assms(2)] by simp
  then show ?thesis
    using hdr by (subst chunk_stream.simps) (simp add: chunk_stream_crlf Let_def)
qed

lemma chunk_stream_body:
  assumes "\<forall>(sig, b) \<in> set chunks. length sig = 64 \<and> int (length b) \<le> max_int64" "length lastSig = 64"
  shows "chunk_stream False (chunk_body chunks lastSig) = (concat (map snd chunks), None)"
  using assms(1)
proof (induction chunks)
  case Nil
  show ?case
    using chunk_stream_frame [of lastSig "[]" "[]"] assms(2)
    by (simp add: chunk_body_def chunk_stream_end max_int64_def)
next
  case (Cons c chunks)
  obtain sig b where c: "c = (sig, b)" by (cases c)
  then have "chunk_body (c # chunks) lastSig = chunk_frame sig b @ chunk_body chunks lastSig"
    by (simp add: chunk_body_def)
  then show ?case using Cons c by (simp add: chunk_stream_frame)
qed

section \<open>What Read delivers\<close>

text \<open>The bytes that are still to be delivered, and how the stream ends.\<close>

definition remaining :: "chunkedReader \<Rightarrow> bytes \<times> s3error option" where
  "remaining r =
     (if 0 < cr_chunkRemain r then
        (if int (length (cr_inner r)) < cr_chunkRemain r then (cr_inner r, None)
         else case chunk_stream True (drop (nat (cr_chunkRemain r)) (cr_inner r)) of
                (out, e) \<Rightarrow> (take (nat (cr_chunkRemain r)) (cr_inner r) @ out, e))
      else chunk_stream (cr_notFirstChunk r) (cr_inner r))"

definition stream_error :: "s3error option \<Rightarrow> s3error option \<Rightarrow> s3error" where
  "stream_error innerErr e = (case e of Some x \<Rightarrow> x | None \<Rightarrow> end_error innerErr)"

text \<open>One \<open>Read\<close> of \<open>n\<close> bytes from a reader with \<open>s\<close> still to deliver.\<close>

definition read_spec ::
    "s3error option \<Rightarrow> nat \<Rightarrow> bytes \<times> s3error option \<Rightarrow> (bytes \<times> s3error option) \<times> chunkedReader \<Rightarrow> bool" where
  "read_spec innerErr n s res \<longleftrightarrow>
     fst (fst res) = take n (fst s) \<and>
     (if n \<le> length (fst s)
      then snd (fst res) = None \<and> remaining (snd res) = (drop n (fst s), snd s)
      else snd (fst res) = Some (stream_error innerErr (snd s)))"

lemma remaining_header:
  assumes "cr_chunkRemain r \<le> 0" "cr_notFirstChunk r \<longrightarrow> 2 \<le> length (cr_inner r)"
    and "scan_size (if cr_notFirstChunk r then drop 2 (cr_inner r) else cr_inner r) = Scanned n rest"
    and "chunk_signature \<le> length rest"
  shows "remaining r = remaining
    (r\<lparr>cr_inner := drop chunk_signature rest, cr_chunkRemain := n, cr_notFirstChunk := True\<rparr>)"
  using assms
  by (cases "cr_notFirstChunk r"; cases "0 < n")
    (auto simp: remaining_def chunk_stream.simps [of _ "cr_inner r"] Let_def nat_less_iff split: prod.splits)

lemma remaining_data:
  assumes "0 < cr_chunkRemain r" "cr_notFirstChunk r" "over = (int n < cr_chunkRemain r)"
    and "asked = (if over then n else nat (cr_chunkRemain r))" "k = min asked (length (cr_inner r))"
    and "r1 = r\<lparr>cr_inner := drop k (cr_inner r),
                cr_chunkRemain := cr_chunkRemain r - int (if over then n else k)\<rparr>"
    and "remaining r = (out, e)"
  shows "remaining r1 = (drop k out, e) \<and> k \<le> length out \<and> k \<le> n \<and> take k out = take k (cr_inner r)"
proof (cases "int (length (cr_inner r)) < cr_chunkRemain r")
  case True
  then have "out = cr_inner r" "e = None" using assms(1,7) by (simp_all add: remaining_def)
  then show ?thesis using True assms(1-6) by (cases over) (auto simp: remaining_def min_def)
next
  case False
  let ?m = "nat (cr_chunkRemain r)"
  obtain o' where o': "chunk_stream True (drop ?m (cr_inner r)) = (o', e)" "out = take ?m (cr_inner r) @ o'"
    using False assms(1,7) by (auto simp: remaining_def split: prod.splits)
  show ?thesis
  proof (cases over)
    case True
    then have k: "k = n" "n < ?m" "?m \<le> length (cr_inner r)" using False assms(3-5) by auto
    then have "drop (?m - n) (drop n (cr_inner r)) = drop ?m (cr_inner r)" by simp
    moreover have "nat (cr_chunkRemain r - int n) = ?m - n" by simp
    ultimately show ?thesis
      using True k o' assms(1,6) False by (auto simp: remaining_def drop_take min_def)
  next
    case notover: False
    then have k: "k = ?m" "?m \<le> length (cr_inner r)" using False assms(4,5) by auto
    then show ?thesis
      using notover o' assms(1-3,6) by (auto simp: remaining_def min_def)
  qed
qed

lemma read_spec_step:
  assumes "read_spec innerErr (n - k) (drop k out, e) ((xs, x), r)" "k \<le> n" "k \<le> length out"
  shows "read_spec innerErr n (out, e) ((take k out @ xs, x), r)"
proof -
  have "take n out = take k out @ take (n - k) (drop k out)"
    using assms(2) by (metis le_add_diff_inverse take_add)
  then show ?thesis using assms by (auto simp: read_spec_def split: if_splits)
qed

text \<open>
  With an inner reader that delivers what it is asked for as long as it has it, \<open>Read\<close> meets its
  specification.
\<close>

lemma chunked_Read_full:
  assumes "\<forall>asked. asked \<le> limit asked" "0 < cr_chunkRemain r \<longrightarrow> cr_notFirstChunk r"
  shows "read_spec innerErr n (remaining r) (chunked_Read limit innerErr n r)"
  using assms
proof (induction limit innerErr n r rule: chunked_Read.induct)
  case (1 limit innerErr n r)
  let ?rd = "chunked_Read limit innerErr"
  consider (nothing) "n = 0" | (empty) "0 < n" "0 < cr_chunkRemain r" "cr_inner r = []"
    | (data) "0 < n" "0 < cr_chunkRemain r" "cr_inner r \<noteq> []" | (header) "0 < n" "\<not> 0 < cr_chunkRemain r"
    by auto
  then show ?case
  proof cases
    case nothing
    then show ?thesis by (simp add: chunked_Read.simps read_spec_def)
  next
    case empty
    then show ?thesis by (simp add: chunked_Read.simps read_spec_def remaining_def stream_error_def)
  next
    case data
    define over where "over = (int n < cr_chunkRemain r)"
    define asked where "asked = (if over then n else nat (cr_chunkRemain r))"
    define k where "k = delivered limit (cr_inner r) asked"
    define r1 where "r1 = r\<lparr>cr_inner := drop k (cr_inner r),
      cr_chunkRemain := cr_chunkRemain r - int (if over then n else k)\<rparr>"
    have asked: "0 < asked" using data by (simp add: asked_def)
    then have k: "k = min asked (length (cr_inner r))"
      using data(3) 1(3) [rule_format, of asked] by (cases "cr_inner r") (simp_all add: k_def delivered_def min_def max_def)
    obtain out e where rem: "remaining r = (out, e)" by fastforce
    have nf: "cr_notFirstChunk r" using 1(4) data(2) by simp
    have d: "remaining r1 = (drop k out, e)" "k \<le> length out" "k \<le> n" "take k out = take k (cr_inner r)"
      using remaining_data [OF data(2) nf over_def asked_def k r1_def rem] by simp_all
    have "read_spec innerErr (n - k) (remaining r1) (?rd (n - k) r1)"
      by (rule 1(1) [OF _ data(2) over_def asked_def data(3) k_def r1_def 1(3)]) (use data nf in \<open>simp_all add: r1_def\<close>)
    moreover obtain xs x r2 where r2: "?rd (n - k) r1 = ((xs, x), r2)" by (metis prod.collapse)
    ultimately have "read_spec innerErr n (out, e) ((take k out @ xs, x), r2)"
      using read_spec_step [of innerErr n k out e xs x r2] d by simp
    moreover have "?rd n r = ((take k (cr_inner r) @ xs, x), r2)"
      using data r2 unfolding r1_def k_def asked_def over_def
      by (subst chunked_Read.simps) (simp add: Let_def)
    ultimately show ?thesis using d(4) rem by simp
  next
    case header
    let ?bs = "if cr_notFirstChunk r then drop 2 (cr_inner r) else cr_inner r"
    show ?thesis
    proof (cases "cr_notFirstChunk r \<and> length (cr_inner r) < 2")
      case True
      then show ?thesis using header
        by (simp add: chunked_Read.simps [of _ _ n] read_spec_def remaining_def stream_error_def
            chunk_stream.simps [of _ "cr_inner r"])
    next
      case False
      show ?thesis
      proof (cases "scan_size ?bs")
        case (Scanned m rest)
        show ?thesis
        proof (cases "length rest < chunk_signature")
          case True
          then show ?thesis using header False Scanned
            by (simp add: chunked_Read.simps [of _ _ n] read_spec_def remaining_def stream_error_def
                chunk_stream.simps [of _ "cr_inner r"] Let_def)
        next
          case short: False
          let ?r = "r\<lparr>cr_inner := drop chunk_signature rest, cr_chunkRemain := m, cr_notFirstChunk := True\<rparr>"
          have f: "(cr_notFirstChunk r \<and> length (cr_inner r) < 2) = False" using False by simp
          have "?rd n r = ?rd n ?r"
            using header Scanned short f by (subst chunked_Read.simps) (simp add: Let_def, blast)
          moreover have "remaining r = remaining ?r"
            by (rule remaining_header) (use header False Scanned short in auto)
          moreover have "read_spec innerErr n (remaining ?r) (?rd n ?r)"
            by (rule 1(2) [OF _ header(2) False refl Scanned short 1(3)]) (use header in simp_all)
          ultimately show ?thesis by simp
        qed
      qed (use header False in \<open>auto simp: chunked_Read.simps [of _ _ n] read_spec_def remaining_def
          stream_error_def chunk_stream.simps [of _ "cr_inner r"] Let_def\<close>)
    qed
  qed
qed

section \<open>A sequence of Reads\<close>

lemma chunked_Read_started:
  "0 < cr_chunkRemain r \<longrightarrow> cr_notFirstChunk r \<Longrightarrow>
   0 < cr_chunkRemain (snd (chunked_Read limit innerErr n r)) \<longrightarrow>
   cr_notFirstChunk (snd (chunked_Read limit innerErr n r))"
proof (induction limit innerErr n r rule: chunked_Read.induct)
  case (1 limit innerErr n r)
  show ?case
    by (subst (1 2) chunked_Read.simps)
      (use 1 in \<open>auto simp: Let_def split: prod.splits scan.splits\<close>)
qed

text \<open>
  A client that reads with buffers of the given sizes until it gets an error, as \<open>io.ReadAll\<close> and
  \<open>io.Copy\<close> do.
\<close>

fun chunked_reads ::
    "(nat \<Rightarrow> nat) \<Rightarrow> s3error option \<Rightarrow> nat list \<Rightarrow> chunkedReader \<Rightarrow> bytes \<times> s3error option" where
  "chunked_reads limit innerErr [] r = ([], None)"
| "chunked_reads limit innerErr (n # ns) r =
     (case chunked_Read limit innerErr n r of
        ((out, Some e), r') \<Rightarrow> (out, Some e)
      | ((out, None), r') \<Rightarrow>
          (case chunked_reads limit innerErr ns r' of (outs, e) \<Rightarrow> (out @ outs, e)))"

lemma chunked_reads_spec:
  assumes "\<forall>asked. asked \<le> limit asked" "0 < cr_chunkRemain r \<longrightarrow> cr_notFirstChunk r"
    and "remaining r = (out, e)"
  shows "chunked_reads limit innerErr ns r =
    (if sum_list ns \<le> length out then (take (sum_list ns) out, None)
     else (out, Some (stream_error innerErr e)))"
  using assms(2,3)
proof (induction ns arbitrary: r out)
  case Nil
  show ?case by simp
next
  case (Cons n ns)
  obtain xs x r' where r': "chunked_Read limit innerErr n r = ((xs, x), r')" by (metis prod.collapse)
  have spec: "read_spec innerErr n (out, e) ((xs, x), r')"
    using chunked_Read_full [OF assms(1) Cons.prems(1), of innerErr n] Cons.prems(2) r' by simp
  show ?case
  proof (cases "n \<le> length out")
    case True
    then have x: "xs = take n out" "x = None" "remaining r' = (drop n out, e)"
      using spec by (simp_all add: read_spec_def)
    have "0 < cr_chunkRemain r' \<longrightarrow> cr_notFirstChunk r'"
      using chunked_Read_started [OF Cons.prems(1), of limit innerErr n] r' by simp
    from Cons.IH [OF this x(3)] show ?thesis
      using True r' x by (auto simp: take_add le_diff_conv2 add.commute)
  next
    case False
    then show ?thesis using spec r' by (auto simp: read_spec_def)
  qed
qed

definition new_chunked :: "bytes \<Rightarrow> chunkedReader" where
  "new_chunked bs = \<lparr>cr_inner = bs, cr_chunkRemain = 0, cr_notFirstChunk = False\<rparr>"

lemma new_chunked_simps [simp]:
  "\<not> 0 < cr_chunkRemain (new_chunked bs)" "remaining (new_chunked bs) = chunk_stream False bs"
  by (simp_all add: new_chunked_def remaining_def)

end
