(* ===== verification/ChunkProperties.thy ===== *)
theory ChunkProperties
  imports ChunkFacts
begin

text \<open>
  The properties of the reader of streaming uploads, with witnesses.
\<close>

text \<open>
  C18: \<open>Read\<close> implements the decoder. Over any bytes, well formed or not, and with an inner reader that
  fills its buffer while it has data, a client that reads with buffers of any sizes gets the decoded
  stream \<open>chunk_stream\<close> in order and without an error as long as it asks for no more than the stream
  holds; when it asks for more it gets all of it and then the error at which the stream ends. So
  describing the body by \<open>chunk_stream\<close>, as \<open>newChunkedReader\<close> does, is right for every way to read.
\<close>

theorem chunk_read_refines:
  assumes "\<forall>asked. asked \<le> limit asked" "chunk_stream False bs = (out, e)"
  shows "chunked_reads limit innerErr sizes (new_chunked bs) =
    (if sum_list sizes \<le> length out then (take (sum_list sizes) out, None)
     else (out, Some (stream_error innerErr e)))"
  by (rule chunked_reads_spec [OF assms(1)]) (use assms(2) in simp_all)

lemma chunk_read_refines_witness:
  "chunked_reads (\<lambda>n. n) None [1, 2, 3, 4] (new_chunked (chunk_frame (replicate 64 (CHR ''0'')) ''abcd'' @ ''zz'')) =
     (''abcd'', Some (EOther ''expected integer''))"
proof -
  have "chunk_stream False (chunk_frame (replicate 64 (CHR ''0'')) ''abcd'' @ ''zz'') =
      (''abcd'', Some (EOther ''expected integer''))"
    by (subst chunk_stream_frame)
      (simp_all add: max_int64_def, subst chunk_stream.simps,
        simp add: scan_size_def is_blank_def scan_error_def hex_val_def Let_def)
  from chunk_read_refines [of "\<lambda>n. n", OF _ this] show ?thesis by (simp add: stream_error_def)
qed

text \<open>
  C19: the round trip of the chunked encoding. A body that a client cuts into chunks, each with its size in
  hexadecimal, a signature of 64 digits, its bytes and a line break, with an empty chunk at the end,
  comes back byte for byte and ends as the inner reader ends, whatever the sizes of the chunks and
  of the buffers; the reader of the model that stands for it is the plain body.
\<close>

theorem chunk_roundtrip:
  assumes "\<forall>(sig, b) \<in> set chunks. length sig = 64 \<and> int (length b) \<le> max_int64" "length lastSig = 64"
    and "\<forall>asked. asked \<le> limit asked" "length (concat (map snd chunks)) < sum_list sizes"
  shows "chunked_reads limit innerErr sizes (new_chunked (chunk_body chunks lastSig)) =
      (concat (map snd chunks), Some (end_error innerErr)) \<and>
    newChunkedReader \<lparr>rd_bytes = chunk_body chunks lastSig, rd_err = innerErr\<rparr> =
      \<lparr>rd_bytes = concat (map snd chunks), rd_err = innerErr\<rparr>"
proof -
  note s = chunk_stream_body [OF assms(1,2)]
  have "chunked_reads limit innerErr sizes (new_chunked (chunk_body chunks lastSig)) =
      (concat (map snd chunks), Some (stream_error innerErr None))"
    using chunked_reads_spec [OF assms(3), of "new_chunked (chunk_body chunks lastSig)", OF _ , unfolded new_chunked_simps,
        OF _ s] assms(4) by simp
  then show ?thesis using s by (simp add: newChunkedReader_def stream_error_def)
qed

definition demo_chunks :: "(string \<times> bytes) list" where
  "demo_chunks = [(replicate 64 (CHR ''a''), ''hello ''), (replicate 64 (CHR ''b''), ''world'')]"

lemma chunk_roundtrip_witness:
  "chunked_reads (\<lambda>n. n) None [7, 7] (new_chunked (chunk_body demo_chunks (replicate 64 (CHR ''c'')))) =
     (''hello world'', Some io_EOF)"
  using chunk_roundtrip [of demo_chunks "replicate 64 (CHR ''c'')" "\<lambda>n. n" "[7, 7]" None]
  by (simp add: demo_chunks_def max_int64_def end_error_def)

text \<open>
  \<open>Read\<close> relies on an inner reader that fills its buffer. When the inner reader delivers one byte at
  a time, as a network connection may, a \<open>Read\<close> inside a chunk still takes the whole buffer off the
  bytes that remain in the chunk; the next \<open>Read\<close> looks for a chunk header in the middle of the data, and
  the upload that a full reader decodes fails.
\<close>

theorem short_reads_corrupt:
  "(let body = new_chunked (chunk_body [(replicate 64 (CHR ''a''), ''abcd'')] (replicate 64 (CHR ''b''))) in
     chunked_reads (\<lambda>n. n) None [3, 3] body = (''abcd'', Some io_EOF) \<and>
     chunked_reads (\<lambda>_. 1) None [3, 3] body = (''ab'', Some (EOther ''unexpected newline'')))"
  by code_simp

end
