(* ===== verification/CoreProperties.thy ===== *)
theory CoreProperties
  imports MemProperties Prefix Validation
begin

text \<open>
  The properties of the parts below the back ends: version IDs, key matching, bucket names and byte
  ranges, with witnesses.
\<close>

section \<open>Version IDs\<close>

fun next_versions :: "nat \<Rightarrow> version_source \<Rightarrow> string list" where
  "next_versions 0 src = []"
| "next_versions (Suc n) src = (let r = nextVersion src in fst r # next_versions n (snd r))"

definition new_source :: "64 word \<Rightarrow> int \<Rightarrow> version_source" where
  "new_source seed sz = (newVersionGenerator seed sz, [])"

lemma new_source_ok [simp]: "source_ok (new_source seed sz)" "source_count (new_source seed sz) = 0"
  by (simp_all add: new_source_def source_ok_def scratch_ok_def newVersionGenerator_def source_count_def)

lemma next_versions_above:
  assumes "source_ok src" "source_count src + n < 10 ^ 30"
  shows "sorted_wrt (<) (next_versions n src) \<and> '''' \<notin> set (next_versions n src) \<and>
    (\<forall>old. id_below old (source_count src) \<longrightarrow> (\<forall>vid \<in> set (next_versions n src). old < vid))"
  using assms
proof (induction n arbitrary: src)
  case 0
  show ?case by simp
next
  case (Suc n)
  obtain vid src' where n: "nextVersion src = (vid, src')" by (cases "nextVersion src")
  have count: "source_count src + 1 < 10 ^ 30" using Suc.prems(2) by simp
  note step = nextVersion_step [OF Suc.prems(1) count n]
  have "source_count src' + n < 10 ^ 30" using step(2) Suc.prems(2) by simp
  note ih = Suc.IH [OF step(1) this]
  have "id_below old (source_count src')" if "id_below old (source_count src)" for old
    using id_below_mono [OF that] step(2) by simp
  then show ?case using ih step(3-5) by (auto simp: n)
qed

text \<open>
  Version IDs are never reused and grow. The IDs that a back end hands out one after the other are not
  empty, all different, and each is greater in the order of strings than those before it, as the
  ordered version lists assume; so for the first \<open>10^30 - 1\<close> of them, whatever the seed and the
  pseudo-random part of the IDs.
\<close>

theorem version_ids_increasing:
  assumes "n < 10 ^ 30"
  shows "sorted_wrt (<) (next_versions n (new_source seed sz)) \<and> '''' \<notin> set (next_versions n (new_source seed sz)) \<and>
    distinct (next_versions n (new_source seed sz))"
proof -
  have s: "sorted_wrt (<) (next_versions n (new_source seed sz)) \<and> '''' \<notin> set (next_versions n (new_source seed sz))"
    using next_versions_above [of "new_source seed sz" n] assms by simp
  then have "distinct (next_versions n (new_source seed sz))"
    using strict_sorted_iff [of "next_versions n (new_source seed sz)"] by simp
  then show ?thesis using s by auto
qed

lemma version_ids_increasing_witness:
  "sorted_wrt (<) (next_versions 3 (new_source 7 0)) \<and> length (next_versions 3 (new_source 7 0)) = 3"
  using version_ids_increasing [of 3 7 0] by (simp add: numeral_3_eq_3 Let_def)

section \<open>Key matching\<close>

text \<open>
  C36: \<open>Match\<close> is the roll-up of S3. For a delimiter of one character and keys and prefixes that do not
  start with it, a key matches exactly when it starts with the prefix, its matched part ends with the
  first delimiter behind the prefix (or is the whole key if there is none), and it is a common prefix
  exactly when that part is not the whole key.
\<close>

theorem match_is_rollup:
  assumes "HasDelimiter p" "pfx_Delimiter p = [d]"
    and "key = [] \<or> hd key \<noteq> d" "pfx_Prefix p = [] \<or> hd (pfx_Prefix p) \<noteq> d"
  shows "prefix_Match p key =
    (if has_prefix key (pfx_Prefix p) then
       (let rest = drop (length (pfx_Prefix p)) key;
            part = pfx_Prefix p @ takeWhile (\<lambda>c. c \<noteq> d) rest @ (if d \<in> set rest then [d] else [])
        in Some \<lparr>pm_Key = key, pm_CommonPrefix = part \<noteq> key, pm_MatchedPart = part\<rparr>)
     else None)"
  by (subst prefix_Match_s3 [OF assms]) (simp add: s3_rollup_def Let_def)

lemma match_is_rollup_witness:
  "prefix_Match (NewFolderPrefix ''a/b'') ''a/bc/d/e'' =
     Some \<lparr>pm_Key = ''a/bc/d/e'', pm_CommonPrefix = True, pm_MatchedPart = ''a/bc/''\<rparr>"
  using match_is_rollup [of "NewFolderPrefix ''a/b''" "CHR ''/''" "''a/bc/d/e''"]
  by (simp add: NewFolderPrefix_def has_prefix_def)

section \<open>Bucket names\<close>

text \<open>
  What a bucket name is. \<open>ValidateBucketName\<close> accepts exactly the names of 3 to 63 characters that are not
  a dotted decimal address and whose dot-separated labels all have three characters or more, letters,
  digits and hyphens only, with a letter or a digit at both ends; everything else is answered with
  \<open>InvalidBucketName\<close>.
\<close>

theorem valid_bucket_names:
  "(ValidateBucketName name = None \<longleftrightarrow>
      3 \<le> length name \<and> length name \<le> 63 \<and> \<not> ParseIPv4 name \<and>
      list_all dns_label (split_char (CHR ''.'') name)) \<and>
   (ValidateBucketName name = None \<or>
    (\<exists>e. ValidateBucketName name = Some e \<and> err_ErrorCode e = Some ErrInvalidBucketName))"
  using ValidateBucketName_iff [of name] ValidateBucketName_code [of name]
  by (cases "ValidateBucketName name") (auto simp: list_all_iff)

section \<open>Byte ranges\<close>

text \<open>
  A range whose length overflows crashes the read. A header \<open>bytes=<first>-9223372036854775807\<close> whose first
  byte is inside the object but not its first passes every check: the length of the range is in
  bounds, but first byte plus length wraps to a negative number in 64-bit arithmetic, is not seen as
  beyond the end, and the read panics when it slices the body.
\<close>

theorem range_overflow_panics:
  assumes "mem_bucket db b = Some bk" "current_data env bk k = Ok d"
    and "1 \<le> first" "first < length (bd_body d)" "int (length (bd_body d)) \<le> max_int64"
  shows "\<exists>req. parseRangeHeader (''bytes='' @ nat_str first @ ''-'' @ nat_str (nat max_int64)) = Ok req \<and>
    mem_GetObject env b k req db = (Panic, db)"
proof -
  let ?req = "\<lparr>rr_Start = int first, rr_End = max_int64, rr_FromEnd = False\<rparr>"
  let ?n = "int (length (bd_body d))"
  have parse: "parseRangeHeader (''bytes='' @ nat_str first @ ''-'' @ nat_str (nat max_int64)) = Ok (Some ?req)"
    using assms(4,5) by (subst parseRangeHeader_first_last) (simp_all add: max_int64_def)
  have sz: "i64 ?n = ?n" using assms(5) by (simp add: is_i64_def min_int64_def)
  have len: "i64 (i64 (max_int64 - int first) + 1) = max_int64 - int first + 1"
    using assms(3-5) by (simp add: is_i64_def min_int64_def max_int64_def)
  have stop: "i64 (int first + (max_int64 - int first + 1)) = - (2 ^ 63)"
    by (simp add: i64_def max_int64_def)
  have "request_Range (Some ?req) ?n =
      Ok (Some \<lparr>or_Start = int first, or_Length = max_int64 - int first + 1\<rparr>)"
    using assms(3-5) len stop by (simp add: Let_def RangeNoEnd_def max_int64_def)
  then have "toObject d (Some ?req) True = Panic"
    using sz stop by (simp add: toObject_def go_slice_def)
  then have "mem_GetObject env b k (Some ?req) db = (Panic, db)"
    using assms(1,2) by (simp add: mem_GetObject_def)
  then show ?thesis using parse by blast
qed

lemma range_overflow_panics_witness:
  "\<exists>req. parseRangeHeader (''bytes='' @ nat_str 1 @ ''-'' @ nat_str (nat max_int64)) = Ok req \<and>
     mem_GetObject demo_env ''b'' ''k'' req demo_lit = (Panic, demo_lit)"
proof -
  have b: "mem_bucket demo_lit ''b'' = Some (the (mem_bucket demo_lit ''b''))"
    by (simp add: mem_bucket_def demo_lit_def)
  have "current_data demo_env (the (mem_bucket demo_lit ''b'')) ''k'' = Ok demo_data"
    by (simp add: current_data_def mem_bucket_def demo_lit_def bucket_object_def demo_env_def
        alist_skiplist_def demo_data_def)
  from range_overflow_panics [OF b this, of 1] show ?thesis
    by (simp add: demo_data_def max_int64_def)
qed

end
