(* ===== verification/Bolt.thy ===== *)
theory Bolt
  imports Skiplist Errors Backend
begin

text \<open>
  The third-party packages under \<open>backend/s3bolt\<close>: the key/value store \<open>bbolt\<close> and the encoding \<open>bson\<close>.
  Both are parameters: every definition that uses them takes the records of their operations. The
  locale \<open>bolt_laws\<close> states their documented behaviour over the observation \<open>view\<close>, the contents of a
  transaction as a map of buckets.

  A value of type \<open>'t\<close> is the data that a transaction works on, \<open>'c\<close> a cursor, \<open>'v\<close> an encoded document
  (a byte slice in the code, of which nothing but the decoding is used).
\<close>

section \<open>Operations\<close>

record ('t, 'c, 'v) bolt =
  bt_Bucket :: "'t \<Rightarrow> string \<Rightarrow> bool" \<comment> \<open>\<open>tx.Bucket(name) != nil\<close>\<close>
  bt_CreateBucket :: "string \<Rightarrow> 't \<Rightarrow> unit res \<times> 't"
  bt_CreateBucketIfNotExists :: "string \<Rightarrow> 't \<Rightarrow> unit res \<times> 't"
  bt_DeleteBucket :: "string \<Rightarrow> 't \<Rightarrow> unit res \<times> 't"
  bt_ForEach :: "'t \<Rightarrow> string list" \<comment> \<open>the names in the order of \<open>tx.ForEach\<close>\<close>
  bt_Get :: "'t \<Rightarrow> string \<Rightarrow> string \<Rightarrow> 'v option"
  bt_Put :: "string \<Rightarrow> string \<Rightarrow> 'v \<Rightarrow> 't \<Rightarrow> unit res \<times> 't"
  bt_Delete :: "string \<Rightarrow> string \<Rightarrow> 't \<Rightarrow> unit res \<times> 't"
  bt_First :: "'t \<Rightarrow> string \<Rightarrow> (string \<times> 'v) option \<times> 'c" \<comment> \<open>\<open>b.Cursor()\<close> and \<open>First\<close>\<close>
  bt_Next :: "'t \<Rightarrow> 'c \<Rightarrow> (string \<times> 'v) option \<times> 'c"
  bt_KeyN :: "'t \<Rightarrow> string \<Rightarrow> nat" \<comment> \<open>number of keys: the fuel of the loops, not used by the code\<close>
  bt_Commit :: "'t \<Rightarrow> s3error option" \<comment> \<open>the error of committing these data, if any\<close>

record boltObject =
  bx_Name :: string
  bx_Metadata :: "gomap option"
  bx_LastModified :: int
  bx_Size :: int
  bx_Contents :: bytes
  bx_Hash :: bytes

text \<open>The only field of a \<open>boltBucket\<close> is its creation date.\<close>

record boltBucket =
  bkt_CreationDate :: int

record 'v bson =
  bs_MarshalObject :: "boltObject \<Rightarrow> 'v res"
  bs_UnmarshalObject :: "'v \<Rightarrow> boltObject + string"
  bs_MarshalBucket :: "boltBucket \<Rightarrow> 'v res"
  bs_UnmarshalBucket :: "'v \<Rightarrow> boltBucket + s3error"

section \<open>Transactions\<close>

text \<open>
  \<open>db.Update\<close> commits the data the function leaves if it returns no error, and rolls back otherwise (also
  when it panics); \<open>db.View\<close> runs the function on read-only data.
\<close>

definition bolt_Update :: "('t, 'c, 'v) bolt \<Rightarrow> ('t \<Rightarrow> 'a res \<times> 't) \<Rightarrow> 't \<Rightarrow> 'a res \<times> 't" where
  "bolt_Update bolt f db =
     (case f db of
        (Ok x, t) \<Rightarrow> (case bt_Commit bolt t of None \<Rightarrow> (Ok x, t) | Some e \<Rightarrow> (Err e, db))
      | (r, t) \<Rightarrow> (r, db))"

text \<open>A cursor loop: \<open>for k, v := c.First(); k != nil; k, v = c.Next()\<close>.\<close>

datatype 'c cursor = Fresh string | At 'c

definition cursor_step ::
    "('t, 'c, 'v) bolt \<Rightarrow> 't \<Rightarrow> 'c cursor \<Rightarrow> (string \<times> 'v) option \<times> 'c cursor" where
  "cursor_step bolt t cur =
     (case (case cur of Fresh name \<Rightarrow> bt_First bolt t name | At c \<Rightarrow> bt_Next bolt t c) of
        (kv, c) \<Rightarrow> (kv, At c))"

lemmas bolt_defs [go_eval] = bolt_Update_def cursor_step_def

section \<open>Laws\<close>

text \<open>
  \<open>bson\<close> keeps times in milliseconds; it does not tell a nil map from an empty one; the keys of a map are
  C strings.
\<close>

definition bson_time :: "int \<Rightarrow> int" where
  "bson_time t = t div 1000000 * 1000000"

definition same_object :: "boltObject \<Rightarrow> boltObject \<Rightarrow> bool" where
  "same_object x y \<longleftrightarrow>
     bx_Name y = bx_Name x \<and> meta_map (bx_Metadata y) = meta_map (bx_Metadata x) \<and>
     bx_LastModified y = bson_time (bx_LastModified x) \<and> bx_Size y = bx_Size x \<and>
     bx_Contents y = bx_Contents x \<and> bx_Hash y = bx_Hash x"

definition plain_keys :: "boltObject \<Rightarrow> bool" where
  "plain_keys x \<longleftrightarrow> (\<forall>k \<in> dom (meta_map (bx_Metadata x)). CHR 0x00 \<notin> set k)"

locale bolt_laws =
  fixes bolt :: "('t, 'c, 'v) bolt" and bson :: "'v bson"
    and view :: "'t \<Rightarrow> string \<Rightarrow> (string \<Rightarrow> 'v option) option"
    and entries :: "'t \<Rightarrow> string \<Rightarrow> (string \<times> 'v) list"
    and cursor_of :: "'c \<Rightarrow> string" and fits :: "'v \<Rightarrow> bool"
  assumes Bucket: "bt_Bucket bolt t name \<longleftrightarrow> view t name \<noteq> None"
    and CreateBucket: "view t name = None \<Longrightarrow> name \<noteq> '''' \<Longrightarrow>
      \<exists>t'. bt_CreateBucket bolt name t = (Ok (), t') \<and> view t' = (view t)(name \<mapsto> Map.empty)"
    and CreateBucketIfNotExists: "name \<noteq> '''' \<Longrightarrow>
      \<exists>t'. bt_CreateBucketIfNotExists bolt name t = (Ok (), t') \<and>
        view t' = (if view t name = None then (view t)(name \<mapsto> Map.empty) else view t)"
    and DeleteBucket: "view t name \<noteq> None \<Longrightarrow>
      \<exists>t'. bt_DeleteBucket bolt name t = (Ok (), t') \<and> view t' = (view t)(name := None)"
    and ForEach: "set (bt_ForEach bolt t) = dom (view t)" "sorted_wrt (<) (bt_ForEach bolt t)"
    and Get: "view t name = Some m \<Longrightarrow> bt_Get bolt t name k = m k"
    and Put: "view t name = Some m \<Longrightarrow> bt_Put bolt name k v t = (Ok (), t') \<Longrightarrow>
      view t' = (view t)(name \<mapsto> m(k \<mapsto> v))"
    and Put_fails: "view t name = Some m \<Longrightarrow>
      bt_Put bolt name k v t = (r, t') \<Longrightarrow> r \<noteq> Ok () \<Longrightarrow> \<exists>e. r = Err e"
    and Put_fits: "view t name = Some m \<Longrightarrow> k \<noteq> '''' \<Longrightarrow> length k \<le> 32768 \<Longrightarrow> fits v \<Longrightarrow>
      fst (bt_Put bolt name k v t) = Ok ()"
    and Delete: "view t name = Some m \<Longrightarrow>
      \<exists>t'. bt_Delete bolt name k t = (Ok (), t') \<and> view t' = (view t)(name \<mapsto> m(k := None))"
    and entries: "view t name = Some m \<Longrightarrow> map_of (entries t name) = m"
      "view t name = Some m \<Longrightarrow> sorted_wrt (<) (map fst (entries t name))"
      "view t name = Some m \<Longrightarrow> bt_KeyN bolt t name = length (entries t name)"
    and cursor: "view t name = Some m \<Longrightarrow>
      \<exists>e. yields (cursor_step bolt t) (Fresh name) (entries t name) e"
    and First_key: "view t name = Some m \<Longrightarrow> bt_First bolt t name = (kv, c) \<Longrightarrow>
      cursor_of c = name \<and> (case kv of None \<Rightarrow> m = Map.empty | Some (k, v) \<Rightarrow> m k \<noteq> None)"
    and Next_key: "bt_Next bolt t c = (Some (k, v), c') \<Longrightarrow> view t (cursor_of c) = Some m \<Longrightarrow>
      m k \<noteq> None \<and> cursor_of c' = cursor_of c"
    and bson_object: "plain_keys x \<Longrightarrow>
      \<exists>v y. bs_MarshalObject bson x = Ok v \<and> bs_UnmarshalObject bson v = Inl y \<and> same_object x y"
    and bson_object_fails: "bs_MarshalObject bson x \<noteq> Panic" "bs_MarshalObject bson x \<noteq> NoFuel"
    and bson_bucket: "\<exists>v. bs_MarshalBucket bson b = Ok v \<and> fits v \<and>
      bs_UnmarshalBucket bson v = Inl \<lparr>bkt_CreationDate = bson_time (bkt_CreationDate b)\<rparr>"
begin

lemma view_entries_Nil: "view t name = Some m \<Longrightarrow> entries t name = [] \<longleftrightarrow> m = Map.empty"
  using entries(1) [of t name m] by auto

lemma entries_member:
  assumes "view t name = Some m"
  shows "(k, v) \<in> set (entries t name) \<longleftrightarrow> m k = Some v"
proof -
  have "distinct (map fst (entries t name))"
    using entries(2) [OF assms] by (simp add: strict_sorted_iff)
  then show ?thesis using entries(1) [OF assms] by (metis map_of_eq_Some_iff)
qed

end

section \<open>A reference store\<close>

text \<open>
  Association lists meet the laws; the witnesses of the development run the models on them. A cursor
  of this store is its bucket and the key it stands on.
\<close>

type_synonym doc = "boltObject + boltBucket"
type_synonym alist_db = "(string \<times> (string \<times> doc) list) list"

definition db_entries :: "alist_db \<Rightarrow> string \<Rightarrow> (string \<times> doc) list" where
  "db_entries t name = (case map_of t name of Some m \<Rightarrow> alist_entries m | None \<Rightarrow> [])"

definition db_at :: "string \<Rightarrow> (string \<times> doc) list \<Rightarrow> (string \<times> doc) option \<times> (string \<times> string)" where
  "db_at name es = (case es of [] \<Rightarrow> (None, (name, '''')) | (k, v) # _ \<Rightarrow> (Some (k, v), (name, k)))"

definition alist_bolt :: "(alist_db, string \<times> string, doc) bolt" where
  "alist_bolt =
     \<lparr>bt_Bucket = (\<lambda>t name. map_of t name \<noteq> None),
      bt_CreateBucket = (\<lambda>name t.
        if name = '''' then (Err (EOther ''bucket name required''), t)
        else if map_of t name \<noteq> None then (Err (EOther ''bucket already exists''), t)
        else (Ok (), AList.update name [] t)),
      bt_CreateBucketIfNotExists = (\<lambda>name t.
        if name = '''' then (Err (EOther ''bucket name required''), t)
        else (Ok (), if map_of t name = None then AList.update name [] t else t)),
      bt_DeleteBucket = (\<lambda>name t.
        if map_of t name = None then (Err (EOther ''bucket not found''), t)
        else (Ok (), AList.delete name t)),
      bt_ForEach = (\<lambda>t. map fst (alist_entries t)),
      bt_Get = (\<lambda>t name k. case map_of t name of Some m \<Rightarrow> map_of m k | None \<Rightarrow> None),
      bt_Put = (\<lambda>name k v t.
        if k = '''' then (Err (EOther ''key required''), t)
        else if 32768 < length k then (Err (EOther ''key too large''), t)
        else (Ok (), AList.update name
                (AList.update k v (case map_of t name of Some m \<Rightarrow> m | None \<Rightarrow> [])) t)),
      bt_Delete = (\<lambda>name k t.
        (Ok (), AList.update name
           (AList.delete k (case map_of t name of Some m \<Rightarrow> m | None \<Rightarrow> [])) t)),
      bt_First = (\<lambda>t name. db_at name (db_entries t name)),
      bt_Next = (\<lambda>t (name, k). db_at name (filter (\<lambda>e. k < fst e) (db_entries t name))),
      bt_KeyN = (\<lambda>t name. length (db_entries t name)),
      bt_Commit = (\<lambda>_. None)\<rparr>"

definition alist_bson :: "doc bson" where
  "alist_bson =
     \<lparr>bs_MarshalObject = (\<lambda>x. Ok (Inl (x\<lparr>bx_LastModified := bson_time (bx_LastModified x)\<rparr>))),
      bs_UnmarshalObject = (\<lambda>v. case v of Inl x \<Rightarrow> Inl x | Inr _ \<Rightarrow> Inl
        \<lparr>bx_Name = '''', bx_Metadata = None, bx_LastModified = 0, bx_Size = 0, bx_Contents = [],
         bx_Hash = []\<rparr>),
      bs_MarshalBucket = (\<lambda>x. Ok (Inr \<lparr>bkt_CreationDate = bson_time (bkt_CreationDate x)\<rparr>)),
      bs_UnmarshalBucket = (\<lambda>v. case v of Inr x \<Rightarrow> Inl x | Inl _ \<Rightarrow> Inr (EOther ''no bucket''))\<rparr>"

definition alist_view :: "alist_db \<Rightarrow> string \<Rightarrow> (string \<Rightarrow> doc option) option" where
  "alist_view t name = map_option map_of (map_of t name)"

lemma alist_entries_mem: "(k, v) \<in> set (alist_entries m) \<longleftrightarrow> map_of m k = Some v"
proof -
  have "distinct (map fst (alist_entries m))"
    using alist_entries_sorted [of m] by (simp add: strict_sorted_iff)
  then show ?thesis by (metis map_of_alist_entries map_of_eq_Some_iff)
qed

lemma alist_entries_keys: "set (map fst (alist_entries m)) = dom (map_of m)"
  using alist_entries_mem [of _ _ m] by (force simp: image_iff)

lemma db_entries_Some:
  assumes "map_of t name = Some m"
  shows "map_of (db_entries t name) = map_of m" "sorted_wrt (<) (map fst (db_entries t name))"
  using assms by (simp_all add: db_entries_def alist_entries_sorted)

lemma filter_after:
  assumes "sorted_wrt (<) (map fst (pre @ es :: ('k :: linorder \<times> 'v) list))" "pre \<noteq> []"
  shows "filter (\<lambda>e. fst (last pre) < fst e) (pre @ es) = es"
proof -
  obtain p x where p: "pre = p @ [x]" using assms(2) by (cases pre rule: rev_cases) auto
  have "\<forall>e \<in> set p. fst e < fst x" "\<forall>e \<in> set es. fst x < fst e"
    using assms(1) unfolding p by (auto simp: sorted_wrt_append)
  then have s: "\<forall>e \<in> set p. \<not> fst x < fst e" "\<forall>e \<in> set es. fst x < fst e"
    by (auto dest: order_less_asym)
  have "filter (\<lambda>e. fst x < fst e) p = []" by (rule filter_False) (use s in simp)
  moreover have "filter (\<lambda>e. fst x < fst e) es = es" by (rule filter_True) (use s in simp)
  ultimately have "filter (\<lambda>e. fst x < fst e) p = []" "filter (\<lambda>e. fst x < fst e) es = es"
    by simp_all
  then show ?thesis using p by simp
qed

lemma db_step:
  assumes "sorted_wrt (<) (map fst (pre @ es))" "db_entries t name = pre @ es"
    and "case cur of Fresh n \<Rightarrow> n = name \<and> pre = [] | At c \<Rightarrow> pre \<noteq> [] \<and> c = (name, fst (last pre))"
  shows "cursor_step alist_bolt t cur = (case db_at name es of (kv, c) \<Rightarrow> (kv, At c))"
  using assms filter_after [OF assms(1)]
  by (cases cur) (auto simp: cursor_step_def alist_bolt_def)

lemma db_cursor:
  assumes "sorted_wrt (<) (map fst (pre @ es))" "db_entries t name = pre @ es"
    and "case cur of Fresh n \<Rightarrow> n = name \<and> pre = [] | At c \<Rightarrow> pre \<noteq> [] \<and> c = (name, fst (last pre))"
  shows "\<exists>e. yields (cursor_step alist_bolt t) cur es e"
  using assms
proof (induction es arbitrary: pre cur)
  case Nil
  have "cursor_step alist_bolt t cur = (None, At (name, ''''))"
    using db_step [OF Nil] by (simp add: db_at_def)
  then show ?case by (metis yields_Nil)
next
  case (Cons x es)
  have "cursor_step alist_bolt t cur = (Some x, At (name, fst x))"
    using db_step [OF Cons.prems] by (cases x) (simp add: db_at_def)
  moreover have "\<exists>e. yields (cursor_step alist_bolt t) (At (name, fst x)) es e"
    using Cons.IH [of "pre @ [x]" "At (name, fst x)"] Cons.prems(1,2) by simp
  ultimately show ?case by (metis yields_Cons)
qed

lemma db_at_result:
  assumes "db_at name es = (kv, c)"
  shows "fst c = name" "kv = None \<longleftrightarrow> es = []" "kv = Some x \<Longrightarrow> x \<in> set es"
  using assms by (auto simp: db_at_def split: list.splits)

interpretation alist_bolt:
  bolt_laws alist_bolt alist_bson alist_view db_entries fst "\<lambda>_. True"
proof
  fix t t' :: alist_db and name k :: string and v :: doc and m r kv and c c' :: "string \<times> string"
  show "bt_Bucket alist_bolt t name \<longleftrightarrow> alist_view t name \<noteq> None"
    by (simp add: alist_bolt_def alist_view_def)
  show "set (bt_ForEach alist_bolt t) = dom (alist_view t)" "sorted_wrt (<) (bt_ForEach alist_bolt t)"
    using alist_entries_keys [of t] alist_entries_sorted [of t]
    by (simp_all add: alist_bolt_def alist_view_def dom_def)
  show "\<exists>t'. bt_CreateBucketIfNotExists alist_bolt name t = (Ok (), t') \<and>
      alist_view t' = (if alist_view t name = None then (alist_view t)(name \<mapsto> Map.empty) else alist_view t)"
    if "name \<noteq> ''''"
    using that by (auto simp: alist_bolt_def alist_view_def update_conv)
  {
    assume m: "alist_view t name = Some m"
    then obtain a where a: "map_of t name = Some a" "m = map_of a" by (auto simp: alist_view_def)
    show "map_of (db_entries t name) = m" "sorted_wrt (<) (map fst (db_entries t name))"
      using db_entries_Some [OF a(1)] a(2) by simp_all
    show "bt_KeyN alist_bolt t name = length (db_entries t name)" by (simp add: alist_bolt_def)
    show "bt_Get alist_bolt t name k = m k" using a by (simp add: alist_bolt_def)
    show "alist_view t' = (alist_view t)(name \<mapsto> m(k \<mapsto> v))" if "bt_Put alist_bolt name k v t = (Ok (), t')"
      using that a by (auto simp: alist_bolt_def alist_view_def update_conv fun_upd_def split: if_splits)
    show "\<exists>e. r = Err e" if "bt_Put alist_bolt name k v t = (r, t')" "r \<noteq> Ok ()"
      using that by (auto simp: alist_bolt_def split: if_splits)
    show "fst (bt_Put alist_bolt name k v t) = Ok ()" if "k \<noteq> ''''" "length k \<le> 32768" "True"
      using that by (simp add: alist_bolt_def)
    show "\<exists>t'. bt_Delete alist_bolt name k t = (Ok (), t') \<and> alist_view t' = (alist_view t)(name \<mapsto> m(k := None))"
      using a by (auto simp: alist_bolt_def alist_view_def update_conv delete_conv)
    show "\<exists>e. yields (cursor_step alist_bolt t) (Fresh name) (db_entries t name) e"
      by (rule db_cursor [of "[]"]) (use db_entries_Some [OF a(1)] in simp_all)
    show "fst c = name \<and> (case kv of None \<Rightarrow> m = Map.empty | Some (k, v) \<Rightarrow> m k \<noteq> None)"
      if "bt_First alist_bolt t name = (kv, c)"
    proof -
      have d: "db_at name (db_entries t name) = (kv, c)" using that by (simp add: alist_bolt_def)
      note e = db_at_result [OF d]
      have "(x, y) \<in> set (db_entries t name) \<longleftrightarrow> m x = Some y" for x y
        using alist_entries_mem [of x y a] a by (simp add: db_entries_def)
      moreover from this have "m = Map.empty" if "db_entries t name = []"
        using that by (intro ext) (metis empty_iff empty_set not_Some_eq)
      ultimately show ?thesis using e by (cases kv) auto
    qed
  }
  show "m k \<noteq> None \<and> fst c' = fst c"
    if "bt_Next alist_bolt t c = (Some (k, v), c')" "alist_view t (fst c) = Some m"
  proof -
    have d: "db_at (fst c) (filter (\<lambda>e. snd c < fst e) (db_entries t (fst c))) = (Some (k, v), c')"
      using that(1) by (simp add: alist_bolt_def split_beta)
    note e = db_at_result [OF d]
    have "(k, v) \<in> set (db_entries t (fst c))" using e(3) [of "(k, v)"] by simp
    then show ?thesis
      using e(1) that(2) by (auto simp: db_entries_def alist_view_def alist_entries_mem split: option.splits)
  qed
qed (auto simp: alist_bolt_def alist_bson_def alist_view_def same_object_def update_conv delete_conv)

end
