(* ===== verification/BoltBackend.thy ===== *)
theory BoltBackend
  imports Bolt Backend
begin

text \<open>
  \<open>backend/s3bolt\<close>: the back end over a \<open>bbolt\<close> file. Its state is the committed data and the reading of
  the clock that the next operation sees; every operation is one transaction but \<open>PutObject\<close>, which
  looks up the metadata of the existing object in a transaction of its own. A function of a
  transaction is an action on its data.
\<close>

record 't s3bolt =
  sb_bolt :: 't
  sb_now :: int

record ('t, 'c, 'v) s3bolt_env =
  bn_bolt :: "('t, 'c, 'v) bolt"
  bn_bson :: "'v bson"
  bn_md5 :: "bytes \<Rightarrow> bytes"

definition metaBucketName :: string where
  "metaBucketName = ''_meta''"

definition db_View :: "('t \<Rightarrow> 'a res) \<Rightarrow> ('t s3bolt, 'a) act" where
  "db_View f db = (f (sb_bolt db), db)"

definition db_Update :: "('t, 'c, 'v) s3bolt_env \<Rightarrow> (int \<Rightarrow> ('t, 'a) act) \<Rightarrow> ('t s3bolt, 'a) act" where
  "db_Update env f db =
     (case bolt_Update (bn_bolt env) (f (sb_now db)) (sb_bolt db) of (r, t) \<Rightarrow> (r, db\<lparr>sb_bolt := t\<rparr>))"

section \<open>The schema\<close>

definition bucketMetaKey :: "string \<Rightarrow> string" where
  "bucketMetaKey name = ''bucket/'' @ name"

definition boltObject_Object :: "boltObject \<Rightarrow> string \<Rightarrow> ObjectRangeRequest option \<Rightarrow> Object res" where
  "boltObject_Object b objectName rangeRequest =
     (let mk = (\<lambda>contents rnge.
        \<lparr>ob_Name = objectName, ob_Metadata = bx_Metadata b, ob_Size = bx_Size b, ob_Contents = contents,
         ob_Hash = bx_Hash b, ob_Range = rnge, ob_VersionID = '''', ob_IsDeleteMarker = False\<rparr>)
      in rbind (request_Range rangeRequest (bx_Size b))
           (\<lambda>rnge. case rnge of
              None \<Rightarrow> Ok (mk (bx_Contents b) None)
            | Some r \<Rightarrow>
                rbind (go_slice (bx_Contents b) (or_Start r) (i64 (or_Start r + or_Length r)))
                  (\<lambda>data. Ok (mk data rnge))))"

text \<open>\<open>metaBucket\<close> in a writable transaction makes the bucket; in a read-only one it may be nil.\<close>

definition metaBucket_writable :: "('t, 'c, 'v) s3bolt_env \<Rightarrow> ('t, unit) act" where
  "metaBucket_writable env = bt_CreateBucketIfNotExists (bn_bolt env) metaBucketName"

definition deleteS3Bucket :: "('t, 'c, 'v) s3bolt_env \<Rightarrow> string \<Rightarrow> ('t, unit) act" where
  "deleteS3Bucket env name = bt_Delete (bn_bolt env) metaBucketName (bucketMetaKey name)"

definition createS3Bucket :: "('t, 'c, 'v) s3bolt_env \<Rightarrow> string \<Rightarrow> int \<Rightarrow> ('t, unit) act" where
  "createS3Bucket env name at =
     act_bind (act_res (bs_MarshalBucket (bn_bson env) \<lparr>bkt_CreationDate = at\<rparr>))
       (bt_Put (bn_bolt env) metaBucketName (bucketMetaKey name))"

definition s3Bucket :: "('t, 'c, 'v) s3bolt_env \<Rightarrow> 't \<Rightarrow> string \<Rightarrow> boltBucket option res" where
  "s3Bucket env t name =
     (case bt_Get (bn_bolt env) t metaBucketName (bucketMetaKey name) of
        None \<Rightarrow> Ok None
      | Some bts \<Rightarrow>
          (case bs_UnmarshalBucket (bn_bson env) bts of Inl bb \<Rightarrow> Ok (Some bb) | Inr e \<Rightarrow> Err e))"

section \<open>Listings\<close>

definition bolt_info :: "('t, 'c, 'v) s3bolt_env \<Rightarrow> int \<Rightarrow> 't \<Rightarrow> string \<Rightarrow> BucketInfo res" where
  "bolt_info env now t name =
     rbind (if bt_Bucket (bn_bolt env) t metaBucketName then s3Bucket env t name else Ok None)
       (\<lambda>bucketInfo.
          let created = (case bucketInfo of Some b \<Rightarrow> bkt_CreationDate b | None \<Rightarrow> zero_time)
          in Ok \<lparr>bi_Name = name, bi_CreationDate = (if created = zero_time then now else created)\<rparr>)"

fun bolt_infos :: "('t, 'c, 'v) s3bolt_env \<Rightarrow> int \<Rightarrow> 't \<Rightarrow> string list \<Rightarrow> BucketInfo list res" where
  "bolt_infos env now t [] = Ok []"
| "bolt_infos env now t (name # names) =
     (if name = metaBucketName then bolt_infos env now t names
      else rbind (bolt_info env now t name)
             (\<lambda>info. rbind (bolt_infos env now t names) (\<lambda>infos. Ok (info # infos))))"

definition bolt_ListBuckets :: "('t, 'c, 'v) s3bolt_env \<Rightarrow> ('t s3bolt, BucketInfo list) act" where
  "bolt_ListBuckets env db =
     db_View (\<lambda>t. bolt_infos env (sb_now db) t (bt_ForEach (bn_bolt env) t)) db"

definition bolt_content :: "string \<Rightarrow> boltObject \<Rightarrow> Content" where
  "bolt_content key b =
     \<lparr>ct_Key = key, ct_LastModified = bx_LastModified b, ct_ETag = quoted (hex_encode (bx_Hash b)),
      ct_Size = bx_Size b, ct_StorageClass = '''', ct_Owner = None\<rparr>"

definition bolt_item ::
    "('t, 'c, 'v) s3bolt_env \<Rightarrow> Prefix \<Rightarrow> string \<times> 'v \<Rightarrow> ObjectList res \<Rightarrow> ObjectList res ctl" where
  "bolt_item env prefix kv st =
     (case kv of (key, v) \<Rightarrow>
        (case st of
           Ok objects \<Rightarrow>
             (case prefix_Match prefix key of
                None \<Rightarrow> Continue st
              | Some m \<Rightarrow>
                  if pm_CommonPrefix m then Continue (Ok (ol_AddPrefix objects (pm_MatchedPart m)))
                  else
                    (case bs_UnmarshalObject (bn_bson env) v of
                       Inr msg \<Rightarrow> Break (Err (EOther
                         (''gofakes3: could not unmarshal object '' @ quoted key @ '': '' @ msg)))
                     | Inl b \<Rightarrow> Continue (Ok (ol_Add objects (bolt_content key b)))))
         | _ \<Rightarrow> Break st))"

definition bolt_ListBucket ::
    "('t, 'c, 'v) s3bolt_env \<Rightarrow> string \<Rightarrow> Prefix option \<Rightarrow> ListBucketPage \<Rightarrow> ('t s3bolt, ObjectList) act" where
  "bolt_ListBucket env name prefix page =
     (let prefix = (case prefix of None \<Rightarrow> emptyPrefix | Some p \<Rightarrow> p)
      in if \<not> page_IsEmpty page then act_err (EInternalCode ErrInternalPageNotImplemented)
         else db_View (\<lambda>t.
           if \<not> bt_Bucket (bn_bolt env) t name then Err (BucketNotFound name)
           else
             (case go_range (Suc (bt_KeyN (bn_bolt env) t name)) (cursor_step (bn_bolt env) t)
                     (bolt_item env prefix) (Ok NewObjectList) (Fresh name) of
                None \<Rightarrow> NoFuel
              | Some (st, _) \<Rightarrow> st)))"

section \<open>Buckets\<close>

definition bolt_CreateBucket :: "('t, 'c, 'v) s3bolt_env \<Rightarrow> string \<Rightarrow> ('t s3bolt, unit) act" where
  "bolt_CreateBucket env name =
     db_Update env (\<lambda>now.
       act_bind (metaBucket_writable env)
         (\<lambda>_. act_bind (createS3Bucket env name now)
           (\<lambda>_ t. if bt_Bucket (bn_bolt env) t name
                   then (Err (ResourceError ErrBucketAlreadyExists name), t)
                   else bt_CreateBucket (bn_bolt env) name t)))"

definition bolt_DeleteBucket :: "('t, 'c, 'v) s3bolt_env \<Rightarrow> string \<Rightarrow> ('t s3bolt, unit) act" where
  "bolt_DeleteBucket env name =
     (if name = metaBucketName then act_err (ResourceError ErrInvalidBucketName name)
      else db_Update env (\<lambda>_ t.
        if \<not> bt_Bucket (bn_bolt env) t name then (Err (ECode ErrNoSuchBucket), t)
        else if fst (bt_First (bn_bolt env) t name) \<noteq> None then
          (Err (ResourceError ErrBucketNotEmpty name), t)
        else
          act_bind (metaBucket_writable env)
            (\<lambda>_. act_bind (deleteS3Bucket env name)
              (\<lambda>_. bt_DeleteBucket (bn_bolt env) name)) t))"

text \<open>
  The loop of \<open>ForceDeleteBucket\<close> deletes the key the cursor stands on and moves on; the fuel is the
  number of keys plus one, since each pass deletes one.
\<close>

fun delete_keys ::
    "('t, 'c, 'v) s3bolt_env \<Rightarrow> string \<Rightarrow> nat \<Rightarrow> 'c cursor \<Rightarrow> ('t, unit) act" where
  "delete_keys env name 0 cur t = (NoFuel, t)"
| "delete_keys env name (Suc n) cur t =
     (case cursor_step (bn_bolt env) t cur of
        (None, _) \<Rightarrow> (Ok (), t)
      | (Some (k, _), cur') \<Rightarrow>
          (case bt_Delete (bn_bolt env) name k t of
             (Ok _, t') \<Rightarrow> delete_keys env name n cur' t'
           | (Err _, t') \<Rightarrow>
               (Err (EOther (''gofakes3: delete failed for object '' @ quoted k @ '' in bucket '' @
                             quoted name)), t')
           | (r, t') \<Rightarrow> (r, t')))"

definition bolt_ForceDeleteBucket :: "('t, 'c, 'v) s3bolt_env \<Rightarrow> string \<Rightarrow> ('t s3bolt, unit) act" where
  "bolt_ForceDeleteBucket env name =
     (if name = metaBucketName then act_err (ResourceError ErrInvalidBucketName name)
      else db_Update env (\<lambda>_ t.
        if \<not> bt_Bucket (bn_bolt env) t name then (Err (BucketNotFound name), t)
        else
          act_bind (delete_keys env name (Suc (bt_KeyN (bn_bolt env) t name)) (Fresh name))
            (\<lambda>_. act_bind (metaBucket_writable env)
              (\<lambda>_. act_bind (deleteS3Bucket env name)
                (\<lambda>_. bt_DeleteBucket (bn_bolt env) name))) t))"

definition bolt_BucketExists :: "('t, 'c, 'v) s3bolt_env \<Rightarrow> string \<Rightarrow> ('t s3bolt, bool) act" where
  "bolt_BucketExists env name = db_View (\<lambda>t. Ok (bt_Bucket (bn_bolt env) t name))"

section \<open>Objects\<close>

definition bolt_GetObject ::
    "('t, 'c, 'v) s3bolt_env \<Rightarrow> string \<Rightarrow> string \<Rightarrow> ObjectRangeRequest option \<Rightarrow> ('t s3bolt, Object) act" where
  "bolt_GetObject env bucketName objectName rangeRequest =
     act_bind (db_View (\<lambda>t.
       if \<not> bt_Bucket (bn_bolt env) t bucketName then Err (BucketNotFound bucketName)
       else
         (case bt_Get (bn_bolt env) t bucketName objectName of
            None \<Rightarrow> Err (KeyNotFound objectName)
          | Some v \<Rightarrow>
              (case bs_UnmarshalObject (bn_bson env) v of
                 Inr msg \<Rightarrow> Err (EOther (''gofakes3: could not unmarshal object at '' @ quoted bucketName @
                                         ''/'' @ quoted objectName @ '': '' @ msg))
               | Inl b \<Rightarrow> Ok b))))
       (\<lambda>b. act_res (boltObject_Object b objectName rangeRequest))"

definition bolt_HeadObject ::
    "('t, 'c, 'v) s3bolt_env \<Rightarrow> string \<Rightarrow> string \<Rightarrow> ('t s3bolt, Object) act" where
  "bolt_HeadObject env bucketName objectName =
     act_bind (bolt_GetObject env bucketName objectName None) (\<lambda>obj. act_ok (obj\<lparr>ob_Contents := []\<rparr>))"

definition bolt_store ::
    "('t, 'c, 'v) s3bolt_env \<Rightarrow> string \<Rightarrow> string \<Rightarrow> gomap option \<Rightarrow> bytes \<Rightarrow> int \<Rightarrow> ('t, PutObjectResult) act" where
  "bolt_store env bucketName objectName meta bts now t =
     (if \<not> bt_Bucket (bn_bolt env) t bucketName then (Err (BucketNotFound bucketName), t)
      else
        act_bind (act_res (bs_MarshalObject (bn_bson env)
            \<lparr>bx_Name = objectName, bx_Metadata = meta, bx_LastModified = now,
             bx_Size = int (length bts), bx_Contents = bts, bx_Hash = bn_md5 env bts\<rparr>))
          (\<lambda>data. act_bind (bt_Put (bn_bolt env) bucketName objectName data)
            (\<lambda>_. act_ok emptyPutResult)) t)"

definition bolt_PutObject ::
    "('t, 'c, 'v) s3bolt_env \<Rightarrow> string \<Rightarrow> string \<Rightarrow> gomap option \<Rightarrow> reader \<Rightarrow> int \<Rightarrow>
     ('t s3bolt, PutObjectResult) act" where
  "bolt_PutObject env bucketName objectName meta inp sz =
     act_bind (act_res (ReadAll inp sz))
       (\<lambda>bts. act_bind (MergeMetadata (bolt_GetObject env bucketName objectName None) meta)
         (\<lambda>meta'. db_Update env (bolt_store env bucketName objectName meta' bts)))"

definition bolt_DeleteObject ::
    "('t, 'c, 'v) s3bolt_env \<Rightarrow> string \<Rightarrow> string \<Rightarrow> ('t s3bolt, ObjectDeleteResult) act" where
  "bolt_DeleteObject env bucketName objectName =
     db_Update env (\<lambda>_ t.
       if \<not> bt_Bucket (bn_bolt env) t bucketName then (Err (BucketNotFound bucketName), t)
       else
         (case bt_Delete (bn_bolt env) bucketName objectName t of
            (Ok _, t') \<Rightarrow> (Ok emptyDeleteResult, t')
          | (Err _, t') \<Rightarrow>
              (Err (EOther (''gofakes3: delete failed for object '' @ quoted objectName @ '' in bucket '' @
                            quoted bucketName)), t')
          | (Panic, t') \<Rightarrow> (Panic, t')
          | (NoFuel, t') \<Rightarrow> (NoFuel, t')))"

fun delete_all ::
    "('t, 'c, 'v) s3bolt_env \<Rightarrow> string \<Rightarrow> string list \<Rightarrow> MultiDeleteResult \<Rightarrow> ('t, MultiDeleteResult) act" where
  "delete_all env bucketName [] result t = (Ok result, t)"
| "delete_all env bucketName (object # objects) result t =
     (case bt_Delete (bn_bolt env) bucketName object t of
        (Ok _, t') \<Rightarrow>
          delete_all env bucketName objects
            (result\<lparr>md_Deleted := md_Deleted result @ [\<lparr>oid_Key = object, oid_VersionID = ''''\<rparr>]\<rparr>) t'
      | (Err _, t') \<Rightarrow>
          delete_all env bucketName objects
            (result\<lparr>md_Error := md_Error result @
               [\<lparr>ex_Key = object, ex_Code = ErrInternal, ex_Message = code_Message ErrInternal,
                 ex_Resource = '''', ex_RequestID = ''''\<rparr>]\<rparr>) t'
      | (Panic, t') \<Rightarrow> (Panic, t')
      | (NoFuel, t') \<Rightarrow> (NoFuel, t'))"

definition bolt_DeleteMulti ::
    "('t, 'c, 'v) s3bolt_env \<Rightarrow> string \<Rightarrow> string list \<Rightarrow> ('t s3bolt, MultiDeleteResult) act" where
  "bolt_DeleteMulti env bucketName objects =
     db_Update env (\<lambda>_ t.
       if \<not> bt_Bucket (bn_bolt env) t bucketName then (Err (BucketNotFound bucketName), t)
       else delete_all env bucketName objects \<lparr>md_Deleted = [], md_Error = []\<rparr> t)"

text \<open>The back end; \<open>wall\<close> is the reading of \<open>time.Now()\<close> in \<open>CopyObject\<close>.\<close>

definition bolt_backend :: "int \<Rightarrow> ('t, 'c, 'v) s3bolt_env \<Rightarrow> 't s3bolt Backend" where
  "bolt_backend wall env =
     (let base =
        \<lparr>be_ListBuckets = bolt_ListBuckets env,
         be_ListBucket = bolt_ListBucket env,
         be_CreateBucket = bolt_CreateBucket env,
         be_BucketExists = bolt_BucketExists env,
         be_DeleteBucket = bolt_DeleteBucket env,
         be_ForceDeleteBucket = bolt_ForceDeleteBucket env,
         be_GetObject = bolt_GetObject env,
         be_HeadObject = bolt_HeadObject env,
         be_DeleteObject = bolt_DeleteObject env,
         be_PutObject = bolt_PutObject env,
         be_DeleteMulti = bolt_DeleteMulti env,
         be_CopyObject = (\<lambda>_ _ _ _ _. act_res Panic)\<rparr>
      in base\<lparr>be_CopyObject := CopyObject wall base\<rparr>)"

lemmas bolt_backend_defs [go_eval] =
  metaBucketName_def db_View_def db_Update_def bucketMetaKey_def boltObject_Object_def
  metaBucket_writable_def deleteS3Bucket_def createS3Bucket_def s3Bucket_def bolt_info_def
  bolt_ListBuckets_def bolt_content_def bolt_item_def bolt_ListBucket_def bolt_CreateBucket_def
  bolt_DeleteBucket_def bolt_ForceDeleteBucket_def bolt_BucketExists_def bolt_GetObject_def
  bolt_HeadObject_def bolt_store_def bolt_PutObject_def bolt_DeleteObject_def bolt_DeleteMulti_def
  bolt_backend_def

lemma bolt_backend_simps [simp]:
  "be_ListBuckets (bolt_backend wall env) = bolt_ListBuckets env"
  "be_ListBucket (bolt_backend wall env) = bolt_ListBucket env"
  "be_CreateBucket (bolt_backend wall env) = bolt_CreateBucket env"
  "be_BucketExists (bolt_backend wall env) = bolt_BucketExists env"
  "be_DeleteBucket (bolt_backend wall env) = bolt_DeleteBucket env"
  "be_ForceDeleteBucket (bolt_backend wall env) = bolt_ForceDeleteBucket env"
  "be_GetObject (bolt_backend wall env) = bolt_GetObject env"
  "be_HeadObject (bolt_backend wall env) = bolt_HeadObject env"
  "be_DeleteObject (bolt_backend wall env) = bolt_DeleteObject env"
  "be_PutObject (bolt_backend wall env) = bolt_PutObject env"
  "be_DeleteMulti (bolt_backend wall env) = bolt_DeleteMulti env"
  by (simp_all add: bolt_backend_def)

end
