(* ===== verification/StoreSpec.thy ===== *)
theory StoreSpec
  imports Backend Readers
begin

text \<open>
  The specification of a back end without versions: a map of buckets to maps of keys to objects, and a
  clock. It is what \<open>s3bolt\<close> and, for buckets whose versioning was never enabled, \<open>s3mem\<close> implement.
\<close>

record stored =
  so_body :: bytes
  so_meta :: "string \<Rightarrow> string option"
  so_modified :: int

type_synonym store = "string \<Rightarrow> (string \<Rightarrow> stored option) option"

text \<open>A put: the metadata of an existing object are carried over where the new ones do not set them.\<close>

definition store_put :: "string \<Rightarrow> string \<Rightarrow> bytes \<Rightarrow> (string \<Rightarrow> string option) \<Rightarrow> int \<Rightarrow> store \<Rightarrow> store" where
  "store_put b k body meta at st =
     (case st b of
        None \<Rightarrow> st
      | Some m \<Rightarrow> st(b \<mapsto> m(k \<mapsto>
          \<lparr>so_body = body,
           so_meta = (case m k of None \<Rightarrow> meta | Some old \<Rightarrow> so_meta old ++ meta),
           so_modified = at\<rparr>)))"

definition store_delete :: "string \<Rightarrow> string list \<Rightarrow> store \<Rightarrow> store" where
  "store_delete b ks st =
     (case st b of None \<Rightarrow> st | Some m \<Rightarrow> st(b \<mapsto> (\<lambda>k. if k \<in> set ks then None else m k)))"

section \<open>Operations\<close>

datatype store_op =
    PutOp string string gomap reader int
  | DeleteOp string string
  | DeleteMultiOp string "string list"
  | CreateBucketOp string
  | DeleteBucketOp string
  | ForceDeleteBucketOp string
  | ClockOp int

text \<open>The outcome of an operation is whether it succeeded.\<close>

definition outcome :: "'a res \<times> 's \<Rightarrow> bool \<times> 's" where
  "outcome rs = (is_ok (fst rs), snd rs)"

text \<open>\<open>stamp\<close> is what becomes of the reading of the clock when it is stored.\<close>

fun spec_run :: "(int \<Rightarrow> int) \<Rightarrow> store_op \<Rightarrow> store \<times> int \<Rightarrow> store \<times> int" where
  "spec_run stamp (PutOp b k m r sz) (st, now) =
     (store_put b k (rd_bytes r) (map_of m) (stamp now) st, now)"
| "spec_run stamp (DeleteOp b k) (st, now) = (store_delete b [k] st, now)"
| "spec_run stamp (DeleteMultiOp b ks) (st, now) = (store_delete b ks st, now)"
| "spec_run stamp (CreateBucketOp b) (st, now) = (st(b \<mapsto> Map.empty), now)"
| "spec_run stamp (DeleteBucketOp b) (st, now) = (st(b := None), now)"
| "spec_run stamp (ForceDeleteBucketOp b) (st, now) = (st(b := None), now)"
| "spec_run stamp (ClockOp now) (st, _) = (st, now)"

text \<open>When an operation may succeed.\<close>

fun spec_pre :: "store_op \<Rightarrow> store \<Rightarrow> bool" where
  "spec_pre (PutOp b k m r sz) st \<longleftrightarrow> st b \<noteq> None \<and> ReadAll r sz = Ok (rd_bytes r)"
| "spec_pre (DeleteOp b k) st \<longleftrightarrow> st b \<noteq> None"
| "spec_pre (DeleteMultiOp b ks) st \<longleftrightarrow> st b \<noteq> None"
| "spec_pre (CreateBucketOp b) st \<longleftrightarrow> st b = None"
| "spec_pre (DeleteBucketOp b) st \<longleftrightarrow> st b = Some Map.empty"
| "spec_pre (ForceDeleteBucketOp b) st \<longleftrightarrow> st b \<noteq> None"
| "spec_pre (ClockOp now) st \<longleftrightarrow> True"

text \<open>The abstract run; \<open>None\<close> if an operation has succeeded that must not.\<close>

fun spec_trace :: "(int \<Rightarrow> int) \<Rightarrow> (store_op \<times> bool) list \<Rightarrow> store \<times> int \<Rightarrow> (store \<times> int) option" where
  "spec_trace stamp [] s = Some s"
| "spec_trace stamp ((op, ok) # ops) s =
     (if \<not> ok then spec_trace stamp ops s
      else if spec_pre op (fst s) then spec_trace stamp ops (spec_run stamp op s) else None)"

text \<open>The run of a store that never fails without reason: an operation succeeds exactly if it may.\<close>

fun spec_runs :: "(int \<Rightarrow> int) \<Rightarrow> store_op list \<Rightarrow> store \<times> int \<Rightarrow> bool list \<times> store \<times> int" where
  "spec_runs stamp [] s = ([], s)"
| "spec_runs stamp (op # ops) s =
     (if spec_pre op (fst s)
      then apfst (\<lambda>oks. True # oks) (spec_runs stamp ops (spec_run stamp op s))
      else apfst (\<lambda>oks. False # oks) (spec_runs stamp ops s))"

lemma outcome_eq: "outcome rs = (ok, s) \<longleftrightarrow> snd rs = s \<and> ok = (\<exists>x. fst rs = Ok x)"
  by (cases rs) (auto simp: outcome_def is_ok_def split: res.splits)

section \<open>Stores that differ in the times kept\<close>

definition restamp :: "(int \<Rightarrow> int) \<Rightarrow> store \<Rightarrow> store" where
  "restamp f st = (\<lambda>b. map_option (\<lambda>m k. map_option (\<lambda>o'. o'\<lparr>so_modified := f (so_modified o')\<rparr>) (m k)) (st b))"

lemma restamp_None [simp]: "restamp f st b = None \<longleftrightarrow> st b = None"
  by (simp add: restamp_def)

lemma restamp_empty [simp]: "restamp f st b = Some Map.empty \<longleftrightarrow> st b = Some Map.empty"
  by (auto simp: restamp_def fun_eq_iff)

lemma restamp_upd [simp]:
  "restamp f (st(b := None)) = (restamp f st)(b := None)"
  "restamp f (st(b \<mapsto> Map.empty)) = (restamp f st)(b \<mapsto> Map.empty)"
  by (auto simp: restamp_def)

lemma restamp_put: "restamp f (store_put b k body meta at st) = store_put b k body meta (f at) (restamp f st)"
  by (auto simp: restamp_def store_put_def fun_eq_iff split: option.splits)

lemma restamp_delete: "restamp f (store_delete b ks st) = store_delete b ks (restamp f st)"
  by (auto simp: restamp_def store_delete_def fun_eq_iff split: option.splits)

lemma spec_pre_restamp [simp]: "spec_pre op (restamp f st) \<longleftrightarrow> spec_pre op st"
  by (cases op) simp_all

lemma spec_run_restamp:
  "spec_run (\<lambda>t. t) op (st, now) = (st', now') \<Longrightarrow> spec_run f op (restamp f st, now) = (restamp f st', now')"
  by (cases op) (auto simp: restamp_put restamp_delete)

end
