(* ===== verification/BoltFacts.thy ===== *)
theory BoltFacts
  imports BoltBackend StoreSpec
begin

text \<open>
  The invariant of the data of \<open>s3bolt\<close>, their abstraction to a map of buckets to maps of keys to objects,
  and what each operation does to the abstraction.
\<close>

section \<open>Transactions\<close>

text \<open>A failed update leaves the committed data as they are.\<close>

lemma db_Update_keeps:
  "db_Update env f db = (r, db') \<Longrightarrow> (\<nexists>x. r = Ok x) \<Longrightarrow> db' = db"
  by (auto simp: db_Update_def bolt_Update_def split: prod.splits res.splits option.splits)

lemma db_Update_Ok:
  "db_Update env f db = (Ok x, db') \<Longrightarrow>
   f (sb_now db) (sb_bolt db) = (Ok x, sb_bolt db') \<and> bt_Commit (bn_bolt env) (sb_bolt db') = None \<and>
   sb_now db' = sb_now db"
  by (auto simp: db_Update_def bolt_Update_def split: prod.splits res.splits option.splits)

lemma db_Update_run:
  assumes "f (sb_now db) (sb_bolt db) = (Ok x, t)" "bt_Commit (bn_bolt env) t = None"
  shows "db_Update env f db = (Ok x, db\<lparr>sb_bolt := t\<rparr>)"
  using assms by (simp add: db_Update_def bolt_Update_def)

lemma db_Update_now: "db_Update env f db = (r, db') \<Longrightarrow> sb_now db' = sb_now db"
  by (auto simp: db_Update_def split: prod.splits)

lemma act_res_Ok: "act_res r s = (Ok x, s') \<longleftrightarrow> r = Ok x \<and> s' = s"
  by (auto simp: act_res_def)

section \<open>The invariant and the abstraction\<close>

definition object_ok :: "('t, 'c, 'v) s3bolt_env \<Rightarrow> boltObject \<Rightarrow> bool" where
  "object_ok env x \<longleftrightarrow>
     bx_Size x = int (length (bx_Contents x)) \<and> bx_Hash x = bn_md5 env (bx_Contents x) \<and>
     plain_keys x"

definition abs_object :: "boltObject \<Rightarrow> stored" where
  "abs_object x =
     \<lparr>so_body = bx_Contents x, so_meta = meta_map (bx_Metadata x), so_modified = bx_LastModified x\<rparr>"

definition decoded :: "('t, 'c, 'v) s3bolt_env \<Rightarrow> 'v \<Rightarrow> boltObject option" where
  "decoded env v = (case bs_UnmarshalObject (bn_bson env) v of Inl x \<Rightarrow> Some x | Inr _ \<Rightarrow> None)"

text \<open>Every value of a bucket but the one for metadata decodes to a well-formed object.\<close>

definition bolt_data_ok ::
    "('t, 'c, 'v) s3bolt_env \<Rightarrow> ('t \<Rightarrow> string \<Rightarrow> (string \<Rightarrow> 'v option) option) \<Rightarrow> 't \<Rightarrow> bool" where
  "bolt_data_ok env view t \<longleftrightarrow>
     (\<forall>b m k v. b \<noteq> metaBucketName \<longrightarrow> view t b = Some m \<longrightarrow> m k = Some v \<longrightarrow>
        (\<exists>x. decoded env v = Some x \<and> object_ok env x))"

definition bolt_abs ::
    "('t, 'c, 'v) s3bolt_env \<Rightarrow> ('t \<Rightarrow> string \<Rightarrow> (string \<Rightarrow> 'v option) option) \<Rightarrow> 't \<Rightarrow> store" where
  "bolt_abs env view t b =
     (if b = metaBucketName then None
      else map_option (\<lambda>m k. case m k of None \<Rightarrow> None | Some v \<Rightarrow> map_option abs_object (decoded env v)) (view t b))"

text \<open>The object that \<open>PutObject\<close> stores.\<close>

definition new_object ::
    "('t, 'c, 'v) s3bolt_env \<Rightarrow> string \<Rightarrow> gomap option \<Rightarrow> bytes \<Rightarrow> int \<Rightarrow> boltObject" where
  "new_object env k meta body at =
     \<lparr>bx_Name = k, bx_Metadata = meta, bx_LastModified = at, bx_Size = int (length body),
      bx_Contents = body, bx_Hash = bn_md5 env body\<rparr>"

definition plain_meta :: "gomap \<Rightarrow> bool" where
  "plain_meta m \<longleftrightarrow> (\<forall>k \<in> dom (map_of m). CHR 0x00 \<notin> set k)"

text \<open>What a stored object looks like to \<open>GetObject\<close>, and in a listing.\<close>

definition object_of :: "('t, 'c, 'v) s3bolt_env \<Rightarrow> string \<Rightarrow> stored \<Rightarrow> Object \<Rightarrow> bool" where
  "object_of env k st obj \<longleftrightarrow>
     ob_Name obj = k \<and> ob_Contents obj = so_body st \<and> ob_Size obj = int (length (so_body st)) \<and>
     ob_Hash obj = bn_md5 env (so_body st) \<and> meta_map (ob_Metadata obj) = so_meta st \<and>
     ob_Range obj = None \<and> ob_VersionID obj = '''' \<and> \<not> ob_IsDeleteMarker obj"

definition stored_content :: "('t, 'c, 'v) s3bolt_env \<Rightarrow> string \<Rightarrow> stored \<Rightarrow> Content" where
  "stored_content env k st =
     \<lparr>ct_Key = k, ct_LastModified = so_modified st,
      ct_ETag = quoted (hex_encode (bn_md5 env (so_body st))), ct_Size = int (length (so_body st)),
      ct_StorageClass = '''', ct_Owner = None\<rparr>"

definition flat_key :: "Prefix \<Rightarrow> string \<Rightarrow> bool" where
  "flat_key p k \<longleftrightarrow> (case prefix_Match p k of None \<Rightarrow> False | Some mt \<Rightarrow> \<not> pm_CommonPrefix mt)"

definition rolled_key :: "Prefix \<Rightarrow> string \<Rightarrow> string option" where
  "rolled_key p k =
     (case prefix_Match p k of
        None \<Rightarrow> None | Some mt \<Rightarrow> if pm_CommonPrefix mt then Some (pm_MatchedPart mt) else None)"

locale s3bolt_laws =
  bolt_laws "bn_bolt env" "bn_bson env" view entries cursor_of fits
  for env :: "('t, 'c, 'v) s3bolt_env" and view :: "'t \<Rightarrow> string \<Rightarrow> (string \<Rightarrow> 'v option) option"
    and entries :: "'t \<Rightarrow> string \<Rightarrow> (string \<times> 'v) list"
    and cursor_of :: "'c \<Rightarrow> string" and fits :: "'v \<Rightarrow> bool"
begin

abbreviation data_ok :: "'t \<Rightarrow> bool" where
  "data_ok \<equiv> bolt_data_ok env view"

abbreviation abs :: "'t \<Rightarrow> store" where
  "abs \<equiv> bolt_abs env view"

lemmas data_ok_def = bolt_data_ok_def [of env view]
lemmas abs_def = bolt_abs_def [of env view]

lemma abs_None: "b \<noteq> metaBucketName \<Longrightarrow> abs t b = None \<longleftrightarrow> view t b = None"
  by (simp add: abs_def)

lemma abs_Some:
  assumes "b \<noteq> metaBucketName" "view t b = Some m"
  shows "abs t b = Some (\<lambda>k. case m k of None \<Rightarrow> None | Some v \<Rightarrow> map_option abs_object (decoded env v))"
  using assms by (simp add: abs_def)

lemma data_okD:
  assumes "data_ok t" "b \<noteq> metaBucketName" "view t b = Some m" "m k = Some v"
  obtains x where "bs_UnmarshalObject (bn_bson env) v = Inl x" "object_ok env x"
    "the (abs t b) k = Some (abs_object x)"
proof -
  obtain x where x: "decoded env v = Some x" "object_ok env x" using assms unfolding data_ok_def by blast
  then have "bs_UnmarshalObject (bn_bson env) v = Inl x" by (auto simp: decoded_def split: sum.splits)
  then show ?thesis using that x assms by (simp add: abs_Some)
qed

lemma abs_key:
  assumes "data_ok t" "b \<noteq> metaBucketName" "view t b = Some m"
  shows "the (abs t b) k = None \<longleftrightarrow> m k = None"
proof (cases "m k")
  case None
  then show ?thesis using assms by (simp add: abs_Some)
next
  case (Some v)
  then show ?thesis using data_okD [OF assms Some] by auto
qed

text \<open>Changes of one bucket.\<close>

lemma change_bucket:
  assumes "data_ok t" "view t' = (view t)(b \<mapsto> m')"
    and "\<forall>k v. b \<noteq> metaBucketName \<longrightarrow> m' k = Some v \<longrightarrow> (\<exists>x. decoded env v = Some x \<and> object_ok env x)"
  shows "data_ok t'" "abs t' = (if b = metaBucketName then abs t
    else (abs t)(b \<mapsto> (\<lambda>k. case m' k of None \<Rightarrow> None | Some v \<Rightarrow> map_option abs_object (decoded env v))))"
proof -
  show "data_ok t'" unfolding data_ok_def
  proof (intro allI impI)
    fix b' m k v
    assume a: "b' \<noteq> metaBucketName" "view t' b' = Some m" "m k = Some v"
    show "\<exists>x. decoded env v = Some x \<and> object_ok env x"
    proof (cases "b' = b")
      case True
      then show ?thesis using a assms(2,3) by simp
    next
      case False
      then have "view t b' = Some m" using a(2) assms(2) by simp
      then show ?thesis using assms(1) a unfolding data_ok_def by blast
    qed
  qed
qed (use assms(2) in \<open>auto simp: abs_def fun_eq_iff\<close>)

lemma drop_bucket:
  assumes "data_ok t" "view t' = (view t)(b := None)"
  shows "data_ok t'" "abs t' = (abs t)(b := None)"
proof -
  show "data_ok t'" using assms unfolding data_ok_def by (metis fun_upd_apply option.distinct(1))
qed (use assms(2) in \<open>auto simp: abs_def fun_eq_iff\<close>)

section \<open>Objects\<close>

lemma Object_whole:
  "boltObject_Object x k None =
     Ok \<lparr>ob_Name = k, ob_Metadata = bx_Metadata x, ob_Size = bx_Size x, ob_Contents = bx_Contents x,
         ob_Hash = bx_Hash x, ob_Range = None, ob_VersionID = '''', ob_IsDeleteMarker = False\<rparr>"
  by (simp add: boltObject_Object_def Let_def)

lemma get_no_bucket:
  "view (sb_bolt db) b = None \<Longrightarrow> bolt_GetObject env b k rr db = (Err (BucketNotFound b), db)"
  by (simp add: bolt_GetObject_def act_bind_def db_View_def Bucket)

lemma get_no_key:
  "view (sb_bolt db) b = Some m \<Longrightarrow> m k = None \<Longrightarrow> bolt_GetObject env b k rr db = (Err (KeyNotFound k), db)"
  by (simp add: bolt_GetObject_def act_bind_def db_View_def Bucket Get)

lemma get_decoded:
  assumes "view (sb_bolt db) b = Some m" "m k = Some v" "bs_UnmarshalObject (bn_bson env) v = Inl x"
  shows "bolt_GetObject env b k rr db = (boltObject_Object x k rr, db)"
  using assms by (simp add: bolt_GetObject_def act_bind_def db_View_def Bucket Get act_res_def)

lemma get_keeps: "snd (bolt_GetObject env b k rr db) = db"
  by (auto simp: bolt_GetObject_def act_bind_def db_View_def act_res_def split: res.splits)

lemma get_stored:
  assumes "data_ok (sb_bolt db)" "abs (sb_bolt db) b = Some s" "s k = Some st"
  shows "\<exists>obj. bolt_GetObject env b k None db = (Ok obj, db) \<and> object_of env k st obj"
proof -
  have b: "b \<noteq> metaBucketName" using assms(2) by (auto simp: abs_def)
  then obtain m where m: "view (sb_bolt db) b = Some m" using assms(2) by (auto simp: abs_def)
  then obtain v where v: "m k = Some v"
    using assms(2,3) abs_Some [OF b m] by (auto split: option.splits)
  obtain x where x: "bs_UnmarshalObject (bn_bson env) v = Inl x" "object_ok env x"
      "the (abs (sb_bolt db) b) k = Some (abs_object x)"
    using data_okD [OF assms(1) b m v] by blast
  then show ?thesis
    using get_decoded [OF m v x(1)] assms(2,3)
    by (auto simp: Object_whole object_of_def abs_object_def object_ok_def)
qed

lemma get_absent:
  assumes "data_ok (sb_bolt db)" "b \<noteq> metaBucketName"
    and "\<forall>s st. abs (sb_bolt db) b = Some s \<longrightarrow> s k = Some st \<longrightarrow> False"
  shows "bolt_GetObject env b k rr db =
    (Err (if abs (sb_bolt db) b = None then BucketNotFound b else KeyNotFound k), db)"
proof (cases "view (sb_bolt db) b")
  case None
  then show ?thesis using get_no_bucket [OF None] assms(2) by (simp add: abs_def)
next
  case (Some m)
  have "m k = None"
    using abs_key [OF assms(1,2) Some, of k] assms(3) abs_Some [OF assms(2) Some] by fastforce
  then show ?thesis using get_no_key [OF Some] Some assms(2) by (simp add: abs_def)
qed

text \<open>The metadata that \<open>PutObject\<close> stores.\<close>

definition old_meta :: "store \<Rightarrow> string \<Rightarrow> string \<Rightarrow> string \<Rightarrow> string option" where
  "old_meta st b k =
     (case st b of None \<Rightarrow> Map.empty
      | Some s \<Rightarrow> (case s k of None \<Rightarrow> Map.empty | Some o' \<Rightarrow> so_meta o'))"

lemma merge_stored:
  assumes "data_ok (sb_bolt db)" "b \<noteq> metaBucketName"
  shows "\<exists>m'. MergeMetadata (bolt_GetObject env b k None) (Some m) db = (Ok (Some m'), db) \<and>
    map_of m' = old_meta (abs (sb_bolt db)) b k ++ map_of m"
proof (cases "\<exists>s st. abs (sb_bolt db) b = Some s \<and> s k = Some st")
  case True
  then obtain s st where st: "abs (sb_bolt db) b = Some s" "s k = Some st" by blast
  obtain obj where obj: "bolt_GetObject env b k None db = (Ok obj, db)" "object_of env k st obj"
    using get_stored [OF assms(1) st] by blast
  obtain m' where "carry_over (Some obj) (Some m) = Ok (Some m')"
      "map_of m' = map_of (case ob_Metadata obj of None \<Rightarrow> [] | Some es \<Rightarrow> es) ++ map_of m"
    using carry_over_Some [of "Some obj" m] by auto
  then show ?thesis
    using obj st by (auto simp: MergeMetadata_def object_of_def meta_map_def old_meta_def)
next
  case False
  then have "bolt_GetObject env b k None db =
      (Err (if abs (sb_bolt db) b = None then BucketNotFound b else KeyNotFound k), db)"
    using get_absent [OF assms] by blast
  moreover have "old_meta (abs (sb_bolt db)) b k = Map.empty"
    using False by (auto simp: old_meta_def split: option.splits)
  ultimately show ?thesis by (simp add: MergeMetadata_def carry_over_def)
qed

lemma store_abs:
  assumes "data_ok t" "b \<noteq> metaBucketName" "plain_keys (new_object env k meta body at)"
    and "bolt_store env b k meta body at t = (Ok r, t')"
  shows "\<exists>s. abs t b = Some s \<and> r = emptyPutResult \<and> data_ok t' \<and>
    abs t' = (abs t)(b \<mapsto> s(k \<mapsto> \<lparr>so_body = body, so_meta = meta_map meta, so_modified = bson_time at\<rparr>))"
proof -
  obtain m where m: "view t b = Some m"
    using assms(4) by (cases "view t b") (auto simp: bolt_store_def Bucket)
  obtain v x where v: "bs_MarshalObject (bn_bson env) (new_object env k meta body at) = Ok v"
      "bs_UnmarshalObject (bn_bson env) v = Inl x" "same_object (new_object env k meta body at) x"
    using bson_object [OF assms(3)] by blast
  have p: "bt_Put (bn_bolt env) b k v t = (Ok (), t')" "r = emptyPutResult"
    using assms(4) m v(1)
    by (auto simp: bolt_store_def Bucket new_object_def act_bind_Ok act_res_Ok act_ok_def)
  have x: "decoded env v = Some x" "object_ok env x"
    using v(2,3) assms(3) by (auto simp: decoded_def object_ok_def same_object_def new_object_def plain_keys_def)
  have vals: "\<forall>k' v'. b \<noteq> metaBucketName \<longrightarrow> (m(k \<mapsto> v)) k' = Some v' \<longrightarrow>
      (\<exists>x. decoded env v' = Some x \<and> object_ok env x)"
    using x assms(1) m unfolding data_ok_def by (metis fun_upd_apply option.inject)
  note c = change_bucket [OF assms(1) Put [OF m p(1)] vals]
  have "abs_object x = \<lparr>so_body = body, so_meta = meta_map meta, so_modified = bson_time at\<rparr>"
    using v(3) by (simp add: abs_object_def same_object_def new_object_def)
  then have "abs t' = (abs t)(b \<mapsto> (the (abs t b))(k \<mapsto>
      \<lparr>so_body = body, so_meta = meta_map meta, so_modified = bson_time at\<rparr>))"
    using c(2) assms(2) x(1) by (simp add: abs_Some [OF assms(2) m] fun_eq_iff)
  then show ?thesis using c(1) p(2) abs_Some [OF assms(2) m] by auto
qed

lemma store_succeeds:
  assumes "view t b = Some m" "bs_MarshalObject (bn_bson env) (new_object env k meta body at) = Ok v"
    and "fits v" "k \<noteq> ''''" "length k \<le> 32768"
  shows "\<exists>t'. bolt_store env b k meta body at t = (Ok emptyPutResult, t')"
proof -
  obtain t' where "bt_Put (bn_bolt env) b k v t = (Ok (), t')"
    using Put_fits [OF assms(1,4,5,3)] by (metis prod.collapse)
  then show ?thesis
    using assms(1,2) by (auto simp: bolt_store_def Bucket new_object_def act_bind_def act_res_def act_ok_def)
qed

text \<open>The metadata of a well-formed object have no NUL in their keys.\<close>

lemma old_meta_plain:
  assumes "data_ok t" "b \<noteq> metaBucketName" "k' \<in> dom (old_meta (abs t) b k)"
  shows "CHR 0x00 \<notin> set k'"
proof -
  obtain s st where st: "abs t b = Some s" "s k = Some st" "k' \<in> dom (so_meta st)"
    using assms(3) by (auto simp: old_meta_def split: option.splits)
  obtain m v where m: "view t b = Some m" "m k = Some v"
    using st(1,2) assms(2) by (auto simp: abs_def split: option.splits)
  obtain x where "object_ok env x" "the (abs t b) k = Some (abs_object x)"
    using data_okD [OF assms(1,2) m] by blast
  then show ?thesis using st by (auto simp: object_ok_def plain_keys_def abs_object_def)
qed

lemma merged_plain:
  assumes "data_ok (sb_bolt db)" "b \<noteq> metaBucketName" "plain_meta meta"
    and "map_of m' = old_meta (abs (sb_bolt db)) b k ++ map_of meta"
  shows "plain_keys (new_object env k (Some m') bts at)"
  unfolding plain_keys_def
proof
  fix k'
  assume "k' \<in> dom (meta_map (bx_Metadata (new_object env k (Some m') bts at)))"
  then consider "k' \<in> dom (old_meta (abs (sb_bolt db)) b k)" | "k' \<in> dom (map_of meta)"
    using assms(4) by (auto simp: new_object_def meta_map_def)
  then show "CHR 0x00 \<notin> set k'"
    using old_meta_plain [OF assms(1,2)] assms(3) by cases (auto simp: plain_meta_def)
qed

lemma put_abs:
  assumes "data_ok (sb_bolt db)" "b \<noteq> metaBucketName" "plain_meta meta"
    and "bolt_PutObject env b k (Some meta) inp sz db = (r, db')"
  shows "if \<exists>x. r = Ok x
    then r = Ok emptyPutResult \<and> ReadAll inp sz = Ok (rd_bytes inp) \<and> abs (sb_bolt db) b \<noteq> None \<and>
      data_ok (sb_bolt db') \<and> sb_now db' = sb_now db \<and>
      abs (sb_bolt db') = store_put b k (rd_bytes inp) (map_of meta) (bson_time (sb_now db)) (abs (sb_bolt db))
    else db' = db"
proof -
  obtain m' where m': "MergeMetadata (bolt_GetObject env b k None) (Some meta) db = (Ok (Some m'), db)"
      "map_of m' = old_meta (abs (sb_bolt db)) b k ++ map_of meta"
    using merge_stored [OF assms(1,2)] by blast
  show ?thesis
  proof (cases "ReadAll inp sz")
    case (Ok bts)
    then have run: "db_Update env (bolt_store env b k (Some m') bts) db = (r, db')"
      using assms(4) m'(1) by (simp add: bolt_PutObject_def act_bind_def act_res_def)
    show ?thesis
    proof (cases "\<exists>x. r = Ok x")
      case True
      then obtain x where x: "r = Ok x" by blast
      have "0 \<le> sz" using Ok ReadAll_negative [of inp sz] by (cases "sz < 0") auto
      from ReadAll_Ok_iff [OF this, of inp bts] have bts: "bts = rd_bytes inp" using Ok by simp
      note u = db_Update_Ok [OF run [unfolded x]]
      have "plain_keys (new_object env k (Some m') bts (sb_now db))"
        by (rule merged_plain [OF assms(1-3) m'(2)])
      from store_abs [OF assms(1,2) this conjunct1 [OF u]] obtain s where
        s: "abs (sb_bolt db) b = Some s" "x = emptyPutResult" "data_ok (sb_bolt db')"
          "abs (sb_bolt db') = (abs (sb_bolt db))(b \<mapsto> s(k \<mapsto>
             \<lparr>so_body = bts, so_meta = meta_map (Some m'), so_modified = bson_time (sb_now db)\<rparr>))" by blast
      have "abs (sb_bolt db') = store_put b k (rd_bytes inp) (map_of meta) (bson_time (sb_now db)) (abs (sb_bolt db))"
        using s(1,4) m'(2) bts
        by (auto simp: store_put_def old_meta_def meta_map_def split: option.splits)
      then show ?thesis using x s u Ok bts by simp
    next
      case False
      then show ?thesis using db_Update_keeps [OF run] by auto
    qed
  qed (use assms(4) in \<open>auto simp: bolt_PutObject_def act_bind_def act_res_def\<close>)
qed

section \<open>Deleting objects\<close>

lemma delete_abs:
  assumes "data_ok t" "b \<noteq> metaBucketName" "view t b = Some m" "bt_Delete (bn_bolt env) b k t = (r, t')"
  shows "r = Ok ()" "view t' b = Some (m(k := None))" "data_ok t'"
    "abs t' = store_delete b [k] (abs t)"
proof -
  obtain t1 where t1: "bt_Delete (bn_bolt env) b k t = (Ok (), t1)" "view t1 = (view t)(b \<mapsto> m(k := None))"
    using Delete [OF assms(3)] by blast
  then have e: "r = Ok ()" "t' = t1" using assms(4) by auto
  have "\<forall>k' v'. b \<noteq> metaBucketName \<longrightarrow> (m(k := None)) k' = Some v' \<longrightarrow>
      (\<exists>x. decoded env v' = Some x \<and> object_ok env x)"
    using assms(1,3) unfolding data_ok_def by (metis fun_upd_apply option.distinct(1))
  note c = change_bucket [OF assms(1) t1(2) this]
  show "r = Ok ()" "view t' b = Some (m(k := None))" "data_ok t'" using e t1(2) c(1) by simp_all
  show "abs t' = store_delete b [k] (abs t)"
    using c(2) assms(2) e by (simp add: store_delete_def abs_Some [OF assms(2,3)] fun_eq_iff)
qed

lemma store_delete_step: "store_delete b ks (store_delete b [k] st) = store_delete b (k # ks) st"
  by (auto simp: store_delete_def fun_eq_iff split: option.splits)

lemma delete_all_abs:
  assumes "data_ok t" "b \<noteq> metaBucketName" "view t b = Some m"
  shows "\<exists>t'. delete_all env b ks res t =
      (Ok (res\<lparr>md_Deleted := md_Deleted res @ map (\<lambda>k. \<lparr>oid_Key = k, oid_VersionID = ''''\<rparr>) ks\<rparr>), t') \<and>
    data_ok t' \<and> abs t' = store_delete b ks (abs t)"
  using assms
proof (induction ks arbitrary: t m res)
  case Nil
  then show ?case by (auto simp: store_delete_def fun_eq_iff split: option.splits)
next
  case (Cons k ks)
  obtain r t1 where d: "bt_Delete (bn_bolt env) b k t = (r, t1)" by fastforce
  note a = delete_abs [OF Cons.prems d]
  from Cons.IH [OF a(3) Cons.prems(2) a(2),
      of "res\<lparr>md_Deleted := md_Deleted res @ [\<lparr>oid_Key = k, oid_VersionID = ''''\<rparr>]\<rparr>"]
  show ?case using d a(1) by (simp add: a(4) store_delete_step)
qed

lemma DeleteObject_abs:
  assumes "data_ok (sb_bolt db)" "b \<noteq> metaBucketName" "bolt_DeleteObject env b k db = (r, db')"
  shows "if \<exists>x. r = Ok x
    then r = Ok emptyDeleteResult \<and> abs (sb_bolt db) b \<noteq> None \<and> data_ok (sb_bolt db') \<and>
      sb_now db' = sb_now db \<and> abs (sb_bolt db') = store_delete b [k] (abs (sb_bolt db))
    else db' = db"
proof (cases "\<exists>x. r = Ok x")
  case True
  then obtain x where x: "r = Ok x" by blast
  note u = db_Update_Ok [OF assms(3) [unfolded bolt_DeleteObject_def x]]
  obtain m where m: "view (sb_bolt db) b = Some m"
    using u by (cases "view (sb_bolt db) b") (auto simp: Bucket)
  obtain q t' where d: "bt_Delete (bn_bolt env) b k (sb_bolt db) = (q, t')" by fastforce
  note a = delete_abs [OF assms(1,2) m d]
  show ?thesis using u x a d m by (auto simp: Bucket abs_None [OF assms(2)])
next
  case False
  then show ?thesis using db_Update_keeps [OF assms(3) [unfolded bolt_DeleteObject_def]] by auto
qed

lemma DeleteMulti_abs:
  assumes "data_ok (sb_bolt db)" "b \<noteq> metaBucketName" "bolt_DeleteMulti env b ks db = (r, db')"
  shows "if \<exists>x. r = Ok x
    then r = Ok \<lparr>md_Deleted = map (\<lambda>k. \<lparr>oid_Key = k, oid_VersionID = ''''\<rparr>) ks, md_Error = []\<rparr> \<and>
      abs (sb_bolt db) b \<noteq> None \<and> data_ok (sb_bolt db') \<and> sb_now db' = sb_now db \<and>
      abs (sb_bolt db') = store_delete b ks (abs (sb_bolt db))
    else db' = db"
proof (cases "\<exists>x. r = Ok x")
  case True
  then obtain x where x: "r = Ok x" by blast
  note u = db_Update_Ok [OF assms(3) [unfolded bolt_DeleteMulti_def x]]
  obtain m where m: "view (sb_bolt db) b = Some m"
    using u by (cases "view (sb_bolt db) b") (auto simp: Bucket)
  from delete_all_abs [OF assms(1,2) m, of ks "\<lparr>md_Deleted = [], md_Error = []\<rparr>"]
  show ?thesis using u x m by (auto simp: Bucket abs_None [OF assms(2)])
next
  case False
  then show ?thesis using db_Update_keeps [OF assms(3) [unfolded bolt_DeleteMulti_def]] by auto
qed

section \<open>Buckets\<close>

lemma quiet:
  assumes "data_ok t" "\<forall>b. b \<noteq> metaBucketName \<longrightarrow> view t' b = view t b"
  shows "data_ok t'" "abs t' = abs t"
proof -
  show "data_ok t'" using assms unfolding data_ok_def by metis
qed (use assms(2) in \<open>auto simp: abs_def fun_eq_iff\<close>)

lemma meta_name: "metaBucketName \<noteq> ''''"
  by (simp add: metaBucketName_def)

lemma metaBucket_step:
  "\<exists>t' m. metaBucket_writable env t = (Ok (), t') \<and> view t' metaBucketName = Some m \<and>
     (\<forall>b. b \<noteq> metaBucketName \<longrightarrow> view t' b = view t b)"
  using CreateBucketIfNotExists [OF meta_name, of t] by (auto simp: metaBucket_writable_def split: if_splits)

lemma deleteS3Bucket_step:
  assumes "view t metaBucketName = Some m"
  shows "\<exists>t'. deleteS3Bucket env name t = (Ok (), t') \<and>
     (\<forall>b. b \<noteq> metaBucketName \<longrightarrow> view t' b = view t b)"
  using Delete [OF assms, of "bucketMetaKey name"] by (auto simp: deleteS3Bucket_def)

lemma createS3Bucket_step:
  assumes "view t metaBucketName = Some m" "createS3Bucket env name at t = (Ok (), t')"
  shows "\<forall>b. b \<noteq> metaBucketName \<longrightarrow> view t' b = view t b"
proof -
  obtain v where "bt_Put (bn_bolt env) metaBucketName (bucketMetaKey name) v t = (Ok (), t')"
    using assms(2) by (auto simp: createS3Bucket_def act_bind_Ok act_res_Ok)
  from Put [OF assms(1) this] show ?thesis by simp
qed

lemma createS3Bucket_succeeds:
  assumes "view t metaBucketName = Some m" "length name \<le> 32761"
  shows "\<exists>t'. createS3Bucket env name at t = (Ok (), t')"
proof -
  obtain v where v: "bs_MarshalBucket (bn_bson env) \<lparr>bkt_CreationDate = at\<rparr> = Ok v" "fits v"
    using bson_bucket [of "\<lparr>bkt_CreationDate = at\<rparr>"] by blast
  have k: "bucketMetaKey name \<noteq> ''''" "length (bucketMetaKey name) \<le> 32768"
    using assms(2) by (simp_all add: bucketMetaKey_def)
  obtain t' where "bt_Put (bn_bolt env) metaBucketName (bucketMetaKey name) v t = (Ok (), t')"
    using Put_fits [OF assms(1) k v(2)] by (metis prod.collapse)
  then show ?thesis using v(1) by (auto simp: createS3Bucket_def act_bind_def act_res_def)
qed

lemma CreateBucket_abs:
  assumes "data_ok (sb_bolt db)" "name \<noteq> metaBucketName" "name \<noteq> ''''"
    and "bolt_CreateBucket env name db = (r, db')"
  shows "if r = Ok ()
    then abs (sb_bolt db) name = None \<and> data_ok (sb_bolt db') \<and> sb_now db' = sb_now db \<and>
      abs (sb_bolt db') = (abs (sb_bolt db))(name \<mapsto> Map.empty)
    else db' = db"
proof (cases "r = Ok ()")
  case True
  note u = db_Update_Ok [OF assms(4) [unfolded bolt_CreateBucket_def True]]
  obtain t1 t2 where t: "metaBucket_writable env (sb_bolt db) = (Ok (), t1)"
      "createS3Bucket env name (sb_now db) t1 = (Ok (), t2)" "\<not> bt_Bucket (bn_bolt env) t2 name"
      "bt_CreateBucket (bn_bolt env) name t2 = (Ok (), sb_bolt db')"
    using u by (auto simp: act_bind_Ok split: if_splits)
  obtain m1 where m1: "view t1 metaBucketName = Some m1"
      "\<forall>b. b \<noteq> metaBucketName \<longrightarrow> view t1 b = view (sb_bolt db) b"
    using metaBucket_step [of "sb_bolt db"] t(1) by auto
  have v2: "\<forall>b. b \<noteq> metaBucketName \<longrightarrow> view t2 b = view (sb_bolt db) b"
    using createS3Bucket_step [OF m1(1) t(2)] m1(2) by simp
  have none: "view t2 name = None" using t(3) by (simp add: Bucket)
  then have "view (sb_bolt db') = (view t2)(name \<mapsto> Map.empty)"
    using CreateBucket [OF none assms(3)] t(4) by auto
  note c = change_bucket [OF quiet(1) [OF assms(1) v2] this]
  have "abs (sb_bolt db) name = None" using none v2 assms(2) by (simp add: abs_None)
  then show ?thesis
    using True u c assms(2) quiet(2) [OF assms(1) v2] by (simp add: fun_eq_iff)
next
  case False
  then show ?thesis using db_Update_keeps [OF assms(4) [unfolded bolt_CreateBucket_def]] by auto
qed

text \<open>The bucket of metadata after a bucket was made.\<close>

lemma CreateBucket_meta:
  assumes "bolt_CreateBucket env name db = (Ok (), db')" "name \<noteq> ''''"
  shows "view (sb_bolt db') metaBucketName \<noteq> None"
proof -
  note u = db_Update_Ok [OF assms(1) [unfolded bolt_CreateBucket_def]]
  obtain t1 t2 where t: "metaBucket_writable env (sb_bolt db) = (Ok (), t1)"
      "createS3Bucket env name (sb_now db) t1 = (Ok (), t2)" "\<not> bt_Bucket (bn_bolt env) t2 name"
      "bt_CreateBucket (bn_bolt env) name t2 = (Ok (), sb_bolt db')"
    using u by (auto simp: act_bind_Ok split: if_splits)
  obtain m1 where m1: "view t1 metaBucketName = Some m1"
    using metaBucket_step [of "sb_bolt db"] t(1) by auto
  obtain v where "bt_Put (bn_bolt env) metaBucketName (bucketMetaKey name) v t1 = (Ok (), t2)"
    using t(2) by (auto simp: createS3Bucket_def act_bind_Ok act_res_Ok)
  from Put [OF m1 this] have "view t2 metaBucketName \<noteq> None" by simp
  moreover have "view t2 name = None" using t(3) by (simp add: Bucket)
  ultimately show ?thesis using CreateBucket [of t2 name] assms(2) t(4) by auto
qed

lemma forget_bucket:
  assumes "view (sb_bolt db) metaBucketName \<noteq> None" "\<forall>t. bt_Commit (bn_bolt env) t = None"
  shows "\<exists>db'. bolt_DeleteObject env metaBucketName (bucketMetaKey name) db = (Ok emptyDeleteResult, db') \<and>
    s3Bucket env (sb_bolt db') name = Ok None"
proof -
  obtain m where m: "view (sb_bolt db) metaBucketName = Some m" using assms(1) by blast
  obtain t' where t': "bt_Delete (bn_bolt env) metaBucketName (bucketMetaKey name) (sb_bolt db) = (Ok (), t')"
      "view t' = (view (sb_bolt db))(metaBucketName \<mapsto> m(bucketMetaKey name := None))"
    using Delete [OF m] by blast
  have v: "view t' metaBucketName = Some (m(bucketMetaKey name := None))" using t'(2) by simp
  have "bolt_DeleteObject env metaBucketName (bucketMetaKey name) db =
      (Ok emptyDeleteResult, db\<lparr>sb_bolt := t'\<rparr>)"
    unfolding bolt_DeleteObject_def using t'(1) m assms(2) by (intro db_Update_run) (simp_all add: Bucket)
  moreover have "s3Bucket env t' name = Ok None" using Get [OF v] by (simp add: s3Bucket_def)
  ultimately show ?thesis by simp
qed

lemma CreateBucket_exists:
  assumes "abs (sb_bolt db) name \<noteq> None" "length name \<le> 32761"
  shows "bolt_CreateBucket env name db = (Err (ResourceError ErrBucketAlreadyExists name), db)"
proof -
  have name: "name \<noteq> metaBucketName" using assms(1) by (auto simp: abs_def)
  obtain t1 m1 where t1: "metaBucket_writable env (sb_bolt db) = (Ok (), t1)"
      "view t1 metaBucketName = Some m1" "\<forall>b. b \<noteq> metaBucketName \<longrightarrow> view t1 b = view (sb_bolt db) b"
    using metaBucket_step by blast
  obtain t2 where t2: "createS3Bucket env name (sb_now db) t1 = (Ok (), t2)"
    using createS3Bucket_succeeds [OF t1(2) assms(2)] by blast
  have "bt_Bucket (bn_bolt env) t2 name"
    using createS3Bucket_step [OF t1(2) t2] t1(3) name assms(1) by (auto simp: Bucket abs_None)
  then show ?thesis
    using t1(1) t2 by (simp add: bolt_CreateBucket_def db_Update_def bolt_Update_def act_bind_def)
qed

text \<open>The end of both deletions of a bucket.\<close>

lemma drop_step:
  assumes "view t name \<noteq> None" "name \<noteq> metaBucketName"
  shows "\<exists>t'. act_bind (metaBucket_writable env)
      (\<lambda>_. act_bind (deleteS3Bucket env name) (\<lambda>_. bt_DeleteBucket (bn_bolt env) name)) t = (Ok (), t') \<and>
    (\<forall>b. b \<noteq> metaBucketName \<longrightarrow> view t' b = ((view t)(name := None)) b)"
proof -
  obtain t1 m1 where t1: "metaBucket_writable env t = (Ok (), t1)"
      "view t1 metaBucketName = Some m1" "\<forall>b. b \<noteq> metaBucketName \<longrightarrow> view t1 b = view t b"
    using metaBucket_step by blast
  obtain t2 where t2: "deleteS3Bucket env name t1 = (Ok (), t2)"
      "\<forall>b. b \<noteq> metaBucketName \<longrightarrow> view t2 b = view t1 b"
    using deleteS3Bucket_step [OF t1(2)] by blast
  then have "view t2 name \<noteq> None" using t1(3) assms by simp
  from DeleteBucket [OF this] show ?thesis
    using t1(1,3) t2 by (auto simp: act_bind_def)
qed

lemma drop_abs:
  assumes "data_ok t" "\<forall>b. b \<noteq> metaBucketName \<longrightarrow> view t' b = ((view t)(name := None)) b"
  shows "data_ok t'" "abs t' = (abs t)(name := None)"
proof -
  show "data_ok t'" using assms unfolding data_ok_def by (metis fun_upd_apply option.distinct(1))
qed (use assms(2) in \<open>auto simp: abs_def fun_eq_iff\<close>)

lemma First_empty:
  assumes "view t name = Some m"
  shows "fst (bt_First (bn_bolt env) t name) = None \<longleftrightarrow> m = Map.empty"
proof -
  obtain kv c where f: "bt_First (bn_bolt env) t name = (kv, c)" by fastforce
  from First_key [OF assms this] show ?thesis by (cases kv) (auto simp: f)
qed

lemma DeleteBucket_abs:
  assumes "data_ok (sb_bolt db)" "name \<noteq> metaBucketName" "bolt_DeleteBucket env name db = (r, db')"
  shows "if r = Ok ()
    then abs (sb_bolt db) name = Some Map.empty \<and> data_ok (sb_bolt db') \<and> sb_now db' = sb_now db \<and>
      abs (sb_bolt db') = (abs (sb_bolt db))(name := None)
    else db' = db"
proof (cases "r = Ok ()")
  case True
  note u = db_Update_Ok [OF assms(3) [unfolded bolt_DeleteBucket_def if_not_P [OF assms(2)] True]]
  obtain m where m: "view (sb_bolt db) name = Some m"
    using u by (cases "view (sb_bolt db) name") (auto simp: Bucket)
  then have e: "m = Map.empty" using u First_empty [OF m] by (auto simp: Bucket split: if_splits)
  have "\<forall>b. b \<noteq> metaBucketName \<longrightarrow> view (sb_bolt db') b = ((view (sb_bolt db))(name := None)) b"
    using u e m First_empty [OF m] drop_step [of "sb_bolt db" name] assms(2) by (auto simp: Bucket)
  from drop_abs [OF assms(1) this] show ?thesis
    using True u m e by (simp add: abs_Some [OF assms(2)])
next
  case False
  then show ?thesis
    using db_Update_keeps [OF assms(3) [unfolded bolt_DeleteBucket_def if_not_P [OF assms(2)]]] by auto
qed

lemma delete_keys_all:
  assumes "view t name = Some m" "finite (dom m)" "card (dom m) < n"
    and "case cur of Fresh b \<Rightarrow> b = name | At c \<Rightarrow> cursor_of c = name"
  shows "\<exists>t'. delete_keys env name n cur t = (Ok (), t') \<and> view t' name \<noteq> None \<and>
    (\<forall>b. b \<noteq> name \<longrightarrow> view t' b = view t b)"
  using assms
proof (induction n arbitrary: t m cur)
  case (Suc n)
  obtain kv cur' where c: "cursor_step (bn_bolt env) t cur = (kv, cur')" by fastforce
  show ?case
  proof (cases kv)
    case None
    then show ?thesis using c Suc.prems(1) by simp
  next
    case (Some e)
    obtain k v where e: "e = (k, v)" by (cases e)
    have next_cur: "m k \<noteq> None \<and> (\<exists>c'. cur' = At c' \<and> cursor_of c' = name)"
    proof (cases cur)
      case (Fresh b)
      then show ?thesis
        using c Some e Suc.prems(1,4) First_key [OF Suc.prems(1)]
        by (force simp: cursor_step_def split: prod.splits)
    next
      case (At c0)
      then show ?thesis
        using c Some e Suc.prems(1,4) Next_key [of t c0 k v]
        by (force simp: cursor_step_def split: prod.splits)
    qed
    obtain t1 where t1: "bt_Delete (bn_bolt env) name k t = (Ok (), t1)" "view t1 = (view t)(name \<mapsto> m(k := None))"
      using Delete [OF Suc.prems(1)] by blast
    have "dom (m(k := None)) = dom m - {k}" by auto
    then have "card (dom (m(k := None))) < n"
      using Suc.prems(2,3) next_cur card_Diff1_less [of "dom m" k] by (auto simp: domIff)
    moreover have "finite (dom (m(k := None)))" using Suc.prems(2) by simp
    moreover have "case cur' of Fresh b \<Rightarrow> b = name | At c \<Rightarrow> cursor_of c = name" using next_cur by auto
    moreover have "view t1 name = Some (m(k := None))" using t1(2) by simp
    ultimately have "\<exists>t'. delete_keys env name n cur' t1 = (Ok (), t') \<and> view t' name \<noteq> None \<and>
        (\<forall>b. b \<noteq> name \<longrightarrow> view t' b = view t1 b)"
      using Suc.IH [of t1 "m(k := None)" cur'] by blast
    then show ?thesis using c Some e t1 by auto
  qed
qed simp

lemma keys_finite:
  assumes "view t name = Some m"
  shows "finite (dom m)" "card (dom m) \<le> bt_KeyN (bn_bolt env) t name"
proof -
  have d: "dom m = fst ` set (entries t name)"
    using entries(1) [OF assms] by (metis dom_map_of_conv_image_fst)
  then show "finite (dom m)" by simp
  have "card (dom m) \<le> length (entries t name)"
    unfolding d by (metis card_length image_set length_map)
  then show "card (dom m) \<le> bt_KeyN (bn_bolt env) t name" using entries(3) [OF assms] by simp
qed

lemma ForceDelete_run:
  assumes "view t name \<noteq> None" "name \<noteq> metaBucketName"
  shows "\<exists>t'. act_bind (delete_keys env name (Suc (bt_KeyN (bn_bolt env) t name)) (Fresh name))
      (\<lambda>_. act_bind (metaBucket_writable env)
        (\<lambda>_. act_bind (deleteS3Bucket env name) (\<lambda>_. bt_DeleteBucket (bn_bolt env) name))) t = (Ok (), t') \<and>
    (\<forall>b. b \<noteq> metaBucketName \<longrightarrow> view t' b = ((view t)(name := None)) b)"
proof -
  obtain m where m: "view t name = Some m" using assms(1) by blast
  have "card (dom m) < Suc (bt_KeyN (bn_bolt env) t name)" using keys_finite(2) [OF m] by simp
  from delete_keys_all [OF m keys_finite(1) [OF m] this, of "Fresh name"] obtain t1 where
    t1: "delete_keys env name (Suc (bt_KeyN (bn_bolt env) t name)) (Fresh name) t = (Ok (), t1)"
      "view t1 name \<noteq> None" "\<forall>b. b \<noteq> name \<longrightarrow> view t1 b = view t b" by auto
  from drop_step [OF t1(2) assms(2)] show ?thesis
    using t1 by (auto simp: act_bind_def [of "delete_keys _ _ _ _"])
qed

lemma ForceDelete_abs:
  assumes "data_ok (sb_bolt db)" "name \<noteq> metaBucketName" "bolt_ForceDeleteBucket env name db = (r, db')"
  shows "if r = Ok ()
    then abs (sb_bolt db) name \<noteq> None \<and> data_ok (sb_bolt db') \<and> sb_now db' = sb_now db \<and>
      abs (sb_bolt db') = (abs (sb_bolt db))(name := None)
    else db' = db"
proof (cases "r = Ok ()")
  case True
  note u = db_Update_Ok [OF assms(3) [unfolded bolt_ForceDeleteBucket_def if_not_P [OF assms(2)] True]]
  have v: "view (sb_bolt db) name \<noteq> None" using u by (auto simp: Bucket split: if_splits)
  then have "\<forall>b. b \<noteq> metaBucketName \<longrightarrow> view (sb_bolt db') b = ((view (sb_bolt db))(name := None)) b"
    using ForceDelete_run [OF v assms(2)] u by (auto simp: Bucket)
  from drop_abs [OF assms(1) this] show ?thesis
    using True u v by (simp add: abs_None [OF assms(2)])
next
  case False
  then show ?thesis
    using db_Update_keeps [OF assms(3) [unfolded bolt_ForceDeleteBucket_def if_not_P [OF assms(2)]]] by auto
qed

section \<open>Listing\<close>

text \<open>The listing of objects in the order of their keys.\<close>

definition list_of :: "Prefix \<Rightarrow> (string \<Rightarrow> stored option) \<Rightarrow> string list \<Rightarrow> ObjectList \<Rightarrow> ObjectList \<Rightarrow> bool" where
  "list_of p s ks o1 o2 \<longleftrightarrow>
     ol_Contents o2 = ol_Contents o1 @ map (\<lambda>k. stored_content env k (the (s k))) (filter (flat_key p) ks) \<and>
     set (ol_CommonPrefixes o2) = set (ol_CommonPrefixes o1) \<union> {q. \<exists>k \<in> set ks. rolled_key p k = Some q} \<and>
     ol_IsTruncated o2 = ol_IsTruncated o1 \<and> ol_NextMarker o2 = ol_NextMarker o1 \<and>
     (prefixes_ok (ol_prefixes o1) (ol_CommonPrefixes o1) \<longrightarrow>
      prefixes_ok (ol_prefixes o2) (ol_CommonPrefixes o2))"

lemma list_loop:
  assumes "\<forall>(k, v) \<in> set es. \<exists>x. bs_UnmarshalObject (bn_bson env) v = Inl x \<and> object_ok env x \<and>
      s k = Some (abs_object x)"
  shows "prefixes_ok (ol_prefixes o1) (ol_CommonPrefixes o1) \<Longrightarrow>
    \<exists>o2. list_range (bolt_item env p) (Ok o1) es = (Ok o2, [], False) \<and> list_of p s (map fst es) o1 o2"
  using assms
proof (induction es arbitrary: o1)
  case Nil
  then show ?case by (simp add: list_of_def)
next
  case (Cons e es)
  obtain k v where e: "e = (k, v)" by (cases e)
  obtain x where x: "bs_UnmarshalObject (bn_bson env) v = Inl x" "object_ok env x" "s k = Some (abs_object x)"
    using Cons.prems(2) e by auto
  have content: "bolt_content k x = stored_content env k (abs_object x)"
    using x(2) by (simp add: bolt_content_def stored_content_def abs_object_def object_ok_def)
  let ?o = "case prefix_Match p k of None \<Rightarrow> o1
    | Some mt \<Rightarrow> if pm_CommonPrefix mt then ol_AddPrefix o1 (pm_MatchedPart mt)
                 else ol_Add o1 (bolt_content k x)"
  have step: "bolt_item env p e (Ok o1) = Continue (Ok ?o)"
    using x(1) e by (auto simp: bolt_item_def split: option.splits)
  have "prefixes_ok (ol_prefixes ?o) (ol_CommonPrefixes ?o)"
    using Cons.prems(1) ol_AddPrefix_ok [of o1] by (auto simp: ol_Add_def split: option.splits)
  then obtain o2 where o2: "list_range (bolt_item env p) (Ok ?o) es = (Ok o2, [], False)"
      "list_of p s (map fst es) ?o o2"
    using Cons.IH [of ?o] Cons.prems(2) by auto
  have "list_of p s (map fst (e # es)) o1 o2"
  proof (cases "prefix_Match p k")
    case None
    then show ?thesis using o2(2) e by (auto simp: list_of_def flat_key_def rolled_key_def)
  next
    case (Some mt)
    have idx: "set (ol_prefixes o1) = set (ol_CommonPrefixes o1)"
      using Cons.prems(1) by (simp add: prefixes_ok_def)
    then show ?thesis
      using Some o2(2) e x(3) content Cons.prems(1) ol_AddPrefix_ok [of o1]
      by (cases "pm_CommonPrefix mt")
        (auto simp: list_of_def flat_key_def rolled_key_def ol_Add_def ol_AddPrefix_def prefixes_ok_def)
  qed
  then show ?case using step o2(1) by auto
qed

lemma ListBucket_abs:
  assumes "data_ok (sb_bolt db)" "abs (sb_bolt db) b = Some s"
  shows "\<exists>objects. bolt_ListBucket env b (Some p) emptyBucketPage db = (Ok objects, db) \<and>
    ol_Contents objects =
      map (\<lambda>k. stored_content env k (the (s k))) (filter (flat_key p) (sorted_list_of_set (dom s))) \<and>
    set (ol_CommonPrefixes objects) = {q. \<exists>k \<in> dom s. rolled_key p k = Some q} \<and>
    distinct (ol_CommonPrefixes objects) \<and> \<not> ol_IsTruncated objects \<and> ol_NextMarker objects = ''''"
proof -
  let ?t = "sb_bolt db"
  have b: "b \<noteq> metaBucketName" using assms(2) by (auto simp: abs_def)
  then obtain m where m: "view ?t b = Some m" using assms(2) by (auto simp: abs_def)
  have s: "s k = (case m k of None \<Rightarrow> None | Some v \<Rightarrow> map_option abs_object (decoded env v))" for k
    using assms(2) abs_Some [OF b m] by (metis option.inject)
  have keys: "dom s = dom m"
    using abs_key [OF assms(1) b m] unfolding assms(2) dom_def by simp
  have es: "map fst (entries ?t b) = sorted_list_of_set (dom s)"
  proof -
    have "set (map fst (entries ?t b)) = dom m"
      using entries(1) [OF m] by (metis dom_map_of_conv_image_fst list.set_map)
    then show ?thesis
      using entries(2) [OF m] keys
      by (metis sorted_list_of_set.idem_if_sorted_distinct strict_sorted_iff)
  qed
  have "\<forall>(k, v) \<in> set (entries ?t b). \<exists>x. bs_UnmarshalObject (bn_bson env) v = Inl x \<and> object_ok env x \<and>
      s k = Some (abs_object x)"
  proof clarify
    fix k v
    assume "(k, v) \<in> set (entries ?t b)"
    then have "m k = Some v" using entries_member [OF m] by simp
    from data_okD [OF assms(1) b m this] show "\<exists>x. bs_UnmarshalObject (bn_bson env) v = Inl x \<and> object_ok env x \<and>
      s k = Some (abs_object x)" using assms(2) by (metis option.sel)
  qed
  from list_loop [OF this, of NewObjectList p] obtain o2 where
    o2: "list_range (bolt_item env p) (Ok NewObjectList) (entries ?t b) = (Ok o2, [], False)"
      "list_of p s (map fst (entries ?t b)) NewObjectList o2"
    by (auto simp: NewObjectList_def prefixes_ok_def)
  obtain e where e: "yields (cursor_step (bn_bolt env) ?t) (Fresh b) (entries ?t b) e"
    using cursor [OF m] by blast
  have "map_option fst (go_range (Suc (bt_KeyN (bn_bolt env) ?t b)) (cursor_step (bn_bolt env) ?t)
      (bolt_item env p) (Ok NewObjectList) (Fresh b)) = Some (Ok o2)"
    using go_range_list [OF e, of "Suc (bt_KeyN (bn_bolt env) ?t b)" "bolt_item env p" "Ok NewObjectList"]
      entries(3) [OF m] o2(1) by simp
  then have "bolt_ListBucket env b (Some p) emptyBucketPage db = (Ok o2, db)"
    using m by (auto simp: bolt_ListBucket_def page_IsEmpty_def db_View_def Bucket split: option.splits)
  moreover have "set (sorted_list_of_set (dom s)) = dom s"
    using keys_finite(1) [OF m] keys by simp
  ultimately show ?thesis
    using o2(2) unfolding es list_of_def by (simp add: NewObjectList_def prefixes_ok_def)
qed

end

end
