(* ===== verification/BoltServer.thy ===== *)
theory BoltServer
  imports StoreServer BoltFacts
begin

text \<open>
  The server over \<open>s3bolt\<close>: the back end provides the interfaces of the server. It has no versions and
  pages its listings in the server, not in the back end.
\<close>

definition bolt_server ::
    "int \<Rightarrow> ('t, 'c, 'v) s3bolt_env \<Rightarrow> ('um, 'ui) uploader_env \<Rightarrow> ('um uploader \<times> 't s3bolt) gofakes3" where
  "bolt_server wall benv uenv = store_server (bolt_backend wall benv) None uenv []"

lemma bolt_server_simps [simp]:
  "g_storage (bolt_server wall benv uenv) = lift_backend (bolt_backend wall benv)"
  "g_versioned (bolt_server wall benv uenv) = None"
  "g_timeSkew (bolt_server wall benv uenv) = DefaultSkewLimit"
  "g_integrityCheck (bolt_server wall benv uenv) = True"
  "g_failOnUnimplementedPage (bolt_server wall benv uenv) = False"
  "g_metadataSizeLimit (bolt_server wall benv uenv) = DefaultMetadataSizeLimit"
  by (simp_all add: bolt_server_def) (simp add: store_server_def New_def)

lemma bolt_reads:
  "snd (bolt_BucketExists env b db) = db" "snd (bolt_ListBuckets env db) = db"
  "snd (bolt_ListBucket env b p page db) = db" "snd (bolt_GetObject env b k r db) = db"
  "snd (bolt_HeadObject env b k db) = db"
  by (auto simp: bolt_BucketExists_def bolt_ListBuckets_def bolt_ListBucket_def bolt_GetObject_def
      bolt_HeadObject_def db_View_def act_bind_def act_res_def act_err_def act_ok_def Let_def
      split: res.splits)

interpretation bolt_reading: reading_store "bolt_backend wall benv" None for wall benv
  by unfold_locales (simp_all add: bolt_reads)

definition bolt_has_bucket :: "('t, 'c, 'v) s3bolt_env \<Rightarrow> 't s3bolt \<Rightarrow> string \<Rightarrow> bool" where
  "bolt_has_bucket env db b = bt_Bucket (bn_bolt env) (sb_bolt db) b"

interpretation bolt_probing: probing_store "bolt_backend wall benv" None "bolt_has_bucket benv" "\<lambda>_. True"
  for wall benv
  by unfold_locales (simp add: bolt_BucketExists_def bolt_has_bucket_def db_View_def)

lemmas bolt_ensure =
  bolt_probing.ensure_existing [folded bolt_server_def, OF TrueI]
  bolt_probing.ensure_missing [folded bolt_server_def, OF TrueI]

text \<open>
  What the back end takes: an object whose document fits into the file, under a key that \<open>bbolt\<close> accepts,
  when the commit succeeds.
\<close>

definition bolt_accepts ::
    "('t, 'c, 'v) s3bolt_env \<Rightarrow> ('t \<Rightarrow> string \<Rightarrow> (string \<Rightarrow> 'v option) option) \<Rightarrow> ('v \<Rightarrow> bool) \<Rightarrow>
     't s3bolt \<Rightarrow> string \<Rightarrow> string \<Rightarrow> bytes \<Rightarrow> gomap \<Rightarrow> bool" where
  "bolt_accepts env view fits db b k body meta \<longleftrightarrow>
     b \<noteq> metaBucketName \<and> bolt_data_ok env view (sb_bolt db) \<and> plain_meta meta \<and> k \<noteq> '''' \<and>
     length k \<le> 32768 \<and> (\<forall>t. bt_Commit (bn_bolt env) t = None) \<and>
     (\<forall>m v. bs_MarshalObject (bn_bson env) (new_object env k m body (sb_now db)) = Ok v \<longrightarrow> fits v)"

context s3bolt_laws
begin

lemma put_succeeds:
  assumes "bolt_has_bucket env db b" "bolt_accepts env view fits db b k body meta"
  shows "\<exists>db'. bolt_PutObject env b k (Some meta) (bytes_reader body) (int (length body)) db =
    (Ok emptyPutResult, db')"
proof -
  note a = assms(2) [unfolded bolt_accepts_def]
  obtain m where m: "view (sb_bolt db) b = Some m"
    using assms(1) by (auto simp: bolt_has_bucket_def Bucket)
  obtain m' where m': "MergeMetadata (bolt_GetObject env b k None) (Some meta) db = (Ok (Some m'), db)"
      "map_of m' = old_meta (abs (sb_bolt db)) b k ++ map_of meta"
    using merge_stored [of db b k meta] a by blast
  have "plain_keys (new_object env k (Some m') body (sb_now db))"
    using merged_plain [OF _ _ _ m'(2)] a by blast
  then obtain v where v: "bs_MarshalObject (bn_bson env) (new_object env k (Some m') body (sb_now db)) = Ok v"
    using bson_object by blast
  then have "fits v" using a by blast
  from store_succeeds [OF m v this] a obtain t' where
    "bolt_store env b k (Some m') body (sb_now db) (sb_bolt db) = (Ok emptyPutResult, t')" by blast
  then show ?thesis
    using m'(1) a by (simp add: bolt_PutObject_def act_bind_def act_res_def db_Update_run)
qed

sublocale server: storing_backend "bolt_backend wall env" None "bolt_has_bucket env" "\<lambda>_. True" "bn_md5 env"
    "bolt_accepts env view fits" for wall
proof
  fix db :: "'t s3bolt" and b k :: string and body :: bytes and m :: gomap
  assume b: "bolt_has_bucket env db b" and a: "bolt_accepts env view fits db b k body m"
  note a' = a [unfolded bolt_accepts_def]
  obtain db' where p: "bolt_PutObject env b k (Some m) (bytes_reader body) (int (length body)) db =
      (Ok emptyPutResult, db')" using put_succeeds [OF b a] by blast
  have ok: "data_ok (sb_bolt db')" "abs (sb_bolt db) b \<noteq> None"
      "abs (sb_bolt db') = store_put b k body (map_of m) (bson_time (sb_now db)) (abs (sb_bolt db))"
    using put_abs [OF _ _ _ p] a' by (auto simp: bytes_reader_def)
  obtain s where s: "abs (sb_bolt db) b = Some s" using ok(2) by blast
  let ?s = "the (abs (sb_bolt db') b)"
  have s': "abs (sb_bolt db') b = Some ?s" "?s k \<noteq> None" "so_body (the (?s k)) = body"
    using s unfolding ok(3) by (simp_all add: store_put_def)
  then obtain st where st: "?s k = Some st" "so_body st = body" by auto
  obtain obj where obj: "bolt_GetObject env b k None db' = (Ok obj, db')" "object_of env k st obj"
    using get_stored [OF ok(1) s'(1) st(1)] by blast
  have "bolt_has_bucket env db' b"
    using s'(1) a' by (auto simp: bolt_has_bucket_def Bucket bolt_abs_def split: if_splits)
  then show "\<exists>vid obj db'.
      be_PutObject (bolt_backend wall env) b k (Some m) (bytes_reader body) (int (length body)) db =
        (Ok \<lparr>pr_VersionID = vid\<rparr>, db') \<and>
      fst (be_GetObject (bolt_backend wall env) b k None db') = Ok obj \<and> ob_Contents obj = body \<and>
      ob_Size obj = int (length body) \<and> ob_Hash obj = bn_md5 env body \<and> \<not> ob_IsDeleteMarker obj \<and>
      ob_Range obj = None \<and> bolt_has_bucket env db' b"
    using p obj st by (fastforce simp: object_of_def emptyPutResult_def)
qed

lemmas http_put_get = server.server_put_get [folded bolt_server_def, OF TrueI]

end

end
