(* ===== verification/BoltProperties.thy ===== *)
theory BoltProperties
  imports BoltServer ServerProperties
begin

text \<open>
  The properties of \<open>s3bolt\<close>: every sequence of operations refines a map of buckets to maps of keys to
  objects, listings are complete, and the server over it gives back what it was given.
\<close>

section \<open>Operations and their specification\<close>

fun bolt_run :: "('t, 'c, 'v) s3bolt_env \<Rightarrow> store_op \<Rightarrow> 't s3bolt \<Rightarrow> bool \<times> 't s3bolt" where
  "bolt_run env (PutOp b k m r sz) db = outcome (bolt_PutObject env b k (Some m) r sz db)"
| "bolt_run env (DeleteOp b k) db = outcome (bolt_DeleteObject env b k db)"
| "bolt_run env (DeleteMultiOp b ks) db = outcome (bolt_DeleteMulti env b ks db)"
| "bolt_run env (CreateBucketOp b) db = outcome (bolt_CreateBucket env b db)"
| "bolt_run env (DeleteBucketOp b) db = outcome (bolt_DeleteBucket env b db)"
| "bolt_run env (ForceDeleteBucketOp b) db = outcome (bolt_ForceDeleteBucket env b db)"
| "bolt_run env (ClockOp now) db = (True, db\<lparr>sb_now := now\<rparr>)"

text \<open>The operations of clients, who cannot name the bucket of metadata when they create one.\<close>

fun client_op :: "store_op \<Rightarrow> bool" where
  "client_op (PutOp b k m r sz) \<longleftrightarrow> b \<noteq> metaBucketName \<and> plain_meta m"
| "client_op (DeleteOp b k) \<longleftrightarrow> b \<noteq> metaBucketName"
| "client_op (DeleteMultiOp b ks) \<longleftrightarrow> b \<noteq> metaBucketName"
| "client_op (CreateBucketOp b) \<longleftrightarrow> b \<noteq> metaBucketName \<and> b \<noteq> ''''"
| "client_op (DeleteBucketOp b) \<longleftrightarrow> b \<noteq> metaBucketName"
| "client_op (ForceDeleteBucketOp b) \<longleftrightarrow> b \<noteq> metaBucketName"
| "client_op (ClockOp now) \<longleftrightarrow> True"

fun bolt_trace :: "('t, 'c, 'v) s3bolt_env \<Rightarrow> store_op list \<Rightarrow> 't s3bolt \<Rightarrow> bool list \<times> 't s3bolt" where
  "bolt_trace env [] db = ([], db)"
| "bolt_trace env (op # ops) db =
     (case bolt_run env op db of (ok, db') \<Rightarrow>
        (case bolt_trace env ops db' of (oks, db'') \<Rightarrow> (ok # oks, db'')))"

definition bolt_state ::
    "('t, 'c, 'v) s3bolt_env \<Rightarrow> ('t \<Rightarrow> string \<Rightarrow> (string \<Rightarrow> 'v option) option) \<Rightarrow> 't s3bolt \<Rightarrow> store \<times> int" where
  "bolt_state env view db = (bolt_abs env view (sb_bolt db), sb_now db)"

lemma run_refines:
  assumes "s3bolt_laws env view entries cursor_of fits" "bolt_data_ok env view (sb_bolt db)" "client_op op"
    and "bolt_run env op db = (ok, db')"
  shows "bolt_data_ok env view (sb_bolt db') \<and>
    (if ok then spec_pre op (bolt_abs env view (sb_bolt db)) \<and>
       bolt_state env view db' = spec_run bson_time op (bolt_state env view db) else db' = db)"
proof (cases op)
  case (PutOp b k m r sz)
  obtain q d where p: "bolt_PutObject env b k (Some m) r sz db = (q, d)" by fastforce
  then show ?thesis
    using s3bolt_laws.put_abs [OF assms(1,2) _ _ p] assms(2-4) PutOp
    by (auto simp: outcome_eq bolt_state_def split: if_splits)
next
  case (DeleteOp b k)
  obtain q d where p: "bolt_DeleteObject env b k db = (q, d)" by fastforce
  then show ?thesis
    using s3bolt_laws.DeleteObject_abs [OF assms(1,2) _ p] assms(2-4) DeleteOp
    by (auto simp: outcome_eq bolt_state_def split: if_splits)
next
  case (DeleteMultiOp b ks)
  obtain q d where p: "bolt_DeleteMulti env b ks db = (q, d)" by fastforce
  then show ?thesis
    using s3bolt_laws.DeleteMulti_abs [OF assms(1,2) _ p] assms(2-4) DeleteMultiOp
    by (auto simp: outcome_eq bolt_state_def split: if_splits)
next
  case (CreateBucketOp b)
  obtain q d where p: "bolt_CreateBucket env b db = (q, d)" by fastforce
  then show ?thesis
    using s3bolt_laws.CreateBucket_abs [OF assms(1,2) _ _ p] assms(2-4) CreateBucketOp
    by (auto simp: outcome_eq bolt_state_def split: if_splits)
next
  case (DeleteBucketOp b)
  obtain q d where p: "bolt_DeleteBucket env b db = (q, d)" by fastforce
  then show ?thesis
    using s3bolt_laws.DeleteBucket_abs [OF assms(1,2) _ p] assms(2-4) DeleteBucketOp
    by (auto simp: outcome_eq bolt_state_def split: if_splits)
next
  case (ForceDeleteBucketOp b)
  obtain q d where p: "bolt_ForceDeleteBucket env b db = (q, d)" by fastforce
  then show ?thesis
    using s3bolt_laws.ForceDelete_abs [OF assms(1,2) _ p] assms(2-4) ForceDeleteBucketOp
    by (auto simp: outcome_eq bolt_state_def split: if_splits)
next
  case (ClockOp now)
  then show ?thesis using assms(2,4) by (auto simp: bolt_state_def)
qed

text \<open>
  C12: refinement of the abstract store. The operations are those of clients: none is on the bucket \<open>_meta\<close>, in which
  the back end keeps the creation dates (the code lets a client put objects there, and they are no objects of the
  store), no bucket with an empty name is created, and no metadata key of a put contains a NUL, which BSON has no
  encoding for. Whatever sequence of them runs on a database with well-formed objects, and whichever of
  them fail, the database keeps well-formed objects and its contents are those of a map of buckets to maps of keys to
  objects on which exactly the successful operations have run; a failed operation changes nothing, and one that
  succeeds had the right to: the bucket of a put or a deletion existed, that of a creation did not, and that of a
  plain deletion was empty.
\<close>

theorem bolt_refines_store:
  assumes "s3bolt_laws env view entries cursor_of fits" "bolt_data_ok env view (sb_bolt db)"
    and "list_all client_op ops" "bolt_trace env ops db = (oks, db')"
  shows "bolt_data_ok env view (sb_bolt db') \<and> length oks = length ops \<and>
    spec_trace bson_time (zip ops oks) (bolt_state env view db) = Some (bolt_state env view db')"
  using assms(2-4)
proof (induction ops arbitrary: db oks)
  case Nil
  then show ?case by auto
next
  case (Cons op ops)
  obtain ok d where r: "bolt_run env op db = (ok, d)" by fastforce
  obtain oks' where t: "bolt_trace env ops d = (oks', db')" "oks = ok # oks'"
    using Cons.prems(3) r by (auto split: prod.splits)
  note step = run_refines [OF assms(1) Cons.prems(1) _ r]
  have "client_op op" "list_all client_op ops" using Cons.prems(2) by simp_all
  then show ?case
    using step Cons.IH [of d oks'] t by (auto simp: bolt_state_def split: if_splits)
qed

section \<open>A concrete database\<close>

definition demo_bolt_env :: "(alist_db, string \<times> string, doc) s3bolt_env" where
  "demo_bolt_env = \<lparr>bn_bolt = alist_bolt, bn_bson = alist_bson, bn_md5 = env_md5 demo_env\<rparr>"

lemma demo_bolt_laws: "s3bolt_laws demo_bolt_env alist_view db_entries fst (\<lambda>_. True)"
  unfolding s3bolt_laws_def demo_bolt_env_def by (simp add: alist_bolt.bolt_laws_axioms)

definition demo_bolt0 :: "alist_db s3bolt" where
  "demo_bolt0 = \<lparr>sb_bolt = [], sb_now = 0\<rparr>"

definition demo_ops :: "store_op list" where
  "demo_ops = [CreateBucketOp ''b'', PutOp ''b'' ''k'' [] (bytes_reader ''hello'') 5,
    DeleteBucketOp ''b'', PutOp ''b'' ''j'' [] (bytes_reader ''hello'') 4, DeleteOp ''b'' ''j'']"

lemma demo_bolt_ok: "bolt_data_ok demo_bolt_env alist_view (sb_bolt demo_bolt0)"
  by (simp add: bolt_data_ok_def alist_view_def demo_bolt0_def)

lemma bolt_refines_store_witness:
  "\<exists>oks db'. bolt_trace demo_bolt_env demo_ops demo_bolt0 = (oks, db') \<and>
     spec_trace bson_time (zip demo_ops oks) (bolt_state demo_bolt_env alist_view demo_bolt0) =
       Some (bolt_state demo_bolt_env alist_view db')"
proof -
  obtain oks db' where t: "bolt_trace demo_bolt_env demo_ops demo_bolt0 = (oks, db')" by fastforce
  have "list_all client_op demo_ops"
    by (simp add: demo_ops_def metaBucketName_def plain_meta_def)
  from bolt_refines_store [OF demo_bolt_laws demo_bolt_ok this t] t show ?thesis by blast
qed

section \<open>Listings\<close>

text \<open>
  C25: listings over \<open>s3bolt\<close> are complete. Whatever page a request asks for, the server gets one unpaged
  listing: the objects whose keys match the prefix and are not rolled up, each once, in the order of
  the keys, with the digest, size and time that were stored; the common prefixes of all others; and no
  truncation. \<open>max-keys\<close> and the markers have no effect.
\<close>

theorem bolt_list_complete:
  assumes "s3bolt_laws env view entries cursor_of fits" "bolt_data_ok env view (sb_bolt db)"
    and "bolt_abs env view (sb_bolt db) b = Some s"
  shows "\<exists>objects. list_objects (bolt_server wall env uenv) b p page (u, db) = (Ok objects, (u, db)) \<and>
    ol_Contents objects =
      map (\<lambda>k. stored_content env k (the (s k))) (filter (flat_key p) (sorted_list_of_set (dom s))) \<and>
    set (ol_CommonPrefixes objects) = {q. \<exists>k \<in> dom s. rolled_key p k = Some q} \<and>
    distinct (ol_CommonPrefixes objects) \<and> \<not> ol_IsTruncated objects \<and> ol_NextMarker objects = ''''"
proof -
  obtain objects where l: "bolt_ListBucket env b (Some p) emptyBucketPage db = (Ok objects, db)"
      "ol_Contents objects =
        map (\<lambda>k. stored_content env k (the (s k))) (filter (flat_key p) (sorted_list_of_set (dom s)))"
      "set (ol_CommonPrefixes objects) = {q. \<exists>k \<in> dom s. rolled_key p k = Some q}"
      "distinct (ol_CommonPrefixes objects)" "\<not> ol_IsTruncated objects" "ol_NextMarker objects = ''''"
    using s3bolt_laws.ListBucket_abs [OF assms, of p] by blast
  have "list_objects (bolt_server wall env uenv) b p page (u, db) = (Ok objects, (u, db))"
  proof (cases "page_IsEmpty page")
    case True
    then have "page = emptyBucketPage" by (simp add: page_IsEmpty_def)
    then show ?thesis using l(1) by (simp add: list_objects_def lift_backend_def on_storage_eq)
  next
    case False
    then have "bolt_ListBucket env b (Some p) page db = (Err (EInternalCode ErrInternalPageNotImplemented), db)"
      by (simp add: bolt_ListBucket_def act_err_def)
    then show ?thesis using l(1) by (simp add: list_objects_def lift_backend_def on_storage_eq)
  qed
  then show ?thesis using l(2-) by blast
qed

definition demo_bolt1 :: "alist_db s3bolt" where
  "demo_bolt1 = \<lparr>sb_bolt = [(''b'', [(''k'', Inl
     \<lparr>bx_Name = ''k'', bx_Metadata = Some [], bx_LastModified = 0, bx_Size = 5, bx_Contents = ''hello'',
      bx_Hash = env_md5 demo_env ''hello''\<rparr>)])], sb_now = 0\<rparr>"

lemma demo_bolt1_ok: "bolt_data_ok demo_bolt_env alist_view (sb_bolt demo_bolt1)"
  by (auto simp: bolt_data_ok_def alist_view_def demo_bolt1_def decoded_def demo_bolt_env_def alist_bson_def
      object_ok_def plain_keys_def meta_map_def split: if_splits)

lemma demo_bolt1_abs:
  "bolt_abs demo_bolt_env alist_view (sb_bolt demo_bolt1) ''b'' = Some (\<lambda>k. if k = ''k'' then
     Some \<lparr>so_body = ''hello'', so_meta = Map.empty, so_modified = 0\<rparr> else None)"
  by (simp add: bolt_abs_def demo_bolt1_def alist_view_def metaBucketName_def decoded_def demo_bolt_env_def
      alist_bson_def abs_object_def meta_map_def fun_eq_iff)

lemma bolt_list_complete_witness:
  "\<exists>objects. list_objects (bolt_server 0 demo_bolt_env demo_uploader) ''b'' emptyPrefix
       \<lparr>pg_Marker = ''x'', pg_HasMarker = True, pg_MaxKeys = 1\<rparr>
       (newUploader 0 :: (string \<times> uploadRef list) list uploader, demo_bolt1) =
       (Ok objects, (newUploader 0, demo_bolt1)) \<and> map ct_Key (ol_Contents objects) = [''k'']"
proof -
  let ?s = "\<lambda>k. if k = ''k'' then Some \<lparr>so_body = ''hello'', so_meta = Map.empty, so_modified = 0\<rparr> else None"
  have "dom ?s = {''k''}" by (auto split: if_splits)
  then have "filter (flat_key emptyPrefix) (sorted_list_of_set (dom ?s)) = [''k'']"
    by (simp add: flat_key_def)
  then show ?thesis
    using bolt_list_complete [OF demo_bolt_laws demo_bolt1_ok demo_bolt1_abs, of 0 demo_uploader emptyPrefix
        "\<lparr>pg_Marker = ''x'', pg_HasMarker = True, pg_MaxKeys = 1\<rparr>"
        "newUploader 0 :: (string \<times> uploadRef list) list uploader"]
    by (auto simp: stored_content_def)
qed

section \<open>The server over s3bolt\<close>

text \<open>
  PUT then GET over HTTP with \<open>s3bolt\<close>. A PUT of an object that the database takes answers 200 with the
  quoted MD5 of the body as ETag; a GET of the same path then answers 200 with exactly this body, its
  length in \<open>Content-Length\<close>, and the same ETag.
\<close>

theorem bolt_http_put_then_get:
  assumes "s3bolt_laws benv view entries cursor_of fits"
    and "bolt_has_bucket benv db b" "bolt_accepts benv view fits db b k body meta"
    and "object_request ''PUT'' b k put" "plain_put env (bolt_server wall benv uenv) now put body meta"
    and "object_request ''GET'' b k get" "plain_get env get"
    and "length k \<le> KeySizeLimit" "se_md5 env = bn_md5 benv"
    and "\<not> too_skewed env (bolt_server wall benv uenv) now put"
    and "\<not> too_skewed env (bolt_server wall benv uenv) now' get"
    and "Server env (bolt_server wall benv uenv) now put new_response
           \<lparr>sv_requestID = n, sv_world = (u, db)\<rparr> = ((r1, w1), sv1)"
    and "Server env (bolt_server wall benv uenv) now' get new_response sv1 = ((r2, w2), sv2)"
  shows "r1 = Ok () \<and> rw_status w1 = 200 \<and> rw_body w1 = [] \<and>
    header_get (rw_sent_header w1) ''ETag'' = quoted (hex_encode (se_md5 env body)) \<and>
    r2 = Ok () \<and> rw_status w2 = 200 \<and> rw_body w2 = (if body = [] then [] else [Raw body]) \<and>
    header_get (rw_sent_header w2) ''Content-Length'' = int_str (int (length body)) \<and>
    header_get (rw_sent_header w2) ''ETag'' = quoted (hex_encode (se_md5 env body))"
  by (rule s3bolt_laws.http_put_get [OF assms])

lemma demo_bolt_requests:
  "plain_put demo_senv (bolt_server 0 demo_bolt_env demo_uploader) 0 demo_put ''hello''
     [(''Last-Modified'', ''Thu, 01 Jan 1970 00:00:00 GMT'')]"
  "\<not> too_skewed demo_senv (bolt_server 0 demo_bolt_env demo_uploader) 0 demo_put"
  "\<not> too_skewed demo_senv (bolt_server 0 demo_bolt_env demo_uploader) 0 demo_get"
  by (simp_all add: demo_put_def demo_get_def demo_request_def header_get_def
      vals_get_def demo_senv_def plain_put_def parse_int_def has_prefix_def parse_digits_def is_digit_def
      digits_val_def digit_val_def metadataHeaders_def metadata_header_def formatHeaderTime_def
      metadataSize_def DefaultMetadataSizeLimit_def streaming_upload_def md5_header_def
      vals_has_def newHashingReader_expected_def too_skewed_def is_i64_def min_int64_def max_int64_def)

lemma bolt_http_put_then_get_witness:
  "\<exists>w1 sv1 w2 sv2. Server demo_senv (bolt_server 0 demo_bolt_env demo_uploader) 0 demo_put new_response
       \<lparr>sv_requestID = 0, sv_world = (newUploader 0 :: (string \<times> uploadRef list) list uploader, demo_bolt1)\<rparr> =
       ((Ok (), w1), sv1) \<and>
     Server demo_senv (bolt_server 0 demo_bolt_env demo_uploader) 0 demo_get new_response sv1 =
       ((Ok (), w2), sv2) \<and> rw_status w2 = 200 \<and> rw_body w2 = [Raw ''hello'']"
proof -
  let ?u = "newUploader 0 :: (string \<times> uploadRef list) list uploader"
  let ?g = "bolt_server 0 demo_bolt_env demo_uploader"
  obtain r1 w1 sv1 where 1: "Server demo_senv ?g 0 demo_put new_response
      \<lparr>sv_requestID = 0, sv_world = (?u, demo_bolt1)\<rparr> = ((r1, w1), sv1)" by (metis prod.collapse)
  obtain r2 w2 sv2 where 2: "Server demo_senv ?g 0 demo_get new_response sv1 = ((r2, w2), sv2)"
    by (metis prod.collapse)
  have b: "bolt_has_bucket demo_bolt_env demo_bolt1 ''b''"
    by (simp add: bolt_has_bucket_def demo_bolt_env_def alist_bolt_def demo_bolt1_def)
  have a: "bolt_accepts demo_bolt_env alist_view (\<lambda>_. True) demo_bolt1 ''b'' ''k'' ''hello''
      [(''Last-Modified'', ''Thu, 01 Jan 1970 00:00:00 GMT'')]"
    using demo_bolt1_ok
    by (simp add: bolt_accepts_def metaBucketName_def plain_meta_def)
      (simp add: demo_bolt_env_def alist_bolt_def)
  have m: "se_md5 demo_senv = bn_md5 demo_bolt_env" by (simp add: demo_senv_def demo_bolt_env_def)
  note l = bolt_http_put_then_get [OF demo_bolt_laws b a demo_requests(1) demo_bolt_requests(1)
      demo_requests(2,3) _ m demo_bolt_requests(2,3) 1 2]
  then show ?thesis using 1 2 by (auto simp: KeySizeLimit_def)
qed

lemma bolt_infos_meta: "bolt_infos env now t names = Ok infos \<Longrightarrow> metaBucketName \<notin> bi_Name ` set infos"
  by (induction names arbitrary: infos)
    (auto simp: rbind_eq_Ok bolt_info_def Let_def split: if_splits)

text \<open>
  The bucket of metadata is exposed. After any bucket has been made, the database has a bucket named
  \<open>_meta\<close> as far as the server can tell, though no listing of the buckets shows it: requests for its
  objects pass the check of every handler, and deleting the object \<open>bucket/name\<close> of it makes the
  database forget when the bucket \<open>name\<close> was made.
\<close>

theorem bolt_meta_exposed:
  assumes "s3bolt_laws env view entries cursor_of fits" "bolt_CreateBucket env name db = (Ok (), db')"
    and "name \<noteq> ''''" "\<forall>t. bt_Commit (bn_bolt env) t = None"
  shows "bolt_BucketExists env metaBucketName db' = (Ok True, db') \<and>
    (case fst (bolt_ListBuckets env db') of Ok infos \<Rightarrow> metaBucketName \<notin> bi_Name ` set infos | _ \<Rightarrow> True) \<and>
    (\<exists>db''. bolt_DeleteObject env metaBucketName (bucketMetaKey name) db' = (Ok emptyDeleteResult, db'') \<and>
      s3Bucket env (sb_bolt db'') name = Ok None)"
proof -
  have v: "view (sb_bolt db') metaBucketName \<noteq> None"
    by (rule s3bolt_laws.CreateBucket_meta [OF assms(1-3)])
  have "bt_Bucket (bn_bolt env) (sb_bolt db') metaBucketName"
    using v bolt_laws.Bucket [OF assms(1) [unfolded s3bolt_laws_def]] by blast
  moreover have "case fst (bolt_ListBuckets env db') of Ok infos \<Rightarrow> metaBucketName \<notin> bi_Name ` set infos | _ \<Rightarrow> True"
    by (auto simp: bolt_ListBuckets_def db_View_def dest: bolt_infos_meta split: res.splits)
  ultimately show ?thesis
    using s3bolt_laws.forget_bucket [OF assms(1) v assms(4)]
    by (simp add: bolt_BucketExists_def db_View_def)
qed

lemma bolt_meta_exposed_witness:
  "\<exists>db'. bolt_CreateBucket demo_bolt_env ''b'' demo_bolt0 = (Ok (), db') \<and>
     bolt_BucketExists demo_bolt_env metaBucketName db' = (Ok True, db')"
proof -
  obtain db' where c: "bolt_CreateBucket demo_bolt_env ''b'' demo_bolt0 = (Ok (), db')"
    by (simp add: bolt_CreateBucket_def db_Update_def bolt_Update_def act_bind_def metaBucket_writable_def
        createS3Bucket_def demo_bolt_env_def alist_bolt_def alist_bson_def demo_bolt0_def metaBucketName_def
        bucketMetaKey_def act_res_def)
  have "\<forall>t. bt_Commit (bn_bolt demo_bolt_env) t = None" by (simp add: demo_bolt_env_def alist_bolt_def)
  from bolt_meta_exposed [OF demo_bolt_laws c _ this] c show ?thesis by blast
qed

end
