(* ===== verification/MemPaging.thy ===== *)
theory MemPaging
  imports MemProperties
begin

text \<open>
  That listings of \<open>s3mem\<close> end: the loops never use up their fuel, whatever the page, the prefix and the
  markers are, and a client that follows the markers from page to page gets everything and stops.
\<close>

text \<open>
  A client that asks for pages of \<open>k\<close> keys until one is not truncated; \<open>lst\<close> is the call of \<open>ListBucket\<close>. \<open>None\<close> if
  a page fails or there are more than \<open>n\<close> pages.
\<close>

fun follow_pages ::
    "nat \<Rightarrow> (ListBucketPage \<Rightarrow> ('s, ObjectList) act) \<Rightarrow> int \<Rightarrow> string \<Rightarrow> bool \<Rightarrow> 's \<Rightarrow> Content list option" where
  "follow_pages 0 lst k m hm s = None"
| "follow_pages (Suc n) lst k m hm s =
     (case lst \<lparr>pg_Marker = m, pg_HasMarker = hm, pg_MaxKeys = k\<rparr> s of
        (Ok ol, s') \<Rightarrow>
          if ol_IsTruncated ol then
            map_option (\<lambda>cs. ol_Contents ol @ cs) (follow_pages n lst k (ol_NextMarker ol) True s')
          else Some (ol_Contents ol)
      | _ \<Rightarrow> None)"

context s3mem_laws
begin

lemma follow_pages_listing:
  assumes "mem_bucket db name = Some b" "bucket_ok env ventries c b" "all_current env b"
    and "\<not> HasDelimiter p" "0 < k" "k \<le> max_int64" "bucket_object env b '''' = None"
    and "length xs div nat k < n" "xs = listing p (after_marker m (oentries (bk_objects b)))"
  shows "follow_pages n (mem_ListBucket env name (Some p)) k m hm db = Some xs"
  using assms(8,9)
proof (induction n arbitrary: m hm xs)
  case (Suc n)
  obtain ol where ol:
    "mem_ListBucket env name (Some p) \<lparr>pg_Marker = m, pg_HasMarker = hm, pg_MaxKeys = k\<rparr> db = (Ok ol, db)"
    "ol_CommonPrefixes ol = []" "ol_Contents ol = take (nat k) xs"
    "\<not> ol_IsTruncated ol \<longrightarrow> ol_Contents ol = xs"
    "ol_IsTruncated ol \<longrightarrow> int (length (ol_Contents ol)) = k \<and>
       ol_NextMarker ol = ct_Key (last (ol_Contents ol)) \<and>
       listing p (after_marker (ol_NextMarker ol) (oentries (bk_objects b))) = drop (nat k) xs"
    by (rule ListBucket_page [OF assms(1-7) Suc.prems(2), where hm = hm])
  show ?case
  proof (cases "ol_IsTruncated ol")
    case True
    then have "nat k \<le> length xs" using ol(3,5) by auto
    then have "length (drop (nat k) xs) div nat k < n"
      using Suc.prems(1) assms(5) by (simp add: le_div_geq)
    moreover have "drop (nat k) xs = listing p (after_marker (ol_NextMarker ol) (oentries (bk_objects b)))"
      using ol(5) True by metis
    ultimately have "follow_pages n (mem_ListBucket env name (Some p)) k (ol_NextMarker ol) True db =
        Some (drop (nat k) xs)" by (rule Suc.IH)
    then show ?thesis using ol(1,3) True by simp
  qed (use ol in simp)
qed simp

text \<open>
  The first page of one key, if that is the empty key and there are more keys: its next marker is empty, and this is
  the marker of the first page.
\<close>

lemma empty_key_page:
  assumes "mem_bucket db name = Some b" "all_current env b" "\<not> HasDelimiter p"
    and "xs = listing p (after_marker '''' (oentries (bk_objects b)))" "1 < length xs" "ct_Key (hd xs) = ''''"
  shows "\<exists>ol. mem_ListBucket env name (Some p) \<lparr>pg_Marker = '''', pg_HasMarker = hm, pg_MaxKeys = 1\<rparr> db = (Ok ol, db) \<and>
    ol_IsTruncated ol \<and> ol_NextMarker ol = ''''"
proof -
  let ?es = "after_marker '''' (oentries (bk_objects b))"
  have data: "\<forall>e \<in> set ?es. bo_data (snd e) \<noteq> None"
    using assms(2) by (auto simp: set_after_marker entry_object all_current_def)
  have k: "(1 :: int) \<le> max_int64" by (simp add: max_int64_def)
  note fold = flat_fold_page [OF assms(3) k data order_refl zero_less_one, of NewObjectList "''''"]
  obtain pre e rest where e: "?es = pre @ e # rest" "visible p (entry_data e)" "length (listing p (pre @ [e])) = 1"
    "list_range (lb_body p 1) (Ok (NewObjectList, 0, '''', False)) ?es =
      (Ok (NewObjectList\<lparr>ol_Contents := ol_Contents NewObjectList @ listing p (pre @ [e]),
             ol_NextMarker := bd_name (entry_data e)\<rparr>, 1, '''', True), rest, True)"
  proof -
    have "\<not> int (length (listing p ?es)) < 1 - 0" using assms(4,5) by auto
    with fold show thesis using that by (simp only: if_False) auto
  qed
  have xs: "xs = listing p (pre @ [e]) @ listing p rest" using e(1) assms(4) by simp
  then have "rest \<noteq> []" using assms(5) e(3) by auto
  moreover have "listing p (pre @ [e]) = [content_of (entry_data e)]" using e(2,3) by simp
  then have "bd_name (entry_data e) = ''''" using xs assms(6) by (simp add: content_of_def)
  ultimately show ?thesis
    using ListBucket_fold [OF assms(1), of "Some p" "\<lparr>pg_Marker = '''', pg_HasMarker = hm, pg_MaxKeys = 1\<rparr>", simplified, OF e(4)]
    by simp
qed

section \<open>The loops end\<close>

lemma rbind_eq_NoFuel: "rbind r f = NoFuel \<longleftrightarrow> r = NoFuel \<or> (\<exists>x. r = Ok x \<and> f x = NoFuel)"
  by (cases r) auto

lemma ListBucket_answer:
  assumes "mem_bucket db name = Some b"
  shows "\<exists>r. mem_ListBucket env name prefix page db = (r, db) \<and>
    ((\<exists>ol. r = Ok ol) \<or> r = Panic \<and> \<not> all_current env b)"
proof -
  let ?p = "case prefix of None \<Rightarrow> emptyPrefix | Some p \<Rightarrow> p"
  let ?es = "after_marker (pg_Marker page) (oentries (bk_objects b))"
  let ?ok = "\<lambda>st :: lb_state res. is_ok st \<or> st = Panic \<and> \<not> all_current env b"
  obtain st rest broke where l: "list_range (lb_body ?p (pg_MaxKeys page)) (Ok (NewObjectList, 0, '''', False)) ?es =
      (st, rest, broke)" by (metis prod_cases3)
  have body: "?ok t'"
    if e: "e \<in> set ?es" and t: "?ok t"
      and b: "lb_body ?p (pg_MaxKeys page) e t = Continue t' \<or> lb_body ?p (pg_MaxKeys page) e t = Break t'" for e t t'
  proof (cases "bo_data (snd e)")
    case None
    have "e \<in> set (oentries (bk_objects b))" using e by (auto simp: set_after_marker)
    then have "\<not> all_current env b" using None by (auto simp: entry_object all_current_def)
    then show ?thesis using b None by (auto simp: lb_body_def)
  next
    case (Some d)
    then show ?thesis
      using t b by (auto simp: lb_body_def lb_item_def lb_count_def Let_def is_ok_def
          split: res.splits option.splits if_splits prod.splits)
  qed
  have "?ok st" by (rule list_range_invariant [OF l, of ?ok]) (use body in \<open>simp add: is_ok_def\<close>, use body in blast)
  then show ?thesis using ListBucket_fold [OF assms l] by (cases st) (auto simp: is_ok_def)
qed

lemma bo_Seek_yields:
  assumes "bo_Seek env (bo_Iterator env obj) key = Ok (True, it)"
  shows "\<exists>vs e. yields (bo_step env) it vs e \<and> length vs < versions_fuel env obj"
proof -
  obtain m where m: "bo_versions obj = Some m"
    using assms by (cases "bo_versions obj") (auto simp: bo_Seek_def bo_Iterator_def)
  let ?i = "sl_iterator (env_vsl env) m" and ?xs = "ventries m"
  have v: "vview ?i = (?xs, 0)" by (rule vsl.view_iterator)
  have fuel: "versions_fuel env obj = length ?xs + 2" by (simp add: versions_fuel_def m vsl.len_entries)
  obtain ok i where s: "it_seek (env_vsl env) ?i key = (ok, i)" by fastforce
  show ?thesis
  proof (cases "before_key key ?xs < length ?xs")
    case True
    then have i: "ok" "vview i = (?xs, Suc (before_key key ?xs))" using vsl.view_seek [OF v True] s by simp_all
    then have it: "it = \<lparr>bi_data = bo_data obj, bi_iter = Some i, bi_cur = None, bi_done = False\<rparr>"
      using assms s m by (simp add: bo_Seek_def bo_Iterator_def)
    from bo_yields_iter [OF i(2), of "bo_data obj" None] True
    show ?thesis unfolding it fuel by (fastforce simp: opt_list_def split: option.splits)
  next
    case False
    then have "before_key key ?xs = length ?xs" using vsl.before_key_le [of key ?xs] by simp
    from vsl.view_seek_miss [OF v _ this] s have "\<not> ok" by simp
    then have it: "it = \<lparr>bi_data = bo_data obj, bi_iter = None, bi_cur = None, bi_done = False\<rparr>"
      using assms s m by (auto simp: bo_Seek_def bo_Iterator_def split: if_splits)
    from bo_yields_data [of "bo_data obj" None]
    show ?thesis unfolding it fuel by (fastforce simp: opt_list_def split: option.splits)
  qed
qed

lemma versions_start_yields:
  assumes "versions_start env first marker obj = Ok it"
  shows "\<exists>vs e. yields (bo_step env) it vs e \<and> length vs < versions_fuel env obj"
proof (cases "first \<and> marker \<noteq> ''''")
  case True
  then have "bo_Seek env (bo_Iterator env obj) marker = Ok (True, it)"
    using assms by (auto simp: versions_start_def rbind_eq_Ok split: if_splits)
  then show ?thesis by (rule bo_Seek_yields)
next
  case False
  then have it: "it = bo_Iterator env obj" using assms by (auto simp: versions_start_def)
  show ?thesis unfolding it using bo_yields [of obj]
    by (fastforce simp: older_def opt_list_def versions_fuel_def vsl.len_entries split: option.splits)
qed

lemma versions_loop_ends:
  assumes "go_range (versions_fuel env obj) (bo_step env) body s it = None"
  shows "versions_start env first marker obj \<noteq> Ok it"
proof
  assume "versions_start env first marker obj = Ok it"
  then obtain vs e where y: "yields (bo_step env) it vs e" "length vs < versions_fuel env obj"
    using versions_start_yields by blast
  obtain s' rest broke where "list_range body s vs = (s', rest, broke)" by (metis prod_cases3)
  from go_range_yields [OF y this] assms show False by auto
qed

lemma versions_start_ends: "versions_start env first marker obj \<noteq> NoFuel"
  by (auto simp: versions_start_def bo_Seek_def Let_def rbind_eq_NoFuel
      split: option.splits prod.splits if_splits bool.splits)

lemma lv_object_ends:
  "lv_object env status page obj st \<noteq> Break NoFuel" "lv_object env status page obj st \<noteq> Continue NoFuel"
  using versions_start_ends
  by (auto simp: lv_object_def split: res.splits option.splits prod.splits if_splits dest: versions_loop_ends)

lemma versions_iterator_yields:
  "\<exists>es e. yields (gs_step (env_osl env))
     (if marker \<noteq> '''' then snd (gs_Seek (env_osl env) (gs_New (sl_iterator (env_osl env) m)) marker)
      else gs_New (sl_iterator (env_osl env) m)) es e \<and> length es < Suc (sl_len (env_osl env) m)"
proof -
  let ?g = "gs_New (sl_iterator (env_osl env) m)" and ?xs = "oentries m"
  have v: "oview (gs_inner ?g) = (?xs, 0)" by (simp add: gs_New_def osl.view_iterator)
  consider (new) "marker = ''''" | (hit) "marker \<noteq> ''''" "before_key marker ?xs < length ?xs"
    | (miss) "marker \<noteq> ''''" "before_key marker ?xs = length ?xs"
    using osl.before_key_le [of marker ?xs] by fastforce
  then show ?thesis
  proof cases
    case new
    then show ?thesis using osl.gs_yields_new [of m] by (auto simp: osl.len_entries)
  next
    case hit
    then show ?thesis using osl.gs_yields_seek [OF v hit(2)] by (fastforce simp: osl.len_entries)
  next
    case miss
    then show ?thesis using osl.gs_yields_seek_miss [OF v _ miss(2)] by fastforce
  qed
qed

lemma ListBucketVersions_ends:
  "fst (mem_ListBucketVersions env name prefix page db) \<noteq> NoFuel \<and>
   snd (mem_ListBucketVersions env name prefix page db) = db"
proof (cases "mem_bucket db name")
  case (Some b)
  let ?p = "case prefix of None \<Rightarrow> emptyPrefix | Some p \<Rightarrow> p"
  let ?pg = "case page of None \<Rightarrow> emptyVersionsPage | Some g \<Rightarrow> g"
  let ?body = "lv_body env ?p (bk_versioning b) ?pg"
  let ?s0 = "Ok (NewListBucketVersionsResult name (Some ?p) (Some ?pg), 0, True, False)"
  obtain es e where y: "yields (gs_step (env_osl env))
      (if vp_KeyMarker ?pg \<noteq> '''' then snd (gs_Seek (env_osl env) (gs_New (sl_iterator (env_osl env) (bk_objects b)))
         (vp_KeyMarker ?pg)) else gs_New (sl_iterator (env_osl env) (bk_objects b))) es e"
    "length es < Suc (sl_len (env_osl env) (bk_objects b))"
    using versions_iterator_yields by blast
  obtain st rest broke where l: "list_range ?body ?s0 es = (st, rest, broke)" by (metis prod_cases3)
  have "st \<noteq> NoFuel"
    by (rule list_range_invariant [OF l, of "\<lambda>t. t \<noteq> NoFuel"])
      (auto simp: lv_body_def lv_object_ends split: res.splits option.splits if_splits prod.splits)
  with go_range_yields [OF y l] Some show ?thesis
    by (cases st) (auto simp: mem_ListBucketVersions_def Let_def simp del: go_range.simps)
qed (simp add: mem_ListBucketVersions_def Let_def)

end

section \<open>The properties\<close>

text \<open>
  C30: listings end. For any prefix and any page \<open>ListBucket\<close> and \<open>ListBucketVersions\<close> answer without exhausting
  the fuel of their loops, which is one more than there are entries, and change nothing.
  \<open>ListBucket\<close> fails only with NoSuchBucket, and panics only if an object has no current version.
\<close>

theorem listings_end:
  assumes "s3mem_laws env oentries oview ventries vview"
  shows "fst (mem_ListBucketVersions env name prefix vpage db) \<noteq> NoFuel \<and>
    snd (mem_ListBucketVersions env name prefix vpage db) = db \<and>
    snd (mem_ListBucket env name prefix page db) = db \<and>
    (case fst (mem_ListBucket env name prefix page db) of
       Ok ol \<Rightarrow> mem_bucket db name \<noteq> None
     | Err e \<Rightarrow> e = BucketNotFound name \<and> mem_bucket db name = None
     | Panic \<Rightarrow> (\<exists>b. mem_bucket db name = Some b \<and> \<not> all_current env b)
     | NoFuel \<Rightarrow> False)"
proof (cases "mem_bucket db name")
  case None
  then show ?thesis
    using s3mem_laws.ListBucketVersions_ends [OF assms] by (simp add: mem_ListBucket_def Let_def)
next
  case (Some b)
  then show ?thesis
    using s3mem_laws.ListBucketVersions_ends [OF assms] s3mem_laws.ListBucket_answer [OF assms Some, of prefix page]
    by auto
qed

lemma listings_end_witness:
  "fst (mem_ListBucketVersions demo_env ''b'' None (Some (emptyVersionsPage\<lparr>vp_KeyMarker := ''z''\<rparr>)) demo_lit) \<noteq> NoFuel"
  using listings_end [OF demo_laws] by blast

text \<open>
  C9: a client that follows the markers is done, if the listing has no delimiter, every key of the bucket has a
  current version and no object has the empty key. It asks for pages of \<open>k\<close> keys, each behind the next marker of
  the one before, until one is not truncated. One page more than full pages fit into the unlimited listing is
  enough, and the pages put together are that listing. With an object under the empty key the client may ask for
  ever (\<open>empty_key_loops\<close>).
\<close>

theorem paging_ends:
  assumes "s3mem_laws env oentries oview ventries vview" "mem_ok env ventries db"
    and "mem_bucket db bucket = Some b" "all_current env b" "\<not> HasDelimiter p"
    and "0 < k" "k \<le> max_int64" "bucket_object env b '''' = None"
    and "mem_ListBucket env bucket (Some p) \<lparr>pg_Marker = m, pg_HasMarker = hm, pg_MaxKeys = 0\<rparr> db =
      (Ok whole, db)"
    and "length (ol_Contents whole) div nat k < n"
  shows "follow_pages n (mem_ListBucket env bucket (Some p)) k m hm db = Some (ol_Contents whole)"
proof -
  have "ol_Contents whole = listing p (after_marker m (oentries (bk_objects b)))"
    using s3mem_laws.ListBucket_flat [OF assms(1,3,4,5) order_refl, of m hm] assms(9) by auto
  then show ?thesis
    by (rule s3mem_laws.follow_pages_listing [OF assms(1,3) mem_okD(4) [OF assms(2,3)] assms(4-8,10)])
qed

text \<open>A bucket with two objects.\<close>

definition demo_two where
  "demo_two = snd (mem_PutObject demo_env ''b'' ''l'' (Some []) (bytes_reader ''bye'') 3
     (snd (mem_PutObject demo_env ''b'' ''k'' (Some []) (bytes_reader ''hello'') 5 demo_db0)))"

lemma demo_two_ok: "mem_ok demo_env alist_entries demo_two"
proof -
  have r: "mem_reachable demo_env demo_two"
    unfolding demo_two_def by (intro reach_step [OF _ step_put] demo_reachable(1))
  let ?one = "snd (mem_PutObject demo_env ''b'' ''k'' (Some []) (bytes_reader ''hello'') 5 demo_db0)"
  have "mem_count demo_two \<le> mem_count ?one + 1" unfolding demo_two_def by (rule put_count_le)
  also have "mem_count ?one \<le> 1" using put_count_le [of demo_env _ _ _ _ _ demo_db0] demo_counts_le(1) by simp
  finally have "mem_count demo_two < 10 ^ 30" by simp
  then show ?thesis by (rule demo.mem_reachable_ok [OF r])
qed

lemma demo_db0_buckets:
  "demo_db0 = \<lparr>db_buckets = [(''b'', \<lparr>bk_name = ''b'', bk_versioning = VersioningNone,
     bk_creationDate = 1000, bk_objects = []\<rparr>)], db_versionSource = db_versionSource demo_db0, db_now = 1000\<rparr>"
  by (simp add: demo_db0_def mem_CreateBucket_def mem_New_def mem_bucket_def mem_set_bucket_def
      newBucket_def demo_env_def alist_skiplist_def)

lemma demo_bodies: "ReadAll (bytes_reader ''bye'') 3 = Ok ''bye''" "ReadAll (bytes_reader ''hello'') 5 = Ok ''hello''"
  using ReadAll_bytes_reader [of "''bye''"] ReadAll_bytes_reader [of "''hello''"] by simp_all

lemma demo_two_bucket:
  "\<exists>d e. bd_name d = ''k'' \<and> bd_name e = ''l'' \<and> \<not> bd_deleteMarker d \<and> \<not> bd_deleteMarker e \<and>
     mem_bucket demo_two ''b'' = Some
       \<lparr>bk_name = ''b'', bk_versioning = VersioningNone, bk_creationDate = 1000,
        bk_objects = [(''k'', \<lparr>bo_name = ''k'', bo_data = Some d, bo_versions = None\<rparr>),
                      (''l'', \<lparr>bo_name = ''l'', bo_data = Some e, bo_versions = None\<rparr>)]\<rparr>"
proof -
  obtain v s1 where 1: "nextVersion (db_versionSource demo_db0) = (v, s1)" by (metis surj_pair)
  obtain w s2 where 2: "nextVersion s1 = (w, s2)" by (metis surj_pair)
  show ?thesis
    unfolding demo_two_def
    by (subst demo_db0_buckets) (simp add: mem_PutObject_def demo_bodies act_defs MergeMetadata_def mem_GetObject_def current_data_def carry_over_def Let_def
        mem_store_def bucket_put_def 1 2 mem_bucket_def mem_set_bucket_def object_or_new_def bucket_object_def
        bucket_store_def demo_env_def alist_skiplist_def)
qed

text \<open>
  Paging that does not end. If the empty key is the first of several that a listing has, then a client that asks for
  pages of one key each and follows the markers is never done.
\<close>

theorem empty_key_loops:
  assumes "s3mem_laws env oentries oview ventries vview" "mem_bucket db bucket = Some b" "all_current env b"
    and "\<not> HasDelimiter p"
    and "mem_ListBucket env bucket (Some p) \<lparr>pg_Marker = '''', pg_HasMarker = False, pg_MaxKeys = 0\<rparr> db = (Ok whole, db)"
    and "1 < length (ol_Contents whole)" "ct_Key (hd (ol_Contents whole)) = ''''"
  shows "follow_pages n (mem_ListBucket env bucket (Some p)) 1 '''' hm db = None"
proof -
  have w: "ol_Contents whole = listing p (after_marker '''' (oentries (bk_objects b)))"
    using s3mem_laws.ListBucket_flat [OF assms(1-4) order_refl, of "''''" False] assms(5) by auto
  show ?thesis
  proof (induction n arbitrary: hm)
    case (Suc n)
    from s3mem_laws.empty_key_page [OF assms(1-4) w assms(6,7), of hm] Suc.IH show ?case by auto
  qed simp
qed

definition demo_empty_key where
  "demo_empty_key = snd (mem_PutObject demo_env ''b'' ''k'' (Some []) (bytes_reader ''bye'') 3
     (snd (mem_PutObject demo_env ''b'' '''' (Some []) (bytes_reader ''hello'') 5 demo_db0)))"

lemma demo_empty_bucket:
  "\<exists>d e. bd_name d = '''' \<and> bd_name e = ''k'' \<and> \<not> bd_deleteMarker d \<and> \<not> bd_deleteMarker e \<and>
     mem_bucket demo_empty_key ''b'' = Some
       \<lparr>bk_name = ''b'', bk_versioning = VersioningNone, bk_creationDate = 1000,
        bk_objects = [('''', \<lparr>bo_name = '''', bo_data = Some d, bo_versions = None\<rparr>),
                      (''k'', \<lparr>bo_name = ''k'', bo_data = Some e, bo_versions = None\<rparr>)]\<rparr>"
proof -
  obtain v s1 where 1: "nextVersion (db_versionSource demo_db0) = (v, s1)" by (metis surj_pair)
  obtain w s2 where 2: "nextVersion s1 = (w, s2)" by (metis surj_pair)
  show ?thesis
    unfolding demo_empty_key_def
    by (subst demo_db0_buckets) (simp add: mem_PutObject_def demo_bodies act_defs MergeMetadata_def mem_GetObject_def
        current_data_def carry_over_def Let_def mem_store_def bucket_put_def 1 2 mem_bucket_def mem_set_bucket_def
        object_or_new_def bucket_object_def bucket_store_def demo_env_def alist_skiplist_def)
qed

lemma empty_key_loops_witness:
  "follow_pages n (mem_ListBucket demo_env ''b'' (Some emptyPrefix)) 1 '''' False demo_empty_key = None"
proof -
  obtain d e b where n: "bd_name d = ''''" "bd_name e = ''k''" "\<not> bd_deleteMarker d" "\<not> bd_deleteMarker e"
    and b: "mem_bucket demo_empty_key ''b'' = Some b"
    and o: "bk_objects b = [('''', \<lparr>bo_name = '''', bo_data = Some d, bo_versions = None\<rparr>),
                      (''k'', \<lparr>bo_name = ''k'', bo_data = Some e, bo_versions = None\<rparr>)]"
    using demo_empty_bucket by auto
  have c: "all_current demo_env b" by (simp add: all_current_def bucket_object_def o demo_env_def alist_skiplist_def)
  have p: "\<not> HasDelimiter emptyPrefix" by (simp add: emptyPrefix_def)
  have es: "alist_entries (bk_objects b) = bk_objects b" by (simp add: o alist_entries_def)
  have v: "visible emptyPrefix d" "visible emptyPrefix e"
    using n by (simp_all add: visible_def prefix_Match_def emptyPrefix_def)
  note l = demo.ListBucket_flat [OF b c p order_refl, of "''''" False]
  have "listing emptyPrefix (after_marker '''' (alist_entries (bk_objects b))) = [content_of d, content_of e]"
    unfolding es using n v by (simp add: o after_marker_def entry_data_def)
  then show ?thesis
    by (intro empty_key_loops [OF demo_laws b c p l]) (simp_all add: n content_of_def)
qed

lemma paging_ends_witness:
  "\<exists>whole. follow_pages 3 (mem_ListBucket demo_env ''b'' (Some emptyPrefix)) 1 '''' False demo_two = Some whole \<and>
     map ct_Key whole = [''k'', ''l'']"
proof -
  obtain d e b where n: "bd_name d = ''k''" "bd_name e = ''l''" "\<not> bd_deleteMarker d" "\<not> bd_deleteMarker e"
    and b: "mem_bucket demo_two ''b'' = Some b"
    and o: "bk_objects b = [(''k'', \<lparr>bo_name = ''k'', bo_data = Some d, bo_versions = None\<rparr>),
                      (''l'', \<lparr>bo_name = ''l'', bo_data = Some e, bo_versions = None\<rparr>)]"
    using demo_two_bucket by auto
  have c: "all_current demo_env b" "bucket_object demo_env b '''' = None"
    by (simp_all add: all_current_def bucket_object_def o demo_env_def alist_skiplist_def)
  have p: "\<not> HasDelimiter emptyPrefix" by (simp add: emptyPrefix_def)
  have es: "alist_entries (bk_objects b) = bk_objects b" by (simp add: o alist_entries_def)
  have v: "visible emptyPrefix d" "visible emptyPrefix e"
    using n by (simp_all add: visible_def prefix_Match_def emptyPrefix_def)
  note l = demo.ListBucket_flat [OF b c(1) p order_refl, of "''''" False]
  let ?l = "listing emptyPrefix (after_marker '''' (alist_entries (bk_objects b)))"
  have keys: "map ct_Key ?l = [''k'', ''l'']"
    unfolding es using n v by (simp add: o after_marker_def entry_data_def content_of_def)
  have "length ?l = 2" using arg_cong [OF keys, of length] by simp
  then show ?thesis
    using paging_ends [OF demo_laws demo_two_ok b c(1) p _ _ c(2) l, of 1 3] keys by (simp add: max_int64_def)
qed

end
