(* ===== verification/GoPath.thy ===== *)
theory GoPath
  imports Prefix
begin

text \<open>
  What \<open>backend/s3afero\<close> uses of Go's packages \<open>path\<close> and \<open>path/filepath\<close>, on a system whose separator is the
  slash: there \<open>filepath.Join\<close> and \<open>Dir\<close> are those of \<open>path\<close>, and \<open>FromSlash\<close> and \<open>ToSlash\<close> do nothing.
\<close>

abbreviation slash :: char where
  "slash \<equiv> CHR ''/''"

text \<open>The elements of a cleaned path; \<open>out\<close> holds those before, the last one first.\<close>

fun clean_elems :: "bool \<Rightarrow> string list \<Rightarrow> string list \<Rightarrow> string list" where
  "clean_elems rooted out [] = rev out"
| "clean_elems rooted out (e # es) =
     (if e = '''' \<or> e = ''.'' then clean_elems rooted out es
      else if e = ''..'' then
        (case out of
           [] \<Rightarrow> if rooted then clean_elems rooted [] es else clean_elems rooted [''..''] es
         | o1 # out' \<Rightarrow>
             if o1 = ''..'' then clean_elems rooted (''..'' # out) es else clean_elems rooted out' es)
      else clean_elems rooted (e # out) es)"

definition path_Clean :: "string \<Rightarrow> string" where
  "path_Clean p =
     (let rooted = has_prefix p ''/'';
          r = join (clean_elems rooted [] (split_char slash p)) ''/''
      in if rooted then ''/'' @ r else if r = '''' then ''.'' else r)"

definition path_Join :: "string list \<Rightarrow> string" where
  "path_Join elems =
     (let es = filter (\<lambda>e. e \<noteq> '''') elems in if es = [] then '''' else path_Clean (join es ''/''))"

definition path_Dir :: "string \<Rightarrow> string" where
  "path_Dir p =
     path_Clean (case last_index_byte p slash of None \<Rightarrow> '''' | Some i \<Rightarrow> take (i + 1) p)"

lemmas path_defs [go_eval] = path_Clean_def path_Join_def path_Dir_def

section \<open>Plain paths\<close>

text \<open>A relative path whose elements are ordinary names; such a path is clean.\<close>

definition plain_elem :: "string \<Rightarrow> bool" where
  "plain_elem e \<longleftrightarrow> e \<noteq> '''' \<and> e \<noteq> ''.'' \<and> e \<noteq> ''..''"

definition plain_path :: "string \<Rightarrow> bool" where
  "plain_path p \<longleftrightarrow> list_all plain_elem (split_char slash p)"

lemmas plain_path_eval [go_eval] = plain_path_def plain_elem_def

lemma plain_path_append:
  "plain_path (p @ slash # q) \<longleftrightarrow> plain_path p \<and> plain_path q"
  by (simp add: plain_path_def split_char_append)

lemma plain_path_nonempty: "plain_path p \<Longrightarrow> p \<noteq> ''''"
  by (auto simp: plain_path_def plain_elem_def)

lemma plain_not_root: "plain_path p \<Longrightarrow> p \<noteq> ''.''"
  by (auto simp: plain_path_def plain_elem_def)

lemma clean_plain:
  "list_all plain_elem es \<Longrightarrow> clean_elems rooted out (es @ fs) = clean_elems rooted (rev es @ out) fs"
  by (induction es arbitrary: out) (auto simp: plain_elem_def)

lemma plain_not_rooted: "plain_path p \<Longrightarrow> \<not> has_prefix p ''/''"
  by (cases p) (auto simp: plain_path_def plain_elem_def)

lemma Clean_plain [simp]: "plain_path p \<Longrightarrow> path_Clean p = p"
  using plain_path_nonempty [of p] plain_not_rooted [of p] clean_plain [of "split_char slash p" False "[]" "[]"]
  by (simp add: path_Clean_def plain_path_def)

lemma has_prefix_append_nonempty: "p \<noteq> [] \<Longrightarrow> has_prefix (p @ q) [c] \<longleftrightarrow> has_prefix p [c]"
  by (cases p) simp_all

lemma Clean_slash: "plain_path p \<Longrightarrow> path_Clean (p @ [slash]) = p"
  using plain_path_nonempty [of p] plain_not_rooted [of p]
    clean_plain [of "split_char slash p" False "[]" "[[]]"]
  by (simp add: path_Clean_def plain_path_def split_char_append has_prefix_append_nonempty Let_def)

lemma Join_plain:
  assumes "plain_path b" "plain_path k"
  shows "path_Join [b, k] = b @ slash # k"
  using assms plain_path_nonempty [of b] plain_path_nonempty [of k]
  by (simp add: path_Join_def plain_path_append)

text \<open>An element ".." takes back the one before it.\<close>

lemma Join_parent:
  assumes "plain_path b" "slash \<notin> set b" "plain_path p"
  shows "path_Join [b, ''../'' @ p] = p"
proof -
  have s: "split_char slash (b @ slash # ''..'' @ slash # p) = b # ''..'' # split_char slash p"
    by (simp add: split_char_append split_char_fresh [OF assms(2)])
  have b: "b \<noteq> ''''" "b \<noteq> ''.''" "b \<noteq> ''..''" "\<not> has_prefix b ''/''"
    using assms(1,2) by (auto simp: plain_path_def plain_elem_def split_char_fresh plain_not_rooted [OF assms(1)])
  have "clean_elems False [] (b # ''..'' # split_char slash p) = split_char slash p"
    using b assms(3) clean_plain [of "split_char slash p" False "[]" "[]"] by (simp add: plain_path_def)
  then show ?thesis
    using b s plain_path_nonempty [OF assms(3)] has_prefix_append_nonempty [OF b(1)]
    by (simp add: path_Join_def path_Clean_def)
qed

lemma last_index_byte_last: "slash \<notin> set n \<Longrightarrow> last_index_byte (d @ slash # n) slash = Some (length d)"
  by (induction d) (simp_all add: last_index_byte_None [THEN iffD2])

lemma Dir_plain: "plain_path d \<Longrightarrow> slash \<notin> set n \<Longrightarrow> path_Dir (d @ slash # n) = d"
  by (simp add: path_Dir_def last_index_byte_last Clean_slash)

text \<open>A plain path is a name, or a name in a directory with a plain path.\<close>

lemma plain_path_cases:
  assumes "plain_path p"
  obtains (name) "slash \<notin> set p" "path_Dir p = ''.''"
    | (dir) d n where "p = d @ slash # n" "slash \<notin> set n" "plain_path d" "path_Dir p = d"
proof (cases "last_index_byte p slash")
  case None
  then have "path_Dir p = ''.''" by (simp add: path_Dir_def path_Clean_def)
  with None show thesis using name by (simp add: last_index_byte_None)
next
  case (Some i)
  note s = last_index_byte_Some [OF Some]
  have "p = take i p @ slash # drop (i + 1) p" using s by blast
  moreover from this assms have "plain_path (take i p)" by (metis plain_path_append)
  ultimately show thesis using dir [of "take i p" "drop (i + 1) p"] s Dir_plain by metis
qed

end
