(* ===== verification/Afero.thy ===== *)
theory Afero
  imports GoPath Messages Readers Backend
begin

text \<open>
  The third-party file system under \<open>backend/s3afero\<close>: \<open>afero.Fs\<close> and the helpers \<open>ReadFile\<close>, \<open>WriteFile\<close>,
  \<open>ReadDir\<close>, \<open>Exists\<close> and \<open>Walk\<close> of the package, as a record of operations over the state \<open>'w\<close> of the world. The
  file systems of one back end (its base, that of the buckets and that of the metadata) are records
  over the same state. Operations that only read are functions of the state.

  An error is one for which \<open>os.IsNotExist\<close> and \<open>errors.Is(err, os.ErrNotExist)\<close> hold, or another one. An
  open file is the outcome of its \<open>Stat\<close>, what reading it delivers, and what reading it delivers after
  a \<open>Seek\<close> from the start. \<open>Walk\<close> is the list of the calls of its callback.
\<close>

datatype fs_error = NotExist string | OtherFs string

fun fs_err :: "fs_error \<Rightarrow> s3error" where
  "fs_err (NotExist msg) = EOther msg"
| "fs_err (OtherFs msg) = EOther msg"

fun IsNotExist :: "fs_error \<Rightarrow> bool" where
  "IsNotExist (NotExist _) = True"
| "IsNotExist (OtherFs _) = False"

record FileInfo =
  fi_Name :: string
  fi_Size :: int
  fi_ModTime :: int
  fi_IsDir :: bool

record open_file =
  fl_Stat :: "FileInfo + fs_error"
  fl_Reader :: reader
  fl_Seek :: "int \<Rightarrow> reader + fs_error"

record ('w, 'h) afero =
  fs_Stat :: "string \<Rightarrow> 'w \<Rightarrow> FileInfo + fs_error"
  fs_Exists :: "string \<Rightarrow> 'w \<Rightarrow> bool + fs_error"
  fs_ReadDir :: "string \<Rightarrow> 'w \<Rightarrow> FileInfo list + fs_error"
  fs_Walk :: "string \<Rightarrow> 'w \<Rightarrow> (string \<times> (FileInfo + fs_error)) list"
  fs_ReadFile :: "string \<Rightarrow> 'w \<Rightarrow> bytes + fs_error"
  fs_Open :: "string \<Rightarrow> 'w \<Rightarrow> open_file + fs_error"
  fs_OpenTruncate :: "string \<Rightarrow> 'w \<Rightarrow> ('h + fs_error) \<times> 'w"
    \<comment> \<open>\<open>OpenFile\<close> with \<open>O_CREATE|O_TRUNC|O_WRONLY\<close>\<close>
  fs_Create :: "string \<Rightarrow> 'w \<Rightarrow> ('h + fs_error) \<times> 'w"
  fs_Write :: "'h \<Rightarrow> bytes \<Rightarrow> 'w \<Rightarrow> (unit + fs_error) \<times> 'w"
  fs_Close :: "'h \<Rightarrow> 'w \<Rightarrow> (unit + fs_error) \<times> 'w"
  fs_WriteFile :: "string \<Rightarrow> bytes \<Rightarrow> 'w \<Rightarrow> (unit + fs_error) \<times> 'w"
  fs_MkdirAll :: "string \<Rightarrow> 'w \<Rightarrow> (unit + fs_error) \<times> 'w"
  fs_Remove :: "string \<Rightarrow> 'w \<Rightarrow> (unit + fs_error) \<times> 'w"
  fs_RemoveAll :: "string \<Rightarrow> 'w \<Rightarrow> (unit + fs_error) \<times> 'w"
  fs_Chtimes :: "string \<Rightarrow> int \<Rightarrow> 'w \<Rightarrow> (unit + fs_error) \<times> 'w"

section \<open>Sequences of file system calls\<close>

type_synonym ('w, 'a) fact = "'w \<Rightarrow> ('a + fs_error) \<times> 'w"

definition f_ok :: "'a \<Rightarrow> ('w, 'a) fact" where
  "f_ok x w = (Inl x, w)"

definition f_err :: "fs_error \<Rightarrow> ('w, 'a) fact" where
  "f_err e w = (Inr e, w)"

definition f_bind :: "('w, 'a) fact \<Rightarrow> ('a \<Rightarrow> ('w, 'b) fact) \<Rightarrow> ('w, 'b) fact" where
  "f_bind m k w = (case m w of (Inl x, w') \<Rightarrow> k x w' | (Inr e, w') \<Rightarrow> (Inr e, w'))"

definition f_get :: "('w \<Rightarrow> 'a + fs_error) \<Rightarrow> ('w, 'a) fact" where
  "f_get f w = (f w, w)"

text \<open>The outcome of a call as one of the back end; \<open>unless_missing\<close> answers its own error for \<open>IsNotExist\<close>.\<close>

definition fs_res :: "'a + fs_error \<Rightarrow> 'a res" where
  "fs_res r = (case r of Inl x \<Rightarrow> Ok x | Inr e \<Rightarrow> Err (fs_err e))"

definition unless_missing :: "s3error \<Rightarrow> 'a + fs_error \<Rightarrow> 'a res" where
  "unless_missing e r = (case r of Inl x \<Rightarrow> Ok x | Inr f \<Rightarrow> if IsNotExist f then Err e else Err (fs_err f))"

text \<open>\<open>io.LimitReader\<close>\<close>

definition LimitReader :: "reader \<Rightarrow> int \<Rightarrow> reader" where
  "LimitReader r n =
     (if int (length (rd_bytes r)) < n then r else bytes_reader (take (nat n) (rd_bytes r)))"

lemmas afero_act_defs [go_eval] =
  f_ok_def f_err_def f_bind_def f_get_def fs_res_def unless_missing_def LimitReader_def

text \<open>A range loop over a list with an accumulator; it stops at the first error.\<close>

fun act_fold :: "('a \<Rightarrow> 'b \<Rightarrow> ('s, 'b) act) \<Rightarrow> 'a list \<Rightarrow> 'b \<Rightarrow> ('s, 'b) act" where
  "act_fold f [] acc = act_ok acc"
| "act_fold f (x # xs) acc = act_bind (f x acc) (act_fold f xs)"

section \<open>Laws\<close>

text \<open>What is at a path: a directory or a file with its contents, and the modification time.\<close>

datatype fnode = Dir int | File bytes int

fun is_dir :: "fnode option \<Rightarrow> bool" where
  "is_dir (Some (Dir _)) = True"
| "is_dir _ = False"

fun describes :: "FileInfo \<Rightarrow> fnode \<Rightarrow> bool" where
  "describes i (Dir _) \<longleftrightarrow> fi_IsDir i"
| "describes i (File c t) \<longleftrightarrow> \<not> fi_IsDir i \<and> fi_Size i = int (length c) \<and> fi_ModTime i = t"

text \<open>No file is where a directory above the path should be.\<close>

definition reachable_path :: "(string \<Rightarrow> fnode option) \<Rightarrow> string \<Rightarrow> bool" where
  "reachable_path T p \<longleftrightarrow> (\<forall>d n. p = d @ slash # n \<longrightarrow> T d = None \<or> is_dir (T d))"

definition beneath :: "string \<Rightarrow> string \<Rightarrow> bool" where
  "beneath d p \<longleftrightarrow> (\<exists>n. p = d @ slash # n)"

lemma append_slash_cases:
  assumes "d @ slash # n = d' @ slash # n'" "slash \<notin> set n"
  shows "d' = d \<and> n' = n \<or> (\<exists>m. d = d' @ slash # m)"
proof -
  obtain us where "d = d' @ us \<and> us @ slash # n = slash # n' \<or> d @ us = d' \<and> slash # n = us @ slash # n'"
    using assms(1) by (auto simp: append_eq_append_conv2)
  then show ?thesis using assms(2) by (cases us) auto
qed

text \<open>
  A file system on which whatever exists can be read: \<open>tree\<close> is what is at each path and \<open>rest\<close> a part of
  the world that it leaves alone. Operations that write may fail; what they have done when they
  succeed, and what they have left alone in any case, is documented by \<open>os\<close>, which \<open>afero\<close> follows.
\<close>

locale afero_laws =
  fixes fs :: "('w, 'h) afero" and tree :: "'w \<Rightarrow> string \<Rightarrow> fnode option" and rest :: "'w \<Rightarrow> 'r"
  assumes Stat: "tree w p = Some n \<Longrightarrow> \<exists>i. fs_Stat fs p w = Inl i \<and> describes i n"
    and Stat_missing: "plain_path p \<Longrightarrow> tree w p = None \<Longrightarrow> reachable_path (tree w) p \<Longrightarrow>
      \<exists>msg. fs_Stat fs p w = Inr (NotExist msg)"
    and Exists: "tree w p \<noteq> None \<Longrightarrow> fs_Exists fs p w = Inl True"
      "plain_path p \<Longrightarrow> tree w p = None \<Longrightarrow> reachable_path (tree w) p \<Longrightarrow> fs_Exists fs p w = Inl False"
    and Open: "tree w p = Some (File c t) \<Longrightarrow> \<exists>f i. fs_Open fs p w = Inl f \<and> fl_Stat f = Inl i \<and>
      describes i (File c t) \<and> fl_Reader f = bytes_reader c \<and>
      (\<forall>off. 0 \<le> off \<longrightarrow> fl_Seek f off = Inl (bytes_reader (drop (nat off) c)))"
    and Open_dir: "is_dir (tree w p) \<Longrightarrow>
      (\<exists>e. fs_Open fs p w = Inr e) \<or> (\<exists>f i. fs_Open fs p w = Inl f \<and> fl_Stat f = Inl i \<and> fi_IsDir i)"
    and Open_missing: "plain_path p \<Longrightarrow> tree w p = None \<Longrightarrow>
      \<exists>e. fs_Open fs p w = Inr e \<and> (reachable_path (tree w) p \<longrightarrow> IsNotExist e)"
    and ReadFile: "tree w p = Some (File c t) \<Longrightarrow> fs_ReadFile fs p w = Inl c"
    and ReadFile_missing: "plain_path p \<Longrightarrow> tree w p = None \<Longrightarrow> reachable_path (tree w) p \<Longrightarrow>
      \<exists>msg. fs_ReadFile fs p w = Inr (NotExist msg)"
    and ReadDir_missing: "plain_path p \<Longrightarrow> tree w p = None \<Longrightarrow> reachable_path (tree w) p \<Longrightarrow>
      \<exists>msg. fs_ReadDir fs p w = Inr (NotExist msg)"
    and Walk: "is_dir (tree w d) \<Longrightarrow> distinct (map fst (fs_Walk fs d w)) \<and>
      fst ` set (fs_Walk fs d w) = insert d {p. beneath d p \<and> tree w p \<noteq> None} \<and>
      (\<forall>(p, r) \<in> set (fs_Walk fs d w). \<exists>i n. r = Inl i \<and> tree w p = Some n \<and> describes i n)"
    and Create: "plain_path p \<Longrightarrow> fs_Create fs p w = (opened, w') \<Longrightarrow> rest w' = rest w \<and>
      (case opened of Inl _ \<Rightarrow> \<exists>t. tree w' = (tree w)(p \<mapsto> File [] t) | Inr _ \<Rightarrow> tree w' = tree w)"
    and Write: "plain_path p \<Longrightarrow> fs_Create fs p w = (Inl h, w1) \<Longrightarrow> fs_Write fs h bts w1 = (r, w2) \<Longrightarrow>
      rest w2 = rest w1 \<and> (\<exists>c t. tree w2 = (tree w)(p \<mapsto> File c t) \<and> (r = Inl () \<longrightarrow> c = bts))"
    and Close: "plain_path p \<Longrightarrow> fs_Create fs p w = (Inl h, w1) \<Longrightarrow> tree w2 p = Some (File c t) \<Longrightarrow>
      fs_Close fs h w2 = (r, w3) \<Longrightarrow> rest w3 = rest w2 \<and> (\<exists>t'. tree w3 = (tree w2)(p \<mapsto> File c t'))"
    and WriteFile: "plain_path p \<Longrightarrow> fs_WriteFile fs p bts w = (r, w') \<Longrightarrow> rest w' = rest w \<and>
      (\<forall>q. q \<noteq> p \<longrightarrow> tree w' q = tree w q) \<and> (r = Inl () \<longrightarrow> (\<exists>t. tree w' p = Some (File bts t)))"
    and MkdirAll: "plain_path d \<Longrightarrow> fs_MkdirAll fs d w = (r, w') \<Longrightarrow> rest w' = rest w \<and>
      (\<forall>q. tree w' q = tree w q \<or> tree w q = None \<and> is_dir (tree w' q))"
    and Remove: "plain_path p \<Longrightarrow> fs_Remove fs p w = (r, w') \<Longrightarrow> rest w' = rest w \<and>
      tree w' = (if r = Inl () then (tree w)(p := None) else tree w)"
    and Remove_present: "tree w p \<noteq> None \<Longrightarrow> fst (fs_Remove fs p w) \<noteq> Inr (NotExist msg)"

lemma is_dir_Some: "is_dir x \<Longrightarrow> x \<noteq> None"
  by (cases x) auto

text \<open>The directories above something that exists exist.\<close>

definition tree_ok :: "(string \<Rightarrow> fnode option) \<Rightarrow> bool" where
  "tree_ok T \<longleftrightarrow> (\<forall>p. T p \<noteq> None \<longrightarrow> plain_path p) \<and> (\<forall>d n. T (d @ slash # n) \<noteq> None \<longrightarrow> is_dir (T d))"

lemma reachable_existing: "tree_ok T \<Longrightarrow> T p \<noteq> None \<Longrightarrow> reachable_path T p"
  by (auto simp: reachable_path_def tree_ok_def)

lemma reachable_flat:
  assumes "slash \<notin> set d" "slash \<notin> set n" "T d = None \<or> is_dir (T d)"
  shows "reachable_path T (d @ slash # n)"
  unfolding reachable_path_def
  using assms append_slash_cases [of d n] by (metis in_set_conv_decomp)

lemma reachable_in_dir:
  "tree_ok T \<Longrightarrow> is_dir (T d) \<Longrightarrow> slash \<notin> set n \<Longrightarrow> reachable_path T (d @ slash # n)"
  unfolding reachable_path_def tree_ok_def by (metis append_slash_cases is_dir_Some)

end
