(* ===== verification/AferoMeta.thy ===== *)
theory AferoMeta
  imports Afero
begin

text \<open>
  \<open>meta.go\<close>, \<open>modres.go\<close> and \<open>hash.go\<close> of \<open>backend/s3afero\<close>: the store of metadata documents, one file for each
  object, and the measurement of the resolution of modification times. The state of a back end is the
  world, the resolution measured (negative: not yet) and the reading of the clock.
\<close>

record 'w s3afero =
  sa_world :: 'w
  sa_modTimeRes :: int
  sa_now :: int

record Metadata =
  mt_File :: string
  mt_ModTime :: int
  mt_Size :: int
  mt_Hash :: bytes
  mt_Meta :: "gomap option"

definition zeroMetadata :: Metadata where
  "zeroMetadata = \<lparr>mt_File = '''', mt_ModTime = zero_time, mt_Size = 0, mt_Hash = [], mt_Meta = None\<rparr>"

text \<open>
  \<open>ae_base\<close> is the file system whose modification times are measured, \<open>ae_bucket\<close> that of the buckets (of
  the objects, for a single bucket) and \<open>ae_meta\<close> that of the metadata. \<open>json.Marshal\<close> may fail, as may
  \<open>json.Unmarshal\<close>, with a message.
\<close>

record ('w, 'h) afero_env =
  ae_base :: "('w, 'h) afero"
  ae_bucket :: "('w, 'h) afero"
  ae_meta :: "('w, 'h) afero"
  ae_Marshal :: "Metadata \<Rightarrow> bytes + string"
  ae_Unmarshal :: "bytes \<Rightarrow> Metadata + string"
  ae_md5 :: "bytes \<Rightarrow> bytes"

definition on_fs :: "('w, 'a) fact \<Rightarrow> ('w s3afero, 'a) fact" where
  "on_fs m db = (case m (sa_world db) of (r, w) \<Rightarrow> (r, db\<lparr>sa_world := w\<rparr>))"

definition fs_act :: "('w s3afero, 'a) fact \<Rightarrow> ('w s3afero, 'a) act" where
  "fs_act m db = (case m db of (r, db') \<Rightarrow> (fs_res r, db'))"

definition ask :: "('w \<Rightarrow> 'a res) \<Rightarrow> ('w s3afero, 'a) act" where
  "ask f db = (f (sa_world db), db)"

definition of_json :: "'a + string \<Rightarrow> 'a + fs_error" where
  "of_json r = (case r of Inl x \<Rightarrow> Inl x | Inr msg \<Rightarrow> Inr (OtherFs msg))"

section \<open>The resolution of modification times\<close>

text \<open>2019-01-01 12:00:00 UTC\<close>

definition modBaseTime :: int where
  "modBaseTime = 1546344000 * 1000000000"

definition modEqual :: "('w, 'h) afero \<Rightarrow> string \<Rightarrow> int \<Rightarrow> ('w, bool) fact" where
  "modEqual fs name dur =
     f_bind (fs_Chtimes fs name modBaseTime)
       (\<lambda>_. f_bind (f_get (fs_Stat fs name))
         (\<lambda>st0.
            if fi_ModTime st0 \<noteq> modBaseTime then f_err (OtherFs ''cannot set time to base time'')
            else
              f_bind (fs_Chtimes fs name (modBaseTime + dur))
                (\<lambda>_. f_bind (f_get (fs_Stat fs name))
                  (\<lambda>st1. f_ok (time_Sub (fi_ModTime st1) (fi_ModTime st0) = dur)))))"

definition resolutions :: "int list" where
  "resolutions =
     [1, 10, 100, 1000, 10000, 100000, 1000000, 10000000, 100000000, 1000000000, 2000000000]"

fun first_resolution :: "('w, 'h) afero \<Rightarrow> string \<Rightarrow> int list \<Rightarrow> ('w, int) fact" where
  "first_resolution fs name [] =
     f_err (OtherFs ''gofakes3: could not profile modtime resolution for filesystem'')"
| "first_resolution fs name (dur # durs) =
     f_bind (modEqual fs name dur)
       (\<lambda>eq. if eq then f_ok dur else first_resolution fs name durs)"

text \<open>Once the file is open it is removed at the end in any case.\<close>

definition modTimeResolution :: "('w, 'h) afero \<Rightarrow> ('w, int) fact" where
  "modTimeResolution fs w =
     (let name = ''.modtime-resolution''
      in case fs_OpenTruncate fs name w of
           (Inr e, w1) \<Rightarrow> (Inr e, w1)
         | (Inl tf, w1) \<Rightarrow>
             (case f_bind (fs_Close fs tf) (\<lambda>_. first_resolution fs name resolutions) w1 of
                (r, w2) \<Rightarrow> (r, snd (fs_Remove fs name w2))))"

text \<open>A failed measurement answers zero together with its error, and that is what is kept.\<close>

definition getModTimeRes :: "('w, 'h) afero_env \<Rightarrow> ('w s3afero, int) fact" where
  "getModTimeRes env db =
     (if sa_modTimeRes db < 0 then
        (case modTimeResolution (ae_base env) (sa_world db) of
           (Inl dur, w) \<Rightarrow> (Inl dur, db\<lparr>sa_world := w, sa_modTimeRes := dur\<rparr>)
         | (Inr e, w) \<Rightarrow> (Inr e, db\<lparr>sa_world := w, sa_modTimeRes := 0\<rparr>))
      else (Inl (sa_modTimeRes db), db))"

section \<open>Paths of metadata documents\<close>

text \<open>\<open>hash/fnv\<close>: FNV-1a with 128 bits, and its digest in big-endian order.\<close>

unbundle bit_operations_syntax

definition fnv_step :: "128 word \<Rightarrow> char \<Rightarrow> 128 word" where
  "fnv_step h c = (h XOR word_of_nat (of_char c)) * 0x1000000000000000000013B"

definition fnv128a :: "bytes \<Rightarrow> 128 word" where
  "fnv128a bs = foldl fnv_step 0x6c62272e07bb014262b821756295c58d bs"

definition fnv_Sum :: "128 word \<Rightarrow> bytes" where
  "fnv_Sum h = map (\<lambda>i. char_of (unat (drop_bit (8 * i) h AND 0xff))) (rev [0..<16])"

definition flat_name :: "string \<Rightarrow> string" where
  "flat_name object = map (\<lambda>c. if c = CHR ''/'' \<or> c = CHR 0x5C then CHR ''_'' else c) object"

definition meta_object :: "string \<Rightarrow> string" where
  "meta_object object = flat_name object @ ''-'' @ hex_encode (fnv_Sum (fnv128a object))"

text \<open>\<open>FilePath\<close> of the \<open>metaPath\<close> of an object\<close>

definition meta_path :: "string \<Rightarrow> string \<Rightarrow> string" where
  "meta_path bucket object = path_Join [bucket, meta_object object]"

section \<open>The metadata store\<close>

definition hashFile :: "('w, 'h) afero \<Rightarrow> (bytes \<Rightarrow> bytes) \<Rightarrow> string \<Rightarrow> ('w, bytes) fact" where
  "hashFile fs md5 path = f_bind (f_get (fs_Open fs path)) (\<lambda>f. f_ok (md5 (rd_bytes (fl_Reader f))))"

definition saveMeta :: "('w, 'h) afero_env \<Rightarrow> string \<Rightarrow> Metadata \<Rightarrow> ('w, unit) fact" where
  "saveMeta env path meta =
     f_bind (f_get (\<lambda>_. of_json (ae_Marshal env meta)))
       (\<lambda>bts. f_bind (fs_MkdirAll (ae_meta env) (path_Dir path))
         (\<lambda>_. fs_WriteFile (ae_meta env) path bts))"

text \<open>The bytes of a document; a missing one is empty.\<close>

definition read_document :: "('w, 'h) afero_env \<Rightarrow> string \<Rightarrow> 'w \<Rightarrow> bytes + fs_error" where
  "read_document env path w =
     (case fs_ReadFile (ae_meta env) path w of
        Inl bts \<Rightarrow> Inl bts
      | Inr e \<Rightarrow> if IsNotExist e then Inl [] else Inr e)"

definition stale :: "Metadata \<Rightarrow> int \<Rightarrow> int \<Rightarrow> int \<Rightarrow> bool" where
  "stale meta sz mtime modRes \<longleftrightarrow>
     (let modDiff = time_Sub mtime (mt_ModTime meta)
      in mt_Hash meta = [] \<or> mt_Size meta \<noteq> sz \<or> modDiff < - modRes \<or> modRes < modDiff)"

definition loadMeta ::
    "('w, 'h) afero_env \<Rightarrow> string \<Rightarrow> string \<Rightarrow> int \<Rightarrow> int \<Rightarrow> ('w s3afero, Metadata) fact" where
  "loadMeta env bucket object sz mtime =
     (let path = meta_path bucket object
      in f_bind (on_fs (f_get (read_document env path)))
           (\<lambda>bts. f_bind (f_get (\<lambda>_. if bts \<noteq> [] then of_json (ae_Unmarshal env bts) else Inl zeroMetadata))
             (\<lambda>meta. f_bind (getModTimeRes env)
               (\<lambda>modRes.
                  if stale meta sz mtime modRes then
                    f_bind (on_fs (hashFile (ae_meta env) (ae_md5 env) path))
                      (\<lambda>h. let meta' = meta\<lparr>mt_Size := sz, mt_ModTime := mtime, mt_Hash := h\<rparr>
                            in f_bind (on_fs (saveMeta env path meta')) (\<lambda>_. f_ok meta'))
                  else f_ok meta))))"

definition deleteMeta :: "('w, 'h) afero_env \<Rightarrow> string \<Rightarrow> ('w, unit) fact" where
  "deleteMeta env path w =
     (case fs_Remove (ae_meta env) path w of
        (Inr e, w') \<Rightarrow> (if IsNotExist e then Inl () else Inr e, w')
      | (Inl _, w') \<Rightarrow> (Inl (), w'))"

definition meta_deleteBucket :: "('w, 'h) afero_env \<Rightarrow> string \<Rightarrow> ('w, unit) fact" where
  "meta_deleteBucket env bucket w =
     (case fs_RemoveAll (ae_meta env) bucket w of
        (Inr e, w') \<Rightarrow> (if IsNotExist e then Inl () else Inr e, w')
      | (Inl _, w') \<Rightarrow> (Inl (), w'))"

section \<open>Writing an object\<close>

text \<open>
  The part of \<open>PutObject\<close> between \<open>Create\<close> and the call of \<open>Stat\<close>: \<open>io.Copy\<close> to the file and the hash, then
  \<open>Close\<close>. A file that has not been closed is closed when the function returns.
\<close>

definition copy_to_file :: "('w, 'h) afero \<Rightarrow> 'h \<Rightarrow> reader \<Rightarrow> ('w, bytes) act" where
  "copy_to_file fs f inp w =
     (case (if rd_bytes inp = [] then (Inl (), w) else fs_Write fs f (rd_bytes inp) w) of
        (Inr e, w1) \<Rightarrow> (Err (fs_err e), snd (fs_Close fs f w1))
      | (Inl _, w1) \<Rightarrow>
          (case rd_err inp of
             Some e \<Rightarrow> (Err e, snd (fs_Close fs f w1))
           | None \<Rightarrow>
               (case fs_Close fs f w1 of
                  (Inr e, w2) \<Rightarrow> (Err (fs_err e), snd (fs_Close fs f w2))
                | (Inl _, w2) \<Rightarrow> (Ok (rd_bytes inp), w2))))"

definition on_world_act :: "('w, 'a) act \<Rightarrow> ('w s3afero, 'a) act" where
  "on_world_act m db = (case m (sa_world db) of (r, w) \<Rightarrow> (r, db\<lparr>sa_world := w\<rparr>))"

lemmas afero_meta_defs [go_eval] =
  zeroMetadata_def on_fs_def fs_act_def ask_def of_json_def modBaseTime_def modEqual_def resolutions_def
  modTimeResolution_def getModTimeRes_def hashFile_def saveMeta_def read_document_def stale_def loadMeta_def
  deleteMeta_def meta_deleteBucket_def copy_to_file_def on_world_act_def

end
