(* ===== verification/AferoMulti.thy ===== *)
theory AferoMulti
  imports AferoMeta Validation
begin

text \<open>
  \<open>multi.go\<close> of \<open>backend/s3afero\<close>: buckets as directories of one file system, objects as files in them. The
  lock makes every operation one step; \<open>PutObject\<close> looks up the existing metadata before it takes the
  lock. The contents of an object are the bytes that its open file delivers.
\<close>

text \<open>\<open>exists, err := afero.Exists(db.bucketFs, bucketName)\<close> and the checks behind it\<close>

definition require_bucket :: "('w, 'h) afero_env \<Rightarrow> string \<Rightarrow> ('w s3afero, unit) act" where
  "require_bucket env bucketName =
     ask (\<lambda>w. rbind (fs_res (fs_Exists (ae_bucket env) bucketName w))
       (\<lambda>exists. if exists then Ok () else Err (BucketNotFound bucketName)))"

definition afero_content :: "string \<Rightarrow> int \<Rightarrow> int \<Rightarrow> Metadata \<Rightarrow> Content" where
  "afero_content key sz mtime meta =
     \<lparr>ct_Key = key, ct_LastModified = mtime, ct_ETag = quoted (hex_encode (mt_Hash meta)),
      ct_Size = sz, ct_StorageClass = '''', ct_Owner = None\<rparr>"

definition afero_object :: "string \<Rightarrow> Metadata \<Rightarrow> int \<Rightarrow> ObjectRange option \<Rightarrow> bytes \<Rightarrow> Object" where
  "afero_object objectName meta sz rnge contents =
     \<lparr>ob_Name = objectName, ob_Metadata = mt_Meta meta, ob_Size = sz, ob_Contents = contents,
      ob_Hash = mt_Hash meta, ob_Range = rnge, ob_VersionID = '''', ob_IsDeleteMarker = False\<rparr>"

section \<open>Listings\<close>

definition multi_ListBuckets :: "('w, 'h) afero_env \<Rightarrow> ('w s3afero, BucketInfo list) act" where
  "multi_ListBuckets env =
     ask (\<lambda>w. rbind (fs_res (fs_ReadDir (ae_bucket env) '''' w))
       (\<lambda>entries. Ok (map (\<lambda>e. \<lparr>bi_Name = fi_Name e, bi_CreationDate = fi_ModTime e\<rparr>)
                        (filter (\<lambda>e. ValidateBucketName (fi_Name e) = None) entries))))"

definition multi_dir_entry ::
    "('w, 'h) afero_env \<Rightarrow> string \<Rightarrow> string \<Rightarrow> string \<Rightarrow> FileInfo \<Rightarrow> ObjectList \<Rightarrow> ('w s3afero, ObjectList) act" where
  "multi_dir_entry env bucket prefixPath prefixPart entry response =
     (let object = fi_Name entry;
          objectPath = path_Join [prefixPath, object]
      in if prefixPart \<noteq> '''' \<and> \<not> has_prefix object prefixPart then act_ok response
         else if fi_IsDir entry then
           act_ok (ol_AddPrefix response (path_Join [prefixPath, prefixPart, fi_Name entry] @ ''/''))
         else
           act_bind (fs_act (loadMeta env bucket objectPath (fi_Size entry) (fi_ModTime entry)))
             (\<lambda>meta. act_ok (ol_Add response
                (afero_content objectPath (fi_Size entry) (fi_ModTime entry) meta))))"

definition multi_file_prefix ::
    "('w, 'h) afero_env \<Rightarrow> string \<Rightarrow> string \<Rightarrow> string \<Rightarrow> ('w s3afero, ObjectList) act" where
  "multi_file_prefix env bucket prefixPath prefixPart =
     act_bind (ask (\<lambda>w. unless_missing (BucketNotFound bucket)
         (fs_ReadDir (ae_bucket env) (path_Join [bucket, prefixPath]) w)))
       (\<lambda>dirEntries. act_fold (multi_dir_entry env bucket prefixPath prefixPart) dirEntries NewObjectList)"

definition multi_visit ::
    "('w, 'h) afero_env \<Rightarrow> string \<Rightarrow> Prefix \<Rightarrow> string \<times> (FileInfo + fs_error) \<Rightarrow> ObjectList \<Rightarrow>
     ('w s3afero, ObjectList) act" where
  "multi_visit env bucket prefix visit response =
     (case visit of
        (_, Inr e) \<Rightarrow> act_err (fs_err e)
      | (path, Inl info) \<Rightarrow>
          if fi_IsDir info then act_ok response
          else
            (case split_n2 path ''/'' of
               [_, objectName] \<Rightarrow>
                 (if prefix_Match prefix objectName = None then act_ok response
                  else
                    act_bind (fs_act (loadMeta env bucket objectName (fi_Size info) (fi_ModTime info)))
                      (\<lambda>meta. act_ok (ol_Add response
                         (afero_content objectName (fi_Size info) (fi_ModTime info) meta))))
             | _ \<Rightarrow> act_res Panic))"

definition multi_arbitrary_prefix ::
    "('w, 'h) afero_env \<Rightarrow> string \<Rightarrow> Prefix \<Rightarrow> ('w s3afero, ObjectList) act" where
  "multi_arbitrary_prefix env bucket prefix =
     act_bind (ask (\<lambda>w. rbind (unless_missing (BucketNotFound bucket) (fs_Stat (ae_bucket env) bucket w))
         (\<lambda>stat. if fi_IsDir stat then Ok ()
                 else Err (EOther (''gofakes3: expected '' @ quoted bucket @ '' to be a bucket path'')))))
       (\<lambda>_. act_bind (ask (\<lambda>w. Ok (fs_Walk (ae_bucket env) bucket w)))
         (\<lambda>visits. act_fold (multi_visit env bucket prefix) visits NewObjectList))"

definition multi_ListBucket ::
    "('w, 'h) afero_env \<Rightarrow> string \<Rightarrow> Prefix option \<Rightarrow> ListBucketPage \<Rightarrow> ('w s3afero, ObjectList) act" where
  "multi_ListBucket env bucket prefix page =
     (let prefix = (case prefix of None \<Rightarrow> emptyPrefix | Some p \<Rightarrow> p)
      in if ValidateBucketName bucket \<noteq> None then act_err (BucketNotFound bucket)
         else if \<not> page_IsEmpty page then act_err (EInternalCode ErrInternalPageNotImplemented)
         else
           (case FilePrefix prefix of
              (path, part, ok) \<Rightarrow>
                if ok then multi_file_prefix env bucket path part
                else multi_arbitrary_prefix env bucket prefix))"

section \<open>Buckets\<close>

definition multi_CreateBucket :: "('w, 'h) afero_env \<Rightarrow> string \<Rightarrow> ('w s3afero, unit) act" where
  "multi_CreateBucket env name =
     act_bind (ask (\<lambda>w. Ok (fs_Stat (ae_bucket env) name w)))
       (\<lambda>stat. case stat of
          Inl _ \<Rightarrow> act_err (ResourceError ErrBucketAlreadyExists name)
        | Inr e \<Rightarrow>
            if IsNotExist e then fs_act (on_fs (fs_MkdirAll (ae_bucket env) name))
            else act_err (fs_err e))"

text \<open>A missing bucket is an error of \<open>ReadDir\<close>; the error of \<open>RemoveAll\<close> waits for the metadata.\<close>

definition multi_DeleteBucket :: "('w, 'h) afero_env \<Rightarrow> string \<Rightarrow> ('w s3afero, unit) act" where
  "multi_DeleteBucket env name =
     act_bind (ask (\<lambda>w. fs_res (fs_ReadDir (ae_bucket env) name w)))
       (\<lambda>entries.
          if entries \<noteq> [] then act_err (ResourceError ErrBucketNotEmpty name)
          else
            act_bind (\<lambda>db. case on_fs (fs_RemoveAll (ae_bucket env) name) db of
                        (Inr e, db') \<Rightarrow>
                          (if IsNotExist e then Ok (Err (BucketNotFound name)) else Err (fs_err e), db')
                      | (Inl _, db') \<Rightarrow> (Ok (Ok ()), db'))
              (\<lambda>rerr. act_bind (fs_act (on_fs (meta_deleteBucket env name))) (\<lambda>_. act_res rerr)))"

definition multi_remove_entry :: "('w, 'h) afero_env \<Rightarrow> string \<Rightarrow> FileInfo \<Rightarrow> unit \<Rightarrow> ('w s3afero, unit) act" where
  "multi_remove_entry env name entry _ =
     fs_act (on_fs (fs_RemoveAll (ae_bucket env) (path_Join [name, fi_Name entry])))"

definition multi_ForceDeleteBucket :: "('w, 'h) afero_env \<Rightarrow> string \<Rightarrow> ('w s3afero, unit) act" where
  "multi_ForceDeleteBucket env name =
     act_bind (ask (\<lambda>w. fs_res (fs_ReadDir (ae_bucket env) name w)))
       (\<lambda>entries. act_bind (act_fold (multi_remove_entry env name) entries ())
         (\<lambda>_. act_bind (fs_act (on_fs (fs_RemoveAll (ae_bucket env) name)))
           (\<lambda>_. fs_act (on_fs (meta_deleteBucket env name)))))"

definition multi_BucketExists :: "('w, 'h) afero_env \<Rightarrow> string \<Rightarrow> ('w s3afero, bool) act" where
  "multi_BucketExists env name = ask (\<lambda>w. fs_res (fs_Exists (ae_bucket env) name w))"

section \<open>Objects\<close>

definition multi_HeadObject ::
    "('w, 'h) afero_env \<Rightarrow> string \<Rightarrow> string \<Rightarrow> ('w s3afero, Object) act" where
  "multi_HeadObject env bucketName objectName =
     act_bind (require_bucket env bucketName)
       (\<lambda>_. act_bind (ask (\<lambda>w. rbind
            (unless_missing (KeyNotFound objectName)
              (fs_Stat (ae_bucket env) (path_Join [bucketName, objectName]) w))
            (\<lambda>stat. if fi_IsDir stat then Err (KeyNotFound objectName) else Ok stat)))
         (\<lambda>stat. act_bind (fs_act (loadMeta env bucketName objectName (fi_Size stat) (fi_ModTime stat)))
           (\<lambda>meta. act_ok (afero_object objectName meta (fi_Size stat) None []))))"

text \<open>What is read from the open file: all of it, or the range after a \<open>Seek\<close>.\<close>

definition ranged_reader :: "open_file \<Rightarrow> ObjectRange option \<Rightarrow> reader res" where
  "ranged_reader f rnge =
     (case rnge of
        None \<Rightarrow> Ok (fl_Reader f)
      | Some r \<Rightarrow> rbind (fs_res (fl_Seek f (or_Start r))) (\<lambda>rdr. Ok (LimitReader rdr (or_Length r))))"

definition open_object ::
    "('w, 'h) afero \<Rightarrow> string \<Rightarrow> string \<Rightarrow> ObjectRangeRequest option \<Rightarrow> 'w \<Rightarrow>
     (FileInfo \<times> ObjectRange option \<times> reader) res" where
  "open_object fs path objectName rangeRequest w =
     rbind (unless_missing (KeyNotFound objectName) (fs_Open fs path w))
       (\<lambda>f. rbind (fs_res (fl_Stat f))
         (\<lambda>stat.
            if fi_IsDir stat then Err (KeyNotFound objectName)
            else rbind (request_Range rangeRequest (fi_Size stat))
              (\<lambda>rnge. rbind (ranged_reader f rnge) (\<lambda>rdr. Ok (stat, rnge, rdr)))))"

definition multi_GetObject ::
    "('w, 'h) afero_env \<Rightarrow> string \<Rightarrow> string \<Rightarrow> ObjectRangeRequest option \<Rightarrow> ('w s3afero, Object) act" where
  "multi_GetObject env bucketName objectName rangeRequest =
     act_bind (require_bucket env bucketName)
       (\<lambda>_. act_bind (ask (open_object (ae_bucket env) (path_Join [bucketName, objectName]) objectName
              rangeRequest))
         (\<lambda>(stat, rnge, rdr).
            act_bind (fs_act (loadMeta env bucketName objectName (fi_Size stat) (fi_ModTime stat)))
              (\<lambda>meta. act_ok (afero_object objectName meta (fi_Size stat) rnge (rd_bytes rdr)))))"

text \<open>
  The part of \<open>PutObject\<close> that writes the file and its metadata. \<open>path\<close> is that of the file, \<open>called\<close> what
  the document calls it.
\<close>

definition make_parent :: "('w, 'h) afero_env \<Rightarrow> string \<Rightarrow> ('w s3afero, unit) act" where
  "make_parent env path =
     (if path_Dir path \<noteq> ''.'' then fs_act (on_fs (fs_MkdirAll (ae_bucket env) (path_Dir path)))
      else act_ok ())"

definition store_file ::
    "('w, 'h) afero_env \<Rightarrow> string \<Rightarrow> string \<Rightarrow> string \<Rightarrow> string \<Rightarrow> gomap option \<Rightarrow> reader \<Rightarrow>
     ('w s3afero, PutObjectResult) act" where
  "store_file env bucketName objectName path called meta inp =
     act_bind (make_parent env path)
       (\<lambda>_. act_bind (fs_act (on_fs (fs_Create (ae_bucket env) path)))
         (\<lambda>f. act_bind (on_world_act (copy_to_file (ae_bucket env) f inp))
           (\<lambda>hashed. act_bind (ask (\<lambda>w. fs_res (fs_Stat (ae_bucket env) path w)))
             (\<lambda>stat. act_bind (fs_act (on_fs (saveMeta env (meta_path bucketName objectName)
                  \<lparr>mt_File = called, mt_ModTime = fi_ModTime stat, mt_Size = fi_Size stat,
                   mt_Hash = ae_md5 env hashed, mt_Meta = meta\<rparr>)))
               (\<lambda>_. act_ok emptyPutResult)))))"

definition multi_PutObject ::
    "('w, 'h) afero_env \<Rightarrow> string \<Rightarrow> string \<Rightarrow> gomap option \<Rightarrow> reader \<Rightarrow> int \<Rightarrow>
     ('w s3afero, PutObjectResult) act" where
  "multi_PutObject env bucketName objectName meta inp sz =
     act_bind (MergeMetadata (multi_GetObject env bucketName objectName None) meta)
       (\<lambda>meta'. act_bind (require_bucket env bucketName)
         (\<lambda>_. let objectPath = path_Join [bucketName, objectName]
               in store_file env bucketName objectName objectPath objectPath meta' inp))"

definition remove_object ::
    "('w, 'h) afero_env \<Rightarrow> string \<Rightarrow> string \<Rightarrow> string \<Rightarrow> ('w, unit) fact" where
  "remove_object env bucketName objectName path w =
     (case fs_Remove (ae_bucket env) path w of
        (Inr e, w') \<Rightarrow>
          if IsNotExist e then deleteMeta env (meta_path bucketName objectName) w' else (Inr e, w')
      | (Inl _, w') \<Rightarrow> deleteMeta env (meta_path bucketName objectName) w')"

definition multi_deleteObjectLocked :: "('w, 'h) afero_env \<Rightarrow> string \<Rightarrow> string \<Rightarrow> ('w s3afero, unit) act" where
  "multi_deleteObjectLocked env bucketName objectName =
     fs_act (on_fs (remove_object env bucketName objectName (path_Join [bucketName, objectName])))"

definition multi_DeleteObject ::
    "('w, 'h) afero_env \<Rightarrow> string \<Rightarrow> string \<Rightarrow> ('w s3afero, ObjectDeleteResult) act" where
  "multi_DeleteObject env bucketName objectName =
     act_bind (require_bucket env bucketName)
       (\<lambda>_. act_bind (multi_deleteObjectLocked env bucketName objectName) (\<lambda>_. act_ok emptyDeleteResult))"

text \<open>One pass of the loop of \<open>DeleteMulti\<close>: an error is recorded and the loop goes on.\<close>

definition delete_step ::
    "(string \<Rightarrow> ('s, unit) act) \<Rightarrow> string \<Rightarrow> MultiDeleteResult \<Rightarrow> ('s, MultiDeleteResult) act" where
  "delete_step deleteObject object result s =
     (case deleteObject object s of
        (Ok _, s') \<Rightarrow>
          (Ok (result\<lparr>md_Deleted := md_Deleted result @ [\<lparr>oid_Key = object, oid_VersionID = ''''\<rparr>]\<rparr>), s')
      | (Err _, s') \<Rightarrow>
          (Ok (result\<lparr>md_Error := md_Error result @
             [\<lparr>ex_Key = object, ex_Code = ErrInternal, ex_Message = code_Message ErrInternal,
               ex_Resource = '''', ex_RequestID = ''''\<rparr>]\<rparr>), s')
      | (Panic, s') \<Rightarrow> (Panic, s')
      | (NoFuel, s') \<Rightarrow> (NoFuel, s'))"

definition multi_DeleteMulti ::
    "('w, 'h) afero_env \<Rightarrow> string \<Rightarrow> string list \<Rightarrow> ('w s3afero, MultiDeleteResult) act" where
  "multi_DeleteMulti env bucketName objects =
     act_bind (require_bucket env bucketName)
       (\<lambda>_. act_fold (delete_step (multi_deleteObjectLocked env bucketName)) objects
              \<lparr>md_Deleted = [], md_Error = []\<rparr>)"

text \<open>The back end; \<open>wall\<close> is the reading of \<open>time.Now()\<close> in \<open>CopyObject\<close>.\<close>

definition multi_backend :: "int \<Rightarrow> ('w, 'h) afero_env \<Rightarrow> 'w s3afero Backend" where
  "multi_backend wall env =
     (let base =
        \<lparr>be_ListBuckets = multi_ListBuckets env,
         be_ListBucket = multi_ListBucket env,
         be_CreateBucket = multi_CreateBucket env,
         be_BucketExists = multi_BucketExists env,
         be_DeleteBucket = multi_DeleteBucket env,
         be_ForceDeleteBucket = multi_ForceDeleteBucket env,
         be_GetObject = multi_GetObject env,
         be_HeadObject = multi_HeadObject env,
         be_DeleteObject = multi_DeleteObject env,
         be_PutObject = multi_PutObject env,
         be_DeleteMulti = multi_DeleteMulti env,
         be_CopyObject = (\<lambda>_ _ _ _ _. act_res Panic)\<rparr>
      in base\<lparr>be_CopyObject := CopyObject wall base\<rparr>)"

lemmas multi_defs [go_eval] =
  require_bucket_def afero_content_def afero_object_def multi_ListBuckets_def multi_dir_entry_def
  multi_file_prefix_def multi_visit_def multi_arbitrary_prefix_def multi_ListBucket_def
  multi_CreateBucket_def multi_DeleteBucket_def multi_remove_entry_def multi_ForceDeleteBucket_def
  multi_BucketExists_def multi_HeadObject_def ranged_reader_def open_object_def multi_GetObject_def
  make_parent_def store_file_def multi_PutObject_def remove_object_def multi_deleteObjectLocked_def
  multi_DeleteObject_def delete_step_def multi_DeleteMulti_def multi_backend_def

end
