(* ===== verification/AferoFacts.thy ===== *)
theory AferoFacts
  imports AferoMulti StoreServer
begin

text \<open>
  Facts about \<open>s3afero\<close>: the measured resolution is that of the file system, a fresh metadata document is
  read back without touching anything, and what the operations of \<open>multi.go\<close> do to the files of the
  buckets (\<open>btree\<close>) and of the metadata (\<open>mtree\<close>).
\<close>

section \<open>The resolution of modification times\<close>

lemma resolutions_multiples: "list_all (\<lambda>g. hd (filter (\<lambda>d. g dvd d) resolutions) = g) resolutions"
  by code_simp

abbreviation resolution_file :: string where
  "resolution_file \<equiv> ''.modtime-resolution''"

text \<open>
  A file system that keeps modification times in multiples of \<open>gran\<close>, rounding down; \<open>frame\<close> is what does not
  change when it works on the temporary file.
\<close>

locale timed_fs =
  fixes fs :: "('w, 'h) afero" and gran :: int and frame :: "'w \<Rightarrow> 'f" and ready measuring :: "'w \<Rightarrow> bool"
  assumes gran: "gran \<in> set resolutions"
    and OpenTruncate: "ready w \<Longrightarrow> \<exists>h w'. fs_OpenTruncate fs resolution_file w = (Inl h, w') \<and> frame w' = frame w"
    and Close: "ready w \<Longrightarrow> fs_OpenTruncate fs resolution_file w = (Inl h, w1) \<Longrightarrow>
      \<exists>w2. fs_Close fs h w1 = (Inl (), w2) \<and> measuring w2 \<and> frame w2 = frame w1"
    and Chtimes: "measuring w \<Longrightarrow> \<exists>w' i. fs_Chtimes fs resolution_file t w = (Inl (), w') \<and> measuring w' \<and>
      frame w' = frame w \<and> fs_Stat fs resolution_file w' = Inl i \<and> fi_ModTime i = t div gran * gran"
    and Remove: "measuring w \<Longrightarrow> frame (snd (fs_Remove fs resolution_file w)) = frame w"
begin

lemma modEqual_measures:
  assumes "measuring w" "dur \<in> set resolutions"
  shows "\<exists>w'. modEqual fs resolution_file dur w = (Inl (gran dvd dur), w') \<and> measuring w' \<and> frame w' = frame w"
proof -
  obtain w1 i1 where 1: "fs_Chtimes fs resolution_file modBaseTime w = (Inl (), w1)" "measuring w1"
      "frame w1 = frame w" "fs_Stat fs resolution_file w1 = Inl i1" "fi_ModTime i1 = modBaseTime div gran * gran"
    using Chtimes [OF assms(1)] by blast
  obtain w2 i2 where 2: "fs_Chtimes fs resolution_file (modBaseTime + dur) w1 = (Inl (), w2)" "measuring w2"
      "frame w2 = frame w1" "fs_Stat fs resolution_file w2 = Inl i2"
      "fi_ModTime i2 = (modBaseTime + dur) div gran * gran"
    using Chtimes [OF 1(2)] by blast
  have g: "gran dvd modBaseTime" "0 < gran" using gran by (auto simp: resolutions_def modBaseTime_def)
  have "(modBaseTime + dur) div gran * gran = modBaseTime + dur div gran * gran"
    using g by (auto simp: div_plus_div_distrib_dvd_left ring_distribs)
  moreover have d: "0 \<le> dur" "dur \<le> max_int64" using assms(2) by (auto simp: resolutions_def max_int64_def)
  have "0 \<le> dur div gran * gran" using d g(2) by (simp add: pos_imp_zdiv_nonneg_iff)
  moreover have "dur div gran * gran \<le> dur"
    using minus_mod_eq_div_mult [of dur gran] pos_mod_sign [OF g(2), of dur] by linarith
  ultimately have "time_Sub (fi_ModTime i2) modBaseTime = dur div gran * gran"
    using d(2) unfolding 2(5) by (simp add: time_Sub_def min_int64_def)
  moreover have "dur div gran * gran = dur \<longleftrightarrow> gran dvd dur" by (metis dvd_div_mult_self dvd_triv_right)
  moreover have "fi_ModTime i1 = modBaseTime" using 1(5) g(1) by simp
  ultimately show ?thesis
    using 1 2 by (simp add: modEqual_def f_bind_def f_get_def f_ok_def)
qed

lemma first_resolution_measures:
  assumes "measuring w" "set ds \<subseteq> set resolutions" "\<exists>d \<in> set ds. gran dvd d"
  shows "\<exists>w'. first_resolution fs resolution_file ds w = (Inl (hd (filter (\<lambda>d. gran dvd d) ds)), w') \<and>
    measuring w' \<and> frame w' = frame w"
  using assms
proof (induction ds arbitrary: w)
  case (Cons d ds)
  obtain w1 where 1: "modEqual fs resolution_file d w = (Inl (gran dvd d), w1)" "measuring w1"
      "frame w1 = frame w"
    using modEqual_measures [of w d] Cons.prems by auto
  show ?case
  proof (cases "gran dvd d")
    case True
    then show ?thesis using 1 by (simp add: f_bind_def f_ok_def)
  next
    case False
    then obtain w2 where "first_resolution fs resolution_file ds w1 =
        (Inl (hd (filter (\<lambda>d. gran dvd d) ds)), w2)" "measuring w2" "frame w2 = frame w1"
      using Cons.IH [OF 1(2)] Cons.prems by auto
    then show ?thesis using False 1 by (simp add: f_bind_def)
  qed
qed simp

lemma first_multiple: "hd (filter (\<lambda>d. gran dvd d) resolutions) = gran"
  using gran resolutions_multiples by (auto simp: list_all_iff)

lemma modTimeResolution_measures:
  assumes "ready w"
  shows "\<exists>w'. modTimeResolution fs w = (Inl gran, w') \<and> frame w' = frame w"
proof -
  obtain h w1 where 1: "fs_OpenTruncate fs resolution_file w = (Inl h, w1)" "frame w1 = frame w"
    using OpenTruncate [OF assms] by blast
  obtain w2 where 2: "fs_Close fs h w1 = (Inl (), w2)" "measuring w2" "frame w2 = frame w1"
    using Close [OF assms 1(1)] by blast
  obtain w3 where 3: "first_resolution fs resolution_file resolutions w2 = (Inl gran, w3)" "measuring w3"
      "frame w3 = frame w2"
    using first_resolution_measures [OF 2(2), of resolutions] gran first_multiple by (metis dvd_refl order_refl)
  show ?thesis
    using 1 2 3 Remove [OF 3(2)] by (simp add: modTimeResolution_def f_bind_def)
qed

end


section \<open>Metadata documents\<close>

text \<open>The name of a bucket is one element of a path.\<close>

definition bucket_name :: "string \<Rightarrow> bool" where
  "bucket_name b \<longleftrightarrow> plain_path b \<and> slash \<notin> set b"

lemma valid_bucket_name:
  assumes "ValidateBucketName b = None"
  shows "bucket_name b"
proof -
  have no_alnum: "\<not> alnum slash" by (simp add: alnum_def less_eq_char_def)
  have "slash \<notin> set l" if "l \<in> set (split_char (CHR ''.'') b)" for l
    using assms that no_alnum by (fastforce simp: ValidateBucketName_iff dns_label_def)
  then have s: "slash \<notin> set b" using split_char_members [of slash b "CHR ''.''"] by auto
  moreover have "3 \<le> length b" using assms by (simp add: ValidateBucketName_iff)
  then have "plain_elem b" by (auto simp: plain_elem_def)
  ultimately show ?thesis by (simp add: bucket_name_def plain_path_def split_char_fresh)
qed

lemma object_path: "bucket_name b \<Longrightarrow> plain_path k \<Longrightarrow> path_Join [b, k] = b @ slash # k"
  by (simp add: Join_plain bucket_name_def)

lemma object_path_plain: "bucket_name b \<Longrightarrow> plain_path k \<Longrightarrow> plain_path (b @ slash # k)"
  by (simp add: bucket_name_def plain_path_append)

lemma meta_object_shape:
  "slash \<notin> set (meta_object k)" "plain_path (meta_object k)"
proof -
  have "slash \<notin> set (hex_encode bs)" for bs using hex_encode_digits [of slash bs] by (auto simp: hex_val_def)
  moreover have "slash \<notin> set (flat_name k)" by (auto simp: flat_name_def)
  ultimately show s: "slash \<notin> set (meta_object k)" by (simp add: meta_object_def)
  have "CHR ''-'' \<in> set (meta_object k)" by (simp add: meta_object_def)
  then show "plain_path (meta_object k)" using s by (auto simp: plain_path_def split_char_fresh plain_elem_def)
qed

lemma meta_path_plain:
  assumes "bucket_name b"
  shows "meta_path b k = b @ slash # meta_object k" "plain_path (meta_path b k)" "path_Dir (meta_path b k) = b"
  using assms meta_object_shape [of k]
  by (simp_all add: meta_path_def object_path bucket_name_def plain_path_append Dir_plain)

definition ascii :: "string \<Rightarrow> bool" where
  "ascii s \<longleftrightarrow> (\<forall>c \<in> set s. of_char c < (128 :: nat))"

definition ascii_map :: "(string \<Rightarrow> string option) \<Rightarrow> bool" where
  "ascii_map m \<longleftrightarrow> (\<forall>k v. m k = Some v \<longrightarrow> ascii k \<and> ascii v)"

definition same_meta :: "Metadata \<Rightarrow> Metadata \<Rightarrow> bool" where
  "same_meta x y \<longleftrightarrow> mt_Size y = mt_Size x \<and> mt_ModTime y = mt_ModTime x \<and> mt_Hash y = mt_Hash x \<and>
     meta_map (mt_Meta y) = meta_map (mt_Meta x)"

text \<open>A change at the path \<open>p\<close> at most, and perhaps new directories.\<close>

definition changes_at :: "string \<Rightarrow> (string \<Rightarrow> fnode option) \<Rightarrow> (string \<Rightarrow> fnode option) \<Rightarrow> bool" where
  "changes_at p T T' \<longleftrightarrow> (\<forall>q. q \<noteq> p \<longrightarrow> T' q = T q \<or> T q = None \<and> is_dir (T' q))"

lemma changes_at_refl [simp]: "changes_at p T T"
  by (simp add: changes_at_def)

lemma changes_at_trans: "changes_at p T T' \<Longrightarrow> changes_at p T' T'' \<Longrightarrow> changes_at p T T''"
  unfolding changes_at_def by metis

lemma changes_at_upd [simp]: "changes_at p T (T(p := x))"
  by (simp add: changes_at_def)

lemma changes_at_kept: "changes_at p T T' \<Longrightarrow> q \<noteq> p \<Longrightarrow> T q = Some n \<Longrightarrow> T' q = Some n"
  unfolding changes_at_def by force

lemma fs_err_not_code: "fs_err e \<noteq> ECode c" "ECode c \<noteq> fs_err e"
  by (cases e; simp)+

lemma MergeMetadata_effect:
  assumes "get s = (q, s1)" "MergeMetadata get (Some m) s = (r, s')"
  shows "s' = s1 \<and> (\<forall>e. r \<noteq> Err e) \<and>
    (\<forall>x. r = Ok x \<longrightarrow> (\<exists>m'. x = Some m' \<and>
       map_of m' = (case q of Ok obj \<Rightarrow> meta_map (ob_Metadata obj) | _ \<Rightarrow> Map.empty) ++ map_of m))"
proof (cases q)
  case (Ok obj)
  then show ?thesis
    using assms carry_over_Some [of "Some obj" m] carry_over_not_Err(1) by (auto simp: MergeMetadata_def meta_map_def)
next
  case (Err e)
  have "carry_over None (Some m) = Ok (Some m)" by (simp add: carry_over_def)
  then show ?thesis using assms Err by (auto simp: MergeMetadata_def)
qed (use assms in \<open>auto simp: MergeMetadata_def\<close>)

context afero_laws
begin

text \<open>Whatever \<open>copy_to_file\<close> answers, the file that was created has other contents and nothing else changes.\<close>

lemma copy_effect:
  assumes p: "plain_path p" "fs_Create fs p w = (Inl h, w1)" and c: "copy_to_file fs h inp w1 = (r, w2)"
  shows "rest w2 = rest w \<and> (\<exists>c t. tree w2 = (tree w)(p \<mapsto> File c t) \<and>
    (\<forall>x. r = Ok x \<longrightarrow> c = rd_bytes inp \<and> x = rd_bytes inp \<and> rd_err inp = None) \<and>
    (\<forall>e. r = Err (ECode e) \<longrightarrow> c = rd_bytes inp \<and> rd_err inp = Some (ECode e)))"
proof -
  have created: "rest w1 = rest w" "\<exists>t. tree w1 = (tree w)(p \<mapsto> File [] t)"
    using Create [OF p] by simp_all
  obtain q w' where wr: "(if rd_bytes inp = [] then (Inl (), w1) else fs_Write fs h (rd_bytes inp) w1) = (q, w')"
    by fastforce
  then obtain c0 t0 where w': "rest w' = rest w" "tree w' = (tree w)(p \<mapsto> File c0 t0)"
      "q = Inl () \<longrightarrow> c0 = rd_bytes inp"
    using created Write [OF p, of "rd_bytes inp" q w'] by (cases "rd_bytes inp = []") auto
  have close: "rest w4 = rest w \<and> (\<exists>t. tree w4 = (tree w)(p \<mapsto> File c0 t))"
    if "fs_Close fs h w3 = (cr, w4)" "rest w3 = rest w" "tree w3 = (tree w)(p \<mapsto> File c0 t3)" for w3 cr w4 t3
    using Close [OF p, of w3 c0 t3 cr w4] that by auto
  obtain c1 w3 where c1: "fs_Close fs h w' = (c1, w3)" by fastforce
  obtain c2 w4 where c2: "fs_Close fs h w3 = (c2, w4)" by fastforce
  from close [OF c1 w'(1,2)] obtain t3 where w3: "rest w3 = rest w" "tree w3 = (tree w)(p \<mapsto> File c0 t3)"
    by blast
  from close [OF c2 w3] have w4: "rest w4 = rest w" "\<exists>t. tree w4 = (tree w)(p \<mapsto> File c0 t)" by blast+
  show ?thesis
    using c wr c1 c2 w'(3) w3 w4 unfolding copy_to_file_def
    by (auto split: sum.splits option.splits simp: fs_err_not_code)
qed

text \<open>If the bytes could be written but reading them fails at the end, they are in the file.\<close>

lemma copy_refused:
  assumes p: "plain_path p" "fs_Create fs p w = (Inl h, w1)"
    and c: "is_ok (fst (copy_to_file fs h (bytes_reader (rd_bytes inp)) w1))" "rd_err inp = Some e"
  shows "\<exists>w2 t. copy_to_file fs h inp w1 = (Err e, w2) \<and> tree w2 = (tree w)(p \<mapsto> File (rd_bytes inp) t)"
proof -
  have created: "\<exists>t. tree w1 = (tree w)(p \<mapsto> File [] t)" using Create [OF p] by simp
  obtain q w' where wr: "(if rd_bytes inp = [] then (Inl (), w1) else fs_Write fs h (rd_bytes inp) w1) = (q, w')"
    by fastforce
  have q: "q = Inl ()"
    using c(1) wr by (cases q) (auto simp: copy_to_file_def bytes_reader_def is_ok_def split: if_splits)
  obtain t0 where w': "tree w' = (tree w)(p \<mapsto> File (rd_bytes inp) t0)"
    using created Write [OF p, of "rd_bytes inp" q w'] wr q by (cases "rd_bytes inp = []") auto
  obtain cr w2 where cl: "fs_Close fs h w' = (cr, w2)" by fastforce
  from Close [OF p _ cl, of "rd_bytes inp" t0] w' obtain t where "tree w2 = (tree w)(p \<mapsto> File (rd_bytes inp) t)" by auto
  then show ?thesis using wr q cl c(2) by (auto simp: copy_to_file_def)
qed

end

text \<open>The resolution of the modification times is known, or can be measured.\<close>

definition afero_ready :: "('w \<Rightarrow> bool) \<Rightarrow> 'w s3afero \<Rightarrow> bool" where
  "afero_ready ready db \<longleftrightarrow> 0 \<le> sa_modTimeRes db \<or> ready (sa_world db)"

text \<open>
  The document of the object \<open>k\<close> of the bucket \<open>b\<close> describes a file with the contents \<open>c\<close>, and all files of
  the bucket have such a document.
\<close>

definition doc_describes ::
    "('w, 'h) afero_env \<Rightarrow> ('w \<Rightarrow> string \<Rightarrow> fnode option) \<Rightarrow> 'w \<Rightarrow> string \<Rightarrow> string \<Rightarrow> bytes \<Rightarrow> int \<Rightarrow>
     (string \<Rightarrow> string option) \<Rightarrow> bool" where
  "doc_describes env mtree w b k c t md \<longleftrightarrow>
     (\<exists>bts t' m. mtree w (meta_path b k) = Some (File bts t') \<and> bts \<noteq> [] \<and> ae_Unmarshal env bts = Inl m \<and>
        mt_Size m = int (length c) \<and> mt_ModTime m = t \<and> mt_Hash m = ae_md5 env c \<and>
        meta_map (mt_Meta m) = md)"

definition bucket_documented ::
    "('w, 'h) afero_env \<Rightarrow> ('w \<Rightarrow> string \<Rightarrow> fnode option) \<Rightarrow> ('w \<Rightarrow> string \<Rightarrow> fnode option) \<Rightarrow> string \<Rightarrow> 'w \<Rightarrow> bool"
  where
  "bucket_documented env btree mtree b w \<longleftrightarrow>
     (\<forall>k c t. btree w (b @ slash # k) = Some (File c t) \<longrightarrow> (\<exists>md. doc_describes env mtree w b k c t md))"

text \<open>The object and the listing entry of a file.\<close>

definition file_object ::
    "('w, 'h) afero_env \<Rightarrow> string \<Rightarrow> bytes \<Rightarrow> (string \<Rightarrow> string option) \<Rightarrow> Object \<Rightarrow> bool" where
  "file_object env k c md obj \<longleftrightarrow>
     ob_Name obj = k \<and> ob_Contents obj = c \<and> ob_Size obj = int (length c) \<and> ob_Hash obj = ae_md5 env c \<and>
     meta_map (ob_Metadata obj) = md \<and> ob_Range obj = None \<and> \<not> ob_IsDeleteMarker obj \<and> ob_VersionID obj = ''''"

definition file_content :: "('w, 'h) afero_env \<Rightarrow> string \<Rightarrow> bytes \<Rightarrow> int \<Rightarrow> Content" where
  "file_content env k c t =
     \<lparr>ct_Key = k, ct_LastModified = t, ct_ETag = quoted (hex_encode (ae_md5 env c)),
      ct_Size = int (length c), ct_StorageClass = '''', ct_Owner = None\<rparr>"

text \<open>The metadata that \<open>PutObject\<close> keeps of the object it replaces.\<close>

definition kept_metadata ::
    "('w, 'h) afero_env \<Rightarrow> 'w s3afero \<Rightarrow> string \<Rightarrow> string \<Rightarrow> string \<Rightarrow> string option" where
  "kept_metadata env db b k =
     (case fst (multi_GetObject env b k None db) of Ok obj \<Rightarrow> meta_map (ob_Metadata obj) | _ \<Rightarrow> Map.empty)"

text \<open>
  The invariant of a bucket whose keys are in \<open>K\<close>: every file is an object with a fresh document.
\<close>

definition bucket_fresh ::
    "('w, 'h) afero_env \<Rightarrow> ('w \<Rightarrow> string \<Rightarrow> fnode option) \<Rightarrow> ('w \<Rightarrow> string \<Rightarrow> fnode option) \<Rightarrow> string set \<Rightarrow>
     string \<Rightarrow> 'w \<Rightarrow> bool" where
  "bucket_fresh env btree mtree K b w \<longleftrightarrow>
     (\<forall>k c t. btree w (b @ slash # k) = Some (File c t) \<longrightarrow>
        k \<in> K \<and> (\<exists>md. doc_describes env mtree w b k c t md \<and> ascii_map md))"

text \<open>\<open>None\<close> if an operation that writes has failed.\<close>

datatype afero_op =
    StoreOp string gomap reader int
  | RemoveOp string
  | FetchOp string "ObjectRangeRequest option"

fun afero_step :: "('w, 'h) afero_env \<Rightarrow> string \<Rightarrow> afero_op \<Rightarrow> 'w s3afero \<Rightarrow> 'w s3afero option" where
  "afero_step env b (StoreOp k m r sz) db =
     (case multi_PutObject env b k (Some m) r sz db of (Ok _, db') \<Rightarrow> Some db' | _ \<Rightarrow> None)"
| "afero_step env b (RemoveOp k) db =
     (case multi_DeleteObject env b k db of (Ok _, db') \<Rightarrow> Some db' | _ \<Rightarrow> None)"
| "afero_step env b (FetchOp k rr) db = Some (snd (multi_GetObject env b k rr db))"

fun afero_trace :: "('w, 'h) afero_env \<Rightarrow> string \<Rightarrow> afero_op list \<Rightarrow> 'w s3afero \<Rightarrow> 'w s3afero option" where
  "afero_trace env b [] db = Some db"
| "afero_trace env b (op # ops) db =
     (case afero_step env b op db of Some db' \<Rightarrow> afero_trace env b ops db' | None \<Rightarrow> None)"

fun op_in :: "string set \<Rightarrow> afero_op \<Rightarrow> bool" where
  "op_in K (StoreOp k m r sz) \<longleftrightarrow> k \<in> K \<and> ascii_map (map_of m)"
| "op_in K (RemoveOp k) \<longleftrightarrow> k \<in> K"
| "op_in K (FetchOp k rr) \<longleftrightarrow> k \<in> K"

text \<open>
  The file systems of a back end with several buckets. \<open>json\<close> gives back what it has encoded, if the
  metadata are ASCII, and MD5 has a digest.
\<close>

locale multi_laws =
  bucket: afero_laws "ae_bucket env" btree "\<lambda>w. (mtree w, ready w)" +
  meta: afero_laws "ae_meta env" mtree "\<lambda>w. (btree w, ready w)" +
  base: timed_fs "ae_base env" gran "\<lambda>w. (btree w, mtree w)" ready measuring
  for env :: "('w, 'h) afero_env" and btree mtree :: "'w \<Rightarrow> string \<Rightarrow> fnode option"
    and ready measuring :: "'w \<Rightarrow> bool" and gran :: int +
  assumes json: "ae_Marshal env m = Inl bts \<Longrightarrow> ascii_map (meta_map (mt_Meta m)) \<Longrightarrow>
      bts \<noteq> [] \<and> (\<exists>m'. ae_Unmarshal env bts = Inl m' \<and> same_meta m m')"
    and md5: "ae_md5 env c \<noteq> []"
begin

abbreviation db_ready where
  "db_ready \<equiv> afero_ready ready"

abbreviation documented where
  "documented \<equiv> doc_describes env mtree"

abbreviation all_documented where
  "all_documented \<equiv> bucket_documented env btree mtree"

abbreviation object_of_file where
  "object_of_file \<equiv> file_object env"

abbreviation listed_content where
  "listed_content \<equiv> file_content env"

abbreviation old_metadata where
  "old_metadata \<equiv> kept_metadata env"


lemma documented_only: "mtree w' (meta_path b k) = mtree w (meta_path b k) \<Longrightarrow>
    documented w' b k c t md = documented w b k c t md"
  by (simp add: doc_describes_def)

lemma getModTimeRes_ok:
  assumes "db_ready db"
  shows "\<exists>d db'. getModTimeRes env db = (Inl d, db') \<and> 0 \<le> d \<and> db_ready db' \<and>
    btree (sa_world db') = btree (sa_world db) \<and> mtree (sa_world db') = mtree (sa_world db)"
proof (cases "sa_modTimeRes db < 0")
  case True
  then obtain w where w: "modTimeResolution (ae_base env) (sa_world db) = (Inl gran, w)"
      "(btree w, mtree w) = (btree (sa_world db), mtree (sa_world db))"
    using base.modTimeResolution_measures [of "sa_world db"] assms by (auto simp: afero_ready_def)
  moreover have "0 \<le> gran" using base.gran by (auto simp: resolutions_def)
  ultimately show ?thesis using True by (simp add: getModTimeRes_def afero_ready_def)
next
  case False
  then show ?thesis using assms by (simp add: getModTimeRes_def)
qed

lemma loadMeta_fresh:
  assumes "db_ready db" "documented (sa_world db) b k c t md"
  shows "\<exists>m db'. loadMeta env b k (int (length c)) t db = (Inl m, db') \<and> mt_Hash m = ae_md5 env c \<and>
    meta_map (mt_Meta m) = md \<and> db_ready db' \<and>
    btree (sa_world db') = btree (sa_world db) \<and> mtree (sa_world db') = mtree (sa_world db)"
proof -
  obtain bts t' m where d: "mtree (sa_world db) (meta_path b k) = Some (File bts t')" "bts \<noteq> []"
      "ae_Unmarshal env bts = Inl m" "mt_Size m = int (length c)" "mt_ModTime m = t"
      "mt_Hash m = ae_md5 env c" "meta_map (mt_Meta m) = md"
    using assms(2) by (auto simp: doc_describes_def)
  obtain r db' where r: "getModTimeRes env db = (Inl r, db')" "0 \<le> r" "db_ready db'"
      "btree (sa_world db') = btree (sa_world db)" "mtree (sa_world db') = mtree (sa_world db)"
    using getModTimeRes_ok [OF assms(1)] by blast
  have "read_document env (meta_path b k) (sa_world db) = Inl bts"
    using meta.ReadFile [OF d(1)] by (simp add: read_document_def)
  moreover have "\<not> stale m (int (length c)) t r"
    using d r(2) md5 by (simp add: stale_def time_Sub_def min_int64_def max_int64_def)
  ultimately show ?thesis
    using d r by (simp add: loadMeta_def Let_def f_bind_def f_get_def f_ok_def on_fs_def of_json_def)
qed

abbreviation bpath :: "string \<Rightarrow> string \<Rightarrow> string" where
  "bpath b k \<equiv> b @ slash # k"

lemma saveMeta_effect:
  assumes "bucket_name b" "saveMeta env (meta_path b k) m w = (r, w')"
  shows "btree w' = btree w \<and> ready w' = ready w \<and> changes_at (meta_path b k) (mtree w) (mtree w') \<and>
    (r = Inl () \<longrightarrow> (\<exists>bts t. ae_Marshal env m = Inl bts \<and> mtree w' (meta_path b k) = Some (File bts t)))"
proof (cases "ae_Marshal env m")
  case (Inl bts)
  obtain r1 w1 where 1: "fs_MkdirAll (ae_meta env) b w = (r1, w1)" by fastforce
  obtain r2 w2 where 2: "fs_WriteFile (ae_meta env) (meta_path b k) bts w1 = (r2, w2)" by fastforce
  have b: "plain_path b" using assms(1) by (simp add: bucket_name_def)
  note f = meta.MkdirAll [OF b 1] meta.WriteFile [OF meta_path_plain(2) [OF assms(1)] 2]
  have "changes_at (meta_path b k) (mtree w) (mtree w1)" "changes_at (meta_path b k) (mtree w1) (mtree w2)"
    using f by (auto simp: changes_at_def)
  then have "changes_at (meta_path b k) (mtree w) (mtree w2)" by (rule changes_at_trans)
  then show ?thesis
    using assms Inl 1 2 f \<open>changes_at (meta_path b k) (mtree w) (mtree w1)\<close>
    by (cases r1)
      (auto simp: saveMeta_def f_bind_def f_get_def of_json_def meta_path_plain(3) [OF assms(1)])
next
  case (Inr e)
  then show ?thesis using assms(2) by (auto simp: saveMeta_def f_bind_def f_get_def of_json_def)
qed

text \<open>What an operation on the object \<open>k\<close> may do to the metadata, and that it leaves the files alone.\<close>

definition reads_object :: "string \<Rightarrow> string \<Rightarrow> 'w s3afero \<Rightarrow> 'w s3afero \<Rightarrow> bool" where
  "reads_object b k db db' \<longleftrightarrow>
     btree (sa_world db') = btree (sa_world db) \<and> db_ready db' \<and>
     changes_at (meta_path b k) (mtree (sa_world db)) (mtree (sa_world db'))"

lemma reads_object_refl [simp]: "db_ready db \<Longrightarrow> reads_object b k db db"
  by (simp add: reads_object_def)

lemma loadMeta_effect:
  assumes "bucket_name b" "db_ready db" "loadMeta env b k sz t db = (r, db')"
  shows "reads_object b k db db'"
proof -
  obtain d db1 where d: "getModTimeRes env db = (Inl d, db1)" "db_ready db1"
      "btree (sa_world db1) = btree (sa_world db)" "mtree (sa_world db1) = mtree (sa_world db)"
    using getModTimeRes_ok [OF assms(2)] by blast
  have save: "reads_object b k db (db1\<lparr>sa_world := w'\<rparr>)"
    if "saveMeta env (meta_path b k) m (sa_world db1) = (q, w')" for m q w'
    using saveMeta_effect [OF assms(1) that] d by (simp add: reads_object_def afero_ready_def)
  have "reads_object b k db db1" using d by (simp add: reads_object_def)
  then show ?thesis
    using assms(2,3) d(1) save
    by (auto simp: loadMeta_def Let_def f_bind_def f_get_def f_ok_def on_fs_def hashFile_def
        split: sum.splits prod.splits if_splits)
qed

section \<open>Reading objects\<close>

lemma require_bucket_state: "snd (require_bucket env b db) = db"
  by (simp add: require_bucket_def ask_def)

lemma bucket_exists:
  assumes "bucket_name b"
  shows "fs_Exists (ae_bucket env) b w = Inl (btree w b \<noteq> None)"
proof -
  have "reachable_path (btree w) b" using assms by (auto simp: reachable_path_def bucket_name_def)
  then show ?thesis
    using assms bucket.Exists(1) [of w b] bucket.Exists(2) [of b w] by (cases "btree w b") (auto simp: bucket_name_def)
qed

lemma require_bucket_eq:
  "bucket_name b \<Longrightarrow>
   require_bucket env b db = (if btree (sa_world db) b \<noteq> None then Ok () else Err (BucketNotFound b), db)"
  by (simp add: require_bucket_def ask_def bucket_exists fs_res_def)

lemma GetObject_effect:
  assumes "bucket_name b" "db_ready db" "multi_GetObject env b k rr db = (r, db')"
  shows "reads_object b k db db'"
proof -
  have load: "reads_object b k db db1" if "loadMeta env b k sz t db = (q, db1)" for sz t q db1
    by (rule loadMeta_effect [OF assms(1,2) that])
  show ?thesis
    using assms(2,3) load
    by (auto simp: multi_GetObject_def act_bind_def require_bucket_def ask_def fs_act_def act_ok_def
        split: res.splits prod.splits if_splits)
qed

lemma HeadObject_effect:
  assumes "bucket_name b" "db_ready db" "multi_HeadObject env b k db = (r, db')"
  shows "reads_object b k db db'"
proof -
  have load: "reads_object b k db db1" if "loadMeta env b k sz t db = (q, db1)" for sz t q db1
    by (rule loadMeta_effect [OF assms(1,2) that])
  show ?thesis
    using assms(2,3) load
    by (auto simp: multi_HeadObject_def act_bind_def require_bucket_def ask_def fs_act_def act_ok_def
        split: res.splits prod.splits if_splits)
qed

lemma GetObject_fresh:
  assumes "bucket_name b" "plain_path k" "db_ready db" "btree (sa_world db) b \<noteq> None"
    and at: "btree (sa_world db) (bpath b k) = Some (File c t)"
    and doc: "documented (sa_world db) b k c t md"
  shows "\<exists>obj db'. multi_GetObject env b k None db = (Ok obj, db') \<and> object_of_file k c md obj \<and> db_ready db' \<and>
    btree (sa_world db') = btree (sa_world db) \<and> mtree (sa_world db') = mtree (sa_world db)"
proof -
  obtain f i where f: "fs_Open (ae_bucket env) (bpath b k) (sa_world db) = Inl f" "fl_Stat f = Inl i"
      "\<not> fi_IsDir i" "fi_Size i = int (length c)" "fi_ModTime i = t" "fl_Reader f = bytes_reader c"
    using bucket.Open [OF at] by auto
  obtain m db' where m: "loadMeta env b k (int (length c)) t db = (Inl m, db')" "mt_Hash m = ae_md5 env c"
      "meta_map (mt_Meta m) = md" "db_ready db'"
      "btree (sa_world db') = btree (sa_world db)" "mtree (sa_world db') = mtree (sa_world db)"
    using loadMeta_fresh [OF assms(3) doc] by blast
  have "open_object (ae_bucket env) (path_Join [b, k]) k None (sa_world db) =
      Ok (i, None, bytes_reader c)"
    using f assms(1,2)
    by (simp add: open_object_def object_path unless_missing_def fs_res_def ranged_reader_def)
  then have "multi_GetObject env b k None db = (Ok (afero_object k m (int (length c)) None c), db')"
    using assms(1,4) f m(1)
    by (simp add: multi_GetObject_def act_bind_def require_bucket_eq ask_def fs_act_def fs_res_def act_ok_def
        bytes_reader_def)
  then show ?thesis using m by (auto simp: file_object_def afero_object_def)
qed

lemma GetObject_missing:
  assumes "bucket_name b" "plain_path k" "btree (sa_world db) b \<noteq> None"
    and "btree (sa_world db) (bpath b k) = None" "reachable_path (btree (sa_world db)) (bpath b k)"
  shows "multi_GetObject env b k rr db = (Err (KeyNotFound k), db)"
proof -
  have "plain_path (bpath b k)" using assms(1,2) by (simp add: object_path_plain)
  from bucket.Open_missing [OF this assms(4)] show ?thesis
    using assms(1-3,5)
    by (auto simp: multi_GetObject_def act_bind_def require_bucket_eq ask_def open_object_def object_path
        unless_missing_def)
qed

lemma HeadObject_missing:
  assumes "bucket_name b" "plain_path k" "btree (sa_world db) b \<noteq> None"
    and "btree (sa_world db) (bpath b k) = None" "reachable_path (btree (sa_world db)) (bpath b k)"
  shows "multi_HeadObject env b k db = (Err (KeyNotFound k), db)"
proof -
  have "plain_path (bpath b k)" using assms(1,2) by (simp add: object_path_plain)
  from bucket.Stat_missing [OF this assms(4,5)] show ?thesis
    using assms(1-3)
    by (auto simp: multi_HeadObject_def act_bind_def require_bucket_eq ask_def object_path unless_missing_def)
qed

section \<open>Storing objects\<close>

lemma make_parent_effect:
  assumes "plain_path p"
  shows "\<exists>r w. make_parent env p db = (fs_res r, db\<lparr>sa_world := w\<rparr>) \<and> mtree w = mtree (sa_world db) \<and>
    ready w = ready (sa_world db) \<and> changes_at p (btree (sa_world db)) (btree w)"
  using assms
proof (cases rule: plain_path_cases)
  case name
  then have "make_parent env p db = (fs_res (Inl ()), db\<lparr>sa_world := sa_world db\<rparr>)"
    by (simp add: make_parent_def act_ok_def fs_res_def)
  then show ?thesis by (intro exI conjI) auto
next
  case (dir d n)
  obtain r w where 1: "fs_MkdirAll (ae_bucket env) d (sa_world db) = (r, w)" by fastforce
  then have "make_parent env p db = (fs_res r, db\<lparr>sa_world := w\<rparr>)"
    using dir plain_not_root [OF dir(3)] by (simp add: make_parent_def fs_act_def on_fs_def)
  then show ?thesis using bucket.MkdirAll [OF dir(3) 1] by (auto simp: changes_at_def)
qed

lemma store_file_effect:
  assumes "bucket_name b" "plain_path p" "db_ready db"
    and "store_file env b k p called meta inp db = (r, db')"
  shows "changes_at p (btree (sa_world db)) (btree (sa_world db')) \<and> db_ready db' \<and>
    changes_at (meta_path b k) (mtree (sa_world db)) (mtree (sa_world db')) \<and>
    (\<forall>x. r = Ok x \<longrightarrow>
       x = emptyPutResult \<and> rd_err inp = None \<and>
       (\<exists>t. btree (sa_world db') p = Some (File (rd_bytes inp) t) \<and>
            (ascii_map (meta_map meta) \<longrightarrow> documented (sa_world db') b k (rd_bytes inp) t (meta_map meta)))) \<and>
    (\<forall>e. r = Err (ECode e) \<longrightarrow>
       rd_err inp = Some (ECode e) \<and> mtree (sa_world db') = mtree (sa_world db) \<and>
       (\<exists>t. btree (sa_world db') p = Some (File (rd_bytes inp) t)))"
proof -
  note p = assms(2)
  let ?w = "sa_world db"
  obtain r1 w1 where 1: "make_parent env p db = (fs_res r1, db\<lparr>sa_world := w1\<rparr>)"
    and mk: "mtree w1 = mtree ?w" "ready w1 = ready ?w" "changes_at p (btree ?w) (btree w1)"
    using make_parent_effect [OF p] by blast
  obtain r2 w2 where 2: "fs_Create (ae_bucket env) p w1 = (r2, w2)" by fastforce
  note ch1 = mk(3)
  note cr = bucket.Create [OF p 2]
  have ch2: "changes_at p (btree ?w) (btree w2)"
    by (rule changes_at_trans [OF ch1]) (use cr in \<open>auto split: sum.splits\<close>)
  show ?thesis
  proof (cases "r1 = Inl () \<and> (\<exists>h. r2 = Inl h)")
    case False
    then have "db' = db\<lparr>sa_world := w1\<rparr> \<or> db' = db\<lparr>sa_world := w2\<rparr>" "\<nexists>x. r = Ok x" "\<nexists>e. r = Err (ECode e)"
      using assms(4) 1 2
      by (cases r1; cases r2; auto simp: store_file_def act_bind_def fs_act_def on_fs_def fs_res_def fs_err_not_code)+
    then show ?thesis
      using mk cr ch1 ch2 assms(3) by (cases r2) (auto simp: afero_ready_def)
  next
    case True
    then obtain h where h: "r1 = Inl ()" "r2 = Inl h" by blast
    obtain r3 w3 where 3: "copy_to_file (ae_bucket env) h inp w2 = (r3, w3)" by fastforce
    note cp = bucket.copy_effect [OF p 2 [unfolded h] 3]
    then obtain c t where c: "btree w3 = (btree w1)(p \<mapsto> File c t)" "mtree w3 = mtree ?w" "ready w3 = ready ?w"
        "\<forall>x. r3 = Ok x \<longrightarrow> c = rd_bytes inp \<and> x = rd_bytes inp \<and> rd_err inp = None"
        "\<forall>e. r3 = Err (ECode e) \<longrightarrow> c = rd_bytes inp \<and> rd_err inp = Some (ECode e)"
      using mk by auto
    have ch3: "changes_at p (btree ?w) (btree w3)"
      using changes_at_trans [OF ch1 changes_at_upd] c(1) by simp
    show ?thesis
    proof (cases r3)
      case (Ok hashed)
      obtain i where i: "fs_Stat (ae_bucket env) p w3 = Inl i" "fi_Size i = int (length c)" "fi_ModTime i = t"
        using bucket.Stat [of w3 p "File c t"] c(1) by auto
      let ?m = "\<lparr>mt_File = called, mt_ModTime = t, mt_Size = int (length c), mt_Hash = ae_md5 env hashed, mt_Meta = meta\<rparr>"
      obtain r4 w4 where 4: "saveMeta env (meta_path b k) ?m w3 = (r4, w4)" by fastforce
      note sv = saveMeta_effect [OF assms(1) 4]
      have db': "db' = db\<lparr>sa_world := w4\<rparr>" "r = (case r4 of Inl _ \<Rightarrow> Ok emptyPutResult | Inr e \<Rightarrow> Err (fs_err e))"
        using assms(4) 1 2 h 3 Ok i 4
        by (auto simp: store_file_def act_bind_def fs_act_def on_fs_def fs_res_def ask_def on_world_act_def
            act_ok_def split: sum.splits)
      have doc: "documented w4 b k c t (meta_map meta)"
        if "r4 = Inl ()" "ascii_map (meta_map meta)"
        using sv that json [of ?m] Ok c(4) by (fastforce simp: doc_describes_def same_meta_def)
      show ?thesis
        using db' sv c ch3 doc Ok assms(3) by (cases r4) (auto simp: afero_ready_def fs_err_not_code)
    next
      case (Err e)
      then show ?thesis
        using assms(3,4) 1 2 h 3 c ch3
        by (auto simp: store_file_def act_bind_def fs_act_def on_fs_def fs_res_def on_world_act_def afero_ready_def)
    next
      case Panic
      then show ?thesis using 3 by (auto simp: copy_to_file_def split: sum.splits option.splits prod.splits)
    next
      case NoFuel
      then show ?thesis using 3 by (auto simp: copy_to_file_def split: sum.splits option.splits prod.splits)
    qed
  qed
qed

lemma merge_effect:
  assumes "bucket_name b" "db_ready db" "MergeMetadata (multi_GetObject env b k None) (Some m) db = (r, db')"
  shows "reads_object b k db db' \<and>
    (\<forall>x. r = Ok x \<longrightarrow> (\<exists>m'. x = Some m' \<and> map_of m' = old_metadata db b k ++ map_of m)) \<and>
    (\<forall>e. r \<noteq> Err e)"
proof -
  obtain q db1 where g: "multi_GetObject env b k None db = (q, db1)" by fastforce
  from GetObject_effect [OF assms(1,2) g] MergeMetadata_effect [OF g assms(3)] g
  show ?thesis by (auto simp: kept_metadata_def)
qed

lemma PutObject_effect:
  assumes "bucket_name b" "path_Join [b, k] = p" "plain_path p" "db_ready db"
    and "multi_PutObject env b k (Some m) inp sz db = (r, db')"
  shows "changes_at p (btree (sa_world db)) (btree (sa_world db')) \<and> db_ready db' \<and>
    changes_at (meta_path b k) (mtree (sa_world db)) (mtree (sa_world db')) \<and>
    (\<forall>x. r = Ok x \<longrightarrow>
       x = emptyPutResult \<and> rd_err inp = None \<and> btree (sa_world db) b \<noteq> None \<and>
       (\<exists>t. btree (sa_world db') p = Some (File (rd_bytes inp) t) \<and>
            (ascii_map (old_metadata db b k ++ map_of m) \<longrightarrow>
             documented (sa_world db') b k (rd_bytes inp) t (old_metadata db b k ++ map_of m)))) \<and>
    (\<forall>e. r = Err (ECode e) \<longrightarrow>
       rd_err inp = Some (ECode e) \<and> (\<exists>t. btree (sa_world db') p = Some (File (rd_bytes inp) t)))"
proof -
  obtain q db1 where q: "MergeMetadata (multi_GetObject env b k None) (Some m) db = (q, db1)" by fastforce
  note me = merge_effect [OF assms(1,4) q]
  show ?thesis
  proof (cases "(\<exists>x. q = Ok x) \<and> btree (sa_world db1) b \<noteq> None")
    case False
    then have "db' = db1" "\<nexists>x. r = Ok x" "\<nexists>e. r = Err (ECode e)"
      using assms(1,5) q me
      by (cases q; auto simp: multi_PutObject_def act_bind_def require_bucket_eq BucketNotFound_def
          ResourceError_def split: if_splits)+
    then show ?thesis using me by (simp add: reads_object_def)
  next
    case True
    then obtain m' where m': "q = Ok (Some m')" "map_of m' = old_metadata db b k ++ map_of m"
      using me by blast
    then have st: "store_file env b k p p (Some m') inp db1 = (r, db')"
      using assms(1,2,5) q True
      by (simp add: multi_PutObject_def act_bind_def require_bucket_eq Let_def)
    have "db_ready db1" using me by (simp add: reads_object_def)
    note sf = store_file_effect [OF assms(1,3) this st]
    have "changes_at (meta_path b k) (mtree (sa_world db)) (mtree (sa_world db'))"
      using changes_at_trans me sf unfolding reads_object_def by blast
    then show ?thesis
      using sf me m' True by (auto simp: reads_object_def meta_map_def)
  qed
qed

lemma stored_then_got:
  assumes "bucket_name b" "plain_path k" "db_ready db" "ascii_map (old_metadata db b k ++ map_of m)"
    and "multi_PutObject env b k (Some m) inp sz db = (Ok x, db')"
  shows "\<exists>obj db''. multi_GetObject env b k None db' = (Ok obj, db'') \<and>
    object_of_file k (rd_bytes inp) (old_metadata db b k ++ map_of m) obj \<and> btree (sa_world db') b \<noteq> None"
proof -
  have p: "path_Join [b, k] = bpath b k" "plain_path (bpath b k)"
    using assms(1,2) by (simp_all add: object_path object_path_plain)
  note e = PutObject_effect [OF assms(1) p assms(3,5)]
  then obtain t where t: "btree (sa_world db') (bpath b k) = Some (File (rd_bytes inp) t)"
      "documented (sa_world db') b k (rd_bytes inp) t (old_metadata db b k ++ map_of m)"
    using assms(4) by blast
  have "b \<noteq> bpath b k" by simp
  then have b: "btree (sa_world db') b \<noteq> None"
    using e assms(4) unfolding changes_at_def by (metis is_dir_Some)
  show ?thesis using GetObject_fresh [OF assms(1,2) _ b t] e b by blast
qed

section \<open>Deleting objects\<close>

lemma remove_object_effect:
  assumes "bucket_name b" "plain_path k" "remove_object env b k (bpath b k) w = (Inl u, w')"
  shows "btree w' = (btree w)(bpath b k := None) \<and> mtree w' = (mtree w)(meta_path b k := None) \<and> ready w' = ready w"
proof -
  have p: "plain_path (bpath b k)" "plain_path (meta_path b k)"
    using assms(1,2) by (simp_all add: bucket_name_def plain_path_append meta_path_plain(2))
  obtain r1 w1 where 1: "fs_Remove (ae_bucket env) (bpath b k) w = (r1, w1)" by fastforce
  obtain r2 w2 where 2: "fs_Remove (ae_meta env) (meta_path b k) w1 = (r2, w2)" by fastforce
  note a = bucket.Remove [OF p(1) 1] and b = meta.Remove [OF p(2) 2]
  have r1: "r1 = Inl () \<or> (\<exists>msg. r1 = Inr (NotExist msg))"
    using assms(3) 1 by (auto simp: remove_object_def split: sum.splits if_splits elim!: IsNotExist.elims)
  then have w2: "w' = w2" "r2 = Inl () \<or> (\<exists>msg. r2 = Inr (NotExist msg))"
    using assms(3) 1 2
    by (auto simp: remove_object_def deleteMeta_def split: sum.splits if_splits elim!: IsNotExist.elims)
  have "r1 \<noteq> Inl () \<Longrightarrow> btree w (bpath b k) = None"
    using r1 bucket.Remove_present [of w "bpath b k"] 1 by (cases "btree w (bpath b k)") auto
  moreover have "r2 \<noteq> Inl () \<Longrightarrow> mtree w1 (meta_path b k) = None"
    using w2(2) meta.Remove_present [of w1 "meta_path b k"] 2 by (cases "mtree w1 (meta_path b k)") auto
  ultimately show ?thesis using a b w2(1) by (auto simp: fun_upd_idem)
qed

lemma DeleteObject_effect:
  assumes "bucket_name b" "plain_path k" "multi_DeleteObject env b k db = (Ok x, db')"
  shows "btree (sa_world db) b \<noteq> None \<and> x = emptyDeleteResult \<and>
    btree (sa_world db') = (btree (sa_world db))(bpath b k := None) \<and>
    mtree (sa_world db') = (mtree (sa_world db))(meta_path b k := None) \<and> (db_ready db' \<longleftrightarrow> db_ready db)"
proof -
  obtain r w where r: "remove_object env b k (bpath b k) (sa_world db) = (r, w)" by fastforce
  then have "btree (sa_world db) b \<noteq> None" "r = Inl ()" "db' = db\<lparr>sa_world := w\<rparr>" "x = emptyDeleteResult"
    using assms
    by (auto simp: multi_DeleteObject_def multi_deleteObjectLocked_def act_bind_Ok require_bucket_eq fs_act_def
        on_fs_def fs_res_def object_path act_ok_def split: if_splits sum.splits)
  then show ?thesis
    using remove_object_effect [OF assms(1,2)] r by (simp add: afero_ready_def)
qed

section \<open>Listings\<close>

text \<open>What a listing of the bucket shows of a path.\<close>

definition listed :: "string \<Rightarrow> Prefix \<Rightarrow> 'w \<Rightarrow> string \<Rightarrow> Content list" where
  "listed b prefix w p =
     (let k = drop (Suc (length b)) p
      in case btree w p of
           Some (File c t) \<Rightarrow> if prefix_Match prefix k = None then [] else [listed_content k c t]
         | _ \<Rightarrow> [])"

lemma listed_cong: "btree w' = btree w \<Longrightarrow> listed b prefix w' = listed b prefix w"
  by (simp add: listed_def fun_eq_iff)

lemma visit_listed:
  assumes b: "bucket_name b" "db_ready db" "all_documented b (sa_world db)"
    and n: "btree (sa_world db) p = Some n" "describes i n" "p = b \<and> is_dir (Some n) \<or> beneath b p"
  shows "\<exists>db'. multi_visit env b prefix (p, Inl i) ol db =
      (Ok (ol\<lparr>ol_Contents := ol_Contents ol @ listed b prefix (sa_world db) p\<rparr>), db') \<and> db_ready db' \<and>
    btree (sa_world db') = btree (sa_world db) \<and> mtree (sa_world db') = mtree (sa_world db)"
proof (cases n)
  case (Dir t)
  then show ?thesis using n b(2) by (simp add: multi_visit_def act_ok_def listed_def)
next
  case (File c t)
  then obtain k where k: "p = bpath b k" using n(3) by (auto simp: beneath_def)
  have cut: "split_n2 p ''/'' = [b, k]" "drop (Suc (length b)) p = k"
    using b(1) by (simp_all add: split_n2_def k index_of_char bucket_name_def)
  obtain md where "documented (sa_world db) b k c t md" using b(3) n(1) File k unfolding bucket_documented_def by blast
  from loadMeta_fresh [OF b(2) this] obtain m db' where m: "loadMeta env b k (int (length c)) t db = (Inl m, db')"
    "mt_Hash m = ae_md5 env c" "db_ready db'" "btree (sa_world db') = btree (sa_world db)"
    "mtree (sa_world db') = mtree (sa_world db)" by blast
  show ?thesis
    using m n File cut b(2)
    by (auto simp: multi_visit_def act_ok_def act_bind_def fs_act_def fs_res_def listed_def afero_content_def
        file_content_def ol_Add_def)
qed

lemma visits_listed:
  assumes "bucket_name b" "db_ready db" "all_documented b (sa_world db)"
    and "\<forall>(p, r) \<in> set vs. (\<exists>i n. r = Inl i \<and> btree (sa_world db) p = Some n \<and> describes i n \<and>
      (p = b \<and> is_dir (Some n) \<or> beneath b p))"
  shows "\<exists>db'. act_fold (multi_visit env b prefix) vs ol db =
      (Ok (ol\<lparr>ol_Contents := ol_Contents ol @ concat (map (listed b prefix (sa_world db) \<circ> fst) vs)\<rparr>), db') \<and>
    btree (sa_world db') = btree (sa_world db) \<and> mtree (sa_world db') = mtree (sa_world db) \<and> db_ready db'"
  using assms(2-4)
proof (induction vs arbitrary: ol db)
  case (Cons v vs)
  obtain p i n where v: "v = (p, Inl i)" "btree (sa_world db) p = Some n" "describes i n"
      "p = b \<and> is_dir (Some n) \<or> beneath b p"
    using Cons.prems(3) by (cases v) auto
  from visit_listed [OF assms(1) Cons.prems(1,2) v(2-4)] obtain db1 where
    1: "multi_visit env b prefix (p, Inl i) ol db =
        (Ok (ol\<lparr>ol_Contents := ol_Contents ol @ listed b prefix (sa_world db) p\<rparr>), db1)" "db_ready db1"
      "btree (sa_world db1) = btree (sa_world db)" "mtree (sa_world db1) = mtree (sa_world db)" by blast
  have "all_documented b (sa_world db1)"
    using Cons.prems(2) 1(3,4) by (simp add: bucket_documented_def doc_describes_def)
  from Cons.IH [OF 1(2) this, of "ol\<lparr>ol_Contents := ol_Contents ol @ listed b prefix (sa_world db) p\<rparr>"]
  show ?case using 1 v(1) Cons.prems(3) by (simp add: act_bind_def listed_cong [OF 1(3)])
qed (simp add: act_ok_def)

lemma listed_empty: "listed b prefix w p = [] \<or> (\<exists>c t. btree w p = Some (File c t) \<and>
    listed b prefix w p = [listed_content (drop (Suc (length b)) p) c t])"
  by (auto simp: listed_def Let_def split: option.splits fnode.splits)

lemma listed_set:
  "x \<in> set (listed b prefix w p) \<longleftrightarrow>
   (\<exists>c t. btree w p = Some (File c t) \<and> prefix_Match prefix (drop (Suc (length b)) p) \<noteq> None \<and>
      x = listed_content (drop (Suc (length b)) p) c t)"
  by (cases "btree w p"; cases "the (btree w p)") (auto simp: listed_def Let_def)

lemma listed_distinct:
  assumes "distinct ps" "\<forall>p \<in> set ps. is_dir (btree w p) \<or> beneath b p"
  shows "distinct (map ct_Key (concat (map (listed b prefix w) ps))) \<and>
    (\<forall>x \<in> set (concat (map (listed b prefix w) ps)). bpath b (ct_Key x) \<in> set ps)"
  using assms
proof (induction ps)
  case (Cons p ps)
  have key: "bpath b (ct_Key x) = p" if "x \<in> set (listed b prefix w p)" for x
    using that Cons.prems(2) by (auto simp: listed_set beneath_def file_content_def)
  have "distinct (map ct_Key (listed b prefix w p))" using listed_empty [of b prefix w p] by auto
  then show ?case using Cons key by fastforce
qed simp

lemma list_all_files:
  assumes b: "ValidateBucketName b = None" "is_dir (btree (sa_world db) b)"
    and db: "db_ready db" "all_documented b (sa_world db)"
    and "page_IsEmpty page" "FilePrefix prefix = (path, part, False)"
  shows "\<exists>ol db'. multi_ListBucket env b (Some prefix) page db = (Ok ol, db') \<and> db_ready db' \<and>
    btree (sa_world db') = btree (sa_world db) \<and> mtree (sa_world db') = mtree (sa_world db) \<and>
    ol_CommonPrefixes ol = [] \<and> \<not> ol_IsTruncated ol \<and> distinct (map ct_Key (ol_Contents ol)) \<and>
    set (ol_Contents ol) = {listed_content k c t | k c t.
      btree (sa_world db) (bpath b k) = Some (File c t) \<and> prefix_Match prefix k \<noteq> None}"
proof -
  let ?w = "sa_world db" and ?vs = "fs_Walk (ae_bucket env) b (sa_world db)"
  let ?ps = "map fst ?vs"
  note name = valid_bucket_name [OF b(1)]
  obtain t where t: "btree ?w b = Some (Dir t)" using b(2) by (cases "btree ?w b" rule: is_dir.cases) auto
  obtain i where i: "fs_Stat (ae_bucket env) b ?w = Inl i" "fi_IsDir i" using bucket.Stat [OF t] by auto
  have walk: "distinct ?ps" "set ?ps = insert b {p. beneath b p \<and> btree ?w p \<noteq> None}"
    "\<forall>(p, r) \<in> set ?vs. \<exists>i n. r = Inl i \<and> btree ?w p = Some n \<and> describes i n"
    using bucket.Walk [OF b(2)] by simp_all
  have "p = b \<and> is_dir (Some n) \<or> beneath b p" if "(p, r) \<in> set ?vs" "btree ?w p = Some n" for p r n
  proof -
    have "p \<in> set ?ps" using that(1) by force
    then show ?thesis using walk(2) that(2) t by auto
  qed
  then have "\<forall>(p, r) \<in> set ?vs. (\<exists>i n. r = Inl i \<and> btree ?w p = Some n \<and> describes i n \<and>
      (p = b \<and> is_dir (Some n) \<or> beneath b p))"
    using walk(3) by blast
  from visits_listed [OF name db this, of prefix NewObjectList] obtain db' where
    db': "act_fold (multi_visit env b prefix) ?vs NewObjectList db =
        (Ok (NewObjectList\<lparr>ol_Contents := concat (map (listed b prefix ?w \<circ> fst) ?vs)\<rparr>), db')" "db_ready db'"
      "btree (sa_world db') = btree ?w" "mtree (sa_world db') = mtree ?w"
    by (auto simp: NewObjectList_def)
  let ?cs = "concat (map (listed b prefix ?w) ?ps)"
  have "multi_ListBucket env b (Some prefix) page db = (Ok (NewObjectList\<lparr>ol_Contents := ?cs\<rparr>), db')"
    using assms(1,5,6) i db'(1)
    by (simp add: multi_ListBucket_def multi_arbitrary_prefix_def act_bind_def ask_def unless_missing_def)
  moreover have "distinct (map ct_Key ?cs)"
  proof -
    have "\<forall>p \<in> set ?ps. is_dir (btree ?w p) \<or> beneath b p"
      unfolding walk(2) using b(2) by simp
    then show ?thesis by (rule listed_distinct [OF walk(1), THEN conjunct1])
  qed
  moreover have "set ?cs = {listed_content k c t | k c t.
      btree ?w (bpath b k) = Some (File c t) \<and> prefix_Match prefix k \<noteq> None}"
  proof -
    have self: "listed b prefix ?w b = []" using t by (simp add: listed_def)
    have there: "bpath b k \<in> set ?ps" if "x \<in> set (listed b prefix ?w (bpath b k))" for x k
      using that unfolding walk(2) by (auto simp: listed_set beneath_def)
    have "set ?cs = (\<Union>p \<in> set ?ps. set (listed b prefix ?w p))" by (simp only: set_concat set_map image_image)
    also have "\<dots> = (\<Union>k. set (listed b prefix ?w (bpath b k)))"
    proof (intro equalityI subsetI)
      fix x assume "x \<in> (\<Union>p \<in> set ?ps. set (listed b prefix ?w p))"
      then obtain p where p: "p \<in> set ?ps" "x \<in> set (listed b prefix ?w p)" by blast
      have "p \<noteq> b" using p(2) self by auto
      then have "beneath b p" using p(1) unfolding walk(2) by blast
      then show "x \<in> (\<Union>k. set (listed b prefix ?w (bpath b k)))" using p(2) unfolding beneath_def by blast
    next
      fix x assume "x \<in> (\<Union>k. set (listed b prefix ?w (bpath b k)))"
      then show "x \<in> (\<Union>p \<in> set ?ps. set (listed b prefix ?w p))" using there by blast
    qed
    also have "\<dots> = {listed_content k c t | k c t.
        btree ?w (bpath b k) = Some (File c t) \<and> prefix_Match prefix k \<noteq> None}"
      by (rule set_eqI) (simp add: listed_set, blast)
    finally show ?thesis .
  qed
  ultimately show ?thesis using db' by (auto simp: NewObjectList_def)
qed

section \<open>Where the back end departs from its interface\<close>

lemma put_elsewhere:
  assumes "bucket_name b" "bucket_name c" "b \<noteq> c" "plain_path k" "db_ready db"
    and "multi_PutObject env b (''../'' @ bpath c k) (Some m) inp sz db = (Ok x, db')"
  shows "(\<exists>t. btree (sa_world db') (bpath c k) = Some (File (rd_bytes inp) t)) \<and>
    (\<forall>n. mtree (sa_world db) (meta_path c k) = Some n \<longrightarrow> mtree (sa_world db') (meta_path c k) = Some n)"
proof -
  have p: "plain_path (bpath c k)"
    using assms(2,4) by (simp_all add: bucket_name_def plain_path_append)
  have "path_Join [b, ''../'' @ bpath c k] = bpath c k"
    using assms(1) p(1) by (intro Join_parent) (simp_all add: bucket_name_def)
  note e = PutObject_effect [OF assms(1) this p assms(5,6)]
  have "meta_path c k \<noteq> meta_path b (''../'' @ bpath c k)"
    using append_slash_cases [of c "meta_object k" b] assms(1-3) meta_object_shape(1)
    by (metis bucket_name_def in_set_conv_decomp meta_path_plain(1))
  then show ?thesis using e changes_at_kept by blast
qed

lemma store_refused:
  assumes "plain_path p" "is_ok (fst (store_file env b k p called meta (bytes_reader (rd_bytes inp)) db))"
    and "rd_err inp = Some e"
  shows "\<exists>db' t. store_file env b k p called meta inp db = (Err e, db') \<and>
    btree (sa_world db') p = Some (File (rd_bytes inp) t)"
proof -
  obtain r1 w1 where 1: "make_parent env p db = (fs_res r1, db\<lparr>sa_world := w1\<rparr>)"
    using make_parent_effect [OF assms(1)] by blast
  obtain r2 w2 where 2: "fs_Create (ae_bucket env) p w1 = (r2, w2)" by fastforce
  obtain h where h: "r1 = Inl ()" "r2 = Inl h"
    using assms(2) 1 2
    by (cases r1; cases r2) (auto simp: store_file_def act_bind_def fs_act_def on_fs_def fs_res_def is_ok_def)
  have "is_ok (fst (copy_to_file (ae_bucket env) h (bytes_reader (rd_bytes inp)) w2))"
    using assms(2) 1 2 h
    by (auto simp: store_file_def act_bind_def fs_act_def on_fs_def fs_res_def on_world_act_def is_ok_def
        split: res.splits prod.splits)
  from bucket.copy_refused [OF assms(1) 2 [unfolded h] this assms(3)] show ?thesis
    using 1 2 h
    by (auto simp: store_file_def act_bind_def fs_act_def on_fs_def fs_res_def on_world_act_def)
qed

lemma put_not_atomic:
  assumes "bucket_name b" "plain_path k"
    and "is_ok (fst (multi_PutObject env b k m (bytes_reader (rd_bytes inp)) sz db))" "rd_err inp = Some e"
  shows "\<exists>db' t. multi_PutObject env b k m inp sz db = (Err e, db') \<and>
    btree (sa_world db') (bpath b k) = Some (File (rd_bytes inp) t)"
proof -
  have p: "path_Join [b, k] = bpath b k" "plain_path (bpath b k)"
    using assms(1,2) by (simp_all add: object_path object_path_plain)
  obtain q db1 where q: "MergeMetadata (multi_GetObject env b k None) m db = (q, db1)" by fastforce
  obtain m' where m': "q = Ok m'" "btree (sa_world db1) b \<noteq> None"
      "is_ok (fst (store_file env b k (bpath b k) (bpath b k) m' (bytes_reader (rd_bytes inp)) db1))"
    using assms(3) q p(1) require_bucket_eq [OF assms(1), of db1]
    by (cases q) (auto simp: multi_PutObject_def act_bind_def is_ok_def Let_def split: if_splits)
  from store_refused [OF p(2) m'(3) assms(4)] show ?thesis
    using q m' p(1) require_bucket_eq [OF assms(1), of db1] by (auto simp: multi_PutObject_def act_bind_def Let_def)
qed

lemma loadMeta_stale:
  assumes "db_ready db" "mtree (sa_world db) (meta_path b k) = Some (File bts t')" "bts \<noteq> []"
    and "ae_Unmarshal env bts = Inl m" "mt_Size m \<noteq> sz" "loadMeta env b k sz t db = (Inl m', db')"
  shows "mt_Hash m' = ae_md5 env bts"
proof -
  obtain r db1 where r: "getModTimeRes env db = (Inl r, db1)" "mtree (sa_world db1) = mtree (sa_world db)"
    using getModTimeRes_ok [OF assms(1)] by blast
  have "mtree (sa_world db1) (meta_path b k) = Some (File bts t')" using r(2) assms(2) by simp
  from meta.Open [OF this] obtain f where f: "fs_Open (ae_meta env) (meta_path b k) (sa_world db1) = Inl f"
      "rd_bytes (fl_Reader f) = bts" by (auto simp: bytes_reader_def)
  have "read_document env (meta_path b k) (sa_world db) = Inl bts"
    using meta.ReadFile [OF assms(2)] by (simp add: read_document_def)
  moreover have "stale m sz t r" using assms(5) by (simp add: stale_def Let_def)
  ultimately show ?thesis
    using assms(3,4,6) r(1) f
    by (auto simp: loadMeta_def Let_def f_bind_def f_get_def f_ok_def on_fs_def of_json_def hashFile_def
        split: sum.splits prod.splits)
qed

lemma stale_etag:
  assumes "bucket_name b" "plain_path k" "db_ready db"
    and "btree (sa_world db) (bpath b k) = Some (File c t)"
    and "mtree (sa_world db) (meta_path b k) = Some (File bts t')" "bts \<noteq> []"
    and "ae_Unmarshal env bts = Inl m" "mt_Size m \<noteq> int (length c)"
    and "multi_GetObject env b k None db = (Ok obj, db')"
  shows "ob_Contents obj = c \<and> ob_Hash obj = ae_md5 env bts"
proof -
  obtain f i where f: "fs_Open (ae_bucket env) (bpath b k) (sa_world db) = Inl f" "fl_Stat f = Inl i"
      "\<not> fi_IsDir i" "fi_Size i = int (length c)" "fi_ModTime i = t" "fl_Reader f = bytes_reader c"
    using bucket.Open [OF assms(4)] by auto
  have "open_object (ae_bucket env) (path_Join [b, k]) k None (sa_world db) = Ok (i, None, bytes_reader c)"
    using f assms(1,2) by (simp add: open_object_def object_path unless_missing_def fs_res_def ranged_reader_def)
  then obtain m' where "loadMeta env b k (int (length c)) t db = (Inl m', db')"
      "obj = afero_object k m' (int (length c)) None c"
    using assms(1,9) f
    by (auto simp: multi_GetObject_def act_bind_Ok require_bucket_eq ask_def fs_act_def fs_res_def act_ok_def
        bytes_reader_def split: if_splits sum.splits prod.splits)
  then show ?thesis
    using loadMeta_stale [OF assms(3,5-8)] by (auto simp: afero_object_def)
qed

lemma missing_directory:
  assumes "bucket_name b" "plain_path d" "is_dir (btree (sa_world db) b)"
    and "btree (sa_world db) (bpath b d) = None" "reachable_path (btree (sa_world db)) (bpath b d)"
    and "ValidateBucketName b = None" "page_IsEmpty page" "FilePrefix p = (d, part, True)"
  shows "multi_ListBucket env b (Some p) page db = (Err (BucketNotFound b), db)"
proof -
  have "plain_path (bpath b d)" using assms(1,2) by (simp add: object_path_plain)
  from bucket.ReadDir_missing [OF this assms(4,5)] show ?thesis
    using assms(1,2,6-8)
    by (auto simp: multi_ListBucket_def multi_file_prefix_def act_bind_def ask_def object_path unless_missing_def)
qed

lemma missing_bucket:
  assumes "bucket_name b" "btree (sa_world db) b = None"
  shows "\<exists>msg. multi_DeleteBucket env b db = (Err (EOther msg), db) \<and>
    multi_ForceDeleteBucket env b db = (Err (EOther msg), db)"
proof -
  have "reachable_path (btree (sa_world db)) b" "plain_path b"
    using assms(1) by (auto simp: reachable_path_def bucket_name_def)
  from bucket.ReadDir_missing [OF this(2) assms(2) this(1)] show ?thesis
    by (auto simp: multi_DeleteBucket_def multi_ForceDeleteBucket_def act_bind_def ask_def fs_res_def)
qed

section \<open>The metadata stay fresh\<close>

lemma open_documented:
  assumes "bucket_name b" "plain_path k"
    and "open_object (ae_bucket env) (path_Join [b, k]) k rr w = Ok (i, rnge, rdr)"
  shows "\<exists>c t. btree w (bpath b k) = Some (File c t) \<and> fi_Size i = int (length c) \<and> fi_ModTime i = t \<and>
    (rr = None \<longrightarrow> rnge = None \<and> rdr = bytes_reader c)"
proof -
  have p: "plain_path (bpath b k)" using assms(1,2) by (simp add: object_path_plain)
  consider (directory) "is_dir (btree w (bpath b k))" | (missing) "btree w (bpath b k) = None"
    | (found) c t where "btree w (bpath b k) = Some (File c t)"
    by (cases "btree w (bpath b k)" rule: is_dir.cases) auto
  then show ?thesis
  proof cases
    case directory
    then show ?thesis
      using assms bucket.Open_dir [of w "bpath b k"]
      by (auto simp: open_object_def object_path unless_missing_def fs_res_def rbind_eq_Ok split: if_splits)
  next
    case missing
    from bucket.Open_missing [OF p this] show ?thesis
      using assms by (auto simp: open_object_def object_path unless_missing_def split: if_splits)
  next
    case found
    from bucket.Open [OF this] obtain f j where f: "fs_Open (ae_bucket env) (bpath b k) w = Inl f"
      "fl_Stat f = Inl j" "\<not> fi_IsDir j" "fi_Size j = int (length c)" "fi_ModTime j = t"
      "fl_Reader f = bytes_reader c" by auto
    then have "i = j" "rr = None \<longrightarrow> rnge = None \<and> rdr = bytes_reader c"
      using assms by (auto simp: open_object_def object_path unless_missing_def fs_res_def rbind_eq_Ok
        ranged_reader_def)
    then show ?thesis using found f by blast
  qed
qed

lemma GetObject_documented:
  assumes "bucket_name b" "plain_path k" "db_ready db" "all_documented b (sa_world db)"
    and "multi_GetObject env b k rr db = (r, db')"
  shows "db_ready db' \<and> btree (sa_world db') = btree (sa_world db) \<and> mtree (sa_world db') = mtree (sa_world db) \<and>
    (\<forall>obj. rr = None \<longrightarrow> r = Ok obj \<longrightarrow> (\<exists>c t md. btree (sa_world db) (bpath b k) = Some (File c t) \<and>
       documented (sa_world db) b k c t md \<and> object_of_file k c md obj))"
proof (cases "btree (sa_world db) b = None")
  case True
  then show ?thesis
    using assms(1,3,5) by (auto simp: multi_GetObject_def act_bind_def require_bucket_eq)
next
  case False
  let ?o = "open_object (ae_bucket env) (path_Join [b, k]) k rr (sa_world db)"
  show ?thesis
  proof (cases "\<exists>x. ?o = Ok x")
    case False
    then show ?thesis
      using assms(1,3,5) \<open>btree (sa_world db) b \<noteq> None\<close>
      by (cases ?o) (auto simp: multi_GetObject_def act_bind_def require_bucket_eq ask_def)
  next
    case True
    then obtain i rnge rdr where o: "?o = Ok (i, rnge, rdr)" by auto
    from open_documented [OF assms(1,2) o] obtain c where c:
      "btree (sa_world db) (bpath b k) = Some (File c (fi_ModTime i))" "fi_Size i = int (length c)"
      "rr = None \<longrightarrow> rnge = None \<and> rdr = bytes_reader c" by blast
    then obtain md where md: "documented (sa_world db) b k c (fi_ModTime i) md"
      using assms(4) c(1) unfolding bucket_documented_def by blast
    from loadMeta_fresh [OF assms(3) md] obtain m db1 where m:
      "loadMeta env b k (int (length c)) (fi_ModTime i) db = (Inl m, db1)" "mt_Hash m = ae_md5 env c"
      "meta_map (mt_Meta m) = md" "db_ready db1" "btree (sa_world db1) = btree (sa_world db)"
      "mtree (sa_world db1) = mtree (sa_world db)" by blast
    have "r = Ok (afero_object k m (int (length c)) rnge (rd_bytes rdr))" "db' = db1"
      using assms(1,5) o c(2) m(1) \<open>btree (sa_world db) b \<noteq> None\<close>
      by (auto simp: multi_GetObject_def act_bind_def require_bucket_eq ask_def fs_act_def fs_res_def act_ok_def)
    then show ?thesis using c md m by (auto simp: file_object_def afero_object_def bytes_reader_def)
  qed
qed

lemma fresh_documented: "bucket_fresh env btree mtree K b w \<Longrightarrow> all_documented b w"
  unfolding bucket_fresh_def bucket_documented_def by blast

lemma documented_unique:
  "documented w b k c t md \<Longrightarrow> documented w b k c' t' md' \<Longrightarrow> md' = md"
  by (auto simp: doc_describes_def)

lemma fresh_cong:
  "bucket_fresh env btree mtree K b w \<Longrightarrow> btree w' = btree w \<Longrightarrow> mtree w' = mtree w \<Longrightarrow>
   bucket_fresh env btree mtree K b w'"
  by (simp add: bucket_fresh_def doc_describes_def)

lemma fresh_step:
  assumes b: "bucket_name b" and K: "\<forall>k \<in> K. plain_path k" "inj_on meta_object K"
    and fresh: "bucket_fresh env btree mtree K b (sa_world db)" "db_ready db"
    and op: "op_in K op" "afero_step env b op db = Some db'"
  shows "bucket_fresh env btree mtree K b (sa_world db') \<and> db_ready db'"
proof (cases op)
  case (StoreOp k m inp sz)
  then have k: "k \<in> K" "plain_path k" "ascii_map (map_of m)" using op(1) K(1) by auto
  obtain x where put: "multi_PutObject env b k (Some m) inp sz db = (Ok x, db')"
    using op(2) StoreOp by (auto split: res.splits prod.splits)
  obtain q db1 where get: "multi_GetObject env b k None db = (q, db1)" by fastforce
  note g = GetObject_documented [OF b k(2) fresh(2) fresh_documented [OF fresh(1)] get]
  have "ascii_map (old_metadata db b k)"
  proof (cases q)
    case (Ok obj)
    then obtain c t md where f: "btree (sa_world db) (bpath b k) = Some (File c t)"
        "documented (sa_world db) b k c t md" "object_of_file k c md obj" using g by blast
    then obtain md' where "documented (sa_world db) b k c t md'" "ascii_map md'"
      using fresh(1) unfolding bucket_fresh_def by blast
    then show ?thesis using documented_unique [OF f(2)] f(3) Ok get by (auto simp: kept_metadata_def file_object_def)
  qed (use get in \<open>auto simp: kept_metadata_def ascii_map_def\<close>)
  then have merged: "ascii_map (old_metadata db b k ++ map_of m)"
    using k(3) by (auto simp: ascii_map_def map_add_def split: option.splits)
  have p: "path_Join [b, k] = bpath b k" "plain_path (bpath b k)"
    using b k(2) by (simp_all add: object_path object_path_plain)
  note e = PutObject_effect [OF b p fresh(2) put]
  have "k' \<in> K \<and> (\<exists>md. documented (sa_world db') b k' c t md \<and> ascii_map md)"
    if f: "btree (sa_world db') (bpath b k') = Some (File c t)" for k' c t
  proof (cases "k' = k")
    case True
    then show ?thesis using e merged f k(1) by auto
  next
    case False
    then have "btree (sa_world db) (bpath b k') = Some (File c t)"
      using e f unfolding changes_at_def by (metis append_same_eq is_dir.simps(3) list.inject same_append_eq)
    then obtain md where md: "k' \<in> K" "documented (sa_world db) b k' c t md" "ascii_map md"
      using fresh(1) unfolding bucket_fresh_def by blast
    have "meta_path b k' \<noteq> meta_path b k"
      using False K(2) k(1) md(1) by (auto simp: meta_path_plain(1) [OF b] dest: inj_onD)
    then have "documented (sa_world db') b k' c t md"
      using md(2) e changes_at_kept unfolding doc_describes_def by blast
    then show ?thesis using md by blast
  qed
  then show ?thesis using e by (simp add: bucket_fresh_def)
next
  case (RemoveOp k)
  then have k: "k \<in> K" "plain_path k" using op(1) K(1) by auto
  obtain x where del: "multi_DeleteObject env b k db = (Ok x, db')"
    using op(2) RemoveOp by (auto split: res.splits prod.splits)
  note e = DeleteObject_effect [OF b k(2) del]
  have "k' \<in> K \<and> (\<exists>md. documented (sa_world db') b k' c t md \<and> ascii_map md)"
    if f: "btree (sa_world db') (bpath b k') = Some (File c t)" for k' c t
  proof -
    have "k' \<noteq> k" "btree (sa_world db) (bpath b k') = Some (File c t)" using e f by (auto split: if_splits)
    then obtain md where md: "k' \<in> K" "documented (sa_world db) b k' c t md" "ascii_map md"
      using fresh(1) unfolding bucket_fresh_def by blast
    have "meta_path b k' \<noteq> meta_path b k"
      using \<open>k' \<noteq> k\<close> K(2) k(1) md(1) by (auto simp: meta_path_plain(1) [OF b] dest: inj_onD)
    then have "documented (sa_world db') b k' c t md" using md(2) e by (simp add: doc_describes_def)
    then show ?thesis using md by blast
  qed
  then show ?thesis using e fresh(2) by (simp add: bucket_fresh_def)
next
  case (FetchOp k rr)
  then have k: "plain_path k" "multi_GetObject env b k rr db = (fst (multi_GetObject env b k rr db), db')"
    using op K(1) by (auto simp: prod_eq_iff)
  note g = GetObject_documented [OF b k(1) fresh(2) fresh_documented [OF fresh(1)] k(2)]
  then show ?thesis using fresh_cong [OF fresh(1), of "sa_world db'"] by blast
qed

lemma fresh_trace:
  assumes "bucket_name b" "\<forall>k \<in> K. plain_path k" "inj_on meta_object K"
    and "bucket_fresh env btree mtree K b (sa_world db)" "db_ready db"
    and "list_all (op_in K) ops" "afero_trace env b ops db = Some db'"
  shows "bucket_fresh env btree mtree K b (sa_world db') \<and> db_ready db'"
  using assms(4-7)
proof (induction ops arbitrary: db)
  case (Cons op ops)
  obtain db1 where s: "afero_step env b op db = Some db1" "afero_trace env b ops db1 = Some db'"
    using Cons.prems(4) by (auto split: option.splits)
  have "bucket_fresh env btree mtree K b (sa_world db1) \<and> db_ready db1"
    using fresh_step [OF assms(1-3) Cons.prems(1,2) _ s(1)] Cons.prems(3) by simp
  then show ?case using Cons.IH [OF _ _ _ s(2)] Cons.prems(3) by simp
qed simp

end

end
