(* ===== verification/AferoSingle.thy ===== *)
theory AferoSingle
  imports AferoMulti
begin

text \<open>
  \<open>single.go\<close> of \<open>backend/s3afero\<close>: one bucket, whose objects are the files of a file system. What it does to
  files and metadata is what \<open>multi.go\<close> does, with the object name as the path; the metadata of a file
  that has no document are computed and not stored.
\<close>

definition require_name :: "string \<Rightarrow> string \<Rightarrow> ('s, unit) act" where
  "require_name name bucketName =
     (if bucketName = name then act_ok () else act_err (BucketNotFound bucketName))"

definition ensureMeta ::
    "('w, 'h) afero_env \<Rightarrow> string \<Rightarrow> string \<Rightarrow> int \<Rightarrow> int \<Rightarrow> ('w s3afero, Metadata) act" where
  "ensureMeta env bucket objectPath sz mtime db =
     (case loadMeta env bucket objectPath sz mtime db of
        (Inr e, db') \<Rightarrow>
          if IsNotExist e then
            ask (\<lambda>w. rbind (fs_res (fs_Open (ae_bucket env) objectPath w))
              (\<lambda>f. case rd_err (fl_Reader f) of
                 Some err \<Rightarrow> Err err
               | None \<Rightarrow> Ok \<lparr>mt_File = objectPath, mt_ModTime = mtime, mt_Size = sz,
                            mt_Hash = ae_md5 env (rd_bytes (fl_Reader f)), mt_Meta = Some []\<rparr>)) db'
          else (Err (fs_err e), db')
      | (Inl meta, db') \<Rightarrow> (Ok meta, db'))"

section \<open>Listings\<close>

definition single_ListBuckets :: "string \<Rightarrow> ('w, 'h) afero_env \<Rightarrow> ('w s3afero, BucketInfo list) act" where
  "single_ListBuckets name env db =
     (let created =
        (case fs_Stat (ae_bucket env) '''' (sa_world db) of
           Inl stat \<Rightarrow> Ok (fi_ModTime stat)
         | Inr e \<Rightarrow> if IsNotExist e then Ok (sa_now db) else Err (fs_err e))
      in (rbind created (\<lambda>t. Ok [\<lparr>bi_Name = name, bi_CreationDate = t\<rparr>]), db))"

definition single_dir_entry ::
    "('w, 'h) afero_env \<Rightarrow> string \<Rightarrow> string \<Rightarrow> string \<Rightarrow> FileInfo \<Rightarrow> ObjectList \<Rightarrow> ('w s3afero, ObjectList) act" where
  "single_dir_entry env bucket prefixPath prefixPart entry response =
     (let object = fi_Name entry;
          objectPath = path_Join [prefixPath, object]
      in if prefixPart \<noteq> '''' \<and> \<not> has_prefix object prefixPart then act_ok response
         else if fi_IsDir entry then
           act_ok (ol_AddPrefix response (path_Join [prefixPath, fi_Name entry] @ ''/''))
         else
           act_bind (ensureMeta env bucket objectPath (fi_Size entry) (fi_ModTime entry))
             (\<lambda>meta. act_ok (ol_Add response
                (afero_content objectPath (fi_Size entry) (fi_ModTime entry) meta))))"

definition single_file_prefix ::
    "('w, 'h) afero_env \<Rightarrow> string \<Rightarrow> string \<Rightarrow> string \<Rightarrow> ('w s3afero, ObjectList) act" where
  "single_file_prefix env bucket prefixPath prefixPart =
     act_bind (ask (\<lambda>w. fs_res (fs_ReadDir (ae_bucket env) prefixPath w)))
       (\<lambda>dirEntries. act_fold (single_dir_entry env bucket prefixPath prefixPart) dirEntries NewObjectList)"

definition single_visit ::
    "('w, 'h) afero_env \<Rightarrow> string \<Rightarrow> Prefix \<Rightarrow> string \<times> (FileInfo + fs_error) \<Rightarrow> ObjectList \<Rightarrow>
     ('w s3afero, ObjectList) act" where
  "single_visit env bucket prefix visit response =
     (case visit of
        (_, Inr e) \<Rightarrow> act_err (fs_err e)
      | (objectPath, Inl info) \<Rightarrow>
          if fi_IsDir info then act_ok response
          else if prefix_Match prefix objectPath = None then act_ok response
          else
            act_bind (ensureMeta env bucket objectPath (fi_Size info) (fi_ModTime info))
              (\<lambda>meta. act_ok (ol_Add response
                 (afero_content objectPath (fi_Size info) (fi_ModTime info) meta))))"

definition single_arbitrary_prefix ::
    "('w, 'h) afero_env \<Rightarrow> string \<Rightarrow> Prefix \<Rightarrow> ('w s3afero, ObjectList) act" where
  "single_arbitrary_prefix env bucket prefix =
     act_bind (ask (\<lambda>w. Ok (fs_Walk (ae_bucket env) ''.'' w)))
       (\<lambda>visits. act_fold (single_visit env bucket prefix) visits NewObjectList)"

definition single_ListBucket ::
    "string \<Rightarrow> ('w, 'h) afero_env \<Rightarrow> string \<Rightarrow> Prefix option \<Rightarrow> ListBucketPage \<Rightarrow>
     ('w s3afero, ObjectList) act" where
  "single_ListBucket name env bucket prefix page =
     act_bind (require_name name bucket)
       (\<lambda>_. let prefix = (case prefix of None \<Rightarrow> emptyPrefix | Some p \<Rightarrow> p)
             in if \<not> page_IsEmpty page then act_err (EInternalCode ErrInternalPageNotImplemented)
                else
                  (case FilePrefix prefix of
                     (path, part, ok) \<Rightarrow>
                       if ok then single_file_prefix env bucket path part
                       else single_arbitrary_prefix env bucket prefix))"

section \<open>Objects\<close>

definition single_HeadObject ::
    "string \<Rightarrow> ('w, 'h) afero_env \<Rightarrow> string \<Rightarrow> string \<Rightarrow> ('w s3afero, Object) act" where
  "single_HeadObject name env bucketName objectName =
     act_bind (require_name name bucketName)
       (\<lambda>_. act_bind (ask (\<lambda>w. rbind
            (unless_missing (KeyNotFound objectName) (fs_Stat (ae_bucket env) objectName w))
            (\<lambda>stat. if fi_IsDir stat then Err (KeyNotFound objectName) else Ok stat)))
         (\<lambda>stat. act_bind (ensureMeta env bucketName objectName (fi_Size stat) (fi_ModTime stat))
           (\<lambda>meta. act_ok (afero_object objectName meta (fi_Size stat) None []))))"

definition single_GetObject ::
    "string \<Rightarrow> ('w, 'h) afero_env \<Rightarrow> string \<Rightarrow> string \<Rightarrow> ObjectRangeRequest option \<Rightarrow>
     ('w s3afero, Object) act" where
  "single_GetObject name env bucketName objectName rangeRequest =
     act_bind (require_name name bucketName)
       (\<lambda>_. act_bind (ask (open_object (ae_bucket env) objectName objectName rangeRequest))
         (\<lambda>(stat, rnge, rdr).
            act_bind (ensureMeta env bucketName objectName (fi_Size stat) (fi_ModTime stat))
              (\<lambda>meta. act_ok (afero_object objectName meta (fi_Size stat) rnge (rd_bytes rdr)))))"

definition single_PutObject ::
    "string \<Rightarrow> ('w, 'h) afero_env \<Rightarrow> string \<Rightarrow> string \<Rightarrow> gomap option \<Rightarrow> reader \<Rightarrow> int \<Rightarrow>
     ('w s3afero, PutObjectResult) act" where
  "single_PutObject name env bucketName objectName meta inp sz =
     act_bind (require_name name bucketName)
       (\<lambda>_. act_bind (MergeMetadata (single_GetObject name env bucketName objectName None) meta)
         (\<lambda>meta'. store_file env bucketName objectName objectName objectName meta' inp))"

definition single_deleteObjectLocked :: "('w, 'h) afero_env \<Rightarrow> string \<Rightarrow> string \<Rightarrow> ('w s3afero, unit) act" where
  "single_deleteObjectLocked env bucketName objectName =
     fs_act (on_fs (remove_object env bucketName objectName objectName))"

definition single_DeleteMulti ::
    "string \<Rightarrow> ('w, 'h) afero_env \<Rightarrow> string \<Rightarrow> string list \<Rightarrow> ('w s3afero, MultiDeleteResult) act" where
  "single_DeleteMulti name env bucketName objects =
     act_bind (require_name name bucketName)
       (\<lambda>_. act_fold (delete_step (single_deleteObjectLocked env bucketName)) objects
              \<lparr>md_Deleted = [], md_Error = []\<rparr>)"

definition single_DeleteObject ::
    "string \<Rightarrow> ('w, 'h) afero_env \<Rightarrow> string \<Rightarrow> string \<Rightarrow> ('w s3afero, ObjectDeleteResult) act" where
  "single_DeleteObject name env bucketName objectName =
     act_bind (require_name name bucketName)
       (\<lambda>_. act_bind (single_deleteObjectLocked env bucketName objectName) (\<lambda>_. act_ok emptyDeleteResult))"

section \<open>The bucket\<close>

definition single_CreateBucket :: "string \<Rightarrow> ('w s3afero, unit) act" where
  "single_CreateBucket name = act_err (ECode ErrNotImplemented)"

definition single_DeleteBucket :: "string \<Rightarrow> ('w s3afero, unit) act" where
  "single_DeleteBucket name = act_err (ECode ErrNotImplemented)"

text \<open>The first walk collects the files; its callback stops at the first error.\<close>

fun walked_files :: "(string \<times> (FileInfo + fs_error)) list \<Rightarrow> string list \<Rightarrow> string list res" where
  "walked_files [] objects = Ok objects"
| "walked_files ((_, Inr e) # visits) objects = Err (fs_err e)"
| "walked_files ((path, Inl info) # visits) objects =
     walked_files visits (if fi_IsDir info then objects else objects @ [path])"

definition single_ForceDeleteBucket :: "string \<Rightarrow> ('w, 'h) afero_env \<Rightarrow> string \<Rightarrow> ('w s3afero, unit) act" where
  "single_ForceDeleteBucket name env bucket =
     act_bind (require_name name bucket)
       (\<lambda>_. act_bind (ask (\<lambda>w. walked_files (fs_Walk (ae_bucket env) ''.'' w) []))
         (\<lambda>objects. act_bind (act_fold (\<lambda>object _. single_deleteObjectLocked env bucket object) objects ())
           (\<lambda>_. fs_act (on_fs (fs_RemoveAll (ae_bucket env) ''.'')))))"

definition single_BucketExists :: "string \<Rightarrow> string \<Rightarrow> ('w s3afero, bool) act" where
  "single_BucketExists name bucket = act_ok (name = bucket)"

definition single_backend :: "int \<Rightarrow> string \<Rightarrow> ('w, 'h) afero_env \<Rightarrow> 'w s3afero Backend" where
  "single_backend wall name env =
     (let base =
        \<lparr>be_ListBuckets = single_ListBuckets name env,
         be_ListBucket = single_ListBucket name env,
         be_CreateBucket = single_CreateBucket,
         be_BucketExists = single_BucketExists name,
         be_DeleteBucket = single_DeleteBucket,
         be_ForceDeleteBucket = single_ForceDeleteBucket name env,
         be_GetObject = single_GetObject name env,
         be_HeadObject = single_HeadObject name env,
         be_DeleteObject = single_DeleteObject name env,
         be_PutObject = single_PutObject name env,
         be_DeleteMulti = single_DeleteMulti name env,
         be_CopyObject = (\<lambda>_ _ _ _ _. act_res Panic)\<rparr>
      in base\<lparr>be_CopyObject := CopyObject wall base\<rparr>)"

lemmas single_defs [go_eval] =
  require_name_def ensureMeta_def single_ListBuckets_def single_dir_entry_def single_file_prefix_def
  single_visit_def single_arbitrary_prefix_def single_ListBucket_def single_HeadObject_def
  single_GetObject_def single_PutObject_def single_deleteObjectLocked_def single_DeleteMulti_def
  single_DeleteObject_def single_CreateBucket_def single_DeleteBucket_def single_ForceDeleteBucket_def
  single_BucketExists_def single_backend_def

end
