(* ===== verification/MemFs.thy ===== *)
theory MemFs
  imports Afero "HOL-Library.List_Lexorder"
begin

text \<open>
  A file system in memory, as \<open>afero.MemMapFs\<close> is one: files and directories under clean paths, the root
  being ".". It meets the laws of \<open>Afero\<close> and runs the models on concrete inputs. A file system works on a
  part of the world given by \<open>get\<close> and \<open>put\<close>; the clock gives the modification times.
\<close>

type_synonym fs_tree = "(string \<times> fnode) list"

definition tree_get :: "fs_tree \<Rightarrow> string \<Rightarrow> fnode option" where
  "tree_get t p = (let q = path_Clean p in if q = ''.'' then Some (Dir 0) else map_of t q)"

definition base_name :: "string \<Rightarrow> string" where
  "base_name p = (case last_index_byte p slash of None \<Rightarrow> p | Some i \<Rightarrow> drop (i + 1) p)"

fun node_info :: "string \<Rightarrow> fnode \<Rightarrow> FileInfo" where
  "node_info p (Dir t) = \<lparr>fi_Name = base_name p, fi_Size = 0, fi_ModTime = t, fi_IsDir = True\<rparr>"
| "node_info p (File c t) =
     \<lparr>fi_Name = base_name p, fi_Size = int (length c), fi_ModTime = t, fi_IsDir = False\<rparr>"

definition no_such_file :: fs_error where
  "no_such_file = NotExist ''file does not exist''"

definition tree_Stat :: "string \<Rightarrow> fs_tree \<Rightarrow> FileInfo + fs_error" where
  "tree_Stat p t = (case tree_get t p of Some n \<Rightarrow> Inl (node_info (path_Clean p) n) | None \<Rightarrow> Inr no_such_file)"

definition tree_read :: "string \<Rightarrow> fs_tree \<Rightarrow> bytes + fs_error" where
  "tree_read p t =
     (case tree_get t p of
        Some (File c _) \<Rightarrow> Inl c
      | Some (Dir _) \<Rightarrow> Inr (OtherFs ''is a directory'')
      | None \<Rightarrow> Inr no_such_file)"

definition tree_Open :: "string \<Rightarrow> fs_tree \<Rightarrow> open_file + fs_error" where
  "tree_Open p t =
     (case tree_get t p of
        None \<Rightarrow> Inr no_such_file
      | Some n \<Rightarrow>
          let c = (case n of File c _ \<Rightarrow> c | Dir _ \<Rightarrow> [])
          in Inl \<lparr>fl_Stat = Inl (node_info (path_Clean p) n), fl_Reader = bytes_reader c,
                  fl_Seek = (\<lambda>off. if off < 0 then Inr (OtherFs ''negative offset'')
                                  else Inl (bytes_reader (drop (nat off) c)))\<rparr>)"

definition below :: "string \<Rightarrow> string \<Rightarrow> bool" where
  "below q r \<longleftrightarrow> q = ''.'' \<or> has_prefix r (q @ ''/'')"

definition tree_ReadDir :: "string \<Rightarrow> fs_tree \<Rightarrow> FileInfo list + fs_error" where
  "tree_ReadDir p t =
     (let q = path_Clean p
      in case tree_get t p of
           None \<Rightarrow> Inr no_such_file
         | Some (File _ _) \<Rightarrow> Inr (OtherFs ''not a directory'')
         | Some (Dir _) \<Rightarrow>
             Inl (sort_key fi_Name (map (\<lambda>(r, n). node_info r n) (filter (\<lambda>(r, _). path_Dir r = q) t))))"

definition tree_Walk :: "string \<Rightarrow> fs_tree \<Rightarrow> (string \<times> (FileInfo + fs_error)) list" where
  "tree_Walk p t =
     (let q = path_Clean p
      in case tree_get t p of
           None \<Rightarrow> [(q, Inr no_such_file)]
         | Some n \<Rightarrow>
             (q, Inl (node_info q n)) #
             map (\<lambda>(r, m). (r, Inl (node_info r m)))
               (sort_key (\<lambda>(r, _). split_char slash r) (filter (\<lambda>(r, _). plain_path r \<and> below q r) (AList.clearjunk t))))"

text \<open>Writing; the parent directory of a file must exist.\<close>

definition tree_write :: "int \<Rightarrow> string \<Rightarrow> bytes \<Rightarrow> fs_tree \<Rightarrow> (string + fs_error) \<times> fs_tree" where
  "tree_write now p c t =
     (let q = path_Clean p
      in if \<not> is_dir (tree_get t (path_Dir q)) then (Inr no_such_file, t)
         else if is_dir (tree_get t q) then (Inr (OtherFs ''is a directory''), t)
         else (Inl q, AList.update q (File c now) t))"

definition tree_append :: "int \<Rightarrow> string \<Rightarrow> bytes \<Rightarrow> fs_tree \<Rightarrow> (unit + fs_error) \<times> fs_tree" where
  "tree_append now q bts t =
     (case map_of t q of
        Some (File c _) \<Rightarrow> (Inl (), AList.update q (File (c @ bts) now) t)
      | _ \<Rightarrow> (Inr (OtherFs ''file is closed''), t))"

text \<open>The directories above a path and the path itself, the outermost first.\<close>

definition path_prefixes :: "string \<Rightarrow> string list" where
  "path_prefixes q = (let es = split_char slash q in map (\<lambda>i. join (take i es) ''/'') [1..<Suc (length es)])"

fun make_dirs :: "int \<Rightarrow> string list \<Rightarrow> fs_tree \<Rightarrow> (unit + fs_error) \<times> fs_tree" where
  "make_dirs now [] t = (Inl (), t)"
| "make_dirs now (d # ds) t =
     (case tree_get t d of
        None \<Rightarrow> make_dirs now ds (AList.update d (Dir now) t)
      | Some (Dir _) \<Rightarrow> make_dirs now ds t
      | Some (File _ _) \<Rightarrow> (Inr (OtherFs ''not a directory''), t))"

definition tree_Remove :: "string \<Rightarrow> fs_tree \<Rightarrow> (unit + fs_error) \<times> fs_tree" where
  "tree_Remove p t =
     (let q = path_Clean p
      in case tree_get t q of
           None \<Rightarrow> (Inr no_such_file, t)
         | Some _ \<Rightarrow>
             if q = ''.'' \<or> (\<exists>r \<in> set (map fst t). below q r) then (Inr (OtherFs ''directory not empty''), t)
             else (Inl (), AList.delete q t))"

definition tree_RemoveAll :: "string \<Rightarrow> fs_tree \<Rightarrow> fs_tree" where
  "tree_RemoveAll p t = (let q = path_Clean p in filter (\<lambda>(r, _). r \<noteq> q \<and> \<not> below q r) t)"

definition tree_Chtimes :: "string \<Rightarrow> int \<Rightarrow> fs_tree \<Rightarrow> (unit + fs_error) \<times> fs_tree" where
  "tree_Chtimes p m t =
     (case tree_get t p of
        None \<Rightarrow> (Inr no_such_file, t)
      | Some (File c _) \<Rightarrow> (Inl (), AList.update (path_Clean p) (File c m) t)
      | Some (Dir _) \<Rightarrow> (Inl (), AList.update (path_Clean p) (Dir m) t))"

text \<open>The operations on the part of the world that \<open>get\<close> and \<open>put\<close> select.\<close>

definition on_tree ::
    "('w \<Rightarrow> fs_tree) \<Rightarrow> (fs_tree \<Rightarrow> 'w \<Rightarrow> 'w) \<Rightarrow> (fs_tree \<Rightarrow> 'a \<times> fs_tree) \<Rightarrow> 'w \<Rightarrow> 'a \<times> 'w" where
  "on_tree get put f w = (case f (get w) of (r, t) \<Rightarrow> (r, put t w))"

definition mem_fs ::
    "('w \<Rightarrow> fs_tree) \<Rightarrow> (fs_tree \<Rightarrow> 'w \<Rightarrow> 'w) \<Rightarrow> ('w \<Rightarrow> int) \<Rightarrow> ('w, string) afero" where
  "mem_fs get put clock =
     \<lparr>fs_Stat = (\<lambda>p w. tree_Stat p (get w)),
      fs_Exists = (\<lambda>p w. Inl (tree_get (get w) p \<noteq> None)),
      fs_ReadDir = (\<lambda>p w. tree_ReadDir p (get w)),
      fs_Walk = (\<lambda>p w. tree_Walk p (get w)),
      fs_ReadFile = (\<lambda>p w. tree_read p (get w)),
      fs_Open = (\<lambda>p w. tree_Open p (get w)),
      fs_OpenTruncate = (\<lambda>p w. on_tree get put (tree_write (clock w) p []) w),
      fs_Create = (\<lambda>p w. on_tree get put (tree_write (clock w) p []) w),
      fs_Write = (\<lambda>h bts w. on_tree get put (tree_append (clock w) h bts) w),
      fs_Close = (\<lambda>h w. (Inl (), w)),
      fs_WriteFile = (\<lambda>p bts w.
        on_tree get put (\<lambda>t. case tree_write (clock w) p bts t of
          (Inl _, t') \<Rightarrow> (Inl (), t') | (Inr e, t') \<Rightarrow> (Inr e, t')) w),
      fs_MkdirAll = (\<lambda>p w.
        on_tree get put (make_dirs (clock w) (if path_Clean p = ''.'' then [] else path_prefixes (path_Clean p))) w),
      fs_Remove = (\<lambda>p w. on_tree get put (tree_Remove p) w),
      fs_RemoveAll = (\<lambda>p w. on_tree get put (\<lambda>t. (Inl (), tree_RemoveAll p t)) w),
      fs_Chtimes = (\<lambda>p m w. on_tree get put (tree_Chtimes p m) w)\<rparr>"

lemmas mem_fs_defs [go_eval] =
  tree_get_def base_name_def no_such_file_def tree_Stat_def tree_read_def tree_Open_def below_def
  tree_ReadDir_def tree_Walk_def tree_write_def tree_append_def path_prefixes_def tree_Remove_def
  tree_RemoveAll_def tree_Chtimes_def on_tree_def mem_fs_def

section \<open>The laws\<close>

lemma tree_get_plain: "plain_path p \<Longrightarrow> tree_get t p = map_of t p"
  using plain_not_root by (auto simp: tree_get_def Let_def)

lemma describes_node: "describes (node_info p n) n"
  by (cases n) simp_all

lemma below_beneath: "q \<noteq> ''.'' \<Longrightarrow> below q r \<longleftrightarrow> beneath q r"
  by (auto simp: below_def beneath_def has_prefix_iff)

definition seen :: "fs_tree \<Rightarrow> string \<Rightarrow> fnode option" where
  "seen t p = (if plain_path p then map_of t p else None)"

lemma make_dirs_effect:
  "make_dirs now ds t = (r, t') \<Longrightarrow> seen t' q = seen t q \<or> seen t q = None \<and> is_dir (seen t' q)"
proof (induction ds arbitrary: t)
  case (Cons d ds)
  show ?case
  proof (cases "tree_get t d")
    case None
    then have "make_dirs now ds (AList.update d (Dir now) t) = (r, t')" using Cons.prems by simp
    from Cons.IH [OF this] None show ?thesis
      by (auto simp: seen_def tree_get_plain update_conv split: if_splits)
  next
    case (Some n)
    then show ?thesis using Cons by (cases n) auto
  qed
qed simp

lemma tree_write_effect:
  assumes "plain_path p"
  shows "tree_write now p c t =
    (if \<not> is_dir (tree_get t (path_Dir p)) then (Inr no_such_file, t)
     else if is_dir (map_of t p) then (Inr (OtherFs ''is a directory''), t)
     else (Inl p, AList.update p (File c now) t))"
  using assms by (simp add: tree_write_def Let_def tree_get_plain)

lemma seen_update: "plain_path p \<Longrightarrow> seen (AList.update p n t) = (seen t)(p \<mapsto> n)"
  by (auto simp: seen_def update_conv)

lemma seen_delete: "seen (AList.delete p t) = (seen t)(p := None)"
  by (auto simp: seen_def delete_conv)

lemma seen_get: "plain_path p \<Longrightarrow> tree_get t p = seen t p"
  by (simp add: tree_get_plain seen_def)

lemma seen_plain: "seen t p = Some n \<Longrightarrow> plain_path p"
  by (simp add: seen_def split: if_splits)

lemma tree_Walk_effect:
  assumes "is_dir (seen t d)"
  shows "distinct (map fst (tree_Walk d t)) \<and>
    fst ` set (tree_Walk d t) = insert d {p. beneath d p \<and> seen t p \<noteq> None} \<and>
    (\<forall>(p, r) \<in> set (tree_Walk d t). \<exists>i n. r = Inl i \<and> seen t p = Some n \<and> describes i n)"
proof -
  obtain n where n: "seen t d = Some n" using assms by (cases "seen t d") auto
  then have d: "plain_path d" by (rule seen_plain)
  let ?xs = "sort_key (\<lambda>(r, _). split_char slash r)
    (filter (\<lambda>(r, _). plain_path r \<and> below d r) (AList.clearjunk t))"
  have w: "tree_Walk d t = (d, Inl (node_info d n)) # map (\<lambda>(r, m). (r, Inl (node_info r m))) ?xs"
    using d n by (simp add: tree_Walk_def seen_get)
  have mem: "(r, m) \<in> set ?xs \<longleftrightarrow> plain_path r \<and> beneath d r \<and> map_of t r = Some m" for r m
    using plain_not_root [OF d]
    by (auto simp: below_beneath map_of_clearjunk distinct_clearjunk
        simp flip: map_of_eq_Some_iff [OF distinct_clearjunk])
  have dist: "distinct (map fst ?xs)"
  proof -
    have "distinct (map fst (filter (\<lambda>(r, _). plain_path r \<and> below d r) (AList.clearjunk t)))"
      by (rule distinct_map_filter [OF distinct_clearjunk])
    then show ?thesis by (simp add: distinct_map) 
  qed
  have fst: "map fst (map (\<lambda>(r, m). (r, Inl (node_info r m))) ?xs) = map fst ?xs"
    by (simp add: case_prod_beta)
  have "\<not> beneath d d" by (auto simp: beneath_def)
  then have "d \<notin> fst ` set ?xs" using mem by force
  then have "distinct (map fst (tree_Walk d t))"
    unfolding w by (simp add: fst dist del: map_map)
  moreover have "fst ` set ?xs = {p. beneath d p \<and> seen t p \<noteq> None}"
    using mem by (force simp: seen_def image_iff)
  then have "fst ` set (tree_Walk d t) = insert d {p. beneath d p \<and> seen t p \<noteq> None}"
    unfolding w by (simp add: image_image case_prod_beta)
  moreover have "\<forall>(p, r) \<in> set (tree_Walk d t). \<exists>i n. r = Inl i \<and> seen t p = Some n \<and> describes i n"
    unfolding w using mem n by (auto simp: seen_def describes_node)
  ultimately show ?thesis by blast
qed

locale tree_part =
  fixes get :: "'w \<Rightarrow> fs_tree" and put :: "fs_tree \<Rightarrow> 'w \<Rightarrow> 'w" and clock :: "'w \<Rightarrow> int" and rest :: "'w \<Rightarrow> 'r"
  assumes get_put [simp]: "get (put t w) = t" and rest_put [simp]: "rest (put t w) = rest w"
begin

sublocale afero_laws "mem_fs get put clock" "\<lambda>w. seen (get w)" rest
proof
  fix w w' w1 w2 w3 :: 'w and p d h :: string and n c t r bts opened
  show "\<exists>i. fs_Stat (mem_fs get put clock) p w = Inl i \<and> describes i n" if "seen (get w) p = Some n"
    using that seen_plain [OF that] by (simp add: mem_fs_def tree_Stat_def seen_get describes_node)
  {
    assume a: "seen (get w) p = Some (File c t)"
    note p = seen_plain [OF a]
    show "\<exists>f i. fs_Open (mem_fs get put clock) p w = Inl f \<and> fl_Stat f = Inl i \<and>
        describes i (File c t) \<and> fl_Reader f = bytes_reader c \<and>
        (\<forall>off. 0 \<le> off \<longrightarrow> fl_Seek f off = Inl (bytes_reader (drop (nat off) c)))"
      using a p by (simp add: mem_fs_def tree_Open_def seen_get)
    show "fs_ReadFile (mem_fs get put clock) p w = Inl c"
      using a p by (simp add: mem_fs_def tree_read_def seen_get)
  }
  show "(\<exists>e. fs_Open (mem_fs get put clock) p w = Inr e) \<or>
      (\<exists>f i. fs_Open (mem_fs get put clock) p w = Inl f \<and> fl_Stat f = Inl i \<and> fi_IsDir i)"
    if "is_dir (seen (get w) p)"
    using that seen_plain [of "get w" p]
    by (cases "seen (get w) p" rule: is_dir.cases) (auto simp: mem_fs_def tree_Open_def seen_get)
  show "fs_Exists (mem_fs get put clock) p w = Inl True" if "seen (get w) p \<noteq> None"
    using that seen_plain [of "get w" p] by (auto simp: mem_fs_def seen_get)
  {
    assume "plain_path p" "seen (get w) p = None"
    then show "\<exists>msg. fs_Stat (mem_fs get put clock) p w = Inr (NotExist msg)"
      "fs_Exists (mem_fs get put clock) p w = Inl False"
      "\<exists>e. fs_Open (mem_fs get put clock) p w = Inr e \<and> (reachable_path (seen (get w)) p \<longrightarrow> IsNotExist e)"
      "\<exists>msg. fs_ReadFile (mem_fs get put clock) p w = Inr (NotExist msg)"
      "\<exists>msg. fs_ReadDir (mem_fs get put clock) p w = Inr (NotExist msg)"
      by (simp_all add: mem_fs_def tree_Stat_def tree_Open_def tree_read_def tree_ReadDir_def seen_get
          no_such_file_def)
  }
  show "distinct (map fst (fs_Walk (mem_fs get put clock) d w)) \<and>
      fst ` set (fs_Walk (mem_fs get put clock) d w) = insert d {p. beneath d p \<and> seen (get w) p \<noteq> None} \<and>
      (\<forall>(p, r) \<in> set (fs_Walk (mem_fs get put clock) d w).
         \<exists>i n. r = Inl i \<and> seen (get w) p = Some n \<and> describes i n)" if "is_dir (seen (get w) d)"
    using tree_Walk_effect [OF that] by (simp add: mem_fs_def)
  {
    assume p: "plain_path p"
    show "rest w' = rest w \<and>
        (case opened of Inl _ \<Rightarrow> \<exists>t. seen (get w') = (seen (get w))(p \<mapsto> File [] t)
         | Inr _ \<Rightarrow> seen (get w') = seen (get w))"
      if "fs_Create (mem_fs get put clock) p w = (opened, w')"
      using that p by (auto simp: mem_fs_def on_tree_def tree_write_effect seen_update split: if_splits)
    show "rest w2 = rest w1 \<and>
        (\<exists>c t. seen (get w2) = (seen (get w))(p \<mapsto> File c t) \<and> (r = Inl () \<longrightarrow> c = bts))"
      if "fs_Create (mem_fs get put clock) p w = (Inl h, w1)"
        "fs_Write (mem_fs get put clock) h bts w1 = (r, w2)"
      using that p
      by (auto simp: mem_fs_def on_tree_def tree_write_effect tree_append_def seen_update update_conv
          split: if_splits) (rule exI, rule refl)
    show "rest w3 = rest w2 \<and> (\<exists>t'. seen (get w3) = (seen (get w2))(p \<mapsto> File c t'))"
      if "seen (get w2) p = Some (File c t)" "fs_Close (mem_fs get put clock) h w2 = (r, w3)"
      using that by (auto simp: mem_fs_def intro!: exI [of _ t])
    show "rest w' = rest w \<and> (\<forall>q. q \<noteq> p \<longrightarrow> seen (get w') q = seen (get w) q) \<and>
        (r = Inl () \<longrightarrow> (\<exists>t. seen (get w') p = Some (File bts t)))"
      if "fs_WriteFile (mem_fs get put clock) p bts w = (r, w')"
      using that p by (auto simp: mem_fs_def on_tree_def tree_write_effect seen_update split: if_splits)
    show "rest w' = rest w \<and>
        seen (get w') = (if r = Inl () then (seen (get w))(p := None) else seen (get w))"
      if "fs_Remove (mem_fs get put clock) p w = (r, w')"
      using that p
      by (auto simp: mem_fs_def on_tree_def tree_Remove_def seen_delete Let_def split: if_splits option.splits)
  }
  show "rest w' = rest w \<and> (\<forall>q. seen (get w') q = seen (get w) q \<or>
      seen (get w) q = None \<and> is_dir (seen (get w') q))"
    if "plain_path d" "fs_MkdirAll (mem_fs get put clock) d w = (r, w')"
    using that make_dirs_effect by (fastforce simp: mem_fs_def on_tree_def split: prod.splits if_splits)
  show "fst (fs_Remove (mem_fs get put clock) p w) \<noteq> Inr (NotExist msg)" if "seen (get w) p \<noteq> None" for msg
    using that seen_plain [of "get w" p]
    by (auto simp: mem_fs_def on_tree_def tree_Remove_def seen_get Let_def)
qed

end

section \<open>A world with three file systems\<close>

record mem_world =
  mw_base :: fs_tree
  mw_bucket :: fs_tree
  mw_meta :: fs_tree
  mw_clock :: int

definition base_fs :: "(mem_world, string) afero" where
  "base_fs = mem_fs mw_base (\<lambda>t. mw_base_update (\<lambda>_. t)) mw_clock"

definition bucket_fs :: "(mem_world, string) afero" where
  "bucket_fs = mem_fs mw_bucket (\<lambda>t. mw_bucket_update (\<lambda>_. t)) mw_clock"

definition meta_fs :: "(mem_world, string) afero" where
  "meta_fs = mem_fs mw_meta (\<lambda>t. mw_meta_update (\<lambda>_. t)) mw_clock"

text \<open>The temporary file of the base can be written.\<close>

definition base_ready :: "mem_world \<Rightarrow> bool" where
  "base_ready w \<longleftrightarrow> \<not> is_dir (map_of (mw_base w) ''.modtime-resolution'')"

interpretation bucket_part:
  tree_part mw_bucket "\<lambda>t. mw_bucket_update (\<lambda>_. t)" mw_clock "\<lambda>w. (seen (mw_meta w), base_ready w)"
  by unfold_locales (simp_all add: base_ready_def)

interpretation meta_part:
  tree_part mw_meta "\<lambda>t. mw_meta_update (\<lambda>_. t)" mw_clock "\<lambda>w. (seen (mw_bucket w), base_ready w)"
  by unfold_locales (simp_all add: base_ready_def)

end
