(* ===== verification/AferoServer.thy ===== *)
theory AferoServer
  imports AferoFacts AferoSingle MemFs
begin

text \<open>
  The server over the back end of \<open>multi.go\<close>, which provides the interfaces of \<open>StoreServer\<close> but one: reading
  an object may write its metadata document. An instance on file systems in memory, with an encoding
  of metadata that meets the law of JSON, runs it on concrete inputs.
\<close>

definition multi_server ::
    "int \<Rightarrow> ('w, 'h) afero_env \<Rightarrow> ('um, 'ui) uploader_env \<Rightarrow> ('um uploader \<times> 'w s3afero) gofakes3" where
  "multi_server wall env uenv = store_server (multi_backend wall env) None uenv []"

lemma multi_backend_simps [simp]:
  "be_ListBuckets (multi_backend wall env) = multi_ListBuckets env"
  "be_ListBucket (multi_backend wall env) = multi_ListBucket env"
  "be_CreateBucket (multi_backend wall env) = multi_CreateBucket env"
  "be_BucketExists (multi_backend wall env) = multi_BucketExists env"
  "be_DeleteBucket (multi_backend wall env) = multi_DeleteBucket env"
  "be_ForceDeleteBucket (multi_backend wall env) = multi_ForceDeleteBucket env"
  "be_GetObject (multi_backend wall env) = multi_GetObject env"
  "be_HeadObject (multi_backend wall env) = multi_HeadObject env"
  "be_DeleteObject (multi_backend wall env) = multi_DeleteObject env"
  "be_PutObject (multi_backend wall env) = multi_PutObject env"
  "be_DeleteMulti (multi_backend wall env) = multi_DeleteMulti env"
  by (simp_all add: multi_backend_def)

definition multi_has_bucket :: "('w \<Rightarrow> string \<Rightarrow> fnode option) \<Rightarrow> 'w s3afero \<Rightarrow> string \<Rightarrow> bool" where
  "multi_has_bucket btree db b \<longleftrightarrow> btree (sa_world db) b \<noteq> None"

text \<open>The back end takes an object if no call of the file systems fails.\<close>

definition multi_accepts ::
    "('w, 'h) afero_env \<Rightarrow> ('w \<Rightarrow> bool) \<Rightarrow> 'w s3afero \<Rightarrow> string \<Rightarrow> string \<Rightarrow> bytes \<Rightarrow> gomap \<Rightarrow> bool" where
  "multi_accepts env ready db b k body m \<longleftrightarrow>
     plain_path k \<and> afero_ready ready db \<and> ascii_map (kept_metadata env db b k ++ map_of m) \<and>
     is_ok (fst (multi_PutObject env b k (Some m) (bytes_reader body) (int (length body)) db))"

context multi_laws
begin

sublocale server: storing_backend "multi_backend wall env" None "multi_has_bucket btree" bucket_name
    "ae_md5 env" "multi_accepts env ready"  for wall
proof
  fix db :: "'w s3afero" and b k :: string and body :: bytes and m :: gomap
  assume b: "bucket_name b"
  show "be_BucketExists (multi_backend wall env) b db = (Ok (multi_has_bucket btree db b), db)"
    using b by (simp add: multi_BucketExists_def ask_def bucket_exists fs_res_def multi_has_bucket_def)
  assume a: "multi_accepts env ready db b k body m"
  then obtain x db' where put:
    "multi_PutObject env b k (Some m) (bytes_reader body) (int (length body)) db = (Ok x, db')"
    by (cases "multi_PutObject env b k (Some m) (bytes_reader body) (int (length body)) db")
      (auto simp: multi_accepts_def is_ok_def split: res.splits)
  have p: "path_Join [b, k] = bpath b k" "plain_path (bpath b k)"
    using a b by (simp_all add: object_path object_path_plain multi_accepts_def)
  have "x = emptyPutResult" using PutObject_effect [OF b p _ put] a by (simp add: multi_accepts_def)
  moreover obtain obj db'' where "multi_GetObject env b k None db' = (Ok obj, db'')"
      "object_of_file k body (old_metadata db b k ++ map_of m) obj" "btree (sa_world db') b \<noteq> None"
    using stored_then_got [OF b _ _ _ put] a by (auto simp: multi_accepts_def bytes_reader_def)
  ultimately show "\<exists>vid obj db'.
      be_PutObject (multi_backend wall env) b k (Some m) (bytes_reader body) (int (length body)) db =
        (Ok \<lparr>pr_VersionID = vid\<rparr>, db') \<and>
      fst (be_GetObject (multi_backend wall env) b k None db') = Ok obj \<and> ob_Contents obj = body \<and>
      ob_Size obj = int (length body) \<and> ob_Hash obj = ae_md5 env body \<and> \<not> ob_IsDeleteMarker obj \<and>
      ob_Range obj = None \<and> multi_has_bucket btree db' b"
    using put by (fastforce simp: file_object_def emptyPutResult_def multi_has_bucket_def)
qed

lemmas http_put_get = server.server_put_get [folded multi_server_def]

end

section \<open>An instance\<close>

text \<open>The fields of the metadata, in hexadecimal where they may hold a comma.\<close>

fun encode_entries :: "gomap \<Rightarrow> string list" where
  "encode_entries [] = []"
| "encode_entries ((k, v) # es) = hex_encode k # hex_encode v # encode_entries es"

fun decode_entries :: "string list \<Rightarrow> gomap option" where
  "decode_entries [] = Some []"
| "decode_entries [_] = None"
| "decode_entries (k # v # xs) =
     (case (hex_decode k, hex_decode v, decode_entries xs) of
        (Some k', Some v', Some es) \<Rightarrow> Some ((k', v') # es)
      | _ \<Rightarrow> None)"

definition demo_marshal :: "Metadata \<Rightarrow> bytes + string" where
  "demo_marshal m =
     (if is_i64 (mt_ModTime m) \<and> is_i64 (mt_Size m) then
        Inl (join (hex_encode (mt_File m) # int_str (mt_ModTime m) # int_str (mt_Size m) #
                   hex_encode (mt_Hash m) #
                   encode_entries (case mt_Meta m of Some es \<Rightarrow> es | None \<Rightarrow> [])) '','')
      else Inr ''year outside of range'')"

definition demo_unmarshal :: "bytes \<Rightarrow> Metadata + string" where
  "demo_unmarshal bts =
     (case split_char (CHR '','') bts of
        f # t # s # h # es \<Rightarrow>
          (case (hex_decode f, parse_int t, parse_int s, hex_decode h, decode_entries es) of
             (Some f', Some t', Some s', Some h', Some m) \<Rightarrow>
               Inl \<lparr>mt_File = f', mt_ModTime = t', mt_Size = s', mt_Hash = h', mt_Meta = Some m\<rparr>
           | _ \<Rightarrow> Inr ''unexpected end of input'')
      | _ \<Rightarrow> Inr ''unexpected end of input'')"

lemma decode_encode [simp]: "decode_entries (encode_entries es) = Some es"
  by (induction es rule: encode_entries.induct) simp_all

lemma comma_free:
  "CHR '','' \<notin> set (hex_encode bs)" "CHR '','' \<notin> set (int_str i)"
  "x \<in> set (encode_entries es) \<Longrightarrow> CHR '','' \<notin> set x"
proof -
  show hex: "CHR '','' \<notin> set (hex_encode bs)" for bs
    using hex_encode_digits [of "CHR '',''" bs] by (auto simp: hex_val_def)
  have "CHR '','' \<notin> set (nat_str n)" for n
    using nat_str_digits [of n] by (auto simp: list_all_iff is_digit_def less_eq_char_def)
  then show "CHR '','' \<notin> set (int_str i)" by (simp add: int_str_def)
  show "x \<in> set (encode_entries es) \<Longrightarrow> CHR '','' \<notin> set x"
    using hex by (induction es rule: encode_entries.induct) auto
qed

lemma demo_roundtrip:
  assumes "demo_marshal m = Inl bts"
  shows "bts \<noteq> []" "\<exists>m'. demo_unmarshal bts = Inl m' \<and> same_meta m m'"
proof -
  let ?es = "case mt_Meta m of Some es \<Rightarrow> es | None \<Rightarrow> []"
  let ?xs = "hex_encode (mt_File m) # int_str (mt_ModTime m) # int_str (mt_Size m) #
    hex_encode (mt_Hash m) # encode_entries ?es"
  have i: "is_i64 (mt_ModTime m)" "is_i64 (mt_Size m)" and b: "bts = join ?xs '',''"
    using assms by (auto simp: demo_marshal_def split: if_splits)
  have s: "split_char (CHR '','') bts = ?xs"
    unfolding b by (rule split_char_join) (auto simp: comma_free)
  then show "bts \<noteq> []" by auto
  show "\<exists>m'. demo_unmarshal bts = Inl m' \<and> same_meta m m'"
    using s i by (auto simp: demo_unmarshal_def parse_int_int_str same_meta_def meta_map_def)
qed

definition demo_afero_env :: "(mem_world, string) afero_env" where
  "demo_afero_env =
     \<lparr>ae_base = base_fs, ae_bucket = bucket_fs, ae_meta = meta_fs, ae_Marshal = demo_marshal,
      ae_Unmarshal = demo_unmarshal, ae_md5 = (\<lambda>bs. CHR 0x6D # bs)\<rparr>"

abbreviation bucket_tree :: "mem_world \<Rightarrow> string \<Rightarrow> fnode option" where
  "bucket_tree \<equiv> \<lambda>w. seen (mw_bucket w)"

abbreviation meta_tree :: "mem_world \<Rightarrow> string \<Rightarrow> fnode option" where
  "meta_tree \<equiv> \<lambda>w. seen (mw_meta w)"

definition base_measuring :: "mem_world \<Rightarrow> bool" where
  "base_measuring w \<longleftrightarrow> (\<exists>c t. map_of (mw_base w) resolution_file = Some (File c t))"

lemma resolution_path:
  "path_Clean resolution_file = resolution_file" "path_Dir resolution_file = ''.''"
  "tree_get t ''.'' = Some (Dir 0)" "tree_get t resolution_file = map_of t resolution_file"
  by (simp_all add: go_eval)

interpretation base_timed: timed_fs base_fs 1 "\<lambda>w. (bucket_tree w, meta_tree w)" base_ready base_measuring
proof
  fix w w1 :: mem_world and h t
  show "1 \<in> set resolutions" by (simp add: resolutions_def)
  note d = base_fs_def mem_fs_def on_tree_def resolution_path base_ready_def base_measuring_def
  show "\<exists>h w'. fs_OpenTruncate base_fs resolution_file w = (Inl h, w') \<and>
      (bucket_tree w', meta_tree w') = (bucket_tree w, meta_tree w)" if "base_ready w"
    using that by (simp add: d tree_write_def Let_def)
  show "\<exists>w2. fs_Close base_fs h w1 = (Inl (), w2) \<and> base_measuring w2 \<and>
      (bucket_tree w2, meta_tree w2) = (bucket_tree w1, meta_tree w1)"
    if "fs_OpenTruncate base_fs resolution_file w = (Inl h, w1)"
    using that by (auto simp: d tree_write_def Let_def update_conv split: if_splits)
  show "\<exists>w' i. fs_Chtimes base_fs resolution_file t w = (Inl (), w') \<and> base_measuring w' \<and>
      (bucket_tree w', meta_tree w') = (bucket_tree w, meta_tree w) \<and>
      fs_Stat base_fs resolution_file w' = Inl i \<and> fi_ModTime i = t div 1 * 1" if "base_measuring w"
    using that by (auto simp: d tree_Chtimes_def tree_Stat_def update_conv)
  show "(bucket_tree (snd (fs_Remove base_fs resolution_file w)), meta_tree (snd (fs_Remove base_fs resolution_file w))) =
      (bucket_tree w, meta_tree w)"
    by (simp add: d tree_Remove_def split: prod.splits)
qed

interpretation demo: multi_laws demo_afero_env bucket_tree meta_tree base_ready base_measuring 1
proof (rule multi_laws.intro)
  show "afero_laws (ae_bucket demo_afero_env) bucket_tree (\<lambda>w. (meta_tree w, base_ready w))"
    using bucket_part.afero_laws_axioms by (simp add: demo_afero_env_def bucket_fs_def)
  show "afero_laws (ae_meta demo_afero_env) meta_tree (\<lambda>w. (bucket_tree w, base_ready w))"
    using meta_part.afero_laws_axioms by (simp add: demo_afero_env_def meta_fs_def)
  show "timed_fs (ae_base demo_afero_env) 1 (\<lambda>w. (bucket_tree w, meta_tree w)) base_ready base_measuring"
    using base_timed.timed_fs_axioms by (simp add: demo_afero_env_def)
  show "multi_laws_axioms demo_afero_env"
    using demo_roundtrip by unfold_locales (simp_all add: demo_afero_env_def)
qed

end
