(* ===== verification/AferoSingleFacts.thy ===== *)
theory AferoSingleFacts
  imports AferoSingle AferoFacts
begin

text \<open>
  Facts about \<open>single.go\<close>. The laws are those of a back end with several buckets, where the files of the
  objects are at their keys. If the file system that measures the resolution is that of the objects,
  as the constructor has it, then \<open>ready\<close> is false in every state and the resolution must have been
  measured before.
\<close>

text \<open>The metadata that \<open>PutObject\<close> keeps of the object it replaces.\<close>

definition single_kept ::
    "string \<Rightarrow> ('w, 'h) afero_env \<Rightarrow> 'w s3afero \<Rightarrow> string \<Rightarrow> string \<Rightarrow> string option" where
  "single_kept name env db k =
     (case fst (single_GetObject name env name k None db) of
        Ok obj \<Rightarrow> meta_map (ob_Metadata obj)
      | _ \<Rightarrow> Map.empty)"

context multi_laws
begin

text \<open>What is known of a file: that its document describes it, or that it has none.\<close>

lemma ensureMeta_fresh:
  assumes "db_ready db" "documented (sa_world db) b k c t md"
  shows "\<exists>m db'. ensureMeta env b k (int (length c)) t db = (Ok m, db') \<and> mt_Hash m = ae_md5 env c \<and>
    meta_map (mt_Meta m) = md \<and> db_ready db' \<and>
    btree (sa_world db') = btree (sa_world db) \<and> mtree (sa_world db') = mtree (sa_world db)"
proof -
  from loadMeta_fresh [OF assms] obtain m db' where
    "loadMeta env b k (int (length c)) t db = (Inl m, db')" "mt_Hash m = ae_md5 env c"
    "meta_map (mt_Meta m) = md" "db_ready db'"
    "btree (sa_world db') = btree (sa_world db)" "mtree (sa_world db') = mtree (sa_world db)" by blast
  then show ?thesis by (simp add: ensureMeta_def)
qed

lemma loadMeta_undocumented:
  assumes "bucket_name b" "db_ready db" "mtree (sa_world db) (meta_path b k) = None"
    and "reachable_path (mtree (sa_world db)) (meta_path b k)"
  shows "\<exists>e db'. loadMeta env b k sz t db = (Inr e, db') \<and> IsNotExist e \<and> db_ready db' \<and>
    btree (sa_world db') = btree (sa_world db) \<and> mtree (sa_world db') = mtree (sa_world db)"
proof -
  note p = meta_path_plain(2) [OF assms(1), of k]
  obtain d db1 where d: "getModTimeRes env db = (Inl d, db1)" "db_ready db1"
      "btree (sa_world db1) = btree (sa_world db)" "mtree (sa_world db1) = mtree (sa_world db)"
    using getModTimeRes_ok [OF assms(2)] by blast
  obtain msg where "fs_ReadFile (ae_meta env) (meta_path b k) (sa_world db) = Inr (NotExist msg)"
    using meta.ReadFile_missing [OF p assms(3,4)] by blast
  moreover obtain e where "fs_Open (ae_meta env) (meta_path b k) (sa_world db1) = Inr e" "IsNotExist e"
    using meta.Open_missing [OF p, of "sa_world db1"] assms(3,4) d(4) by auto
  ultimately have "loadMeta env b k sz t db = (Inr e, db1) \<and> IsNotExist e"
    using d(1)
    by (simp add: loadMeta_def Let_def f_bind_def f_get_def on_fs_def read_document_def stale_def zeroMetadata_def
        hashFile_def)
  then show ?thesis using d by blast
qed

lemma ensureMeta_undocumented:
  assumes "bucket_name b" "db_ready db" "mtree (sa_world db) (meta_path b k) = None"
    and "reachable_path (mtree (sa_world db)) (meta_path b k)" "btree (sa_world db) k = Some (File c t)"
  shows "\<exists>m db'. ensureMeta env b k (int (length c)) t db = (Ok m, db') \<and> mt_Hash m = ae_md5 env c \<and>
    meta_map (mt_Meta m) = Map.empty \<and> db_ready db' \<and>
    btree (sa_world db') = btree (sa_world db) \<and> mtree (sa_world db') = mtree (sa_world db)"
proof -
  obtain e db' where l: "loadMeta env b k (int (length c)) t db = (Inr e, db')" "IsNotExist e" "db_ready db'"
      "btree (sa_world db') = btree (sa_world db)" "mtree (sa_world db') = mtree (sa_world db)"
    using loadMeta_undocumented [OF assms(1-4)] by blast
  obtain f where "fs_Open (ae_bucket env) k (sa_world db') = Inl f" "fl_Reader f = bytes_reader c"
    using bucket.Open [of "sa_world db'" k c t] assms(5) l(4) by auto
  then show ?thesis
    using l by (simp add: ensureMeta_def ask_def fs_res_def bytes_reader_def meta_map_def)
qed

lemma ensureMeta_effect:
  assumes "bucket_name b" "db_ready db" "ensureMeta env b k sz t db = (r, db')"
  shows "reads_object b k db db'"
  using assms(3) loadMeta_effect [OF assms(1,2)]
  by (auto simp: ensureMeta_def ask_def split: sum.splits prod.splits if_splits)

lemma single_GetObject_effect:
  assumes "bucket_name b" "db_ready db" "single_GetObject name env b k rr db = (r, db')"
  shows "reads_object b k db db'"
proof -
  have "reads_object b k db db1" if "ensureMeta env b k sz t db = (q, db1)" for sz t q db1
    by (rule ensureMeta_effect [OF assms(1,2) that])
  then show ?thesis
    using assms(2,3)
    by (auto simp: single_GetObject_def require_name_def act_bind_def ask_def act_ok_def act_err_def
        split: res.splits prod.splits if_splits)
qed

lemma single_GetObject_file:
  assumes "btree (sa_world db) k = Some (File c t)"
    and "ensureMeta env name k (int (length c)) t db = (Ok m, db')" "mt_Hash m = ae_md5 env c"
  shows "\<exists>obj. single_GetObject name env name k None db = (Ok obj, db') \<and>
    object_of_file k c (meta_map (mt_Meta m)) obj"
proof -
  obtain f i where f: "fs_Open (ae_bucket env) k (sa_world db) = Inl f" "fl_Stat f = Inl i"
      "\<not> fi_IsDir i" "fi_Size i = int (length c)" "fi_ModTime i = t" "fl_Reader f = bytes_reader c"
    using bucket.Open [OF assms(1)] by auto
  have "open_object (ae_bucket env) k k None (sa_world db) = Ok (i, None, bytes_reader c)"
    using f by (simp add: open_object_def unless_missing_def fs_res_def ranged_reader_def)
  then have "single_GetObject name env name k None db = (Ok (afero_object k m (int (length c)) None c), db')"
    using f assms(2)
    by (simp add: single_GetObject_def require_name_def act_bind_def ask_def act_ok_def bytes_reader_def)
  then show ?thesis using assms(3) by (simp add: file_object_def afero_object_def)
qed

lemma single_PutObject_effect:
  assumes "bucket_name name" "plain_path k" "db_ready db"
    and "single_PutObject name env name k (Some m) inp sz db = (Ok x, db')"
  shows "x = emptyPutResult \<and> rd_err inp = None \<and> db_ready db' \<and>
    changes_at k (btree (sa_world db)) (btree (sa_world db')) \<and>
    changes_at (meta_path name k) (mtree (sa_world db)) (mtree (sa_world db')) \<and>
    (\<exists>t. btree (sa_world db') k = Some (File (rd_bytes inp) t) \<and>
       (ascii_map (single_kept name env db k ++ map_of m) \<longrightarrow>
        documented (sa_world db') name k (rd_bytes inp) t (single_kept name env db k ++ map_of m)))"
proof -
  obtain q db1 where g: "single_GetObject name env name k None db = (q, db1)" by fastforce
  obtain r db2 where m: "MergeMetadata (single_GetObject name env name k None) (Some m) db = (r, db2)" by fastforce
  note me = MergeMetadata_effect [OF g m]
  note rd = single_GetObject_effect [OF assms(1,3) g]
  obtain m' where m': "r = Ok (Some m')" "map_of m' = single_kept name env db k ++ map_of m"
    using assms(4) m me g by (auto simp: single_PutObject_def require_name_def act_bind_def act_ok_def single_kept_def
        split: res.splits)
  then have st: "store_file env name k k k (Some m') inp db1 = (Ok x, db')"
    using assms(4) m me by (simp add: single_PutObject_def require_name_def act_bind_def act_ok_def)
  have "db_ready db1" using rd by (simp add: reads_object_def)
  note sf = store_file_effect [OF assms(1,2) this st]
  have "changes_at (meta_path name k) (mtree (sa_world db)) (mtree (sa_world db'))"
    using changes_at_trans rd sf unfolding reads_object_def by blast
  then show ?thesis using sf rd m' by (auto simp: reads_object_def meta_map_def)
qed

lemma single_put_then_get:
  assumes "bucket_name name" "plain_path k" "db_ready db" "ascii_map (single_kept name env db k ++ map_of m)"
    and "single_PutObject name env name k (Some m) inp sz db = (Ok x, db')"
  shows "\<exists>obj db''. single_GetObject name env name k None db' = (Ok obj, db'') \<and>
    object_of_file k (rd_bytes inp) (single_kept name env db k ++ map_of m) obj"
proof -
  note e = single_PutObject_effect [OF assms(1-3,5)]
  then obtain t where t: "btree (sa_world db') k = Some (File (rd_bytes inp) t)"
      "documented (sa_world db') name k (rd_bytes inp) t (single_kept name env db k ++ map_of m)"
    using assms(4) by blast
  from e have "db_ready db'" by blast
  from ensureMeta_fresh [OF this t(2)] single_GetObject_file [OF t(1)] show ?thesis by metis
qed

lemma single_serves:
  assumes "bucket_name name" "db_ready db" "btree (sa_world db) k = Some (File c t)"
    and "mtree (sa_world db) (meta_path name k) = None"
    and "reachable_path (mtree (sa_world db)) (meta_path name k)"
  shows "\<exists>obj db'. single_GetObject name env name k None db = (Ok obj, db') \<and> object_of_file k c Map.empty obj \<and>
    btree (sa_world db') = btree (sa_world db) \<and> mtree (sa_world db') = mtree (sa_world db)"
proof -
  obtain m db' where m: "ensureMeta env name k (int (length c)) t db = (Ok m, db')" "mt_Hash m = ae_md5 env c"
      "meta_map (mt_Meta m) = Map.empty"
      "btree (sa_world db') = btree (sa_world db)" "mtree (sa_world db') = mtree (sa_world db)"
    using ensureMeta_undocumented [OF assms(1,2,4,5,3)] by blast
  show ?thesis using single_GetObject_file [OF assms(3) m(1,2)] m by auto
qed

end

end
