(* ===== verification/AferoProperties.thy ===== *)
theory AferoProperties
  imports AferoServer AferoSingleFacts ServerProperties
begin

text \<open>
  The properties of \<open>s3afero\<close> with several buckets, over any file systems that meet \<open>multi_laws\<close>, and what it
  does wrong. The witnesses run it on file systems in memory.
\<close>

section \<open>Concrete states\<close>

text \<open>An empty bucket, and the same bucket after one object has been put.\<close>

definition demo_fs0 :: "mem_world s3afero" where
  "demo_fs0 =
     \<lparr>sa_world = \<lparr>mw_base = [], mw_bucket = [(''bkt'', Dir 1)], mw_meta = [], mw_clock = 5\<rparr>,
      sa_modTimeRes = -1, sa_now = 9\<rparr>"

definition demo_fs1 :: "mem_world s3afero" where
  "demo_fs1 =
     \<lparr>sa_world =
        \<lparr>mw_base = [], mw_bucket = [(''bkt'', Dir 1), (''bkt/k'', File ''hello'' 5)],
         mw_meta = [(''bkt'', Dir 5), (''bkt/k-d228cb69691a8caf78912b704e4a8202'',
           File ''626b742f6b,5,5,6d68656c6c6f,582d416d7a2d4d6574612d41,31'' 5)],
         mw_clock = 5\<rparr>,
      sa_modTimeRes = -1, sa_now = 9\<rparr>"

lemma demo_meta_object: "meta_object ''k'' = ''k-d228cb69691a8caf78912b704e4a8202''"
  by code_simp

lemma demo_paths:
  "meta_path ''bkt'' ''k'' = ''bkt/k-d228cb69691a8caf78912b704e4a8202''"
  "path_Dir ''bkt/k-d228cb69691a8caf78912b704e4a8202'' = ''bkt''"
  "path_Clean ''bkt/k-d228cb69691a8caf78912b704e4a8202'' = ''bkt/k-d228cb69691a8caf78912b704e4a8202''"
  "path_Join [''bkt'', ''k''] = ''bkt/k''" "path_Dir ''bkt/k'' = ''bkt''" "path_Clean ''bkt/k'' = ''bkt/k''"
  "path_Clean ''bkt'' = ''bkt''" "path_prefixes ''bkt'' = [''bkt'']"
  by (simp_all add: meta_path_def demo_meta_object path_defs Let_def path_prefixes_def)

lemma demo_document:
  "demo_marshal \<lparr>mt_File = ''bkt/k'', mt_ModTime = 5, mt_Size = 5, mt_Hash = ''mhello'',
       mt_Meta = Some [(''X-Amz-Meta-A'', ''1'')]\<rparr> =
     Inl ''626b742f6b,5,5,6d68656c6c6f,582d416d7a2d4d6574612d41,31''"
  by code_simp

lemmas demo_fs_eval =
  multi_defs act_defs afero_act_defs zeroMetadata_def on_fs_def fs_act_def ask_def of_json_def saveMeta_def
  copy_to_file_def on_world_act_def deleteMeta_def mem_fs_defs demo_paths demo_document demo_afero_env_def
  demo_fs0_def demo_fs1_def bucket_fs_def meta_fs_def Let_def MergeMetadata_def carry_over_def
  bytes_reader_def

lemma demo_ready: "afero_ready base_ready demo_fs0" "afero_ready base_ready demo_fs1"
  by (simp_all add: afero_ready_def base_ready_def demo_fs0_def demo_fs1_def)

lemma demo_names: "bucket_name ''bkt''" "plain_path ''k''" "ValidateBucketName ''bkt'' = None"
proof -
  show v: "ValidateBucketName ''bkt'' = None" by code_simp
  then show "bucket_name ''bkt''" by (rule valid_bucket_name)
  show "plain_path ''k''" by (simp add: plain_path_def split_char_fresh plain_elem_def)
qed

lemma demo_put_runs:
  "multi_PutObject demo_afero_env ''bkt'' ''k'' (Some [(''X-Amz-Meta-A'', ''1'')]) (bytes_reader ''hello'') 5 demo_fs0 =
     (Ok emptyPutResult, demo_fs1)"
  by (simp add: demo_fs_eval)

lemma demo_kept: "kept_metadata demo_afero_env demo_fs0 ''bkt'' ''k'' = Map.empty"
  by (simp add: kept_metadata_def demo_fs_eval)

lemma demo_ascii: "ascii_map [''X-Amz-Meta-A'' \<mapsto> ''1'']"
  by (auto simp: ascii_map_def ascii_def split: if_splits)

section \<open>What the back end promises\<close>

text \<open>
  C14: PUT then GET in \<open>s3afero\<close>. If the file systems carry out a PUT, the next GET of the key answers the
  bytes that were read from the body, their number and their MD5, and the new metadata over those
  that the object had; every file and directory at another path is what it was. The announced size
  plays no part. \<open>json\<close> is relied on for metadata in ASCII.
\<close>

theorem multi_put_then_get:
  assumes laws: "multi_laws env btree mtree ready measuring gran"
    and "bucket_name b" "plain_path k" "afero_ready ready db"
    and "ascii_map (kept_metadata env db b k ++ map_of m)"
    and "multi_PutObject env b k (Some m) inp sz db = (Ok x, db')"
  shows "(\<exists>obj db''. multi_GetObject env b k None db' = (Ok obj, db'') \<and>
      file_object env k (rd_bytes inp) (kept_metadata env db b k ++ map_of m) obj) \<and>
    (\<forall>p n. p \<noteq> b @ slash # k \<longrightarrow> btree (sa_world db) p = Some n \<longrightarrow> btree (sa_world db') p = Some n)"
proof -
  have p: "path_Join [b, k] = b @ slash # k" "plain_path (b @ slash # k)"
    using assms(2,3) by (simp_all add: object_path object_path_plain)
  show ?thesis
    using multi_laws.stored_then_got [OF assms] multi_laws.PutObject_effect [OF laws assms(2) p assms(4,6)]
    by (blast intro: changes_at_kept)
qed

lemma multi_put_then_get_witness:
  "\<exists>obj db''. multi_GetObject demo_afero_env ''bkt'' ''k'' None demo_fs1 = (Ok obj, db'') \<and>
     ob_Contents obj = ''hello'' \<and> meta_map (ob_Metadata obj) = [''X-Amz-Meta-A'' \<mapsto> ''1'']"
proof -
  have "ascii_map (kept_metadata demo_afero_env demo_fs0 ''bkt'' ''k'' ++ map_of [(''X-Amz-Meta-A'', ''1'')])"
    using demo_ascii by (simp add: demo_kept)
  from multi_put_then_get [OF demo.multi_laws_axioms demo_names(1,2) demo_ready(1) this demo_put_runs]
  show ?thesis by (auto simp: demo_kept file_object_def bytes_reader_def)
qed

text \<open>
  What \<open>DeleteObject\<close> does in \<open>s3afero\<close>. If the file systems carry it out, the key is gone: \<open>GetObject\<close> and
  \<open>HeadObject\<close> answer NoSuchKey. The file and its document are removed, everything else in both file systems
  is what it was, and deleting a key that is not there succeeds as well.
\<close>

theorem multi_delete_removes:
  assumes laws: "multi_laws env btree mtree ready measuring gran"
    and b: "bucket_name b" "plain_path k"
    and del: "multi_DeleteObject env b k db = (Ok x, db')"
    and reach: "reachable_path (btree (sa_world db)) (b @ slash # k)"
  shows "multi_GetObject env b k rr db' = (Err (KeyNotFound k), db') \<and>
    multi_HeadObject env b k db' = (Err (KeyNotFound k), db') \<and>
    btree (sa_world db') = (btree (sa_world db))(b @ slash # k := None) \<and>
    mtree (sa_world db') = (mtree (sa_world db))(meta_path b k := None)"
proof -
  note e = multi_laws.DeleteObject_effect [OF laws b del]
  have r: "reachable_path (btree (sa_world db')) (b @ slash # k)" using e reach by (auto simp: reachable_path_def)
  have "btree (sa_world db') b \<noteq> None" "btree (sa_world db') (b @ slash # k) = None" using e by auto
  then show ?thesis
    using e multi_laws.GetObject_missing [OF laws b _ _ r] multi_laws.HeadObject_missing [OF laws b _ _ r] by blast
qed

lemma multi_delete_removes_witness:
  "\<exists>db'. multi_DeleteObject demo_afero_env ''bkt'' ''k'' demo_fs1 = (Ok emptyDeleteResult, db') \<and>
     multi_GetObject demo_afero_env ''bkt'' ''k'' None db' = (Err (KeyNotFound ''k''), db')"
proof -
  obtain db' where d: "multi_DeleteObject demo_afero_env ''bkt'' ''k'' demo_fs1 = (Ok emptyDeleteResult, db')"
    by (simp add: demo_fs_eval)
  have "reachable_path (bucket_tree (sa_world demo_fs1)) (''bkt'' @ slash # ''k'')"
    by (rule reachable_flat) (simp_all add: demo_fs1_def seen_def demo_names(1) [unfolded bucket_name_def])
  from multi_delete_removes [OF demo.multi_laws_axioms demo_names(1,2) d this] d show ?thesis by blast
qed

text \<open>
  C26: listings without a delimiter over \<open>s3afero\<close> are complete. If a bucket has a valid name and a directory, every
  file in it has a document that describes it, and the resolution of the file times is known or measurable, then a request for a listing without a delimiter, whatever page it asks for, gets one unpaged
  listing: exactly the files whose paths match the prefix, each once, with its size, its modification time and
  the quoted MD5 of its contents, no common prefixes and no truncation. (\<open>ListBucket\<close> refuses a page; the server
  then asks without one.) Objects and documents stay as they are.
\<close>

theorem multi_list_complete:
  assumes "multi_laws env btree mtree ready measuring gran"
    and "ValidateBucketName b = None" "is_dir (btree (sa_world db) b)"
    and "afero_ready ready db" "bucket_documented env btree mtree b (sa_world db)"
    and "\<not> HasDelimiter prefix" "pfx_Delimiter prefix = ''''"
  shows "\<exists>ol db'. list_objects (multi_server wall env uenv) b prefix page (u, db) = (Ok ol, (u, db')) \<and>
    btree (sa_world db') = btree (sa_world db) \<and> mtree (sa_world db') = mtree (sa_world db) \<and>
    ol_CommonPrefixes ol = [] \<and> \<not> ol_IsTruncated ol \<and> distinct (map ct_Key (ol_Contents ol)) \<and>
    set (ol_Contents ol) = {file_content env k c t | k c t.
      btree (sa_world db) (b @ slash # k) = Some (File c t) \<and> prefix_Match prefix k \<noteq> None}"
proof -
  have f: "FilePrefix prefix = ('''', '''', False)" and e: "page_IsEmpty emptyBucketPage"
    using assms(6,7) by (simp_all add: FilePrefix_def page_IsEmpty_def emptyBucketPage_def)
  have "page = emptyBucketPage" if "page_IsEmpty page" using that by (simp add: page_IsEmpty_def)
  then have l: "list_objects (multi_server wall env uenv) b prefix page (u, db) = (Ok ol, (u, db'))"
    if "multi_ListBucket env b (Some prefix) emptyBucketPage db = (Ok ol, db')" for ol db'
    using that assms(2)
    by (cases "page_IsEmpty page")
      (simp_all add: list_objects_def multi_server_def store_server_def New_def lift_backend_def on_storage_eq multi_ListBucket_def act_err_def)
  show ?thesis using multi_laws.list_all_files [OF assms(1-5) e f] l by blast
qed

definition demo_ops :: "afero_op list" where
  "demo_ops = [StoreOp ''k'' [(''X-Amz-Meta-A'', ''1'')] (bytes_reader ''hello'') 5]"

lemma demo_trace: "afero_trace demo_afero_env ''bkt'' demo_ops demo_fs0 = Some demo_fs1"
  by (simp add: demo_ops_def demo_put_runs)

lemma demo_fresh0: "bucket_fresh demo_afero_env bucket_tree meta_tree {''k''} ''bkt'' (sa_world demo_fs0)"
  by (simp add: bucket_fresh_def demo_fs0_def seen_def)

lemma demo_keys: "\<forall>k \<in> {''k''}. plain_path k" "inj_on meta_object {''k''}" "list_all (op_in {''k''}) demo_ops"
  using demo_ascii by (simp_all add: demo_names demo_ops_def)

lemma demo_fresh1: "bucket_fresh demo_afero_env bucket_tree meta_tree {''k''} ''bkt'' (sa_world demo_fs1)"
  using demo.fresh_trace [OF demo_names(1) demo_keys(1,2) demo_fresh0 demo_ready(1) demo_keys(3) demo_trace] by simp

lemma multi_list_complete_witness:
  "\<exists>ol db'. list_objects (multi_server 0 demo_afero_env demo_uploader) ''bkt'' emptyPrefix
       \<lparr>pg_Marker = ''x'', pg_HasMarker = True, pg_MaxKeys = 1\<rparr>
       (newUploader 0 :: (string \<times> uploadRef list) list uploader, demo_fs1) = (Ok ol, (newUploader 0, db')) \<and>
     file_content demo_afero_env ''k'' ''hello'' 5 \<in> set (ol_Contents ol)"
proof -
  have p: "\<not> HasDelimiter emptyPrefix" "pfx_Delimiter emptyPrefix = ''''" by (simp_all add: emptyPrefix_def)
  have d: "is_dir (bucket_tree (sa_world demo_fs1) ''bkt'')"
    "bucket_tree (sa_world demo_fs1) (''bkt'' @ slash # ''k'') = Some (File ''hello'' 5)"
    using demo_names(1,2) plain_path_append [of "''bkt''" "''k''"]
    by (simp_all add: demo_fs1_def seen_def bucket_name_def)
  have m: "prefix_Match emptyPrefix ''k'' \<noteq> None" by (simp add: prefix_Match_def emptyPrefix_def)
  show ?thesis
    using multi_list_complete [OF demo.multi_laws_axioms demo_names(3) d(1) demo_ready(2)
        demo.fresh_documented [OF demo_fresh1] p] d(2) m by blast
qed

text \<open>
  C7: the ETags of \<open>s3afero\<close> are true for keys that are plain paths (no empty, \<open>.\<close> or \<open>..\<close> element, so that
  \<open>path.Join\<close> keeps them as they are). Let \<open>K\<close> be a set of such keys no two of which share the name of their
  document, and start from a bucket in which every file is the object of a key of \<open>K\<close> and has a document that
  describes it, for instance an empty one, with the resolution of the file times known or measurable. After any
  sequence of PUTs (with ASCII metadata), GETs (of ranges as well) and DELETEs of keys of \<open>K\<close> in this bucket in
  which the file systems
  carried out what was asked of them and every body could be read, a GET of a key of \<open>K\<close> that succeeds answers the
  size and the MD5 of the contents that it sends. Keys that are not plain paths, such as \<open>a//b\<close> beside
  \<open>a/b\<close>, may name one file with two documents and are outside of it.
\<close>

theorem multi_etags_true:
  assumes "multi_laws env btree mtree ready measuring gran"
    and "bucket_name b" "\<forall>k \<in> K. plain_path k" "inj_on meta_object K"
    and "bucket_fresh env btree mtree K b (sa_world db)" "afero_ready ready db"
    and "list_all (op_in K) ops" "afero_trace env b ops db = Some db'"
    and "k \<in> K" "multi_GetObject env b k None db' = (Ok obj, db'')"
  shows "bucket_fresh env btree mtree K b (sa_world db') \<and>
    ob_Hash obj = ae_md5 env (ob_Contents obj) \<and> ob_Size obj = int (length (ob_Contents obj))"
proof -
  have f: "bucket_fresh env btree mtree K b (sa_world db')" "afero_ready ready db'"
    using multi_laws.fresh_trace [OF assms(1-8)] by blast+
  from multi_laws.GetObject_documented [OF assms(1,2) _ f(2) multi_laws.fresh_documented [OF assms(1) f(1)] assms(10)]
  show ?thesis using assms(3,9) f(1) by (auto simp: file_object_def)
qed

lemma multi_etags_true_witness:
  "\<exists>obj db'. multi_GetObject demo_afero_env ''bkt'' ''k'' None demo_fs1 = (Ok obj, db') \<and>
     ob_Hash obj = CHR ''m'' # ob_Contents obj"
proof -
  obtain obj db' where g: "multi_GetObject demo_afero_env ''bkt'' ''k'' None demo_fs1 = (Ok obj, db')"
    using demo.stored_then_got [OF demo_names(1,2) demo_ready(1) _ demo_put_runs] demo_ascii by (auto simp: demo_kept)
  show ?thesis
    using multi_etags_true [OF demo.multi_laws_axioms demo_names(1) demo_keys(1,2) demo_fresh0 demo_ready(1)
        demo_keys(3) demo_trace _ g] g by (simp add: demo_afero_env_def)
qed

text \<open>
  PUT then GET over HTTP with \<open>s3afero\<close>. A PUT of an object that the file systems take answers 200 with the
  quoted MD5 of the body as ETag; a GET of the same path then answers 200 with exactly this body, its
  length in \<open>Content-Length\<close>, and the same ETag.
\<close>

theorem afero_http_put_then_get:
  assumes "multi_laws aenv btree mtree ready measuring gran" "bucket_name b"
    and "multi_has_bucket btree db b" "multi_accepts aenv ready db b k body meta"
    and "object_request ''PUT'' b k put" "plain_put env (multi_server wall aenv uenv) now put body meta"
    and "object_request ''GET'' b k get" "plain_get env get"
    and "length k \<le> KeySizeLimit" "se_md5 env = ae_md5 aenv"
    and "\<not> too_skewed env (multi_server wall aenv uenv) now put"
    and "\<not> too_skewed env (multi_server wall aenv uenv) now' get"
    and "Server env (multi_server wall aenv uenv) now put new_response
           \<lparr>sv_requestID = n, sv_world = (u, db)\<rparr> = ((r1, w1), sv1)"
    and "Server env (multi_server wall aenv uenv) now' get new_response sv1 = ((r2, w2), sv2)"
  shows "r1 = Ok () \<and> rw_status w1 = 200 \<and> rw_body w1 = [] \<and>
    header_get (rw_sent_header w1) ''ETag'' = quoted (hex_encode (se_md5 env body)) \<and>
    r2 = Ok () \<and> rw_status w2 = 200 \<and> rw_body w2 = (if body = [] then [] else [Raw body]) \<and>
    header_get (rw_sent_header w2) ''Content-Length'' = int_str (int (length body)) \<and>
    header_get (rw_sent_header w2) ''ETag'' = quoted (hex_encode (se_md5 env body))"
  by (rule multi_laws.http_put_get [OF assms])

definition demo_afero_senv :: server_env where
  "demo_afero_senv = demo_senv\<lparr>se_md5 := ae_md5 demo_afero_env\<rparr>"

definition demo_afero_put :: request where
  "demo_afero_put = demo_request ''PUT'' ''/bkt/k'' [(''Content-Length'', [''5''])] ''hello''"

definition demo_afero_get :: request where
  "demo_afero_get = demo_request ''GET'' ''/bkt/k'' [] []"

lemma demo_afero_requests:
  "object_request ''PUT'' ''bkt'' ''k'' demo_afero_put" "object_request ''GET'' ''bkt'' ''k'' demo_afero_get"
  "plain_get demo_afero_senv demo_afero_get"
  "plain_put demo_afero_senv (multi_server 0 demo_afero_env demo_uploader) 0 demo_afero_put ''hello''
     [(''Last-Modified'', ''Thu, 01 Jan 1970 00:00:00 GMT'')]"
  "\<not> too_skewed demo_afero_senv (multi_server 0 demo_afero_env demo_uploader) 0 demo_afero_put"
  "\<not> too_skewed demo_afero_senv (multi_server 0 demo_afero_env demo_uploader) 0 demo_afero_get"
  by (simp_all add: object_request_def demo_afero_put_def demo_afero_get_def demo_request_def plain_get_def
      header_get_def vals_get_def demo_afero_senv_def demo_senv_def plain_put_def parse_int_def has_prefix_def
      parse_digits_def is_digit_def digits_val_def digit_val_def metadataHeaders_def metadata_header_def
      formatHeaderTime_def metadataSize_def multi_server_def store_server_def New_def DefaultMetadataSizeLimit_def
      streaming_upload_def md5_header_def vals_has_def newHashingReader_expected_def too_skewed_def is_i64_def
      min_int64_def max_int64_def)

lemma demo_accepts:
  "multi_has_bucket bucket_tree demo_fs0 ''bkt''"
  "multi_accepts demo_afero_env base_ready demo_fs0 ''bkt'' ''k'' ''hello''
     [(''Last-Modified'', ''Thu, 01 Jan 1970 00:00:00 GMT'')]"
proof -
  show "multi_has_bucket bucket_tree demo_fs0 ''bkt''"
    using demo_names(1) by (simp add: multi_has_bucket_def seen_def demo_fs0_def bucket_name_def)
  have "ascii_map [''Last-Modified'' \<mapsto> ''Thu, 01 Jan 1970 00:00:00 GMT'']"
    by (auto simp: ascii_map_def ascii_def split: if_splits)
  moreover have "is_ok (fst (multi_PutObject demo_afero_env ''bkt'' ''k''
      (Some [(''Last-Modified'', ''Thu, 01 Jan 1970 00:00:00 GMT'')]) (bytes_reader ''hello'') 5 demo_fs0))"
    by (simp add: demo_fs_eval demo_marshal_def is_i64_def min_int64_def max_int64_def is_ok_def)
  ultimately show "multi_accepts demo_afero_env base_ready demo_fs0 ''bkt'' ''k'' ''hello''
      [(''Last-Modified'', ''Thu, 01 Jan 1970 00:00:00 GMT'')]"
    using demo_names(2) demo_ready(1) by (simp add: multi_accepts_def demo_kept)
qed

lemma afero_http_put_then_get_witness:
  "\<exists>w1 sv1 w2 sv2. Server demo_afero_senv (multi_server 0 demo_afero_env demo_uploader) 0 demo_afero_put new_response
       \<lparr>sv_requestID = 0, sv_world = (newUploader 0 :: (string \<times> uploadRef list) list uploader, demo_fs0)\<rparr> =
       ((Ok (), w1), sv1) \<and>
     Server demo_afero_senv (multi_server 0 demo_afero_env demo_uploader) 0 demo_afero_get new_response sv1 =
       ((Ok (), w2), sv2) \<and> rw_status w2 = 200 \<and> rw_body w2 = [Raw ''hello'']"
proof -
  let ?u = "newUploader 0 :: (string \<times> uploadRef list) list uploader"
  let ?g = "multi_server 0 demo_afero_env demo_uploader"
  obtain r1 w1 sv1 where 1: "Server demo_afero_senv ?g 0 demo_afero_put new_response
      \<lparr>sv_requestID = 0, sv_world = (?u, demo_fs0)\<rparr> = ((r1, w1), sv1)" by (metis prod.collapse)
  obtain r2 w2 sv2 where 2: "Server demo_afero_senv ?g 0 demo_afero_get new_response sv1 = ((r2, w2), sv2)"
    by (metis prod.collapse)
  have m: "se_md5 demo_afero_senv = ae_md5 demo_afero_env" by (simp add: demo_afero_senv_def)
  note l = afero_http_put_then_get [OF demo.multi_laws_axioms demo_names(1) demo_accepts demo_afero_requests(1,4,2,3)
      _ m demo_afero_requests(5,6) 1 2]
  then show ?thesis using 1 2 by (auto simp: KeySizeLimit_def)
qed

text \<open>
  The measurement of the resolution of modification times is right and always ends. On a file system
  that keeps modification times in multiples of one of the durations tried, rounding down, it answers
  this multiple, and leaves nothing behind but what it does to its temporary file.
\<close>

theorem resolution_measured:
  assumes "timed_fs fs gran frame ready measuring" "ready w"
  shows "\<exists>w'. modTimeResolution fs w = (Inl gran, w') \<and> frame w' = frame w"
  by (rule timed_fs.modTimeResolution_measures [OF assms])

lemma resolution_measured_witness:
  "\<exists>w'. modTimeResolution base_fs (sa_world demo_fs0) = (Inl 1, w') \<and> bucket_tree w' = bucket_tree (sa_world demo_fs0)"
proof -
  have "base_ready (sa_world demo_fs0)" by (simp add: base_ready_def demo_fs0_def)
  from resolution_measured [OF base_timed.timed_fs_axioms this] show ?thesis by auto
qed

section \<open>A single bucket\<close>

text \<open>
  PUT then GET in a \<open>SingleBucketBackend\<close>. If the file systems carry out a PUT, the next GET of the key
  answers the bytes of the body, their number and their MD5, and the new metadata over those that the
  object had, from a document or not; every file at another path is what it was. (With \<open>ready\<close> false everywhere
  the laws allow the file system of the objects to be the one that measures the resolution.)
\<close>

theorem single_put_get:
  assumes laws: "multi_laws env btree mtree ready measuring gran"
    and "bucket_name name" "plain_path k" "afero_ready ready db"
    and "ascii_map (single_kept name env db k ++ map_of m)"
    and "single_PutObject name env name k (Some m) inp sz db = (Ok x, db')"
  shows "(\<exists>obj db''. single_GetObject name env name k None db' = (Ok obj, db'') \<and>
      file_object env k (rd_bytes inp) (single_kept name env db k ++ map_of m) obj) \<and>
    (\<forall>p n. p \<noteq> k \<longrightarrow> btree (sa_world db) p = Some n \<longrightarrow> btree (sa_world db') p = Some n)"
  using multi_laws.single_put_then_get [OF assms] multi_laws.single_PutObject_effect [OF laws assms(2-4,6)]
  by (blast intro: changes_at_kept)

definition demo_fs4 :: "mem_world s3afero" where
  "demo_fs4 =
     \<lparr>sa_world = \<lparr>mw_base = [], mw_bucket = [(''k'', File ''old'' 1)], mw_meta = [], mw_clock = 5\<rparr>,
      sa_modTimeRes = 1, sa_now = 9\<rparr>"

lemma demo_single_ready: "afero_ready base_ready demo_fs4"
  by (simp add: afero_ready_def demo_fs4_def)

lemmas demo_single_eval =
  single_defs demo_fs_eval demo_fs4_def demo_marshal_def is_i64_def min_int64_def max_int64_def loadMeta_def
  read_document_def getModTimeRes_def stale_def hashFile_def

lemma demo_single_paths: "path_Clean ''k'' = ''k''" "path_Dir ''k'' = ''.''" "path_Clean ''.'' = ''.''"
  by (simp_all add: path_defs Let_def)

lemma single_put_get_witness:
  "\<exists>db' obj db''. single_PutObject ''bkt'' demo_afero_env ''bkt'' ''k'' (Some []) (bytes_reader ''new'') 3 demo_fs4 =
       (Ok emptyPutResult, db') \<and>
     single_GetObject ''bkt'' demo_afero_env ''bkt'' ''k'' None db' = (Ok obj, db'') \<and> ob_Contents obj = ''new''"
proof -
  obtain db' where p: "single_PutObject ''bkt'' demo_afero_env ''bkt'' ''k'' (Some []) (bytes_reader ''new'') 3 demo_fs4 =
      (Ok emptyPutResult, db')"
    by (simp add: demo_single_eval demo_single_paths)
  have k: "single_kept ''bkt'' demo_afero_env demo_fs4 ''k'' = Map.empty"
    by (simp add: single_kept_def demo_single_eval demo_single_paths meta_map_def)
  have "ascii_map (single_kept ''bkt'' demo_afero_env demo_fs4 ''k'' ++ map_of [])"
    by (simp add: k ascii_map_def)
  from single_put_get [OF demo.multi_laws_axioms demo_names(1,2) demo_single_ready this p] p
  show ?thesis by (auto simp: file_object_def bytes_reader_def)
qed

text \<open>
  A \<open>SingleBucketBackend\<close> serves the files of an existing file system. A file for which no document has
  been written is answered with its contents, its size and its own MD5, without metadata, and neither
  the files nor the documents change.
\<close>

theorem single_serves_files:
  assumes "multi_laws env btree mtree ready measuring gran"
    and "bucket_name name" "afero_ready ready db" "btree (sa_world db) k = Some (File c t)"
    and "mtree (sa_world db) (meta_path name k) = None"
    and "reachable_path (mtree (sa_world db)) (meta_path name k)"
  shows "\<exists>obj db'. single_GetObject name env name k None db = (Ok obj, db') \<and> file_object env k c Map.empty obj \<and>
    btree (sa_world db') = btree (sa_world db) \<and> mtree (sa_world db') = mtree (sa_world db)"
  by (rule multi_laws.single_serves [OF assms])

lemma single_serves_files_witness:
  "\<exists>obj db'. single_GetObject ''bkt'' demo_afero_env ''bkt'' ''k'' None demo_fs4 = (Ok obj, db') \<and>
     ob_Contents obj = ''old'' \<and> ob_Hash obj = CHR ''m'' # ''old''"
proof -
  have s: "bucket_tree (sa_world demo_fs4) ''k'' = Some (File ''old'' 1)" "meta_tree (sa_world demo_fs4) p = None"
    for p using demo_names(2) by (simp_all add: demo_fs4_def seen_def)
  then have "reachable_path (meta_tree (sa_world demo_fs4)) (meta_path ''bkt'' ''k'')"
    by (simp add: reachable_path_def)
  from single_serves_files [OF demo.multi_laws_axioms demo_names(1) demo_single_ready s this]
  show ?thesis by (auto simp: file_object_def demo_afero_env_def)
qed

section \<open>Behaviours worth knowing\<close>

text \<open>
  C38: a PUT in \<open>s3afero\<close>, of a key that is a plain path, is not atomic. If the body of the request ends in an error, whichever (a wrong Content-MD5,
  a connection that breaks off), where the file systems would have taken a PUT of the bytes read before it, then the
  PUT is refused with this error, and these bytes are in the file of the object all the same, in place of what
  the object had.
\<close>

theorem refused_put_stored:
  assumes "multi_laws env btree mtree ready measuring gran"
    and "bucket_name b" "plain_path k"
    and "is_ok (fst (multi_PutObject env b k m (bytes_reader (rd_bytes inp)) sz db))" "rd_err inp = Some e"
  shows "\<exists>db' t. multi_PutObject env b k m inp sz db = (Err e, db') \<and>
    btree (sa_world db') (b @ slash # k) = Some (File (rd_bytes inp) t)"
  by (rule multi_laws.put_not_atomic [OF assms])

lemma refused_put_stored_witness:
  "\<exists>db' t. multi_PutObject demo_afero_env ''bkt'' ''k'' (Some [(''X-Amz-Meta-A'', ''1'')])
       \<lparr>rd_bytes = ''hello'', rd_err = Some (ECode ErrBadDigest)\<rparr> 5 demo_fs0 = (Err (ECode ErrBadDigest), db') \<and>
     bucket_tree (sa_world db') (''bkt'' @ slash # ''k'') = Some (File ''hello'' t)"
proof -
  let ?inp = "\<lparr>rd_bytes = ''hello'', rd_err = Some (ECode ErrBadDigest)\<rparr>"
  have "is_ok (fst (multi_PutObject demo_afero_env ''bkt'' ''k'' (Some [(''X-Amz-Meta-A'', ''1'')])
      (bytes_reader (rd_bytes ?inp)) 5 demo_fs0))" by (simp add: demo_put_runs is_ok_def)
  from refused_put_stored [OF demo.multi_laws_axioms demo_names(1,2) this] show ?thesis by simp
qed

text \<open>
  C39: keys of \<open>s3afero\<close> are paths, and dots in them leave the bucket. A PUT of the key \<open>../c/k\<close> to the bucket
  \<open>b\<close> writes the object \<open>k\<close> of the bucket \<open>c\<close>, whose metadata stay what they were.
\<close>

theorem put_escapes_bucket:
  assumes "multi_laws env btree mtree ready measuring gran"
    and "bucket_name b" "bucket_name c" "b \<noteq> c" "plain_path k" "afero_ready ready db"
    and "multi_PutObject env b (''../'' @ c @ slash # k) (Some m) inp sz db = (Ok x, db')"
  shows "(\<exists>t. btree (sa_world db') (c @ slash # k) = Some (File (rd_bytes inp) t)) \<and>
    (\<forall>n. mtree (sa_world db) (meta_path c k) = Some n \<longrightarrow> mtree (sa_world db') (meta_path c k) = Some n)"
  by (rule multi_laws.put_elsewhere [OF assms])

definition demo_fs2 :: "mem_world s3afero" where
  "demo_fs2 =
     \<lparr>sa_world = (sa_world demo_fs1)\<lparr>mw_bucket :=
        [(''aaa'', Dir 1), (''bkt'', Dir 1), (''bkt/k'', File ''hello'' 5)]\<rparr>,
      sa_modTimeRes = 1, sa_now = 9\<rparr>"

lemma demo_escaped_meta: "meta_object ''../bkt/k'' = ''.._bkt_k-f3ce65aa8f6599d0450ef8bd34aad70d''"
  by code_simp

lemma demo_escaped_paths:
  "meta_path ''aaa'' ''../bkt/k'' = ''aaa/.._bkt_k-f3ce65aa8f6599d0450ef8bd34aad70d''"
  "path_Clean ''aaa/.._bkt_k-f3ce65aa8f6599d0450ef8bd34aad70d'' = ''aaa/.._bkt_k-f3ce65aa8f6599d0450ef8bd34aad70d''"
  "path_Dir ''aaa/.._bkt_k-f3ce65aa8f6599d0450ef8bd34aad70d'' = ''aaa''"
  "path_Join [''aaa'', ''../bkt/k''] = ''bkt/k''" "path_Clean ''aaa'' = ''aaa''" "path_prefixes ''aaa'' = [''aaa'']"
  by (simp_all add: meta_path_def demo_escaped_meta path_defs Let_def path_prefixes_def)

lemma demo_unmarshal_document:
  "demo_unmarshal ''626b742f6b,5,5,6d68656c6c6f,582d416d7a2d4d6574612d41,31'' =
     Inl \<lparr>mt_File = ''bkt/k'', mt_ModTime = 5, mt_Size = 5, mt_Hash = ''mhello'',
          mt_Meta = Some [(''X-Amz-Meta-A'', ''1'')]\<rparr>"
  by code_simp

lemma put_escapes_bucket_witness:
  "\<exists>db' t. multi_PutObject demo_afero_env ''aaa'' ''../bkt/k'' (Some []) (bytes_reader ''bye'') 3 demo_fs2 =
       (Ok emptyPutResult, db') \<and> bucket_tree (sa_world db') (''bkt'' @ slash # ''k'') = Some (File ''bye'' t)"
proof -
  obtain db' where p: "multi_PutObject demo_afero_env ''aaa'' (''../'' @ ''bkt'' @ slash # ''k'') (Some [])
      (bytes_reader ''bye'') 3 demo_fs2 = (Ok emptyPutResult, db')"
    by (simp add: demo_fs_eval demo_escaped_paths demo_fs2_def demo_marshal_def is_i64_def min_int64_def
        max_int64_def loadMeta_def read_document_def getModTimeRes_def stale_def hashFile_def)
  have n: "bucket_name ''aaa''" "afero_ready base_ready demo_fs2" "''aaa'' \<noteq> ''bkt''"
    by (simp_all add: bucket_name_def plain_path_def split_char_fresh plain_elem_def afero_ready_def demo_fs2_def)
  from put_escapes_bucket [OF demo.multi_laws_axioms n(1) demo_names(1) n(3) demo_names(2) n(2) p] p
  show ?thesis by (auto simp: bytes_reader_def)
qed

text \<open>
  A wrong ETag in \<open>s3afero\<close>. When the size of a file differs from the one in its document, for instance
  after a refused PUT or because another program has written the file, \<open>loadMeta\<close> hashes the document
  and not the file: a GET answers the contents of the file under the MD5 of the document.
\<close>

theorem stale_etag_wrong:
  assumes "multi_laws env btree mtree ready measuring gran"
    and "bucket_name b" "plain_path k" "afero_ready ready db"
    and "btree (sa_world db) (b @ slash # k) = Some (File c t)"
    and "mtree (sa_world db) (meta_path b k) = Some (File bts t')" "bts \<noteq> []"
    and "ae_Unmarshal env bts = Inl m" "mt_Size m \<noteq> int (length c)"
    and "multi_GetObject env b k None db = (Ok obj, db')"
  shows "ob_Contents obj = c \<and> ob_Hash obj = ae_md5 env bts"
  using multi_laws.stale_etag [OF assms] .

definition demo_fs3 :: "mem_world s3afero" where
  "demo_fs3 =
     \<lparr>sa_world = (sa_world demo_fs1)\<lparr>mw_bucket := [(''bkt'', Dir 1), (''bkt/k'', File ''hel'' 6)]\<rparr>,
      sa_modTimeRes = 1, sa_now = 9\<rparr>"

lemma stale_etag_wrong_witness:
  "\<exists>obj db'. multi_GetObject demo_afero_env ''bkt'' ''k'' None demo_fs3 = (Ok obj, db') \<and>
     ob_Contents obj = ''hel'' \<and> ob_Hash obj \<noteq> CHR ''m'' # ''hel''"
proof -
  let ?d = "''626b742f6b,5,5,6d68656c6c6f,582d416d7a2d4d6574612d41,31''"
  obtain obj db' where g: "multi_GetObject demo_afero_env ''bkt'' ''k'' None demo_fs3 = (Ok obj, db')"
    by (simp add: demo_fs_eval demo_fs3_def demo_unmarshal_document demo_marshal_def is_i64_def min_int64_def
        max_int64_def loadMeta_def read_document_def getModTimeRes_def stale_def hashFile_def)
  have s: "afero_ready base_ready demo_fs3"
    "bucket_tree (sa_world demo_fs3) (''bkt'' @ slash # ''k'') = Some (File ''hel'' 6)"
    "meta_tree (sa_world demo_fs3) (meta_path ''bkt'' ''k'') = Some (File ?d 5)"
    using demo_names(1,2) plain_path_append [of "''bkt''" "''k''"] meta_path_plain(2) [OF demo_names(1), of "''k''"]
    by (simp_all add: afero_ready_def demo_fs3_def demo_fs1_def seen_def bucket_name_def demo_paths)
  have "ae_Unmarshal demo_afero_env ?d = Inl \<lparr>mt_File = ''bkt/k'', mt_ModTime = 5, mt_Size = 5,
      mt_Hash = ''mhello'', mt_Meta = Some [(''X-Amz-Meta-A'', ''1'')]\<rparr>"
    by (simp add: demo_afero_env_def demo_unmarshal_document)
  from stale_etag_wrong [OF demo.multi_laws_axioms demo_names(1,2) s(1,2,3) _ this _ g] g
  show ?thesis by (simp add: demo_afero_env_def)
qed

text \<open>
  The wrong error for a prefix in \<open>s3afero\<close>. A listing with a prefix of paths, \<open>d/part\<close> with the delimiter
  \<open>/\<close>, answers NoSuchBucket if there is no directory \<open>d\<close> in the bucket, where S3 has an empty listing.
\<close>

theorem missing_directory_error:
  assumes "multi_laws env btree mtree ready measuring gran"
    and "bucket_name b" "plain_path d" "is_dir (btree (sa_world db) b)"
    and "btree (sa_world db) (b @ slash # d) = None"
    and "reachable_path (btree (sa_world db)) (b @ slash # d)"
    and "ValidateBucketName b = None" "page_IsEmpty page" "FilePrefix p = (d, part, True)"
  shows "multi_ListBucket env b (Some p) page db = (Err (BucketNotFound b), db)"
  by (rule multi_laws.missing_directory [OF assms])

lemma missing_directory_error_witness:
  "multi_ListBucket demo_afero_env ''bkt'' (Some (NewFolderPrefix ''photos/'')) emptyBucketPage demo_fs0 =
     (Err (BucketNotFound ''bkt''), demo_fs0)"
proof -
  have n: "plain_path ''photos''" "slash \<notin> set ''photos''" "slash \<notin> set ''bkt''"
    by (simp_all add: plain_path_def split_char_fresh plain_elem_def)
  have t: "is_dir (bucket_tree (sa_world demo_fs0) ''bkt'')"
    "bucket_tree (sa_world demo_fs0) (''bkt'' @ slash # ''photos'') = None"
    using demo_names(1) by (simp_all add: demo_fs0_def seen_def bucket_name_def)
  have r: "reachable_path (bucket_tree (sa_world demo_fs0)) (''bkt'' @ slash # ''photos'')"
    using n t(1) by (intro reachable_flat) auto
  have f: "FilePrefix (NewFolderPrefix ''photos/'') = (''photos'', '''', True)" by code_simp
  show ?thesis
    using missing_directory_error [OF demo.multi_laws_axioms demo_names(1) n(1) t r demo_names(3) _ f]
    by (simp add: page_IsEmpty_def)
qed

end
