(* ===== verification/MemStore.thy ===== *)
theory MemStore
  imports MemObjects StoreSpec
begin

text \<open>
  \<open>s3mem\<close> without versioning: in a database whose buckets never had it enabled, every operation refines the
  one of \<open>StoreSpec\<close>, and it succeeds exactly when the specification lets it.
\<close>

definition stored_of :: "bucketData \<Rightarrow> stored" where
  "stored_of d = \<lparr>so_body = bd_body d, so_meta = meta_map (bd_metadata d), so_modified = bd_lastModified d\<rparr>"

definition bucket_abs :: "('om, 'oi, 'vm, 'vi) s3mem_env \<Rightarrow> 'om bucket \<Rightarrow> string \<Rightarrow> stored option" where
  "bucket_abs env b k =
     (case bucket_object env b k of None \<Rightarrow> None | Some obj \<Rightarrow> map_option stored_of (bo_data obj))"

definition mem_abs :: "('om, 'oi, 'vm, 'vi) s3mem_env \<Rightarrow> 'om s3mem \<Rightarrow> store" where
  "mem_abs env db = (\<lambda>name. map_option (bucket_abs env) (mem_bucket db name))"

text \<open>Versioning was never enabled: objects without older versions whose data are no delete markers.\<close>

definition plain_bucket :: "('om, 'oi, 'vm, 'vi) s3mem_env \<Rightarrow> 'om bucket \<Rightarrow> bool" where
  "plain_bucket env b \<longleftrightarrow> bk_versioning b = VersioningNone \<and>
     (\<forall>k obj. bucket_object env b k = Some obj \<longrightarrow>
        bo_versions obj = None \<and> (\<exists>d. bo_data obj = Some d \<and> \<not> bd_deleteMarker d))"

definition mem_plain :: "('om, 'oi, 'vm, 'vi) s3mem_env \<Rightarrow> 'om s3mem \<Rightarrow> bool" where
  "mem_plain env db \<longleftrightarrow> (\<forall>name b. mem_bucket db name = Some b \<longrightarrow> plain_bucket env b)"

fun mem_run :: "('om, 'oi, 'vm, 'vi) s3mem_env \<Rightarrow> store_op \<Rightarrow> 'om s3mem \<Rightarrow> bool \<times> 'om s3mem" where
  "mem_run env (PutOp b k m r sz) db = outcome (mem_PutObject env b k (Some m) r sz db)"
| "mem_run env (DeleteOp b k) db = outcome (mem_DeleteObject env b k db)"
| "mem_run env (DeleteMultiOp b ks) db = outcome (mem_DeleteMulti env b ks db)"
| "mem_run env (CreateBucketOp b) db = outcome (mem_CreateBucket env b db)"
| "mem_run env (DeleteBucketOp b) db = outcome (mem_DeleteBucket env b db)"
| "mem_run env (ForceDeleteBucketOp b) db = outcome (mem_ForceDeleteBucket b db)"
| "mem_run env (ClockOp now) db = (True, db\<lparr>db_now := now\<rparr>)"

fun mem_trace :: "('om, 'oi, 'vm, 'vi) s3mem_env \<Rightarrow> store_op list \<Rightarrow> 'om s3mem \<Rightarrow> bool list \<times> 'om s3mem" where
  "mem_trace env [] db = ([], db)"
| "mem_trace env (op # ops) db =
     (case mem_run env op db of (ok, db') \<Rightarrow>
        (case mem_trace env ops db' of (oks, db'') \<Rightarrow> (ok # oks, db'')))"

definition mem_state :: "('om, 'oi, 'vm, 'vi) s3mem_env \<Rightarrow> 'om s3mem \<Rightarrow> store \<times> int" where
  "mem_state env db = (mem_abs env db, db_now db)"

lemma mem_abs_simps [simp]:
  "mem_abs env (mem_set_bucket db name b) = (mem_abs env db)(name \<mapsto> bucket_abs env b)"
  "mem_abs env (db\<lparr>db_versionSource := src\<rparr>) = mem_abs env db"
  "mem_abs env (db\<lparr>db_now := t\<rparr>) = mem_abs env db"
  "mem_abs env (db\<lparr>db_buckets := AList.delete name (db_buckets db)\<rparr>) = (mem_abs env db)(name := None)"
  by (auto simp: mem_abs_def)

lemma mem_plain_simps [simp]:
  "mem_plain env (db\<lparr>db_versionSource := src\<rparr>) = mem_plain env db"
  "mem_plain env (db\<lparr>db_now := t\<rparr>) = mem_plain env db"
  "mem_plain env db \<Longrightarrow> mem_plain env (db\<lparr>db_buckets := AList.delete name (db_buckets db)\<rparr>)"
  "mem_plain env db \<Longrightarrow> plain_bucket env b \<Longrightarrow> mem_plain env (mem_set_bucket db name b)"
  by (auto simp: mem_plain_def)

lemma mem_plainD: "mem_plain env db \<Longrightarrow> mem_bucket db name = Some b \<Longrightarrow> plain_bucket env b"
  by (simp add: mem_plain_def)

context s3mem_laws
begin

lemma plain_new:
  "plain_bucket env (newBucket env name at)" "bucket_abs env (newBucket env name at) = Map.empty"
  by (auto simp: plain_bucket_def bucket_abs_def newBucket_def bucket_object_def)

lemma plain_put:
  assumes "plain_bucket env b" "bucket_put env b k item src = (item', b', src')" "\<not> bd_deleteMarker item"
  shows "plain_bucket env b'" "bucket_abs env b' = (bucket_abs env b)(k \<mapsto> stored_of item)"
proof -
  note p = put_eq [OF assms(2)]
  have d: "\<not> bd_deleteMarker item'" "stored_of item' = stored_of item"
    using assms(3) by (subst p(2), simp add: stored_of_def)+
  have v: "bo_versions (object_or_new env b k) = None"
    using assms(1) by (auto simp: object_or_new_def plain_bucket_def split: option.splits)
  show "plain_bucket env b'"
    using assms(1) d(1) v unfolding p(3) by (auto simp: plain_bucket_def split: if_splits)
  show "bucket_abs env b' = (bucket_abs env b)(k \<mapsto> stored_of item)"
    using assms(1) d(2) unfolding p(3) by (auto simp: plain_bucket_def bucket_abs_def fun_eq_iff)
qed

lemma plain_rm:
  assumes "plain_bucket env b" "bucket_rm env b k at src = (r, b', src')"
  shows "plain_bucket env b'" "bucket_abs env b' = (bucket_abs env b)(k := None)" "src' = src"
proof -
  have "bk_versioning b \<noteq> VersioningEnabled" using assms(1) by (simp add: plain_bucket_def)
  note rm = assms(2) [unfolded rm_plain [OF this]]
  have "plain_bucket env b' \<and> bucket_abs env b' = (bucket_abs env b)(k := None) \<and> src' = src"
  proof (cases "bucket_object env b k")
    case None
    then show ?thesis using rm assms(1) by (auto simp: bucket_abs_def)
  next
    case (Some obj)
    then have "bo_versions obj = None" using assms(1) by (auto simp: plain_bucket_def)
    then have b': "b' = bucket_delete_key env (bucket_store env b k (obj\<lparr>bo_data := None\<rparr>)) k"
      using rm Some by (auto simp: drop_if_empty_def no_versions_def)
    have "bk_versioning b' = bk_versioning b" by (rule rm_frame(2) [OF assms(2)])
    then show ?thesis using rm assms(1) unfolding plain_bucket_def
      by (auto simp: b' bucket_abs_def fun_eq_iff)
  qed
  then show "plain_bucket env b'" "bucket_abs env b' = (bucket_abs env b)(k := None)" "src' = src" by blast+
qed

lemma plain_rm_all:
  assumes "plain_bucket env b" "rm_all env at ks b src del = (del', b', src')"
  shows "plain_bucket env b' \<and> bucket_abs env b' = (\<lambda>k. if k \<in> set ks then None else bucket_abs env b k)"
  using assms
proof (induction ks arbitrary: b src del)
  case (Cons k ks)
  obtain r b1 src1 where 1: "bucket_rm env b k at src = (r, b1, src1)" by (metis prod_cases3)
  note rm = plain_rm [OF Cons.prems(1) 1]
  show ?case using Cons.IH [OF rm(1)] Cons.prems(2) 1 rm(2) by (fastforce simp: fun_eq_iff)
qed simp

lemma plain_len:
  assumes "plain_bucket env b"
  shows "sl_len (env_osl env) (bk_objects b) = 0 \<longleftrightarrow> bucket_abs env b = Map.empty"
proof -
  have "bucket_abs env b = Map.empty \<longleftrightarrow> (\<forall>k. bucket_object env b k = None)"
    using assms by (fastforce simp: plain_bucket_def bucket_abs_def fun_eq_iff split: option.splits)
  also have "\<dots> \<longleftrightarrow> oentries (bk_objects b) = []"
    unfolding bucket_object_def osl.get_entries by (metis map_of_eq_empty_iff)
  finally show ?thesis by (simp add: osl.len_entries)
qed

lemma plain_current:
  assumes "plain_bucket env b"
  shows "(case current_data env b k of Ok d \<Rightarrow> map_of (case bd_metadata d of None \<Rightarrow> [] | Some es \<Rightarrow> es) | _ \<Rightarrow> Map.empty) =
    (case bucket_abs env b k of None \<Rightarrow> Map.empty | Some old \<Rightarrow> so_meta old)"
  using assms by (fastforce simp: plain_bucket_def bucket_abs_def current_data_def stored_of_def meta_map_def
      split: option.splits)

lemma run_put:
  assumes "mem_plain env db" "mem_run env (PutOp b k m r sz) db = (ok, db')"
  shows "mem_plain env db' \<and> (ok \<longleftrightarrow> spec_pre (PutOp b k m r sz) (mem_abs env db)) \<and>
    (if ok then mem_state env db' = spec_run (\<lambda>t. t) (PutOp b k m r sz) (mem_state env db) else db' = db)"
proof (cases "ReadAll r sz = Ok (rd_bytes r) \<and> mem_bucket db b \<noteq> None")
  case False
  show ?thesis
  proof (cases "ReadAll r sz")
    case (Ok bts)
    then have "bts = rd_bytes r"
      by (cases "sz < 0") (simp add: ReadAll_def, simp add: ReadAll_Ok_iff)
    then have n: "mem_bucket db b = None" using False Ok by simp
    have "snd (MergeMetadata (mem_GetObject env b k None) (Some m) db) = db"
      by (auto simp: MergeMetadata_def split: prod.splits res.splits) (metis GetObject_state snd_conv)+
    then have "snd (mem_PutObject env b k (Some m) r sz db) = db"
      "\<not> is_ok (fst (mem_PutObject env b k (Some m) r sz db))"
      using Ok n by (auto simp: mem_PutObject_def act_defs mem_store_def is_ok_def split: prod.splits res.splits)
    then show ?thesis using assms n by (auto simp: outcome_def mem_abs_def)
  qed (use assms False in \<open>auto simp: mem_PutObject_def act_defs outcome_def is_ok_def\<close>)
next
  case True
  then obtain bk where b: "mem_bucket db b = Some bk" "plain_bucket env bk"
    using assms(1) by (auto simp: mem_plain_def)
  have len: "rd_err r = None" "int (length (rd_bytes r)) = sz"
    using True by (cases "sz < 0", simp add: ReadAll_def, simp add: ReadAll_Ok_iff)+
  obtain m' where m': "map_of m' = (case current_data env bk k of
        Ok d \<Rightarrow> map_of (case bd_metadata d of None \<Rightarrow> [] | Some es \<Rightarrow> es) | _ \<Rightarrow> Map.empty) ++ map_of m"
    "mem_PutObject env b k (Some m) r sz db = mem_store env b k (Some m') (rd_bytes r) db"
  proof (rule PutObject_store [OF b(1) _ len])
    show "bo_data obj \<noteq> None" if "bucket_object env bk k = Some obj" for obj
      using b(2) that by (auto simp: plain_bucket_def)
  qed
  obtain vid b' src' where p:
    "bucket_put env bk k (stored_item env k (db_now db) (Some m') (rd_bytes r) '''') (db_versionSource db) =
       (stored_item env k (db_now db) (Some m') (rd_bytes r) vid, b', src')"
    "mem_store env b k (Some m') (rd_bytes r) db =
       (Ok \<lparr>pr_VersionID = (if bk_versioning b' = VersioningEnabled then vid else '''')\<rparr>,
        (mem_set_bucket db b b')\<lparr>db_versionSource := src'\<rparr>)"
    by (rule mem_store_put [OF b(1)])
  note q = plain_put [OF b(2) p(1)]
  have "ok" "db' = (mem_set_bucket db b b')\<lparr>db_versionSource := src'\<rparr>"
    using assms(2) m'(2) p(2) by (auto simp: outcome_def is_ok_def)
  moreover have "mem_abs env db b = Some (bucket_abs env bk)" using b(1) by (simp add: mem_abs_def)
  ultimately show ?thesis
    using assms(1) True q m'(1) plain_current [OF b(2), of k]
    by (auto simp: mem_state_def store_put_def stored_item_def stored_of_def meta_map_def split: option.splits)
qed

lemma run_plain:
  assumes "mem_plain env db" "mem_run env op db = (ok, db')"
  shows "mem_plain env db' \<and> (ok \<longleftrightarrow> spec_pre op (mem_abs env db)) \<and>
    (if ok then mem_state env db' = spec_run (\<lambda>t. t) op (mem_state env db) else db' = db)"
proof (cases op)
  case (PutOp b k m r sz)
  show ?thesis using run_put assms unfolding PutOp by blast
next
  case (DeleteOp b k)
  show ?thesis
  proof (cases "mem_bucket db b")
    case (Some bk)
    obtain r b' src' where rm: "bucket_rm env bk k (db_now db) (db_versionSource db) = (r, b', src')"
      by (metis prod_cases3)
    have "bucket_abs env b' = (\<lambda>x. if x = k then None else bucket_abs env bk x)"
      using plain_rm(2) [OF mem_plainD [OF assms(1) Some] rm] by auto
    then show ?thesis
      using assms Some rm plain_rm(1) [OF mem_plainD [OF assms(1) Some] rm] DeleteOp
      by (auto simp: mem_DeleteObject_def outcome_def is_ok_def mem_state_def store_delete_def mem_abs_def [of env db])
  qed (use assms DeleteOp in \<open>auto simp: mem_DeleteObject_def outcome_def is_ok_def mem_abs_def\<close>)
next
  case (DeleteMultiOp b ks)
  show ?thesis
  proof (cases "mem_bucket db b")
    case (Some bk)
    obtain r b' src' where rm: "rm_all env (db_now db) ks bk (db_versionSource db) [] = (r, b', src')"
      by (metis prod_cases3)
    then show ?thesis
      using assms Some plain_rm_all [OF mem_plainD [OF assms(1) Some] rm] DeleteMultiOp
      by (auto simp: mem_DeleteMulti_def outcome_def is_ok_def mem_state_def store_delete_def mem_abs_def [of env db])
  qed (use assms DeleteMultiOp in \<open>auto simp: mem_DeleteMulti_def outcome_def is_ok_def mem_abs_def\<close>)
next
  case (CreateBucketOp b)
  then show ?thesis using assms plain_new [of b "db_now db"]
    by (auto simp: mem_CreateBucket_def outcome_def is_ok_def mem_state_def mem_abs_def [of env db] split: option.splits)
next
  case (DeleteBucketOp b)
  show ?thesis
  proof (cases "mem_bucket db b")
    case (Some bk)
    then show ?thesis using assms plain_len [OF mem_plainD [OF assms(1) Some]] DeleteBucketOp
      by (auto simp: mem_DeleteBucket_def outcome_def is_ok_def mem_state_def mem_abs_def [of env db] split: if_splits)
  qed (use assms DeleteBucketOp in \<open>auto simp: mem_DeleteBucket_def outcome_def is_ok_def mem_abs_def\<close>)
next
  case (ForceDeleteBucketOp b)
  then show ?thesis using assms
    by (auto simp: mem_ForceDeleteBucket_def outcome_def is_ok_def mem_state_def mem_abs_def [of env db]
        split: option.splits)
next
  case (ClockOp now)
  then show ?thesis using assms by (auto simp: mem_state_def)
qed

lemma trace_plain:
  "mem_plain env db \<Longrightarrow> mem_trace env ops db = (oks, db') \<Longrightarrow>
   mem_plain env db' \<and> spec_runs (\<lambda>t. t) ops (mem_state env db) = (oks, mem_state env db')"
proof (induction ops arbitrary: db oks)
  case (Cons op ops)
  obtain ok db1 where 1: "mem_run env op db = (ok, db1)" by fastforce
  obtain oks' where t: "mem_trace env ops db1 = (oks', db')" "oks = ok # oks'"
    using Cons.prems(2) 1 by (auto split: prod.splits)
  note r = run_plain [OF Cons.prems(1) 1]
  have "mem_plain env db1" using r by blast
  from Cons.IH [OF this t(1)] r show ?case
    by (cases ok) (simp_all add: t(2) mem_state_def apfst_def)
qed simp

end

end
