(* ===== verification/StoreProperties.thy ===== *)
theory StoreProperties
  imports MemStore MemProperties BoltProperties
begin

text \<open>
  The two back ends without versions side by side: \<open>s3mem\<close> is the abstract store, and \<open>s3bolt\<close> does the same
  to clients until the database refuses to be written.
\<close>

text \<open>
  C6: \<open>s3mem\<close> without versioning is the abstract store. In a database whose buckets never had versioning
  enabled, any sequence of puts, deletions, and creations and deletions of buckets has the outcomes
  and the contents of the specification: an operation succeeds exactly if it may, and a failed one
  changes nothing.
\<close>

theorem mem_is_store:
  assumes "s3mem_laws env oentries oview ventries vview" "mem_plain env db"
  shows "map_prod (\<lambda>oks. oks) (mem_state env) (mem_trace env ops db) =
      spec_runs (\<lambda>t. t) ops (mem_state env db) \<and>
    mem_plain env (snd (mem_trace env ops db))"
proof -
  obtain oks db' where t: "mem_trace env ops db = (oks, db')" by fastforce
  show ?thesis using s3mem_laws.trace_plain [OF assms t] by (simp add: t)
qed

lemma demo_plain: "mem_plain demo_env (mem_New 1000 (Some 7))"
  by (simp add: mem_plain_def mem_New_def mem_bucket_def)

lemma mem_is_store_witness:
  "map_prod (\<lambda>oks. oks) (mem_state demo_env) (mem_trace demo_env demo_ops (mem_New 1000 (Some 7))) =
     spec_runs (\<lambda>t. t) demo_ops (mem_state demo_env (mem_New 1000 (Some 7))) \<and>
   fst (mem_trace demo_env demo_ops (mem_New 1000 (Some 7))) = [True, True, False, False, True]"
proof -
  let ?db = "mem_New 1000 (Some 7)"
  note s = mem_is_store [OF demo_laws demo_plain, of demo_ops]
  have "fst (mem_trace demo_env demo_ops ?db) = fst (spec_runs (\<lambda>t. t) demo_ops (mem_state demo_env ?db))"
    using s by (metis fst_map_prod)
  also have "\<dots> = [True, True, False, False, True]"
    by (simp add: demo_ops_def mem_state_def mem_abs_def mem_New_def mem_bucket_def store_put_def
        store_delete_def ReadAll_Ok_iff bytes_reader_def fun_eq_iff)
  finally show ?thesis using s by blast
qed

section \<open>The two back ends agree\<close>

text \<open>The states hold the same objects, but the database keeps times in milliseconds.\<close>

definition same_store ::
    "('om, 'oi, 'vm, 'vi) s3mem_env \<Rightarrow> ('t, 'c, 'v) s3bolt_env \<Rightarrow>
     ('t \<Rightarrow> string \<Rightarrow> (string \<Rightarrow> 'v option) option) \<Rightarrow> 'om s3mem \<Rightarrow> 't s3bolt \<Rightarrow> bool" where
  "same_store menv benv view mdb bdb \<longleftrightarrow>
     bolt_state benv view bdb = (restamp bson_time (mem_abs menv mdb), db_now mdb)"

lemma runs_agree:
  assumes "s3mem_laws menv oentries oview ventries vview" "s3bolt_laws benv view entries cursor_of fits"
    and "mem_plain menv mdb" "bolt_data_ok benv view (sb_bolt bdb)" "same_store menv benv view mdb bdb"
    and "client_op op" "mem_run menv op mdb = (mok, mdb')" "bolt_run benv op bdb = (bok, bdb')"
  shows "mem_plain menv mdb' \<and> bolt_data_ok benv view (sb_bolt bdb') \<and> (bok \<longrightarrow> mok) \<and>
    (mok = bok \<longrightarrow> same_store menv benv view mdb' bdb')"
proof -
  note m = s3mem_laws.run_plain [OF assms(1,3,7)]
  note b = run_refines [OF assms(2,4,6,8)]
  have pre: "spec_pre op (bolt_abs benv view (sb_bolt bdb)) \<longleftrightarrow> spec_pre op (mem_abs menv mdb)"
    using assms(5) by (simp add: same_store_def bolt_state_def)
  moreover have "same_store menv benv view mdb' bdb'" if "mok" "bok"
    using m b that assms(5) spec_run_restamp [of op "mem_abs menv mdb" "db_now mdb" "mem_abs menv mdb'" "db_now mdb'"]
    by (simp add: same_store_def mem_state_def)
  ultimately show ?thesis using m b assms(5) by auto
qed

text \<open>
  C13: the two back ends agree. Start \<open>s3mem\<close>, without versioning, and \<open>s3bolt\<close> on the same objects and run
  the same sequence of client operations on both. Then either every operation has the same outcome in
  both and they hold the same objects in the end, with the times in milliseconds in the database; or
  all outcomes are the same up to an operation that only the database refuses.
\<close>

theorem mem_bolt_agree:
  assumes "s3mem_laws menv oentries oview ventries vview" "s3bolt_laws benv view entries cursor_of fits"
    and "mem_plain menv mdb" "bolt_data_ok benv view (sb_bolt bdb)" "same_store menv benv view mdb bdb"
    and "list_all client_op ops"
    and "mem_trace menv ops mdb = (moks, mdb')" "bolt_trace benv ops bdb = (boks, bdb')"
  shows "(moks = boks \<and> same_store menv benv view mdb' bdb') \<or>
    (\<exists>i < length ops. take i moks = take i boks \<and> moks ! i \<and> \<not> boks ! i)"
  using assms(3-8)
proof (induction ops arbitrary: mdb bdb moks boks)
  case (Cons op ops)
  obtain mok m1 where m: "mem_run menv op mdb = (mok, m1)" by fastforce
  obtain bok b1 where b: "bolt_run benv op bdb = (bok, b1)" by fastforce
  obtain moks' where mt: "mem_trace menv ops m1 = (moks', mdb')" "moks = mok # moks'"
    using Cons.prems(5) m by (auto split: prod.splits)
  obtain boks' where bt: "bolt_trace benv ops b1 = (boks', bdb')" "boks = bok # boks'"
    using Cons.prems(6) b by (auto split: prod.splits)
  have c: "client_op op" "list_all client_op ops" using Cons.prems(4) by simp_all
  note r = runs_agree [OF assms(1,2) Cons.prems(1-3) c(1) m b]
  show ?case
  proof (cases "mok = bok")
    case True
    then have "(moks' = boks' \<and> same_store menv benv view mdb' bdb') \<or>
      (\<exists>i < length ops. take i moks' = take i boks' \<and> moks' ! i \<and> \<not> boks' ! i)"
      using r by (intro Cons.IH [OF _ _ _ c(2) mt(1) bt(1)]) auto
    then show ?thesis using True by (auto simp: mt(2) bt(2) intro: exI [of _ "Suc _"])
  next
    case False
    then show ?thesis using r by (auto simp: mt(2) bt(2) intro: exI [of _ 0])
  qed
qed auto

lemma mem_bolt_agree_witness:
  "\<exists>moks mdb' boks bdb'. mem_trace demo_env demo_ops (mem_New 0 (Some 7)) = (moks, mdb') \<and>
     bolt_trace demo_bolt_env demo_ops demo_bolt0 = (boks, bdb') \<and>
     ((moks = boks \<and> same_store demo_env demo_bolt_env alist_view mdb' bdb') \<or>
      (\<exists>i < length demo_ops. take i moks = take i boks \<and> moks ! i \<and> \<not> boks ! i))"
proof -
  obtain moks mdb' where m: "mem_trace demo_env demo_ops (mem_New 0 (Some 7)) = (moks, mdb')" by fastforce
  obtain boks bdb' where b: "bolt_trace demo_bolt_env demo_ops demo_bolt0 = (boks, bdb')" by fastforce
  have c: "list_all client_op demo_ops" by (simp add: demo_ops_def metaBucketName_def plain_meta_def)
  have p: "mem_plain demo_env (mem_New 0 (Some 7))" by (simp add: mem_plain_def mem_New_def mem_bucket_def)
  have "same_store demo_env demo_bolt_env alist_view (mem_New 0 (Some 7)) demo_bolt0"
    by (simp add: same_store_def bolt_state_def demo_bolt0_def mem_New_def bolt_abs_def alist_view_def
        mem_abs_def mem_bucket_def restamp_def fun_eq_iff)
  from mem_bolt_agree [OF demo_laws demo_bolt_laws p demo_bolt_ok this c m b] m b show ?thesis by blast
qed

end
