(* ===== verification/AferoConfig.thy ===== *)
theory AferoConfig
  imports AferoMulti AferoSingle
begin

text \<open>
  How the back ends of \<open>backend/s3afero\<close> are made: \<open>util.go\<close>, \<open>option.go\<close> and the constructors of \<open>multi.go\<close>
  and \<open>single.go\<close>. The operating system and the constructors of the package \<open>afero\<close> are parameters; file
  modes are left out.
\<close>

text \<open>
  A value of the interface \<open>afero.Fs\<close>: its dynamic type is \<open>*afero.OsFs\<close> or another one. A nil interface is
  \<open>None\<close>; calling a method of it panics.
\<close>

datatype ('w, 'h) Fs = OsFs "('w, 'h) afero" | Fs "('w, 'h) afero"

fun fs_ops :: "('w, 'h) Fs \<Rightarrow> ('w, 'h) afero" where
  "fs_ops (OsFs ops) = ops"
| "fs_ops (Fs ops) = ops"

text \<open>The package \<open>afero\<close>; a new file system in memory is put into the world.\<close>

record ('w, 'h) afero_pkg =
  ap_OsFs :: "('w, 'h) afero"
  ap_BasePathFs :: "('w, 'h) afero \<Rightarrow> string \<Rightarrow> ('w, 'h) afero"
  ap_NewMemMapFs :: "'w \<Rightarrow> ('w, 'h) afero \<times> 'w"

record 'w os_env =
  os_Getwd :: "'w \<Rightarrow> string + fs_error"
  os_Stat :: "string \<Rightarrow> 'w \<Rightarrow> FileInfo + fs_error"
  os_Mkdir :: "string \<Rightarrow> ('w, unit) fact"
  os_MkdirAll :: "string \<Rightarrow> ('w, unit) fact"

text \<open>JSON and MD5, which the back ends use.\<close>

record codec =
  cd_Marshal :: "Metadata \<Rightarrow> bytes + string"
  cd_Unmarshal :: "bytes \<Rightarrow> Metadata + string"
  cd_md5 :: "bytes \<Rightarrow> bytes"

section \<open>File systems\<close>

definition ensureNoOsFs :: "string \<Rightarrow> ('w, 'h) Fs option \<Rightarrow> unit res" where
  "ensureNoOsFs name fs =
     (case fs of
        Some (OsFs _) \<Rightarrow>
          Err (EOther (''gofakes3: invalid OsFs passed to '' @ name @
            '',. s3afero backends assume they have control over the filesystem's root. '' @
            ''use afero.NewBasePathFs() to avoid misery''))
      | _ \<Rightarrow> Ok ())"

definition FsPathCreate :: int where "FsPathCreate = 1"
definition FsPathCreateAll :: int where "FsPathCreateAll = 2"

unbundle bit_operations_syntax

definition has_flag :: "int \<Rightarrow> int \<Rightarrow> bool" where
  "has_flag flags f \<longleftrightarrow> flags AND f \<noteq> 0"

definition NewBasePathFs ::
    "('w, 'h) afero_pkg \<Rightarrow> ('w, 'h) Fs option \<Rightarrow> string \<Rightarrow> int \<Rightarrow> ('w, ('w, 'h) Fs) act" where
  "NewBasePathFs pkg source path flags w =
     (case source of
        None \<Rightarrow> (Panic, w)
      | Some fs \<Rightarrow>
          if has_flag flags (FsPathCreateAll OR FsPathCreate) then
            (case fs_MkdirAll (fs_ops fs) path w of
               (Inr e, w') \<Rightarrow> (Err (fs_err e), w')
             | (Inl _, w') \<Rightarrow> (Ok (Fs (ap_BasePathFs pkg (fs_ops fs) path)), w'))
          else (Ok (Fs (ap_BasePathFs pkg (fs_ops fs) path)), w))"

text \<open>\<open>filepath.Abs\<close>\<close>

definition filepath_Abs :: "'w os_env \<Rightarrow> string \<Rightarrow> 'w \<Rightarrow> string + fs_error" where
  "filepath_Abs os path w =
     (if has_prefix path ''/'' then Inl (path_Clean path)
      else case os_Getwd os w of Inr e \<Rightarrow> Inr e | Inl wd \<Rightarrow> Inl (path_Join [wd, path]))"

text \<open>The directory at \<open>path\<close>, made if the flags say so.\<close>

definition ensure_dir :: "'w os_env \<Rightarrow> string \<Rightarrow> int \<Rightarrow> ('w, unit) act" where
  "ensure_dir os path flags w =
     (case os_Stat os path w of
        Inr e \<Rightarrow>
          if IsNotExist e then
            (if has_flag flags FsPathCreate then apfst fs_res (os_Mkdir os path w)
             else if has_flag flags FsPathCreateAll then apfst fs_res (os_MkdirAll os path w)
             else (Err (fs_err e), w))
          else (Err (fs_err e), w)
      | Inl stat \<Rightarrow>
          if fi_IsDir stat then (Ok (), w)
          else (Err (EOther (''gofakes3: path '' @ quoted path @ '' is not a directory'')), w))"

definition FsPath ::
    "'w os_env \<Rightarrow> ('w, 'h) afero_pkg \<Rightarrow> string \<Rightarrow> int \<Rightarrow> ('w, ('w, 'h) Fs) act" where
  "FsPath os pkg path flags w =
     (if path = '''' then (Err (EOther ''gofakes3: empty path''), w)
      else case filepath_Abs os path w of
        Inr e \<Rightarrow> (Err (fs_err e), w)
      | Inl path \<Rightarrow>
          act_bind (ensure_dir os path flags)
            (\<lambda>_. let parts = split_str path ''/''
                 in if length parts \<le> 1
                    then act_err (EOther (''gofakes3: path '' @ quoted path @
                      '' at the root of the file system not allowed; use FsAllowAll to bypass''))
                    else act_ok (Fs (ap_BasePathFs pkg (ap_OsFs pkg) path))) w)"

section \<open>MultiBucket\<close>

record ('w, 'h) multi_config =
  mc_metaFs :: "('w, 'h) Fs option"
  mc_flags :: int

type_synonym ('w, 'h) MultiOption = "('w, 'h) multi_config \<Rightarrow> ('w, 'h) multi_config res"

definition MultiWithMetaFs :: "('w, 'h) Fs option \<Rightarrow> ('w, 'h) MultiOption" where
  "MultiWithMetaFs fs b = rbind (ensureNoOsFs ''MultiWithMetaFs'' fs) (\<lambda>_. Ok (b\<lparr>mc_metaFs := fs\<rparr>))"

definition MultiFsFlags :: "int \<Rightarrow> ('w, 'h) MultiOption" where
  "MultiFsFlags flags b = Ok (b\<lparr>mc_flags := flags\<rparr>)"

fun apply_options :: "('b \<Rightarrow> 'b res) list \<Rightarrow> 'b \<Rightarrow> 'b res" where
  "apply_options [] b = Ok b"
| "apply_options (opt # opts) b = rbind (opt b) (apply_options opts)"

definition new_afero_env ::
    "codec \<Rightarrow> ('w, 'h) Fs \<Rightarrow> ('w, 'h) Fs \<Rightarrow> ('w, 'h) Fs \<Rightarrow> ('w, 'h) afero_env" where
  "new_afero_env cd base bucket meta =
     \<lparr>ae_base = fs_ops base, ae_bucket = fs_ops bucket, ae_meta = fs_ops meta,
      ae_Marshal = cd_Marshal cd, ae_Unmarshal = cd_Unmarshal cd, ae_md5 = cd_md5 cd\<rparr>"

text \<open>A new back end has not measured the resolution of modification times.\<close>

definition newMetaStore :: "'w \<Rightarrow> int \<Rightarrow> 'w s3afero" where
  "newMetaStore w now = \<lparr>sa_world = w, sa_modTimeRes = -1, sa_now = now\<rparr>"

text \<open>The file systems of the back end: the base, that of the buckets and that of the metadata.\<close>

definition MultiBucket ::
    "('w, 'h) afero_pkg \<Rightarrow> ('w, 'h) Fs option \<Rightarrow> ('w, 'h) MultiOption list \<Rightarrow>
     ('w, ('w, 'h) Fs \<times> ('w, 'h) Fs \<times> ('w, 'h) Fs) act" where
  "MultiBucket pkg fs opts =
     act_bind (act_res (ensureNoOsFs ''fs'' fs)) (\<lambda>_.
     act_bind (act_res (apply_options opts \<lparr>mc_metaFs = None, mc_flags = 0\<rparr>)) (\<lambda>b.
     act_bind (NewBasePathFs pkg fs ''buckets'' FsPathCreateAll) (\<lambda>bucketsFs.
     act_bind (case mc_metaFs b of
                 Some metaFs \<Rightarrow> act_ok metaFs
               | None \<Rightarrow> NewBasePathFs pkg fs ''metadata'' FsPathCreateAll) (\<lambda>metaFs.
     case fs of None \<Rightarrow> act_res Panic | Some base \<Rightarrow> act_ok (base, bucketsFs, metaFs)))))"

section \<open>SingleBucket\<close>

text \<open>
  The file systems of the back end: that of the objects and that of the metadata. The package has no
  option; one of another package cannot reach the fields of the back end and only succeeds or fails.
\<close>

definition SingleBucket ::
    "('w, 'h) afero_pkg \<Rightarrow> string \<Rightarrow> ('w, 'h) Fs option \<Rightarrow> ('w, 'h) Fs option \<Rightarrow> (unit \<Rightarrow> unit res) list \<Rightarrow>
     ('w, ('w, 'h) Fs option \<times> ('w, 'h) Fs) act" where
  "SingleBucket pkg name fs metaFs opts =
     act_bind (act_res (ensureNoOsFs ''fs'' fs)) (\<lambda>_.
     act_bind (case metaFs of
                 None \<Rightarrow> (\<lambda>w. case ap_NewMemMapFs pkg w of (mfs, w') \<Rightarrow> (Ok (Fs mfs), w'))
               | Some m \<Rightarrow> act_bind (act_res (ensureNoOsFs ''metaFs'' metaFs)) (\<lambda>_. act_ok m)) (\<lambda>meta.
     act_bind (act_res (case ValidateBucketName name of None \<Rightarrow> Ok () | Some e \<Rightarrow> Err e))
       (\<lambda>_. act_bind (act_res (apply_options opts ())) (\<lambda>_. act_ok (fs, meta)))))"

lemmas afero_config_defs =
  ensureNoOsFs_def FsPathCreate_def FsPathCreateAll_def NewBasePathFs_def MultiBucket_def SingleBucket_def
  act_defs

end
