(* ===== verification/Logging.thy ===== *)
theory Logging
  imports Prelude
begin

text \<open>
  \<open>log.go\<close>: loggers. \<open>Print\<close> takes its arguments as a slice, which the standard logger extends in place if
  there is room, so the model keeps the arrays behind the slices: a heap is a list of arrays, a slice
  starts at the beginning of its array. Printing answers the lines that the targets have been given.
\<close>

section \<open>Slices\<close>

record slice =
  sc_array :: nat
  sc_len :: nat
  sc_cap :: nat

definition slice_get :: "'a list list \<Rightarrow> slice \<Rightarrow> 'a list" where
  "slice_get h v = take (sc_len v) (h ! sc_array v)"

text \<open>
  \<open>append(v, x)\<close>: in place while there is capacity, otherwise in a new array. That array is given no
  spare capacity here; nothing is ever appended to it.
\<close>

definition slice_append :: "'a list list \<Rightarrow> slice \<Rightarrow> 'a \<Rightarrow> 'a list list \<times> slice" where
  "slice_append h v x =
     (if sc_len v < sc_cap v
      then (h[sc_array v := (h ! sc_array v)[sc_len v := x]], v\<lparr>sc_len := sc_len v + 1\<rparr>)
      else (h @ [slice_get h v @ [x]], \<lparr>sc_array = length h, sc_len = sc_len v + 1, sc_cap = sc_len v + 1\<rparr>))"

text \<open>\<open>copy(v[1:], v)\<close>\<close>

definition copy_up :: "'a list list \<Rightarrow> slice \<Rightarrow> 'a list list" where
  "copy_up h v =
     (let a = h ! sc_array v in h[sc_array v := take 1 a @ take (sc_len v - 1) a @ drop (sc_len v) a])"

text \<open>The slice of a call whose arguments are written out; its array has no spare elements.\<close>

definition slice_lit :: "'a list list \<Rightarrow> 'a list \<Rightarrow> 'a list list \<times> slice" where
  "slice_lit h args = (h @ [args], \<lparr>sc_array = length h, sc_len = length args, sc_cap = length args\<rparr>)"

definition slice_ok :: "'a list list \<Rightarrow> slice \<Rightarrow> bool" where
  "slice_ok h v \<longleftrightarrow> sc_array v < length h \<and> sc_len v \<le> sc_cap v \<and> length (h ! sc_array v) = sc_cap v"

section \<open>Loggers\<close>

type_synonym LogLevel = string

definition LogErr :: LogLevel where "LogErr = ''ERR''"
definition LogWarn :: LogLevel where "LogWarn = ''WARN''"
definition LogInfo :: LogLevel where "LogInfo = ''INFO''"
definition LogDebug :: LogLevel where "LogDebug = ''DEBUG''"

text \<open>The arguments of \<open>Print\<close> may be anything; \<open>LevelArg\<close> and \<open>NilArg\<close> are what \<open>Print\<close> itself puts in.\<close>

datatype 'a log_arg = Arg 'a | LevelArg LogLevel | NilArg

text \<open>A target \<open>'t\<close> is a function like \<open>log.Println\<close>; the levels of a standard logger are a map or nil.\<close>

datatype 't logger =
    StdLogger 't "LogLevel list option"
  | DiscardLogger
  | MultiLogger "'t logger list"

definition newStdLog :: "'t \<Rightarrow> LogLevel list \<Rightarrow> 't logger" where
  "newStdLog log levels = StdLogger log (if 0 < length levels then Some levels else None)"

text \<open>The target of \<open>GlobalLog\<close> is the global logger of the package \<open>log\<close>, that of \<open>StdLog\<close> a given one.\<close>

datatype std_target = GlobalTarget | LoggerTarget nat

definition GlobalLog :: "LogLevel list \<Rightarrow> std_target logger" where
  "GlobalLog levels = newStdLog GlobalTarget levels"

definition StdLog :: "nat \<Rightarrow> LogLevel list \<Rightarrow> std_target logger" where
  "StdLog log levels = newStdLog (LoggerTarget log) levels"

definition DiscardLog :: "'t logger" where
  "DiscardLog = DiscardLogger"

definition MultiLog :: "'t logger list \<Rightarrow> 't logger" where
  "MultiLog loggers = MultiLogger loggers"

definition level_on :: "LogLevel list option \<Rightarrow> LogLevel \<Rightarrow> bool" where
  "level_on levels level \<longleftrightarrow> (case levels of None \<Rightarrow> True | Some ls \<Rightarrow> level \<in> set ls)"

definition stdLog_Print ::
    "'t \<Rightarrow> LogLevel list option \<Rightarrow> LogLevel \<Rightarrow> slice \<Rightarrow> 'a log_arg list list \<Rightarrow>
     ('t \<times> 'a log_arg list) list \<times> 'a log_arg list list" where
  "stdLog_Print log levels level v h =
     (if level_on levels level then
        (case slice_append h v NilArg of (h, v) \<Rightarrow>
           let h = copy_up h v;
               h = h[sc_array v := (h ! sc_array v)[0 := LevelArg level]]
           in ([(log, slice_get h v)], h))
      else ([], h))"

fun logger_Print ::
    "'t logger \<Rightarrow> LogLevel \<Rightarrow> slice \<Rightarrow> 'a log_arg list list \<Rightarrow>
     ('t \<times> 'a log_arg list) list \<times> 'a log_arg list list"
  and multi_Print ::
    "'t logger list \<Rightarrow> LogLevel \<Rightarrow> slice \<Rightarrow> 'a log_arg list list \<Rightarrow>
     ('t \<times> 'a log_arg list) list \<times> 'a log_arg list list" where
  "logger_Print (StdLogger log levels) level v h = stdLog_Print log levels level v h"
| "logger_Print DiscardLogger level v h = ([], h)"
| "logger_Print (MultiLogger loggers) level v h = multi_Print loggers level v h"
| "multi_Print [] level v h = ([], h)"
| "multi_Print (l # loggers) level v h =
     (case logger_Print l level v h of (out, h1) \<Rightarrow>
        (case multi_Print loggers level v h1 of (out', h2) \<Rightarrow> (out @ out', h2)))"

text \<open>The call \<open>l.Print(level, args...)\<close> with its arguments written out.\<close>

definition log_call :: "'t logger \<Rightarrow> LogLevel \<Rightarrow> 'a log_arg list \<Rightarrow> ('t \<times> 'a log_arg list) list" where
  "log_call l level args = (case slice_lit [] args of (h, v) \<Rightarrow> fst (logger_Print l level v h))"

section \<open>What reaches the targets\<close>

text \<open>The targets that let a level pass, in the order of the loggers.\<close>

fun recipients :: "'t logger \<Rightarrow> LogLevel \<Rightarrow> 't list" where
  "recipients (StdLogger log levels) level = (if level_on levels level then [log] else [])"
| "recipients DiscardLogger level = []"
| "recipients (MultiLogger loggers) level = concat (map (\<lambda>l. recipients l level) loggers)"

definition full_slice :: "'a list list \<Rightarrow> slice \<Rightarrow> 'a list \<Rightarrow> bool" where
  "full_slice h v args \<longleftrightarrow> slice_ok h v \<and> sc_len v = sc_cap v \<and> h ! sc_array v = args"

lemma std_full:
  assumes "full_slice h v args" "stdLog_Print log levels level v h = (out, h')"
  shows "out = map (\<lambda>t. (t, LevelArg level # args)) (recipients (StdLogger log levels) level)"
    "full_slice h' v args"
proof -
  have v: "sc_array v < length h" "h ! sc_array v = args" "sc_len v = length args" "sc_cap v = length args"
    using assms(1) by (auto simp: full_slice_def slice_ok_def)
  have "(take (Suc 0) args @ take (Suc 0 - length args) [NilArg] @ args)[0 := LevelArg level] =
      LevelArg level # args"
    by (cases args) simp_all
  then show "out = map (\<lambda>t. (t, LevelArg level # args)) (recipients (StdLogger log levels) level)"
    "full_slice h' v args"
    using assms(2) v
    by (auto simp: stdLog_Print_def slice_append_def copy_up_def Let_def full_slice_def slice_ok_def
        slice_get_def nth_append split: if_splits)
qed

lemma print_full:
  "full_slice h v args \<Longrightarrow> logger_Print l level v h = (out, h') \<Longrightarrow>
     out = map (\<lambda>t. (t, LevelArg level # args)) (recipients l level) \<and> full_slice h' v args"
  "full_slice h v args \<Longrightarrow> multi_Print ls level v h = (out, h') \<Longrightarrow>
     out = map (\<lambda>t. (t, LevelArg level # args)) (concat (map (\<lambda>l. recipients l level) ls)) \<and>
     full_slice h' v args"
proof (induction l level v h and ls level v h arbitrary: out h' and out h' rule: logger_Print_multi_Print.induct)
  case (1 log levels level v h)
  from std_full [OF 1(1) 1(2) [unfolded logger_Print.simps]] show ?case by blast
next
  case (5 l loggers level v h)
  obtain out1 h1 where 1: "logger_Print l level v h = (out1, h1)" by fastforce
  obtain out2 h2 where 2: "multi_Print loggers level v h1 = (out2, h2)" by fastforce
  note a = "5.IH"(1) [OF "5.prems"(1) 1]
  note b = "5.IH"(2) [OF 1 [symmetric] _ 2]
  have "out = out1 @ out2" "h' = h2" using "5.prems"(2) 1 2 by simp_all
  then show ?case using a b by simp
qed simp_all

lemma std_slack:
  assumes "slice_ok h v" "sc_len v < sc_cap v"
  obtains h' where "stdLog_Print log None level v h = ([(log, LevelArg level # slice_get h v)], h')"
    "slice_ok h' v" "slice_get h' v = take (sc_len v) (LevelArg level # slice_get h v)"
proof -
  define args rest where "args = slice_get h v" and "rest = drop (Suc (sc_len v)) (h ! sc_array v)"
  obtain x where a: "h ! sc_array v = args @ x # rest" "length args = sc_len v"
    using assms id_take_nth_drop [of "sc_len v" "h ! sc_array v"]
    by (force simp: args_def rest_def slice_get_def slice_ok_def)
  have "stdLog_Print log None level v h =
      ([(log, LevelArg level # args)], h[sc_array v := LevelArg level # args @ rest])"
    using assms a(1) by (cases args)
      (auto simp: stdLog_Print_def level_on_def slice_append_def copy_up_def Let_def slice_ok_def slice_get_def
        a(2) [symmetric] split: nat.splits)
  moreover have "slice_ok (h[sc_array v := LevelArg level # args @ rest]) v"
    "slice_get (h[sc_array v := LevelArg level # args @ rest]) v = take (sc_len v) (LevelArg level # args)"
    using assms a by (auto simp: slice_ok_def slice_get_def take_Cons split: nat.splits)
  ultimately show thesis by (intro that [of "h[sc_array v := LevelArg level # args @ rest]"]) (simp_all add: args_def)
qed

text \<open>
  Log messages arrive whole. A call of \<open>Print\<close> with its arguments written out, as all calls in the
  server are, gives each target whose level filter passes exactly one line, the level followed by the
  arguments, through any nesting of loggers, in their order; and later calls see the same arguments.
\<close>

theorem log_delivers:
  "log_call l level args = map (\<lambda>t. (t, LevelArg level # args)) (recipients l level)"
proof -
  let ?v = "\<lparr>sc_array = 0, sc_len = length args, sc_cap = length args\<rparr>"
  obtain out h' where p: "logger_Print l level ?v [args] = (out, h')" by fastforce
  have "full_slice [args] ?v args" by (simp add: full_slice_def slice_ok_def)
  from print_full(1) [OF this p] show ?thesis
    by (simp add: log_call_def slice_lit_def p)
qed

text \<open>
  C40: a logger may garble what the next one gets. If the slice passed to \<open>Print\<close> has spare capacity, the first
  standard logger of a \<open>MultiLog\<close> shifts the caller's own array to put the level in front; the second
  one then prints the level twice and loses the last argument, and the caller's slice has changed.
\<close>

theorem multi_log_garbles:
  assumes "slice_ok h v" "0 < sc_len v" "sc_len v < sc_cap v"
  shows "\<exists>h'. logger_Print (MultiLog [newStdLog t1 [], newStdLog t2 []]) level v h =
      ([(t1, LevelArg level # slice_get h v),
        (t2, LevelArg level # LevelArg level # butlast (slice_get h v))], h') \<and>
    slice_get h' v = take (sc_len v) (LevelArg level # LevelArg level # butlast (slice_get h v))"
proof -
  obtain h1 where 1: "stdLog_Print t1 None level v h = ([(t1, LevelArg level # slice_get h v)], h1)"
      "slice_ok h1 v" "slice_get h1 v = take (sc_len v) (LevelArg level # slice_get h v)"
    by (rule std_slack [OF assms(1,3)])
  obtain h2 where 2: "stdLog_Print t2 None level v h1 = ([(t2, LevelArg level # slice_get h1 v)], h2)"
      "slice_get h2 v = take (sc_len v) (LevelArg level # slice_get h1 v)"
    by (rule std_slack [OF 1(2) assms(3)])
  have "slice_get h1 v = LevelArg level # butlast (slice_get h v)"
    using assms 1(3) by (cases "sc_len v") (auto simp: butlast_conv_take slice_get_def slice_ok_def min_def)
  then show ?thesis using 1(1) 2 by (simp add: MultiLog_def newStdLog_def)
qed

lemma multi_log_garbles_witness:
  "\<exists>h'. logger_Print (MultiLog [newStdLog GlobalTarget [], newStdLog (LoggerTarget 1) []]) LogInfo
       \<lparr>sc_array = 0, sc_len = 2, sc_cap = 3\<rparr> [[Arg ''bucket'', Arg ''b'', NilArg]] =
     ([(GlobalTarget, [LevelArg LogInfo, Arg ''bucket'', Arg ''b'']),
       (LoggerTarget 1, [LevelArg LogInfo, LevelArg LogInfo, Arg ''bucket''])], h')"
proof -
  have "slice_ok [[Arg ''bucket'', Arg ''b'', NilArg]] \<lparr>sc_array = 0, sc_len = 2, sc_cap = 3\<rparr>"
    by (simp add: slice_ok_def)
  from multi_log_garbles [OF this, of GlobalTarget "LoggerTarget 1" LogInfo] show ?thesis
    by (auto simp: slice_get_def)
qed

end
