(* ===== verification/TimeSource.thy ===== *)
theory TimeSource
  imports Messages
begin

text \<open>
  \<open>time.go\<close>: sources of time. A source is the wall clock, whose reading is an argument, or a fixed time,
  which only \<open>Advance\<close> moves. Times are nanoseconds; the zone they are shown in is left out.
\<close>

datatype TimeSource = LocatedTime | FixedTime int

definition FixedTimeSource :: "int \<Rightarrow> TimeSource" where
  "FixedTimeSource at = FixedTime at"

definition DefaultTimeSource :: TimeSource where
  "DefaultTimeSource = LocatedTime"

fun ts_Now :: "TimeSource \<Rightarrow> int \<Rightarrow> int" where
  "ts_Now LocatedTime wall = wall"
| "ts_Now (FixedTime t) wall = t"

fun ts_Since :: "TimeSource \<Rightarrow> int \<Rightarrow> int \<Rightarrow> int" where
  "ts_Since LocatedTime wall t = time_Sub wall t"
| "ts_Since (FixedTime t0) wall t = time_Sub t0 t"

text \<open>Only a fixed source can be advanced.\<close>

fun ts_Advance :: "int \<Rightarrow> TimeSource \<Rightarrow> TimeSource" where
  "ts_Advance by' (FixedTime t) = FixedTime (t + by')"
| "ts_Advance by' LocatedTime = LocatedTime"

end
