(* ===== verification/Command.thy ===== *)
theory Command
  imports StoreServer MemListing BoltBackend AferoConfig Logging TimeSource
begin

text \<open>
  \<open>cmd/gofakes3/main.go\<close>: the flags and how they are parsed (with the package \<open>flag\<close>, for a set that answers
  its errors), the list of host names, and \<open>run\<close>, which opens a back end, makes the first bucket and hands
  a configured server to \<open>listenAndServe\<close>. Messages to the terminal are left out.
\<close>

section \<open>Flags\<close>

record fakeS3Flags =
  f_host :: string
  f_backendKind :: string
  f_initialBucket :: string
  f_fixedTimeStr :: string
  f_noIntegrity :: bool
  f_hostBucket :: bool
  f_hostBucketBases :: "string list"
  f_autoBucket :: bool
  f_quiet :: bool
  f_boltDb :: string
  f_directFsPath :: string
  f_directFsMeta :: string
  f_directFsBucket :: string
  f_directFsCreatePaths :: bool
  f_fsPath :: string
  f_fsMeta :: string
  f_fsCreatePaths :: bool
  f_debugCPU :: string
  f_debugHost :: string

definition zero_flags :: fakeS3Flags where
  "zero_flags =
     \<lparr>f_host = '''', f_backendKind = '''', f_initialBucket = '''', f_fixedTimeStr = '''',
      f_noIntegrity = False, f_hostBucket = False, f_hostBucketBases = [], f_autoBucket = False,
      f_quiet = False, f_boltDb = '''', f_directFsPath = '''', f_directFsMeta = '''',
      f_directFsBucket = '''', f_directFsCreatePaths = False, f_fsPath = '''', f_fsMeta = '''',
      f_fsCreatePaths = False, f_debugCPU = '''', f_debugHost = ''''\<rparr>"

text \<open>\<open>HostList\<close>: \<open>String\<close> joins the values, \<open>Set\<close> appends the parts of a list until one is empty.\<close>

definition HostList_String :: "string list \<Rightarrow> string" where
  "HostList_String values = join values '',''"

definition host_part :: "string \<Rightarrow> string" where
  "host_part part = trim (trim_space part) ''.''"

fun host_parts :: "string list \<Rightarrow> string list \<Rightarrow> string list \<times> s3error option" where
  "host_parts values [] = (values, None)"
| "host_parts values (part # parts) =
     (if host_part part = '''' then (values, Some (EOther ''host is empty''))
      else host_parts (values @ [host_part part]) parts)"

definition HostList_Set :: "string \<Rightarrow> string list \<Rightarrow> string list \<times> s3error option" where
  "HostList_Set s values = host_parts values (split_str s '','')"

text \<open>A flag is a variable of type string or bool with its default, or a value with a method \<open>Set\<close>.\<close>

datatype 'f flag =
    StringVar "string \<Rightarrow> 'f \<Rightarrow> 'f" string
  | BoolVar "bool \<Rightarrow> 'f \<Rightarrow> 'f" bool
  | ValueVar "string \<Rightarrow> 'f \<Rightarrow> 'f \<times> s3error option"

definition set_hosts :: "string \<Rightarrow> fakeS3Flags \<Rightarrow> fakeS3Flags \<times> s3error option" where
  "set_hosts s f =
     (case HostList_Set s (f_hostBucketBases f) of (hosts, err) \<Rightarrow> (f\<lparr>f_hostBucketBases := hosts\<rparr>, err))"

definition attach :: "(string \<times> fakeS3Flags flag) list" where
  "attach =
     [(''host'', StringVar (\<lambda>s. f_host_update (\<lambda>_. s)) '':9000''),
      (''time'', StringVar (\<lambda>s. f_fixedTimeStr_update (\<lambda>_. s)) ''''),
      (''initialbucket'', StringVar (\<lambda>s. f_initialBucket_update (\<lambda>_. s)) ''''),
      (''no-integrity'', BoolVar (\<lambda>b. f_noIntegrity_update (\<lambda>_. b)) False),
      (''autobucket'', BoolVar (\<lambda>b. f_autoBucket_update (\<lambda>_. b)) False),
      (''hostbucket'', BoolVar (\<lambda>b. f_hostBucket_update (\<lambda>_. b)) False),
      (''hostbucketbase'', ValueVar set_hosts),
      (''quiet'', BoolVar (\<lambda>b. f_quiet_update (\<lambda>_. b)) False),
      (''backend'', StringVar (\<lambda>s. f_backendKind_update (\<lambda>_. s)) ''''),
      (''bolt.db'', StringVar (\<lambda>s. f_boltDb_update (\<lambda>_. s)) ''locals3.db''),
      (''directfs.path'', StringVar (\<lambda>s. f_directFsPath_update (\<lambda>_. s)) ''''),
      (''directfs.meta'', StringVar (\<lambda>s. f_directFsMeta_update (\<lambda>_. s)) ''''),
      (''directfs.bucket'', StringVar (\<lambda>s. f_directFsBucket_update (\<lambda>_. s)) ''mybucket''),
      (''directfs.create'', BoolVar (\<lambda>b. f_directFsCreatePaths_update (\<lambda>_. b)) False),
      (''fs.path'', StringVar (\<lambda>s. f_fsPath_update (\<lambda>_. s)) ''''),
      (''fs.meta'', StringVar (\<lambda>s. f_fsMeta_update (\<lambda>_. s)) ''''),
      (''fs.create'', BoolVar (\<lambda>b. f_fsCreatePaths_update (\<lambda>_. b)) False),
      (''debug.host'', StringVar (\<lambda>s. f_debugHost_update (\<lambda>_. s)) ''''),
      (''debug.cpu'', StringVar (\<lambda>s. f_debugCPU_update (\<lambda>_. s)) ''''),
      (''db'', StringVar (\<lambda>s. f_boltDb_update (\<lambda>_. s)) ''locals3.db''),
      (''bucket'', StringVar (\<lambda>s. f_initialBucket_update (\<lambda>_. s)) '''')]"

text \<open>Defining a flag gives its variable the default.\<close>

fun set_default :: "'f flag \<Rightarrow> 'f \<Rightarrow> 'f" where
  "set_default (StringVar upd d) f = upd d f"
| "set_default (BoolVar upd d) f = upd d f"
| "set_default (ValueVar upd) f = f"

definition default_flags :: fakeS3Flags where
  "default_flags = fold set_default (map snd attach) zero_flags"

text \<open>\<open>strconv.ParseBool\<close>\<close>

definition ParseBool :: "string \<Rightarrow> bool option" where
  "ParseBool s =
     (if s \<in> {''1'', ''t'', ''T'', ''true'', ''TRUE'', ''True''} then Some True
      else if s \<in> {''0'', ''f'', ''F'', ''false'', ''FALSE'', ''False''} then Some False else None)"

text \<open>A name and, after the first equals sign, a value.\<close>

definition flag_parts :: "string \<Rightarrow> string \<times> string option" where
  "flag_parts s =
     (let name = takeWhile (\<lambda>c. c \<noteq> CHR ''='') s
      in (name, if length name < length s then Some (drop (length name + 1) s) else None))"

fun set_flag :: "'f flag \<Rightarrow> string \<Rightarrow> 'f \<Rightarrow> 'f \<times> s3error option" where
  "set_flag (StringVar upd _) v f = (upd v f, None)"
| "set_flag (BoolVar upd _) v f =
     (case ParseBool v of None \<Rightarrow> (f, Some (EOther ''parse error'')) | Some b \<Rightarrow> (upd b f, None))"
| "set_flag (ValueVar upd) v f = upd v f"

fun is_bool_flag :: "'f flag \<Rightarrow> bool" where
  "is_bool_flag (BoolVar _ _) = True"
| "is_bool_flag _ = False"

text \<open>The value for a flag and the arguments behind it; a boolean flag takes no further argument.\<close>

definition flag_value :: "'f flag \<Rightarrow> string option \<Rightarrow> string list \<Rightarrow> (string \<times> string list) option" where
  "flag_value flag value args =
     (case value of
        Some v \<Rightarrow> Some (v, args)
      | None \<Rightarrow>
          if is_bool_flag flag then Some (''true'', args)
          else (case args of [] \<Rightarrow> None | v # args' \<Rightarrow> Some (v, args')))"

lemma flag_value_shorter: "flag_value flag value args = Some (v, rest) \<Longrightarrow> length rest \<le> length args"
  by (auto simp: flag_value_def split: option.splits if_splits list.splits)

text \<open>
  \<open>FlagSet.Parse\<close>: a flag may have one or two dashes and its value behind an equals sign or, unless it is
  a boolean one, in the next argument; the first argument that is no flag ends them.
\<close>

function parse_args :: "(string \<times> 'f flag) list \<Rightarrow> string list \<Rightarrow> 'f \<Rightarrow> 'f \<times> s3error option" where
  "parse_args formal [] f = (f, None)"
| "parse_args formal (s # args) f =
     (if length s < 2 \<or> hd s \<noteq> CHR ''-'' \<or> s = ''--'' then (f, None)
      else
        let name = drop (if s ! 1 = CHR ''-'' then 2 else 1) s
        in if name = '''' \<or> hd name \<in> {CHR ''-'', CHR ''=''} then (f, Some (EOther (''bad flag syntax: '' @ s)))
           else
             (case map_of formal (fst (flag_parts name)) of
                None \<Rightarrow>
                  if fst (flag_parts name) \<in> {''help'', ''h''} then (f, Some (EOther ''flag: help requested''))
                  else (f, Some (EOther (''flag provided but not defined: -'' @ fst (flag_parts name))))
              | Some flag \<Rightarrow>
                  (case flag_value flag (snd (flag_parts name)) args of
                     None \<Rightarrow> (f, Some (EOther (''flag needs an argument: -'' @ fst (flag_parts name))))
                   | Some (v, rest) \<Rightarrow>
                       (case set_flag flag v f of
                          (f', None) \<Rightarrow> parse_args formal rest f'
                        | (f', Some _) \<Rightarrow>
                            (f', Some (EOther (''invalid value for flag -'' @ fst (flag_parts name))))))))"
  by pat_completeness auto
termination
  by (relation "measure (\<lambda>(_, args, _). length args)") (auto dest!: flag_value_shorter)

declare parse_args.simps(2) [simp del]

definition flagSet_Parse :: "string list \<Rightarrow> fakeS3Flags \<times> s3error option" where
  "flagSet_Parse args = parse_args attach args default_flags"

definition fsPathFlags :: "fakeS3Flags \<Rightarrow> int" where
  "fsPathFlags f = (if f_fsCreatePaths f then FsPathCreateAll else 0)"

definition directFsPathFlags :: "fakeS3Flags \<Rightarrow> int" where
  "directFsPathFlags f = (if f_directFsCreatePaths f then FsPathCreateAll else 0)"

section \<open>Running the program\<close>

text \<open>
  What \<open>run\<close> uses of the system: the profiler, \<open>time.Parse\<close> with \<open>RFC3339Nano\<close>, \<open>bolt.Open\<close>, the file systems,
  and \<open>net.Listen\<close>. \<open>'w\<close> is the world of the file systems, \<open>'t\<close> the contents of a \<open>bbolt\<close> file.
\<close>

record ('w, 'h, 't) command_env =
  cm_profile :: "string \<Rightarrow> s3error option"
  cm_parseTime :: "string \<Rightarrow> int + string"
  cm_bolt_Open :: "string \<Rightarrow> 'w \<Rightarrow> ('t + string) \<times> 'w"
  cm_os :: "'w os_env"
  cm_afero :: "('w, 'h) afero_pkg"
  cm_codec :: codec
  cm_Listen :: "string \<Rightarrow> s3error option"

text \<open>The method \<open>Error\<close> of the error values.\<close>

definition response_text :: "ErrorResponse \<Rightarrow> string" where
  "response_text r = code_string (er_Code r) @ '': '' @ er_Message r"

fun err_text :: "s3error \<Rightarrow> string" where
  "err_text (ECode c) = code_string c"
| "err_text (EInternalCode _) = code_string ErrInternal"
| "err_text (EResponse r) = response_text r"
| "err_text (EInvalidArgumentResponse r _ _) = response_text r"
| "err_text (EResourceResponse r _) = response_text r"
| "err_text (ESkewedResponse r _ _) = response_text r"
| "err_text (EOther s) = s"

text \<open>\<open>fmt.Errorf(msg + ": %v", err)\<close> around the error of a step\<close>

definition wrap_error :: "string \<Rightarrow> ('s, 'a) act \<Rightarrow> ('s, 'a) act" where
  "wrap_error msg m s =
     (case m s of (Err e, s') \<Rightarrow> (Err (EOther (msg @ '': '' @ err_text e)), s') | r \<Rightarrow> r)"

definition timeOptions :: "('w, 'h, 't) command_env \<Rightarrow> fakeS3Flags \<Rightarrow> (TimeSource option \<times> int) res" where
  "timeOptions env f =
     (if f_fixedTimeStr f \<noteq> '''' then
        (case cm_parseTime env (f_fixedTimeStr f) of
           Inr msg \<Rightarrow> Err (EOther msg)
         | Inl t \<Rightarrow> Ok (Some (FixedTimeSource t), 0))
      else Ok (None, DefaultSkewLimit))"

definition profile :: "('w, 'h, 't) command_env \<Rightarrow> fakeS3Flags \<Rightarrow> unit res" where
  "profile env f =
     (if f_debugCPU f \<noteq> '''' then (case cm_profile env (f_debugCPU f) of Some e \<Rightarrow> Err e | None \<Rightarrow> Ok ())
      else Ok ())"

text \<open>An opened back end: its operations and its state. Only \<open>s3mem\<close> has versions.\<close>

datatype ('om, 't, 'w) opened =
    OpenedMem "'om s3mem Backend" "'om s3mem VersionedBackend" "'om s3mem"
  | OpenedBolt "'t s3bolt Backend" "'t s3bolt"
  | OpenedAfero "'w s3afero Backend" "'w s3afero"

text \<open>\<open>s3bolt.NewFile\<close>; a back end without a time source takes the wall clock.\<close>

definition source_or_default :: "TimeSource option \<Rightarrow> TimeSource" where
  "source_or_default ts = (case ts of None \<Rightarrow> DefaultTimeSource | Some t \<Rightarrow> t)"

definition bolt_NewFile ::
    "('w, 'h, 't) command_env \<Rightarrow> string \<Rightarrow> TimeSource option \<Rightarrow> int \<Rightarrow> ('w, 't s3bolt) act" where
  "bolt_NewFile env file ts wall w =
     (if file = '''' then (Err (EOther ''gofakes3: invalid bolt file name''), w)
      else case cm_bolt_Open env file w of
        (Inr msg, w') \<Rightarrow> (Err (EOther msg), w')
      | (Inl t, w') \<Rightarrow> (Ok \<lparr>sb_bolt = t, sb_now = ts_Now (source_or_default ts) wall\<rparr>, w'))"

definition open_multi ::
    "('w, 'h, 't) command_env \<Rightarrow> fakeS3Flags \<Rightarrow> ('w, ('w, 'h) Fs \<times> ('w, 'h) Fs \<times> ('w, 'h) Fs) act" where
  "open_multi env f =
     act_bind (wrap_error ''gofakes3: could not create -fs.path''
         (FsPath (cm_os env) (cm_afero env) (f_fsPath f) (fsPathFlags f))) (\<lambda>baseFs.
     act_bind (if f_fsMeta f \<noteq> '''' then
                 act_bind (wrap_error ''gofakes3: could not create -fs.meta''
                     (FsPath (cm_os env) (cm_afero env) (f_fsMeta f) (fsPathFlags f)))
                   (\<lambda>metaFs. act_ok [MultiWithMetaFs (Some metaFs)])
               else act_ok []) (\<lambda>options.
     MultiBucket (cm_afero env) (Some baseFs) options))"

definition open_single ::
    "('w, 'h, 't) command_env \<Rightarrow> fakeS3Flags \<Rightarrow> ('w, ('w, 'h) Fs \<times> ('w, 'h) Fs) act" where
  "open_single env f =
     act_bind (wrap_error ''gofakes3: could not create -directfs.path''
         (FsPath (cm_os env) (cm_afero env) (f_directFsPath f) (directFsPathFlags f))) (\<lambda>baseFs.
     act_bind (if f_directFsMeta f \<noteq> '''' then
                 act_bind (wrap_error ''gofakes3: could not create -directfs.meta''
                     (FsPath (cm_os env) (cm_afero env) (f_directFsMeta f) (directFsPathFlags f)))
                   (\<lambda>metaFs. act_ok (Some metaFs))
               else act_ok None) (\<lambda>metaFs.
     act_bind (SingleBucket (cm_afero env) (f_directFsBucket f) (Some baseFs) metaFs [])
       (\<lambda>(fs, meta). act_ok (the fs, meta))))"

text \<open>The switch over \<open>-backend\<close>.\<close>

definition open_backend ::
    "('w, 'h, 't) command_env \<Rightarrow> ('om, 'oi, 'vm, 'vi) s3mem_env \<Rightarrow> ('t, 'c, 'v) s3bolt_env \<Rightarrow>
     fakeS3Flags \<Rightarrow> TimeSource option \<Rightarrow> int \<Rightarrow> ('w, ('om, 't, 'w) opened) act" where
  "open_backend env menv benv f ts wall =
     (if f_backendKind f = '''' then act_err (EOther ''-backend is required'')
      else if f_backendKind f = ''bolt'' then
        act_bind (bolt_NewFile env (f_boltDb f) ts wall) (\<lambda>db. act_ok (OpenedBolt (bolt_backend wall benv) db))
      else if f_backendKind f \<in> {''mem'', ''memory''} then
        act_ok (OpenedMem (mem_backend wall menv) (mem_versioned menv)
          (mem_New (ts_Now (source_or_default ts) wall) None))
      else if f_backendKind f = ''fs'' then
        act_bind (open_multi env f) (\<lambda>(base, bucket, meta) w.
          (Ok (OpenedAfero (multi_backend wall (new_afero_env (cm_codec env) base bucket meta))
                 (newMetaStore w wall)), w))
      else if f_backendKind f = ''directfs'' then
        (if f_initialBucket f \<noteq> '''' then
           act_err (EOther ''gofakes3: -initialbucket not supported by directfs'')
         else if f_autoBucket f then act_err (EOther ''gofakes3: -autobucket not supported by directfs'')
         else
           act_bind (open_single env f) (\<lambda>(fs, meta) w.
             (Ok (OpenedAfero (single_backend wall (f_directFsBucket f) (new_afero_env (cm_codec env) fs fs meta))
                    (newMetaStore w wall)), w)))
      else act_err (EOther (''unknown backend '' @ quoted (f_backendKind f))))"

text \<open>The first bucket; that it exists already is no error.\<close>

definition first_bucket :: "string \<Rightarrow> 's Backend \<Rightarrow> 's \<Rightarrow> 's res" where
  "first_bucket name be db =
     (case be_CreateBucket be name db of
        (Ok _, db') \<Rightarrow> Ok db'
      | (Err e, db') \<Rightarrow>
          if IsAlreadyExists (Some e) then Ok db'
          else Err (EOther (''gofakes3: could not create initial bucket '' @ quoted name @ '': '' @ err_text e))
      | (Panic, _) \<Rightarrow> Panic
      | (NoFuel, _) \<Rightarrow> NoFuel)"

fun initial_bucket :: "string \<Rightarrow> ('om, 't, 'w) opened \<Rightarrow> ('om, 't, 'w) opened res" where
  "initial_bucket name (OpenedMem be vb db) = rbind (first_bucket name be db) (\<lambda>db'. Ok (OpenedMem be vb db'))"
| "initial_bucket name (OpenedBolt be db) = rbind (first_bucket name be db) (\<lambda>db'. Ok (OpenedBolt be db'))"
| "initial_bucket name (OpenedAfero be db) = rbind (first_bucket name be db) (\<lambda>db'. Ok (OpenedAfero be db'))"

text \<open>The options of the server; time source and logger are kept beside it.\<close>

definition server_options :: "fakeS3Flags \<Rightarrow> int \<Rightarrow> ('w gofakes3 \<Rightarrow> 'w gofakes3) list" where
  "server_options f timeSkewLimit =
     [WithIntegrityCheck (\<not> f_noIntegrity f), WithTimeSkewLimit timeSkewLimit,
      WithHostBucket (f_hostBucket f), WithHostBucketBase (f_hostBucketBases f),
      WithAutoBucket (f_autoBucket f)]"

datatype ('um, 'om, 't, 'w) faker =
    MemFaker "('um uploader \<times> 'om s3mem) gofakes3" "'om s3mem"
  | BoltFaker "('um uploader \<times> 't s3bolt) gofakes3" "'t s3bolt"
  | AferoFaker "('um uploader \<times> 'w s3afero) gofakes3" "'w s3afero"

fun new_faker ::
    "('um, 'ui) uploader_env \<Rightarrow> fakeS3Flags \<Rightarrow> int \<Rightarrow> ('om, 't, 'w) opened \<Rightarrow> ('um, 'om, 't, 'w) faker" where
  "new_faker uenv f skew (OpenedMem be vb db) =
     MemFaker (store_server be (Some vb) uenv (server_options f skew)) db"
| "new_faker uenv f skew (OpenedBolt be db) =
     BoltFaker (store_server be None uenv (server_options f skew)) db"
| "new_faker uenv f skew (OpenedAfero be db) =
     AferoFaker (store_server be None uenv (server_options f skew)) db"

text \<open>What serves in the end: the address, the clock and the logger of the server, and the server.\<close>

record ('um, 'om, 't, 'w) serving_program =
  sp_addr :: string
  sp_clock :: TimeSource
  sp_log :: "std_target logger"
  sp_faker :: "('um, 'om, 't, 'w) faker"

definition listenAndServe ::
    "('w, 'h, 't) command_env \<Rightarrow> ('um, 'om, 't, 'w) serving_program \<Rightarrow>
     ('w, ('um, 'om, 't, 'w) serving_program) act" where
  "listenAndServe env sp = (case cm_Listen env (sp_addr sp) of Some e \<Rightarrow> act_err e | None \<Rightarrow> act_ok sp)"

text \<open>
  The debug server, which runs beside the program from its flag \<open>-debug.host\<close> on: its routes, and the panic if it
  cannot listen.
\<close>

definition debug_routes :: "(string \<times> string) list" where
  "debug_routes =
     [(''/debug/vars'', ''expvar''), (''/debug/pprof/'', ''Index''), (''/debug/pprof/cmdline'', ''Cmdline''),
      (''/debug/pprof/profile'', ''Profile''), (''/debug/pprof/symbol'', ''Symbol''), (''/debug/pprof/trace'', ''Trace'')]"

definition debugServer :: "('w, 'h, 't) command_env \<Rightarrow> string \<Rightarrow> (string \<times> string) list res" where
  "debugServer env host = (case cm_Listen env host of Some e \<Rightarrow> Panic | None \<Rightarrow> Ok debug_routes)"

definition run ::
    "('w, 'h, 't) command_env \<Rightarrow> ('om, 'oi, 'vm, 'vi) s3mem_env \<Rightarrow> ('t, 'c, 'v) s3bolt_env \<Rightarrow>
     ('um, 'ui) uploader_env \<Rightarrow> string list \<Rightarrow> int \<Rightarrow> ('w, ('um, 'om, 't, 'w) serving_program) act" where
  "run env menv benv uenv args wall =
     (case flagSet_Parse args of
        (_, Some e) \<Rightarrow> act_err e
      | (f, None) \<Rightarrow>
          act_bind (act_res (profile env f)) (\<lambda>_.
          act_bind (act_res (timeOptions env f)) (\<lambda>(timeSource, timeSkewLimit).
          act_bind (open_backend env menv benv f timeSource wall) (\<lambda>opened.
          act_bind (if f_initialBucket f \<noteq> '''' then act_res (initial_bucket (f_initialBucket f) opened)
                    else act_ok opened) (\<lambda>opened.
          listenAndServe env
            \<lparr>sp_addr = f_host f, sp_clock = source_or_default timeSource,
             sp_log = (if f_quiet f then DiscardLog else GlobalLog []),
             sp_faker = new_faker uenv f timeSkewLimit opened\<rparr>)))))"

end
