(* ===== verification/CommandProperties.thy ===== *)
theory CommandProperties
  imports Command ServerProperties BoltProperties AferoServer
begin

text \<open>
  The properties of the program as it is started: what the flags mean, which server runs in the end and
  what it serves, and where the file systems of \<open>s3afero\<close> lie.
\<close>

section \<open>Flags\<close>

text \<open>The arguments that set every flag, each with its value behind an equals sign.\<close>

definition flag_arg :: "string \<Rightarrow> string \<Rightarrow> string" where
  "flag_arg name v = CHR ''-'' # name @ CHR ''='' # v"

definition bool_text :: "bool \<Rightarrow> string" where
  "bool_text b = (if b then ''true'' else ''false'')"

definition flag_args :: "fakeS3Flags \<Rightarrow> string list" where
  "flag_args f =
     [flag_arg ''host'' (f_host f), flag_arg ''time'' (f_fixedTimeStr f),
      flag_arg ''initialbucket'' (f_initialBucket f), flag_arg ''no-integrity'' (bool_text (f_noIntegrity f)),
      flag_arg ''autobucket'' (bool_text (f_autoBucket f)),
      flag_arg ''hostbucket'' (bool_text (f_hostBucket f)), flag_arg ''quiet'' (bool_text (f_quiet f)),
      flag_arg ''backend'' (f_backendKind f), flag_arg ''bolt.db'' (f_boltDb f),
      flag_arg ''directfs.path'' (f_directFsPath f), flag_arg ''directfs.meta'' (f_directFsMeta f),
      flag_arg ''directfs.bucket'' (f_directFsBucket f),
      flag_arg ''directfs.create'' (bool_text (f_directFsCreatePaths f)),
      flag_arg ''fs.path'' (f_fsPath f), flag_arg ''fs.meta'' (f_fsMeta f),
      flag_arg ''fs.create'' (bool_text (f_fsCreatePaths f)), flag_arg ''debug.host'' (f_debugHost f),
      flag_arg ''debug.cpu'' (f_debugCPU f)] @
     (if f_hostBucketBases f = [] then [] else [flag_arg ''hostbucketbase'' (HostList_String (f_hostBucketBases f))])"

text \<open>Host names as they are kept: without commas, and without white space and dots around them.\<close>

definition clean_host :: "string \<Rightarrow> bool" where
  "clean_host h \<longleftrightarrow> h \<noteq> '''' \<and> CHR '','' \<notin> set h \<and> host_part h = h"

lemma host_parts_clean: "list_all clean_host hs \<Longrightarrow> host_parts vs hs = (vs @ hs, None)"
  by (induction hs arbitrary: vs) (auto simp: clean_host_def)

lemma HostList_roundtrip:
  assumes "hs \<noteq> []" "list_all clean_host hs"
  shows "HostList_Set (HostList_String hs) vs = (vs @ hs, None)"
proof -
  have "split_str (HostList_String hs) '','' = hs"
    using assms by (auto simp: HostList_String_def split_str_single list_all_iff clean_host_def intro!: split_char_join)
  then show ?thesis using host_parts_clean [OF assms(2)] by (simp add: HostList_Set_def)
qed

lemma parse_arg:
  assumes "map_of formal n = Some flag" "n \<noteq> ''''" "hd n \<noteq> CHR ''-''" "CHR ''='' \<notin> set n"
    and "set_flag flag v f = (f', None)"
  shows "parse_args formal (flag_arg n v # args) f = parse_args formal args f'"
proof -
  obtain c n' where n: "n = c # n'" "c \<noteq> CHR ''-''" "c \<noteq> CHR ''=''" using assms(2-4) by (cases n) auto
  have "flag_parts (n @ CHR ''='' # v) = (n, Some v)"
    using assms(4) by (auto simp: flag_parts_def takeWhile_append Let_def)
  then show ?thesis
    using assms(1,5) n by (auto simp: parse_args.simps flag_arg_def flag_value_def)
qed

lemma attach_lookup [simp]:
  "map_of attach ''host'' = Some (StringVar (\<lambda>s. f_host_update (\<lambda>_. s)) '':9000'')"
  "map_of attach ''time'' = Some (StringVar (\<lambda>s. f_fixedTimeStr_update (\<lambda>_. s)) '''')"
  "map_of attach ''initialbucket'' = Some (StringVar (\<lambda>s. f_initialBucket_update (\<lambda>_. s)) '''')"
  "map_of attach ''no-integrity'' = Some (BoolVar (\<lambda>b. f_noIntegrity_update (\<lambda>_. b)) False)"
  "map_of attach ''autobucket'' = Some (BoolVar (\<lambda>b. f_autoBucket_update (\<lambda>_. b)) False)"
  "map_of attach ''hostbucket'' = Some (BoolVar (\<lambda>b. f_hostBucket_update (\<lambda>_. b)) False)"
  "map_of attach ''hostbucketbase'' = Some (ValueVar set_hosts)"
  "map_of attach ''quiet'' = Some (BoolVar (\<lambda>b. f_quiet_update (\<lambda>_. b)) False)"
  "map_of attach ''backend'' = Some (StringVar (\<lambda>s. f_backendKind_update (\<lambda>_. s)) '''')"
  "map_of attach ''bolt.db'' = Some (StringVar (\<lambda>s. f_boltDb_update (\<lambda>_. s)) ''locals3.db'')"
  "map_of attach ''directfs.path'' = Some (StringVar (\<lambda>s. f_directFsPath_update (\<lambda>_. s)) '''')"
  "map_of attach ''directfs.meta'' = Some (StringVar (\<lambda>s. f_directFsMeta_update (\<lambda>_. s)) '''')"
  "map_of attach ''directfs.bucket'' = Some (StringVar (\<lambda>s. f_directFsBucket_update (\<lambda>_. s)) ''mybucket'')"
  "map_of attach ''directfs.create'' = Some (BoolVar (\<lambda>b. f_directFsCreatePaths_update (\<lambda>_. b)) False)"
  "map_of attach ''fs.path'' = Some (StringVar (\<lambda>s. f_fsPath_update (\<lambda>_. s)) '''')"
  "map_of attach ''fs.meta'' = Some (StringVar (\<lambda>s. f_fsMeta_update (\<lambda>_. s)) '''')"
  "map_of attach ''fs.create'' = Some (BoolVar (\<lambda>b. f_fsCreatePaths_update (\<lambda>_. b)) False)"
  "map_of attach ''debug.host'' = Some (StringVar (\<lambda>s. f_debugHost_update (\<lambda>_. s)) '''')"
  "map_of attach ''debug.cpu'' = Some (StringVar (\<lambda>s. f_debugCPU_update (\<lambda>_. s)) '''')"
  "map_of attach ''db'' = Some (StringVar (\<lambda>s. f_boltDb_update (\<lambda>_. s)) ''locals3.db'')"
  "map_of attach ''bucket'' = Some (StringVar (\<lambda>s. f_initialBucket_update (\<lambda>_. s)) '''')"
  by (simp_all add: attach_def)

lemma default_flags_eq:
  "default_flags = zero_flags\<lparr>f_host := '':9000'', f_boltDb := ''locals3.db'', f_directFsBucket := ''mybucket''\<rparr>"
  by (simp add: default_flags_def attach_def zero_flags_def)

lemma ParseBool_text [simp]: "ParseBool (bool_text b) = Some b"
  by (simp add: ParseBool_def bool_text_def)

text \<open>
  C35: round trip of the flags. Whatever values the flags are to have, passing each of them as an argument
  gives exactly these values, if the bases for host names are clean.
\<close>

theorem flags_roundtrip:
  assumes "list_all clean_host (f_hostBucketBases f)"
  shows "flagSet_Parse (flag_args f) = (f, None)"
proof -
  show ?thesis
  proof (cases "f_hostBucketBases f = []")
    case True
    then show ?thesis by (simp add: flagSet_Parse_def flag_args_def parse_arg default_flags_eq zero_flags_def)
  next
    case False
    have h: "HostList_Set (HostList_String (f_hostBucketBases f)) [] = (f_hostBucketBases f, None)"
      using HostList_roundtrip [OF False assms] by simp
    show ?thesis using False
      by (simp add: flagSet_Parse_def flag_args_def parse_arg default_flags_eq zero_flags_def set_hosts_def h)
  qed
qed

lemma flags_roundtrip_witness:
  "flagSet_Parse (flag_args (default_flags\<lparr>f_backendKind := ''memory'', f_quiet := True,
       f_hostBucketBases := [''s3.example.com'', ''localhost'']\<rparr>)) =
     (default_flags\<lparr>f_backendKind := ''memory'', f_quiet := True,
       f_hostBucketBases := [''s3.example.com'', ''localhost'']\<rparr>, None)"
proof -
  have "list_all clean_host [''s3.example.com'', ''localhost'']"
    by (simp add: clean_host_def host_part_def trim_space_def trim_def trim_left_def trim_right_def go_space_def)
  then show ?thesis by (intro flags_roundtrip) simp
qed

section \<open>The program that serves\<close>

text \<open>The settings of the server, whatever its back end.\<close>

definition settings :: "'x gofakes3 \<Rightarrow> bool \<times> int \<times> bool \<times> string list \<times> bool" where
  "settings g =
     (g_integrityCheck g, g_timeSkew g, g_hostBucket g, g_hostBucketBases g, g_autoBucket g)"

fun faker_settings :: "('um, 'om, 't, 'w) faker \<Rightarrow> bool \<times> int \<times> bool \<times> string list \<times> bool" where
  "faker_settings (MemFaker g _) = settings g"
| "faker_settings (BoltFaker g _) = settings g"
| "faker_settings (AferoFaker g _) = settings g"

fun faker_kinds :: "('um, 'om, 't, 'w) faker \<Rightarrow> string set" where
  "faker_kinds (MemFaker _ _) = {''mem'', ''memory''}"
| "faker_kinds (BoltFaker _ _) = {''bolt''}"
| "faker_kinds (AferoFaker _ _) = {''fs'', ''directfs''}"

lemma faker_settings_new:
  "faker_settings (new_faker uenv f skew opened) =
     (\<not> f_noIntegrity f, skew, f_hostBucket f, f_hostBucketBases f, f_autoBucket f)"
  by (cases opened) (simp_all add: settings_def store_server_def New_def server_options_def option_defs)

lemma rbind_Ok_D: "rbind r f = Ok y \<Longrightarrow> \<exists>x. r = Ok x \<and> f x = Ok y"
  by (simp add: rbind_eq_Ok)

lemma initial_kind:
  "initial_bucket b op = Ok op' \<Longrightarrow> faker_kinds (new_faker uenv f skew op') = faker_kinds (new_faker uenv f skew op)"
  by (cases op) (auto simp: rbind_eq_Ok)

lemma open_kind:
  "open_backend env menv benv f ts wall w = (Ok op, w') \<Longrightarrow>
     f_backendKind f \<in> faker_kinds (new_faker uenv f skew op) \<and>
     (f_backendKind f = ''directfs'' \<longrightarrow> f_initialBucket f = '''' \<and> \<not> f_autoBucket f)"
  by (auto simp: open_backend_def act_err_def act_ok_def act_bind_Ok split: if_splits prod.splits)

lemma run_Ok:
  assumes "run env menv benv uenv args wall w = (Ok sp, w')"
  obtains f ts skew op w1 op' where
    "flagSet_Parse args = (f, None)" "profile env f = Ok ()" "timeOptions env f = Ok (ts, skew)"
    "open_backend env menv benv f ts wall w = (Ok op, w1)"
    "if f_initialBucket f \<noteq> '''' then initial_bucket (f_initialBucket f) op = Ok op' else op' = op"
    "sp = \<lparr>sp_addr = f_host f, sp_clock = source_or_default ts,
           sp_log = (if f_quiet f then DiscardLog else GlobalLog []), sp_faker = new_faker uenv f skew op'\<rparr>"
proof -
  obtain f where f: "flagSet_Parse args = (f, None)"
    using assms by (auto simp: run_def act_err_def split: prod.splits option.splits)
  let ?sp = "\<lambda>ts skew op'. \<lparr>sp_addr = f_host f, sp_clock = source_or_default ts,
      sp_log = (if f_quiet f then DiscardLog else GlobalLog []), sp_faker = new_faker uenv f skew op'\<rparr>"
  obtain ts skew op w1 op' w2 where r: "profile env f = Ok ()" "timeOptions env f = Ok (ts, skew)"
      "open_backend env menv benv f ts wall w = (Ok op, w1)"
      "(if f_initialBucket f \<noteq> [] then act_res (initial_bucket (f_initialBucket f) op) else act_ok op) w1 =
        (Ok op', w2)"
      "listenAndServe env (?sp ts skew op') w2 = (Ok sp, w')"
  proof -
    from assms obtain ts skew where t: "profile env f = Ok ()" "timeOptions env f = Ok (ts, skew)"
        "act_bind (open_backend env menv benv f ts wall) (\<lambda>op.
           act_bind (if f_initialBucket f \<noteq> [] then act_res (initial_bucket (f_initialBucket f) op) else act_ok op)
             (\<lambda>op. listenAndServe env (?sp ts skew op))) w = (Ok sp, w')"
      unfolding run_def f prod.case option.case act_bind_Ok [of "act_res r" for r] act_res_def [of "profile env f"]
        act_res_def [of "timeOptions env f"] by fastforce
    from t(3) show thesis unfolding act_bind_Ok using that [OF t(1,2)] by blast
  qed
  from r(4) have "if f_initialBucket f \<noteq> [] then initial_bucket (f_initialBucket f) op = Ok op' else op' = op"
    by (auto simp: act_res_def act_ok_def split: if_splits)
  moreover from r(5) have "sp = ?sp ts skew op'"
    by (auto simp: listenAndServe_def act_ok_def act_err_def split: option.splits)
  ultimately show thesis by (rule that [OF f r(1-3)])
qed

text \<open>
  C23: the server that runs is the one asked for. If the program gets to serve, its flags were well-formed,
  it serves at the address given, over a back end of the kind named, with the integrity check, the
  routing by host name and the creation of buckets as the flags say; with a fixed time its clock shows
  this time for ever and no request is refused for its time, otherwise the clock is that of the
  machine and the limit is the default.
\<close>

theorem run_configures:
  assumes "run env menv benv uenv args wall w = (Ok sp, w')"
  shows "\<exists>f ts skew. flagSet_Parse args = (f, None) \<and> sp_addr sp = f_host f \<and>
    f_backendKind f \<in> faker_kinds (sp_faker sp) \<and>
    faker_settings (sp_faker sp) = (\<not> f_noIntegrity f, skew, f_hostBucket f, f_hostBucketBases f, f_autoBucket f) \<and>
    (if f_fixedTimeStr f = '''' then sp_clock sp = DefaultTimeSource \<and> skew = DefaultSkewLimit
     else cm_parseTime env (f_fixedTimeStr f) = Inl ts \<and> sp_clock sp = FixedTimeSource ts \<and> skew = 0) \<and>
    (f_backendKind f = ''directfs'' \<longrightarrow> f_initialBucket f = '''' \<and> \<not> f_autoBucket f)"
proof -
  obtain f ts skew op w1 op' where r: "flagSet_Parse args = (f, None)" "timeOptions env f = Ok (ts, skew)"
    "open_backend env menv benv f ts wall w = (Ok op, w1)"
    "if f_initialBucket f \<noteq> '''' then initial_bucket (f_initialBucket f) op = Ok op' else op' = op"
    "sp = \<lparr>sp_addr = f_host f, sp_clock = source_or_default ts,
           sp_log = (if f_quiet f then DiscardLog else GlobalLog []), sp_faker = new_faker uenv f skew op'\<rparr>"
    by (rule run_Ok [OF assms])
  have k: "faker_kinds (sp_faker sp) = faker_kinds (new_faker uenv f skew op)"
    using r(4) initial_kind [of "f_initialBucket f" op op' uenv f skew] by (simp add: r(5) split: if_splits)
  show ?thesis
    using r(1,2) open_kind [OF r(3), of uenv skew] k
    by (auto simp: r(5) faker_settings_new timeOptions_def source_or_default_def split: if_splits sum.splits)
qed

definition demo_world :: mem_world where
  "demo_world = \<lparr>mw_base = [], mw_bucket = [], mw_meta = [], mw_clock = 0\<rparr>"

definition demo_command_env :: "(mem_world, string, alist_db) command_env" where
  "demo_command_env =
     \<lparr>cm_profile = (\<lambda>_. None), cm_parseTime = (\<lambda>_. Inr ''parsing time''),
      cm_bolt_Open = (\<lambda>_ w. (Inl [], w)),
      cm_os = \<lparr>os_Getwd = (\<lambda>_. Inl ''/''),
        os_Stat = (\<lambda>p _. Inl \<lparr>fi_Name = p, fi_Size = 0, fi_ModTime = 0, fi_IsDir = True\<rparr>),
        os_Mkdir = (\<lambda>_. f_ok ()), os_MkdirAll = (\<lambda>_. f_ok ())\<rparr>,
      cm_afero = \<lparr>ap_OsFs = base_fs, ap_BasePathFs = (\<lambda>_ p. if p = ''buckets'' then bucket_fs else base_fs),
        ap_NewMemMapFs = (\<lambda>w. (meta_fs, w))\<rparr>,
      cm_codec = \<lparr>cd_Marshal = demo_marshal, cd_Unmarshal = demo_unmarshal, cd_md5 = (\<lambda>bs. CHR 0x6D # bs)\<rparr>,
      cm_Listen = (\<lambda>_. None)\<rparr>"

lemma run_configures_witness:
  "\<exists>sp. run demo_command_env demo_env demo_bolt_env demo_uploader [''-backend=bolt'', ''-autobucket''] 0 demo_world =
       (Ok sp, demo_world) \<and>
     sp_addr sp = '':9000'' \<and> faker_settings (sp_faker sp) = (True, DefaultSkewLimit, False, [], True)"
proof -
  let ?args = "[''-backend=bolt'', ''-autobucket'']"
  have f: "flagSet_Parse ?args = (default_flags\<lparr>f_backendKind := ''bolt'', f_autoBucket := True\<rparr>, None)"
    by (simp add: flagSet_Parse_def parse_args.simps flag_parts_def flag_value_def ParseBool_def)
  have "is_ok (fst (run demo_command_env demo_env demo_bolt_env demo_uploader ?args 0 demo_world))"
    by (simp add: run_def f default_flags_eq zero_flags_def profile_def timeOptions_def open_backend_def
        bolt_NewFile_def listenAndServe_def demo_command_env_def act_defs is_ok_def)
  then obtain sp w' where r: "run demo_command_env demo_env demo_bolt_env demo_uploader ?args 0 demo_world = (Ok sp, w')"
    by (cases "run demo_command_env demo_env demo_bolt_env demo_uploader ?args 0 demo_world")
      (auto simp: is_ok_def split: res.splits)
  then have "w' = demo_world"
    by (auto simp: run_def f default_flags_eq zero_flags_def profile_def timeOptions_def open_backend_def
        bolt_NewFile_def listenAndServe_def demo_command_env_def act_defs)
  then show ?thesis
    using run_configures [OF r] r by (auto simp: f default_flags_eq zero_flags_def)
qed

section \<open>Serving from memory\<close>

text \<open>The arguments \<open>-backend memory -initialbucket b\<close>\<close>

definition memory_args :: "string \<Rightarrow> string list" where
  "memory_args b = [''-backend'', ''memory'', ''-initialbucket'', b]"

lemma parse_memory_args:
  "flagSet_Parse (memory_args b) = (default_flags\<lparr>f_backendKind := ''memory'', f_initialBucket := b\<rparr>, None)"
  by (simp add: flagSet_Parse_def memory_args_def parse_args.simps flag_parts_def flag_value_def)

lemma run_memory:
  assumes "b \<noteq> ''''" "cm_Listen env '':9000'' = None"
  shows "\<exists>db sp. run env menv benv uenv (memory_args b) wall w = (Ok sp, w) \<and>
    sp_addr sp = '':9000'' \<and> sp_faker sp = MemFaker (mem_server wall menv uenv) db \<and>
    (\<forall>b'. mem_bucket db b' = (if b' = b then Some (newBucket menv b wall) else None)) \<and> mem_count db = 0"
proof -
  let ?f = "default_flags\<lparr>f_backendKind := ''memory'', f_initialBucket := b\<rparr>"
  define db where "db = mem_set_bucket (mem_New wall None) b (newBucket menv b wall)"
  have f: "f_fixedTimeStr ?f = ''''" "f_debugCPU ?f = ''''" "f_host ?f = '':9000''"
      "f_initialBucket ?f = b" "f_backendKind ?f = ''memory''"
    by (simp_all add: default_flags_eq zero_flags_def)
  have n: "mem_bucket (mem_New wall None) b = None" "db_now (mem_New wall None) = wall" for b
    by (simp_all add: mem_New_def mem_bucket_def)
  have c: "first_bucket b (mem_backend wall menv) (mem_New wall None) = Ok db"
    by (simp add: first_bucket_def mem_backend_def mem_CreateBucket_def n db_def Let_def)
  have g: "store_server (mem_backend wall menv) (Some (mem_versioned menv)) uenv
      (server_options ?f DefaultSkewLimit) = mem_server wall menv uenv"
    by (simp add: mem_server_def store_server_def New_def server_options_def option_defs default_flags_eq
        zero_flags_def)
  have "mem_bucket db b' = (if b' = b then Some (newBucket menv b wall) else None)" for b'
    by (simp add: db_def n)
  moreover have "mem_count db = 0"
    by (simp add: db_def mem_count_def mem_New_def newVersionGenerator_def source_count_def)
  moreover have "\<exists>sp. run env menv benv uenv (memory_args b) wall w = (Ok sp, w) \<and>
      sp_addr sp = '':9000'' \<and> sp_faker sp = MemFaker (mem_server wall menv uenv) db"
    using assms
    by (simp add: run_def parse_memory_args profile_def timeOptions_def open_backend_def f c g act_defs
        source_or_default_def DefaultTimeSource_def listenAndServe_def)
  ultimately show ?thesis by auto
qed

text \<open>
  C16: from the command line to the object. The program started with \<open>-backend memory -initialbucket b\<close> serves
  at the default address, for any name \<open>b\<close> but the empty one, be it legal or not; its one bucket \<open>b\<close> is empty.
  A PUT of an object into it then answers 200 with the quoted MD5 of the body as ETag, and a GET of the
  same path answers 200 with exactly this body.
\<close>

theorem run_put_then_get:
  assumes "s3mem_laws menv oentries oview ventries vview" "b \<noteq> ''''" "cm_Listen env '':9000'' = None"
    and "g = mem_server wall menv uenv"
    and "object_request ''PUT'' b k put" "plain_put senv g now put body meta"
    and "object_request ''GET'' b k get" "plain_get senv get"
    and "length k \<le> KeySizeLimit" "int (length body) \<le> max_int64" "se_md5 senv = env_md5 menv"
    and "\<not> too_skewed senv g now put" "\<not> too_skewed senv g now' get"
  shows "\<exists>sp db. run env menv benv uenv (memory_args b) wall w = (Ok sp, w) \<and>
    sp_addr sp = '':9000'' \<and> sp_faker sp = MemFaker g db \<and>
    (\<forall>b'. mem_bucket db b' = (if b' = b then Some (newBucket menv b wall) else None)) \<and>
    (\<exists>w1 sv1 w2 sv2.
      Server senv g now put new_response \<lparr>sv_requestID = 0, sv_world = (newUploader wall, db)\<rparr> = ((Ok (), w1), sv1) \<and>
      rw_status w1 = 200 \<and> header_get (rw_sent_header w1) ''ETag'' = quoted (hex_encode (se_md5 senv body)) \<and>
      Server senv g now' get new_response sv1 = ((Ok (), w2), sv2) \<and>
      rw_status w2 = 200 \<and> rw_body w2 = (if body = [] then [] else [Raw body]))"
proof -
  obtain db sp where r: "run env menv benv uenv (memory_args b) wall w = (Ok sp, w)" "sp_addr sp = '':9000''"
      "sp_faker sp = MemFaker g db"
      "\<forall>b'. mem_bucket db b' = (if b' = b then Some (newBucket menv b wall) else None)"
    using run_memory [OF assms(2,3), of menv benv uenv wall w] by (auto simp: assms(4))
  have b: "mem_has_bucket db b" "mem_accepts menv db b k body meta"
    using r(4) assms(10) by (simp_all add: mem_has_bucket_def mem_accepts_def s3mem_laws.object_new [OF assms(1)])
  obtain r1 w1 sv1 where 1: "Server senv g now put new_response
      \<lparr>sv_requestID = 0, sv_world = (newUploader wall, db)\<rparr> = ((r1, w1), sv1)" by (metis prod.collapse)
  obtain r2 w2 sv2 where 2: "Server senv g now' get new_response sv1 = ((r2, w2), sv2)" by (metis prod.collapse)
  note h = s3mem_laws.http_put_get [OF assms(1) b assms(5) assms(6) [unfolded assms(4)] assms(7-9) assms(11)
      assms(12,13) [unfolded assms(4)] 1 [unfolded assms(4)] 2 [unfolded assms(4)]]
  show ?thesis using r 1 2 h by blast
qed

lemma run_put_then_get_witness:
  "\<exists>sp db w1 sv1 w2 sv2.
     run demo_command_env demo_env demo_bolt_env demo_uploader (memory_args ''b'') 0 demo_world = (Ok sp, demo_world) \<and>
     ValidateBucketName ''b'' \<noteq> None \<and> sp_faker sp = MemFaker demo_server db \<and>
     Server demo_senv demo_server 0 demo_put new_response
       \<lparr>sv_requestID = 0, sv_world = (newUploader 0, db)\<rparr> = ((Ok (), w1), sv1) \<and>
     Server demo_senv demo_server 0 demo_get new_response sv1 = ((Ok (), w2), sv2) \<and>
     rw_status w2 = 200 \<and> rw_body w2 = [Raw ''hello'']"
proof -
  have e: "cm_Listen demo_command_env '':9000'' = None" "se_md5 demo_senv = env_md5 demo_env"
    by (simp_all add: demo_command_env_def demo_senv_def)
  have v: "ValidateBucketName ''b'' \<noteq> None" by (simp add: ValidateBucketName_def)
  have s: "length ''k'' \<le> KeySizeLimit" "int (length ''hello'') \<le> max_int64"
    by (simp_all add: KeySizeLimit_def max_int64_def)
  note l = run_put_then_get [OF demo_laws _ e(1) demo_server_def demo_requests(1,4,2,3) s e(2) demo_requests(5,6),
      of demo_bolt_env demo_world]
  then show ?thesis using v by auto
qed

section \<open>File systems\<close>

text \<open>A file system that is the directory \<open>path\<close> of the machine, made absolute.\<close>

definition rooted_at :: "('w, 'h, 't) command_env \<Rightarrow> string \<Rightarrow> 'w \<Rightarrow> ('w, 'h) Fs \<Rightarrow> bool" where
  "rooted_at env path w fs \<longleftrightarrow> path \<noteq> '''' \<and>
     (\<exists>p. filepath_Abs (cm_os env) path w = Inl p \<and> fs = Fs (ap_BasePathFs (cm_afero env) (ap_OsFs (cm_afero env)) p))"

definition subdirectory :: "('w, 'h, 't) command_env \<Rightarrow> ('w, 'h) Fs \<Rightarrow> string \<Rightarrow> ('w, 'h) Fs" where
  "subdirectory env fs d = Fs (ap_BasePathFs (cm_afero env) (fs_ops fs) d)"

lemma FsPath_Ok:
  "FsPath (cm_os env) (cm_afero env) path flags w = (Ok fs, w') \<Longrightarrow> rooted_at env path w fs"
  by (auto simp: FsPath_def rooted_at_def act_bind_Ok act_err_def act_ok_def Let_def split: if_splits sum.splits)

lemma wrap_error_Ok [simp]: "wrap_error msg m s = (Ok x, s') \<longleftrightarrow> m s = (Ok x, s')"
  by (auto simp: wrap_error_def split: prod.splits res.splits)

lemma NewBasePathFs_Ok:
  "NewBasePathFs pkg (Some fs) d flags w = (Ok sub, w') \<Longrightarrow> sub = Fs (ap_BasePathFs pkg (fs_ops fs) d)"
  by (auto simp: NewBasePathFs_def split: if_splits sum.splits prod.splits)

lemma rooted_no_os: "rooted_at env path w fs \<Longrightarrow> ensureNoOsFs name (Some fs) = Ok ()"
  by (auto simp: rooted_at_def ensureNoOsFs_def)

lemma MultiBucket_Ok:
  assumes "MultiBucket pkg (Some fs) opts w = (Ok (base, bucket, meta), w')"
  obtains cfg where "apply_options opts \<lparr>mc_metaFs = None, mc_flags = 0\<rparr> = Ok cfg" "base = fs"
    "bucket = Fs (ap_BasePathFs pkg (fs_ops fs) ''buckets'')"
    "meta = (case mc_metaFs cfg of Some m \<Rightarrow> m | None \<Rightarrow> Fs (ap_BasePathFs pkg (fs_ops fs) ''metadata''))"
  using assms
  by (auto simp: MultiBucket_def act_bind_Ok act_res_def act_ok_def dest!: NewBasePathFs_Ok split: option.splits)

text \<open>
  Where the objects of \<open>-backend fs\<close> lie. If \<open>fs\<close> opens, the file system of the buckets is the directory
  \<open>buckets\<close> of \<open>-fs.path\<close>, and that of the metadata \<open>-fs.meta\<close> or else the directory \<open>metadata\<close> of \<open>-fs.path\<close>;
  both are rooted at the absolute paths of these flags, so that the back end never gets the file system
  of the machine itself.
\<close>

theorem fs_layout:
  assumes "open_multi env f w = (Ok (base, bucket, meta), w')"
  shows "rooted_at env (f_fsPath f) w base \<and> bucket = subdirectory env base ''buckets'' \<and>
    (if f_fsMeta f = '''' then meta = subdirectory env base ''metadata''
     else \<exists>w1. rooted_at env (f_fsMeta f) w1 meta)"
proof (cases "f_fsMeta f = ''''")
  case True
  then obtain b w1 where o: "FsPath (cm_os env) (cm_afero env) (f_fsPath f) (fsPathFlags f) w = (Ok b, w1)"
      "MultiBucket (cm_afero env) (Some b) [] w1 = (Ok (base, bucket, meta), w')"
    using assms by (auto simp: open_multi_def act_bind_Ok act_ok_def)
  from o(2) show ?thesis
    by (rule MultiBucket_Ok) (use FsPath_Ok [OF o(1)] True in \<open>auto simp: subdirectory_def\<close>)
next
  case False
  then obtain b w1 m w2 where o: "FsPath (cm_os env) (cm_afero env) (f_fsPath f) (fsPathFlags f) w = (Ok b, w1)"
      "FsPath (cm_os env) (cm_afero env) (f_fsMeta f) (fsPathFlags f) w1 = (Ok m, w2)"
      "MultiBucket (cm_afero env) (Some b) [MultiWithMetaFs (Some m)] w2 = (Ok (base, bucket, meta), w')"
    using assms by (auto simp: open_multi_def act_bind_Ok act_ok_def)
  have "apply_options [MultiWithMetaFs (Some m)] \<lparr>mc_metaFs = None, mc_flags = 0\<rparr> =
      Ok \<lparr>mc_metaFs = Some m, mc_flags = 0\<rparr>"
    using rooted_no_os [OF FsPath_Ok [OF o(2)]] by (simp add: MultiWithMetaFs_def)
  with o(3) show ?thesis
    by (elim MultiBucket_Ok) (use FsPath_Ok [OF o(1)] FsPath_Ok [OF o(2)] False in \<open>auto simp: subdirectory_def\<close>)
qed

lemma fs_layout_witness:
  "\<exists>base bucket meta w'.
     open_multi demo_command_env (default_flags\<lparr>f_fsPath := ''data''\<rparr>) demo_world = (Ok (base, bucket, meta), w') \<and>
     bucket = subdirectory demo_command_env base ''buckets''"
proof -
  let ?f = "default_flags\<lparr>f_fsPath := ''data''\<rparr>"
  have "is_ok (fst (open_multi demo_command_env ?f demo_world))" by code_simp
  then obtain base bucket meta w' where o: "open_multi demo_command_env ?f demo_world = (Ok (base, bucket, meta), w')"
    by (cases "open_multi demo_command_env ?f demo_world") (auto simp: is_ok_def split: res.splits)
  from fs_layout [OF o] o show ?thesis by blast
qed

lemma split_absolute: "1 < length (split_str (''/'' @ p) ''/'')"
  using split_char_not_Nil [of slash p] by (cases "split_char slash p") (simp_all add: split_str_single)

text \<open>
  The root of the machine is accepted. The check of \<open>FsPath\<close> that is to keep the back ends away from the
  root counts the parts of an absolute path, which are at least two even for the root: for every
  existing directory, the root included, \<open>FsPath\<close> succeeds.
\<close>

theorem fspath_accepts_root:
  assumes "\<And>wd. os_Getwd os w = Inl wd \<Longrightarrow> has_prefix wd ''/''"
    and "path \<noteq> ''''" "filepath_Abs os path w = Inl p" "os_Stat os p w = Inl st" "fi_IsDir st"
  shows "FsPath os pkg path flags w = (Ok (Fs (ap_BasePathFs pkg (ap_OsFs pkg) p)), w)"
proof -
  have "has_prefix p ''/''"
  proof (cases "has_prefix path ''/''")
    case True
    then show ?thesis using assms(3) by (auto simp: filepath_Abs_def path_Clean_def Let_def)
  next
    case False
    then obtain wd where wd: "os_Getwd os w = Inl wd" "p = path_Join [wd, path]"
      using assms(3) by (auto simp: filepath_Abs_def split: sum.splits)
    then obtain r where "wd = ''/'' @ r" using assms(1) by (auto simp: has_prefix_iff)
    then show ?thesis using wd(2) assms(2) by (auto simp: path_Join_def path_Clean_def Let_def)
  qed
  then obtain q where "p = ''/'' @ q" by (auto simp: has_prefix_iff)
  then show ?thesis
    using assms split_absolute [of q] by (simp add: FsPath_def ensure_dir_def act_defs)
qed

lemma fspath_accepts_root_witness:
  "FsPath (cm_os demo_command_env) (cm_afero demo_command_env) ''/'' FsPathCreateAll demo_world =
     (Ok (Fs (ap_BasePathFs (cm_afero demo_command_env) (ap_OsFs (cm_afero demo_command_env)) ''/'')), demo_world)"
  by (rule fspath_accepts_root) (auto simp: demo_command_env_def filepath_Abs_def path_Clean_def)

end
