(* ===== verification/ServerSteps.thy ===== *)
theory ServerSteps
  imports StoreServer
begin

text \<open>
  What requests do to the state behind a server. If the operations of the back end that add or read are steps
  of a relation, so is every request that neither deletes nor sets the versioning of a bucket (locale
  \<open>adding_backend\<close>); if all operations are, so is every request (locale \<open>stepping_backend\<close>). For a server
  over the uploader of the package it is enough to look at the operations of the back end
  (locales \<open>adding_server\<close> and \<open>stepping_server\<close>).
\<close>

section \<open>Requests\<close>

text \<open>Requests that delete nothing and leave the versioning of buckets alone.\<close>

definition adds_only :: "request \<Rightarrow> bool" where
  "adds_only rq \<longleftrightarrow> rq_Method rq \<noteq> ''DELETE'' \<and>
     \<not> (rq_Method rq = ''POST'' \<and> vals_has (rq_Query rq) ''delete'') \<and>
     \<not> (rq_Method rq = ''PUT'' \<and> vals_has (rq_Query rq) ''versioning'')"

locale adding_backend = step_relation R for R :: "'w \<Rightarrow> 'w \<Rightarrow> bool" +
  fixes g :: "'w gofakes3"
  assumes storage_adds:
      "R w (snd (be_ListBuckets (g_storage g) w))" "R w (snd (be_ListBucket (g_storage g) b p page w))"
      "R w (snd (be_CreateBucket (g_storage g) b w))" "R w (snd (be_BucketExists (g_storage g) b w))"
      "R w (snd (be_GetObject (g_storage g) b k rng w))" "R w (snd (be_HeadObject (g_storage g) b k w))"
      "R w (snd (be_PutObject (g_storage g) b k m i sz w))"
      "R w (snd (be_CopyObject (g_storage g) b k b' k' m w))"
    and versioned_adds:
      "g_versioned g = Some v \<Longrightarrow> R w (snd (vb_VersioningConfiguration v b w))"
      "g_versioned g = Some v \<Longrightarrow> R w (snd (vb_GetObjectVersion v b k vid rng w))"
      "g_versioned g = Some v \<Longrightarrow> R w (snd (vb_ListBucketVersions v b p' page' w))"
    and uploader_adds:
      "R w (snd (mp_CreateMultipartUpload (g_uploader g) b k m w))"
      "R w (snd (mp_UploadPart (g_uploader g) b k ident n len i w))"
      "R w (snd (mp_ListMultipartUploads (g_uploader g) b mk q l w))"
      "R w (snd (mp_ListParts (g_uploader g) b k ident n l w))"
      "R w (snd (mp_AbortMultipartUpload (g_uploader g) b k ident w))"
      "R w (snd (mp_CompleteMultipartUpload (g_uploader g) b k ident parts w))"
begin

lemmas calls_add = storage_adds versioned_adds uploader_adds

lemma within_calls [within_intros]:
  "within R (on_world (be_ListBuckets (g_storage g)))" "within R (on_world (be_CreateBucket (g_storage g) b))"
  "within R (on_world (be_HeadObject (g_storage g) b k))"
  "within R (on_world (be_PutObject (g_storage g) b k m i sz))"
  "within R (on_world (be_CopyObject (g_storage g) b k b' k' m))"
  "g_versioned g = Some v \<Longrightarrow> within R (on_world (vb_VersioningConfiguration v b))"
  "g_versioned g = Some v \<Longrightarrow> within R (on_world (vb_ListBucketVersions v b p' page'))"
  "within R (on_world (mp_CreateMultipartUpload (g_uploader g) b k m))"
  "within R (on_world (mp_UploadPart (g_uploader g) b k ident n len i))"
  "within R (on_world (mp_ListMultipartUploads (g_uploader g) b mk q l))"
  "within R (on_world (mp_ListParts (g_uploader g) b k ident n l))"
  "within R (on_world (mp_AbortMultipartUpload (g_uploader g) b k ident))"
  "within R (on_world (mp_CompleteMultipartUpload (g_uploader g) b k ident parts))"
  by (intro within_on_world calls_add; assumption)+

lemma within_ensure [within_intros]: "within R (on_world (ensureBucketExists g b))"
proof (rule within_on_world)
  fix w
  have "R t (snd (case be_CreateBucket (g_storage g) b t of
      (Err _, w') \<Rightarrow> (Err (ResourceError ErrNoSuchBucket b), w') | res \<Rightarrow> res))" for t
    using storage_adds(3) [of t b] by (auto split: prod.splits res.splits)
  then show "R w (snd (ensureBucketExists g b w))"
    unfolding ensureBucketExists_def
    by (intro step_bind storage_adds) (simp add: act_err_def act_ok_def step_refl)
qed

lemma within_get [within_intros]: "within R (on_world (get_from_backend g b k vid rng))"
  by (rule within_on_world)
    (auto simp: get_from_backend_def act_err_def calls_add step_refl split: option.splits)

lemma within_list [within_intros]: "within R (on_world (list_objects g b p page))"
proof (rule within_on_world)
  fix w
  obtain r t where l: "be_ListBucket (g_storage g) b (Some p) page w = (r, t)" by fastforce
  then have "R w t" using storage_adds(2) [of w b "Some p" page] by simp
  with l show "R w (snd (list_objects g b p page w))"
    using storage_adds(2) [of t b "Some p" emptyBucketPage] step_trans
    by (cases r) (auto simp: list_objects_def)
qed

lemma within_store [within_intros]: "within R (store_object env g b k m e i sz)"
  unfolding store_object_def by (intro within_intros)

lemma within_copy [within_intros]: "within R (copyObject env g b k m)"
  unfolding copyObject_def by (auto intro!: within_intros split: prod.splits)

lemma within_create [within_intros]: "within R (createObject env g now b k rq)"
  unfolding createObject_def by (auto intro!: within_intros split: option.splits prod.splits)

lemma within_browser [within_intros]: "within R (createObjectBrowserUpload env g now b rq)"
  unfolding createObjectBrowserUpload_def
  by (auto intro!: within_intros split: option.splits list.splits)

lemma within_complete [within_intros]: "within R (completeMultipartUpload env g b k ident rq)"
  unfolding completeMultipartUpload_def by (auto intro!: within_intros split: prod.splits)

lemma within_adding_handlers [within_intros]:
  "within R (getObject env g b k vid rq)" "within R (headObject env g b k vid rq)"
  "within R (getBucketLocation g b)" "within R (listBucket env g b rq)" "within R (headBucket g b)"
  "within R (listMultipartUploads g b rq)" "within R (getBucketVersioning g b)"
  "within R (listBucketVersions g b rq)" "within R (listMultipartUploadParts g b k ident rq)"
  "within R (listBuckets g)" "within R (createBucket g b)"
  "within R (initiateMultipartUpload env g now b k rq)"
  "within R (putMultipartUploadPart env g b k ident rq)" "within R (abortMultipartUpload g b k ident)"
  unfolding getObject_def headObject_def getBucketLocation_def listBucket_def headBucket_def
    listMultipartUploads_def getBucketVersioning_def listBucketVersions_def listMultipartUploadParts_def
    listBuckets_def copy_contents_def Let_def createBucket_def initiateMultipartUpload_def
    putMultipartUploadPart_def abortMultipartUpload_def
  by (auto intro!: within_intros split: option.splits)

lemma within_uploads:
  "within R (routeMultipartUploadBase env g now b k rq)" "within R (routeVersions g b rq)"
  "within R (routeMultipartUpload env g b k ident rq)"
  unfolding routeMultipartUploadBase_def routeVersions_def routeMultipartUpload_def methodNotAllowed_def
  by (auto intro!: within_intros)

lemma within_adding_routes:
  assumes "adds_only rq"
  shows "within R (routeObject env g now b k rq)" "within R (routeBucket env g now b rq)"
    "within R (routeVersion env g b k vid rq)"
    "vals_has (rq_Query rq) ''versioning'' \<Longrightarrow> within R (routeVersioning env g b rq)"
  using assms
  unfolding routeObject_def routeBucket_def routeVersioning_def routeVersion_def methodNotAllowed_def adds_only_def
  by (auto intro!: within_intros)

lemma within_adding_dispatch: "adds_only rq \<Longrightarrow> dispatch env g now rq = Some h \<Longrightarrow> within R h"
  using within_uploads within_adding_routes within_adding_handlers(10) unfolding dispatch_def Let_def
  by (auto split: prod.splits if_splits)

text \<open>Every request that only adds is a step.\<close>

lemma adding_request_steps:
  assumes "adds_only rq"
  shows "R (sv_world sv) (sv_world (snd (Server env g now rq w sv)))"
proof (rule step_Server)
  fix rq' h
  assume "rq_Method rq' = rq_Method rq" "rq_Query rq' = rq_Query rq" "dispatch env g now rq' = Some h"
  then show "within R h"
    using within_adding_dispatch [of rq'] assms unfolding adds_only_def by metis
qed

end

text \<open>The other operations of a back end delete or set the versioning of a bucket.\<close>

locale stepping_backend = adding_backend R g for R :: "'w \<Rightarrow> 'w \<Rightarrow> bool" and g :: "'w gofakes3" +
  assumes storage_steps:
      "R w (snd (be_DeleteBucket (g_storage g) b w))" "R w (snd (be_ForceDeleteBucket (g_storage g) b w))"
      "R w (snd (be_DeleteObject (g_storage g) b k w))" "R w (snd (be_DeleteMulti (g_storage g) b ks w))"
    and versioned_steps:
      "g_versioned g = Some v \<Longrightarrow> R w (snd (vb_SetVersioningConfiguration v b cfg w))"
      "g_versioned g = Some v \<Longrightarrow> R w (snd (vb_DeleteObjectVersion v b k vid w))"
      "g_versioned g = Some v \<Longrightarrow> R w (snd (vb_DeleteMultiVersions v b oids w))"
begin

lemma within_deletions [within_intros]:
  "within R (on_world (be_DeleteBucket (g_storage g) b))" "within R (on_world (be_ForceDeleteBucket (g_storage g) b))"
  "within R (on_world (be_DeleteObject (g_storage g) b k))" "within R (on_world (be_DeleteMulti (g_storage g) b ks))"
  "g_versioned g = Some v \<Longrightarrow> within R (on_world (vb_SetVersioningConfiguration v b cfg))"
  "g_versioned g = Some v \<Longrightarrow> within R (on_world (vb_DeleteObjectVersion v b k vid))"
  "g_versioned g = Some v \<Longrightarrow> within R (on_world (vb_DeleteMultiVersions v b oids))"
  by (intro within_on_world storage_steps versioned_steps; assumption)+

lemma within_delete_result [within_intros]: "within R (write_delete_result x)"
  unfolding write_delete_result_def by (intro within_intros)

lemma within_routes:
  "within R (routeObject env g now b k rq)" "within R (routeBucket env g now b rq)"
  "within R (routeVersioning env g b rq)" "within R (routeVersion env g b k vid rq)"
  unfolding routeObject_def routeBucket_def routeVersioning_def routeVersion_def methodNotAllowed_def
    deleteBucket_def deleteMulti_def putBucketVersioning_def deleteObject_def deleteObjectVersion_def
  by (auto intro!: within_intros split: sum.splits option.splits)

lemma within_dispatch: "dispatch env g now rq = Some h \<Longrightarrow> within R h"
  using within_uploads within_routes within_adding_handlers(10) unfolding dispatch_def Let_def
  by (auto split: prod.splits if_splits)

lemma request_steps: "R (sv_world sv) (sv_world (snd (Server env g now rq w sv)))"
  using step_Server within_dispatch by blast

end

section \<open>Back ends and the uploader\<close>

text \<open>
  \<open>CopyObject\<close> is a composition of a get and a put in every back end of the repository, so nothing is
  asked of it beyond this.
\<close>

locale adding_store = step_relation S for S :: "'s \<Rightarrow> 's \<Rightarrow> bool" +
  fixes be :: "'s Backend" and vb :: "'s VersionedBackend option"
  assumes be_adds:
      "S s (snd (be_ListBuckets be s))" "S s (snd (be_ListBucket be b p page s))"
      "S s (snd (be_CreateBucket be b s))" "S s (snd (be_BucketExists be b s))"
      "S s (snd (be_GetObject be b k rng s))" "S s (snd (be_HeadObject be b k s))"
      "S s (snd (be_PutObject be b k m i sz s))"
    and be_copy: "\<exists>now. be_CopyObject be = CopyObject now be"
    and vb_adds:
      "vb = Some v \<Longrightarrow> S s (snd (vb_VersioningConfiguration v b s))"
      "vb = Some v \<Longrightarrow> S s (snd (vb_GetObjectVersion v b k vid rng s))"
      "vb = Some v \<Longrightarrow> S s (snd (vb_ListBucketVersions v b p' page' s))"
begin

text \<open>Steps of the uploader and of the back end; a step of the back end may be one for the uploader, too.\<close>

definition both_steps :: "('um, 'ui) uploader_env \<Rightarrow> 'um uploader \<times> 's \<Rightarrow> 'um uploader \<times> 's \<Rightarrow> bool" where
  "both_steps uenv us us' \<longleftrightarrow> (ul_step uenv be)\<^sup>*\<^sup>* us us' \<and> S (snd us) (snd us')"

lemma both_steps_trans: "both_steps uenv u v \<Longrightarrow> both_steps uenv v w \<Longrightarrow> both_steps uenv u w"
  using step_trans by (auto simp: both_steps_def)

lemma storage_step: "S (snd us) (snd (m (snd us))) \<Longrightarrow> both_steps uenv us (snd (on_storage m us))"
  using ul_step_storage [of uenv be "fst us" "snd us" "snd (m (snd us))"]
  by (cases us) (auto simp: both_steps_def on_storage_eq)

lemma uploader_step:
  "ul_step uenv be us (snd (m (fst us)), snd us) \<Longrightarrow> both_steps uenv us (snd (on_uploader m us))"
  by (auto simp: both_steps_def on_uploader_def step_refl split: prod.splits)

lemma copy_step: "S s (snd (be_CopyObject be b k b' k' m s))"
  using be_copy by (auto simp: CopyObject_def act_ok_def intro!: step_bind be_adds step_refl)

lemma complete_step: "S (snd us) (snd (snd (ul_CompleteMultipartUpload uenv be b k ident parts us)))"
  using be_adds(7)
  by (auto simp: ul_CompleteMultipartUpload_def step_refl split: prod.splits res.splits) (metis snd_conv)+

end

locale adding_server = adding_store S be vb
  for S :: "'s \<Rightarrow> 's \<Rightarrow> bool" and be :: "'s Backend" and vb :: "'s VersionedBackend option" +
  fixes uenv :: "('um, 'ui) uploader_env" and g :: "('um uploader \<times> 's) gofakes3"
  assumes storage: "g_storage g = lift_backend be"
    and versioned: "g_versioned g = map_option lift_versioned vb"
    and uploader: "g_uploader g = uploader_backend uenv be"
begin

lemma upload_steps:
  "both_steps uenv us (snd (on_uploader (ul_CreateMultipartUpload uenv b k m) us))"
  "both_steps uenv us (snd (on_uploader (ul_UploadPart uenv b k ident n len i) us))"
  "both_steps uenv us (snd (on_uploader (ul_AbortMultipartUpload uenv b k ident) us))"
  by (cases us, simp add: uploader_step ul_step_create ul_step_part ul_step_abort)+

lemma upload_reads:
  "both_steps uenv us (snd (on_uploader (ul_ListMultipartUploads uenv b mk q l) us))"
  "both_steps uenv us (snd (on_uploader (ul_ListParts b k ident n l) us))"
proof -
  have "snd (on_uploader (ul_ListMultipartUploads uenv b mk q l) us) = us"
    by (rule on_uploader_keeps) (rule uploader_reads(2))
  moreover have "snd (on_uploader (ul_ListParts b k ident n l) us) = us"
    by (rule on_uploader_keeps) (rule uploader_reads(1))
  ultimately show "both_steps uenv us (snd (on_uploader (ul_ListMultipartUploads uenv b mk q l) us))"
    "both_steps uenv us (snd (on_uploader (ul_ListParts b k ident n l) us))"
    by (simp_all add: both_steps_def step_refl)
qed

lemma complete_both: "both_steps uenv us (snd (ul_CompleteMultipartUpload uenv be b k ident parts us))"
  using complete_step [of us uenv b k ident parts] by (simp add: both_steps_def r_into_rtranclp ul_step_complete)

lemma lifted_versions: "g_versioned g = Some v \<Longrightarrow> \<exists>v0. vb = Some v0 \<and> v = lift_versioned v0"
  using versioned by auto

sublocale server: adding_backend "both_steps uenv" g
proof
  show "both_steps uenv u u" for u by (simp add: both_steps_def step_refl)
  show "both_steps uenv u v \<Longrightarrow> both_steps uenv v w \<Longrightarrow> both_steps uenv u w" for u v w
    by (rule both_steps_trans)
  fix v
  assume "g_versioned g = Some v"
  then obtain v0 where v: "vb = Some v0" "v = lift_versioned v0" using lifted_versions by auto
  show "both_steps uenv w (snd (vb_VersioningConfiguration v b w))"
    "both_steps uenv w (snd (vb_GetObjectVersion v b k vid rng w))"
    "both_steps uenv w (snd (vb_ListBucketVersions v b p' page' w))" for w b k vid rng p' page'
    by (simp_all add: v(2) lift_versioned_def storage_step vb_adds [OF v(1)])
qed (simp_all add: storage lift_backend_def storage_step be_adds copy_step uploader uploader_backend_def
    upload_steps upload_reads complete_both)

end

locale stepping_server = adding_server S be vb uenv g
  for S :: "'s \<Rightarrow> 's \<Rightarrow> bool" and be :: "'s Backend" and vb :: "'s VersionedBackend option"
    and uenv :: "('um, 'ui) uploader_env" and g :: "('um uploader \<times> 's) gofakes3" +
  assumes be_steps:
      "S s (snd (be_DeleteBucket be b s))" "S s (snd (be_ForceDeleteBucket be b s))"
      "S s (snd (be_DeleteObject be b k s))" "S s (snd (be_DeleteMulti be b ks s))"
    and vb_steps:
      "vb = Some v \<Longrightarrow> S s (snd (vb_SetVersioningConfiguration v b cfg s))"
      "vb = Some v \<Longrightarrow> S s (snd (vb_DeleteObjectVersion v b k vid s))"
      "vb = Some v \<Longrightarrow> S s (snd (vb_DeleteMultiVersions v b oids s))"
begin

sublocale full: stepping_backend "both_steps uenv" g
proof
  fix v
  assume "g_versioned g = Some v"
  then obtain v0 where v: "vb = Some v0" "v = lift_versioned v0" using lifted_versions by auto
  show "both_steps uenv w (snd (vb_SetVersioningConfiguration v b cfg w))"
    "both_steps uenv w (snd (vb_DeleteObjectVersion v b k vid w))"
    "both_steps uenv w (snd (vb_DeleteMultiVersions v b oids w))" for w b k vid cfg oids
    by (simp_all add: v(2) lift_versioned_def storage_step vb_steps [OF v(1)])
qed (simp_all add: storage lift_backend_def storage_step be_steps)

end

end
