(* ===== verification/RequestProperties.thy ===== *)
theory RequestProperties
  imports ServerSteps CommandProperties
begin

text \<open>
  The running program over \<open>s3mem\<close>, whatever requests it gets: its data stay well formed, and versions are
  lost only by requests that delete or that set the versioning of a bucket.
\<close>

section \<open>Steps of s3mem\<close>

text \<open>The server that \<open>run\<close> makes over \<open>s3mem\<close> from the flags \<open>f\<close> and a limit on time skew.\<close>

definition mem_faker ::
    "('om, 'oi, 'vm, 'vi) s3mem_env \<Rightarrow> ('um, 'ui) uploader_env \<Rightarrow> fakeS3Flags \<Rightarrow> int \<Rightarrow> int \<Rightarrow>
     ('um uploader \<times> 'om s3mem) gofakes3" where
  "mem_faker menv uenv f skew wall =
     store_server (mem_backend wall menv) (Some (mem_versioned menv)) uenv (server_options f skew)"

lemma mem_faker_simps [simp]:
  "g_storage (mem_faker menv uenv f skew wall) = lift_backend (mem_backend wall menv)"
  "g_versioned (mem_faker menv uenv f skew wall) = Some (lift_versioned (mem_versioned menv))"
  "g_uploader (mem_faker menv uenv f skew wall) = uploader_backend uenv (mem_backend wall menv)"
  by (simp_all add: mem_faker_def store_server_def New_def server_options_def option_defs)

lemma mem_steps:
  "(mem_step menv)\<^sup>*\<^sup>* db (snd (mem_CreateBucket menv b db))"
  "(mem_step menv)\<^sup>*\<^sup>* db (snd (mem_DeleteBucket menv b db))"
  "(mem_step menv)\<^sup>*\<^sup>* db (snd (mem_ForceDeleteBucket b db))"
  "(mem_step menv)\<^sup>*\<^sup>* db (snd (mem_PutObject menv b k m i sz db))"
  "(mem_step menv)\<^sup>*\<^sup>* db (snd (mem_DeleteObject menv b k db))"
  "(mem_step menv)\<^sup>*\<^sup>* db (snd (mem_DeleteMulti menv b ks db))"
  "(mem_step menv)\<^sup>*\<^sup>* db (snd (mem_DeleteObjectVersion menv b k vid db))"
  "(mem_step menv)\<^sup>*\<^sup>* db (snd (mem_DeleteMultiVersions menv b oids db))"
  "(mem_step menv)\<^sup>*\<^sup>* db (snd (mem_SetVersioningConfiguration b cfg db))"
  by (rule r_into_rtranclp, rule mem_step.intros)+

interpretation mem_stepping:
  stepping_server "(mem_step menv)\<^sup>*\<^sup>*" "mem_backend wall menv" "Some (mem_versioned menv)" uenv
    "mem_faker menv uenv f skew wall" for menv wall uenv f skew
proof
  fix v
  assume "Some (mem_versioned menv) = Some v"
  then have v: "v = mem_versioned menv" by simp
  show "(mem_step menv)\<^sup>*\<^sup>* s (snd (vb_SetVersioningConfiguration v b cfg s))"
    "(mem_step menv)\<^sup>*\<^sup>* s (snd (vb_DeleteObjectVersion v b k vid s))"
    "(mem_step menv)\<^sup>*\<^sup>* s (snd (vb_DeleteMultiVersions v b oids s))" for s b cfg k vid oids
    by (simp_all add: v mem_steps)
qed (auto simp: mem_reads mem_steps)

text \<open>What a step keeps of the versions of buckets whose versioning is enabled.\<close>

definition version_kept ::
    "('om, 'oi, 'vm, 'vi) s3mem_env \<Rightarrow> 'om s3mem \<Rightarrow> 'om s3mem \<Rightarrow> bool" where
  "version_kept menv db db' \<longleftrightarrow>
     (\<forall>bucket b. mem_bucket db bucket = Some b \<and> bk_versioning b = VersioningEnabled \<longrightarrow>
        (\<exists>b'. mem_bucket db' bucket = Some b' \<and> bk_versioning b' = VersioningEnabled) \<and>
        (\<forall>key vid rr obj. vid \<noteq> '''' \<and> fst (mem_GetObjectVersion menv bucket key vid rr db) = Ok obj \<longrightarrow>
           fst (mem_GetObjectVersion menv bucket key vid rr db') = Ok obj))"

definition keeps_versions ::
    "('om, 'oi, 'vm, 'vi) s3mem_env \<Rightarrow> ('vm \<Rightarrow> (string \<times> bucketData) list) \<Rightarrow> 'om s3mem \<Rightarrow> 'om s3mem \<Rightarrow> bool" where
  "keeps_versions menv ventries db db' \<longleftrightarrow>
     mem_count db \<le> mem_count db' \<and>
     (mem_ok menv ventries db \<and> mem_count db' < 10 ^ 30 \<longrightarrow> mem_ok menv ventries db' \<and> version_kept menv db db')"

lemma keeps_versions_refl: "keeps_versions menv ventries db db"
  by (simp add: keeps_versions_def version_kept_def)

lemma keeps_versions_trans:
  assumes "keeps_versions menv ventries u v" "keeps_versions menv ventries v w"
  shows "keeps_versions menv ventries u w"
proof -
  have "version_kept menv u w" if "version_kept menv u v" "version_kept menv v w"
    using that unfolding version_kept_def by blast
  then show ?thesis using assms unfolding keeps_versions_def by auto
qed

lemma version_frame:
  "mem_bucket db' bucket = mem_bucket db bucket \<Longrightarrow>
   fst (mem_GetObjectVersion menv bucket key vid rr db') = fst (mem_GetObjectVersion menv bucket key vid rr db)"
  by (simp add: mem_GetObjectVersion_def mem_GetObject_def split: option.splits)

context s3mem_laws
begin

lemma create_keeps: "keeps_versions env ventries db (snd (mem_CreateBucket env b db))"
proof -
  have s: "mem_step env db (snd (mem_CreateBucket env b db))" by (rule step_create)
  have "mem_bucket (snd (mem_CreateBucket env b db)) bucket = mem_bucket db bucket"
    if "mem_bucket db bucket = Some bk" for bucket bk
    using that by (auto simp: mem_CreateBucket_def split: option.splits)
  then have "version_kept env db (snd (mem_CreateBucket env b db))"
    unfolding version_kept_def by (metis version_frame)
  then show ?thesis
    using mem_ok_step [OF s] mem_step_count [OF s] unfolding keeps_versions_def by blast
qed

lemma put_keeps_version:
  assumes "mem_ok env ventries db" "mem_bucket db bucket = Some b" "bk_versioning b = VersioningEnabled"
    and "bucket_put env b name item (db_versionSource db) = (item', b', src')"
    and "mem_ok env ventries db'" "mem_bucket db' bucket = Some b'"
    and "vid \<noteq> ''''" "fst (mem_GetObjectVersion env bucket key vid rr db) = Ok obj"
  shows "fst (mem_GetObjectVersion env bucket key vid rr db') = Ok obj"
proof -
  have "snd (mem_GetObjectVersion env bucket key vid rr db) = db" by (rule mem_reads)
  with assms(8) have get: "mem_GetObjectVersion env bucket key vid rr db = (Ok obj, db)" by (metis prod.collapse)
  have "history (key_state env ventries b' key) =
      history (key_state env ventries b key) @ (if key = name then [item'] else [])"
    using key_state_put [OF mem_okD(4) [OF assms(1,2)] assms(4)] assms(3) by (simp add: spec_put_def)
  from version_survives [OF assms(1,2,7) get assms(5,6) this] show ?thesis by simp
qed

lemma stored_keeps:
  assumes "mem_bucket db bucket = Some b" "bucket_put env b name item (db_versionSource db) = (item', b', src')"
    and "db' = (mem_set_bucket db bucket b')\<lparr>db_versionSource := src'\<rparr>"
    and ok: "mem_ok env ventries db" "mem_ok env ventries db'"
  shows "version_kept env db db'"
  unfolding version_kept_def
proof (intro allI impI)
  have b': "mem_bucket db' n = (if n = bucket then Some b' else mem_bucket db n)" for n
    by (simp add: assms(3))
  fix n c
  assume c: "mem_bucket db n = Some c \<and> bk_versioning c = VersioningEnabled"
  show "(\<exists>c'. mem_bucket db' n = Some c' \<and> bk_versioning c' = VersioningEnabled) \<and>
      (\<forall>key vid rr obj. vid \<noteq> '''' \<and> fst (mem_GetObjectVersion env n key vid rr db) = Ok obj \<longrightarrow>
         fst (mem_GetObjectVersion env n key vid rr db') = Ok obj)"
  proof (cases "n = bucket")
    case True
    with c assms(1) have e: "bk_versioning b = VersioningEnabled" by simp
    then show ?thesis
      using put_frame(1) [OF assms(2)] put_keeps_version [OF ok(1) assms(1) e assms(2) ok(2)] b' True by simp
  next
    case False
    then show ?thesis using c b' [of n] version_frame [of db' n db env] by simp
  qed
qed

lemma put_keeps: "keeps_versions env ventries db (snd (mem_PutObject env bucket k m i sz db))"
proof -
  let ?db' = "snd (mem_PutObject env bucket k m i sz db)"
  have s: "mem_step env db ?db'" by (rule step_put)
  have "version_kept env db ?db'" if "mem_ok env ventries db" "mem_ok env ventries ?db'"
    by (cases rule: mem_PutObject_cases [of env bucket k m i sz db])
      (simp add: version_kept_def, use that in \<open>auto intro: stored_keeps\<close>)
  then show ?thesis
    using mem_ok_step [OF s] mem_step_count [OF s] unfolding keeps_versions_def by blast
qed

sublocale adding: adding_server "keeps_versions env ventries" "mem_backend wall env" "Some (mem_versioned env)" uenv
    "mem_faker env uenv f skew wall" for wall uenv f skew
  by unfold_locales
    (auto simp: mem_reads keeps_versions_refl create_keeps put_keeps intro: keeps_versions_trans)

end

section \<open>Sequences of requests\<close>

text \<open>
  The program answers one request after the other, each at its own time: the clocks of the back end and of the
  uploader read the time at which the request comes in.
\<close>

definition at_time :: "int \<Rightarrow> ('um uploader \<times> 'om s3mem) server \<Rightarrow> ('um uploader \<times> 'om s3mem) server" where
  "at_time now sv = sv\<lparr>sv_world := (fst (sv_world sv)\<lparr>ul_now := now\<rparr>, snd (sv_world sv)\<lparr>db_now := now\<rparr>)\<rparr>"

fun serve ::
    "server_env \<Rightarrow> (int \<Rightarrow> ('um uploader \<times> 'om s3mem) gofakes3) \<Rightarrow> (int \<times> request) list \<Rightarrow>
     ('um uploader \<times> 'om s3mem) server \<Rightarrow> ('um uploader \<times> 'om s3mem) server" where
  "serve senv faker [] sv = sv"
| "serve senv faker ((now, rq) # rqs) sv =
     serve senv faker rqs (snd (Server senv (faker now) now rq new_response (at_time now sv)))"

lemma at_time_world [simp]:
  "sv_world (at_time now sv) = (fst (sv_world sv)\<lparr>ul_now := now\<rparr>, snd (sv_world sv)\<lparr>db_now := now\<rparr>)"
  by (simp add: at_time_def)

lemma request_mem_steps:
  "(mem_step menv)\<^sup>*\<^sup>* (snd (sv_world sv))
     (snd (sv_world (snd (Server senv (mem_faker menv uenv f skew wall) now rq w sv))))"
  "(ul_step uenv (mem_backend wall menv))\<^sup>*\<^sup>* (sv_world sv)
     (sv_world (snd (Server senv (mem_faker menv uenv f skew wall) now rq w sv)))"
  by (rule conjunct2 [OF mem_stepping.full.request_steps [unfolded mem_stepping.both_steps_def]]
      conjunct1 [OF mem_stepping.full.request_steps [unfolded mem_stepping.both_steps_def]])+

lemma serve_mem_steps:
  "(mem_step menv)\<^sup>*\<^sup>* (snd (sv_world sv)) (snd (sv_world (serve senv (mem_faker menv uenv f skew) rqs sv)))"
proof (induction senv "mem_faker menv uenv f skew" rqs sv rule: serve.induct)
  case (2 senv now rq rqs sv)
  have "mem_step menv (snd (sv_world sv)) (snd (sv_world (at_time now sv)))" by (simp add: step_tick)
  then have "(mem_step menv)\<^sup>*\<^sup>* (snd (sv_world sv))
      (snd (sv_world (snd (Server senv (mem_faker menv uenv f skew now) now rq new_response (at_time now sv)))))"
    by (rule converse_rtranclp_into_rtranclp) (rule request_mem_steps(1))
  from rtranclp_trans [OF this 2] show ?case by simp
qed simp

lemma mem_steps_ok:
  assumes "s3mem_laws menv oentries oview ventries vview" "(mem_step menv)\<^sup>*\<^sup>* db db'"
  shows "mem_count db \<le> mem_count db' \<and>
    (mem_ok menv ventries db \<longrightarrow> mem_count db' < 10 ^ 30 \<longrightarrow> mem_ok menv ventries db')"
  using assms(2)
proof induction
  case (step y z)
  note c = s3mem_laws.mem_step_count [OF assms(1) step(2)]
  then show ?case
    using step(3) s3mem_laws.mem_ok_step [OF assms(1) step(2)] by (metis le_less_trans order_trans)
qed simp

lemma ul_steps_ok:
  assumes "uploader_laws uenv uentries uview" "(ul_step uenv be)\<^sup>*\<^sup>* us us'" "uploader_ok uenv (fst us)"
  shows "uploader_ok uenv (fst us')"
  using assms(2,3) by induction (simp_all add: uploader_laws.uploader_ok_step [OF assms(1)])

lemma serve_uploader_ok:
  assumes "uploader_laws uenv uentries uview" "uploader_ok uenv (fst (sv_world sv))"
  shows "uploader_ok uenv (fst (sv_world (serve senv (mem_faker menv uenv f skew) rqs sv)))"
  using assms(2)
proof (induction senv "mem_faker menv uenv f skew" rqs sv rule: serve.induct)
  case (2 senv now rq rqs sv)
  have "uploader_ok uenv (fst (sv_world (at_time now sv)))" using 2 by (simp add: uploader_ok_def)
  from 2(1) [OF ul_steps_ok [OF assms(1) request_mem_steps(2) this]] show ?case by simp
qed simp

lemma run_mem_faker:
  assumes "run env menv benv uenv args wall w = (Ok sp, w')" "sp_faker sp = MemFaker g db"
  shows "\<exists>f skew. flagSet_Parse args = (f, None) \<and> g = mem_faker menv uenv f skew wall \<and> mem_reachable menv db"
proof -
  obtain f ts skew op w1 op' where r: "flagSet_Parse args = (f, None)"
    "open_backend env menv benv f ts wall w = (Ok op, w1)"
    "if f_initialBucket f \<noteq> '''' then initial_bucket (f_initialBucket f) op = Ok op' else op' = op"
    "sp_faker sp = new_faker uenv f skew op'"
    by (rule run_Ok [OF assms(1)]) auto
  obtain be vb where op': "op' = OpenedMem be vb db" "g = store_server be (Some vb) uenv (server_options f skew)"
    using r(4) assms(2) by (cases op') auto
  obtain db0 where op: "op = OpenedMem be vb db0"
    using r(3) by (cases op) (auto simp: op' rbind_eq_Ok split: if_splits)
  then have o: "be = mem_backend wall menv" "vb = mem_versioned menv" "\<exists>t. db0 = mem_New t None"
    using r(2) by (auto simp: open_backend_def act_err_def act_ok_def act_bind_Ok split: if_splits prod.splits)
  then have "mem_reachable menv db0" by (auto intro: reach_new)
  moreover have "db = db0 \<or> db = snd (mem_CreateBucket menv (f_initialBucket f) db0)"
    using r(3) o(1) by (auto simp: op op'(1) rbind_eq_Ok first_bucket_def split: if_splits prod.splits res.splits)
  ultimately have "mem_reachable menv db" by (auto intro: reach_step step_create)
  then show ?thesis using r(1) op'(2) o(1,2) by (auto simp: mem_faker_def)
qed

text \<open>One request of the demonstration: the PUT of an object.\<close>

lemma mem_faker_settings: "g_timeSkew (mem_faker menv uenv f skew wall) = skew"
  by (simp add: mem_faker_def store_server_def New_def server_options_def option_defs)

lemma mem_server_faker: "mem_faker menv uenv default_flags DefaultSkewLimit wall = mem_server wall menv uenv"
  by (simp add: mem_faker_def mem_server_def store_server_def New_def server_options_def option_defs
      default_flags_eq zero_flags_def)

lemma serve_demo_put:
  assumes "mem_bucket db ''b'' = Some b"
    and "\<forall>obj. bucket_object demo_env b ''k'' = Some obj \<longrightarrow> bo_data obj \<noteq> None"
  shows "\<exists>u' db'. sv_world (serve demo_senv (mem_faker demo_env demo_uploader default_flags DefaultSkewLimit)
      [(0, demo_put)] \<lparr>sv_requestID = n, sv_world = (u, db)\<rparr>) = (u', db') \<and> mem_count db' \<le> mem_count db + 1"
proof -
  let ?m = "[(''Last-Modified'', ''Thu, 01 Jan 1970 00:00:00 GMT'')]" and ?db = "db\<lparr>db_now := 0\<rparr>"
  let ?put = "mem_PutObject demo_env ''b'' ''k'' (Some ?m) (bytes_reader ''hello'') (int (length ''hello'')) ?db"
  have b: "mem_bucket ?db ''b'' = Some b" using assms(1) by simp
  obtain vid db' where p: "?put = (Ok \<lparr>pr_VersionID = vid\<rparr>, db')"
    using demo.put_plain [OF b assms(2), of "''hello''" ?m] by (auto simp: max_int64_def)
  have "mem_has_bucket ?db ''b''" using b by (simp add: mem_has_bucket_def)
  note r = demo_requests(4,5) [unfolded demo_server_def]
  have k: "length ''k'' \<le> KeySizeLimit" by (simp add: KeySizeLimit_def)
  have "be_PutObject (mem_backend 0 demo_env) ''b'' ''k'' (Some ?m) (bytes_reader ''hello'')
      (int (length ''hello'')) ?db = (Ok \<lparr>pr_VersionID = vid\<rparr>, db')" using p by simp
  note s = demo.http_put [OF \<open>mem_has_bucket ?db ''b''\<close> demo_requests(1) r(1) k r(2) this,
      where w = new_response and n = n and u = "u\<lparr>ul_now := 0\<rparr>"]
  have "mem_count db' \<le> mem_count db + 1"
    using put_count_le [of demo_env "''b''" "''k''" "Some ?m" "bytes_reader ''hello''" "int (length ''hello'')" ?db] p
    by (simp add: mem_count_def)
  then show ?thesis using s by (simp add: mem_server_faker at_time_def Let_def)
qed

text \<open>
  C21: the program over \<open>s3mem\<close> keeps its data well formed. If it starts over this back end, whatever its
  arguments, then after any sequence of requests at any times, refused, failing or not, every upload,
  part, bucket, object and version is where it belongs (\<open>uploader_ok\<close>, \<open>mem_ok\<close>), as long as
  fewer than \<open>10 ^ 30\<close> version IDs have been given out.
\<close>

theorem requests_keep_invariant:
  assumes "s3mem_laws menv oentries oview ventries vview" "uploader_laws uenv uentries uview"
    and "run env menv benv uenv args wall w = (Ok sp, w')" "sp_faker sp = MemFaker g db"
  shows "\<exists>f skew. flagSet_Parse args = (f, None) \<and> g = mem_faker menv uenv f skew wall \<and>
    (\<forall>senv rqs u' db'. sv_world (serve senv (mem_faker menv uenv f skew) rqs
         \<lparr>sv_requestID = 0, sv_world = (newUploader wall, db)\<rparr>) = (u', db') \<longrightarrow>
       uploader_ok uenv u' \<and> (mem_count db' < 10 ^ 30 \<longrightarrow> mem_ok menv ventries db'))"
proof -
  obtain f skew where f: "flagSet_Parse args = (f, None)" "g = mem_faker menv uenv f skew wall"
      "mem_reachable menv db"
    using run_mem_faker [OF assms(3,4)] by blast
  have "uploader_ok uenv u' \<and> (mem_count db' < 10 ^ 30 \<longrightarrow> mem_ok menv ventries db')"
    if "sv_world (serve senv (mem_faker menv uenv f skew) rqs
         \<lparr>sv_requestID = 0, sv_world = (newUploader wall, db)\<rparr>) = (u', db')" for senv rqs u' db'
  proof -
    let ?sv = "\<lparr>sv_requestID = 0, sv_world = (newUploader wall, db)\<rparr>"
    have s: "(mem_step menv)\<^sup>*\<^sup>* db db'"
      using serve_mem_steps [of menv ?sv senv uenv f skew rqs] that by simp
    have "uploader_ok uenv u'"
      using serve_uploader_ok [OF assms(2), of ?sv senv menv f skew rqs] that
      by (simp add: uploader_ok_def newUploader_def)
    moreover have "mem_ok menv ventries db" if "mem_count db' < 10 ^ 30"
      using s3mem_laws.mem_reachable_ok [OF assms(1) f(3)] mem_steps_ok [OF assms(1) s] that by simp
    ultimately show ?thesis using mem_steps_ok [OF assms(1) s] by blast
  qed
  then show ?thesis using f(1,2) by blast
qed

lemma requests_keep_invariant_witness:
  "\<exists>sp g db u' db'.
     run demo_command_env demo_env demo_bolt_env demo_uploader (memory_args ''b'') 0 demo_world = (Ok sp, demo_world) \<and>
     sp_faker sp = MemFaker g db \<and>
     sv_world (serve demo_senv (mem_faker demo_env demo_uploader default_flags DefaultSkewLimit) [(0, demo_put)]
       \<lparr>sv_requestID = 0, sv_world = (newUploader 0, db)\<rparr>) = (u', db') \<and>
     uploader_ok demo_uploader u' \<and> mem_ok demo_env alist_entries db'"
proof -
  have "cm_Listen demo_command_env '':9000'' = None" by (simp add: demo_command_env_def)
  from run_memory [OF _ this, of "''b''" demo_env demo_bolt_env demo_uploader 0 demo_world]
  obtain db sp where r: "run demo_command_env demo_env demo_bolt_env demo_uploader (memory_args ''b'') 0 demo_world =
      (Ok sp, demo_world)" "sp_faker sp = MemFaker (mem_server 0 demo_env demo_uploader) db"
      "mem_bucket db ''b'' = Some (newBucket demo_env ''b'' 0)" "mem_count db = 0"
    by auto
  obtain u' db' where s: "sv_world (serve demo_senv (mem_faker demo_env demo_uploader default_flags DefaultSkewLimit)
      [(0, demo_put)] \<lparr>sv_requestID = 0, sv_world = (newUploader 0, db)\<rparr>) = (u', db')" "mem_count db' \<le> 1"
    using serve_demo_put [OF r(3), of 0 "newUploader 0"] r(4) by auto
  obtain f skew where f: "flagSet_Parse (memory_args ''b'') = (f, None)"
      "\<forall>senv rqs u' db'. sv_world (serve senv (mem_faker demo_env demo_uploader f skew) rqs
         \<lparr>sv_requestID = 0, sv_world = (newUploader 0, db)\<rparr>) = (u', db') \<longrightarrow>
       uploader_ok demo_uploader u' \<and> (mem_count db' < 10 ^ 30 \<longrightarrow> mem_ok demo_env alist_entries db')"
    and g: "mem_server 0 demo_env demo_uploader = mem_faker demo_env demo_uploader f skew 0"
    using requests_keep_invariant [OF demo_laws demo_uploader_laws r(1,2)] by blast
  have "g_timeSkew (mem_faker demo_env demo_uploader f skew 0) = skew" by (simp add: mem_faker_settings)
  then have "skew = DefaultSkewLimit" by (simp add: g [symmetric])
  moreover have "f = default_flags\<lparr>f_backendKind := ''memory'', f_initialBucket := ''b''\<rparr>"
    using f(1) by (simp add: parse_memory_args)
  ultimately have "mem_faker demo_env demo_uploader f skew =
      mem_faker demo_env demo_uploader default_flags DefaultSkewLimit"
    by (intro ext) (simp add: mem_faker_def server_options_def)
  with f(2) s have "uploader_ok demo_uploader u' \<and> (mem_count db' < 10 ^ 30 \<longrightarrow> mem_ok demo_env alist_entries db')"
    by metis
  moreover have "mem_count db' < 10 ^ 30" using s(2) by simp
  ultimately show ?thesis using r(1,2) s(1) by blast
qed

section \<open>Requests that only add\<close>

context s3mem_laws
begin

lemma adding_request_keeps:
  assumes "adds_only rq"
  shows "keeps_versions env ventries (snd (sv_world sv))
     (snd (sv_world (snd (Server senv (mem_faker env uenv f skew wall) now rq w sv))))"
  by (rule conjunct2 [OF adding.server.adding_request_steps [OF assms, unfolded adding.both_steps_def]])

lemma tick_keeps: "keeps_versions env ventries db (db\<lparr>db_now := now\<rparr>)"
proof -
  have s: "mem_step env db (db\<lparr>db_now := now\<rparr>)" by (rule step_tick)
  have "version_kept env db (db\<lparr>db_now := now\<rparr>)"
    using version_frame [of "db\<lparr>db_now := now\<rparr>" _ db env] by (simp add: version_kept_def)
  then show ?thesis using mem_ok_step [OF s] mem_step_count [OF s] unfolding keeps_versions_def by blast
qed

lemma serve_keeps_versions:
  "list_all (\<lambda>(_, rq). adds_only rq) rqs \<Longrightarrow>
   keeps_versions env ventries (snd (sv_world sv))
     (snd (sv_world (serve senv (mem_faker env uenv f skew) rqs sv)))"
proof (induction senv "mem_faker env uenv f skew" rqs sv rule: serve.induct)
  case (1 senv sv)
  show ?case by (simp add: keeps_versions_refl)
next
  case (2 senv now rq rqs sv)
  then have a: "adds_only rq" "list_all (\<lambda>(_, rq). adds_only rq) rqs" by simp_all
  have "keeps_versions env ventries (snd (sv_world sv)) (snd (sv_world (at_time now sv)))"
    by (simp add: tick_keeps)
  from keeps_versions_trans [OF keeps_versions_trans [OF this adding_request_keeps [OF a(1)]] 2(1) [OF a(2)]]
  show ?case by simp
qed

end

text \<open>
  C2: versions are immutable under all requests but deletions. In a bucket with versioning enabled, a
  version that can be read by its ID reads the same after any sequence of requests (puts and copies over its
  key, browser uploads, multipart uploads, new buckets, listings, malformed or refused requests) none of
  which is a DELETE, a multi-object delete or a PUT of a versioning configuration.
\<close>

theorem requests_keep_versions:
  assumes "s3mem_laws menv oentries oview ventries vview" "mem_ok menv ventries db"
    and "mem_bucket db bucket = Some b" "bk_versioning b = VersioningEnabled"
    and "vid \<noteq> ''''" "fst (mem_GetObjectVersion menv bucket key vid rr db) = Ok obj"
    and "list_all (\<lambda>(now, rq). adds_only rq) rqs" "sv_world sv = (u, db)"
    and "sv_world (serve senv (mem_faker menv uenv f skew) rqs sv) = (u', db')" "mem_count db' < 10 ^ 30"
  shows "fst (mem_GetObjectVersion menv bucket key vid rr db') = Ok obj"
  using s3mem_laws.serve_keeps_versions [OF assms(1,7), of sv senv uenv f skew] assms(2-6,8-10)
  unfolding keeps_versions_def version_kept_def by simp

lemma demo_has_data: "\<forall>obj. bucket_object demo_env demo_b2 ''k'' = Some obj \<longrightarrow> bo_data obj \<noteq> None"
proof -
  obtain item where "mem_key demo_env alist_entries demo_db2 ''b'' ''k'' = Some ([], Some item)"
    using demo_state1 demo_bucket2(3) by metis
  then show ?thesis using demo_bucket2(1) by (simp add: mem_key_def key_state_def split: option.splits)
qed

lemma requests_keep_versions_witness:
  "\<exists>vid obj u' db'. ob_Contents obj = ''hello'' \<and>
     fst (mem_GetObjectVersion demo_env ''b'' ''k'' vid None demo_db2) = Ok obj \<and>
     sv_world (serve demo_senv (mem_faker demo_env demo_uploader default_flags DefaultSkewLimit) [(0, demo_put)]
       \<lparr>sv_requestID = 0, sv_world = (newUploader 0, demo_db2)\<rparr>) = (u', db') \<and>
     fst (mem_GetObjectVersion demo_env ''b'' ''k'' vid None db') = Ok obj"
proof -
  obtain vid obj where v: "vid \<noteq> ''''" "ob_Contents obj = ''hello''"
    "mem_GetObjectVersion demo_env ''b'' ''k'' vid None demo_db2 = (Ok obj, demo_db2)"
    by (rule demo_version2)
  have k: "\<forall>obj. bucket_object demo_env demo_b2 ''k'' = Some obj \<longrightarrow> bo_data obj \<noteq> None"
    by (rule demo_has_data)
  obtain u' db' where s: "sv_world (serve demo_senv (mem_faker demo_env demo_uploader default_flags DefaultSkewLimit)
      [(0, demo_put)] \<lparr>sv_requestID = 0, sv_world = (newUploader 0, demo_db2)\<rparr>) = (u', db')"
      "mem_count db' \<le> mem_count demo_db2 + 1"
    using serve_demo_put [OF demo_bucket2(1) k, of 0 "newUploader 0"] by auto
  have c: "mem_count db' < 10 ^ 30" using s(2) demo_counts_le(3) by simp
  have a: "list_all (\<lambda>(now, rq). adds_only rq) [(0 :: int, demo_put)]"
    by (simp add: adds_only_def demo_put_def demo_request_def vals_has_def)
  have "fst (mem_GetObjectVersion demo_env ''b'' ''k'' vid None db') = Ok obj"
    using requests_keep_versions [OF demo_laws demo_ok(3) demo_bucket2(1,2) v(1) _ a _ s(1) c] v(3) by simp
  moreover have "fst (mem_GetObjectVersion demo_env ''b'' ''k'' vid None demo_db2) = Ok obj" using v(3) by simp
  ultimately show ?thesis using v(2) s(1) by blast
qed

end
