(* ===== verification/Assumer.thy ===== *)
theory Assumer
  imports Command "HOL-Library.Stream"
begin

text \<open>
  \<open>internal/s3assumer\<close>: a program that finds out how an S3 service behaves where the documentation is silent.
  Its tests run against whatever answers at the end point; each of them states an assumption that the
  package \<open>gofakes3\<close> makes about S3. The client is the AWS SDK, a parameter: a record of the calls that the
  tests make, over the state \<open>'w\<close> of the service. Random bytes and the readings of the clock are streams.
  Messages that print whole results show the error only.
\<close>

section \<open>The client\<close>

text \<open>
  An error of the SDK has a code, a message and a text, and may be the failure of a request; any other error is a text.
\<close>

datatype assume_error = AwsError string string string bool | OtherError string

fun error_text :: "assume_error \<Rightarrow> string" where
  "error_text (AwsError _ _ txt _) = txt"
| "error_text (OtherError txt) = txt"

type_synonym ('w, 'a) call = "'w \<Rightarrow> (assume_error + 'a) \<times> 'w"

record GetBucketVersioningOutput =
  bv_Status :: "string option"
  bv_MFADelete :: "string option"

record ListObjectVersionsInput =
  li_Bucket :: string
  li_Prefix :: string
  li_MaxKeys :: "int option"
  li_KeyMarker :: "string option"
  li_VersionIdMarker :: "string option"

text \<open>Of an entry of a listing the tests read the version ID.\<close>

record ListObjectVersionsOutput =
  lo_Versions :: "string option list"
  lo_DeleteMarkers :: "string option list"
  lo_NextKeyMarker :: "string option"
  lo_NextVersionIdMarker :: "string option"

record 'w s3_client =
  cl_GetBucketVersioning :: "string \<Rightarrow> ('w, GetBucketVersioningOutput) call"
  cl_PutBucketVersioning :: "string \<Rightarrow> string \<Rightarrow> ('w, unit) call"
  cl_GetBucketLocation :: "string \<Rightarrow> ('w, unit) call"
  cl_PutObject :: "string \<Rightarrow> string \<Rightarrow> bytes \<Rightarrow> ('w, string option) call"
  cl_GetObject :: "string \<Rightarrow> string \<Rightarrow> string option \<Rightarrow> ('w, reader) call"
  cl_DeleteObject :: "string \<Rightarrow> string \<Rightarrow> string option \<Rightarrow> ('w, unit) call"
  cl_DeleteObjects :: "string \<Rightarrow> (string \<times> string option) list \<Rightarrow> ('w, unit) call"
  cl_ListObjectVersions :: "ListObjectVersionsInput \<Rightarrow> ('w, ListObjectVersionsOutput) call"
  cl_ListObjects :: "string \<Rightarrow> string \<Rightarrow> ('w, string option list) call"

definition StringValue :: "string option \<Rightarrow> string" where
  "StringValue p = (case p of None \<Rightarrow> '''' | Some s \<Rightarrow> s)"

section \<open>Tests as computations\<close>

record 'w assumer =
  ax_rand :: "char stream"
  ax_global_rand :: "char stream"
  ax_clock :: "int stream"
  ax_world :: 'w

datatype 'a outcome = Done 'a | Failed assume_error | Crashed

type_synonym ('w, 'a) trial = "'w assumer \<Rightarrow> 'a outcome \<times> 'w assumer"

definition tdone :: "'a \<Rightarrow> ('w, 'a) trial" where
  "tdone x s = (Done x, s)"

definition tfail :: "string \<Rightarrow> ('w, 'a) trial" where
  "tfail msg s = (Failed (OtherError msg), s)"

definition tbind :: "('w, 'a) trial \<Rightarrow> ('a \<Rightarrow> ('w, 'b) trial) \<Rightarrow> ('w, 'b) trial" where
  "tbind m f s =
     (case m s of (Done x, s') \<Rightarrow> f x s' | (Failed e, s') \<Rightarrow> (Failed e, s') | (Crashed, s') \<Rightarrow> (Crashed, s'))"

definition try_call :: "('w, 'a) call \<Rightarrow> ('w, assume_error + 'a) trial" where
  "try_call op s = (case op (ax_world s) of (r, w) \<Rightarrow> (Done r, s\<lparr>ax_world := w\<rparr>))"

text \<open>A call whose error ends the test\<close>

definition call :: "('w, 'a) call \<Rightarrow> ('w, 'a) trial" where
  "call op = tbind (try_call op) (\<lambda>r s. case r of Inl e \<Rightarrow> (Failed e, s) | Inr x \<Rightarrow> (Done x, s))"

text \<open>\<open>xs[0]\<close>\<close>

definition first_of :: "'a list \<Rightarrow> ('w, 'a) trial" where
  "first_of xs s = (case xs of [] \<Rightarrow> (Crashed, s) | x # _ \<Rightarrow> (Done x, s))"

definition UnixNano :: "('w, int) trial" where
  "UnixNano s = (Done (shd (ax_clock s)), s\<lparr>ax_clock := stl (ax_clock s)\<rparr>)"

section \<open>Configuration and context\<close>

record Config =
  ac_S3Endpoint :: string
  ac_S3Region :: string
  ac_S3PathStyle :: bool
  ac_S3TestBucketPrefix :: string
  ac_Verbose :: bool

definition BucketStandard :: "Config \<Rightarrow> string" where
  "BucketStandard c = ac_S3TestBucketPrefix c"

definition BucketUnversioned :: "Config \<Rightarrow> string" where
  "BucketUnversioned c = ac_S3TestBucketPrefix c @ ''.unversioned''"

definition RandBytes :: "nat \<Rightarrow> ('w, bytes) trial" where
  "RandBytes sz s = (Done (stake sz (ax_rand s)), s\<lparr>ax_rand := sdrop sz (ax_rand s)\<rparr>)"

definition RandString :: "nat \<Rightarrow> ('w, string) trial" where
  "RandString sz = tbind (RandBytes sz) (\<lambda>bs. tdone (hex_encode bs))"

text \<open>The settings that reach the SDK; what is not set has the default of the SDK.\<close>

record aws_config =
  aws_Endpoint :: "string option"
  aws_S3ForcePathStyle :: "bool option"
  aws_Region :: "string option"
  aws_LogDebug :: bool

definition NewConfig :: aws_config where
  "NewConfig = \<lparr>aws_Endpoint = None, aws_S3ForcePathStyle = None, aws_Region = None, aws_LogDebug = False\<rparr>"

definition S3Client :: "(aws_config \<Rightarrow> 'w s3_client) \<Rightarrow> Config \<Rightarrow> 'w s3_client" where
  "S3Client sdk c =
     (let config = NewConfig;
          config = if ac_S3Endpoint c \<noteq> '''' then config\<lparr>aws_Endpoint := Some (ac_S3Endpoint c)\<rparr> else config;
          config = if ac_S3PathStyle c then config\<lparr>aws_S3ForcePathStyle := Some (ac_S3PathStyle c)\<rparr> else config;
          config = if ac_S3Region c \<noteq> '''' then config\<lparr>aws_Region := Some (ac_S3Region c)\<rparr> else config;
          config = if ac_Verbose c then config\<lparr>aws_LogDebug := True\<rparr> else config
      in sdk config)"

definition getBucketVersioning_call :: "'w s3_client \<Rightarrow> string \<Rightarrow> ('w, GetBucketVersioningOutput) trial" where
  "getBucketVersioning_call client bucket =
     tbind (call (cl_GetBucketVersioning client bucket)) (\<lambda>vers.
       let status = StringValue (bv_Status vers); mfaDelete = StringValue (bv_MFADelete vers)
       in if status \<noteq> '''' \<and> status \<noteq> ''Enabled'' \<and> status \<noteq> ''Suspended'' then
            tfail (''unexpected status '' @ quoted status)
          else if mfaDelete \<noteq> '''' \<and> mfaDelete \<noteq> ''Disabled'' then
            tfail (''unexpected MFADelete '' @ quoted mfaDelete)
          else tdone vers)"

definition EnsureVersioningEnabled :: "'w s3_client \<Rightarrow> string \<Rightarrow> ('w, unit) trial" where
  "EnsureVersioningEnabled client bucket =
     tbind (getBucketVersioning_call client bucket) (\<lambda>vers.
       if StringValue (bv_Status vers) \<noteq> ''Enabled'' then call (cl_PutBucketVersioning client bucket ''Enabled'')
       else tdone ())"

definition EnsureVersioningNeverEnabled :: "'w s3_client \<Rightarrow> string \<Rightarrow> ('w, unit) trial" where
  "EnsureVersioningNeverEnabled client bucket =
     tbind (getBucketVersioning_call client bucket) (\<lambda>vers.
       if StringValue (bv_Status vers) \<noteq> '''' then
         tfail (''unexpected status, found '' @ quoted (StringValue (bv_Status vers)))
       else tdone ())"

definition tseq :: "('w, 'a) trial \<Rightarrow> ('w, 'b) trial \<Rightarrow> ('w, 'b) trial" where
  "tseq m k = tbind m (\<lambda>_. k)"

definition random_key :: "('w, string) trial" where
  "random_key = tbind UnixNano (\<lambda>now. tbind (RandString 32) (\<lambda>r. tdone (int_str now @ ''/'' @ r)))"

section \<open>The tests\<close>

text \<open>
  \<open>S300001\<close>: after versioning was suspended, every version put before can be read by its ID. The range over the
  map goes in the order of insertion here; the order of Go is not defined.
\<close>

fun put_versions ::
    "'w s3_client \<Rightarrow> string \<Rightarrow> string \<Rightarrow> nat \<Rightarrow> (string \<times> bytes) list \<Rightarrow> ('w, (string \<times> bytes) list) trial" where
  "put_versions client bucket key 0 versions = tdone versions"
| "put_versions client bucket key (Suc n) versions =
     tbind (RandBytes 32) (\<lambda>body.
     tbind (call (cl_PutObject client bucket key body)) (\<lambda>rs.
       if StringValue rs = '''' then tfail ''missing version ID''
       else put_versions client bucket key n (AList.update (StringValue rs) body versions)))"

text \<open>\<open>readCloseBody\<close>\<close>

definition read_body :: "reader \<Rightarrow> ('w, bytes) trial" where
  "read_body rdr s =
     (case rd_err rdr of None \<Rightarrow> (Done (rd_bytes rdr), s) | Some e \<Rightarrow> (Failed (OtherError (err_text e)), s))"

fun read_versions :: "'w s3_client \<Rightarrow> string \<Rightarrow> string \<Rightarrow> (string \<times> bytes) list \<Rightarrow> ('w, unit) trial" where
  "read_versions client bucket key [] = tdone ()"
| "read_versions client bucket key ((ver, body) # versions) =
     tbind (call (cl_GetObject client bucket key (Some ver))) (\<lambda>rs.
     tbind (read_body rs) (\<lambda>rbody.
       if body \<noteq> rbody then tfail ''version not equal'' else read_versions client bucket key versions))"

definition S300001_Run :: "(aws_config \<Rightarrow> 'w s3_client) \<Rightarrow> Config \<Rightarrow> ('w, unit) trial" where
  "S300001_Run sdk config =
     (let client = S3Client sdk config; bucket = BucketStandard config
      in tseq (EnsureVersioningEnabled client bucket)
        (tbind random_key (\<lambda>key.
         tbind (put_versions client bucket key 3 []) (\<lambda>versions.
         tseq (call (cl_PutBucketVersioning client bucket ''Suspended''))
           (tbind (call (cl_GetBucketVersioning client bucket)) (\<lambda>vers.
              if StringValue (bv_Status vers) \<noteq> ''Suspended'' then
                tfail (''unexpected status '' @ quoted (StringValue (bv_Status vers)))
              else read_versions client bucket key versions))))))"

text \<open>\<open>S300002\<close>: deleting a version that does not exist (any more) is no error.\<close>

fun put_keep_first :: "'w s3_client \<Rightarrow> string \<Rightarrow> string \<Rightarrow> nat list \<Rightarrow> string \<Rightarrow> ('w, string) trial" where
  "put_keep_first client bucket key [] versionID = tdone versionID"
| "put_keep_first client bucket key (i # is) versionID =
     tbind (RandBytes 32) (\<lambda>body.
     tbind (call (cl_PutObject client bucket key body)) (\<lambda>vrs.
       if i = 0 then
         (if StringValue vrs = '''' then tfail ''version ID missing''
          else put_keep_first client bucket key is (StringValue vrs))
       else put_keep_first client bucket key is versionID))"

definition S300002_Run :: "(aws_config \<Rightarrow> 'w s3_client) \<Rightarrow> Config \<Rightarrow> ('w, unit) trial" where
  "S300002_Run sdk config =
     (let client = S3Client sdk config; bucket = BucketStandard config
      in tbind random_key (\<lambda>key.
         tseq (EnsureVersioningEnabled client bucket)
        (tbind (put_keep_first client bucket key [0, 1] '''') (\<lambda>versionID.
         tseq (call (cl_DeleteObject client bucket key (Some versionID)))
        (call (cl_DeleteObject client bucket key (Some versionID)))))))"

text \<open>\<open>S300003\<close>: nor is deleting a version of an object that does not exist any more.\<close>

definition list_input :: "string \<Rightarrow> string \<Rightarrow> ListObjectVersionsInput" where
  "list_input bucket prefix =
     \<lparr>li_Bucket = bucket, li_Prefix = prefix, li_MaxKeys = None, li_KeyMarker = None, li_VersionIdMarker = None\<rparr>"

definition S300003_Run :: "(aws_config \<Rightarrow> 'w s3_client) \<Rightarrow> Config \<Rightarrow> ('w, unit) trial" where
  "S300003_Run sdk config =
     (let client = S3Client sdk config; bucket = BucketStandard config
      in tbind random_key (\<lambda>key.
         tseq (EnsureVersioningEnabled client bucket)
        (tbind (RandBytes 32) (\<lambda>body.
         tbind (call (cl_PutObject client bucket key body)) (\<lambda>vrs.
           let versionID = StringValue vrs
           in if versionID = '''' then tfail ''version ID missing''
              else
                tseq (call (cl_DeleteObject client bucket key (Some versionID)))
               (tbind (call (cl_ListObjectVersions client (list_input bucket key))) (\<lambda>rs.
                  if 0 < length (lo_Versions rs) \<or> 0 < length (lo_DeleteMarkers rs) then
                    tfail ''versions detected after delete''
                  else call (cl_DeleteObject client bucket key (Some versionID)))))))))"

text \<open>Two puts of each of two random keys with a common prefix, as \<open>S300004\<close> and later tests do it.\<close>

fun put_key :: "'w s3_client \<Rightarrow> string \<Rightarrow> string \<Rightarrow> nat \<Rightarrow> string list \<Rightarrow> ('w, string list) trial" where
  "put_key client bucket key 0 vs = tdone vs"
| "put_key client bucket key (Suc n) vs =
     tbind (RandBytes 32) (\<lambda>body.
     tbind (call (cl_PutObject client bucket key body)) (\<lambda>vrs.
       put_key client bucket key n (vs @ [StringValue vrs])))"

fun put_keys ::
    "'w s3_client \<Rightarrow> string \<Rightarrow> string list \<Rightarrow> (string \<times> string list) list \<Rightarrow>
     ('w, (string \<times> string list) list) trial" where
  "put_keys client bucket [] versions = tdone versions"
| "put_keys client bucket (key # keys) versions =
     tbind (put_key client bucket key 2 (case map_of versions key of None \<Rightarrow> [] | Some vs \<Rightarrow> vs)) (\<lambda>vs.
       put_keys client bucket keys (AList.update key vs versions))"

definition random_keys :: "string \<Rightarrow> nat \<Rightarrow> ('w, string list) trial" where
  "random_keys prefix sz =
     tbind (RandString sz) (\<lambda>r1. tbind (RandString sz) (\<lambda>r2. tdone [prefix @ r1, prefix @ r2]))"

definition strings_Contains :: "string \<Rightarrow> string \<Rightarrow> bool" where
  "strings_Contains s sub \<longleftrightarrow> index_of s sub \<noteq> None"

text \<open>An error that must be \<open>InvalidArgument\<close> with some words in its message.\<close>

definition expect_invalid :: "string \<Rightarrow> assume_error + 'a \<Rightarrow> ('w, unit) trial" where
  "expect_invalid msg r =
     (case r of
        Inr _ \<Rightarrow> tfail ''expected error''
      | Inl (AwsError code txt err True) \<Rightarrow>
          if code \<noteq> ''InvalidArgument'' \<or> \<not> strings_Contains txt msg then tfail (''unexpected error '' @ err) else tdone ()
      | Inl _ \<Rightarrow> tfail ''unexpected error <nil>'')"

text \<open>\<open>S300004\<close>: how the markers of a listing of versions depend on each other.\<close>

definition S300004_Run :: "(aws_config \<Rightarrow> 'w s3_client) \<Rightarrow> Config \<Rightarrow> ('w, unit) trial" where
  "S300004_Run sdk config =
     (let client = S3Client sdk config; bucket = BucketStandard config
      in tseq (EnsureVersioningEnabled client bucket)
        (tbind (RandString 50) (\<lambda>prefix.
         tbind (random_keys prefix 100) (\<lambda>keys.
         tbind (put_keys client bucket keys []) (\<lambda>versions.
         tbind (call (cl_ListObjectVersions client (list_input bucket prefix))) (\<lambda>rs.
           if length (lo_Versions rs) \<noteq> 4 then tfail ''unexpected version length''
           else
             (let page = (list_input bucket prefix)\<lparr>li_MaxKeys := Some 1\<rparr>
              in tbind (call (cl_ListObjectVersions client page)) (\<lambda>page1.
                 tbind (try_call (cl_ListObjectVersions client
                     (page\<lparr>li_VersionIdMarker := lo_NextVersionIdMarker page1\<rparr>))) (\<lambda>r.
                 tseq (expect_invalid ''version-id marker cannot be specified without a key marker'' r)
                (tbind (try_call (cl_ListObjectVersions client
                     (page\<lparr>li_KeyMarker := lo_NextKeyMarker page1, li_VersionIdMarker := Some ''''\<rparr>))) (\<lambda>r.
                 tseq (expect_invalid ''version-id marker cannot be empty'' r)
                (tbind (try_call (cl_ListObjectVersions client
                     (page\<lparr>li_KeyMarker := Some '''', li_VersionIdMarker := lo_NextVersionIdMarker page1\<rparr>))) (\<lambda>r.
                   case r of
                     Inl e \<Rightarrow> tfail (''unexpected error '' @ error_text e)
                   | Inr resultPage \<Rightarrow>
                       tbind (first_of (lo_Versions resultPage)) (\<lambda>v.
                       tbind (first_of (lo_Versions page1)) (\<lambda>v1.
                         if StringValue v \<noteq> StringValue v1 then
                           tfail (''unexpected version id '' @ StringValue v @ '', expected '' @ StringValue v1)
                         else
                           tbind (try_call (cl_ListObjectVersions client
                               (page\<lparr>li_KeyMarker := lo_NextKeyMarker page1\<rparr>))) (\<lambda>r.
                             case r of Inl _ \<Rightarrow> tfail ''unexpected error'' | Inr _ \<Rightarrow> tdone ()))))))))))))))))"

text \<open>\<open>S300005\<close>: versions can be listed where versioning was never enabled; their IDs are the text null.\<close>

definition S300005_Run :: "(aws_config \<Rightarrow> 'w s3_client) \<Rightarrow> Config \<Rightarrow> ('w, unit) trial" where
  "S300005_Run sdk config =
     (let client = S3Client sdk config; bucket = BucketUnversioned config
      in tseq (EnsureVersioningNeverEnabled client bucket)
        (tbind (RandString 50) (\<lambda>prefix.
         tbind (random_keys prefix 100) (\<lambda>keys.
         tbind (put_keys client bucket keys []) (\<lambda>versions.
         tbind (call (cl_ListObjectVersions client (list_input bucket prefix))) (\<lambda>rs.
           if length (lo_Versions rs) \<noteq> 2 then tfail ''unexpected version length''
           else
             (case find (\<lambda>ver. StringValue ver \<noteq> ''null'') (lo_Versions rs) of
                Some ver \<Rightarrow> tfail (''version id was not nil; found '' @ quoted (StringValue ver))
              | None \<Rightarrow> tdone ())))))))"

text \<open>\<open>S300006\<close> and \<open>S300007\<close>: calls on a bucket that does not exist fail with \<open>NoSuchBucket\<close>.\<close>

definition global_name :: "('w, string) trial" where
  "global_name s =
     (Done (hex_encode (stake 40 (ax_global_rand s))), s\<lparr>ax_global_rand := sdrop 40 (ax_global_rand s)\<rparr>)"

definition expect_no_bucket :: "assume_error + 'a \<Rightarrow> ('w, unit) trial" where
  "expect_no_bucket r =
     (case r of
        Inl (AwsError code _ _ _) \<Rightarrow>
          if code \<noteq> ''NoSuchBucket'' then tfail (''expected NoSuchBucket, found '' @ code) else tdone ()
      | Inl e \<Rightarrow> (\<lambda>s. (Failed e, s))
      | Inr _ \<Rightarrow> tfail ''expected NoSuchBucket, but call succeeded'')"

definition S300006_Run :: "(aws_config \<Rightarrow> 'w s3_client) \<Rightarrow> Config \<Rightarrow> ('w, unit) trial" where
  "S300006_Run sdk config =
     (let client = S3Client sdk config
      in tbind global_name (\<lambda>bucket.
         tbind (try_call (cl_GetBucketLocation client bucket)) expect_no_bucket))"

definition S300007_Run :: "(aws_config \<Rightarrow> 'w s3_client) \<Rightarrow> Config \<Rightarrow> ('w, unit) trial" where
  "S300007_Run sdk config =
     (let client = S3Client sdk config
      in tbind global_name (\<lambda>bucket.
         tbind (try_call (cl_GetBucketVersioning client bucket)) (\<lambda>r.
         tseq (expect_no_bucket r)
        (tbind (try_call (cl_PutBucketVersioning client ''gofakes3.shabbyrobe.org'' ''enorbled''))
           expect_no_bucket))))"

text \<open>\<open>S300008\<close>: an ordinary listing hides objects whose current version is a delete marker.\<close>

definition S300008_Run :: "(aws_config \<Rightarrow> 'w s3_client) \<Rightarrow> Config \<Rightarrow> ('w, unit) trial" where
  "S300008_Run sdk config =
     (let client = S3Client sdk config; bucket = BucketStandard config
      in tseq (EnsureVersioningEnabled client bucket)
        (tbind (RandString 10) (\<lambda>r.
         let prefix = r @ ''/''
         in tbind (random_keys prefix 20) (\<lambda>keys.
            tbind (put_keys client bucket keys []) (\<lambda>versions.
            tseq (call (cl_DeleteObjects client bucket [(keys ! 0, None)]))
           (tbind (call (cl_ListObjects client bucket prefix)) (\<lambda>page1.
              if length page1 \<noteq> 1 then
                tfail (''unexpected number of objects '' @ int_str (int (length page1)) @ '' but expected 1'')
              else
                tbind (first_of page1) (\<lambda>k.
                  if StringValue k \<noteq> keys ! 1 then
                    tfail (''unexpected key '' @ quoted (StringValue k) @ '' but expected '' @ quoted (keys ! 1))
                  else tdone ()))))))))"

text \<open>\<open>S300009\<close>: one call deletes several versions of several objects.\<close>

fun version_ids :: "(string \<times> string list) list \<Rightarrow> string list \<Rightarrow> (string \<times> string option) list" where
  "version_ids versions [] = []"
| "version_ids versions (key # keys) =
     map (\<lambda>vrs. (key, Some vrs)) (case map_of versions key of None \<Rightarrow> [] | Some vs \<Rightarrow> vs) @ version_ids versions keys"

definition S300009_Run :: "(aws_config \<Rightarrow> 'w s3_client) \<Rightarrow> Config \<Rightarrow> ('w, unit) trial" where
  "S300009_Run sdk config =
     (let client = S3Client sdk config; bucket = BucketStandard config
      in tseq (EnsureVersioningEnabled client bucket)
        (tbind (RandString 10) (\<lambda>r.
         let prefix = r @ ''/''
         in tbind (random_keys prefix 20) (\<lambda>keys.
            tbind (put_keys client bucket keys []) (\<lambda>versions.
            tbind (call (cl_ListObjectVersions client (list_input bucket prefix))) (\<lambda>rs.
              if length (lo_Versions rs) \<noteq> 4 then
                tfail (''unexpected number of objects '' @ int_str (int (length (lo_Versions rs))) @ '' but expected 1'')
              else
                tbind (try_call (cl_DeleteObjects client bucket (version_ids versions keys))) (\<lambda>res.
                  case res of
                    Inl e \<Rightarrow> tfail (error_text e)
                  | Inr _ \<Rightarrow>
                      tbind (call (cl_ListObjectVersions client (list_input bucket prefix))) (\<lambda>rs.
                        if 0 < length (lo_Versions rs) then
                          tfail (''unexpected number of objects '' @ int_str (int (length (lo_Versions rs))) @
                                 '' but expected 0'')
                        else tdone ()))))))))"

section \<open>The program\<close>

datatype Test =
    S300001GetVersionAfterVersioningSuspended | S300002DeleteNonexistentVersion
  | S300003DeleteVersionFromNonexistentObject | S300004ListVersionsWithVersionMarkerButNoKeyMarker
  | S300005ListVersionsWithNeverVersionedBucket | S300006GetBucketLocationNoSuchBucket
  | S300007BucketVersioningNoSuchBucket | S300008HideDeleteMarkers
  | S300009DeleteMultipleVersionsOfMultipleObjects

definition tests :: "Test list" where
  "tests =
     [S300001GetVersionAfterVersioningSuspended, S300002DeleteNonexistentVersion,
      S300003DeleteVersionFromNonexistentObject, S300004ListVersionsWithVersionMarkerButNoKeyMarker,
      S300005ListVersionsWithNeverVersionedBucket, S300006GetBucketLocationNoSuchBucket,
      S300007BucketVersioningNoSuchBucket, S300008HideDeleteMarkers,
      S300009DeleteMultipleVersionsOfMultipleObjects]"

fun testName :: "Test \<Rightarrow> string" where
  "testName S300001GetVersionAfterVersioningSuspended = ''S300001GetVersionAfterVersioningSuspended''"
| "testName S300002DeleteNonexistentVersion = ''S300002DeleteNonexistentVersion''"
| "testName S300003DeleteVersionFromNonexistentObject = ''S300003DeleteVersionFromNonexistentObject''"
| "testName S300004ListVersionsWithVersionMarkerButNoKeyMarker =
     ''S300004ListVersionsWithVersionMarkerButNoKeyMarker''"
| "testName S300005ListVersionsWithNeverVersionedBucket = ''S300005ListVersionsWithNeverVersionedBucket''"
| "testName S300006GetBucketLocationNoSuchBucket = ''S300006GetBucketLocationNoSuchBucket''"
| "testName S300007BucketVersioningNoSuchBucket = ''S300007BucketVersioningNoSuchBucket''"
| "testName S300008HideDeleteMarkers = ''S300008HideDeleteMarkers''"
| "testName S300009DeleteMultipleVersionsOfMultipleObjects = ''S300009DeleteMultipleVersionsOfMultipleObjects''"

fun Test_Run :: "(aws_config \<Rightarrow> 'w s3_client) \<Rightarrow> Config \<Rightarrow> Test \<Rightarrow> ('w, unit) trial" where
  "Test_Run sdk config S300001GetVersionAfterVersioningSuspended = S300001_Run sdk config"
| "Test_Run sdk config S300002DeleteNonexistentVersion = S300002_Run sdk config"
| "Test_Run sdk config S300003DeleteVersionFromNonexistentObject = S300003_Run sdk config"
| "Test_Run sdk config S300004ListVersionsWithVersionMarkerButNoKeyMarker = S300004_Run sdk config"
| "Test_Run sdk config S300005ListVersionsWithNeverVersionedBucket = S300005_Run sdk config"
| "Test_Run sdk config S300006GetBucketLocationNoSuchBucket = S300006_Run sdk config"
| "Test_Run sdk config S300007BucketVersioningNoSuchBucket = S300007_Run sdk config"
| "Test_Run sdk config S300008HideDeleteMarkers = S300008_Run sdk config"
| "Test_Run sdk config S300009DeleteMultipleVersionsOfMultipleObjects = S300009_Run sdk config"

text \<open>The lines it prints: names of tests, and failures.\<close>

datatype printed = PrintName string | PrintFail string assume_error

text \<open>
  Each test that the pattern selects runs, whether those before it failed or not; a panic ends the program. The
  flag says that it has not ended so.
\<close>

fun run_tests ::
    "(aws_config \<Rightarrow> 'w s3_client) \<Rightarrow> Config \<Rightarrow> (string \<Rightarrow> bool) option \<Rightarrow> Test list \<Rightarrow> 'w assumer \<Rightarrow>
     (printed list \<times> bool) \<times> 'w assumer" where
  "run_tests sdk config pattern [] s = (([], True), s)"
| "run_tests sdk config pattern (test # rest) s =
     (let name = testName test
      in if (case pattern of None \<Rightarrow> False | Some matches \<Rightarrow> \<not> matches name) then run_tests sdk config pattern rest s
         else
           (case Test_Run sdk config test s of
              (Crashed, s') \<Rightarrow> (([PrintName name, PrintName name], False), s')
            | (r, s') \<Rightarrow>
                (case run_tests sdk config pattern rest s' of
                   ((out, ok), s'') \<Rightarrow>
                     (([PrintName name, PrintName name] @
                       (case r of Failed e \<Rightarrow> [PrintFail name e] | _ \<Rightarrow> []) @ out, ok), s''))))"

record assumer_flags =
  af_config :: Config
  af_patternRaw :: string

definition zero_assumer_flags :: assumer_flags where
  "zero_assumer_flags =
     \<lparr>af_config = \<lparr>ac_S3Endpoint = '''', ac_S3Region = '''', ac_S3PathStyle = False,
        ac_S3TestBucketPrefix = '''', ac_Verbose = False\<rparr>, af_patternRaw = ''''\<rparr>"

definition assumer_attach :: "(string \<times> assumer_flags flag) list" where
  "assumer_attach =
     [(''region'', StringVar (\<lambda>s. af_config_update (ac_S3Region_update (\<lambda>_. s))) ''''),
      (''endpoint'', StringVar (\<lambda>s. af_config_update (ac_S3Endpoint_update (\<lambda>_. s))) ''''),
      (''bucketprefix'', StringVar (\<lambda>s. af_config_update (ac_S3TestBucketPrefix_update (\<lambda>_. s))) ''''),
      (''run'', StringVar (\<lambda>s. af_patternRaw_update (\<lambda>_. s)) ''''),
      (''verbose'', BoolVar (\<lambda>b. af_config_update (ac_Verbose_update (\<lambda>_. b))) False),
      (''pathstyle'', BoolVar (\<lambda>b. af_config_update (ac_S3PathStyle_update (\<lambda>_. b))) False)]"

text \<open>\<open>compile\<close> is \<open>regexp.Compile\<close>: the names that match, or a message.\<close>

definition assumer_run ::
    "(string \<Rightarrow> (string \<Rightarrow> bool) + string) \<Rightarrow> (aws_config \<Rightarrow> 'w s3_client) \<Rightarrow> string list \<Rightarrow> 'w assumer \<Rightarrow>
     (printed list \<times> bool) res \<times> 'w assumer" where
  "assumer_run compile sdk args s =
     (case parse_args assumer_attach args (fold set_default (map snd assumer_attach) zero_assumer_flags) of
        (_, Some e) \<Rightarrow> (Err e, s)
      | (f, None) \<Rightarrow>
          if ac_S3TestBucketPrefix (af_config f) = '''' then (Err (EOther ''--bucketprefix flag required''), s)
          else
            (case (if af_patternRaw f = '''' then Inl None
                   else case compile (af_patternRaw f) of Inl p \<Rightarrow> Inl (Some p) | Inr msg \<Rightarrow> Inr msg) of
               Inr msg \<Rightarrow> (Err (EOther msg), s)
             | Inl pattern \<Rightarrow>
                 (case run_tests sdk (af_config f) pattern tests s of (r, s') \<Rightarrow> (Ok r, s'))))"

end
