(* ===== verification/AssumerService.thy ===== *)
theory AssumerService
  imports Assumer
begin

text \<open>
  What the tests \<open>S300001\<close> and \<open>S300002\<close> of \<open>s3assumer\<close> need of the service that they run against, as the documentation
  of S3 has it of buckets with versions, and that they pass if they get it. The SDK and the service stay
  parameters.
\<close>

text \<open>The status of a bucket as the SDK reports it: nothing if versioning was never enabled.\<close>

fun status_text :: "VersioningStatus \<Rightarrow> string option" where
  "status_text VersioningNone = None"
| "status_text VersioningEnabled = Some ''Enabled''"
| "status_text VersioningSuspended = Some ''Suspended''"

section \<open>A service with versions\<close>

text \<open>
  \<open>status\<close> is the versioning of a bucket, \<open>log\<close> the versions of a key that can be read, with their bodies,
  \<open>room n\<close> says that a key can be put \<open>n\<close> more times.
\<close>

locale versioned_service =
  fixes client :: "'w s3_client" and status :: "'w \<Rightarrow> string \<Rightarrow> VersioningStatus"
    and log :: "'w \<Rightarrow> string \<Rightarrow> string \<Rightarrow> (string \<times> bytes) list"
    and room :: "nat \<Rightarrow> string \<Rightarrow> string \<Rightarrow> 'w \<Rightarrow> bool" and version_id :: "string \<Rightarrow> bool"
  assumes get_versioning: "room n b k w \<Longrightarrow> \<exists>w'.
      cl_GetBucketVersioning client b w =
        (Inr \<lparr>bv_Status = status_text (status w b), bv_MFADelete = None\<rparr>, w') \<and>
      status w' b = status w b \<and> log w' b k = log w b k \<and> room n b k w'"
    and put_versioning: "room n b k w \<Longrightarrow> status_text st = Some txt \<Longrightarrow> st = VersioningEnabled \<or> status w b = VersioningEnabled \<Longrightarrow>
      \<exists>w'. cl_PutBucketVersioning client b txt w = (Inr (), w') \<and>
        status w' b = st \<and> log w' b k = log w b k \<and> room n b k w'"
    and put_object: "room (Suc n) b k w \<Longrightarrow> status w b = VersioningEnabled \<Longrightarrow> length body = 32 \<Longrightarrow>
      \<exists>ver w'. cl_PutObject client b k body w = (Inr (Some ver), w') \<and>
        version_id ver \<and> ver \<noteq> '''' \<and> ver \<notin> fst ` set (log w b k) \<and> log w' b k = log w b k @ [(ver, body)] \<and>
        status w' b = VersioningEnabled \<and> room n b k w'"
    and get_object: "room n b k w \<Longrightarrow> (ver, body) \<in> set (log w b k) \<Longrightarrow>
      \<exists>w'. cl_GetObject client b k (Some ver) w = (Inr (bytes_reader body), w') \<and>
        status w' b = status w b \<and> log w' b k = log w b k \<and> room n b k w'"
    and delete_version: "room n b k w \<Longrightarrow> version_id ver \<Longrightarrow>
      \<exists>w'. cl_DeleteObject client b k (Some ver) w = (Inr (), w') \<and>
        log w' b k = filter (\<lambda>e. fst e \<noteq> ver) (log w b k) \<and> status w' b = status w b \<and> room 0 b k w'"
begin

lemma call_Inr: "op (ax_world s) = (Inr x, w) \<Longrightarrow> call op s = (Done x, s\<lparr>ax_world := w\<rparr>)"
  by (simp add: call_def tbind_def try_call_def)

lemma ensure_enabled:
  assumes "room n b k (ax_world s)"
  shows "\<exists>w. EnsureVersioningEnabled client b s = (Done (), s\<lparr>ax_world := w\<rparr>) \<and>
    status w b = VersioningEnabled \<and> log w b k = log (ax_world s) b k \<and> room n b k w"
proof -
  obtain w where w: "cl_GetBucketVersioning client b (ax_world s) =
      (Inr \<lparr>bv_Status = status_text (status (ax_world s) b), bv_MFADelete = None\<rparr>, w)"
    "status w b = status (ax_world s) b" "log w b k = log (ax_world s) b k" "room n b k w"
    using get_versioning [OF assms] by blast
  have v: "getBucketVersioning_call client b s =
      (Done \<lparr>bv_Status = status_text (status w b), bv_MFADelete = None\<rparr>, s\<lparr>ax_world := w\<rparr>)"
    using call_Inr [of "cl_GetBucketVersioning client b" s, OF w(1)] w(2)
    by (cases "status w b") (simp_all add: getBucketVersioning_call_def tbind_def tdone_def StringValue_def Let_def)
  show ?thesis
  proof (cases "status w b = VersioningEnabled")
    case True
    then show ?thesis using v w
      by (simp add: EnsureVersioningEnabled_def tbind_def tdone_def StringValue_def) blast
  next
    case False
    obtain w2 where w2: "cl_PutBucketVersioning client b ''Enabled'' w = (Inr (), w2)"
      "status w2 b = VersioningEnabled" "log w2 b k = log w b k" "room n b k w2"
      using put_versioning [OF w(4), of VersioningEnabled "''Enabled''"] by auto
    have "StringValue (status_text (status w b)) \<noteq> ''Enabled''"
      using False by (cases "status w b") (simp_all add: StringValue_def)
    then show ?thesis
      using v w(3) w2 call_Inr [of "cl_PutBucketVersioning client b ''Enabled''" "s\<lparr>ax_world := w\<rparr>" "()" w2]
      by (simp add: EnsureVersioningEnabled_def tbind_def) blast
  qed
qed

lemma update_subset: "set (AList.update k v al) \<subseteq> insert (k, v) (set al)"
  by (induction al) auto

lemma put_versions_done:
  assumes "room n b k (ax_world s)" "status (ax_world s) b = VersioningEnabled"
    and "set vs \<subseteq> set (log (ax_world s) b k)"
  shows "\<exists>vs' s'. put_versions client b k n vs s = (Done vs', s') \<and> set vs' \<subseteq> set (log (ax_world s') b k) \<and>
    status (ax_world s') b = VersioningEnabled \<and> room 0 b k (ax_world s')"
  using assms
proof (induction n arbitrary: vs s)
  case (Suc n)
  let ?body = "stake 32 (ax_rand s)" and ?s = "s\<lparr>ax_rand := sdrop 32 (ax_rand s)\<rparr>"
  obtain ver w where w: "cl_PutObject client b k ?body (ax_world s) = (Inr (Some ver), w)" "ver \<noteq> ''''"
      "log w b k = log (ax_world s) b k @ [(ver, ?body)]" "status w b = VersioningEnabled" "room n b k w"
    using put_object [OF Suc.prems(1,2), of ?body] by auto
  have c: "call (cl_PutObject client b k ?body) ?s = (Done (Some ver), ?s\<lparr>ax_world := w\<rparr>)"
    using w(1) by (simp add: call_Inr)
  have "set (AList.update ver ?body vs) \<subseteq> set (log w b k)"
    using update_subset [of ver ?body vs] Suc.prems(3) w(3) by auto
  then show ?case
    using Suc.IH [of "?s\<lparr>ax_world := w\<rparr>" "AList.update ver ?body vs"] w c
    by (simp add: tbind_def RandBytes_def StringValue_def)
qed (auto simp: tdone_def)

lemma read_versions_done:
  assumes "room n b k (ax_world s)" "set vs \<subseteq> set (log (ax_world s) b k)"
  shows "\<exists>s'. read_versions client b k vs s = (Done (), s')"
  using assms
proof (induction vs arbitrary: s)
  case (Cons v vs)
  obtain ver body where v: "v = (ver, body)" by (cases v)
  obtain w where w: "cl_GetObject client b k (Some ver) (ax_world s) = (Inr (bytes_reader body), w)"
      "log w b k = log (ax_world s) b k" "room n b k w"
    using get_object [OF Cons.prems(1), of ver body] Cons.prems(2) v by auto
  show ?case
    using Cons.IH [of "s\<lparr>ax_world := w\<rparr>"] Cons.prems(2) w call_Inr [of "cl_GetObject client b k (Some ver)" s, OF w(1)]
    by (simp add: v tbind_def read_body_def bytes_reader_def)
qed (simp add: tdone_def)

lemma random_key_eq:
  "random_key s =
     (Done (int_str (shd (ax_clock s)) @ ''/'' @ hex_encode (stake 32 (ax_rand s))),
      s\<lparr>ax_clock := stl (ax_clock s), ax_rand := sdrop 32 (ax_rand s)\<rparr>)"
  by (simp add: random_key_def tbind_def UnixNano_def RandString_def RandBytes_def tdone_def)

text \<open>The two tests pass.\<close>

lemma S300001_done:
  assumes "S3Client sdk config = client" "BucketStandard config = b"
    and "int_str (shd (ax_clock s)) @ ''/'' @ hex_encode (stake 32 (ax_rand s)) = k" "room 3 b k (ax_world s)"
  shows "\<exists>s'. S300001_Run sdk config s = (Done (), s')"
proof -
  obtain w1 where 1: "EnsureVersioningEnabled client b s = (Done (), s\<lparr>ax_world := w1\<rparr>)"
      "status w1 b = VersioningEnabled" "room 3 b k w1"
    using ensure_enabled [OF assms(4)] by blast
  let ?s2 = "s\<lparr>ax_world := w1, ax_clock := stl (ax_clock s), ax_rand := sdrop 32 (ax_rand s)\<rparr>"
  have 2: "random_key (s\<lparr>ax_world := w1\<rparr>) = (Done k, ?s2)"
    using assms(3) by (simp add: random_key_eq)
  obtain vs s3 where 3: "put_versions client b k 3 [] ?s2 = (Done vs, s3)"
      "set vs \<subseteq> set (log (ax_world s3) b k)" "status (ax_world s3) b = VersioningEnabled" "room 0 b k (ax_world s3)"
    using put_versions_done [of 3 b k ?s2 "[]"] 1(2,3) by auto
  obtain w4 where 4: "cl_PutBucketVersioning client b ''Suspended'' (ax_world s3) = (Inr (), w4)"
      "status w4 b = VersioningSuspended" "log w4 b k = log (ax_world s3) b k" "room 0 b k w4"
    using put_versioning [OF 3(4), of VersioningSuspended "''Suspended''"] 3(3) by auto
  obtain w5 where 5: "cl_GetBucketVersioning client b w4 =
      (Inr \<lparr>bv_Status = Some ''Suspended'', bv_MFADelete = None\<rparr>, w5)"
      "log w5 b k = log w4 b k" "room 0 b k w5"
    using get_versioning [OF 4(4)] 4(2) by auto
  obtain s6 where 6: "read_versions client b k vs (s3\<lparr>ax_world := w5\<rparr>) = (Done (), s6)"
    using read_versions_done [of 0 b k "s3\<lparr>ax_world := w5\<rparr>" vs] 3(2) 4(3) 5(2,3) by auto
  have "call (cl_PutBucketVersioning client b ''Suspended'') s3 = (Done (), s3\<lparr>ax_world := w4\<rparr>)"
    "call (cl_GetBucketVersioning client b) (s3\<lparr>ax_world := w4\<rparr>) =
      (Done \<lparr>bv_Status = Some ''Suspended'', bv_MFADelete = None\<rparr>, s3\<lparr>ax_world := w5\<rparr>)"
    using 4(1) 5(1) by (simp_all add: call_Inr)
  then show ?thesis
    using 1(1) 2 3(1) 6 by (simp add: S300001_Run_def assms(1,2) Let_def tseq_def tbind_def StringValue_def)
qed

lemma S300002_done:
  assumes "S3Client sdk config = client" "BucketStandard config = b"
    and "int_str (shd (ax_clock s)) @ ''/'' @ hex_encode (stake 32 (ax_rand s)) = k" "room 2 b k (ax_world s)"
  shows "\<exists>s'. S300002_Run sdk config s = (Done (), s')"
proof -
  let ?s1 = "s\<lparr>ax_clock := stl (ax_clock s), ax_rand := sdrop 32 (ax_rand s)\<rparr>"
  have 1: "random_key s = (Done k, ?s1)" using assms(3) by (simp add: random_key_eq)
  obtain w2 where 2: "EnsureVersioningEnabled client b ?s1 = (Done (), ?s1\<lparr>ax_world := w2\<rparr>)"
      "status w2 b = VersioningEnabled" "room 2 b k w2"
    using ensure_enabled [of 2 b k ?s1] assms(4) by auto
  let ?body = "stake 32 (sdrop 32 (ax_rand s))" and ?body' = "stake 32 (sdrop 64 (ax_rand s))"
  obtain ver w3 where 3: "cl_PutObject client b k ?body w2 = (Inr (Some ver), w3)" "ver \<noteq> ''''" "version_id ver"
      "status w3 b = VersioningEnabled" "room 1 b k w3"
    using put_object [of 1 b k w2 ?body] 2(2,3) by (auto simp: numeral_2_eq_2)
  obtain ver' w4 where 4: "cl_PutObject client b k ?body' w3 = (Inr (Some ver'), w4)" "room 0 b k w4"
    using put_object [of 0 b k w3 ?body'] 3(4,5) by auto
  obtain w5 where 5: "cl_DeleteObject client b k (Some ver) w4 = (Inr (), w5)" "room 0 b k w5"
    using delete_version [OF 4(2) 3(3)] by blast
  obtain w6 where 6: "cl_DeleteObject client b k (Some ver) w5 = (Inr (), w6)"
    using delete_version [OF 5(2) 3(3)] by blast
  have "put_keep_first client b k [0, 1] '''' (?s1\<lparr>ax_world := w2\<rparr>) =
      (Done ver, ?s1\<lparr>ax_world := w4, ax_rand := sdrop 96 (ax_rand s)\<rparr>)"
    using 3(1,2) 4(1) by (simp add: tbind_def RandBytes_def call_Inr StringValue_def tdone_def sdrop_add)
  then show ?thesis
    using 1 2(1) 5(1) 6 by (simp add: S300002_Run_def assms(1,2) Let_def tseq_def tbind_def call_Inr)
qed

end

end
