(* ===== verification/AssumerServer.thy ===== *)
theory AssumerServer
  imports AssumerService MemServer MemVersionFacts
begin

text \<open>
  The server of \<open>gofakes3\<close> over \<open>s3mem\<close> as a service with versions: with a plain client in front of it, it keeps
  the laws that \<open>AssumerService\<close> states.
\<close>

section \<open>A plain client\<close>

text \<open>
  One client that meets the laws, to show that the server can be such a service. It is not the SDK, which has no model
  here: it sends one request for each call, with the bucket in the path whatever the configuration, and without a
  signature and its date; it reads the answer off the status, the headers and the documents.
  \<open>codec\<close> encodes the two documents that are sent.
\<close>

record plain_codec =
  codec_versioning :: "string \<Rightarrow> bytes"
  codec_delete :: "(string \<times> string option) list \<Rightarrow> bytes"

definition object_path :: "string \<Rightarrow> string \<Rightarrow> string" where
  "object_path b k = ''/'' @ b @ ''/'' @ k"

definition plain_request :: "string \<Rightarrow> string \<Rightarrow> url_values \<Rightarrow> bytes \<Rightarrow> request" where
  "plain_request meth path query body =
     \<lparr>rq_Method = meth, rq_Host = ''localhost'', rq_Path = path, rq_Query = query,
      rq_Header = [(''Content-Length'', [int_str (int (length body))])], rq_ContentLength = int (length body),
      rq_Body = bytes_reader body, rq_TLS = False\<rparr>"

fun response_doc :: "body_item list \<Rightarrow> document option" where
  "response_doc [] = None"
| "response_doc (Doc d # items) = Some d"
| "response_doc (Raw _ # items) = response_doc items"

definition response_bytes :: "body_item list \<Rightarrow> bytes" where
  "response_bytes items = concat (map (\<lambda>i. case i of Raw bs \<Rightarrow> bs | Doc _ \<Rightarrow> []) items)"

fun error_message :: "s3error \<Rightarrow> string" where
  "error_message (EResponse r) = er_Message r"
| "error_message (EInvalidArgumentResponse r _ _) = er_Message r"
| "error_message (EResourceResponse r _) = er_Message r"
| "error_message (ESkewedResponse r _ _) = er_Message r"
| "error_message _ = ''''"

definition response_error :: "responseWriter \<Rightarrow> assume_error" where
  "response_error w =
     (case response_doc (rw_body w) of
        Some (DError e) \<Rightarrow>
          AwsError (case err_ErrorCode e of Some c \<Rightarrow> code_string c | None \<Rightarrow> '''') (error_message e) (err_text e) True
      | _ \<Rightarrow> AwsError ''SerializationError'' '''' ''SerializationError'' True)"

definition send ::
    "server_env \<Rightarrow> 'w gofakes3 \<Rightarrow> int \<Rightarrow> request \<Rightarrow> (responseWriter \<Rightarrow> assume_error + 'a) \<Rightarrow> ('w server, 'a) call" where
  "send senv g now rq decode sv =
     (case Server senv g now rq new_response sv of
        ((Ok _, w), sv') \<Rightarrow> (if rw_status w < 300 then decode w else Inl (response_error w), sv')
      | (_, sv') \<Rightarrow> (Inl (OtherError ''EOF''), sv'))"

definition read_doc :: "(document \<Rightarrow> 'a option) \<Rightarrow> responseWriter \<Rightarrow> assume_error + 'a" where
  "read_doc f w =
     (case response_doc (rw_body w) of
        None \<Rightarrow> Inl (OtherError ''EOF'')
      | Some d \<Rightarrow> (case f d of None \<Rightarrow> Inl (OtherError ''unexpected document'') | Some x \<Rightarrow> Inr x))"

fun mfa_text :: "MFADeleteStatus \<Rightarrow> string option" where
  "mfa_text MFADeleteNone = None"
| "mfa_text MFADeleteEnabled = Some ''Enabled''"
| "mfa_text MFADeleteDisabled = Some ''Disabled''"

definition query_of :: "string \<Rightarrow> string option \<Rightarrow> url_values" where
  "query_of k v = (case v of None \<Rightarrow> [] | Some s \<Rightarrow> [(k, [s])])"

definition versions_query :: "ListObjectVersionsInput \<Rightarrow> url_values" where
  "versions_query i =
     [(''versions'', ['''']), (''prefix'', [li_Prefix i])] @ query_of ''max-keys'' (map_option int_str (li_MaxKeys i)) @
     query_of ''key-marker'' (li_KeyMarker i) @ query_of ''version-id-marker'' (li_VersionIdMarker i)"

text \<open>A field with \<open>omitempty\<close> is not in the document if it is empty.\<close>

definition omit_empty :: "string \<Rightarrow> string option" where
  "omit_empty s = (if s = '''' then None else Some s)"

definition versions_output :: "ListBucketVersionsResult \<Rightarrow> ListObjectVersionsOutput" where
  "versions_output r =
     \<lparr>lo_Versions = [Some (vf_VersionID f). VersionObject f _ _ \<leftarrow> lv_Versions r],
      lo_DeleteMarkers = [Some (vf_VersionID f). DeleteMarkerItem f \<leftarrow> lv_Versions r],
      lo_NextKeyMarker = omit_empty (lv_NextKeyMarker r),
      lo_NextVersionIdMarker = omit_empty (lv_NextVersionIDMarker r)\<rparr>"

definition plain_client :: "plain_codec \<Rightarrow> server_env \<Rightarrow> 'w gofakes3 \<Rightarrow> int \<Rightarrow> 'w server s3_client" where
  "plain_client codec senv g now =
     \<lparr>cl_GetBucketVersioning = (\<lambda>b. send senv g now (plain_request ''GET'' (''/'' @ b) [(''versioning'', [''''])] '''')
        (read_doc (\<lambda>d. case d of
           DVersioning c \<Rightarrow>
             Some \<lparr>bv_Status = status_text (vc_Status c), bv_MFADelete = mfa_text (vc_MFADelete c)\<rparr>
         | _ \<Rightarrow> None))),
      cl_PutBucketVersioning = (\<lambda>b st. send senv g now
        (plain_request ''PUT'' (''/'' @ b) [(''versioning'', [''''])] (codec_versioning codec st)) (\<lambda>_. Inr ())),
      cl_GetBucketLocation = (\<lambda>b. send senv g now (plain_request ''GET'' (''/'' @ b) [(''location'', [''''])] '''')
        (read_doc (\<lambda>d. case d of DLocation _ \<Rightarrow> Some () | _ \<Rightarrow> None))),
      cl_PutObject = (\<lambda>b k body. send senv g now (plain_request ''PUT'' (object_path b k) [] body)
        (\<lambda>w. Inr (let v = header_get (rw_sent_header w) ''x-amz-version-id'' in if v = '''' then None else Some v))),
      cl_GetObject = (\<lambda>b k ver. send senv g now
        (plain_request ''GET'' (object_path b k) (query_of ''versionId'' ver) '''')
        (\<lambda>w. Inr (bytes_reader (response_bytes (rw_body w))))),
      cl_DeleteObject = (\<lambda>b k ver. send senv g now
        (plain_request ''DELETE'' (object_path b k) (query_of ''versionId'' ver) '''') (\<lambda>_. Inr ())),
      cl_DeleteObjects = (\<lambda>b os. send senv g now
        (plain_request ''POST'' (''/'' @ b) [(''delete'', [''''])] (codec_delete codec os))
        (read_doc (\<lambda>d. case d of DMultiDelete _ \<Rightarrow> Some () | _ \<Rightarrow> None))),
      cl_ListObjectVersions = (\<lambda>i. send senv g now
        (plain_request ''GET'' (''/'' @ li_Bucket i) (versions_query i) '''')
        (read_doc (\<lambda>d. case d of DVersions r \<Rightarrow> Some (versions_output r) | _ \<Rightarrow> None))),
      cl_ListObjects = (\<lambda>b p. send senv g now (plain_request ''GET'' (''/'' @ b) [(''prefix'', [p])] '''')
        (read_doc (\<lambda>d. case d of
           DListBucket r \<Rightarrow> Some (map (\<lambda>c. Some (ct_Key c)) (lr_Contents (l1_Base r))) | _ \<Rightarrow> None)))\<rparr>"

section \<open>Requests and their answers\<close>

lemma split_path_bucket:
  assumes "b \<noteq> ''''" "CHR ''/'' \<notin> set b"
  shows "split_path (''/'' @ b) = (b, '''')"
proof -
  have "trim (CHR ''/'' # b) ''/'' = b"
  proof -
    have "trim_left (CHR ''/'' # b) ''/'' = b"
      using assms by (cases b) (auto simp: trim_left_def)
    moreover have "trim_right b ''/'' = b"
      using assms(2) by (cases b rule: rev_cases) (auto simp: trim_right_def trim_left_def)
    ultimately show ?thesis by (simp add: trim_def)
  qed
  moreover have "index_of b ''/'' = None"
    using assms(2) by (induction b) (auto simp: has_prefix_def)
  ultimately show ?thesis by (simp add: split_path_def split_n2_def)
qed

lemma plain_request_simps [simp]:
  "rq_Method (plain_request m p q bs) = m" "rq_Path (plain_request m p q bs) = p" "rq_Query (plain_request m p q bs) = q"
  "rq_Body (plain_request m p q bs) = bytes_reader bs"
  by (simp_all add: plain_request_def)

lemma plain_headers [simp]:
  "header_get (rq_Header (plain_request m p q bs)) ''Content-Length'' = int_str (int (length bs))"
  "header_get (rq_Header (plain_request m p q bs)) ''x-amz-date'' = ''''"
  "header_get (rq_Header (plain_request m p q bs)) ''Range'' = ''''"
  "header_get (rq_Header (plain_request m p q bs)) ''If-None-Match'' = ''''"
  "header_get (rq_Header (plain_request m p q bs)) ''If-Modified-Since'' = ''''"
  by (simp_all add: plain_request_def header_get_def vals_get_def)

lemma plain_not_skewed [simp]: "\<not> too_skewed env g now (plain_request m p q bs)"
  by (simp add: too_skewed_def)

text \<open>What the first headers are before a handler runs.\<close>

definition started :: "server_env \<Rightarrow> 64 word \<Rightarrow> responseWriter" where
  "started env n = rw_Set_all (request_headers env (n + 1)) (rw_Set_all cors_headers new_response)"

lemma started_simps [simp]: "rw_sent (started env n) = None" "rw_body (started env n) = []"
  by (simp_all add: started_def new_response_def)

text \<open>A request whose handler succeeds.\<close>

lemma send_Ok:
  assumes "rq_Method rq \<noteq> ''OPTIONS''" "\<not> too_skewed env (store_server be vb uenv []) now rq"
    and "dispatch env (store_server be vb uenv []) now rq = Some h"
    and "h (started env (sv_requestID sv), sv_world sv) = (Ok (), (w, world))"
  shows "send env (store_server be vb uenv []) now rq decode sv =
    (if rw_status w < 300 then decode w else Inl (response_error w),
     sv\<lparr>sv_requestID := sv_requestID sv + 1, sv_world := world\<rparr>)"
  using assms(3,4) by (simp add: send_def Server_default [OF assms(2,1)] routeBase_def with_error_def Let_def started_def)

section \<open>The server over s3mem as a service\<close>

lemmas mem_send_Ok = send_Ok [where be = "mem_backend wall menv" and vb = "Some (mem_versioned menv)" for wall menv,
    folded mem_server_def]
lemma dispatch_versioning:
  assumes "b \<noteq> ''''" "CHR ''/'' \<notin> set b"
  shows "dispatch senv g now (plain_request m (''/'' @ b) [(''versioning'', [''''])] bs) =
    Some (routeVersioning senv g b (plain_request m (''/'' @ b) [(''versioning'', [''''])] bs))"
  using split_path_bucket [OF assms] by (simp add: dispatch_def vals_get_def vals_has_def)

section \<open>Versions of a key\<close>

definition service_status :: "('um uploader \<times> 'om s3mem) server \<Rightarrow> string \<Rightarrow> VersioningStatus" where
  "service_status sv b =
     (case mem_bucket (snd (sv_world sv)) b of None \<Rightarrow> VersioningNone | Some bk \<Rightarrow> bk_versioning bk)"

definition readable :: "bucketData list \<Rightarrow> (string \<times> bytes) list" where
  "readable ds = map (\<lambda>d. (bd_versionID d, bd_body d)) (filter (\<lambda>d. \<not> bd_deleteMarker d) ds)"

definition service_log ::
    "('om, 'oi, 'vm, 'vi) s3mem_env \<Rightarrow> ('vm \<Rightarrow> (string \<times> bucketData) list) \<Rightarrow>
     ('um uploader \<times> 'om s3mem) server \<Rightarrow> string \<Rightarrow> string \<Rightarrow> (string \<times> bytes) list" where
  "service_log menv ventries sv b k =
     (case mem_key menv ventries (snd (sv_world sv)) b k of None \<Rightarrow> [] | Some st \<Rightarrow> readable (history st))"

text \<open>A key has no room when its current version is gone while older ones remain: the next put panics.\<close>

definition service_room ::
    "('om, 'oi, 'vm, 'vi) s3mem_env \<Rightarrow> ('vm \<Rightarrow> (string \<times> bucketData) list) \<Rightarrow> nat \<Rightarrow> string \<Rightarrow> string \<Rightarrow>
     ('um uploader \<times> 'om s3mem) server \<Rightarrow> bool" where
  "service_room menv ventries n b k sv \<longleftrightarrow>
     mem_ok menv ventries (snd (sv_world sv)) \<and> mem_count (snd (sv_world sv)) + n < 10 ^ 30 \<and>
     (\<exists>bk. mem_bucket (snd (sv_world sv)) b = Some bk \<and>
        (0 < n \<longrightarrow> (\<forall>obj. bucket_object menv bk k = Some obj \<longrightarrow> bo_data obj \<noteq> None))) \<and>
     b \<noteq> '''' \<and> CHR ''/'' \<notin> set b \<and> k \<noteq> '''' \<and> last k \<noteq> CHR ''/'' \<and> length k \<le> KeySizeLimit"

text \<open>
  What is asked of the environment: a formatted time is short, a parsed time is not before the zero time, and
  the decoder of versioning documents reads what the client writes.
\<close>

locale mem_service = s3mem_laws env oentries oview ventries vview
  for env :: "('om, 'oi, 'vm, 'vi) s3mem_env" and oentries oview ventries vview +
  fixes senv :: server_env and codec :: plain_codec
  assumes short_times: "length (se_formatTime senv t) \<le> 100"
    and parsed_times: "se_parseHttpTime senv '''' = None" "se_parseHttpTime senv txt = Some t \<Longrightarrow> zero_time \<le> t"
    and versioning_decoded: "status_text st = Some txt \<Longrightarrow>
      se_unmarshalVersioning senv (codec_versioning codec txt) = Inl \<lparr>vc_Status = st, vc_MFADelete = MFADeleteNone\<rparr>"
begin

lemma dispatch_version:
  assumes "b \<noteq> ''''" "CHR ''/'' \<notin> set b" "k \<noteq> ''''" "last k \<noteq> CHR ''/''" "v \<noteq> ''''" "v \<noteq> ''null''"
  shows "dispatch senv g now (plain_request m (object_path b k) [(''versionId'', [v])] bs) =
    Some (routeVersion senv g b k v (plain_request m (object_path b k) [(''versionId'', [v])] bs))"
  using split_path_object [OF assms(1-4)] assms(5,6)
  by (simp add: dispatch_def vals_get_def vals_has_def object_path_def query_values_def versionFromQuery_def)

lemma service_get_versioning:
  assumes "service_room env ventries n b k sv"
  shows "\<exists>sv'. cl_GetBucketVersioning (plain_client codec senv (mem_server wall env uenv) now) b sv =
      (Inr \<lparr>bv_Status = status_text (service_status sv b), bv_MFADelete = None\<rparr>, sv') \<and>
    service_status sv' b = service_status sv b \<and> service_log env ventries sv' b k = service_log env ventries sv b k \<and>
    service_room env ventries n b k sv'"
proof -
  obtain u db where w: "sv_world sv = (u, db)" by fastforce
  obtain bk where bk: "mem_bucket db b = Some bk" and p: "b \<noteq> ''''" "CHR ''/'' \<notin> set b"
    using assms by (auto simp: service_room_def w)
  let ?g = "mem_server wall env uenv" and ?rq = "plain_request ''GET'' (''/'' @ b) [(''versioning'', [''''])] ''''"
  let ?w = "rw_Write (Doc (DVersioning \<lparr>vc_Status = bk_versioning bk, vc_MFADelete = MFADeleteNone\<rparr>))
    (rw_Set ''Content-Type'' ''application/xml'' (rw_Write (Raw xml_header) (started senv (sv_requestID sv))))"
  have h: "routeVersioning senv ?g b ?rq (started senv (sv_requestID sv), sv_world sv) = (Ok (), (?w, (u, db)))"
    using bk by (simp add: w routeVersioning_def getBucketVersioning_def act_then_def act_bind_def on_world_def
        mem_ensure mem_has_bucket_def lift_versioned_def on_storage_eq
        mem_VersioningConfiguration_def xml_encode_def on_writer_def)
  have "rw_status ?w = 200" "rw_body ?w = [Raw xml_header,
      Doc (DVersioning \<lparr>vc_Status = bk_versioning bk, vc_MFADelete = MFADeleteNone\<rparr>)]"
    by (simp_all add: rw_status_def rw_Write_def rw_WriteHeader_def body_allowed_def)
  moreover have "send senv ?g now ?rq decode sv = (if rw_status ?w < 300 then decode ?w else Inl (response_error ?w),
      sv\<lparr>sv_requestID := sv_requestID sv + 1, sv_world := (u, db)\<rparr>)"
    for decode :: "responseWriter \<Rightarrow> assume_error + GetBucketVersioningOutput"
    by (rule mem_send_Ok [OF _ _ dispatch_versioning [OF p] h]) simp_all
  ultimately have "cl_GetBucketVersioning (plain_client codec senv ?g now) b sv =
      (Inr \<lparr>bv_Status = status_text (bk_versioning bk), bv_MFADelete = None\<rparr>,
       sv\<lparr>sv_requestID := sv_requestID sv + 1, sv_world := (u, db)\<rparr>)"
    by (simp add: plain_client_def read_doc_def)
  then show ?thesis
    using bk assms by (auto simp: service_status_def service_log_def service_room_def w)
qed

lemma service_put_versioning:
  assumes "service_room env ventries n b k sv" "status_text st = Some txt"
    and "st = VersioningEnabled \<or> service_status sv b = VersioningEnabled"
  shows "\<exists>sv'. cl_PutBucketVersioning (plain_client codec senv (mem_server wall env uenv) now) b txt sv = (Inr (), sv') \<and>
    service_status sv' b = st \<and> service_log env ventries sv' b k = service_log env ventries sv b k \<and>
    service_room env ventries n b k sv'"
proof -
  obtain u db where w: "sv_world sv = (u, db)" by fastforce
  obtain bk where bk: "mem_bucket db b = Some bk" and p: "b \<noteq> ''''" "CHR ''/'' \<notin> set b"
    and ok: "mem_ok env ventries db"
    using assms(1) by (auto simp: service_room_def w)
  let ?g = "mem_server wall env uenv"
  let ?rq = "plain_request ''PUT'' (''/'' @ b) [(''versioning'', [''''])] (codec_versioning codec txt)"
  let ?bk = "setVersioning bk (st = VersioningEnabled)"
  let ?db = "mem_set_bucket db b ?bk"
  have h: "routeVersioning senv ?g b ?rq (started senv (sv_requestID sv), sv_world sv) =
      (Ok (), (started senv (sv_requestID sv), (u, ?db)))"
    using bk by (simp add: w routeVersioning_def putBucketVersioning_def act_then_def act_bind_def on_world_def act_res_def
        mem_ensure mem_has_bucket_def lift_versioned_def on_storage_eq xmlDecodeBody_def io_ReadAll_def bytes_reader_def
        versioning_decoded [OF assms(2)] mem_SetVersioningConfiguration_def mfa_Enabled_def vc_Enabled_def)
  have "send senv ?g now ?rq decode sv = (if rw_status (started senv (sv_requestID sv)) < 300
      then decode (started senv (sv_requestID sv)) else Inl (response_error (started senv (sv_requestID sv))),
      sv\<lparr>sv_requestID := sv_requestID sv + 1, sv_world := (u, ?db)\<rparr>)"
    for decode :: "responseWriter \<Rightarrow> assume_error + unit"
    by (rule mem_send_Ok [OF _ _ dispatch_versioning [OF p] h]) simp_all
  then have "cl_PutBucketVersioning (plain_client codec senv ?g now) b txt sv =
      (Inr (), sv\<lparr>sv_requestID := sv_requestID sv + 1, sv_world := (u, ?db)\<rparr>)"
    by (simp add: plain_client_def rw_status_def)
  moreover have "bk_versioning ?bk = st"
    using assms(2,3) bk by (cases st) (auto simp: setVersioning_def service_status_def w)
  moreover have "mem_ok env ventries ?db"
    by (rule mem_ok_same_source [OF ok bk]) (simp_all add: bucket_ok_setVersioning mem_okD(4) [OF ok bk])
  moreover have "key_state env ventries ?bk k = key_state env ventries bk k" by (simp add: key_state_def)
  moreover have "mem_count ?db = mem_count db" by (simp add: mem_count_def)
  ultimately show ?thesis
    using bk assms(1) by (auto simp: service_status_def service_log_def service_room_def mem_key_def w)
qed

lemma service_put_object:
  assumes "service_room env ventries (Suc n) b k sv" "service_status sv b = VersioningEnabled" "length body = 32"
  shows "\<exists>ver sv'. cl_PutObject (plain_client codec senv (mem_server wall env uenv) now) b k body sv = (Inr (Some ver), sv') \<and>
    (ver \<noteq> '''' \<and> ver \<noteq> ''null'') \<and> ver \<noteq> '''' \<and> ver \<notin> fst ` set (service_log env ventries sv b k) \<and>
    service_log env ventries sv' b k = service_log env ventries sv b k @ [(ver, body)] \<and>
    service_status sv' b = VersioningEnabled \<and> service_room env ventries n b k sv'"
proof -
  obtain u db where w: "sv_world sv = (u, db)" by fastforce
  obtain bk where bk: "mem_bucket db b = Some bk" "\<forall>obj. bucket_object env bk k = Some obj \<longrightarrow> bo_data obj \<noteq> None"
    and p: "b \<noteq> ''''" "CHR ''/'' \<notin> set b" "k \<noteq> ''''" "last k \<noteq> CHR ''/''" "length k \<le> KeySizeLimit"
    and ok: "mem_ok env ventries db" and room: "mem_count db + Suc n < 10 ^ 30"
    using assms(1) by (auto simp: service_room_def w)
  have st: "bk_versioning bk = VersioningEnabled" using assms(2) bk(1) by (simp add: service_status_def w)
  let ?g = "mem_server wall env uenv" and ?rq = "plain_request ''PUT'' (object_path b k) [] body"
  let ?w = "started senv (sv_requestID sv)"
  let ?meta = "[(''Last-Modified'', formatHeaderTime senv now)]"
  have len: "parse_int (int_str (int (length body))) = Some (int (length body))"
    by (simp add: assms(3) parse_int_int_str is_i64_def min_int64_def max_int64_def)
  have size: "metadataSize ?meta \<le> DefaultMetadataSizeLimit"
    using short_times [of now] by (simp add: metadataSize_def DefaultMetadataSizeLimit_def formatHeaderTime_def)
  have plain: "plain_put senv ?g now ?rq body ?meta"
    using len size by (simp add: plain_put_def metadataHeaders_def plain_request_def metadata_header_def has_prefix_def
        header_get_def vals_get_def streaming_upload_def md5_header_def vals_has_def newHashingReader_expected_def Let_def)
  have i64: "int (length body) \<le> max_int64" using assms(3) by (simp add: max_int64_def)
  obtain vid db' where put: "mem_PutObject env b k (Some ?meta) (bytes_reader body) (int (length body)) db =
      (Ok \<lparr>pr_VersionID = vid\<rparr>, db')"
    using put_plain [OF bk i64] by blast
  have has: "mem_has_bucket db b" using bk(1) by (simp add: mem_has_bucket_def)
  let ?w1 = "rw_Set ''ETag'' (quoted (hex_encode (se_md5 senv body)))
      (if vid \<noteq> '''' then rw_Set ''x-amz-version-id'' vid ?w else ?w)"
  have h: "createObject senv ?g now b k ?rq (?w, sv_world sv) = (Ok (), (?w1, (u, db')))"
    using createObject_plain [OF plain p(5) has] put by (simp add: w)
  have d: "dispatch senv ?g now ?rq = Some (createObject senv ?g now b k ?rq)"
    using dispatch_object [of "''PUT''" b k ?rq] p by (simp add: object_request_def object_path_def routeObject_def)
  have sent: "send senv ?g now ?rq decode sv = (if rw_status ?w1 < 300 then decode ?w1 else Inl (response_error ?w1),
      sv\<lparr>sv_requestID := sv_requestID sv + 1, sv_world := (u, db')\<rparr>)"
    for decode :: "responseWriter \<Rightarrow> assume_error + string option"
    by (rule mem_send_Ok [OF _ _ d h]) simp_all
  have db': "db' = snd (mem_PutObject env b k (Some ?meta) (bytes_reader body) (int (length body)) db)"
    by (simp add: put)
  have count: "mem_count db' \<le> mem_count db + 1" unfolding db' by (rule put_count_le)
  then have c: "mem_count db' + n < 10 ^ 30" "mem_count db' < 10 ^ 30" using room by simp_all
  have ok': "mem_ok env ventries db'"
    using mem_ok_step [OF step_put ok] c(2) unfolding db' by blast
  obtain item where item: "bd_body item = body" "\<not> bd_deleteMarker item" "vid = bd_versionID item"
    "\<forall>d \<in> set (history (key_state env ventries bk k)). bd_versionID d < vid"
    "mem_key env ventries db' b k = Some (history (key_state env ventries bk k), Some item)"
    "b' \<noteq> b \<Longrightarrow> mem_key env ventries db' b' k' = mem_key env ventries db b' k'" for b' k'
    using mem_key_put [OF ok bk(1) put] st c(2) by (auto simp: bytes_reader_def spec_put_def)
  obtain bk' where bk': "mem_bucket db' b = Some bk'"
      "key_state env ventries bk' k = (history (key_state env ventries bk k), Some item)"
    by (rule mem_keyE [OF item(5)])
  have "id_below vid (mem_count db')"
    using history_below [OF mem_okD(4) [OF ok' bk'(1)], of item k] bk'(2) item(3) by simp
  then have vid: "vid \<noteq> ''''" "vid \<noteq> ''null''" by (auto simp: id_below_def)
  have st': "bk_versioning bk' = VersioningEnabled"
    using bk'(1) bk(1) st
    by (cases rule: mem_PutObject_cases [of env b k "Some ?meta" "bytes_reader body" "int (length body)" db])
      (auto simp: db' dest: put_frame(1))
  have obj': "\<forall>obj. bucket_object env bk' k = Some obj \<longrightarrow> bo_data obj \<noteq> None"
    using bk'(2) by (auto simp: key_state_def)
  have log: "service_log env ventries sv b k = readable (history (key_state env ventries bk k))"
    using bk(1) by (simp add: service_log_def w mem_key_def)
  have "cl_PutObject (plain_client codec senv ?g now) b k body sv =
      (Inr (Some vid), sv\<lparr>sv_requestID := sv_requestID sv + 1, sv_world := (u, db')\<rparr>)"
    using vid(1) by (simp add: plain_client_def sent rw_status_def rw_sent_header_def header_get_set)
  then show ?thesis
    using vid item log bk' st' ok' obj' c(1) p
    by (fastforce simp: service_log_def service_status_def service_room_def mem_key_def readable_def)
qed

lemma service_get_object:
  assumes "service_room env ventries n b k sv" "(ver, body) \<in> set (service_log env ventries sv b k)"
  shows "\<exists>sv'. cl_GetObject (plain_client codec senv (mem_server wall env uenv) now) b k (Some ver) sv =
      (Inr (bytes_reader body), sv') \<and>
    service_status sv' b = service_status sv b \<and> service_log env ventries sv' b k = service_log env ventries sv b k \<and>
    service_room env ventries n b k sv'"
proof -
  obtain u db where w: "sv_world sv = (u, db)" by fastforce
  obtain bk where bk: "mem_bucket db b = Some bk"
    and p: "b \<noteq> ''''" "CHR ''/'' \<notin> set b" "k \<noteq> ''''" "last k \<noteq> CHR ''/''"
    and ok: "mem_ok env ventries db"
    using assms(1) by (auto simp: service_room_def w)
  let ?st = "key_state env ventries bk k"
  have st: "mem_key env ventries db b k = Some ?st" using bk by (simp add: mem_key_def)
  obtain d where d: "d \<in> set (history ?st)" "\<not> bd_deleteMarker d" "bd_versionID d = ver" "bd_body d = body"
    using assms(2) by (auto simp: service_log_def w st readable_def)
  have ver: "ver \<noteq> ''''" "ver \<noteq> ''null''"
    using history_below [OF mem_okD(4) [OF ok bk] d(1)] d(3) by (auto simp: id_below_def)
  have "find (\<lambda>x. bd_versionID x = ver) (history ?st) = Some d"
    using find_distinct [OF history_distinct [OF mem_okD(4) [OF ok bk]] d(1)] d(3) by simp
  moreover have "?st \<noteq> ([], None)" using d(1) by auto
  ultimately have get: "mem_GetObjectVersion env b k ver None db = (toObject d None True, db)"
    using GetObjectVersion_history [OF ok bk ver(1) st] by simp
  obtain obj where obj: "toObject d None True = Ok obj" "ob_Contents obj = body" "\<not> ob_IsDeleteMarker obj"
      "ob_Range obj = None"
    using d(2,4) by (simp add: toObject_whole)
  let ?g = "mem_server wall env uenv" and ?rq = "plain_request ''GET'' (object_path b k) [(''versionId'', [ver])] ''''"
  have plain: "plain_get senv ?rq" using parsed_times by (auto simp: plain_get_def)
  have found: "get_from_backend ?g b k ver None (u, db) = (Ok obj, (u, db))"
    using ver(1) get obj(1) by (simp add: get_from_backend_def lift_versioned_def on_storage_eq)
  have has: "mem_has_bucket db b" using bk by (simp add: mem_has_bucket_def)
  obtain w' where w': "getObject senv ?g b k ver ?rq (started senv (sv_requestID sv), (u, db)) = (Ok (), (w', (u, db)))"
    "rw_status w' = 200" "rw_body w' = (if ob_Contents obj = [] then [] else [Raw (ob_Contents obj)])"
    using getObject_found [OF plain has found obj(3,4) started_simps, of senv "sv_requestID sv"] by blast
  have h: "routeVersion senv ?g b k ver ?rq (started senv (sv_requestID sv), sv_world sv) = (Ok (), (w', (u, db)))"
    using w'(1) by (simp add: routeVersion_def w)
  have "send senv ?g now ?rq decode sv = (if rw_status w' < 300 then decode w' else Inl (response_error w'),
      sv\<lparr>sv_requestID := sv_requestID sv + 1, sv_world := (u, db)\<rparr>)"
    for decode :: "responseWriter \<Rightarrow> assume_error + reader"
    by (rule mem_send_Ok [OF _ _ dispatch_version [OF p ver] h]) simp_all
  moreover have "response_bytes (rw_body w') = body" using w'(3) obj(2) by (simp add: response_bytes_def)
  ultimately have "cl_GetObject (plain_client codec senv ?g now) b k (Some ver) sv =
      (Inr (bytes_reader body), sv\<lparr>sv_requestID := sv_requestID sv + 1, sv_world := (u, db)\<rparr>)"
    using w'(2) by (simp add: plain_client_def query_of_def)
  then show ?thesis
    using assms(1) by (auto simp: service_status_def service_log_def service_room_def w)
qed

lemma history_rmVersion:
  assumes "distinct (map bd_versionID (history st))"
  shows "history (spec_rmVersion ver st) = filter (\<lambda>d. bd_versionID d \<noteq> ver) (history st)"
proof (cases st)
  case (Pair vs cur)
  have "filter (\<lambda>d. bd_versionID d \<noteq> ver) vs = vs" if "cur = Some d" "bd_versionID d = ver" for d
    using assms that by (auto simp: Pair filter_id_conv image_iff)
  then show ?thesis
    by (cases cur) (auto simp: Pair spec_rmVersion_def has_versionID_def)
qed

lemma service_delete_version:
  assumes "service_room env ventries n b k sv" "ver \<noteq> '''' \<and> ver \<noteq> ''null''"
  shows "\<exists>sv'. cl_DeleteObject (plain_client codec senv (mem_server wall env uenv) now) b k (Some ver) sv = (Inr (), sv') \<and>
    service_log env ventries sv' b k = filter (\<lambda>e. fst e \<noteq> ver) (service_log env ventries sv b k) \<and>
    service_status sv' b = service_status sv b \<and> service_room env ventries 0 b k sv'"
proof -
  obtain u db where w: "sv_world sv = (u, db)" by fastforce
  obtain bk where bk: "mem_bucket db b = Some bk"
    and p: "b \<noteq> ''''" "CHR ''/'' \<notin> set b" "k \<noteq> ''''" "last k \<noteq> CHR ''/''"
    and ok: "mem_ok env ventries db"
    using assms(1) by (auto simp: service_room_def w)
  let ?g = "mem_server wall env uenv" and ?rq = "plain_request ''DELETE'' (object_path b k) [(''versionId'', [ver])] ''''"
  obtain r bk' where rm: "bucket_rmVersion env bk k ver (db_now db) = (r, bk')" by (metis surj_pair)
  let ?db = "mem_set_bucket db b bk'"
  have del: "mem_DeleteObjectVersion env b k ver db = (Ok r, ?db)"
    using bk rm by (simp add: mem_DeleteObjectVersion_def)
  let ?w1 = "rw_Set ''x-amz-delete-marker'' (if dr_IsDeleteMarker r then ''true'' else ''false'')
      (started senv (sv_requestID sv))"
  define w' where "w' = rw_WriteHeader 204
      (if dr_VersionID r \<noteq> '''' then rw_Set ''x-amz-version-id'' (dr_VersionID r) ?w1 else ?w1)"
  have w': "write_delete_result r (started senv (sv_requestID sv), (u, ?db)) = (Ok (), (w', (u, ?db)))"
      "rw_status w' = 204"
    by (simp_all add: write_delete_result_def act_then_def act_bind_def on_writer_def act_if_def act_ok_def rw_status_def
        rw_WriteHeader_def w'_def)
  have h: "routeVersion senv ?g b k ver ?rq (started senv (sv_requestID sv), sv_world sv) = (Ok (), (w', (u, ?db)))"
    using bk del w'(1) by (simp add: routeVersion_def deleteObjectVersion_def act_then_def act_bind_def on_world_def
        mem_ensure mem_has_bucket_def lift_versioned_def on_storage_eq w)
  have "send senv ?g now ?rq decode sv = (if rw_status w' < 300 then decode w' else Inl (response_error w'),
      sv\<lparr>sv_requestID := sv_requestID sv + 1, sv_world := (u, ?db)\<rparr>)"
    for decode :: "responseWriter \<Rightarrow> assume_error + unit"
    by (rule mem_send_Ok [OF _ _ dispatch_version [OF p conjunct1 [OF assms(2)] conjunct2 [OF assms(2)]] h]) simp_all
  then have "cl_DeleteObject (plain_client codec senv ?g now) b k (Some ver) sv =
      (Inr (), sv\<lparr>sv_requestID := sv_requestID sv + 1, sv_world := (u, ?db)\<rparr>)"
    using w'(2) by (simp add: plain_client_def query_of_def)
  moreover have "mem_ok env ventries ?db"
    by (rule mem_ok_same_source [OF ok bk rmVersion_frame(1) [OF rm] bucket_ok_rmVersion [OF mem_okD(4) [OF ok bk] rm]])
  moreover have "mem_key env ventries ?db b k = Some (spec_rmVersion ver (key_state env ventries bk k))"
    using mem_key_delete_version [OF ok bk del] by simp
  moreover have "history (spec_rmVersion ver (key_state env ventries bk k)) =
      filter (\<lambda>d. bd_versionID d \<noteq> ver) (history (key_state env ventries bk k))"
    by (rule history_rmVersion [OF history_distinct [OF mem_okD(4) [OF ok bk]]])
  moreover have "mem_count ?db = mem_count db" by (simp add: mem_count_def)
  ultimately show ?thesis
    using bk assms(1) rmVersion_frame [OF rm]
    by (auto simp: service_status_def service_log_def service_room_def mem_key_def readable_def w filter_map comp_def
        conj_commute)
qed

sublocale service: versioned_service "plain_client codec senv (mem_server wall env uenv) now" service_status
    "service_log env ventries" "service_room env ventries" "\<lambda>ver. ver \<noteq> '''' \<and> ver \<noteq> ''null''" for wall uenv now
  by unfold_locales
    (blast intro: service_get_versioning service_put_versioning service_put_object service_get_object
       service_delete_version)+

lemmas service_laws = service.versioned_service_axioms

end

end
