(* ===== verification/AssumerProperties.thy ===== *)
theory AssumerProperties
  imports AssumerServer ServerProperties
begin

text \<open>
  The tests of \<open>s3assumer\<close> about versions pass where the service has what S3 promises, and so they pass
  against the server of \<open>gofakes3\<close> over \<open>s3mem\<close>.
\<close>

section \<open>A codec and a server environment\<close>

definition demo_codec :: plain_codec where
  "demo_codec = \<lparr>codec_versioning = (\<lambda>st. st), codec_delete = (\<lambda>_. '''')\<rparr>"

definition demo_decode_versioning :: "bytes \<Rightarrow> VersioningConfiguration + string" where
  "demo_decode_versioning bs =
     (if bs = ''Enabled'' then Inl \<lparr>vc_Status = VersioningEnabled, vc_MFADelete = MFADeleteNone\<rparr>
      else if bs = ''Suspended'' then Inl \<lparr>vc_Status = VersioningSuspended, vc_MFADelete = MFADeleteNone\<rparr>
      else Inr ''EOF'')"

definition demo_assumer_senv :: server_env where
  "demo_assumer_senv = demo_senv\<lparr>se_unmarshalVersioning := demo_decode_versioning\<rparr>"

interpretation demo_service: mem_service demo_env alist_entries id alist_entries id demo_assumer_senv demo_codec
proof
  show "se_unmarshalVersioning demo_assumer_senv (codec_versioning demo_codec t) =
      Inl \<lparr>vc_Status = st, vc_MFADelete = MFADeleteNone\<rparr>" if "status_text st = Some t" for st t
    using that by (cases st) (auto simp: demo_assumer_senv_def demo_codec_def demo_decode_versioning_def)
qed (simp_all add: demo_assumer_senv_def demo_senv_def)

lemmas demo_service_laws = demo_service.mem_service_axioms




section \<open>Tests that pass\<close>

lemma length_int_str: "is_i64 i \<Longrightarrow> length (int_str i) \<le> 20"
  using length_nat_str_le [of "nat i" 19] length_nat_str_le [of "nat (- i)" 19]
  by (cases "i < 0") (simp_all add: int_str_def is_i64_def min_int64_def max_int64_def nat_less_iff)

lemma length_hex_encode: "length (hex_encode bs) = 2 * length bs"
  by (induction bs) (simp_all add: hex_encode_def hex_byte_def)

lemma hex_bucket: "bs \<noteq> [] \<Longrightarrow> hex_encode bs \<noteq> '''' \<and> CHR ''/'' \<notin> set (hex_encode bs)"
  using hex_encode_digits [of "CHR ''/''" bs] by (cases bs) (auto simp: hex_val_def hex_encode_def hex_byte_def)

text \<open>The key under which the tests put, and that it can be put \<open>n\<close> times over \<open>s3mem\<close>.\<close>

definition test_key :: "'w assumer \<Rightarrow> string" where
  "test_key s = int_str (shd (ax_clock s)) @ ''/'' @ hex_encode (stake 32 (ax_rand s))"

lemma mem_service_room:
  fixes s :: "('um uploader \<times> 'om s3mem) server assumer"
  assumes "s3mem_laws menv oentries oview ventries vview"
    and "mem_reachable menv db" "mem_count db + 3 < 10 ^ 30" "sv_world (ax_world s) = (u, db)"
    and "mem_bucket db b = Some bk" "b \<noteq> ''''" "CHR ''/'' \<notin> set b" "is_i64 (shd (ax_clock s))"
    and "bucket_object menv bk (test_key s) = None" "n \<le> 3"
  shows "service_room menv ventries n b (test_key s) (ax_world s)"
proof -
  have hex: "hex_encode (stake 32 (ax_rand s)) \<noteq> ''''" "CHR ''/'' \<notin> set (hex_encode (stake 32 (ax_rand s)))"
    using hex_bucket [of "stake 32 (ax_rand s)"] by force+
  have "last (test_key s) = last (hex_encode (stake 32 (ax_rand s)))" using hex(1) by (simp add: test_key_def)
  then have "last (test_key s) \<noteq> CHR ''/''" using hex last_in_set by metis
  moreover have "length (test_key s) \<le> KeySizeLimit"
    using length_int_str [OF assms(8)] by (simp add: test_key_def length_hex_encode KeySizeLimit_def)
  moreover have "mem_ok menv ventries db"
    using s3mem_laws.mem_reachable_ok [OF assms(1,2)] assms(3) by simp
  moreover have "test_key s \<noteq> ''''" by (simp add: test_key_def)
  ultimately show ?thesis using assms(3-7,9,10) by (simp add: service_room_def)
qed



text \<open>
  The server itself: with a plain client in front of it, against the server over \<open>s3mem\<close>, in any state it can
  reach, with any random bytes that give a new key, the two tests end without a failure.
\<close>

theorem server_passes_version_tests:
  fixes s :: "('um uploader \<times> 'om s3mem) server assumer"
  assumes "mem_service menv oentries oview ventries vview senv codec"
    and "mem_reachable menv db" "mem_count db + 3 < 10 ^ 30" "sv_world (ax_world s) = (u, db)"
    and "BucketStandard config = b" "mem_bucket db b = Some bk" "b \<noteq> ''''" "CHR ''/'' \<notin> set b"
    and "is_i64 (shd (ax_clock s))" "bucket_object menv bk (test_key s) = None"
  shows "fst (S300001_Run (\<lambda>_. plain_client codec senv (mem_server wall menv uenv) now) config s) = Done () \<and>
    fst (S300002_Run (\<lambda>_. plain_client codec senv (mem_server wall menv uenv) now) config s) = Done ()"
proof -
  let ?c = "plain_client codec senv (mem_server wall menv uenv) now"
  have mem: "s3mem_laws menv oentries oview ventries vview" using assms(1) by (rule mem_service.axioms(1))
  have room: "service_room menv ventries n b (test_key s) (ax_world s)" if "n \<le> 3" for n
    using mem_service_room [OF mem assms(2-4,6-10) that] .
  have c: "S3Client (\<lambda>_. ?c) config = ?c" by (simp add: S3Client_def Let_def)
  note laws = mem_service.service_laws [OF assms(1), of wall uenv now]
  show ?thesis
    using versioned_service.S300001_done [OF laws c assms(5) test_key_def [symmetric] room]
      versioned_service.S300002_done [OF laws c assms(5) test_key_def [symmetric] room]
    by fastforce
qed

end
