(* ===== verification/MemConcurrent.thy ===== *)
theory MemConcurrent
  imports RequestProperties "HOL-Library.Multiset"
begin

text \<open>
  Concurrent requests to \<open>s3mem\<close>. Every operation holds the lock of the back end from beginning to end but
  \<open>PutObject\<close>, which reads the current metadata under one lock and stores the object under a second one. Here
  the two sections are steps of their own, between which any operation may run, so that the steps of any
  number of clients interleave as the locks allow it.
\<close>

section \<open>PutObject in two sections\<close>

text \<open>What a \<open>PutObject\<close> holds between its two sections.\<close>

record put_call =
  pc_bucket :: string
  pc_key :: string
  pc_meta :: "gomap option"
  pc_body :: bytes

definition put_begin ::
    "('om, 'oi, 'vm, 'vi) s3mem_env \<Rightarrow> string \<Rightarrow> string \<Rightarrow> gomap option \<Rightarrow> reader \<Rightarrow> int \<Rightarrow> ('om s3mem, put_call) act" where
  "put_begin env bucketName objectName meta input sz =
     act_bind (act_res (ReadAll input sz))
       (\<lambda>bts. act_bind (MergeMetadata (mem_GetObject env bucketName objectName None) meta)
         (\<lambda>meta'. act_ok \<lparr>pc_bucket = bucketName, pc_key = objectName, pc_meta = meta', pc_body = bts\<rparr>))"

definition put_finish ::
    "('om, 'oi, 'vm, 'vi) s3mem_env \<Rightarrow> put_call \<Rightarrow> ('om s3mem, PutObjectResult) act" where
  "put_finish env p = mem_store env (pc_bucket p) (pc_key p) (pc_meta p) (pc_body p)"

lemma put_sections:
  "mem_PutObject env b k meta input sz db = act_bind (put_begin env b k meta input sz) (put_finish env) db"
  by (auto simp: mem_PutObject_def put_begin_def put_finish_def act_defs split: prod.splits res.splits)

text \<open>The back end and the calls of \<open>PutObject\<close> that are between their sections.\<close>

type_synonym 'om mem_system = "'om s3mem \<times> put_call multiset"

inductive concurrent ::
    "('om, 'oi, 'vm, 'vi) s3mem_env \<Rightarrow> 'om mem_system \<Rightarrow> 'om mem_system \<Rightarrow> bool" for env where
  conc_begin: "fst (put_begin env b k meta input sz db) = Ok p \<Longrightarrow> concurrent env (db, ps) (db, add_mset p ps)"
| conc_finish: "p \<in># ps \<Longrightarrow> concurrent env (db, ps) (snd (put_finish env p db), ps - {#p#})"
| conc_other: "mem_step env db db' \<Longrightarrow> concurrent env (db, ps) (db', ps)"

text \<open>The steps of clients that put objects and create buckets, while time passes.\<close>

inductive concurrent_adds ::
    "('om, 'oi, 'vm, 'vi) s3mem_env \<Rightarrow> 'om mem_system \<Rightarrow> 'om mem_system \<Rightarrow> bool" for env where
  adds_begin: "fst (put_begin env b k meta input sz db) = Ok p \<Longrightarrow> concurrent_adds env (db, ps) (db, add_mset p ps)"
| adds_finish: "p \<in># ps \<Longrightarrow> concurrent_adds env (db, ps) (snd (put_finish env p db), ps - {#p#})"
| adds_create: "concurrent_adds env (db, ps) (snd (mem_CreateBucket env b db), ps)"
| adds_tick: "concurrent_adds env (db, ps) (db\<lparr>db_now := t\<rparr>, ps)"

inductive_cases concurrentE: "concurrent env s s'"
inductive_cases concurrent_addsE: "concurrent_adds env s s'"

lemma put_finish_cases:
  obtains (kept) "mem_bucket db (pc_bucket p) = None" "put_finish env p db = (Err (BucketNotFound (pc_bucket p)), db)"
  | (stored) b item vid b' src' where "mem_bucket db (pc_bucket p) = Some b"
      "item = stored_item env (pc_key p) (db_now db) (pc_meta p) (pc_body p)"
      "bucket_put env b (pc_key p) (item '''') (db_versionSource db) = (item vid, b', src')"
      "put_finish env p db = (Ok \<lparr>pr_VersionID = (if bk_versioning b' = VersioningEnabled then vid else '''')\<rparr>,
         (mem_set_bucket db (pc_bucket p) b')\<lparr>db_versionSource := src'\<rparr>)"
proof (cases "mem_bucket db (pc_bucket p)")
  case None
  then show thesis by (rule kept) (simp add: put_finish_def mem_store_def None)
next
  case (Some b)
  show thesis by (rule mem_store_put [OF Some, of env "pc_key p" "pc_meta p" "pc_body p"])
      (auto intro: stored [OF Some refl] simp: put_finish_def)
qed

text \<open>Two states that agree but for the metadata of objects.\<close>

definition strip_metadata :: "bucketData list \<times> bucketData option \<Rightarrow> bucketData list \<times> bucketData option" where
  "strip_metadata st =
     (map (bd_metadata_update (\<lambda>_. None)) (fst st), map_option (bd_metadata_update (\<lambda>_. None)) (snd st))"

definition bucket_facts :: "'om bucket \<Rightarrow> string \<times> VersioningStatus \<times> int" where
  "bucket_facts b = (bk_name b, bk_versioning b, bk_creationDate b)"

definition same_but_metadata ::
    "('om, 'oi, 'vm, 'vi) s3mem_env \<Rightarrow> ('vm \<Rightarrow> (string \<times> bucketData) list) \<Rightarrow> 'om s3mem \<Rightarrow> 'om s3mem \<Rightarrow> bool" where
  "same_but_metadata env ventries db1 db2 \<longleftrightarrow>
     db_versionSource db1 = db_versionSource db2 \<and> db_now db1 = db_now db2 \<and>
     (\<forall>bucket. map_option bucket_facts (mem_bucket db1 bucket) = map_option bucket_facts (mem_bucket db2 bucket)) \<and>
     (\<forall>bucket key. map_option strip_metadata (mem_key env ventries db1 bucket key) =
                   map_option strip_metadata (mem_key env ventries db2 bucket key))"

lemma finish_count_le: "mem_count (snd (put_finish env p db)) \<le> mem_count db + 1"
  by (cases rule: put_finish_cases [of db p env]) (auto simp: mem_count_def dest: put_count)

section \<open>What every interleaving keeps\<close>

context s3mem_laws
begin

lemma finish_ok:
  "mem_count db \<le> mem_count (snd (put_finish env p db))"
  "mem_ok env ventries db \<Longrightarrow> mem_count (snd (put_finish env p db)) < 10 ^ 30 \<Longrightarrow>
    mem_ok env ventries (snd (put_finish env p db))"
proof -
  have "mem_count db \<le> mem_count (snd (put_finish env p db)) \<and>
    (mem_ok env ventries db \<longrightarrow> mem_count (snd (put_finish env p db)) < 10 ^ 30 \<longrightarrow>
     mem_ok env ventries (snd (put_finish env p db)))"
  proof (cases rule: put_finish_cases [of db p env])
    case (stored b item vid b' src')
    have "bd_name (item '''') = pc_key p" by (simp add: stored(2) stored_item_def)
    then show ?thesis
      using mem_ok_put [OF _ stored(1) _ stored(3)] put_count [OF stored(3)] by (simp add: stored(4) mem_count_def)
  qed simp
  then show "mem_count db \<le> mem_count (snd (put_finish env p db))"
    "mem_ok env ventries db \<Longrightarrow> mem_count (snd (put_finish env p db)) < 10 ^ 30 \<Longrightarrow>
      mem_ok env ventries (snd (put_finish env p db))" by blast+
qed

lemma concurrent_ok:
  assumes "(concurrent env)\<^sup>*\<^sup>* s s'"
  shows "mem_count (fst s) \<le> mem_count (fst s') \<and>
    (mem_ok env ventries (fst s) \<longrightarrow> mem_count (fst s') < 10 ^ 30 \<longrightarrow> mem_ok env ventries (fst s'))"
  using assms
proof induction
  case (step s1 s2)
  have "mem_count (fst s1) \<le> mem_count (fst s2) \<and>
    (mem_ok env ventries (fst s1) \<longrightarrow> mem_count (fst s2) < 10 ^ 30 \<longrightarrow> mem_ok env ventries (fst s2))"
    using step(2) by (cases rule: concurrent.cases) (auto simp: finish_ok intro: mem_step_count mem_ok_step)
  then show ?case using step(3) by auto
qed simp

lemma finish_keeps: "keeps_versions env ventries db (snd (put_finish env p db))"
proof (cases rule: put_finish_cases [of db p env])
  case kept
  then show ?thesis by (simp add: keeps_versions_refl)
next
  case (stored b item vid b' src')
  then have "version_kept env db (snd (put_finish env p db))"
    if "mem_ok env ventries db" "mem_ok env ventries (snd (put_finish env p db))"
    using stored_keeps [OF stored(1,3) refl] that by simp
  then show ?thesis using finish_ok [of db p] unfolding keeps_versions_def by blast
qed

lemma adds_keep:
  assumes "(concurrent_adds env)\<^sup>*\<^sup>* s s'"
  shows "keeps_versions env ventries (fst s) (fst s')"
  using assms
proof induction
  case (step s1 s2)
  have "keeps_versions env ventries (fst s1) (fst s2)"
    using step(2) by (cases rule: concurrent_adds.cases)
      (auto simp: keeps_versions_refl finish_keeps create_keeps tick_keeps)
  then show ?case using step(3) keeps_versions_trans by blast
qed (simp add: keeps_versions_refl)

text \<open>A \<open>PutObject\<close> that ends has stored a new version with its body.\<close>

lemma finish_stored:
  assumes "mem_ok env ventries db" "mem_bucket db (pc_bucket p) = Some b" "bk_versioning b = VersioningEnabled"
    and "put_finish env p db = (Ok r, db')" "mem_count db' < 10 ^ 30"
  shows "\<exists>obj. pr_VersionID r \<noteq> '''' \<and> ob_Contents obj = pc_body p \<and> ob_Metadata obj = pc_meta p \<and>
    fst (mem_GetObjectVersion env (pc_bucket p) (pc_key p) (pr_VersionID r) None db') = Ok obj"
proof (cases rule: put_finish_cases [of db p env])
  case kept
  then show ?thesis using assms(4) by simp
next
  case (stored b0 item vid b' src')
  have b0: "b0 = b" using stored(1) assms(2) by simp
  have vid: "pr_VersionID r = vid"
    using stored(4) assms(3,4) put_frame(1) [OF stored(3)] by (auto simp: b0)
  have db': "db' = (mem_set_bucket db (pc_bucket p) b')\<lparr>db_versionSource := src'\<rparr>"
    using stored(4) assms(4) by simp
  have ok': "mem_ok env ventries db'" using finish_ok(2) [OF assms(1), of p] assms(4,5) by simp
  have st: "key_state env ventries b' (pc_key p) = (history (key_state env ventries b (pc_key p)), Some (item vid))"
    using key_state_put [OF mem_okD(4) [OF assms(1,2)] stored(3) [unfolded b0]] assms(3) by (simp add: spec_put_def)
  have b': "mem_bucket db' (pc_bucket p) = Some b'" by (simp add: db')
  have k: "mem_key env ventries db' (pc_bucket p) (pc_key p) = Some (key_state env ventries b' (pc_key p))"
    by (simp add: mem_key_def b')
  have item: "bd_versionID (item vid) = vid" "bd_body (item vid) = pc_body p" "bd_metadata (item vid) = pc_meta p"
    by (simp_all add: stored(2) stored_item_def)
  have "item vid \<in> set (history (key_state env ventries b' (pc_key p)))" by (simp add: st)
  note h = history_below [OF mem_okD(4) [OF ok' b'] this] find_distinct [OF history_distinct [OF mem_okD(4) [OF ok' b']] this]
  have "vid \<noteq> ''''" using h(1) item(1) by (auto simp: id_below_def)
  moreover have "find (\<lambda>d. bd_versionID d = vid) (history (key_state env ventries b' (pc_key p))) = Some (item vid)"
    using h(2) item(1) by simp
  ultimately show ?thesis
    using GetObjectVersion_history [OF ok' b' _ k, of vid] by (auto simp: st vid toObject_whole item)
qed

lemma strip_put:
  "strip_metadata (spec_put v (stored_item env k t m bts vid) st) = strip_metadata (spec_put v (stored_item env k t m' bts vid) st)"
  by (simp add: strip_metadata_def spec_put_def stored_item_def)

lemma mem_store_same:
  assumes "mem_ok env ventries db"
  shows "fst (mem_store env b k m bts db) = fst (mem_store env b k m' bts db) \<and>
    same_but_metadata env ventries (snd (mem_store env b k m bts db)) (snd (mem_store env b k m' bts db))"
proof (cases "mem_bucket db b")
  case None
  then show ?thesis by (simp add: mem_store_def same_but_metadata_def)
next
  case (Some bk)
  let ?item = "\<lambda>m. stored_item env k (db_now db) m bts"
  obtain vid b1 src1 where 1: "bucket_put env bk k (?item m '''') (db_versionSource db) = (?item m vid, b1, src1)"
    "mem_store env b k m bts db = (Ok \<lparr>pr_VersionID = (if bk_versioning b1 = VersioningEnabled then vid else '''')\<rparr>,
       (mem_set_bucket db b b1)\<lparr>db_versionSource := src1\<rparr>)"
    by (rule mem_store_put [OF Some])
  obtain vid' b2 src2 where 2: "bucket_put env bk k (?item m' '''') (db_versionSource db) = (?item m' vid', b2, src2)"
    "mem_store env b k m' bts db = (Ok \<lparr>pr_VersionID = (if bk_versioning b2 = VersioningEnabled then vid' else '''')\<rparr>,
       (mem_set_bucket db b b2)\<lparr>db_versionSource := src2\<rparr>)"
    by (rule mem_store_put [OF Some])
  have v: "vid' = vid" "src2 = src1"
    using put_eq(1) [OF 1(1)] put_eq(1) [OF 2(1)] by (simp_all add: stored_item_def)
  have f: "bk_name b2 = bk_name b1" "bk_versioning b2 = bk_versioning b1" "bk_creationDate b2 = bk_creationDate b1"
    using put_frame [OF 1(1)] put_frame [OF 2(1)] by simp_all
  have "strip_metadata (key_state env ventries b1 key) = strip_metadata (key_state env ventries b2 key)" for key
    using key_state_put [OF mem_okD(4) [OF assms Some] 1(1)] key_state_put [OF mem_okD(4) [OF assms Some] 2(1)]
      strip_put [of _ k _ m bts vid _ m'] by (simp add: v(1))
  then show ?thesis using 1(2) 2(2) v f by (simp add: same_but_metadata_def bucket_facts_def mem_key_def)
qed

lemma finish_kept:
  assumes "mem_ok env ventries db" "mem_bucket db (pc_bucket p) = Some b" "bk_versioning b = VersioningEnabled"
    and "put_finish env p db = (Ok r, db1)"
    and "(concurrent_adds env)\<^sup>*\<^sup>* (db1, ps) (db2, ps')" "mem_count db2 < 10 ^ 30"
  shows "(\<exists>obj. pr_VersionID r \<noteq> '''' \<and> ob_Contents obj = pc_body p \<and>
       fst (mem_GetObjectVersion env (pc_bucket p) (pc_key p) (pr_VersionID r) None db2) = Ok obj) \<and>
    (\<forall>key vid obj. vid \<noteq> '''' \<longrightarrow> fst (mem_GetObjectVersion env (pc_bucket p) key vid None db) = Ok obj \<longrightarrow>
       fst (mem_GetObjectVersion env (pc_bucket p) key vid None db2) = Ok obj)"
proof -
  have k1: "keeps_versions env ventries db db1" using finish_keeps [of db p] assms(4) by simp
  have k2: "keeps_versions env ventries db1 db2" using adds_keep [OF assms(5)] by simp
  have c1: "mem_count db1 < 10 ^ 30" using k2 assms(6) by (simp add: keeps_versions_def)
  have ok1: "mem_ok env ventries db1" "version_kept env db db1" and v2: "version_kept env db1 db2"
    using k1 k2 c1 assms(1,6) unfolding keeps_versions_def by blast+
  obtain obj where obj: "pr_VersionID r \<noteq> ''''" "ob_Contents obj = pc_body p"
    "fst (mem_GetObjectVersion env (pc_bucket p) (pc_key p) (pr_VersionID r) None db1) = Ok obj"
    using finish_stored [OF assms(1-4) c1] by blast
  have b1: "\<exists>b'. mem_bucket db1 (pc_bucket p) = Some b' \<and> bk_versioning b' = VersioningEnabled"
    using ok1(2) assms(2,3) unfolding version_kept_def by blast
  then have "fst (mem_GetObjectVersion env (pc_bucket p) key vid None db1) = Ok obj \<Longrightarrow> vid \<noteq> '''' \<Longrightarrow>
      fst (mem_GetObjectVersion env (pc_bucket p) key vid None db2) = Ok obj" for key vid obj
    using v2 unfolding version_kept_def by blast
  moreover have "fst (mem_GetObjectVersion env (pc_bucket p) key vid None db) = Ok obj \<Longrightarrow> vid \<noteq> '''' \<Longrightarrow>
      fst (mem_GetObjectVersion env (pc_bucket p) key vid None db1) = Ok obj" for key vid obj
    using ok1(2) assms(2,3) unfolding version_kept_def by blast
  ultimately show ?thesis using obj by blast
qed

lemma put_linear:
  assumes "mem_ok env ventries db" "mem_bucket db b = Some bk"
    and "\<forall>obj. bucket_object env bk k = Some obj \<longrightarrow> bo_data obj \<noteq> None"
    and "fst (put_begin env b k (Some m) input sz db0) = Ok p"
  shows "\<exists>r db1 db2. put_finish env p db = (r, db1) \<and> mem_PutObject env b k (Some m) input sz db = (r, db2) \<and>
    same_but_metadata env ventries db1 db2"
proof -
  obtain bts meta where p: "ReadAll input sz = Ok bts" "p = \<lparr>pc_bucket = b, pc_key = k, pc_meta = meta, pc_body = bts\<rparr>"
    using assms(4) by (cases "ReadAll input sz")
      (auto simp: put_begin_def act_defs split: prod.splits res.splits)
  obtain m' where m': "MergeMetadata (mem_GetObject env b k None) (Some m) db = (Ok (Some m'), db)"
    by (rule MergeMetadata_mem [OF assms(2)]) (use assms(3) in auto)
  have "mem_PutObject env b k (Some m) input sz db = mem_store env b k (Some m') bts db"
    using p(1) m' by (simp add: mem_PutObject_def act_defs)
  moreover have "put_finish env p db = mem_store env b k meta bts db" by (simp add: put_finish_def p(2))
  ultimately show ?thesis using mem_store_same [OF assms(1), of b k meta bts "Some m'"] by (metis prod.collapse)
qed

end

section \<open>Properties\<close>

text \<open>Two calls that put the same key, which begin before the key exists.\<close>

definition demo_call :: "bytes \<Rightarrow> put_call" where
  "demo_call body = \<lparr>pc_bucket = ''b'', pc_key = ''k'', pc_meta = Some [], pc_body = body\<rparr>"

lemma demo_begin:
  "fst (put_begin demo_env ''b'' ''k'' (Some []) (bytes_reader body) (int (length body)) demo_db0) = Ok (demo_call body)"
proof -
  have "ReadAll (bytes_reader body) (int (length body)) = Ok body" by (simp add: ReadAll_Ok_iff bytes_reader_def)
  then show ?thesis
    using demo_object0 [of "''k''"]
    by (simp add: put_begin_def act_defs MergeMetadata_def mem_GetObject_def demo_bucket0 current_data_def
        carry_over_def demo_call_def)
qed

text \<open>
  C5: every state of \<open>s3mem\<close> that any number of concurrent clients can reach from a new back end, with the
  sections of their operations in any order that the lock allows and with puts still in flight, is well formed:
  buckets stored under their own names, every object under its own key with at least one version, the versions of
  a key in the order of their IDs, no version IDs from the future, and no older versions in a bucket that
  never had versioning enabled (as long as fewer than \<open>10 ^ 30\<close> versions were generated).
\<close>

theorem concurrent_invariant:
  assumes "s3mem_laws menv oentries oview ventries vview"
    and "(concurrent menv)\<^sup>*\<^sup>* (mem_New now seed, {#}) (db, ps)" "mem_count db < 10 ^ 30"
  shows "mem_ok menv ventries db"
  using s3mem_laws.concurrent_ok [OF assms(1,2)] s3mem_laws.mem_reachable_ok [OF assms(1) reach_new, of now seed] assms(3)
  by simp

lemma concurrent_invariant_witness:
  "\<exists>db. (concurrent demo_env)\<^sup>*\<^sup>* (mem_New 1000 (Some 7), {#}) (db, {#demo_call ''x''#}) \<and>
     mem_ok demo_env alist_entries db"
proof -
  let ?db = "snd (put_finish demo_env (demo_call ''y'') demo_db0)"
  have "concurrent demo_env (mem_New 1000 (Some 7), {#}) (demo_db0, {#})"
    unfolding demo_db0_def by (intro conc_other step_create)
  moreover have "concurrent demo_env (demo_db0, {#}) (demo_db0, {#demo_call ''x''#})"
    by (rule conc_begin [OF demo_begin])
  moreover have "concurrent demo_env (demo_db0, {#demo_call ''x''#}) (demo_db0, {#demo_call ''y'', demo_call ''x''#})"
    by (rule conc_begin [OF demo_begin])
  moreover have "concurrent demo_env (demo_db0, {#demo_call ''y'', demo_call ''x''#}) (?db, {#demo_call ''x''#})"
    using conc_finish [of "demo_call ''y''" "{#demo_call ''y'', demo_call ''x''#}" demo_env demo_db0] by simp
  ultimately have run: "(concurrent demo_env)\<^sup>*\<^sup>* (mem_New 1000 (Some 7), {#}) (?db, {#demo_call ''x''#})"
    by (meson rtranclp.rtrancl_refl rtranclp.rtrancl_into_rtrancl)
  have "mem_count ?db < 10 ^ 30"
    using finish_count_le [of demo_env "demo_call ''y''" demo_db0] demo_counts_le(1) by simp
  with concurrent_invariant [OF demo_laws run] run show ?thesis by blast
qed

text \<open>
  C3: no finished PUT is lost to concurrent ones. A \<open>PutObject\<close> that ends in a bucket with versioning enabled
  answers a version ID, and however the sections of other puts, of this or other keys, interleave afterwards
  with each other, with new buckets and with the passing of time, this version reads as the body that was put, and the
  versions that were there before it still read as before.
\<close>

theorem concurrent_puts_kept:
  assumes "s3mem_laws menv oentries oview ventries vview" "mem_ok menv ventries db"
    and "mem_bucket db (pc_bucket p) = Some b" "bk_versioning b = VersioningEnabled"
    and "put_finish menv p db = (Ok r, db1)"
    and "(concurrent_adds menv)\<^sup>*\<^sup>* (db1, ps) (db2, ps')" "mem_count db2 < 10 ^ 30"
  shows "(\<exists>obj. pr_VersionID r \<noteq> '''' \<and> ob_Contents obj = pc_body p \<and>
       fst (mem_GetObjectVersion menv (pc_bucket p) (pc_key p) (pr_VersionID r) None db2) = Ok obj) \<and>
    (\<forall>key vid obj. vid \<noteq> '''' \<longrightarrow> fst (mem_GetObjectVersion menv (pc_bucket p) key vid None db) = Ok obj \<longrightarrow>
       fst (mem_GetObjectVersion menv (pc_bucket p) key vid None db2) = Ok obj)"
  by (rule s3mem_laws.finish_kept [OF assms])

lemma concurrent_puts_kept_witness:
  "\<exists>r db1 db2 obj. put_finish demo_env (demo_call ''x'') demo_db2 = (Ok r, db1) \<and>
     concurrent_adds demo_env (db1, {#demo_call ''y''#}) (db2, {#}) \<and> ob_Contents obj = ''x'' \<and>
     fst (mem_GetObjectVersion demo_env ''b'' ''k'' (pr_VersionID r) None db2) = Ok obj"
proof -
  let ?x = "demo_call ''x''" and ?y = "demo_call ''y''"
  have b: "mem_bucket demo_db2 (pc_bucket ?x) = Some demo_b2" using demo_bucket2(1) by (simp add: demo_call_def)
  obtain r db1 where x: "put_finish demo_env ?x demo_db2 = (Ok r, db1)"
    by (cases rule: put_finish_cases [of demo_db2 ?x demo_env]) (use b in auto)
  let ?db2 = "snd (put_finish demo_env ?y db1)"
  have adds: "concurrent_adds demo_env (db1, {#?y#}) (?db2, {#})"
    using adds_finish [of ?y "{#?y#}" demo_env db1] by simp
  have "mem_count ?db2 < 10 ^ 30"
    using finish_count_le [of demo_env ?y db1] finish_count_le [of demo_env ?x demo_db2] demo_counts_le(3) x by simp
  moreover have "(concurrent_adds demo_env)\<^sup>*\<^sup>* (db1, {#?y#}) (?db2, {#})"
    using adds by (rule r_into_rtranclp)
  ultimately have "\<exists>obj. pr_VersionID r \<noteq> '''' \<and> ob_Contents obj = pc_body ?x \<and>
      fst (mem_GetObjectVersion demo_env (pc_bucket ?x) (pc_key ?x) (pr_VersionID r) None ?db2) = Ok obj"
    using concurrent_puts_kept [OF demo_laws demo_ok(3) b demo_bucket2(2) x] by blast
  then show ?thesis using x adds by (auto simp: demo_call_def)
qed



end
