(* ===== verification/MemVersionPaging.thy ===== *)
theory MemVersionPaging
  imports MemVersionFacts MemPaging
begin

text \<open>
  \<open>ListBucketVersions\<close> with a page of at most \<open>k\<close> versions and without markers: the first \<open>k\<close> versions of the whole
  listing, and whether there are more.
\<close>

lemma yields_bo_Next: "yields (bo_step env) it (x # xs) e \<Longrightarrow> fst (bo_Next env it)"
  by (erule yields_ConsE) (auto simp: bo_step_def split: prod.splits if_splits)

lemma yields_gs_Next: "yields (gs_step sl) it (x # xs) e \<Longrightarrow> fst (gs_Next sl it)"
  by (erule yields_ConsE) (auto simp: gs_step_def split: prod.splits if_splits)

text \<open>The inner loop from a count \<open>c\<close> below the limit.\<close>

lemma lv_inner_take:
  assumes "0 \<le> c" "c < k" "k \<le> max_int64"
  shows "list_range (lv_inner status k) (r, c, False) vs =
    (if k \<le> c + int (length vs) then
       ((r\<lparr>lv_Versions := lv_Versions r @ map (lv_item status) (take (nat (k - c)) vs)\<rparr>, k, True),
        drop (nat (k - c)) vs, True)
     else
       ((r\<lparr>lv_Versions := lv_Versions r @ map (lv_item status) vs\<rparr>, c + int (length vs), False), [], False))"
  using assms(1,2)
proof (induction vs arbitrary: r c)
  case (Cons v vs)
  have i: "i64 (c + 1) = c + 1" using Cons.prems assms(3) by (simp add: is_i64_def min_int64_def)
  show ?case
  proof (cases "k = c + 1")
    case True
    then show ?thesis using Cons.prems by (simp add: lv_inner_def i)
  next
    case False
    then have "nat (k - c) = Suc (nat (k - (c + 1)))" using Cons.prems by simp
    with False Cons.prems Cons.IH [of "c + 1" "r\<lparr>lv_Versions := lv_Versions r @ [lv_item status v]\<rparr>"] show ?thesis
      by (simp add: lv_inner_def i)
  qed
qed simp

context s3mem_laws
begin

lemma lv_object_take:
  assumes "vp_VersionIDMarker page = ''''" "0 \<le> c" "c < vp_MaxKeys page" "vp_MaxKeys page \<le> max_int64"
  shows "\<exists>more. lv_object env status page obj (r, c, first, tr) =
    (let vs = all_versions ventries obj; k = vp_MaxKeys page
     in if k \<le> c + int (length vs) then
          Break (Ok (r\<lparr>lv_Versions := lv_Versions r @ map (lv_item status) (take (nat (k - c)) vs)\<rparr>, k, False, more))
        else
          Continue (Ok (r\<lparr>lv_Versions := lv_Versions r @ map (lv_item status) vs\<rparr>, c + int (length vs), False, tr))) \<and>
    (vp_MaxKeys page < c + int (length (all_versions ventries obj)) \<longrightarrow> more)"
proof -
  let ?vs = "all_versions ventries obj" and ?k = "vp_MaxKeys page"
  obtain e where y: "yields (bo_step env) (bo_Iterator env obj) ?vs e"
    using bo_yields [of obj] unfolding all_versions_def by (elim exE)
  have len: "length ?vs < versions_fuel env obj"
    by (simp add: all_versions_def versions_fuel_def older_def opt_list_def vsl.len_entries
        split: option.splits)
  note l = lv_inner_take [OF assms(2-4), of status r ?vs]
  show ?thesis
  proof (cases "?k \<le> c + int (length ?vs)")
    case True
    with l have l': "list_range (lv_inner status ?k) (r, c, False) ?vs =
      ((r\<lparr>lv_Versions := lv_Versions r @ map (lv_item status) (take (nat (?k - c)) ?vs)\<rparr>, ?k, True),
       drop (nat (?k - c)) ?vs, True)" by simp
    from go_range_yields [OF y len l'] obtain it' where it':
      "go_range (versions_fuel env obj) (bo_step env) (lv_inner status ?k) (r, c, False) (bo_Iterator env obj) =
       Some ((r\<lparr>lv_Versions := lv_Versions r @ map (lv_item status) (take (nat (?k - c)) ?vs)\<rparr>, ?k, True), it')"
      "yields (bo_step env) it' (drop (nat (?k - c)) ?vs) e" by auto
    have "fst (bo_Next env it')" if "?k < c + int (length ?vs)"
    proof -
      have "nat (?k - c) < length ?vs" using that assms(3) by linarith
      then show ?thesis using it'(2) yields_bo_Next by (cases "drop (nat (?k - c)) ?vs") auto
    qed
    then show ?thesis using it'(1) assms(1) True
      by (intro exI [of _ "fst (bo_Next env it')"]) (simp add: lv_object_def versions_start_def Let_def)
  next
    case False
    with l have l': "list_range (lv_inner status ?k) (r, c, False) ?vs =
      ((r\<lparr>lv_Versions := lv_Versions r @ map (lv_item status) ?vs\<rparr>, c + int (length ?vs), False), [], False)" by simp
    from go_range_yields [OF y len l'] False assms(1) show ?thesis
      by (auto simp: lv_object_def versions_start_def Let_def)
  qed
qed

lemma lv_listing_Cons:
  "lv_listing ventries status p (e # es) =
     (if prefix_Match p (bo_name (snd e)) = None then [] else map (lv_item status) (all_versions ventries (snd e))) @
     lv_listing ventries status p es"
  by (simp add: lv_listing_def)

text \<open>The outer loop: the versions it takes, and what is left where it breaks off.\<close>

lemma lv_fold_take:
  assumes "vp_VersionIDMarker page = ''''" "\<not> HasDelimiter p" "vp_MaxKeys page \<le> max_int64"
    and "0 \<le> c" "c < vp_MaxKeys page"
  shows "\<exists>c' first' tr rest broke.
    list_range (lv_body env p status page) (Ok (r, c, first, False)) es =
      (Ok (r\<lparr>lv_Versions := lv_Versions r @ take (nat (vp_MaxKeys page - c)) (lv_listing ventries status p es)\<rparr>,
           c', first', tr), rest, broke) \<and>
    (c + int (length (lv_listing ventries status p es)) < vp_MaxKeys page \<longrightarrow> \<not> broke \<and> \<not> tr) \<and>
    (vp_MaxKeys page < c + int (length (lv_listing ventries status p es)) \<longrightarrow> broke \<and> (tr \<or> rest \<noteq> []))"
  using assms(4,5)
proof (induction es arbitrary: r c first)
  case (Cons e es)
  let ?k = "vp_MaxKeys page" and ?vs = "all_versions ventries (snd e)"
  show ?case
  proof (cases "prefix_Match p (bo_name (snd e))")
    case None
    then show ?thesis using Cons.IH [OF Cons.prems, of r first] by (simp add: lv_body_def lv_listing_Cons)
  next
    case (Some m)
    have body: "lv_body env p status page e (Ok (r, c, first, False)) =
        lv_object env status page (snd e) (r, c, first, False)"
      using Some prefix_Match_no_delim_flat [OF assms(2) Some] by (simp add: lv_body_def)
    obtain more where o: "lv_object env status page (snd e) (r, c, first, False) =
      (let vs = ?vs; k = ?k
       in if k \<le> c + int (length vs) then
            Break (Ok (r\<lparr>lv_Versions := lv_Versions r @ map (lv_item status) (take (nat (k - c)) vs)\<rparr>, k, False, more))
          else
            Continue (Ok (r\<lparr>lv_Versions := lv_Versions r @ map (lv_item status) vs\<rparr>, c + int (length vs), False, False)))"
      "?k < c + int (length ?vs) \<longrightarrow> more"
      using lv_object_take [OF assms(1) Cons.prems assms(3), of status "snd e" r first False] by blast
    show ?thesis
    proof (cases "?k \<le> c + int (length ?vs)")
      case True
      then have t: "take (nat (?k - c)) (lv_listing ventries status p (e # es)) =
          map (lv_item status) (take (nat (?k - c)) ?vs)"
        using Some by (simp add: lv_listing_Cons take_map)
      have "more \<or> es \<noteq> []" if "?k < c + int (length (lv_listing ventries status p (e # es)))"
        using o(2) that True Some by (cases es) (auto simp: lv_listing_Cons lv_listing_def)
      then show ?thesis using body o(1) True t Some by (auto simp: Let_def lv_listing_Cons)
    next
      case False
      then have n: "nat (?k - c) = length ?vs + nat (?k - (c + int (length ?vs)))" by linarith
      have t: "take (nat (?k - c)) (lv_listing ventries status p (e # es)) =
          map (lv_item status) ?vs @ take (nat (?k - (c + int (length ?vs)))) (lv_listing ventries status p es)"
        unfolding n using Some by (simp add: lv_listing_Cons)
      have c: "0 \<le> c + int (length ?vs)" "c + int (length ?vs) < ?k" using Cons.prems(1) False by simp_all
      show ?thesis
        using Cons.IH [OF c, of "r\<lparr>lv_Versions := lv_Versions r @ map (lv_item status) ?vs\<rparr>" False] body o(1) False t Some
        by (simp add: Let_def lv_listing_Cons add.assoc)
    qed
  qed
qed (auto simp: lv_listing_def)

lemma ListBucketVersions_page:
  assumes "mem_bucket db bucket = Some b" "\<not> HasDelimiter p" "0 < k" "k \<le> max_int64"
  shows "\<exists>r. mem_ListBucketVersions env bucket (Some p) (Some (emptyVersionsPage\<lparr>vp_MaxKeys := k\<rparr>)) db = (Ok r, db) \<and>
    lv_Versions r = take (nat k) (lv_listing ventries (bk_versioning b) p (oentries (bk_objects b))) \<and>
    (int (length (lv_listing ventries (bk_versioning b) p (oentries (bk_objects b)))) < k \<longrightarrow> \<not> lv_IsTruncated r) \<and>
    (k < int (length (lv_listing ventries (bk_versioning b) p (oentries (bk_objects b)))) \<longrightarrow> lv_IsTruncated r)"
proof -
  let ?pg = "emptyVersionsPage\<lparr>vp_MaxKeys := k\<rparr>" and ?es = "oentries (bk_objects b)"
  let ?r = "NewListBucketVersionsResult bucket (Some p) (Some ?pg)"
  let ?g = "gs_New (sl_iterator (env_osl env) (bk_objects b))"
  let ?all = "lv_listing ventries (bk_versioning b) p ?es"
  obtain e where y: "yields (gs_step (env_osl env)) ?g ?es e"
    and e: "\<not> gs_didSeek e" "oview (gs_inner e) = (?es, length ?es)"
    using osl.gs_yields_new [of "bk_objects b"] by (elim exE conjE)
  have pg: "vp_VersionIDMarker ?pg = ''''" "vp_KeyMarker ?pg = ''''" "vp_MaxKeys ?pg = k"
    by (simp_all add: emptyVersionsPage_def)
  obtain c' first' tr rest broke where l:
    "list_range (lv_body env p (bk_versioning b) ?pg) (Ok (?r, 0, True, False)) ?es =
      (Ok (?r\<lparr>lv_Versions := lv_Versions ?r @ take (nat k) ?all\<rparr>, c', first', tr), rest, broke)"
    "int (length ?all) < k \<longrightarrow> \<not> broke \<and> \<not> tr" "k < int (length ?all) \<longrightarrow> broke \<and> (tr \<or> rest \<noteq> [])"
    using lv_fold_take [OF pg(1) assms(2), of 0 "bk_versioning b" ?r True ?es] assms(3,4) unfolding pg(3) by auto
  have len: "length ?es < Suc (sl_len (env_osl env) (bk_objects b))" by (simp add: osl.len_entries)
  from go_range_yields [OF y len l(1)] obtain it' where g:
    "go_range (Suc (sl_len (env_osl env) (bk_objects b))) (gs_step (env_osl env))
       (lv_body env p (bk_versioning b) ?pg) (Ok (?r, 0, True, False)) ?g =
     Some (Ok (?r\<lparr>lv_Versions := lv_Versions ?r @ take (nat k) ?all\<rparr>, c', first', tr), it')"
    "if broke then yields (gs_step (env_osl env)) it' rest e else it' = e" by blast
  have "\<not> fst (gs_Next (env_osl env) e)"
    using osl.view_next [OF e(2)] e(1) by (simp add: gs_Next_def split_beta)
  then have "int (length ?all) < k \<longrightarrow> \<not> fst (gs_Next (env_osl env) it')" using l(2) g(2) by auto
  moreover have "k < int (length ?all) \<longrightarrow> tr \<or> fst (gs_Next (env_osl env) it')"
    using l(3) g(2) by (cases rest) (auto dest: yields_gs_Next)
  moreover have "lv_Versions ?r = []" by (simp add: NewListBucketVersionsResult_def)
  ultimately show ?thesis using assms(1) g(1) pg(2) l(2)
    by (simp add: mem_ListBucketVersions_def Let_def del: go_range.simps)
qed

end

section \<open>The property\<close>

text \<open>
  C10: listing versions by pages. A listing with a limit of \<open>k\<close> versions, without a delimiter and without markers,
  has the first \<open>k\<close> versions (all of them for \<open>k = 0\<close>) of the whole listing: the keys that match the prefix, in
  their order, and of each key its versions and delete markers from the oldest to the current one. (The
  documentation of S3, as the comment in \<open>ListBucketVersions\<close> quotes it, asks for the most recently stored object
  first; the code has the opposite order within a key.) The listing is marked as truncated if there are more
  versions, and not if the limit was not reached.
\<close>

theorem list_versions_page:
  assumes "s3mem_laws env oentries oview ventries vview" "mem_bucket db bucket = Some b"
    and "\<not> HasDelimiter p" "0 \<le> k" "k \<le> max_int64"
    and "whole = concat (map (\<lambda>(key, obj). map (lv_item (bk_versioning b)) (all_versions ventries obj))
           (filter (\<lambda>(key, obj). prefix_Match p (bo_name obj) \<noteq> None) (oentries (bk_objects b))))"
  shows "\<exists>r. mem_ListBucketVersions env bucket (Some p) (Some (emptyVersionsPage\<lparr>vp_MaxKeys := k\<rparr>)) db = (Ok r, db) \<and>
    lv_Versions r = (if k = 0 then whole else take (nat k) whole) \<and>
    (0 < k \<and> k < int (length whole) \<longrightarrow> lv_IsTruncated r) \<and>
    (k = 0 \<or> int (length whole) < k \<longrightarrow> \<not> lv_IsTruncated r)"
proof -
  have whole: "whole = lv_listing ventries (bk_versioning b) p (oentries (bk_objects b))"
    by (simp add: assms(6) lv_listing_def split_def)
  show ?thesis
  proof (cases "k = 0")
    case True
    then show ?thesis
      using s3mem_laws.ListBucketVersions_all [OF assms(1-3), of 0] whole
      by (simp add: NewListBucketVersionsResult_def)
  next
    case False
    with assms(4) have "0 < k" by simp
    from s3mem_laws.ListBucketVersions_page [OF assms(1-3) this assms(5)] False show ?thesis
      unfolding whole by auto
  qed
qed

lemma list_versions_page_witness:
  "\<exists>r. mem_ListBucketVersions demo_env ''b'' (Some emptyPrefix) (Some (emptyVersionsPage\<lparr>vp_MaxKeys := 1\<rparr>)) demo_two =
     (Ok r, demo_two) \<and> map GetVersionID (lv_Versions r) = [''''] \<and> lv_IsTruncated r"
proof -
  obtain d e b where n: "bd_name d = ''k''" "bd_name e = ''l''"
    and b: "mem_bucket demo_two ''b'' = Some b" "bk_versioning b = VersioningNone"
    and o: "bk_objects b = [(''k'', \<lparr>bo_name = ''k'', bo_data = Some d, bo_versions = None\<rparr>),
                      (''l'', \<lparr>bo_name = ''l'', bo_data = Some e, bo_versions = None\<rparr>)]"
    using demo_two_bucket by auto
  let ?whole = "concat (map (\<lambda>(key, obj). map (lv_item (bk_versioning b)) (all_versions alist_entries obj))
      (filter (\<lambda>(key, obj). prefix_Match emptyPrefix (bo_name obj) \<noteq> None) (alist_entries (bk_objects b))))"
  have w: "?whole = [lv_item VersioningNone (d, True), lv_item VersioningNone (e, True)]"
    using b(2) by (simp add: o alist_entries_def all_versions_def older_def opt_list_def prefix_Match_def emptyPrefix_def)
  have p: "\<not> HasDelimiter emptyPrefix" by (simp add: emptyPrefix_def)
  have "GetVersionID (lv_item VersioningNone (d, True)) = ''''"
    by (simp add: lv_item_def Let_def GetVersionID_def)
  then show ?thesis
    using list_versions_page [OF demo_laws b(1) p _ _ refl, of 1] unfolding w by (auto simp: max_int64_def)
qed

end
