(* ===== verification/BucketAnswers.thy ===== *)
theory BucketAnswers
  imports ServerProperties MemVersionPaging
begin

text \<open>
  What the server answers to requests for a bucket that does not exist, over any back end, and to requests for the
  versions in a bucket, over \<open>s3mem\<close>.
\<close>

section \<open>Requests through the middlewares\<close>

text \<open>A request whose bucket is in its path and whose clock is in time reaches \<open>routeBase\<close> as it is.\<close>

definition unchanged_request :: "server_env \<Rightarrow> 'w gofakes3 \<Rightarrow> int \<Rightarrow> request \<Rightarrow> bool" where
  "unchanged_request env g now rq \<longleftrightarrow>
     \<not> g_hostBucket g \<and> g_hostBucketBases g = [] \<and> (g_timeSkew g = 0 \<or> \<not> too_skewed env g now rq) \<and>
     rq_Method rq \<noteq> ''OPTIONS''"

lemma Server_unchanged:
  assumes "unchanged_request env g now rq"
  shows "Server env g now rq w sv = routeBase env g now rq (rw_Set_all cors_headers w) sv"
  using assms by (auto simp: unchanged_request_def Server_def Let_def timeSkewMiddleware_def withCORS_def)

text \<open>The answer if the handler fails before it has sent anything.\<close>

lemma Server_failed:
  assumes "unchanged_request env g now rq" "dispatch env g now rq = Some h"
    and "\<And>w. h (w, sv_world sv) = (Err e, (w, sv_world sv))" "err_ErrorCode e = Some c" "body_allowed (code_Status c)"
  shows "\<exists>w'. Server env g now rq new_response sv = ((Ok (), w'), sv\<lparr>sv_requestID := sv_requestID sv + 1\<rparr>) \<and>
    rw_status w' = code_Status c \<and>
    rw_body w' = (if rq_Method rq = ''HEAD'' then [] else [Raw xml_header, Doc (DError (ensureErrorResponse e ''''))])"
proof -
  let ?w = "rw_Set_all (request_headers env (sv_requestID sv + 1)) (rw_Set_all cors_headers new_response)"
  have w: "rw_sent ?w = None" "rw_body ?w = []" by (simp_all add: new_response_def)
  obtain w' where w': "httpError rq e (?w, sv_world sv) = (Ok (), (w', sv_world sv))"
    using httpError_answer(1,2) [OF w(1), of rq e "sv_world sv"] by (metis prod.collapse)
  show ?thesis
    using httpError_answer(3,4) [OF w(1), of rq e "sv_world sv"] w(2) w' assms(2-5)
    by (simp add: Server_unchanged [OF assms(1)] routeBase_def with_error_def Let_def)
qed

section \<open>Buckets that do not exist\<close>

text \<open>
  The requests whose handler looks for the bucket before anything else. Not among them are those that create a
  bucket or start, fill, complete or abort a multipart upload, those that no route takes, and those for versions that
  the back end does not have.
\<close>

definition needs_bucket :: "'w gofakes3 \<Rightarrow> request \<Rightarrow> string \<Rightarrow> bool" where
  "needs_bucket g rq object \<longleftrightarrow>
     (let q = rq_Query rq; m = rq_Method rq
      in if vals_get q ''uploadId'' \<noteq> '''' \<or> vals_has q ''uploads'' then m = ''GET''
         else if vals_has q ''versioning'' then m = ''GET'' \<or> m = ''PUT''
         else if vals_has q ''versions'' then m = ''GET'' \<and> g_versioned g \<noteq> None
         else if versionFromQuery (query_values q ''versionId'') \<noteq> '''' then
           m = ''GET'' \<or> m = ''HEAD'' \<or> m = ''DELETE'' \<and> g_versioned g \<noteq> None
         else if object \<noteq> '''' then m = ''GET'' \<or> m = ''HEAD'' \<or> m = ''PUT'' \<or> m = ''DELETE''
         else m = ''GET'' \<or> m = ''HEAD'' \<or> m = ''DELETE'' \<or> m = ''POST'')"

lemma ensure_first:
  assumes "be_BucketExists (g_storage g) b world = (Ok False, world)" "\<not> g_autoBucket g"
  shows "act_then (on_world (ensureBucketExists g b)) m (w, world) = (Err (BucketNotFound b), (w, world))"
  using assms
  by (simp add: act_then_def act_bind_def on_world_def ensureBucketExists_def act_err_def BucketNotFound_def)

lemma dispatch_needs_bucket:
  assumes "split_path (rq_Path rq) = (b, object)" "b \<noteq> ''''" "needs_bucket g rq object"
    and "be_BucketExists (g_storage g) b world = (Ok False, world)" "\<not> g_autoBucket g"
  shows "\<exists>h. dispatch env g now rq = Some h \<and> (\<forall>w. h (w, world) = (Err (BucketNotFound b), (w, world)))"
proof -
  note handlers = getObject_def headObject_def createObject_def deleteObject_def deleteObjectVersion_def
    listBucket_def getBucketLocation_def deleteBucket_def headBucket_def deleteMulti_def
    createObjectBrowserUpload_def getBucketVersioning_def putBucketVersioning_def listBucketVersions_def
    listMultipartUploads_def listMultipartUploadParts_def
  note routes = routeMultipartUpload_def routeMultipartUploadBase_def routeVersioning_def routeVersions_def
    routeVersion_def routeObject_def routeBucket_def
  show ?thesis
    using assms(1-3)
    by (auto simp: dispatch_def needs_bucket_def Let_def routes handlers ensure_first [OF assms(4,5)]
        split: if_splits)
qed

text \<open>
  C32: requests for a bucket that does not exist. Over any back end, if the server takes the bucket from the path and
  does not create buckets by itself, every request in time that needs its bucket, whichever its other parameters, headers and body, is answered
  with status 404 and the error \<open>NoSuchBucket\<close> as document (none for HEAD), and neither objects nor
  uploads change. This is what the tests \<open>S300006\<close> and \<open>S300007\<close> of \<open>s3assumer\<close> find of S3: the
  location, the versioning, and a change of the versioning whose document is not valid.
\<close>

theorem missing_bucket_refused:
  assumes "unchanged_request env g now rq" "split_path (rq_Path rq) = (b, object)" "b \<noteq> ''''"
    and "needs_bucket g rq object" "\<not> g_autoBucket g"
    and "be_BucketExists (g_storage g) b (sv_world sv) = (Ok False, sv_world sv)"
  shows "\<exists>w'. Server env g now rq new_response sv = ((Ok (), w'), sv\<lparr>sv_requestID := sv_requestID sv + 1\<rparr>) \<and>
    rw_status w' = 404 \<and>
    rw_body w' = (if rq_Method rq = ''HEAD'' then []
                  else [Raw xml_header, Doc (DError (ensureErrorResponse (BucketNotFound b) ''''))])"
proof -
  obtain h where h: "dispatch env g now rq = Some h"
      "\<And>w. h (w, sv_world sv) = (Err (BucketNotFound b), (w, sv_world sv))"
    using dispatch_needs_bucket [OF assms(2,3,4,6,5)] by blast
  have e: "err_ErrorCode (BucketNotFound b) = Some ErrNoSuchBucket" "body_allowed (code_Status ErrNoSuchBucket)"
    by (simp_all add: BucketNotFound_def ResourceError_def body_allowed_def)
  show ?thesis using Server_failed [OF assms(1) h e] by simp
qed

lemma missing_bucket_refused_witness:
  "\<exists>w'. Server demo_senv demo_server 0
       ((demo_request ''PUT'' ''/c'' [] ''enorbled'')\<lparr>rq_Query := [(''versioning'', [''''])]\<rparr>) new_response demo_sv =
     ((Ok (), w'), demo_sv\<lparr>sv_requestID := 1\<rparr>) \<and> rw_status w' = 404"
proof -
  let ?rq = "(demo_request ''PUT'' ''/c'' [] ''enorbled'')\<lparr>rq_Query := [(''versioning'', [''''])]\<rparr>"
  have p: "unchanged_request demo_senv demo_server 0 ?rq" "split_path (rq_Path ?rq) = (''c'', '''')"
    "needs_bucket demo_server ?rq ''''" "\<not> g_autoBucket demo_server"
    by (simp_all add: unchanged_request_def demo_server_def mem_server_def demo_request_def too_skewed_def
        header_get_def vals_get_def vals_has_def needs_bucket_def split_path_def trim_def trim_left_def trim_right_def
        split_n2_def index_of.simps has_prefix_def)
  have "be_BucketExists (g_storage demo_server) ''c'' (sv_world demo_sv) = (Ok False, sv_world demo_sv)"
    by (simp add: demo_server_def demo_sv_def lift_backend_def on_storage_eq mem_backend_def mem_BucketExists_def
        demo_db0_def mem_CreateBucket_def mem_New_def mem_bucket_def mem_set_bucket_def)
  from missing_bucket_refused [OF p(1,2) _ p(3,4) this] show ?thesis by (auto simp: demo_sv_def)
qed

section \<open>Versions that do not fit\<close>

definition versions_request :: "string \<Rightarrow> request \<Rightarrow> bool" where
  "versions_request b rq \<longleftrightarrow>
     rq_Method rq = ''GET'' \<and> fst (split_path (rq_Path rq)) = b \<and> vals_has (rq_Query rq) ''versions'' \<and>
     list_all (\<lambda>x. \<not> vals_has (rq_Query rq) x)
       [''uploadId'', ''uploads'', ''versioning'', ''delimiter'', ''key-marker'', ''version-id-marker'']"

lemma vals_get_absent: "\<not> vals_has q k \<Longrightarrow> vals_get q k = ''''"
  by (auto simp: vals_has_def vals_get_def split: option.splits)

lemma dispatch_versions:
  assumes "versions_request b rq"
  shows "dispatch env g now rq = Some (listBucketVersions g b rq)"
  using assms
  by (auto simp: versions_request_def dispatch_def vals_get_absent Let_def routeVersions_def split: prod.splits)

lemma versions_page:
  assumes "versions_request b rq"
    and "parseClampedInt (vals_get (rq_Query rq) ''max-keys'') DefaultMaxBucketVersionKeys 0 MaxBucketVersionKeys = Ok k"
  shows "rbind (listBucketVersionsPageFromQuery (rq_Query rq)) check_versions_page =
      Ok (emptyVersionsPage\<lparr>vp_MaxKeys := k\<rparr>)" "\<not> HasDelimiter (prefixFromQuery (rq_Query rq))" "0 \<le> k" "k \<le> max_int64"
proof -
  show "rbind (listBucketVersionsPageFromQuery (rq_Query rq)) check_versions_page =
      Ok (emptyVersionsPage\<lparr>vp_MaxKeys := k\<rparr>)" "\<not> HasDelimiter (prefixFromQuery (rq_Query rq))"
    using assms
    by (simp_all add: versions_request_def listBucketVersionsPageFromQuery_def check_versions_page_def
        vals_get_absent emptyVersionsPage_def prefixFromQuery_def)
  show "0 \<le> k" "k \<le> max_int64"
    using parseClampedInt_range [OF _ assms(2)] by (simp_all add: MaxBucketVersionKeys_def max_int64_def)
qed

text \<open>
  C33: a truncated listing of versions cannot be continued. A GET of the versions in a bucket of \<open>s3mem\<close>, in time and
  without delimiter and markers, with a \<open>max-keys\<close> that is less than the number of versions that match, is answered
  with status 200 and a document that has the first \<open>max-keys\<close> of the versions (a missing ID is the text null)
  and says that it is truncated, but whose next key marker and next version ID marker are empty, whereas
  \<open>messages.go\<close> and the test \<open>S300004\<close> of \<open>s3assumer\<close> have them name what comes next.
\<close>

theorem truncated_versions_no_markers:
  assumes "s3mem_laws menv oentries oview ventries vview" "mem_bucket db b = Some bk"
    and "versions_request b rq" "unchanged_request senv (mem_server wall menv uenv) now rq"
    and "parseClampedInt (vals_get (rq_Query rq) ''max-keys'') DefaultMaxBucketVersionKeys 0 MaxBucketVersionKeys = Ok k"
    and "whole = concat (map (\<lambda>(key, obj). map (lv_item (bk_versioning bk)) (all_versions ventries obj))
           (filter (\<lambda>(key, obj). prefix_Match (prefixFromQuery (rq_Query rq)) (bo_name obj) \<noteq> None)
             (oentries (bk_objects bk))))"
    and "0 < k" "k < int (length whole)"
  shows "\<exists>w r. Server senv (mem_server wall menv uenv) now rq new_response \<lparr>sv_requestID = n, sv_world = (u, db)\<rparr> =
      ((Ok (), w), \<lparr>sv_requestID = n + 1, sv_world = (u, db)\<rparr>) \<and>
    rw_status w = 200 \<and> rw_body w = [Raw xml_header, Doc (DVersions r)] \<and>
    lv_Versions r = map null_version (take (nat k) whole) \<and> lv_IsTruncated r \<and>
    lv_NextKeyMarker r = '''' \<and> lv_NextVersionIDMarker r = ''''"
proof -
  let ?g = "mem_server wall menv uenv" and ?p = "prefixFromQuery (rq_Query rq)"
  note page = versions_page [OF assms(3,5)]
  have whole: "whole = lv_listing ventries (bk_versioning bk) ?p (oentries (bk_objects bk))"
    by (simp add: assms(6) lv_listing_def split_def)
  obtain r where r: "mem_ListBucketVersions menv b (Some ?p) (Some (emptyVersionsPage\<lparr>vp_MaxKeys := k\<rparr>)) db = (Ok r, db)"
      "lv_Versions r = take (nat k) whole" "lv_IsTruncated r"
    using s3mem_laws.ListBucketVersions_page [OF assms(1,2) page(2) assms(7) page(4)] assms(8) whole by auto
  have m: "lv_NextKeyMarker r = ''''" "lv_NextVersionIDMarker r = ''''"
    using ListBucketVersions_no_markers [of menv b "Some ?p" "Some (emptyVersionsPage\<lparr>vp_MaxKeys := k\<rparr>)" db r] r(1)
    by (simp_all add: no_markers_def)
  let ?r = "r\<lparr>lv_Versions := map null_version (lv_Versions r)\<rparr>"
  have h: "listBucketVersions ?g b rq (w, (u, db)) =
      (Ok (), (rw_Write (Doc (DVersions ?r)) (rw_Set ''Content-Type'' ''application/xml'' (rw_Write (Raw xml_header) w)),
       (u, db)))" for w
    using assms(2) r(1) page(1)
    by (simp add: listBucketVersions_def act_then_def act_bind_def on_world_def act_res_def mem_ensure
        mem_has_bucket_def lift_versioned_def on_storage_eq xml_encode_def on_writer_def Let_def)
  show ?thesis
    using h m r(2,3)
    by (simp add: Server_unchanged [OF assms(4)] routeBase_def dispatch_versions [OF assms(3)] with_error_def Let_def
        rw_status_def rw_Write_def rw_WriteHeader_def body_allowed_def new_response_def)
qed

lemma truncated_versions_no_markers_witness:
  "\<exists>w r. Server demo_senv demo_server 0 ((demo_request ''GET'' ''/b'' [] [])
         \<lparr>rq_Query := [(''versions'', ['''']), (''max-keys'', [''1''])]\<rparr>) new_response
       \<lparr>sv_requestID = 0, sv_world = (newUploader 0 :: (string \<times> uploadRef list) list uploader, demo_two)\<rparr> =
     ((Ok (), w), \<lparr>sv_requestID = 1, sv_world = (newUploader 0, demo_two)\<rparr>) \<and>
     rw_body w = [Raw xml_header, Doc (DVersions r)] \<and> map GetVersionID (lv_Versions r) = [''null''] \<and>
     lv_IsTruncated r \<and> lv_NextKeyMarker r = '''' \<and> lv_NextVersionIDMarker r = ''''"
proof -
  let ?q = "[(''versions'', ['''']), (''max-keys'', [''1''])]"
  let ?rq = "(demo_request ''GET'' ''/b'' [] [])\<lparr>rq_Query := ?q\<rparr>"
  obtain d e b where n: "bd_name d = ''k''" "bd_name e = ''l''"
    and b: "mem_bucket demo_two ''b'' = Some b" "bk_versioning b = VersioningNone"
    and o: "bk_objects b = [(''k'', \<lparr>bo_name = ''k'', bo_data = Some d, bo_versions = None\<rparr>),
                      (''l'', \<lparr>bo_name = ''l'', bo_data = Some e, bo_versions = None\<rparr>)]"
    using demo_two_bucket by auto
  let ?whole = "concat (map (\<lambda>(key, obj). map (lv_item (bk_versioning b)) (all_versions alist_entries obj))
      (filter (\<lambda>(key, obj). prefix_Match (prefixFromQuery (rq_Query ?rq)) (bo_name obj) \<noteq> None)
        (alist_entries (bk_objects b))))"
  have w: "?whole = [lv_item VersioningNone (d, True), lv_item VersioningNone (e, True)]"
    using b(2) by (simp add: o alist_entries_def all_versions_def older_def opt_list_def prefix_Match_def
        prefixFromQuery_def vals_has_def vals_get_def)
  have rq: "versions_request ''b'' ?rq" "unchanged_request demo_senv (mem_server 0 demo_env demo_uploader) 0 ?rq"
    by (simp_all add: versions_request_def unchanged_request_def mem_server_def demo_request_def too_skewed_def
        header_get_def vals_get_def vals_has_def split_path_def trim_def trim_left_def trim_right_def
        split_n2_def index_of.simps has_prefix_def)
  have k: "parseClampedInt (vals_get (rq_Query ?rq) ''max-keys'') DefaultMaxBucketVersionKeys 0 MaxBucketVersionKeys = Ok 1"
    by (simp add: vals_get_def parseClampedInt_def parse_int_def parse_digits_def is_digit_def digits_val_def
        digit_val_def is_i64_def min_int64_def max_int64_def MaxBucketVersionKeys_def)
  have v: "GetVersionID (null_version (lv_item VersioningNone (d, True))) = ''null''"
    by (simp add: lv_item_def Let_def null_version_def GetVersionID_def)
  show ?thesis
    using truncated_versions_no_markers [OF demo_laws b(1) rq k refl, of 0 "newUploader 0"] v
    unfolding w by (auto simp: demo_server_def)
qed

end
