(* ===== verification/Spec2Isabelle.thy ===== *)
theory Spec2Isabelle
  imports Validation MemProperties UploaderProperties ServerProperties ChunkProperties CoreProperties
    BoltProperties MemPaging AferoProperties StoreProperties CommandProperties RequestProperties
    AssumerProperties MemConcurrent MemVersionPaging BucketAnswers
begin

text \<open>
  A verification development for gofakes3, a fake Amazon S3 server written in Go.

  \<^bold>\<open>The program.\<close> An HTTP request passes the middlewares (\<open>gofakes3.go\<close>, \<open>cors.go\<close>) and the dispatch of
  \<open>routing.go\<close> to a handler of \<open>gofakes3.go\<close>. The handlers work over the interfaces of \<open>backend.go\<close>: a
  back end for buckets and objects, optionally one for versions, and one for multipart uploads, for
  which \<open>uploader.go\<close> is the default. \<open>backend/s3mem\<close> keeps everything in memory: a bucket is a skip
  list of objects, an object is a current version and a skip list of older ones, and version IDs come
  from a generator whose output grows. \<open>backend/s3bolt\<close> keeps encoded objects in a \<open>bbolt\<close> file, one
  transaction per operation. \<open>backend/s3afero\<close> keeps objects as files and their metadata as JSON documents
  in file systems of the package \<open>afero\<close>, with buckets as directories (\<open>multi.go\<close>) or for one bucket
  (\<open>single.go\<close>). Bodies come through the readers of \<open>hash.go\<close>, \<open>util.go\<close> and
  \<open>chunk.go\<close>. \<open>cmd/gofakes3\<close> parses flags, opens a back end and serves. \<open>internal/s3assumer\<close> is a second
  program: tests that find out how an S3 service behaves, whose results the server imitates.

  \<^bold>\<open>Conventions.\<close> Strings and bodies are lists of characters (bytes). Go's \<open>int\<close> and \<open>int64\<close> are integers;
  where overflow can matter the wrap-around is written out (\<open>i64\<close>), and the generator of version IDs
  works on 64-bit words. A fallible function answers \<open>Ok\<close>, \<open>Err\<close> with an error value, \<open>Panic\<close> where Go
  panics (nil dereference, index or slice out of range, send of a nil map) or \<open>NoFuel\<close>. An operation
  with a state is an \<open>act\<close>: from a state to a result and a state. Operations that hold a lock from
  beginning to end are one step. A pointer that may be nil is an option.

  \<^bold>\<open>Theories and what they model.\<close>
    \<^item> \<open>Prelude\<close>: strings of the \<open>strings\<close> package, \<open>strconv\<close>, \<open>url.Values\<close>, 64-bit wrap-around.
    \<^item> \<open>Errors\<close>: \<open>error.go\<close>. \<open>Range\<close>: \<open>range.go\<close>. \<open>Prefix\<close>: \<open>prefix.go\<close>. \<open>Validation\<close>: \<open>validation.go\<close>.
    \<^item> \<open>Readers\<close>: \<open>util.go\<close>, \<open>hash.go\<close> and \<open>internal/s3io\<close>; a reader is the bytes it delivers and the error behind them.
      \<open>Chunk\<close>: \<open>chunk.go\<close>, both the method \<open>Read\<close> and the stream it decodes to; \<open>ChunkFacts\<close> proves that
      they agree and defines the encoding of clients.
    \<^item> \<open>Messages\<close>: \<open>messages.go\<close>. \<open>Backend\<close>: \<open>backend.go\<close>, its interfaces as records of operations.
    \<^item> \<open>Skiplist\<close>: the contract of the third-party skip list (locale \<open>skiplist_laws\<close>, with an instance on
      association lists for witnesses) and the adapter \<open>internal/goskipiter\<close>.
    \<^item> \<open>VersionId\<close>, \<open>MemBucket\<close>, \<open>MemBackend\<close>, \<open>MemListing\<close>: \<open>backend/s3mem\<close>.
    \<^item> \<open>Uploader\<close>: \<open>uploader.go\<close>.
    \<^item> \<open>Http\<close>: what is used of \<open>net/http\<close>, and the documents of \<open>messages.go\<close>. \<open>Handlers\<close>: the server object,
      \<open>option.go\<close> and the shared helpers of \<open>gofakes3.go\<close>; \<open>BucketHandlers\<close>, \<open>ObjectHandlers\<close> and
      \<open>UploadHandlers\<close>: its handlers. \<open>Routing\<close>: \<open>routing.go\<close>, \<open>cors.go\<close> and the middlewares.
    \<^item> \<open>Bolt\<close>: the contract of \<open>bbolt\<close> and \<open>bson\<close> (locale \<open>bolt_laws\<close>, with an instance on association lists
      for witnesses). \<open>BoltBackend\<close>: \<open>backend/s3bolt\<close>.
    \<^item> \<open>StoreServer\<close>: the server over any back end and the uploader. Its locales are what the handlers need
      of a back end: \<open>reading_store\<close> (operations that read keep the state), \<open>probing_store\<close> (a bucket that
      exists is found) and \<open>storing_backend\<close> (what was put is what is got).
    \<^item> \<open>MemServer\<close>: the server over \<open>s3mem\<close>, as the command line program runs it; \<open>BoltServer\<close>: over \<open>s3bolt\<close>.
      Both interpret the locales of \<open>StoreServer\<close> on their back end.
    \<^item> \<open>GoPath\<close>: the package \<open>path\<close>. \<open>Afero\<close>: the operations of \<open>afero.Fs\<close> as a record, and the locale
      \<open>afero_laws\<close> of a file system on which what exists can be read. \<open>AferoMeta\<close>: \<open>meta.go\<close>, \<open>modres.go\<close> and
      \<open>hash.go\<close>; \<open>AferoMulti\<close>: \<open>multi.go\<close>; \<open>AferoSingle\<close>: \<open>single.go\<close>, all of \<open>backend/s3afero\<close>. \<open>MemFs\<close>: a file system in
      memory that meets the laws. \<open>AferoServer\<close>: the server over \<open>multi.go\<close>, which provides \<open>storing_backend\<close>,
      and the instance of all laws that runs the witnesses.
    \<^item> \<open>AferoConfig\<close>: \<open>util.go\<close>, \<open>option.go\<close> and the constructors of \<open>backend/s3afero\<close>. \<open>Logging\<close>: \<open>log.go\<close>, with
      the arrays behind slices. \<open>TimeSource\<close>: \<open>time.go\<close>. \<open>Command\<close>: \<open>cmd/gofakes3/main.go\<close>, from the arguments
      to the server that is handed to \<open>listenAndServe\<close>. \<open>Assumer\<close>: \<open>internal/s3assumer\<close>, its tests as computations
      that end, fail or panic, over a client that is a record of calls.
    \<^item> \<open>StoreSpec\<close>: the abstract store, a map of buckets to maps of keys to objects with its operations and
      their preconditions; the specification of \<open>s3bolt\<close> and of \<open>s3mem\<close> without versioning.

  \<^bold>\<open>Lemmas.\<close> \<open>MemBucketFacts\<close>, \<open>MemFacts\<close>, \<open>MemObjects\<close>, \<open>MemListFacts\<close> and \<open>MemVersionFacts\<close> carry the
  invariant of the in-memory back end (\<open>mem_ok\<close>: order and uniqueness of keys and versions, version
  IDs below the counter, the names in the data), the abstraction of an object to the list of its
  versions, and the loops of the listings. \<open>UploaderFacts\<close> carries the invariant of the uploader.
  \<open>ServerFacts\<close> shows that no handler has sent anything when it fails and says what handlers do to the state
  behind them (\<open>within R\<close>, for any relation closed under composition, locale \<open>step_relation\<close>): safe methods
  keep it (locale \<open>reading_backend\<close>). \<open>ServerSteps\<close> shows that a request is a step of such a relation if the
  operations of the back end are (locales \<open>adding_backend\<close> for requests that delete nothing,
  \<open>stepping_backend\<close> for all), and reduces this to the storage beside the uploader (\<open>adding_server\<close>,
  \<open>stepping_server\<close>). \<open>RequestProperties\<close> interprets them on \<open>s3mem\<close>, so that sequences of requests inherit
  the invariants of the back end and of the uploader. \<open>MemConcurrent\<close> lets the sections that the lock of \<open>s3mem\<close>
  protects interleave: \<open>PutObject\<close> has two of them, every other operation is one. \<open>AssumerService\<close> says in the
  locale \<open>versioned_service\<close> what the tests of versions of \<open>s3assumer\<close> need of the SDK and the service behind
  it, and \<open>AssumerServer\<close> shows (\<open>mem_service\<close>) that a plain client of the server over \<open>s3mem\<close> provides it.
  \<open>BoltFacts\<close> reads a database as a map of buckets
  to maps of keys to objects (\<open>bolt_abs\<close>) and shows what every operation of \<open>s3bolt\<close> does to it; \<open>MemStore\<close>
  does the same for \<open>s3mem\<close> while versioning was never enabled. \<open>AferoFacts\<close>
  and \<open>AferoSingleFacts\<close> show, over all file systems that meet \<open>multi_laws\<close>, what the operations of
  \<open>s3afero\<close> do to files and documents, and that documents stay true (\<open>bucket_fresh\<close>). The
  theories \<open>MemProperties\<close>, \<open>MemPaging\<close>, \<open>UploaderProperties\<close>, \<open>ServerProperties\<close>, \<open>ChunkProperties\<close>, \<open>CoreProperties\<close>,
  \<open>BoltProperties\<close>, \<open>AferoProperties\<close>, \<open>StoreProperties\<close>, \<open>CommandProperties\<close>, \<open>RequestProperties\<close>,
  \<open>AssumerProperties\<close>, \<open>MemConcurrent\<close>, \<open>MemVersionPaging\<close> and \<open>BucketAnswers\<close> (requests for buckets that do not
  exist, and for versions) hold the properties and their witnesses on concrete inputs.

  \<^bold>\<open>Parameters and assumptions.\<close> The skip list, MD5, base64, the formatting and parsing of times, the XML
  decoder and the form parser are arguments of the definitions. The laws of the skip list are those
  of its documentation: an ordered map whose iterator visits the keys in order. The laws of \<open>bbolt\<close> are those of its
  documentation: a map of buckets to ordered maps; a cursor visits the keys in order while nothing is
  written and stands on an existing key at any time; a transaction is rolled back as a whole, and a
  commit may fail. \<open>bson\<close> gives back what it encoded, with times in milliseconds, if no metadata key
  has a NUL byte. A file system may fail whenever it writes; what it has done when it succeeds, and that
  it touches nothing else, is documented by \<open>os\<close> and \<open>afero\<close>. Its contents are those that an open file
  delivers: a failure to read a file that has been opened is not modelled. Path separators are those
  of Unix. The measured file system keeps times in multiples of one of the resolutions that are tried,
  rounding down, and JSON gives back metadata in ASCII. A back end that
  stores an object has read its body to the end, which makes the ETag of the handlers the MD5 of the
  whole body. An inner reader of \<open>chunk.go\<close> may deliver fewer bytes than asked; the server model uses
  the stream of readers that do not. Metadata maps are association lists in some order. The AWS SDK that
  \<open>s3assumer\<close> calls is a parameter, a function from its configuration to a record of calls. The client of \<open>AssumerServer\<close>
  is an instance of it and not the SDK: it puts the bucket into the path, whatever the configuration, and sends no
  date; for it, a formatted time has at most 100 characters, and the decoder reads the versioning documents that are sent.
  Random bytes and the readings of the clock are streams.

  \<^bold>\<open>Bounds and fuel.\<close> The loops of the listings run over an iterator of the skip list; they take the
  length of the list plus one as fuel, which is enough since each step consumes one entry, and the
  properties of the listings show that the result is never \<open>NoFuel\<close>. The loop of \<open>ForceDeleteBucket\<close> in
  \<open>s3bolt\<close> deletes a key in each pass, so the number of keys plus one is enough. Version IDs are increasing for
  the first \<open>10^30 - 1\<close>, the width of their counter.

  \<^bold>\<open>Not modelled.\<close> The bytes of XML documents; what the log targets, the terminal, the profiler and the
  handlers of the debug server do; file modes; the Close methods of files and bodies; the output of the verbose mode of \<open>s3assumer\<close>; the
  build script, which calls the Go tools. The wall clock is an input of each operation. Requests are
  answered one after the other, but for \<open>MemConcurrent\<close>; a data race on memory without a lock is outside the
  model.
\<close>

end
